(* ===== verification/Prelude.thy ===== *)
theory Prelude
  imports Main "HOL-Library.Monad_Syntax" "HOL-Library.Code_Target_Nat"
begin

text \<open>
  Shared vocabulary of the development: the exceptions the Python code raises,
  the result type of code that may raise, the state-passing handlers of the
  HTTP layer, and the few operations of Python's \<^verbatim>\<open>str\<close> the program uses
  (\<^verbatim>\<open>split\<close>, \<^verbatim>\<open>join\<close>, \<^verbatim>\<open>strip\<close>, \<^verbatim>\<open>isdigit\<close>, \<^verbatim>\<open>int\<close>, decimal printing,
  \<^verbatim>\<open>repr\<close>). Strings are lists of 8-bit characters; text beyond ASCII is outside
  the model.
\<close>

section \<open>Automation\<close>

named_theorems result_simps \<open>characterisations of successful runs of fallible code\<close>
named_theorems handler_defs \<open>definitions of HTTP handlers and their guards\<close>
named_theorems frame_simps \<open>which tables an operation leaves alone\<close>

section \<open>Exceptions and results\<close>

text \<open>
  One constructor per exception class the modelled code raises or lets through.
  \<^verbatim>\<open>HTTPException\<close> carries the status code and the detail string; \<^term>\<open>EnrollReject\<close> is
  the 401 of the enrollment listener with the reason and the token id it logs; \<^verbatim>\<open>CliExit\<close> is a
  command that ends with an exit code after printing a message.
\<close>

datatype exn =
    HTTPException int string
  | ValueError string
  | RuntimeError string
  | IPPoolExhausted string
  | IntegrityError
  | RateLimitBackendError string
  | ProxyProtocolError string
  | UntrustedHostKeyError string string
  | DecryptError string
  | SSHCommandError string
  | SSHConnectionError string
  | SSHCAError string
  | HostCertInstallError string
  | EnrollReject string "int option"
  | OSError string
  | IndexError
  | Retry int
  | PKIError string
  | TypeError string
  | VaultInvalidRequest string
  | VaultInvalidPath string
  | VaultOther string
  | CliExit int string
  | OtherError string

type_synonym 'a result = "exn + 'a"

definition rbind :: "'a result \<Rightarrow> ('a \<Rightarrow> 'b result) \<Rightarrow> 'b result" where
  "rbind m f = (case m of Inl e \<Rightarrow> Inl e | Inr x \<Rightarrow> f x)"

definition check :: "bool \<Rightarrow> exn \<Rightarrow> unit result" where
  "check b e = (if b then Inr () else Inl e)"

definition or_raise :: "'a option \<Rightarrow> exn \<Rightarrow> 'a result" where
  "or_raise x e = (case x of None \<Rightarrow> Inl e | Some y \<Rightarrow> Inr y)"

lemma rbind_simps [simp]:
  "rbind (Inl e) f = Inl e"
  "rbind (Inr x) f = f x"
  by (simp_all add: rbind_def)

lemma rbind_Inr_iff [result_simps]:
  "rbind m f = Inr y \<longleftrightarrow> (\<exists>x. m = Inr x \<and> f x = Inr y)"
  by (cases m) simp_all

lemma rbind_Inl_iff [result_simps]:
  "rbind m f = Inl e \<longleftrightarrow> m = Inl e \<or> (\<exists>x. m = Inr x \<and> f x = Inl e)"
  by (cases m) simp_all

lemma check_simps [simp]:
  "check True e = Inr ()"
  "check False e = Inl e"
  by (simp_all add: check_def)

lemma check_Inr_iff [result_simps]: "check b e = Inr u \<longleftrightarrow> b"
  by (simp add: check_def)

lemma check_Inl_iff [result_simps]: "check b e = Inl e' \<longleftrightarrow> \<not> b \<and> e' = e"
  by (auto simp: check_def)

lemma or_raise_simps [simp]:
  "or_raise None e = Inl e"
  "or_raise (Some x) e = Inr x"
  by (simp_all add: or_raise_def)

lemma or_raise_Inr_iff [result_simps]: "or_raise x e = Inr y \<longleftrightarrow> x = Some y"
  by (cases x) simp_all

lemma or_raise_Inl_iff [result_simps]: "or_raise x e = Inl e' \<longleftrightarrow> x = None \<and> e' = e"
  by (cases x) auto

text \<open>
  Apply a fallible function to every element, left to right, stopping at the
  first exception (a Python comprehension or \<^verbatim>\<open>for\<close> loop whose body may raise).
\<close>

fun rmap :: "('a \<Rightarrow> 'b result) \<Rightarrow> 'a list \<Rightarrow> 'b list result" where
  "rmap f [] = Inr []"
| "rmap f (x # xs) = rbind (f x) (\<lambda>y. rbind (rmap f xs) (\<lambda>ys. Inr (y # ys)))"

lemma rmap_Inr_length: "rmap f xs = Inr ys \<Longrightarrow> length ys = length xs"
  by (induction xs arbitrary: ys) (auto simp: result_simps)

lemma rmap_Inr_nth:
  "rmap f xs = Inr ys \<Longrightarrow> i < length xs \<Longrightarrow> f (xs ! i) = Inr (ys ! i)"
proof (induction xs arbitrary: ys i)
  case (Cons x xs)
  then show ?case by (cases i) (auto simp: result_simps)
qed simp

lemma rmap_Inr_set: "rmap f xs = Inr ys \<Longrightarrow> y \<in> set ys \<Longrightarrow> \<exists>x \<in> set xs. f x = Inr y"
  by (induction xs arbitrary: ys) (auto simp: result_simps)

lemma rmap_Inr_all: "rmap f xs = Inr ys \<Longrightarrow> x \<in> set xs \<Longrightarrow> \<exists>y \<in> set ys. f x = Inr y"
  by (induction xs arbitrary: ys) (auto simp: result_simps)

lemma rmap_Inl: "rmap f xs = Inl e \<Longrightarrow> \<exists>x \<in> set xs. f x = Inl e"
  by (induction xs) (auto simp: result_simps)

lemma rmap_set_iff: "rmap f xs = Inr ys \<Longrightarrow> y \<in> set ys \<longleftrightarrow> (\<exists>x \<in> set xs. f x = Inr y)"
  by (induction xs arbitrary: ys) (auto simp: result_simps)

lemma rmap_Inr_map: "(\<And>x. x \<in> set xs \<Longrightarrow> f x = Inr (g x)) \<Longrightarrow> rmap f xs = Inr (map g xs)"
  by (induction xs) simp_all

section \<open>Handlers\<close>

text \<open>
  A handler maps the state to the state it leaves behind and either the
  exception that reached the framework or its result. \<^term>\<open>atomically\<close> is one
  database session: an exception before the commit discards every change.
\<close>

type_synonym ('s, 'a) handler = "'s \<Rightarrow> 's \<times> 'a result"

definition atomically :: "('s \<Rightarrow> ('s \<times> 'a) result) \<Rightarrow> ('s, 'a) handler" where
  "atomically tx s = (case tx s of Inl e \<Rightarrow> (s, Inl e) | Inr (s', x) \<Rightarrow> (s', Inr x))"

definition andThen :: "('s, 'a) handler \<Rightarrow> ('a \<Rightarrow> ('s, 'b) handler) \<Rightarrow> ('s, 'b) handler" where
  "andThen m f s = (case m s of (s', Inl e) \<Rightarrow> (s', Inl e) | (s', Inr x) \<Rightarrow> f x s')"

lemma atomically_Inr_iff [result_simps]:
  "atomically tx s = (s', Inr x) \<longleftrightarrow> tx s = Inr (s', x)"
  by (auto simp: atomically_def split: sum.splits)

lemma atomically_Inl_iff [result_simps]:
  "atomically tx s = (s', Inl e) \<longleftrightarrow> tx s = Inl e \<and> s' = s"
  by (auto simp: atomically_def split: sum.splits)

lemma andThen_Inr_iff [result_simps]:
  "andThen m f s = (t, Inr y) \<longleftrightarrow> (\<exists>s' x. m s = (s', Inr x) \<and> f x s' = (t, Inr y))"
  by (auto simp: andThen_def split: prod.splits sum.splits)

lemma andThen_Inl_iff [result_simps]:
  "andThen m f s = (t, Inl e) \<longleftrightarrow>
     m s = (t, Inl e) \<or> (\<exists>s' x. m s = (s', Inr x) \<and> f x s' = (t, Inl e))"
  by (auto simp: andThen_def split: prod.splits sum.splits)

text \<open>\<^verbatim>\<open>return\<close>, \<^verbatim>\<open>raise\<close> and \<^verbatim>\<open>try: ... except\<close> for code that changes state which no rollback undoes.\<close>

definition returning :: "'a \<Rightarrow> ('s, 'a) handler" where
  "returning x s = (s, Inr x)"

definition raising :: "exn \<Rightarrow> ('s, 'a) handler" where
  "raising e s = (s, Inl e)"

definition handling :: "('s, 'a) handler \<Rightarrow> (exn \<Rightarrow> ('s, 'a) handler) \<Rightarrow> ('s, 'a) handler" where
  "handling m h s = (case m s of (s', Inl e) \<Rightarrow> h e s' | (s', Inr x) \<Rightarrow> (s', Inr x))"

lemma handling_Inr_iff [result_simps]:
  "handling m h s = (t, Inr y) \<longleftrightarrow> m s = (t, Inr y) \<or> (\<exists>s' e. m s = (s', Inl e) \<and> h e s' = (t, Inr y))"
  by (auto simp: handling_def split: prod.splits sum.splits)

lemma returning_iff [result_simps]: "returning x s = (t, r) \<longleftrightarrow> t = s \<and> r = Inr x"
  by (auto simp: returning_def)

lemma raising_iff [result_simps]: "raising e s = (t, r) \<longleftrightarrow> t = s \<and> r = Inl e"
  by (auto simp: raising_def)

section \<open>Python strings\<close>

text \<open>Decimal digits, by character code (48 is the code of \<^verbatim>\<open>0\<close>).\<close>

definition is_digit :: "char \<Rightarrow> bool" where
  "is_digit c \<longleftrightarrow> 48 \<le> (of_char c :: nat) \<and> (of_char c :: nat) \<le> 57"

definition digit_val :: "char \<Rightarrow> nat" where
  "digit_val c = of_char c - 48"

definition digit_char :: "nat \<Rightarrow> char" where
  "digit_char d = char_of (48 + d)"

lemma of_digit_char: "d < 10 \<Longrightarrow> of_char (digit_char d) = (48 + d :: nat)"
  by (simp add: digit_char_def)

lemma digit_char_inverse [simp]: "d < 10 \<Longrightarrow> digit_val (digit_char d) = d"
  by (simp add: digit_val_def of_digit_char)

lemma is_digit_digit_char [simp]: "d < 10 \<Longrightarrow> is_digit (digit_char d)"
  by (simp add: is_digit_def of_digit_char)

lemma digit_chars:
  "digit_char 0 = CHR ''0''" "digit_char 1 = CHR ''1''" "digit_char (Suc 0) = CHR ''1''"
  "digit_char 2 = CHR ''2''" "digit_char 3 = CHR ''3''" "digit_char 4 = CHR ''4''"
  "digit_char 5 = CHR ''5''" "digit_char 6 = CHR ''6''" "digit_char 7 = CHR ''7''"
  "digit_char 8 = CHR ''8''" "digit_char 9 = CHR ''9''"
  by code_simp+

lemma digit_val_less [simp]: "is_digit c \<Longrightarrow> digit_val c < 10"
  by (auto simp: is_digit_def digit_val_def)

text \<open>\<^verbatim>\<open>s.isdigit()\<close>: non-empty and digits only.\<close>

definition isdigit :: "string \<Rightarrow> bool" where
  "isdigit s \<longleftrightarrow> s \<noteq> [] \<and> list_all is_digit s"

text \<open>\<^verbatim>\<open>int(s)\<close> of a digit string, and \<^verbatim>\<open>str(n)\<close> of a non-negative number.\<close>

definition digits_to_nat :: "string \<Rightarrow> nat" where
  "digits_to_nat s = foldl (\<lambda>n c. 10 * n + digit_val c) 0 s"

fun str_of_nat :: "nat \<Rightarrow> string" where
  "str_of_nat n = (if n < 10 then [digit_char n] else str_of_nat (n div 10) @ [digit_char (n mod 10)])"

declare str_of_nat.simps [simp del]

definition str_of_int :: "int \<Rightarrow> string" where
  "str_of_int i = (if i < 0 then CHR ''-'' # str_of_nat (nat (- i)) else str_of_nat (nat i))"

lemma str_of_nat_small: "n < 10 \<Longrightarrow> str_of_nat n = [digit_char n]"
  by (simp add: str_of_nat.simps [of n])

lemma str_of_nat_big: "\<not> n < 10 \<Longrightarrow> str_of_nat n = str_of_nat (n div 10) @ [digit_char (n mod 10)]"
  by (simp add: str_of_nat.simps [of n])

lemma str_of_nat_roundtrip [simp]: "digits_to_nat (str_of_nat n) = n"
proof (induction n rule: str_of_nat.induct)
  case (1 n)
  then show ?case
    by (cases "n < 10") (simp_all add: str_of_nat_small str_of_nat_big digits_to_nat_def)
qed

lemma str_of_nat_digits: "list_all is_digit (str_of_nat n)"
proof (induction n rule: str_of_nat.induct)
  case (1 n)
  then show ?case by (cases "n < 10") (simp_all add: str_of_nat_small str_of_nat_big)
qed

lemma str_of_nat_not_Nil [simp]: "str_of_nat n \<noteq> []"
  by (subst str_of_nat.simps) simp

lemma isdigit_str_of_nat [simp]: "isdigit (str_of_nat n)"
  by (simp add: isdigit_def str_of_nat_digits)

lemma str_of_nat_inject [simp]: "str_of_nat m = str_of_nat n \<longleftrightarrow> m = n"
  by (metis str_of_nat_roundtrip)

lemma hd_str_of_nat: "n \<noteq> 0 \<Longrightarrow> hd (str_of_nat n) \<noteq> CHR ''0''"
proof (induction n rule: str_of_nat.induct)
  case (1 n)
  show ?case
  proof (cases "n < 10")
    case True
    have "digit_char n \<noteq> CHR ''0''"
    proof
      assume "digit_char n = CHR ''0''"
      with True have "n = digit_val CHR ''0''" by (metis digit_char_inverse)
      with "1.prems" show False by (simp add: digit_val_def)
    qed
    with True show ?thesis by (simp add: str_of_nat_small)
  next
    case False
    with "1.IH" show ?thesis by (simp add: str_of_nat_big)
  qed
qed

lemma length_str_of_nat_mono: "n < 10 ^ k \<Longrightarrow> 0 < k \<Longrightarrow> length (str_of_nat n) \<le> k"
proof (induction k arbitrary: n)
  case (Suc k)
  show ?case
  proof (cases "n < 10")
    case False
    with Suc.prems have "n div 10 < 10 ^ k" and "0 < k"
      by (auto intro: gr0I)
    with Suc.IH False show ?thesis by (simp add: str_of_nat_big)
  qed (simp add: str_of_nat_small)
qed simp

text \<open>
  \<^verbatim>\<open>s.split(c)\<close> for a one-character separator (never empty: \<^verbatim>\<open>''.split(',')\<close> is
  \<^verbatim>\<open>['']\<close>), and \<^verbatim>\<open>c.join(parts)\<close>.
\<close>

fun split_on :: "char \<Rightarrow> string \<Rightarrow> string list" where
  "split_on c [] = [[]]"
| "split_on c (x # xs) =
     (if x = c then [] # split_on c xs
      else (case split_on c xs of [] \<Rightarrow> [[x]] | p # ps \<Rightarrow> (x # p) # ps))"

fun join_with :: "string \<Rightarrow> string list \<Rightarrow> string" where
  "join_with sep [] = []"
| "join_with sep [p] = p"
| "join_with sep (p # q # ps) = p @ sep @ join_with sep (q # ps)"

lemma split_on_not_Nil [simp]: "split_on c s \<noteq> []"
  by (induction s) (auto split: list.splits)

lemma join_split [simp]: "join_with [c] (split_on c s) = s"
proof (induction s)
  case (Cons x xs)
  obtain p ps where ps: "split_on c xs = p # ps"
    by (meson neq_Nil_conv split_on_not_Nil)
  with Cons show ?case by (cases ps) auto
qed simp

lemma split_on_no_sep [simp]: "c \<notin> set s \<Longrightarrow> split_on c s = [s]"
  by (induction s) auto

lemma split_on_append [simp]:
  "c \<notin> set p \<Longrightarrow> split_on c (p @ c # s) = p # split_on c s"
  by (induction p) auto

lemma split_join:
  "ps \<noteq> [] \<Longrightarrow> (\<And>p. p \<in> set ps \<Longrightarrow> c \<notin> set p) \<Longrightarrow> split_on c (join_with [c] ps) = ps"
proof (induction "[c]" ps rule: join_with.induct)
  case (3 p q ps)
  then show ?case by simp
qed simp_all

lemma split_on_no_sep_in: "p \<in> set (split_on c s) \<Longrightarrow> c \<notin> set p"
proof (induction s arbitrary: p)
  case (Cons x xs)
  obtain q qs where q: "split_on c xs = q # qs"
    by (meson neq_Nil_conv split_on_not_Nil)
  with Cons show ?case by (auto split: if_splits)
qed simp

lemma split_on_subset: "p \<in> set (split_on c s) \<Longrightarrow> set p \<subseteq> set s"
proof (induction s arbitrary: p)
  case (Cons x xs)
  obtain q qs where q: "split_on c xs = q # qs"
    by (meson neq_Nil_conv split_on_not_Nil)
  with Cons show ?case by (auto split: if_splits) blast+
qed simp

lemma digit_not_sep: "\<not> is_digit c \<Longrightarrow> c \<notin> set (str_of_nat n)"
  using str_of_nat_digits [of n] by (auto simp: list_all_iff)

text \<open>\<^verbatim>\<open>s.partition(c)\<close>: the part before the first \<^verbatim>\<open>c\<close>, whether there is one, the rest.\<close>

definition partition_on :: "char \<Rightarrow> string \<Rightarrow> string \<times> bool \<times> string" where
  "partition_on c s = (let p = takeWhile (\<lambda>x. x \<noteq> c) s; r = dropWhile (\<lambda>x. x \<noteq> c) s
     in (p, r \<noteq> [], drop 1 r))"

text \<open>\<^verbatim>\<open>s.strip()\<close>, \<^verbatim>\<open>s.split()\<close> on whitespace and \<^verbatim>\<open>s.lower()\<close>, on ASCII.\<close>

definition is_space :: "char \<Rightarrow> bool" where
  "is_space c \<longleftrightarrow> (let n = of_char c :: nat in n = 32 \<or> (9 \<le> n \<and> n \<le> 13) \<or> (28 \<le> n \<and> n \<le> 31))"

definition rstrip_if :: "(char \<Rightarrow> bool) \<Rightarrow> string \<Rightarrow> string" where
  "rstrip_if p s = rev (dropWhile p (rev s))"

definition strip :: "string \<Rightarrow> string" where
  "strip s = rstrip_if is_space (dropWhile is_space s)"

definition lower_char :: "char \<Rightarrow> char" where
  "lower_char c = (let n = of_char c :: nat in if 65 \<le> n \<and> n \<le> 90 then char_of (n + 32) else c)"

definition lower :: "string \<Rightarrow> string" where
  "lower s = map lower_char s"

definition startswith :: "string \<Rightarrow> string \<Rightarrow> bool" where
  "startswith s p \<longleftrightarrow> take (length p) s = p"

text \<open>\<^verbatim>\<open>needle in hay\<close> for strings.\<close>

definition contains :: "string \<Rightarrow> string \<Rightarrow> bool" where
  "contains needle hay \<longleftrightarrow> list_ex (\<lambda>i. take (length needle) (drop i hay) = needle) [0..<length hay + 1]"

text \<open>\<^verbatim>\<open>repr(s)\<close> of a string, as the error details use it.\<close>

definition repr_char :: "char \<Rightarrow> char \<Rightarrow> string" where
  "repr_char q c =
     (if c = q \<or> c = CHR 0x5C then [CHR 0x5C, c]
      else if c = CHR 0x0A then [CHR 0x5C, CHR ''n'']
      else if c = CHR 0x0D then [CHR 0x5C, CHR ''r'']
      else if c = CHR 0x09 then [CHR 0x5C, CHR ''t'']
      else let n = of_char c :: nat; hex = \<lambda>d. char_of (if d < 10 then 48 + d else 87 + d) in
        if n < 32 \<or> n = 127 then [CHR 0x5C, CHR ''x'', hex (n div 16), hex (n mod 16)] else [c])"

definition py_repr :: "string \<Rightarrow> string" where
  "py_repr s =
     (let q = (if CHR 0x27 \<in> set s \<and> CHR 0x22 \<notin> set s then CHR 0x22 else CHR 0x27)
      in q # concat (map (repr_char q) s) @ [q])"

section \<open>Lists of rows\<close>

text \<open>
  A table is the list of its rows in primary-key order; \<^verbatim>\<open>session.get(Model, id)\<close>
  and \<^verbatim>\<open>select(...).where(...).first()\<close> both return the first matching row.
\<close>

definition get_row :: "('r \<Rightarrow> int) \<Rightarrow> 'r list \<Rightarrow> int \<Rightarrow> 'r option" where
  "get_row key rows i = find (\<lambda>r. key r = i) rows"

definition put_row :: "('r \<Rightarrow> int) \<Rightarrow> 'r \<Rightarrow> 'r list \<Rightarrow> 'r list" where
  "put_row key r rows = map (\<lambda>x. if key x = key r then r else x) rows"

definition del_row :: "('r \<Rightarrow> int) \<Rightarrow> int \<Rightarrow> 'r list \<Rightarrow> 'r list" where
  "del_row key i rows = filter (\<lambda>x. key x \<noteq> i) rows"

lemma distinct_map_eq: "distinct (map f xs) \<Longrightarrow> x \<in> set xs \<Longrightarrow> y \<in> set xs \<Longrightarrow> f x = f y \<Longrightarrow> x = y"
  by (simp add: distinct_map inj_on_def)

lemma find_None_iff': "find P xs = None \<longleftrightarrow> (\<forall>x \<in> set xs. \<not> P x)"
  by (auto simp: find_None_iff)

lemma find_SomeD: "find P xs = Some x \<Longrightarrow> x \<in> set xs \<and> P x"
  by (induction xs) (auto split: if_splits)

lemma get_row_SomeD: "get_row key rows i = Some r \<Longrightarrow> r \<in> set rows \<and> key r = i"
  by (auto simp: get_row_def dest: find_SomeD)

lemma get_row_None_iff: "get_row key rows i = None \<longleftrightarrow> i \<notin> key ` set rows"
  by (auto simp: get_row_def find_None_iff)

lemma in_keys_iff: "i \<in> key ` set rows \<longleftrightarrow> get_row key rows i \<noteq> None"
  by (simp add: get_row_None_iff)

lemma get_row_eq_Some_iff:
  "distinct (map key rows) \<Longrightarrow> get_row key rows i = Some r \<longleftrightarrow> r \<in> set rows \<and> key r = i"
  by (induction rows) (auto simp: get_row_def image_iff)

lemma keys_put_row [simp]: "map key (put_row key r rows) = map key rows"
  by (simp add: put_row_def)

lemma length_put_row [simp]: "length (put_row key r rows) = length rows"
  by (simp add: put_row_def)

lemma set_put_row_subset: "set (put_row key r rows) \<subseteq> insert r (set rows)"
  by (auto simp: put_row_def)

lemma in_put_row:
  "x \<in> set (put_row key r rows) \<longleftrightarrow>
     (x = r \<and> key r \<in> key ` set rows) \<or> (x \<in> set rows \<and> key x \<noteq> key r)"
proof -
  have "(\<exists>y \<in> set rows. x = (if key y = key r then r else y)) \<longleftrightarrow>
      (x = r \<and> (\<exists>y \<in> set rows. key y = key r)) \<or> (x \<in> set rows \<and> key x \<noteq> key r)"
    by (auto split: if_splits)
  then show ?thesis by (auto simp: put_row_def image_iff) metis+
qed

lemma set_del_row [simp]: "set (del_row key i rows) = {r \<in> set rows. key r \<noteq> i}"
  by (auto simp: del_row_def)

lemma distinct_del_row [simp]: "distinct (map key rows) \<Longrightarrow> distinct (map key (del_row key i rows))"
  by (simp add: del_row_def distinct_map_filter)

lemma get_put_row:
  "get_row key (put_row key r rows) i =
     (if i = key r then (if i \<in> key ` set rows then Some r else None) else get_row key rows i)"
  by (induction rows) (auto simp: get_row_def put_row_def)

lemma get_del_row: "get_row key (del_row key j rows) i = (if i = j then None else get_row key rows i)"
  by (induction rows) (auto simp: get_row_def del_row_def)

lemma get_append_row:
  "get_row key (rows @ [r]) i =
     (case get_row key rows i of Some x \<Rightarrow> Some x | None \<Rightarrow> if key r = i then Some r else None)"
  by (induction rows) (auto simp: get_row_def)

lemma find_append: "find P (xs @ ys) = (case find P xs of None \<Rightarrow> find P ys | Some x \<Rightarrow> Some x)"
  by (induction xs) auto

text \<open>\<^verbatim>\<open>UPDATE ... SET f WHERE P\<close>: every row that satisfies the condition is changed.\<close>

definition upd_where :: "('r \<Rightarrow> bool) \<Rightarrow> ('r \<Rightarrow> 'r) \<Rightarrow> 'r list \<Rightarrow> 'r list" where
  "upd_where P f rows = map (\<lambda>x. if P x then f x else x) rows"

lemma map_upd_where: "(\<And>x. g (f x) = g x) \<Longrightarrow> map g (upd_where P f rows) = map g rows"
  by (simp add: upd_where_def)

lemma set_upd_where: "x \<in> set (upd_where P f rows) \<longleftrightarrow> (\<exists>y \<in> set rows. x = (if P y then f y else y))"
  by (auto simp: upd_where_def)

lemma get_upd_where:
  assumes "\<And>x. key (f x) = key x"
  shows "get_row key (upd_where P f rows) i = map_option (\<lambda>x. if P x then f x else x) (get_row key rows i)"
  using assms by (induction rows) (auto simp: get_row_def upd_where_def)

text \<open>
  The contract of a keyed table as its clients use it: what a lookup returns
  after an insert, an update and a delete, and that keys stay unique.
\<close>

locale keyed_table =
  fixes lookup :: "'t \<Rightarrow> int \<Rightarrow> 'r option"
    and insert_row :: "'r \<Rightarrow> 't \<Rightarrow> 't"
    and update :: "'r \<Rightarrow> 't \<Rightarrow> 't"
    and delete :: "int \<Rightarrow> 't \<Rightarrow> 't"
    and key :: "'r \<Rightarrow> int"
    and invar :: "'t \<Rightarrow> bool"
  assumes lookup_key: "lookup t i = Some r \<Longrightarrow> key r = i"
    and lookup_insert: "lookup t (key r) = None \<Longrightarrow>
          lookup (insert_row r t) i = (if i = key r then Some r else lookup t i)"
    and lookup_update: "lookup (update r t) i =
          (if i = key r then (case lookup t i of None \<Rightarrow> None | Some _ \<Rightarrow> Some r) else lookup t i)"
    and lookup_delete: "lookup (delete j t) i = (if i = j then None else lookup t i)"
    and invar_insert: "invar t \<Longrightarrow> lookup t (key r) = None \<Longrightarrow> invar (insert_row r t)"
    and invar_update: "invar t \<Longrightarrow> invar (update r t)"
    and invar_delete: "invar t \<Longrightarrow> invar (delete j t)"
begin

lemma lookup_insert_same: "lookup t (key r) = None \<Longrightarrow> lookup (insert_row r t) (key r) = Some r"
  by (simp add: lookup_insert)

lemma delete_insert:
  "lookup t (key r) = None \<Longrightarrow> lookup (delete (key r) (insert_row r t)) = lookup t"
  by (rule ext) (auto simp: lookup_delete lookup_insert)

lemma update_idem: "lookup (update r (update r t)) = lookup (update r t)"
  by (rule ext) (auto simp: lookup_update split: option.splits)

lemma update_frame: "i \<noteq> key r \<Longrightarrow> lookup (update r t) i = lookup t i"
  by (simp add: lookup_update)

end

lemma list_table:
  fixes key :: "'r \<Rightarrow> int"
  shows "keyed_table (get_row key) (\<lambda>r rows. rows @ [r]) (put_row key) (del_row key) key
     (\<lambda>rows. distinct (map key rows))"
proof unfold_locales
  fix t :: "'r list" and r :: 'r and i j :: int
  show "get_row key t i = Some r \<Longrightarrow> key r = i"
    by (simp add: get_row_SomeD)
  show "get_row key t (key r) = None \<Longrightarrow>
      get_row key (t @ [r]) i = (if i = key r then Some r else get_row key t i)"
    by (auto simp: get_append_row split: option.splits)
  show "get_row key (put_row key r t) i =
      (if i = key r then (case get_row key t i of None \<Rightarrow> None | Some _ \<Rightarrow> Some r) else get_row key t i)"
    by (cases "get_row key t i") (auto simp: get_put_row in_keys_iff)
  show "get_row key (del_row key j t) i = (if i = j then None else get_row key t i)"
    by (rule get_del_row)
  show "distinct (map key t) \<Longrightarrow> get_row key t (key r) = None \<Longrightarrow> distinct (map key (t @ [r]))"
    by (simp add: get_row_None_iff)
  show "distinct (map key t) \<Longrightarrow> distinct (map key (put_row key r t))"
    by simp
  show "distinct (map key t) \<Longrightarrow> distinct (map key (del_row key j t))"
    by simp
qed

end
