(* ===== verification/Ip_Address.thy ===== *)
theory Ip_Address
  imports Prelude
begin

unbundle bit_operations_syntax

text \<open>
  The part of Python's \<^verbatim>\<open>ipaddress\<close> module the program uses, for IPv4: parsing
  and printing addresses and networks, netmasks, membership, \<^verbatim>\<open>hosts()\<close>,
  \<^verbatim>\<open>subnet_of\<close> and \<^verbatim>\<open>overlaps\<close>. An address is the integer the Python object
  holds in \<^verbatim>\<open>_ip\<close>; a network is its address and prefix length. The lemmas relate
  the bitwise operations to intervals of addresses.
\<close>

section \<open>Addresses\<close>

definition parse_octet :: "string \<Rightarrow> nat result" where
  "parse_octet s =
     (if s = [] then Inl (ValueError ''Empty octet not permitted'')
      else if \<not> isdigit s then Inl (ValueError ''Only decimal digits permitted'')
      else if length s > 3 then Inl (ValueError ''At most 3 characters permitted'')
      else if s \<noteq> ''0'' \<and> hd s = CHR ''0'' then Inl (ValueError ''Leading zeros are not permitted'')
      else if digits_to_nat s > 255 then Inl (ValueError ''Octet (> 255) not permitted'')
      else Inr (digits_to_nat s))"

definition ip4_of_string :: "string \<Rightarrow> nat result" where
  "ip4_of_string s =
     (if CHR ''/'' \<in> set s then Inl (ValueError ''Unexpected slash in address'')
      else if s = [] then Inl (ValueError ''Address cannot be empty'')
      else let octets = split_on CHR ''.'' s in
        if length octets \<noteq> 4 then Inl (ValueError ''Expected 4 octets'')
        else rbind (rmap parse_octet octets) (\<lambda>bs. Inr (foldl (\<lambda>n b. 256 * n + b) 0 bs)))"

definition ip4_octets :: "nat \<Rightarrow> nat list" where
  "ip4_octets a = [a div 16777216 mod 256, a div 65536 mod 256, a div 256 mod 256, a mod 256]"

definition ip4_str :: "nat \<Rightarrow> string" where
  "ip4_str a = join_with ''.'' (map str_of_nat (ip4_octets a))"

section \<open>Networks\<close>

record ipv4_network =
  network_address :: nat
  prefixlen :: nat

definition all_ones :: nat where "all_ones = 4294967295"

definition netmask :: "nat \<Rightarrow> nat" where
  "netmask p = all_ones XOR drop_bit p all_ones"

definition hostmask :: "nat \<Rightarrow> nat" where
  "hostmask p = netmask p XOR all_ones"

fun count_righthand_zero_bits :: "nat \<Rightarrow> nat \<Rightarrow> nat" where
  "count_righthand_zero_bits n 0 = 0"
| "count_righthand_zero_bits n (Suc b) =
     (if n mod 2 = 1 then 0 else Suc (count_righthand_zero_bits (n div 2) b))"

definition prefix_from_ip_int :: "nat \<Rightarrow> nat option" where
  "prefix_from_ip_int n =
     (let z = count_righthand_zero_bits n 32; p = 32 - z
      in if drop_bit z n = 2 ^ p - 1 then Some p else None)"

definition prefix_from_ip_string :: "string \<Rightarrow> nat result" where
  "prefix_from_ip_string s =
     (case ip4_of_string s of
        Inl _ \<Rightarrow> Inl (ValueError ''not a valid netmask'')
      | Inr n \<Rightarrow> (case prefix_from_ip_int n of
            Some p \<Rightarrow> Inr p
          | None \<Rightarrow> (case prefix_from_ip_int (n XOR all_ones) of
                Some p \<Rightarrow> Inr p
              | None \<Rightarrow> Inl (ValueError ''not a valid netmask''))))"

definition make_netmask :: "string \<Rightarrow> nat result" where
  "make_netmask s =
     (if isdigit s \<and> digits_to_nat s \<le> 32 then Inr (digits_to_nat s)
      else prefix_from_ip_string s)"

definition split_addr_prefix :: "string \<Rightarrow> (string \<times> string option) result" where
  "split_addr_prefix s =
     (case split_on CHR ''/'' s of
        [a] \<Rightarrow> Inr (a, None)
      | [a, m] \<Rightarrow> Inr (a, Some m)
      | _ \<Rightarrow> Inl (ValueError ''Only one / permitted''))"

definition ip4_network :: "bool \<Rightarrow> string \<Rightarrow> ipv4_network result" where
  "ip4_network strict s =
     rbind (split_addr_prefix s) (\<lambda>(a, m).
     rbind (ip4_of_string a) (\<lambda>packed.
     rbind (case m of None \<Rightarrow> Inr 32 | Some t \<Rightarrow> make_netmask t) (\<lambda>p.
       if packed AND netmask p \<noteq> packed
       then (if strict then Inl (ValueError ''has host bits set'')
             else Inr \<lparr>network_address = packed AND netmask p, prefixlen = p\<rparr>)
       else Inr \<lparr>network_address = packed, prefixlen = p\<rparr>)))"

definition net_str :: "ipv4_network \<Rightarrow> string" where
  "net_str n = ip4_str (network_address n) @ ''/'' @ str_of_nat (prefixlen n)"

definition broadcast_address :: "ipv4_network \<Rightarrow> nat" where
  "broadcast_address n = network_address n OR hostmask (prefixlen n)"

definition in_network :: "nat \<Rightarrow> ipv4_network \<Rightarrow> bool" where
  "in_network a n \<longleftrightarrow> a AND netmask (prefixlen n) = network_address n"

definition hosts :: "ipv4_network \<Rightarrow> nat list" where
  "hosts n =
     (if prefixlen n = 32 then [network_address n]
      else if prefixlen n = 31 then [network_address n ..< broadcast_address n + 1]
      else [network_address n + 1 ..< broadcast_address n])"

definition subnet_of :: "ipv4_network \<Rightarrow> ipv4_network \<Rightarrow> bool" where
  "subnet_of a b \<longleftrightarrow>
     network_address b \<le> network_address a \<and> broadcast_address a \<le> broadcast_address b"

definition overlaps :: "ipv4_network \<Rightarrow> ipv4_network \<Rightarrow> bool" where
  "overlaps a b \<longleftrightarrow>
     in_network (network_address b) a \<or> in_network (broadcast_address b) a \<or>
     in_network (network_address a) b \<or> in_network (broadcast_address a) b"

section \<open>Masks and intervals\<close>

text \<open>What every constructed network satisfies: 32 bits, no host bits set.\<close>

definition wf_net :: "ipv4_network \<Rightarrow> bool" where
  "wf_net n \<longleftrightarrow> prefixlen n \<le> 32 \<and> network_address n < 4294967296 \<and>
     network_address n mod 2 ^ (32 - prefixlen n) = 0"

definition net_addresses :: "ipv4_network \<Rightarrow> nat set" where
  "net_addresses n = {network_address n ..< network_address n + 2 ^ (32 - prefixlen n)}"

lemma all_ones_mask: "all_ones = mask 32"
  by (simp add: all_ones_def mask_eq_exp_minus_1)

lemma netmask_push_bit:
  assumes "p \<le> 32"
  shows "netmask p = push_bit (32 - p) (mask p)"
proof (rule bit_eqI)
  fix i :: nat
  show "bit (netmask p) i = bit (push_bit (32 - p) (mask p :: nat)) i"
    using assms
    by (auto simp: netmask_def all_ones_mask bit_xor_iff bit_drop_bit_eq bit_push_bit_iff bit_mask_iff)
qed

lemma and_netmask:
  assumes "p \<le> 32" and "a < 4294967296"
  shows "a AND netmask p = a div 2 ^ (32 - p) * 2 ^ (32 - p)"
proof -
  have "a AND netmask p = push_bit (32 - p) (drop_bit (32 - p) a)"
  proof (rule bit_eqI)
    fix i :: nat
    have "take_bit 32 a = a" using assms(2) by (simp add: take_bit_nat_eq_self_iff)
    then have "i < 32 \<or> \<not> bit a i" by (metis bit_take_bit_iff)
    with assms(1) show "bit (a AND netmask p) i = bit (push_bit (32 - p) (drop_bit (32 - p) a)) i"
      by (auto simp: netmask_push_bit bit_and_iff bit_push_bit_iff bit_mask_iff bit_drop_bit_eq)
  qed
  then show ?thesis by (simp add: push_bit_eq_mult drop_bit_eq_div)
qed

lemma hostmask_eq: "p \<le> 32 \<Longrightarrow> hostmask p = 2 ^ (32 - p) - 1"
proof -
  assume p: "p \<le> 32"
  have "hostmask p = mask (32 - p)"
    by (rule bit_eqI)
      (use p in \<open>auto simp: hostmask_def netmask_push_bit all_ones_mask bit_xor_iff
        bit_push_bit_iff bit_mask_iff\<close>)
  then show ?thesis by (simp add: mask_eq_exp_minus_1)
qed

lemma broadcast_eq:
  assumes "wf_net n"
  shows "broadcast_address n = network_address n + (2 ^ (32 - prefixlen n) - 1)"
proof -
  let ?k = "32 - prefixlen n"
  have "take_bit ?k (network_address n) = 0"
    using assms by (simp add: wf_net_def take_bit_eq_mod)
  then have "network_address n AND mask ?k = 0"
    by (simp add: take_bit_eq_mask)
  then have "network_address n OR mask ?k = network_address n + mask ?k"
    by (simp add: disjunctive_add_eq_or)
  then show ?thesis
    using assms by (simp add: broadcast_address_def hostmask_eq wf_net_def mask_eq_exp_minus_1)
qed

lemma nat_div_eq_iff:
  fixes a s q :: nat
  assumes "0 < s"
  shows "a div s = q \<longleftrightarrow> q * s \<le> a \<and> a < q * s + s"
proof
  assume "a div s = q"
  with dividend_less_div_times [OF assms, of a] show "q * s \<le> a \<and> a < q * s + s"
    by (auto simp: div_times_less_eq_dividend)
next
  assume "q * s \<le> a \<and> a < q * s + s"
  then show "a div s = q" by (intro div_nat_eqI) (simp_all add: mult.commute)
qed

lemma in_network_iff:
  assumes "wf_net n" and "a < 4294967296"
  shows "in_network a n \<longleftrightarrow> a \<in> net_addresses n"
proof -
  let ?s = "2 ^ (32 - prefixlen n) :: nat"
  let ?q = "network_address n div ?s"
  have n: "network_address n = ?q * ?s"
    using assms(1) by (simp add: wf_net_def mod_eq_0_iff_dvd)
  have "in_network a n \<longleftrightarrow> a div ?s * ?s = ?q * ?s"
    using assms n by (simp add: in_network_def and_netmask wf_net_def)
  also have "\<dots> \<longleftrightarrow> a div ?s = ?q" by simp
  also have "\<dots> \<longleftrightarrow> ?q * ?s \<le> a \<and> a < ?q * ?s + ?s"
    by (rule nat_div_eq_iff) simp
  finally show ?thesis using n by (simp add: net_addresses_def)
qed

lemma net_addresses_bounded:
  assumes "wf_net n" and "a \<in> net_addresses n"
  shows "a < 4294967296"
proof -
  let ?s = "2 ^ (32 - prefixlen n) :: nat" and ?t = "2 ^ prefixlen n :: nat"
  have st: "?s * ?t = 4294967296"
    using assms(1) by (simp add: wf_net_def flip: power_add)
  obtain q where q: "network_address n = ?s * q"
    using assms(1) by (auto simp: wf_net_def mod_eq_0_iff_dvd elim: dvdE)
  have "?s * q < ?s * ?t" using assms(1) st q by (simp add: wf_net_def)
  then have "q + 1 \<le> ?t" by simp
  then have "?s * (q + 1) \<le> ?s * ?t" by (rule mult_le_mono2)
  with q st have "network_address n + ?s \<le> 4294967296" by simp
  with assms(2) show ?thesis by (simp add: net_addresses_def)
qed

lemma network_address_in [simp]: "network_address n \<in> net_addresses n"
  by (simp add: net_addresses_def)

lemma Suc_broadcast:
  "wf_net n \<Longrightarrow> Suc (broadcast_address n) = network_address n + 2 ^ (32 - prefixlen n)"
  using zero_less_power [of "2::nat" "32 - prefixlen n"] broadcast_eq [of n] by simp

lemma network_le_broadcast: "wf_net n \<Longrightarrow> network_address n \<le> broadcast_address n"
  using zero_less_power [of "2::nat" "32 - prefixlen n"] Suc_broadcast [of n] by linarith

lemma net_addresses_atLeastAtMost:
  "wf_net n \<Longrightarrow> net_addresses n = {network_address n .. broadcast_address n}"
  by (simp add: net_addresses_def atLeastLessThanSuc_atLeastAtMost flip: Suc_broadcast)

lemma broadcast_in [simp]: "wf_net n \<Longrightarrow> broadcast_address n \<in> net_addresses n"
  by (simp add: net_addresses_atLeastAtMost network_le_broadcast)

text \<open>\<^verbatim>\<open>subnet_of\<close> is inclusion of the address sets, \<^verbatim>\<open>overlaps\<close> is a non-empty intersection.\<close>

lemma subnet_of_iff:
  assumes "wf_net a" and "wf_net b"
  shows "subnet_of a b \<longleftrightarrow> net_addresses a \<subseteq> net_addresses b"
  using network_address_in [of a] broadcast_in [OF assms(1)]
  by (auto simp: subnet_of_def net_addresses_atLeastAtMost [OF assms(1)]
      net_addresses_atLeastAtMost [OF assms(2)])

lemma overlaps_iff:
  assumes "wf_net a" and "wf_net b"
  shows "overlaps a b \<longleftrightarrow> net_addresses a \<inter> net_addresses b \<noteq> {}"
proof -
  note na = net_addresses_atLeastAtMost [OF assms(1)] and nb = net_addresses_atLeastAtMost [OF assms(2)]
  note le = network_le_broadcast [OF assms(1)] network_le_broadcast [OF assms(2)]
  have "overlaps a b \<longleftrightarrow>
      network_address b \<in> net_addresses a \<or> broadcast_address b \<in> net_addresses a \<or>
      network_address a \<in> net_addresses b \<or> broadcast_address a \<in> net_addresses b"
    using assms by (simp add: overlaps_def in_network_iff net_addresses_bounded)
  also have "\<dots> \<longleftrightarrow> net_addresses a \<inter> net_addresses b \<noteq> {}"
  proof
    assume "net_addresses a \<inter> net_addresses b \<noteq> {}"
    then obtain x where "x \<in> net_addresses a" "x \<in> net_addresses b" by blast
    with le show "network_address b \<in> net_addresses a \<or> broadcast_address b \<in> net_addresses a \<or>
        network_address a \<in> net_addresses b \<or> broadcast_address a \<in> net_addresses b"
      unfolding na nb by auto
  qed (use assms network_address_in broadcast_in in blast)
  finally show ?thesis .
qed

lemma hosts_in_network: "wf_net n \<Longrightarrow> h \<in> set (hosts n) \<Longrightarrow> h \<in> net_addresses n"
  using network_le_broadcast [of n]
  by (auto simp: hosts_def net_addresses_atLeastAtMost split: if_splits)

lemma set_hosts:
  assumes "wf_net n" and "prefixlen n < 31"
  shows "set (hosts n) = net_addresses n - {network_address n, broadcast_address n}"
  using assms by (auto simp: hosts_def net_addresses_atLeastAtMost)

section \<open>Printing and parsing\<close>

lemma str_of_nat_octet:
  assumes "b < 256"
  shows "parse_octet (str_of_nat b) = Inr b"
proof -
  have "length (str_of_nat b) \<le> 3"
    using assms by (intro length_str_of_nat_mono) simp_all
  moreover have "str_of_nat b \<noteq> ''0'' \<Longrightarrow> hd (str_of_nat b) \<noteq> CHR ''0''"
  proof -
    assume ne: "str_of_nat b \<noteq> ''0''"
    have "str_of_nat 0 = ''0''" by (simp add: str_of_nat_small digit_char_def char_of_eq_iff)
    with ne have "b \<noteq> 0" by metis
    then show ?thesis by (rule hd_str_of_nat)
  qed
  ultimately show ?thesis using assms by (auto simp: parse_octet_def)
qed

lemma ip4_octets_less: "b \<in> set (ip4_octets a) \<Longrightarrow> b < 256"
  by (auto simp: ip4_octets_def)

lemma ip4_octets_value:
  assumes "a < 4294967296"
  shows "foldl (\<lambda>n b. 256 * n + b) 0 (ip4_octets a) = a"
proof -
  let ?b = "a div 256" and ?c = "a div 65536" and ?d = "a div 16777216"
  have "?b div 256 = ?c" "?c div 256 = ?d" by (simp_all add: div_mult2_eq [symmetric])
  then have "256 * ?b + a mod 256 = a" "256 * ?c + ?b mod 256 = ?b" "256 * ?d + ?c mod 256 = ?c"
    using mult_div_mod_eq [of 256 a] mult_div_mod_eq [of 256 ?b] mult_div_mod_eq [of 256 ?c] by simp_all
  moreover have "?d mod 256 = ?d" using assms by simp
  ultimately show ?thesis by (simp add: ip4_octets_def)
qed

lemma ip4_str_no_slash: "CHR ''/'' \<notin> set (ip4_str a)" "ip4_str a \<noteq> []"
  by (simp_all add: ip4_str_def ip4_octets_def digit_not_sep is_digit_def)

lemma split_ip4_str: "split_on CHR ''.'' (ip4_str a) = map str_of_nat (ip4_octets a)"
  by (auto simp: ip4_str_def ip4_octets_def digit_not_sep is_digit_def intro!: split_join)

lemma ip4_str_roundtrip: "a < 4294967296 \<Longrightarrow> ip4_of_string (ip4_str a) = Inr a"
proof -
  assume a: "a < 4294967296"
  have "rmap parse_octet (map str_of_nat (ip4_octets a)) = Inr (map digits_to_nat (map str_of_nat (ip4_octets a)))"
    by (rule rmap_Inr_map) (auto simp: str_of_nat_octet dest: ip4_octets_less)
  then have "rmap parse_octet (map str_of_nat (ip4_octets a)) = Inr (ip4_octets a)"
    by (simp add: comp_def)
  with a show ?thesis
    by (simp add: ip4_of_string_def split_ip4_str ip4_str_no_slash ip4_octets_value)
      (simp add: ip4_octets_def)
qed

lemma parse_octet_less: "parse_octet s = Inr b \<Longrightarrow> b < 256"
  by (auto simp: parse_octet_def split: if_splits)

lemma ip4_of_string_less:
  assumes "ip4_of_string s = Inr a"
  shows "a < 4294967296"
proof -
  obtain bs where len: "length (split_on CHR ''.'' s) = 4"
    and bs: "rmap parse_octet (split_on CHR ''.'' s) = Inr bs"
    and a: "a = foldl (\<lambda>n b. 256 * n + b) 0 bs"
    using assms by (auto simp: ip4_of_string_def Let_def result_simps split: if_splits)
  have "length bs = 4" using bs len by (simp add: rmap_Inr_length)
  then obtain b0 b1 b2 b3 where b: "bs = [b0, b1, b2, b3]"
    by (auto simp: numeral_eq_Suc length_Suc_conv)
  have "b < 256" if "b \<in> set bs" for b
    using rmap_Inr_set [OF bs that] parse_octet_less by blast
  with b have "b0 < 256" "b1 < 256" "b2 < 256" "b3 < 256" by auto
  then show ?thesis by (simp add: a b)
qed

lemma prefix_from_ip_int_le: "prefix_from_ip_int n = Some p \<Longrightarrow> p \<le> 32"
  by (auto simp: prefix_from_ip_int_def Let_def split: if_splits)

lemma make_netmask_le: "make_netmask s = Inr p \<Longrightarrow> p \<le> 32"
  by (auto simp: make_netmask_def prefix_from_ip_string_def prefix_from_ip_int_le
      split: if_splits sum.splits option.splits)

lemma wf_net_masked:
  assumes "p \<le> 32" and "a < 4294967296"
  shows "wf_net \<lparr>network_address = a AND netmask p, prefixlen = p\<rparr>"
proof -
  have "a AND netmask p \<le> a" using assms by (simp add: and_netmask div_times_less_eq_dividend)
  with assms have "a AND netmask p < 4294967296" by simp
  moreover have "(a AND netmask p) mod 2 ^ (32 - p) = 0" using assms by (simp add: and_netmask)
  ultimately show ?thesis using assms(1) by (simp add: wf_net_def)
qed

lemma ip4_network_wf:
  assumes "ip4_network strict s = Inr n"
  shows "wf_net n"
proof -
  obtain a m q p where p: "(case m of None \<Rightarrow> Inr 32 | Some t \<Rightarrow> make_netmask t) = Inr p"
    and q: "ip4_of_string a = Inr q"
    and n: "n = \<lparr>network_address = q AND netmask p, prefixlen = p\<rparr>"
    using assms by (auto simp: ip4_network_def result_simps split: if_splits)
  have "p \<le> 32" using p by (auto split: option.splits dest: make_netmask_le)
  with ip4_of_string_less [OF q] n show ?thesis by (simp add: wf_net_masked)
qed

lemma and_netmask_self:
  assumes "wf_net n"
  shows "network_address n AND netmask (prefixlen n) = network_address n"
proof -
  have "in_network (network_address n) n"
    using assms by (simp add: in_network_iff wf_net_def)
  then show ?thesis by (simp add: in_network_def)
qed

lemma net_str_roundtrip:
  assumes "wf_net n"
  shows "ip4_network strict (net_str n) = Inr n"
proof -
  have "split_on CHR ''/'' (net_str n) = [ip4_str (network_address n), str_of_nat (prefixlen n)]"
    by (simp add: net_str_def ip4_str_no_slash digit_not_sep is_digit_def)
  then have s: "split_addr_prefix (net_str n) = Inr (ip4_str (network_address n), Some (str_of_nat (prefixlen n)))"
    by (simp add: split_addr_prefix_def)
  have "make_netmask (str_of_nat (prefixlen n)) = Inr (prefixlen n)"
    using assms by (simp add: make_netmask_def wf_net_def)
  with s show ?thesis
    using assms by (simp add: ip4_network_def ip4_str_roundtrip wf_net_def and_netmask_self)
qed

lemma net_str_inject: "wf_net m \<Longrightarrow> wf_net n \<Longrightarrow> net_str m = net_str n \<Longrightarrow> m = n"
  by (metis net_str_roundtrip sum.inject(2))

lemma ip4_of_string_ValueError: "ip4_of_string s = Inl x \<Longrightarrow> \<exists>m. x = ValueError m"
  by (auto simp: ip4_of_string_def rbind_Inl_iff parse_octet_def Let_def split: if_splits dest!: rmap_Inl)

lemma ip4_network_ValueError: "ip4_network st s = Inl x \<Longrightarrow> \<exists>m. x = ValueError m"
  by (auto simp: ip4_network_def rbind_Inl_iff split_addr_prefix_def make_netmask_def prefix_from_ip_string_def
      split: list.splits option.splits if_splits sum.splits dest: ip4_of_string_ValueError)

end
