(* ===== verification/Ip_Address6.thy ===== *)
theory Ip_Address6
  imports Ip_Address
begin

unbundle bit_operations_syntax

text \<open>
  The IPv6 half of Python's \<^verbatim>\<open>ipaddress\<close> module and the version-generic
  constructors \<^verbatim>\<open>ip_address\<close>, \<^verbatim>\<open>ip_network\<close> and \<^verbatim>\<open>ip_interface\<close>, which try IPv4
  first and IPv6 second. An IPv6 address keeps its optional scope id.
\<close>

section \<open>Parsing IPv6 addresses\<close>

definition hex_val :: "char \<Rightarrow> nat option" where
  "hex_val c = (let n = of_char c :: nat in
     if 48 \<le> n \<and> n \<le> 57 then Some (n - 48)
     else if 97 \<le> n \<and> n \<le> 102 then Some (n - 87)
     else if 65 \<le> n \<and> n \<le> 70 then Some (n - 55)
     else None)"

definition parse_hextet :: "string \<Rightarrow> nat result" where
  "parse_hextet s =
     (if s = [] then Inl (ValueError ''invalid literal for int'')
      else if \<not> list_all (\<lambda>c. hex_val c \<noteq> None) s then Inl (ValueError ''Only hex digits permitted'')
      else if length s > 4 then Inl (ValueError ''At most 4 characters permitted'')
      else Inr (foldl (\<lambda>n c. 16 * n + the (hex_val c)) 0 s))"

text \<open>Hexadecimal printing without leading zeros (\<^verbatim>\<open>'%x'\<close>) of a 16-bit number.\<close>

definition hex_char :: "nat \<Rightarrow> char" where
  "hex_char d = (if d < 10 then char_of (48 + d) else char_of (87 + d))"

fun hex_str :: "nat \<Rightarrow> string" where
  "hex_str n = (if n < 16 then [hex_char n] else hex_str (n div 16) @ [hex_char (n mod 16)])"

declare hex_str.simps [simp del]

text \<open>The positions \<^verbatim>\<open>1 .. len - 2\<close> whose part is empty.\<close>

definition skip_indices :: "string list \<Rightarrow> nat list" where
  "skip_indices parts = filter (\<lambda>i. parts ! i = []) [1 ..< length parts - 1]"

definition expand_v4_suffix :: "string list \<Rightarrow> string list result" where
  "expand_v4_suffix parts =
     (if CHR ''.'' \<in> set (last parts)
      then rbind (ip4_of_string (last parts)) (\<lambda>a.
        Inr (butlast parts @ [hex_str (a div 65536 mod 65536), hex_str (a mod 65536)]))
      else Inr parts)"

text \<open>
  The hextets before and after the \<^verbatim>\<open>::\<close> and the number of hextets it stands for.
\<close>

definition layout_parts :: "string list \<Rightarrow> (nat \<times> nat \<times> nat) result" where
  "layout_parts parts =
     (let n = length parts in
      case skip_indices parts of
        [] \<Rightarrow> (if n \<noteq> 8 then Inl (ValueError ''Exactly 8 parts expected without ::'')
               else if hd parts = [] then Inl (ValueError ''Leading : only permitted as part of ::'')
               else if last parts = [] then Inl (ValueError ''Trailing : only permitted as part of ::'')
               else Inr (n, 0, 0))
      | [i] \<Rightarrow>
          (let hi = (if hd parts = [] then i - 1 else i);
               lo = (if last parts = [] then n - i - 2 else n - i - 1) in
           if hd parts = [] \<and> hi \<noteq> 0 then Inl (ValueError ''Leading : only permitted as part of ::'')
           else if last parts = [] \<and> lo \<noteq> 0 then Inl (ValueError ''Trailing : only permitted as part of ::'')
           else if 8 < hi + lo + 1 then Inl (ValueError ''Expected at most 7 other parts with ::'')
           else Inr (hi, 8 - (hi + lo), lo))
      | _ \<Rightarrow> Inl (ValueError ''At most one :: permitted''))"

definition ip6_int_from_string :: "string \<Rightarrow> nat result" where
  "ip6_int_from_string s =
     (if s = [] then Inl (ValueError ''Address cannot be empty'') else
      let parts0 = split_on CHR '':'' s in
      if length parts0 < 3 then Inl (ValueError ''At least 3 parts expected'') else
      rbind (expand_v4_suffix parts0) (\<lambda>parts.
      if length parts > 9 then Inl (ValueError ''At most 8 colons permitted'') else
      rbind (layout_parts parts) (\<lambda>(hi, skipped, lo).
      rbind (rmap parse_hextet (take hi parts)) (\<lambda>hs.
      rbind (rmap parse_hextet (drop (length parts - lo) parts)) (\<lambda>ls.
        Inr (foldl (\<lambda>n h. 65536 * n + h)
               (foldl (\<lambda>n h. 65536 * n + h) 0 hs * 65536 ^ skipped) ls))))))"

definition split_scope_id :: "string \<Rightarrow> (string \<times> string option) result" where
  "split_scope_id s =
     (let (addr, sep, scope) = partition_on CHR ''%'' s in
      if \<not> sep then Inr (addr, None)
      else if scope = [] \<or> CHR ''%'' \<in> set scope then Inl (ValueError ''Invalid IPv6 address'')
      else Inr (addr, Some scope))"

definition ip6_of_string :: "string \<Rightarrow> (nat \<times> string option) result" where
  "ip6_of_string s =
     (if CHR ''/'' \<in> set s then Inl (ValueError ''Unexpected slash in address'')
      else rbind (split_scope_id s) (\<lambda>(a, scope).
           rbind (ip6_int_from_string a) (\<lambda>n. Inr (n, scope))))"

section \<open>Addresses and networks of either version\<close>

datatype ip_addr = IPv4 nat | IPv6 nat "string option"

datatype ip_net = Net4 ipv4_network | Net6 nat "string option" nat

definition ip_address :: "string \<Rightarrow> ip_addr result" where
  "ip_address s =
     (case ip4_of_string s of
        Inr a \<Rightarrow> Inr (IPv4 a)
      | Inl _ \<Rightarrow> (case ip6_of_string s of
            Inr (a, scope) \<Rightarrow> Inr (IPv6 a scope)
          | Inl _ \<Rightarrow> Inl (ValueError (py_repr s @ '' does not appear to be an IPv4 or IPv6 address''))))"

definition ipv4_mapped :: "nat \<Rightarrow> nat option" where
  "ipv4_mapped a = (if a div 4294967296 \<noteq> 65535 then None else Some (a mod 4294967296))"

definition all_ones6 :: nat where "all_ones6 = 2 ^ 128 - 1"

definition netmask6 :: "nat \<Rightarrow> nat" where
  "netmask6 p = all_ones6 XOR drop_bit p all_ones6"

definition ip6_network :: "bool \<Rightarrow> string \<Rightarrow> ip_net result" where
  "ip6_network strict s =
     rbind (split_addr_prefix s) (\<lambda>(a, m).
     rbind (ip6_of_string a) (\<lambda>(packed, scope).
     rbind (case m of None \<Rightarrow> Inr 128
            | Some t \<Rightarrow> if isdigit t \<and> digits_to_nat t \<le> 128 then Inr (digits_to_nat t)
                        else Inl (ValueError ''not a valid netmask'')) (\<lambda>p.
       if packed AND netmask6 p \<noteq> packed
       then (if strict then Inl (ValueError ''has host bits set'')
             else Inr (Net6 (packed AND netmask6 p) None p))
       else Inr (Net6 packed scope p))))"

definition ip_network :: "bool \<Rightarrow> string \<Rightarrow> ip_net result" where
  "ip_network strict s =
     (case ip4_network strict s of
        Inr n \<Rightarrow> Inr (Net4 n)
      | Inl _ \<Rightarrow> (case ip6_network strict s of
            Inr n \<Rightarrow> Inr n
          | Inl _ \<Rightarrow> Inl (ValueError (py_repr s @ '' does not appear to be an IPv4 or IPv6 network''))))"

text \<open>\<^verbatim>\<open>ip_interface(s).ip\<close>: the address part; the mask must still be valid.\<close>

definition ip_interface_ip :: "string \<Rightarrow> ip_addr result" where
  "ip_interface_ip s =
     (case rbind (split_addr_prefix s) (\<lambda>(a, _). rbind (ip4_of_string a) (\<lambda>x.
             rbind (ip4_network False s) (\<lambda>_. Inr (IPv4 x)))) of
        Inr x \<Rightarrow> Inr x
      | Inl _ \<Rightarrow>
          (case rbind (split_addr_prefix s) (\<lambda>(a, _). rbind (ip6_of_string a) (\<lambda>(x, _).
             rbind (ip6_network False s) (\<lambda>_. Inr (IPv6 x None)))) of
             Inr x \<Rightarrow> Inr x
           | Inl _ \<Rightarrow> Inl (ValueError (py_repr s @ '' does not appear to be an IPv4 or IPv6 interface''))))"

text \<open>\<^verbatim>\<open>addr in net\<close>: false across versions; scope ids play no part.\<close>

fun addr_in_net :: "ip_addr \<Rightarrow> ip_net \<Rightarrow> bool" where
  "addr_in_net (IPv4 a) (Net4 n) = in_network a n"
| "addr_in_net (IPv6 a _) (Net6 n _ p) \<longleftrightarrow> a AND netmask6 p = n"
| "addr_in_net _ _ = False"

section \<open>Printing\<close>

definition ip6_hextets :: "nat \<Rightarrow> nat list" where
  "ip6_hextets a = map (\<lambda>i. a div 65536 ^ i mod 65536) [7, 6, 5, 4, 3, 2, 1, 0]"

text \<open>
  The scan of \<^verbatim>\<open>_compress_hextets\<close>: the start and length of the first longest run
  of \<^verbatim>\<open>0\<close> hextets, with the current run's start and length as accumulators.
\<close>

fun longest_run :: "nat list \<Rightarrow> nat \<Rightarrow> nat \<times> nat \<Rightarrow> nat \<times> nat \<Rightarrow> nat \<times> nat" where
  "longest_run [] i cur best = best"
| "longest_run (h # hs) i (cs, cl) (bs, bl) =
     (if h = 0
      then let cs' = (if cl = 0 then i else cs); cl' = cl + 1 in
        longest_run hs (Suc i) (cs', cl') (if bl < cl' then (cs', cl') else (bs, bl))
      else longest_run hs (Suc i) (0, 0) (bs, bl))"

definition compress_hextets :: "nat list \<Rightarrow> string list" where
  "compress_hextets hs =
     (let (b, l) = longest_run hs 0 (0, 0) (0, 0); strs = map hex_str hs in
      if l > 1
      then (if b = 0 then [[]] else []) @ take b strs @ [[]] @ drop (b + l) strs @
           (if b + l = length hs then [[]] else [])
      else strs)"

definition string_from_ip6_int :: "nat \<Rightarrow> string" where
  "string_from_ip6_int a = join_with '':'' (compress_hextets (ip6_hextets a))"

fun ip_str :: "ip_addr \<Rightarrow> string" where
  "ip_str (IPv4 a) = ip4_str a"
| "ip_str (IPv6 a scope) =
     (case ipv4_mapped a of
        None \<Rightarrow> string_from_ip6_int a
      | Some v4 \<Rightarrow> string_from_ip6_int (a div 4294967296) @ '':'' @ ip4_str v4) @
     (case scope of None \<Rightarrow> [] | Some z \<Rightarrow> CHR ''%'' # z)"

fun ip_net_str :: "ip_net \<Rightarrow> string" where
  "ip_net_str (Net4 n) = net_str n"
| "ip_net_str (Net6 a scope p) = ip_str (IPv6 a scope) @ ''/'' @ str_of_nat p"

section \<open>Membership as an interval\<close>

text \<open>The addresses of a network of either version, as a version and an interval.\<close>

fun ip_net_covers :: "ip_net \<Rightarrow> ip_addr \<Rightarrow> bool" where
  "ip_net_covers (Net4 n) (IPv4 a) \<longleftrightarrow> a \<in> net_addresses n"
| "ip_net_covers (Net6 n _ p) (IPv6 a _) \<longleftrightarrow> n \<le> a \<and> a < n + 2 ^ (128 - p)"
| "ip_net_covers _ _ \<longleftrightarrow> False"

fun wf_ip :: "ip_addr \<Rightarrow> bool" where
  "wf_ip (IPv4 a) \<longleftrightarrow> a < 2 ^ 32"
| "wf_ip (IPv6 a _) \<longleftrightarrow> a < 2 ^ 128"

fun wf_ip_net :: "ip_net \<Rightarrow> bool" where
  "wf_ip_net (Net4 n) \<longleftrightarrow> wf_net n"
| "wf_ip_net (Net6 n _ p) \<longleftrightarrow> p \<le> 128 \<and> n < 2 ^ 128 \<and> n mod 2 ^ (128 - p) = 0"

lemma all_ones6_mask: "all_ones6 = mask 128"
  by (simp add: all_ones6_def mask_eq_exp_minus_1)

lemma netmask6_push_bit:
  assumes "p \<le> 128"
  shows "netmask6 p = push_bit (128 - p) (mask p)"
proof (rule bit_eqI)
  fix i :: nat
  show "bit (netmask6 p) i = bit (push_bit (128 - p) (mask p :: nat)) i"
    using assms
    by (auto simp: netmask6_def all_ones6_mask bit_xor_iff bit_drop_bit_eq bit_push_bit_iff bit_mask_iff)
qed

lemma and_netmask6:
  assumes "p \<le> 128" and "a < 2 ^ 128"
  shows "a AND netmask6 p = a div 2 ^ (128 - p) * 2 ^ (128 - p)"
proof -
  have "a AND netmask6 p = push_bit (128 - p) (drop_bit (128 - p) a)"
  proof (rule bit_eqI)
    fix i :: nat
    have "take_bit 128 a = a" using assms(2) by (simp add: take_bit_nat_eq_self_iff)
    then have "i < 128 \<or> \<not> bit a i" by (metis bit_take_bit_iff)
    with assms(1) show "bit (a AND netmask6 p) i = bit (push_bit (128 - p) (drop_bit (128 - p) a)) i"
      by (auto simp: netmask6_push_bit bit_and_iff bit_push_bit_iff bit_mask_iff bit_drop_bit_eq)
  qed
  then show ?thesis by (simp add: push_bit_eq_mult drop_bit_eq_div)
qed

lemma in_net6_iff:
  assumes "p \<le> 128" and "n mod 2 ^ (128 - p) = 0" and "a < 2 ^ 128"
  shows "a AND netmask6 p = n \<longleftrightarrow> n \<le> a \<and> a < n + 2 ^ (128 - p)"
proof -
  let ?s = "2 ^ (128 - p) :: nat"
  let ?q = "n div ?s"
  have n: "n = ?q * ?s" using assms(2) by (simp add: mod_eq_0_iff_dvd)
  have "a AND netmask6 p = n \<longleftrightarrow> a div ?s * ?s = ?q * ?s"
    using assms n by (simp add: and_netmask6)
  also have "\<dots> \<longleftrightarrow> a div ?s = ?q" by simp
  also have "\<dots> \<longleftrightarrow> ?q * ?s \<le> a \<and> a < ?q * ?s + ?s" by (rule nat_div_eq_iff) simp
  finally show ?thesis using n by simp
qed

lemma addr_in_net_iff: "wf_ip_net n \<Longrightarrow> wf_ip a \<Longrightarrow> addr_in_net a n \<longleftrightarrow> ip_net_covers n a"
  by (cases n; cases a) (simp_all add: in_network_iff in_net6_iff)

lemma hex_val_less: "hex_val c = Some v \<Longrightarrow> v < 16"
  by (auto simp: hex_val_def Let_def split: if_splits)

lemma foldl_base_less:
  fixes b :: nat
  assumes "\<And>x. x \<in> set xs \<Longrightarrow> f x < b" and "n < b ^ k"
  shows "foldl (\<lambda>m x. b * m + f x) n xs < b ^ (k + length xs)"
  using assms
proof (induction xs arbitrary: n k)
  case (Cons x xs)
  have "f x < b" using Cons.prems by simp
  moreover have "n + 1 \<le> b ^ k" using Cons.prems by simp
  then have "b * (n + 1) \<le> b * b ^ k" by (rule mult_le_mono2)
  ultimately have "b * n + f x < b ^ Suc k" by simp
  then have "foldl (\<lambda>m x. b * m + f x) (b * n + f x) xs < b ^ (Suc k + length xs)"
    by (rule Cons.IH [rotated]) (simp add: Cons.prems)
  then show ?case by simp
qed simp

lemma parse_hextet_less:
  assumes "parse_hextet s = Inr h"
  shows "h < 65536"
proof -
  have len: "length s \<le> 4" and hex: "list_all (\<lambda>c. hex_val c \<noteq> None) s"
    and h: "h = foldl (\<lambda>n c. 16 * n + the (hex_val c)) 0 s"
    using assms by (auto simp: parse_hextet_def split: if_splits)
  have "the (hex_val c) < 16" if "c \<in> set s" for c
    using hex that hex_val_less [of c] by (auto simp: list_all_iff)
  then have "h < 16 ^ (0 + length s)"
    unfolding h by (rule foldl_base_less) simp_all
  also have "\<dots> \<le> 16 ^ 4" using len by (intro power_increasing) simp_all
  finally show ?thesis by simp
qed

lemma rmap_hextets_less:
  "rmap parse_hextet ps = Inr hs \<Longrightarrow> h \<in> set hs \<Longrightarrow> h < 65536"
  by (drule (1) rmap_Inr_set) (auto dest: parse_hextet_less)

lemma layout_parts_total:
  assumes "layout_parts parts = Inr (hi, skipped, lo)" and "parts \<noteq> []"
  shows "hi + skipped + lo = 8" and "hi \<le> length parts" and "lo \<le> length parts"
proof -
  have "i < length parts" if "skip_indices parts = [i]" for i
  proof -
    have "i \<in> set (skip_indices parts)" using that by simp
    then show ?thesis by (auto simp: skip_indices_def)
  qed
  then show "hi + skipped + lo = 8" "hi \<le> length parts" "lo \<le> length parts"
    using assms by (auto simp: layout_parts_def Let_def split: list.splits if_splits)
qed

lemma ip6_int_from_string_less:
  assumes "ip6_int_from_string s = Inr a"
  shows "a < 2 ^ 128"
proof -
  obtain parts hi sk lo hs ls where lay: "layout_parts parts = Inr (hi, sk, lo)"
    and ex: "expand_v4_suffix (split_on CHR '':'' s) = Inr parts"
    and hs: "rmap parse_hextet (take hi parts) = Inr hs"
    and ls: "rmap parse_hextet (drop (length parts - lo) parts) = Inr ls"
    and a: "a = foldl (\<lambda>n h. 65536 * n + h) (foldl (\<lambda>n h. 65536 * n + h) 0 hs * 65536 ^ sk) ls"
    using assms
    by (auto simp: ip6_int_from_string_def Let_def result_simps split: if_splits prod.splits)
  have ne: "parts \<noteq> []"
    using ex by (auto simp: expand_v4_suffix_def result_simps split: if_splits)
  have "length hs = hi" "length ls = lo"
    using rmap_Inr_length [OF hs] rmap_Inr_length [OF ls] layout_parts_total [OF lay ne] by auto
  moreover have "foldl (\<lambda>n h. 65536 * n + h) 0 hs < 65536 ^ (0 + length hs)"
    using rmap_hextets_less [OF hs] by (intro foldl_base_less) auto
  ultimately have "foldl (\<lambda>n h. 65536 * n + h) 0 hs * 65536 ^ sk < 65536 ^ (hi + sk)"
    by (simp add: power_add)
  then have "a < 65536 ^ (hi + sk + length ls)"
    unfolding a using rmap_hextets_less [OF ls] by (intro foldl_base_less) auto
  with \<open>length ls = lo\<close> layout_parts_total [OF lay ne] show ?thesis by simp
qed

lemma ip6_of_string_less: "ip6_of_string s = Inr (a, z) \<Longrightarrow> a < 2 ^ 128"
  by (auto simp: ip6_of_string_def result_simps split: if_splits dest: ip6_int_from_string_less)

lemma ip_address_wf: "ip_address s = Inr a \<Longrightarrow> wf_ip a"
  by (auto simp: ip_address_def split: sum.splits dest: ip4_of_string_less ip6_of_string_less)

lemma ip6_network_wf:
  assumes "ip6_network strict s = Inr n"
  shows "wf_ip_net n"
proof -
  obtain q p z where p: "p \<le> 128" and q: "q < 2 ^ 128" and n: "n = Net6 (q AND netmask6 p) z p"
    using assms
    by (auto simp: ip6_network_def result_simps split: if_splits option.splits
        dest!: ip6_of_string_less)
  have "q AND netmask6 p \<le> q" using p q by (simp add: and_netmask6 div_times_less_eq_dividend)
  then have "q AND netmask6 p < 2 ^ 128" using q by (rule le_less_trans)
  then show ?thesis using p q n by (simp add: and_netmask6)
qed

lemma ip_network_wf: "ip_network strict s = Inr n \<Longrightarrow> wf_ip_net n"
  by (auto simp: ip_network_def split: sum.splits dest: ip4_network_wf ip6_network_wf)

end
