(* ===== verification/Models.thy ===== *)
theory Models
  imports Prelude
begin

text \<open>
  \<^verbatim>\<open>models.py\<close>: the enumerations, one record per table, the \<^verbatim>\<open>uint64\<close> column
  type, and the state every handler works on: the tables, the task queue, and the
  audit log stream. A table is the list of its committed rows in primary-key order.
  Columns that are foreign keys or nullable keep their Python shape (\<^verbatim>\<open>int | None\<close>
  is \<^typ>\<open>int option\<close>); instants are integers counting microseconds, since every
  column is timezone-aware UTC. The constraints \<^verbatim>\<open>models.py\<close> and the migrations
  declare (primary keys, unique columns, foreign keys that restrict deletion) are
  enforced where a row is flushed: a violation is \<^term>\<open>IntegrityError\<close>.
\<close>

section \<open>Enumerations\<close>

datatype node_status = Pending | Ready | Error

datatype operator_role = Admin | Operator_Role | Auditor

datatype certificate_type = Api | Cli | Dashboard | Mysql | Mysql_Client

datatype operator_status = Active | Disabled

datatype ssh_key_mode = Legacy | Ca

datatype enrollment_token_status = Token_Active | Token_Revoked | Token_Expired | Token_Exhausted

fun node_status_value :: "node_status \<Rightarrow> string" where
  "node_status_value Pending = ''pending''"
| "node_status_value Ready = ''ready''"
| "node_status_value Error = ''error''"

fun operator_role_value :: "operator_role \<Rightarrow> string" where
  "operator_role_value Admin = ''admin''"
| "operator_role_value Operator_Role = ''operator''"
| "operator_role_value Auditor = ''auditor''"

fun operator_status_value :: "operator_status \<Rightarrow> string" where
  "operator_status_value Active = ''active''"
| "operator_status_value Disabled = ''disabled''"

text \<open>\<^verbatim>\<open>OperatorRole(value)\<close>: the member with that value, or \<^verbatim>\<open>ValueError\<close>.\<close>

definition operator_role_of :: "string \<Rightarrow> operator_role option" where
  "operator_role_of s = find (\<lambda>r. operator_role_value r = s) [Admin, Operator_Role, Auditor]"

instantiation operator_role :: enum
begin

definition "enum_operator_role = [Admin, Operator_Role, Auditor]"
definition "enum_all_operator_role P \<longleftrightarrow> P Admin \<and> P Operator_Role \<and> P Auditor"
definition "enum_ex_operator_role P \<longleftrightarrow> P Admin \<or> P Operator_Role \<or> P Auditor"

instance
proof
  show "(UNIV :: operator_role set) = set enum_class.enum"
    by (auto simp: enum_operator_role_def intro: operator_role.exhaust)
  show "distinct (enum_class.enum :: operator_role list)"
    by (simp add: enum_operator_role_def)
  fix P :: "operator_role \<Rightarrow> bool"
  show "enum_class.enum_all P \<longleftrightarrow> Ball UNIV P"
    by (auto simp: enum_all_operator_role_def intro: operator_role.exhaust) (metis operator_role.exhaust)
  show "enum_class.enum_ex P \<longleftrightarrow> Bex UNIV P"
    by (auto simp: enum_ex_operator_role_def) (metis operator_role.exhaust)
qed

end

section \<open>The unsigned 64-bit column\<close>

text \<open>
  \<^verbatim>\<open>UnsignedBigInteger\<close>: MySQL stores the value as it is; other dialects fold
  values of \<^verbatim>\<open>2**63\<close> and above to negative integers and undo the fold on read.
\<close>

definition uint64_limit :: int where "uint64_limit = 18446744073709551616"

definition int64_limit :: int where "int64_limit = 9223372036854775808"

definition native :: "string \<Rightarrow> bool" where
  "native dialect \<longleftrightarrow> dialect \<in> {''mysql'', ''mariadb''}"

fun process_bind_param :: "string \<Rightarrow> int option \<Rightarrow> int option result" where
  "process_bind_param dialect None = Inr None"
| "process_bind_param dialect (Some v) =
     (if \<not> (0 \<le> v \<and> v < uint64_limit)
      then Inl (ValueError (str_of_int v @ '' is outside the uint64 range''))
      else if \<not> native dialect \<and> int64_limit \<le> v then Inr (Some (v - uint64_limit))
      else Inr (Some v))"

fun process_result_value :: "string \<Rightarrow> int option \<Rightarrow> int option" where
  "process_result_value dialect None = None"
| "process_result_value dialect (Some v) =
     (if native dialect then Some v
      else Some (if v < 0 then v + uint64_limit else v))"

section \<open>Tables\<close>

record tenant =
  ten_id :: int
  ten_name :: string
  ten_slug :: string
  ten_subnet_pool :: string
  ten_created_at :: int

record ssh_key =
  key_id :: int
  key_tenant :: "int option"
  key_name :: string
  key_mode :: ssh_key_mode
  key_created_at :: int

text \<open>The six \<^verbatim>\<open>host_cert_*\<close> columns that \<^verbatim>\<open>Server\<close> and \<^verbatim>\<open>Client\<close> share.\<close>

record host_cert_cols =
  hc_pem :: "string option"
  hc_serial :: "int option"
  hc_principals :: "string option"
  hc_valid_after :: "int option"
  hc_valid_before :: "int option"
  hc_ca_public_key :: "string option"

definition no_host_cert :: host_cert_cols where
  "no_host_cert = \<lparr>hc_pem = None, hc_serial = None, hc_principals = None,
     hc_valid_after = None, hc_valid_before = None, hc_ca_public_key = None\<rparr>"

record server =
  srv_id :: int
  srv_tenant :: "int option"
  srv_hostname :: string
  srv_ssh_port :: int
  srv_ssh_username :: string
  srv_ssh_key_id :: int
  srv_endpoint_host :: string
  srv_endpoint_port :: int
  srv_interface :: string
  srv_subnet :: string
  srv_address :: string
  srv_public_key :: string
  srv_status :: node_status
  srv_created_at :: int
  srv_host_cert :: host_cert_cols
  srv_requested_gen :: int
  srv_applied_gen :: int

record client =
  cli_id :: int
  cli_tenant :: "int option"
  cli_name :: string
  cli_hostname :: "string option"
  cli_ssh_port :: int
  cli_ssh_username :: "string option"
  cli_ssh_key_id :: "int option"
  cli_server_id :: int
  cli_address :: string
  cli_public_key :: string
  cli_is_manual :: bool
  cli_status :: node_status
  cli_created_at :: int
  cli_host_cert :: host_cert_cols

record operator =
  op_id :: int
  op_tenant :: "int option"
  op_cn :: string
  op_display_name :: "string option"
  op_role :: operator_role
  op_status :: operator_status
  op_created_at :: int

record operator_tenant =
  ot_id :: int
  ot_operator_id :: int
  ot_tenant_id :: int
  ot_role :: operator_role
  ot_created_at :: int

record discovered_peer =
  dp_id :: int
  dp_server_id :: int
  dp_public_key :: string
  dp_allowed_ips :: string
  dp_endpoint :: "string option"
  dp_last_handshake_at :: "int option"
  dp_rx_bytes :: int
  dp_tx_bytes :: int
  dp_persistent_keepalive :: "int option"
  dp_is_managed :: bool
  dp_first_seen_at :: int
  dp_last_seen_at :: int

record certificate =
  crt_id :: int
  crt_tenant :: "int option"
  crt_serial :: string
  crt_type :: certificate_type
  crt_operator_id :: "int option"
  crt_common_name :: string
  crt_sans :: string
  crt_not_before :: int
  crt_not_after :: int
  crt_revoked :: bool
  crt_revoked_at :: "int option"
  crt_created_at :: int
  crt_out_cert_path :: "string option"
  crt_out_key_path :: "string option"
  crt_out_chain_path :: "string option"

record audit_event =
  ae_id :: int
  ae_tenant :: "int option"
  ae_ts :: int
  ae_event :: string
  ae_actor_cn :: "string option"
  ae_actor_serial :: "string option"
  ae_actor_role :: "string option"
  ae_resource_type :: string
  ae_resource_id :: "int option"
  ae_action :: string
  ae_before_hash :: "string option"
  ae_after_hash :: "string option"
  ae_payload :: "string option"
  ae_request_id :: "string option"

record enrollment_token =
  et_id :: int
  et_tenant :: "int option"
  et_server_id :: int
  et_ssh_key_id :: int
  et_ssh_username :: string
  et_name_prefix :: string
  et_token_hash :: string
  et_max_uses :: int
  et_use_count :: int
  et_expires_at :: int
  et_created_by_cn :: "string option"
  et_created_at :: int
  et_revoked_at :: "int option"
  et_revoked_by_cn :: "string option"
  et_allowed_cidrs :: "string option"

section \<open>State and environment\<close>

text \<open>
  The messages the routers put on the Celery queue; a provisioning message carries
  the encrypted bootstrap material as its four optional keyword arguments.
\<close>

record bootstrap_kwargs =
  bootstrap_pem_ciphertext :: "string option"
  bootstrap_pem_context :: "string option"
  bootstrap_passphrase_ciphertext :: "string option"
  bootstrap_passphrase_context :: "string option"

datatype task_msg =
    ProvisionServer int bootstrap_kwargs
  | ProvisionClient int bootstrap_kwargs
  | ReconfigureServer int int
  | RotateHostCert int
  | RotateClientHostCert int
  | DiscoverPeers int
  | DiscoverAllPeers

record state =
  tenants :: "tenant list"
  ssh_keys :: "ssh_key list"
  servers :: "server list"
  clients :: "client list"
  operators :: "operator list"
  operator_tenants :: "operator_tenant list"
  discovered_peers :: "discovered_peer list"
  certificates :: "certificate list"
  audit_events :: "audit_event list"
  enrollment_tokens :: "enrollment_token list"
  task_queue :: "task_msg list"

text \<open>
  What a request meets outside the program: the clock, the primary keys the
  database assigns to the row and to the audit row it inserts, the SHA-256
  digest, the rendering of instants (\<^verbatim>\<open>isoformat\<close>, and the JSON form of
  \<^verbatim>\<open>model_dump(mode="json")\<close>), and the broker's answer to a dispatch (the
  task id, or the exception it raises).
\<close>

record env =
  now :: int
  new_id :: int
  new_audit_id :: int
  sha256 :: "string \<Rightarrow> string"
  iso :: "int \<Rightarrow> string"
  iso_z :: "int \<Rightarrow> string"
  broker :: "task_msg \<Rightarrow> string result"

definition seconds :: "int \<Rightarrow> int" where
  "seconds n = n * 1000000"

text \<open>\<^verbatim>\<open>task.delay(...)\<close>: the message is on the queue unless the broker raised.\<close>

definition delay :: "env \<Rightarrow> task_msg \<Rightarrow> (state, string) handler" where
  "delay e m s = (case broker e m of
       Inl x \<Rightarrow> (s, Inl x)
     | Inr tid \<Rightarrow> (s\<lparr>task_queue := task_queue s @ [m]\<rparr>, Inr tid))"

section \<open>Well-formed databases\<close>

text \<open>
  Primary keys are unique in every table, and so are the columns declared
  \<^verbatim>\<open>unique=True\<close> and the two unique constraints on pairs of columns.
\<close>

definition unique_keys :: "state \<Rightarrow> bool" where
  "unique_keys s \<longleftrightarrow>
     distinct (map ten_id (tenants s)) \<and> distinct (map key_id (ssh_keys s)) \<and>
     distinct (map srv_id (servers s)) \<and> distinct (map cli_id (clients s)) \<and>
     distinct (map op_id (operators s)) \<and> distinct (map ot_id (operator_tenants s)) \<and>
     distinct (map crt_id (certificates s)) \<and> distinct (map et_id (enrollment_tokens s))"

definition unique_columns :: "state \<Rightarrow> bool" where
  "unique_columns s \<longleftrightarrow>
     distinct (map ten_name (tenants s)) \<and> distinct (map ten_slug (tenants s)) \<and>
     distinct (map key_name (ssh_keys s)) \<and> distinct (map cli_name (clients s)) \<and>
     distinct (map op_cn (operators s)) \<and>
     distinct (map (\<lambda>j. (ot_operator_id j, ot_tenant_id j)) (operator_tenants s)) \<and>
     distinct (map (\<lambda>p. (dp_server_id p, dp_public_key p)) (discovered_peers s)) \<and>
     distinct (map crt_serial (certificates s)) \<and>
     distinct (map et_token_hash (enrollment_tokens s))"

text \<open>Every foreign key points at an existing row.\<close>

definition ref_ok :: "int set \<Rightarrow> int option \<Rightarrow> bool" where
  "ref_ok ids r \<longleftrightarrow> (case r of None \<Rightarrow> True | Some i \<Rightarrow> i \<in> ids)"

definition foreign_keys_ok :: "state \<Rightarrow> bool" where
  "foreign_keys_ok s \<longleftrightarrow>
     (let tens = ten_id ` set (tenants s); srvs = srv_id ` set (servers s);
          keys = key_id ` set (ssh_keys s); ops = op_id ` set (operators s) in
       (\<forall>k \<in> set (ssh_keys s). ref_ok tens (key_tenant k)) \<and>
       (\<forall>v \<in> set (servers s). ref_ok tens (srv_tenant v) \<and> srv_ssh_key_id v \<in> keys) \<and>
       (\<forall>c \<in> set (clients s). ref_ok tens (cli_tenant c) \<and> cli_server_id c \<in> srvs \<and>
          ref_ok keys (cli_ssh_key_id c)) \<and>
       (\<forall>o' \<in> set (operators s). ref_ok tens (op_tenant o')) \<and>
       (\<forall>j \<in> set (operator_tenants s). ot_operator_id j \<in> ops \<and> ot_tenant_id j \<in> tens) \<and>
       (\<forall>p \<in> set (discovered_peers s). dp_server_id p \<in> srvs) \<and>
       (\<forall>c \<in> set (certificates s). ref_ok tens (crt_tenant c) \<and> ref_ok ops (crt_operator_id c)) \<and>
       (\<forall>a \<in> set (audit_events s). ref_ok tens (ae_tenant a)) \<and>
       (\<forall>t \<in> set (enrollment_tokens s). ref_ok tens (et_tenant t) \<and> et_server_id t \<in> srvs \<and>
          et_ssh_key_id t \<in> keys))"

definition wf_state :: "state \<Rightarrow> bool" where
  "wf_state s \<longleftrightarrow> unique_keys s \<and> unique_columns s \<and> foreign_keys_ok s"

section \<open>Round trip of the uint64 column\<close>

lemma bind_in_range:
  "process_bind_param d (Some v) = Inr w \<Longrightarrow>
     \<exists>x. w = Some x \<and> (native d \<longrightarrow> 0 \<le> x \<and> x < uint64_limit) \<and>
       (\<not> native d \<longrightarrow> - int64_limit \<le> x \<and> x < int64_limit)"
  by (auto simp: uint64_limit_def int64_limit_def split: if_splits)

lemma ref_ok_simps [simp]:
  "ref_ok ids None"
  "ref_ok ids (Some i) \<longleftrightarrow> i \<in> ids"
  by (simp_all add: ref_ok_def)

interpretation server_table: keyed_table "get_row srv_id" "\<lambda>r rows. rows @ [r]" "put_row srv_id"
  "del_row srv_id" srv_id "\<lambda>rows. distinct (map srv_id rows)"
  by (rule list_table)

interpretation client_table: keyed_table "get_row cli_id" "\<lambda>r rows. rows @ [r]" "put_row cli_id"
  "del_row cli_id" cli_id "\<lambda>rows. distinct (map cli_id rows)"
  by (rule list_table)

interpretation ssh_key_table: keyed_table "get_row key_id" "\<lambda>r rows. rows @ [r]" "put_row key_id"
  "del_row key_id" key_id "\<lambda>rows. distinct (map key_id rows)"
  by (rule list_table)

interpretation token_table: keyed_table "get_row et_id" "\<lambda>r rows. rows @ [r]" "put_row et_id"
  "del_row et_id" et_id "\<lambda>rows. distinct (map et_id rows)"
  by (rule list_table)

interpretation certificate_table: keyed_table "get_row crt_id" "\<lambda>r rows. rows @ [r]"
  "put_row crt_id" "del_row crt_id" crt_id "\<lambda>rows. distinct (map crt_id rows)"
  by (rule list_table)

end
