(* ===== verification/Samples.thy ===== *)
theory Samples
  imports Models
begin

text \<open>
  Concrete rows on which the witnesses evaluate the operations: an empty
  database, a hub with subnet \<^verbatim>\<open>10.9.0.0/24\<close>, one manual client on it, an SSH key and
  a tenant.
\<close>

definition empty_db :: state where
  "empty_db = \<lparr>tenants = [], ssh_keys = [], servers = [], clients = [], operators = [],
     operator_tenants = [], discovered_peers = [], certificates = [], audit_events = [],
     enrollment_tokens = [], task_queue = []\<rparr>"

definition sample_tenant :: tenant where
  "sample_tenant = \<lparr>ten_id = 1, ten_name = ''acme'', ten_slug = ''acme'',
     ten_subnet_pool = ''10.9.0.0/16'', ten_created_at = 0\<rparr>"

definition sample_key :: ssh_key where
  "sample_key = \<lparr>key_id = 1, key_tenant = Some 1, key_name = ''ops'', key_mode = Ca, key_created_at = 0\<rparr>"

definition sample_hub :: server where
  "sample_hub = \<lparr>srv_id = 1, srv_tenant = Some 1, srv_hostname = ''hub'', srv_ssh_port = 22,
     srv_ssh_username = ''root'', srv_ssh_key_id = 1, srv_endpoint_host = ''hub.example'',
     srv_endpoint_port = 51820, srv_interface = ''wg0'', srv_subnet = ''10.9.0.0/24'',
     srv_address = ''10.9.0.1/24'', srv_public_key = ''hubkey'', srv_status = Ready, srv_created_at = 0,
     srv_host_cert = no_host_cert, srv_requested_gen = 0, srv_applied_gen = 0\<rparr>"

definition sample_client :: client where
  "sample_client = \<lparr>cli_id = 1, cli_tenant = Some 1, cli_name = ''laptop'', cli_hostname = None,
     cli_ssh_port = 22, cli_ssh_username = None, cli_ssh_key_id = None, cli_server_id = 1,
     cli_address = ''10.9.0.2/32'', cli_public_key = ''peerkey'', cli_is_manual = True,
     cli_status = Ready, cli_created_at = 0, cli_host_cert = no_host_cert\<rparr>"

definition sample_db :: state where
  "sample_db = empty_db\<lparr>tenants := [sample_tenant], ssh_keys := [sample_key],
     servers := [sample_hub], clients := [sample_client]\<rparr>"

text \<open>
  A collaborator environment: the identity stands for the digest, the broker
  accepts every message.
\<close>

definition sample_env :: env where
  "sample_env = \<lparr>now = 1000000, new_id = 7, new_audit_id = 8, sha256 = id, iso = str_of_int, iso_z = str_of_int,
     broker = (\<lambda>m. Inr ''task'')\<rparr>"

end
