(* ===== verification/Ipam.thy ===== *)
theory Ipam
  imports Ip_Address6 Samples
begin

text \<open>
  \<^verbatim>\<open>ipam.py\<close>: the two predicates on CIDR strings that keep tenants' address space
  apart, and the allocation of the lowest free client address in a server's
  subnet.
\<close>

section \<open>Pools\<close>

definition parse_pool :: "string \<Rightarrow> ipv4_network result" where
  "parse_pool value = ip4_network True value"

definition subnet_in_pool :: "string \<Rightarrow> string \<Rightarrow> bool result" where
  "subnet_in_pool subnet pool =
     rbind (parse_pool subnet) (\<lambda>s. rbind (parse_pool pool) (\<lambda>p. Inr (subnet_of s p)))"

definition pools_overlap :: "string \<Rightarrow> string \<Rightarrow> bool result" where
  "pools_overlap a b =
     rbind (parse_pool a) (\<lambda>pa. rbind (parse_pool b) (\<lambda>pb. Inr (overlaps pa pb)))"

section \<open>Allocation\<close>

definition host_from_cidr :: "string \<Rightarrow> ip_addr result" where
  "host_from_cidr value = ip_interface_ip value"

text \<open>The \<^verbatim>\<open>address\<close> column of the server's clients, in the order of the rows.\<close>

definition client_addresses :: "state \<Rightarrow> server \<Rightarrow> string list" where
  "client_addresses s server =
     map cli_address (filter (\<lambda>c. cli_server_id c = srv_id server) (clients s))"

definition taken_addresses :: "state \<Rightarrow> server \<Rightarrow> ipv4_network \<Rightarrow> ip_addr list result" where
  "taken_addresses s server network =
     rbind (host_from_cidr (srv_address server)) (\<lambda>server_ip.
     rbind (rmap host_from_cidr (filter (\<lambda>a. a \<noteq> []) (client_addresses s server))) (\<lambda>rows.
       Inr (IPv4 (network_address network) # IPv4 (broadcast_address network) # server_ip # rows)))"

text \<open>
  The loop over \<^verbatim>\<open>network.hosts()\<close>, which is a generator: it is walked lazily from
  the first host to the last.
\<close>

function first_free :: "ip_addr list \<Rightarrow> nat \<Rightarrow> nat \<Rightarrow> nat option" where
  "first_free taken h hi =
     (if hi < h then None
      else if IPv4 h \<notin> set taken then Some h
      else first_free taken (Suc h) hi)"
  by pat_completeness auto
termination
  by (relation "measure (\<lambda>(taken, h, hi). Suc hi - h)") auto

declare first_free.simps [simp del]

text \<open>The first and the last address \<^verbatim>\<open>hosts()\<close> yields.\<close>

definition host_range :: "ipv4_network \<Rightarrow> nat \<times> nat" where
  "host_range n =
     (if prefixlen n \<ge> 31 then (network_address n, broadcast_address n)
      else (network_address n + 1, broadcast_address n - 1))"

definition allocate_client_ip :: "state \<Rightarrow> server \<Rightarrow> nat result" where
  "allocate_client_ip s server =
     rbind (ip4_network False (srv_subnet server)) (\<lambda>network.
     rbind (taken_addresses s server network) (\<lambda>taken.
       let (first, hi) = host_range network in
       or_raise (first_free taken first hi)
         (IPPoolExhausted (''No free addresses remain in '' @ srv_subnet server))))"

section \<open>The lazy walk is a search over the host list\<close>

lemma first_free_find: "first_free taken h hi = find (\<lambda>x. IPv4 x \<notin> set taken) [h ..< Suc hi]"
proof (induction taken h hi rule: first_free.induct)
  case (1 taken h hi)
  then show ?case
    by (cases "hi < h") (simp_all add: first_free.simps [of taken h] upt_conv_Cons [of h "Suc hi"] del: upt_Suc)
qed

lemma host_range_hosts:
  assumes "wf_net n"
  shows "[fst (host_range n) ..< Suc (snd (host_range n))] = hosts n"
proof -
  have "broadcast_address n = network_address n" if "prefixlen n = 32"
    using that assms by (simp add: broadcast_eq)
  moreover have "Suc (broadcast_address n - 1) = broadcast_address n" if "prefixlen n < 31"
  proof -
    have "2 ^ 1 < (2 ^ (32 - prefixlen n) :: nat)"
      using that by (intro power_strict_increasing) simp_all
    then show ?thesis using Suc_broadcast [OF assms] by simp
  qed
  ultimately show ?thesis
    using assms by (auto simp: host_range_def hosts_def wf_net_def not_le le_Suc_eq upt_conv_Cons simp del: upt_Suc)
qed

lemma find_upt_Some:
  "find P [m ..< n] = Some x \<longleftrightarrow> m \<le> x \<and> x < n \<and> P x \<and> (\<forall>y. m \<le> y \<and> y < x \<longrightarrow> \<not> P y)"
proof (induction "n - m" arbitrary: m)
  case 0
  then show ?case by auto
next
  case (Suc k)
  then have "m < n" and IH: "find P [Suc m ..< n] = Some x \<longleftrightarrow>
      Suc m \<le> x \<and> x < n \<and> P x \<and> (\<forall>y. Suc m \<le> y \<and> y < x \<longrightarrow> \<not> P y)"
    by simp_all
  show ?case
  proof (cases "P m")
    case True
    with \<open>m < n\<close> show ?thesis by (auto simp: upt_conv_Cons)
  next
    case False
    then have "(Suc m \<le> x \<and> (\<forall>y. Suc m \<le> y \<and> y < x \<longrightarrow> \<not> P y)) \<and> P x \<longleftrightarrow>
        (m \<le> x \<and> (\<forall>y. m \<le> y \<and> y < x \<longrightarrow> \<not> P y)) \<and> P x"
      by (metis Suc_leD Suc_leI le_neq_implies_less)
    with False IH \<open>m < n\<close> show ?thesis by (auto simp: upt_conv_Cons)
  qed
qed

text \<open>Every step of the allocator on a parsed network.\<close>

lemma allocate_client_ip_find:
  assumes "ip4_network False (srv_subnet v) = Inr n" and "taken_addresses s v n = Inr taken"
  shows "allocate_client_ip s v =
     or_raise (find (\<lambda>x. IPv4 x \<notin> set taken) (hosts n))
       (IPPoolExhausted (''No free addresses remain in '' @ srv_subnet v))"
proof -
  have "wf_net n" using assms(1) by (rule ip4_network_wf)
  then have "[fst (host_range n) ..< Suc (snd (host_range n))] = hosts n" by (rule host_range_hosts)
  then show ?thesis using assms
    by (simp add: allocate_client_ip_def first_free_find split_beta Let_def)
qed

text \<open>
  What the docstring reserves: the network and broadcast addresses, the server's
  own address and the addresses of the clients registered on the server.
\<close>

definition address_in_use :: "state \<Rightarrow> server \<Rightarrow> ipv4_network \<Rightarrow> nat \<Rightarrow> bool" where
  "address_in_use s v n x \<longleftrightarrow>
     x = network_address n \<or> x = broadcast_address n \<or> host_from_cidr (srv_address v) = Inr (IPv4 x) \<or>
     (\<exists>c \<in> set (clients s). cli_server_id c = srv_id v \<and> cli_address c \<noteq> [] \<and>
        host_from_cidr (cli_address c) = Inr (IPv4 x))"

lemma taken_addresses_iff:
  assumes "taken_addresses s v n = Inr taken"
  shows "IPv4 x \<in> set taken \<longleftrightarrow> address_in_use s v n x"
  using assms
  by (auto simp: taken_addresses_def result_simps address_in_use_def client_addresses_def rmap_set_iff)

lemma allocate_client_ip_cases:
  assumes "ip4_network False (srv_subnet v) = Inr n" and "taken_addresses s v n = Inr taken"
  shows "allocate_client_ip s v =
     or_raise (find (\<lambda>x. \<not> address_in_use s v n x) (hosts n))
       (IPPoolExhausted (''No free addresses remain in '' @ srv_subnet v))"
  using allocate_client_ip_find [OF assms] taken_addresses_iff [OF assms(2)] by simp

text \<open>A stored address reads back as the address it was written for.\<close>

lemma host_from_cidr_prefix:
  assumes "a < 4294967296" and "p \<le> 32"
  shows "host_from_cidr (ip4_str a @ ''/'' @ str_of_nat p) = Inr (IPv4 a)"
proof -
  have "split_on CHR ''/'' (ip4_str a @ ''/'' @ str_of_nat p) = [ip4_str a, str_of_nat p]"
    by (simp add: ip4_str_no_slash digit_not_sep is_digit_def)
  then show ?thesis
    using assms by (auto simp: host_from_cidr_def ip_interface_ip_def split_addr_prefix_def ip4_str_roundtrip
        ip4_network_def make_netmask_def)
qed

lemma host_from_cidr_client: "a < 4294967296 \<Longrightarrow> host_from_cidr (ip4_str a @ ''/32'') = Inr (IPv4 a)"
  using host_from_cidr_prefix [of a 32] by (simp add: str_of_nat.simps digit_chars)

lemma subnet_in_pool_sets:
  assumes "wf_net n" and "subnet_in_pool (net_str n) pool = Inr True"
  shows "\<exists>np. parse_pool pool = Inr np \<and> net_addresses n \<subseteq> net_addresses np"
proof -
  obtain np where np: "parse_pool pool = Inr np" and "subnet_of n np"
    using assms by (auto simp: subnet_in_pool_def result_simps parse_pool_def net_str_roundtrip)
  moreover have "wf_net np" using np ip4_network_wf by (auto simp: parse_pool_def)
  ultimately show ?thesis using subnet_of_iff [OF assms(1)] by blast
qed


lemma pools_overlap_False:
  assumes "pools_overlap a b = Inr False"
  shows "\<exists>na nb. parse_pool a = Inr na \<and> parse_pool b = Inr nb \<and> net_addresses na \<inter> net_addresses nb = {}"
proof -
  obtain na nb where "parse_pool a = Inr na" "parse_pool b = Inr nb" "\<not> overlaps na nb"
    using assms by (auto simp: pools_overlap_def result_simps)
  moreover from this have "wf_net na" "wf_net nb" using ip4_network_wf by (auto simp: parse_pool_def)
  ultimately show ?thesis using overlaps_iff by blast
qed

section \<open>Correctness\<close>

text \<open>
  C8: an allocated address is a host address of the server's subnet, is not in use,
  and every lower host address is.
\<close>

theorem allocate_client_ip_lowest_free:
  assumes "allocate_client_ip s v = Inr a"
  shows "\<exists>n. ip4_network False (srv_subnet v) = Inr n \<and> a \<in> set (hosts n) \<and> a \<in> net_addresses n \<and>
     \<not> address_in_use s v n a \<and> (\<forall>b \<in> set (hosts n). b < a \<longrightarrow> address_in_use s v n b)"
proof -
  obtain n taken where n: "ip4_network False (srv_subnet v) = Inr n"
    and t: "taken_addresses s v n = Inr taken"
    using assms by (auto simp: allocate_client_ip_def result_simps)
  have wf: "wf_net n" using n by (rule ip4_network_wf)
  let ?P = "\<lambda>x. \<not> address_in_use s v n x"
  have f: "find ?P (hosts n) = Some a"
    using assms by (simp add: allocate_client_ip_cases [OF n t] result_simps)
  then have a: "a \<in> set (hosts n)" "?P a" by (auto dest: find_SomeD)
  obtain l u where h: "hosts n = [l ..< u]" using host_range_hosts [OF wf] by metis
  have "address_in_use s v n b" if "b \<in> set (hosts n)" "b < a" for b
    using f that unfolding h find_upt_Some by auto
  with n a wf show ?thesis by (blast intro: hosts_in_network)
qed

theorem allocate_client_ip_lowest_free_witness:
  "allocate_client_ip sample_db sample_hub = Inr 168361987 \<and>
   (\<exists>n. ip4_network False (srv_subnet sample_hub) = Inr n \<and> 168361987 \<in> set (hosts n) \<and>
     168361987 \<in> net_addresses n \<and> \<not> address_in_use sample_db sample_hub n 168361987 \<and>
     (\<forall>b \<in> set (hosts n). b < 168361987 \<longrightarrow> address_in_use sample_db sample_hub n b))"
proof -
  have a: "allocate_client_ip sample_db sample_hub = Inr 168361987" by code_simp
  then show ?thesis using allocate_client_ip_lowest_free [OF a] by (rule conjI)
qed

text \<open>
  The allocator raises \<^verbatim>\<open>IPPoolExhausted\<close> exactly when every host address of
  the subnet is in use, provided the stored addresses parse.
\<close>

theorem allocate_client_ip_exhausted_iff:
  assumes "ip4_network False (srv_subnet v) = Inr n"
    and "\<exists>a. host_from_cidr (srv_address v) = Inr a"
    and "\<And>c. c \<in> set (clients s) \<Longrightarrow> cli_address c = [] \<or> (\<exists>a. host_from_cidr (cli_address c) = Inr a)"
  shows "allocate_client_ip s v =
       Inl (IPPoolExhausted (''No free addresses remain in '' @ srv_subnet v)) \<longleftrightarrow>
     (\<forall>h \<in> set (hosts n). address_in_use s v n h)"
proof -
  let ?xs = "filter (\<lambda>a. a \<noteq> []) (client_addresses s v)"
  have "\<exists>a. host_from_cidr x = Inr a" if "x \<in> set ?xs" for x
    using that assms(3) by (auto simp: client_addresses_def)
  then have "host_from_cidr x = Inr (projr (host_from_cidr x))" if "x \<in> set ?xs" for x
    using that by fastforce
  then have "rmap host_from_cidr ?xs = Inr (map (\<lambda>x. projr (host_from_cidr x)) ?xs)"
    by (rule rmap_Inr_map)
  then obtain taken where "taken_addresses s v n = Inr taken"
    using assms(2) by (auto simp: taken_addresses_def)
  then show ?thesis
    by (simp add: allocate_client_ip_cases [OF assms(1)] result_simps find_None_iff')
qed

theorem allocate_client_ip_exhausted_iff_witness:
  "allocate_client_ip sample_db (sample_hub\<lparr>srv_subnet := ''10.9.0.0/30''\<rparr>) =
     Inl (IPPoolExhausted ''No free addresses remain in 10.9.0.0/30'')"
proof -
  let ?v = "sample_hub\<lparr>srv_subnet := ''10.9.0.0/30''\<rparr>"
  let ?n = "\<lparr>network_address = 168361984, prefixlen = 30\<rparr>"
  have n: "ip4_network False (srv_subnet ?v) = Inr ?n" by code_simp
  have a: "\<exists>a. host_from_cidr (srv_address ?v) = Inr a"
  proof
    show "host_from_cidr (srv_address ?v) = Inr (IPv4 168361985)" by code_simp
  qed
  have b: "host_from_cidr (cli_address sample_client) = Inr (IPv4 168361986)" by code_simp
  then have c: "cli_address c = [] \<or> (\<exists>a. host_from_cidr (cli_address c) = Inr a)"
    if "c \<in> set (clients sample_db)" for c
    using that by (auto simp: sample_db_def)
  have "\<forall>h \<in> set (hosts ?n). address_in_use sample_db ?v ?n h" by code_simp
  with allocate_client_ip_exhausted_iff [OF n a c] show ?thesis by simp
qed

text \<open>
  On CIDR strings that parse strictly, \<^verbatim>\<open>subnet_in_pool\<close> decides inclusion of
  the two sets of addresses and \<^verbatim>\<open>pools_overlap\<close> whether they share an address;
  neither raises.
\<close>

theorem pool_predicates_decide_sets:
  assumes "parse_pool a = Inr na" and "parse_pool b = Inr nb"
  shows "subnet_in_pool a b = Inr (net_addresses na \<subseteq> net_addresses nb) \<and>
     pools_overlap a b = Inr (net_addresses na \<inter> net_addresses nb \<noteq> {})"
proof -
  have "wf_net na" "wf_net nb" using assms ip4_network_wf by (auto simp: parse_pool_def)
  with assms show ?thesis
    by (simp add: subnet_in_pool_def pools_overlap_def subnet_of_iff overlaps_iff)
qed

theorem pool_predicates_decide_sets_witness:
  "subnet_in_pool ''10.9.0.0/24'' ''10.0.0.0/8'' = Inr True \<and>
   pools_overlap ''10.9.0.0/24'' ''10.0.0.0/8'' = Inr True"
proof -
  let ?a = "\<lparr>network_address = 168361984, prefixlen = 24\<rparr>"
  let ?b = "\<lparr>network_address = 167772160, prefixlen = 8\<rparr>"
  have a: "parse_pool ''10.9.0.0/24'' = Inr ?a" and b: "parse_pool ''10.0.0.0/8'' = Inr ?b"
    by code_simp+
  have s: "net_addresses ?a \<subseteq> net_addresses ?b" by (simp add: net_addresses_def)
  moreover have "net_addresses ?a \<inter> net_addresses ?b \<noteq> {}"
    using s network_address_in [of ?a] by blast
  ultimately show ?thesis using pool_predicates_decide_sets [OF a b] by simp
qed

end
