(* ===== verification/Tenant_Scope.thy ===== *)
theory Tenant_Scope
  imports Samples
begin

text \<open>
  \<^verbatim>\<open>tenant_scope.py\<close>: the per-request tenant scope, the filter of list endpoints,
  the role gate of mutations and the choice of the tenant a new row lands in. The
  slots the authentication middleware fills on \<^verbatim>\<open>request.state\<close> are a record.
\<close>

section \<open>Request state and scope\<close>

record cert_subject =
  cs_common_name :: string
  cs_sans :: "string list"
  cs_serial :: int
  cs_not_before :: int
  cs_not_after :: int
  cs_cert_pem :: string

record request_state =
  rs_cert_subject :: "cert_subject option"
  rs_operator :: "operator option"
  rs_tenant_ids :: "int list option"
  rs_tenant_roles :: "(int \<Rightarrow> operator_role option) option"
  rs_is_super_admin :: "bool option"

record tenant_scope =
  is_super_admin :: bool
  tenant_ids :: "int list"
  tenant_roles :: "int \<Rightarrow> operator_role option"

definition unscoped :: tenant_scope where
  "unscoped = \<lparr>is_super_admin = True, tenant_ids = [], tenant_roles = (\<lambda>_. None)\<rparr>"

definition role_in :: "tenant_scope \<Rightarrow> int \<Rightarrow> operator_role option" where
  "role_in scope tid = tenant_roles scope tid"

text \<open>
  The join rows of an operator, the sorted tenant ids and the role map; in the
  dictionary comprehension a later row overwrites an earlier one.
\<close>

definition join_rows :: "state \<Rightarrow> int \<Rightarrow> operator_tenant list" where
  "join_rows s oid = filter (\<lambda>r. ot_operator_id r = oid) (operator_tenants s)"

definition role_map :: "operator_tenant list \<Rightarrow> int \<Rightarrow> operator_role option" where
  "role_map rows = map_of (rev (map (\<lambda>r. (ot_tenant_id r, ot_role r)) rows))"

definition scope_from_db :: "state \<Rightarrow> operator \<Rightarrow> tenant_scope" where
  "scope_from_db s operator =
     (let rows = join_rows s (op_id operator) in
      \<lparr>is_super_admin = (op_role operator = Admin),
       tenant_ids = sort (map ot_tenant_id rows),
       tenant_roles = role_map rows\<rparr>)"

definition get_tenant_scope :: "state \<Rightarrow> request_state \<Rightarrow> tenant_scope" where
  "get_tenant_scope s rs =
     (case rs_is_super_admin rs of
        Some b \<Rightarrow>
          \<lparr>is_super_admin = b,
           tenant_ids = (case rs_tenant_ids rs of None \<Rightarrow> [] | Some ids \<Rightarrow> ids),
           tenant_roles = (case rs_tenant_roles rs of None \<Rightarrow> (\<lambda>_. None) | Some m \<Rightarrow> m)\<rparr>
      | None \<Rightarrow> (case rs_operator rs of None \<Rightarrow> unscoped | Some op \<Rightarrow> scope_from_db s op))"

section \<open>Filter, gate and create tenant\<close>

text \<open>
  The \<^verbatim>\<open>WHERE\<close> clause as a predicate on the row's \<^verbatim>\<open>tenant_id\<close>: a NULL column is in
  no list, so \<^verbatim>\<open>IN\<close> does not select it.
\<close>

definition scope_filter :: "tenant_scope \<Rightarrow> (int option \<Rightarrow> bool) option" where
  "scope_filter scope =
     (if is_super_admin scope then None
      else Some (\<lambda>tid. case tid of None \<Rightarrow> False | Some t \<Rightarrow> t \<in> set (tenant_ids scope)))"

definition visible :: "tenant_scope \<Rightarrow> int option \<Rightarrow> bool" where
  "visible scope tid = (case scope_filter scope of None \<Rightarrow> True | Some p \<Rightarrow> p tid)"

definition require_tenant_role ::
  "tenant_scope \<Rightarrow> int option \<Rightarrow> operator_role list \<Rightarrow> unit result" where
  "require_tenant_role scope tid allowed =
     (if allowed = [] then Inl (ValueError ''require_tenant_role() must be called with at least one role'')
      else if is_super_admin scope then Inr ()
      else case tid of
        None \<Rightarrow> Inl (HTTPException 403 ''super-admin role required'')
      | Some t \<Rightarrow> (case role_in scope t of
          None \<Rightarrow> Inl (HTTPException 403 (''operator not attached to tenant '' @ str_of_int t))
        | Some role \<Rightarrow> if role \<notin> set allowed then Inl (HTTPException 403 ''role not permitted'')
                       else Inr ()))"

definition default_tenant_id :: int where "default_tenant_id = 1"

text \<open>The three UTF-8 bytes of the dash in the detail string.\<close>

definition em_dash :: string where "em_dash = [CHR 0xE2, CHR 0x80, CHR 0x94]"

definition resolve_target_id :: "tenant_scope \<Rightarrow> int option \<Rightarrow> int result" where
  "resolve_target_id scope explicit =
     (case explicit of
        Some t \<Rightarrow> Inr t
      | None \<Rightarrow>
          if is_super_admin scope then Inr default_tenant_id
          else if length (tenant_ids scope) = 1 then Inr (tenant_ids scope ! 0)
          else Inl (HTTPException 422 (''tenant_id is required: operator is attached to multiple tenants ('' @
                 join_with '', '' (map str_of_int (tenant_ids scope)) @ ''); pick one in the body'')))"

definition resolve_create_tenant ::
  "tenant_scope \<Rightarrow> state \<Rightarrow> int option \<Rightarrow> operator_role list \<Rightarrow> tenant result" where
  "resolve_create_tenant scope s explicit allowed_roles =
     rbind (check (is_super_admin scope \<or> tenant_ids scope \<noteq> [])
       (HTTPException 403 (''operator is not attached to any tenant '' @ em_dash @
          '' ask an admin to run `wg-manager operators attach-tenant`''))) (\<lambda>_.
     rbind (resolve_target_id scope explicit) (\<lambda>target.
     rbind (or_raise (get_row ten_id (tenants s) target)
       (HTTPException 404 (''tenant_id '' @ str_of_int target @ '' not found''))) (\<lambda>tenant.
     if is_super_admin scope then Inr tenant
     else if target \<notin> set (tenant_ids scope)
     then Inl (HTTPException 403 (''operator is not attached to tenant '' @ str_of_int target))
     else (case role_in scope target of
         None \<Rightarrow> Inl (HTTPException 403 ''role not permitted'')
       | Some role \<Rightarrow> if role \<notin> set allowed_roles then Inl (HTTPException 403 ''role not permitted'')
                      else Inr tenant))))"

text \<open>The default \<^verbatim>\<open>allowed_roles\<close>, the create tier.\<close>

definition create_roles :: "operator_role list" where
  "create_roles = [Admin, Operator_Role]"

section \<open>Laws of the gate\<close>

lemma require_tenant_role_Inr_iff [result_simps]:
  "require_tenant_role scope tid allowed = Inr u \<longleftrightarrow>
     allowed \<noteq> [] \<and>
     (is_super_admin scope \<or> (\<exists>t role. tid = Some t \<and> role_in scope t = Some role \<and> role \<in> set allowed))"
  by (auto simp: require_tenant_role_def split: option.splits)

lemma require_tenant_role_Inl:
  "require_tenant_role scope tid allowed = Inl e \<Longrightarrow> allowed \<noteq> [] \<Longrightarrow> \<exists>d. e = HTTPException 403 d"
  by (auto simp: require_tenant_role_def split: option.splits if_splits)

lemma visible_iff:
  "visible scope tid \<longleftrightarrow> is_super_admin scope \<or> (\<exists>t. tid = Some t \<and> t \<in> set (tenant_ids scope))"
  by (auto simp: visible_def scope_filter_def split: option.splits)

lemma resolve_create_tenant_Inr:
  assumes "resolve_create_tenant scope s explicit allowed = Inr t"
  shows "t \<in> set (tenants s)" and "explicit = Some i \<Longrightarrow> ten_id t = i"
    and "\<not> is_super_admin scope \<Longrightarrow>
      ten_id t \<in> set (tenant_ids scope) \<and> (\<exists>role. role_in scope (ten_id t) = Some role \<and> role \<in> set allowed)"
    and "is_super_admin scope \<Longrightarrow> explicit = None \<Longrightarrow> ten_id t = default_tenant_id"
  using assms
  by (auto simp: resolve_create_tenant_def resolve_target_id_def result_simps
      split: if_splits option.splits dest!: get_row_SomeD)

text \<open>The scope the database gives agrees with its join rows.\<close>

lemma role_map_Some: "role_map rows t = Some r \<Longrightarrow> \<exists>j \<in> set rows. ot_tenant_id j = t \<and> ot_role j = r"
  by (auto simp: role_map_def dest!: map_of_SomeD)

lemma role_map_dom: "role_map rows t \<noteq> None \<longleftrightarrow> t \<in> ot_tenant_id ` set rows"
  by (auto simp: role_map_def map_of_eq_None_iff image_iff)

lemma scope_from_db_ids: "t \<in> set (tenant_ids (scope_from_db s op)) \<longleftrightarrow> role_in (scope_from_db s op) t \<noteq> None"
  using role_map_dom [of "join_rows s (op_id op)" t] by (simp add: scope_from_db_def Let_def role_in_def)

section \<open>Correctness\<close>

text \<open>
  For the scope the database gives an operator, a create request that resolves
  to a tenant names an existing tenant; unless the operator is a super-admin, a join
  row attaches the operator to it with an allowed role, so \<^verbatim>\<open>require_tenant_role\<close>
  passes on that tenant and list endpoints show the operator the new row.
\<close>

theorem create_tenant_is_authorised:
  assumes "resolve_create_tenant (scope_from_db s op) s explicit allowed = Inr t"
  shows "t \<in> set (tenants s) \<and> (\<forall>i. explicit = Some i \<longrightarrow> ten_id t = i) \<and>
     (op_role op = Admin \<or>
       (\<exists>j \<in> set (operator_tenants s). ot_operator_id j = op_id op \<and> ot_tenant_id j = ten_id t \<and>
          ot_role j \<in> set allowed) \<and>
       require_tenant_role (scope_from_db s op) (Some (ten_id t)) allowed = Inr ()) \<and>
     visible (scope_from_db s op) (Some (ten_id t))"
proof (cases "op_role op = Admin")
  case True
  then have "is_super_admin (scope_from_db s op)" by (simp add: scope_from_db_def Let_def)
  with True resolve_create_tenant_Inr [OF assms] show ?thesis by (auto simp: visible_iff)
next
  case False
  then have ns: "\<not> is_super_admin (scope_from_db s op)" by (simp add: scope_from_db_def Let_def)
  then obtain role where r: "role_in (scope_from_db s op) (ten_id t) = Some role" "role \<in> set allowed"
    and m: "ten_id t \<in> set (tenant_ids (scope_from_db s op))"
    using resolve_create_tenant_Inr(3) [OF assms] by blast
  then obtain j where "j \<in> set (join_rows s (op_id op))" "ot_tenant_id j = ten_id t" "ot_role j = role"
    by (auto simp: role_in_def scope_from_db_def Let_def dest!: role_map_Some)
  with r m resolve_create_tenant_Inr(1,2) [OF assms] show ?thesis
    by (auto simp: join_rows_def visible_iff result_simps)
qed

definition sample_operator :: operator where
  "sample_operator = \<lparr>op_id = 3, op_tenant = None, op_cn = ''alice@wg.local'', op_display_name = None,
     op_role = Operator_Role, op_status = Active, op_created_at = 0\<rparr>"

definition sample_join :: operator_tenant where
  "sample_join = \<lparr>ot_id = 1, ot_operator_id = 3, ot_tenant_id = 1, ot_role = Operator_Role, ot_created_at = 0\<rparr>"

definition anonymous_request :: request_state where
  "anonymous_request = \<lparr>rs_cert_subject = None, rs_operator = None, rs_tenant_ids = None, rs_tenant_roles = None,
     rs_is_super_admin = None\<rparr>"

definition scoped_db :: state where
  "scoped_db = sample_db\<lparr>operators := [sample_operator], operator_tenants := [sample_join]\<rparr>"

theorem create_tenant_is_authorised_witness:
  "require_tenant_role (scope_from_db scoped_db sample_operator) (Some 1) create_roles = Inr ()"
proof -
  have r: "resolve_create_tenant (scope_from_db scoped_db sample_operator) scoped_db None create_roles
      = Inr sample_tenant"
    by code_simp
  have "op_role sample_operator \<noteq> Admin" "ten_id sample_tenant = 1"
    by (simp_all add: sample_operator_def sample_tenant_def)
  with create_tenant_is_authorised [OF r] show ?thesis by simp
qed

end
