(* ===== verification/Auth.thy ===== *)
theory Auth
  imports Tenant_Scope
begin

text \<open>
  \<^verbatim>\<open>auth.py\<close>: reading the client certificate off the ASGI scope, the decision chain
  of \<^verbatim>\<open>MTLSAuthMiddleware.dispatch\<close> with its bootstrap path, and the two router
  dependencies. Parsing X.509 is a parameter: \<^verbatim>\<open>load_pem\<close> stands for
  \<^verbatim>\<open>x509.load_pem_x509_certificate\<close>. The audit lines of the branches are returned
  as values.
\<close>

section \<open>Certificates\<close>

datatype san_entry = DNSName string | IPAddress string | OtherName

record x509_certificate =
  x_subject :: "(string \<times> string) list"
  x_sans :: "san_entry list option"
  x_serial_number :: int
  x_not_valid_before :: int
  x_not_valid_after :: int

definition sans_from_cert :: "x509_certificate \<Rightarrow> string list" where
  "sans_from_cert cert = (case x_sans cert of
       None \<Rightarrow> []
     | Some entries \<Rightarrow> concat (map (\<lambda>e. case e of DNSName v \<Rightarrow> [v] | IPAddress v \<Rightarrow> [v] | OtherName \<Rightarrow> []) entries))"

text \<open>\<^verbatim>\<open>NameOID.COMMON_NAME\<close> is 2.5.4.3.\<close>

definition common_name :: "x509_certificate \<Rightarrow> string" where
  "common_name cert = (case find (\<lambda>(oid, v). oid = ''2.5.4.3'') (x_subject cert) of
       None \<Rightarrow> [] | Some (_, v) \<Rightarrow> v)"

definition parse_subject_from_pem ::
  "(string \<Rightarrow> x509_certificate result) \<Rightarrow> string \<Rightarrow> cert_subject result" where
  "parse_subject_from_pem load_pem pem =
     (if pem = [] \<or> strip pem = [] then Inl (ValueError ''cert pem is empty'')
      else case load_pem pem of
        Inl (ValueError m) \<Rightarrow> Inl (ValueError (''not a valid x509 certificate: '' @ m))
      | Inl (TypeError m) \<Rightarrow> Inl (ValueError (''not a valid x509 certificate: '' @ m))
      | Inl e \<Rightarrow> Inl e
      | Inr cert \<Rightarrow> Inr \<lparr>cs_common_name = common_name cert, cs_sans = sans_from_cert cert,
          cs_serial = x_serial_number cert, cs_not_before = x_not_valid_before cert,
          cs_not_after = x_not_valid_after cert, cs_cert_pem = pem\<rparr>)"

section \<open>ASGI scope\<close>

record tls_extension = client_cert_chain :: "string list option"

record asgi_scope =
  sc_method :: string
  sc_path :: string
  sc_extensions :: "tls_extension option option"

text \<open>
  A missing \<^verbatim>\<open>extensions\<close> or \<^verbatim>\<open>tls\<close> entry, an empty chain, an empty first PEM and a
  PEM that does not parse all give no subject. Other exceptions pass through.
\<close>

definition extract_subject_from_scope ::
  "(string \<Rightarrow> x509_certificate result) \<Rightarrow> asgi_scope \<Rightarrow> cert_subject option result" where
  "extract_subject_from_scope load_pem scope =
     (case sc_extensions scope of
        Some (Some tls) \<Rightarrow> (case client_cert_chain tls of
            Some (first # _) \<Rightarrow>
              if first = [] then Inr None
              else (case parse_subject_from_pem load_pem first of
                  Inr subject \<Rightarrow> Inr (Some subject)
                | Inl (ValueError _) \<Rightarrow> Inr None
                | Inl e \<Rightarrow> Inl e)
          | _ \<Rightarrow> Inr None)
      | _ \<Rightarrow> Inr None)"

section \<open>Settings and environment of the middleware\<close>

record auth_settings =
  tls_required :: bool
  auth_bootstrap_operator_cn :: "string option"
  auth_bootstrap_operator_role :: string

text \<open>
  \<^verbatim>\<open>interleave\<close> is what other sessions commit between the lookup of the operator and
  the bootstrap insert; the two flags say whether the defensive lookups of the
  certificate registry and of the tenant joins meet a driver error.
\<close>

record auth_env =
  au_load_pem :: "string \<Rightarrow> x509_certificate result"
  au_now :: int
  au_new_id :: int
  au_interleave :: "state \<Rightarrow> state"
  registry_fails :: bool
  joins_fail :: bool

definition HEALTH_PATHS :: "string list" where
  "HEALTH_PATHS = [''/healthz'', ''/readyz'', ''/v1/healthz'', ''/v1/readyz'']"

definition is_health_path :: "string \<Rightarrow> bool" where
  "is_health_path path \<longleftrightarrow> path \<in> set HEALTH_PATHS"

definition no_state :: request_state where
  "no_state = \<lparr>rs_cert_subject = None, rs_operator = None, rs_tenant_ids = None,
     rs_tenant_roles = None, rs_is_super_admin = None\<rparr>"

section \<open>Registry lookups\<close>

definition find_operator :: "state \<Rightarrow> string \<Rightarrow> operator option" where
  "find_operator s cn = find (\<lambda>r. op_cn r = cn) (operators s)"

definition maybe_bootstrap ::
  "auth_settings \<Rightarrow> auth_env \<Rightarrow> cert_subject \<Rightarrow> state \<Rightarrow> state \<times> operator option" where
  "maybe_bootstrap settings e subject s =
     (case auth_bootstrap_operator_cn settings of
        None \<Rightarrow> (s, None)
      | Some bootstrap_cn \<Rightarrow>
          if bootstrap_cn = [] \<or> bootstrap_cn \<noteq> cs_common_name subject then (s, None)
          else (case operator_role_of (auth_bootstrap_operator_role settings) of
              None \<Rightarrow> (s, None)
            | Some role \<Rightarrow>
                let s' = au_interleave e s;
                    row = \<lparr>op_id = au_new_id e, op_tenant = None, op_cn = cs_common_name subject,
                      op_display_name = Some (''bootstrap:'' @ cs_common_name subject),
                      op_role = role, op_status = Active, op_created_at = au_now e\<rparr>
                in if find_operator s' (cs_common_name subject) \<noteq> None
                   then (s', find_operator s' (cs_common_name subject))
                   else (s'\<lparr>operators := operators s' @ [row]\<rparr>, Some row)))"

text \<open>The detached copy of the row: every column but \<^verbatim>\<open>tenant_id\<close>.\<close>

definition resolve_operator ::
  "auth_settings \<Rightarrow> auth_env \<Rightarrow> cert_subject \<Rightarrow> state \<Rightarrow> state \<times> operator option" where
  "resolve_operator settings e subject s =
     (let (s', row) = (case find_operator s (cs_common_name subject) of
            Some r \<Rightarrow> (s, Some r)
          | None \<Rightarrow> maybe_bootstrap settings e subject s)
      in (s', map_option (\<lambda>r. r\<lparr>op_tenant := None\<rparr>) row))"

definition serial_is_revoked :: "auth_env \<Rightarrow> state \<Rightarrow> int \<Rightarrow> bool" where
  "serial_is_revoked e s serial =
     (if registry_fails e then False
      else case find (\<lambda>c. crt_serial c = str_of_int serial) (certificates s) of
          None \<Rightarrow> False | Some row \<Rightarrow> crt_revoked row)"

definition resolve_tenant_set ::
  "auth_env \<Rightarrow> state \<Rightarrow> operator \<Rightarrow> int list \<times> (int \<Rightarrow> operator_role option)" where
  "resolve_tenant_set e s operator =
     (if joins_fail e then ([], \<lambda>_. None)
      else let rows = join_rows s (op_id operator)
           in (sort (map ot_tenant_id rows), role_map rows))"

section \<open>The decision chain\<close>

datatype reject_reason = Client_Cert_Required | Operator_Not_Registered | Operator_Disabled | Operator_Cert_Revoked

text \<open>
  A request is answered with a 401 and its detail, or forwarded with the state slots
  set. The audit line names the event, the reason, the CN and the serial.
\<close>

datatype decision = Reject reject_reason | Forward request_state

datatype auth_line =
    Auth_Reject reject_reason "(string \<times> string) option" string string
  | Auth_Admit string string string string string

fun reject_detail :: "reject_reason \<Rightarrow> string" where
  "reject_detail Client_Cert_Required = ''client cert required''"
| "reject_detail Operator_Not_Registered = ''operator not registered''"
| "reject_detail Operator_Disabled = ''operator disabled''"
| "reject_detail Operator_Cert_Revoked = ''operator cert revoked''"

definition admit_state :: "auth_env \<Rightarrow> state \<Rightarrow> cert_subject \<Rightarrow> operator \<Rightarrow> request_state" where
  "admit_state e s subject operator =
     (let (ids, roles) = resolve_tenant_set e s operator in
      \<lparr>rs_cert_subject = Some subject, rs_operator = Some operator, rs_tenant_ids = Some ids,
       rs_tenant_roles = Some roles, rs_is_super_admin = Some (op_role operator = Admin)\<rparr>)"

definition dispatch ::
  "auth_settings \<Rightarrow> auth_env \<Rightarrow> asgi_scope \<Rightarrow> state \<Rightarrow> (state \<times> auth_line list \<times> decision) result" where
  "dispatch settings e scope s =
     (let method = sc_method scope; path = sc_path scope in
      if is_health_path path then Inr (s, [], Forward no_state)
      else if \<not> tls_required settings then Inr (s, [], Forward no_state)
      else if method = ''OPTIONS'' then Inr (s, [], Forward no_state)
      else rbind (extract_subject_from_scope (au_load_pem e) scope) (\<lambda>sub.
        case sub of
          None \<Rightarrow> Inr (s, [Auth_Reject Client_Cert_Required None method path], Reject Client_Cert_Required)
        | Some subject \<Rightarrow>
            let who = Some (cs_common_name subject, str_of_int (cs_serial subject));
                (s', op) = resolve_operator settings e subject s in
            (case op of
               None \<Rightarrow> Inr (s', [Auth_Reject Operator_Not_Registered who method path],
                           Reject Operator_Not_Registered)
             | Some operator \<Rightarrow>
                 if op_status operator \<noteq> Active
                 then Inr (s', [Auth_Reject Operator_Disabled who method path], Reject Operator_Disabled)
                 else if serial_is_revoked e s' (cs_serial subject)
                 then Inr (s', [Auth_Reject Operator_Cert_Revoked who method path],
                           Reject Operator_Cert_Revoked)
                 else Inr (s', [Auth_Admit (cs_common_name subject) (str_of_int (cs_serial subject))
                                  (operator_role_value (op_role operator)) method path],
                           Forward (admit_state e s' subject operator)))))"

section \<open>Router dependencies\<close>

definition require_subject :: "request_state \<Rightarrow> cert_subject result" where
  "require_subject rs = or_raise (rs_cert_subject rs) (HTTPException 401 ''client cert required'')"

definition require_role :: "operator_role list \<Rightarrow> request_state \<Rightarrow> cert_subject result" where
  "require_role roles rs =
     (if roles = [] then Inl (ValueError ''require_role() must be called with at least one OperatorRole'')
      else rbind (require_subject rs) (\<lambda>subject.
        case rs_operator rs of
          None \<Rightarrow> Inl (HTTPException 401 ''operator unknown'')
        | Some op \<Rightarrow> if op_role op \<notin> set roles then Inl (HTTPException 403 ''role not permitted'')
                     else Inr subject))"

section \<open>Lemmas\<close>

lemma find_append_one: "find P (xs @ [x]) = (case find P xs of Some y \<Rightarrow> Some y | None \<Rightarrow> if P x then Some x else None)"
  by (induction xs) auto

lemma find_operator_cn: "find_operator s cn = Some r \<Longrightarrow> r \<in> set (operators s) \<and> op_cn r = cn"
  by (auto simp: find_operator_def dest: find_SomeD)

lemma find_operator_None: "find_operator s cn = None \<longleftrightarrow> cn \<notin> op_cn ` set (operators s)"
  by (auto simp: find_operator_def find_None_iff)

lemma maybe_bootstrap_Some:
  assumes "maybe_bootstrap settings e subject s = (s', Some row)"
  shows "find_operator s' (cs_common_name subject) = Some row"
    and "auth_bootstrap_operator_cn settings = Some (cs_common_name subject)"
    and "s' = au_interleave e s \<or>
      (cs_common_name subject \<notin> op_cn ` set (operators (au_interleave e s)) \<and>
       op_cn row = cs_common_name subject \<and> s' = (au_interleave e s)\<lparr>operators := operators (au_interleave e s) @ [row]\<rparr>)"
  using assms
  by (auto simp: maybe_bootstrap_def Let_def find_operator_None [symmetric] find_operator_def find_append_one
      split: option.splits if_splits)

lemma maybe_bootstrap_None: "maybe_bootstrap settings e subject s = (s', None) \<Longrightarrow> s' = s"
  by (auto simp: maybe_bootstrap_def Let_def split: option.splits if_splits)

lemma resolve_operator_Some:
  assumes "resolve_operator settings e subject s = (s', Some op)"
  shows "\<exists>r. find_operator s' (cs_common_name subject) = Some r \<and> op = r\<lparr>op_tenant := None\<rparr>"
  using assms maybe_bootstrap_Some(1) [of settings e subject s s']
  by (auto simp: resolve_operator_def split: option.splits prod.splits)

lemma resolve_tenant_set_scope:
  assumes "\<not> joins_fail e"
  shows "get_tenant_scope s'' (admit_state e s subject op) = scope_from_db s op"
  using assms by (simp add: get_tenant_scope_def admit_state_def resolve_tenant_set_def scope_from_db_def Let_def)

lemma scope_from_db_detached: "scope_from_db s (r\<lparr>op_tenant := None\<rparr>) = scope_from_db s r"
  by (simp add: scope_from_db_def)

text \<open>What a forwarded request went through when no bypass applies.\<close>

lemma dispatch_forwardD:
  assumes "dispatch settings e scope s = Inr (s', lines, Forward rs)"
    and "tls_required settings" and "\<not> is_health_path (sc_path scope)" and "sc_method scope \<noteq> ''OPTIONS''"
  shows "\<exists>subject op. extract_subject_from_scope (au_load_pem e) scope = Inr (Some subject) \<and>
     resolve_operator settings e subject s = (s', Some op) \<and> op_status op = Active \<and>
     \<not> serial_is_revoked e s' (cs_serial subject) \<and> rs = admit_state e s' subject op"
proof -
  obtain sub where x: "extract_subject_from_scope (au_load_pem e) scope = Inr sub"
    using assms by (auto simp: dispatch_def Let_def rbind_Inr_iff)
  show ?thesis
  proof (cases sub)
    case None
    with assms x show ?thesis by (simp add: dispatch_def Let_def)
  next
    case (Some subject)
    obtain s1 op where ro: "resolve_operator settings e subject s = (s1, op)" by fastforce
    obtain operator where op: "op = Some operator"
      using assms x Some ro by (cases op) (simp_all add: dispatch_def Let_def)
    show ?thesis
      using assms x Some ro op
      by (intro exI [of _ subject] exI [of _ operator])
        (auto simp: dispatch_def Let_def split: if_splits)
  qed
qed

lemma serial_is_revoked_iff:
  assumes "distinct (map crt_serial (certificates s))" and "\<not> registry_fails e"
  shows "serial_is_revoked e s n \<longleftrightarrow> (\<exists>c \<in> set (certificates s). crt_serial c = str_of_int n \<and> crt_revoked c)"
proof (cases "find (\<lambda>c. crt_serial c = str_of_int n) (certificates s)")
  case None
  then have "\<forall>c \<in> set (certificates s). crt_serial c \<noteq> str_of_int n" by (simp add: find_None_iff')
  with None show ?thesis by (auto simp: serial_is_revoked_def)
next
  case (Some c)
  then have c: "c \<in> set (certificates s)" "crt_serial c = str_of_int n" by (auto dest: find_SomeD)
  have "serial_is_revoked e s n \<longleftrightarrow> crt_revoked c"
    using Some assms(2) by (simp add: serial_is_revoked_def)
  moreover have "c' = c" if "c' \<in> set (certificates s)" "crt_serial c' = str_of_int n" for c'
    using distinct_map_eq [OF assms(1)] that c by metis
  ultimately show ?thesis using c by blast
qed

section \<open>Correctness\<close>

text \<open>
  C7: with TLS required, for a request that is neither a health probe nor an OPTIONS
  preflight, while the certificate and the tenant lookup answer (no database error) and the
  serials of the registry are distinct: if it reaches the application it carries a parsed
  certificate whose CN is registered and active, no revoked certificate row has its serial,
  and the scope the handlers see is the one the join rows give that operator. The lookup
  failing is a real gap: the middleware then takes the certificate as not revoked
  (\<^verbatim>\<open>registry_failure_admits_revoked\<close>).
\<close>

theorem dispatch_admits_registered_operators:
  assumes "dispatch settings e scope s = Inr (s', lines, Forward rs)"
    and "tls_required settings" and "\<not> is_health_path (sc_path scope)" and "sc_method scope \<noteq> ''OPTIONS''"
    and "\<not> registry_fails e" and "\<not> joins_fail e" and "distinct (map crt_serial (certificates s'))"
  shows "\<exists>subject r. extract_subject_from_scope (au_load_pem e) scope = Inr (Some subject) \<and>
     r \<in> set (operators s') \<and> op_cn r = cs_common_name subject \<and> op_status r = Active \<and>
     (\<forall>c \<in> set (certificates s'). crt_serial c = str_of_int (cs_serial subject) \<longrightarrow> \<not> crt_revoked c) \<and>
     get_tenant_scope s' rs = scope_from_db s' r \<and> require_subject rs = Inr subject"
proof -
  obtain subject op where sub: "extract_subject_from_scope (au_load_pem e) scope = Inr (Some subject)"
    and op: "resolve_operator settings e subject s = (s', Some op)" and act: "op_status op = Active"
    and rev: "\<not> serial_is_revoked e s' (cs_serial subject)" and rs: "rs = admit_state e s' subject op"
    using dispatch_forwardD [OF assms(1-4)] by blast
  obtain r where r: "find_operator s' (cs_common_name subject) = Some r" "op = r\<lparr>op_tenant := None\<rparr>"
    using resolve_operator_Some [OF op] by blast
  have "get_tenant_scope s' rs = scope_from_db s' r"
    using resolve_tenant_set_scope [OF assms(6)] rs r scope_from_db_detached by simp
  moreover have "require_subject rs = Inr subject"
    by (simp add: rs admit_state_def require_subject_def split: prod.splits)
  ultimately show ?thesis
    using sub act rev r find_operator_cn [OF r(1)] serial_is_revoked_iff [OF assms(7,5)] by fastforce
qed

text \<open>
  the only operator row authentication ever adds is the one for the configured
  bootstrap CN, once: whatever other sessions commit between the lookup and the
  insert, an admitted CN that was not registered is the bootstrap CN, and unique CNs
  stay unique.
\<close>

theorem bootstrap_registers_one_row:
  assumes "resolve_operator settings e subject s = (s', Some op)"
    and "find_operator s (cs_common_name subject) = None"
    and "distinct (map op_cn (operators (au_interleave e s)))"
  shows "auth_bootstrap_operator_cn settings = Some (cs_common_name subject) \<and>
     distinct (map op_cn (operators s')) \<and>
     op_cn ` set (operators s') = insert (cs_common_name subject) (op_cn ` set (operators (au_interleave e s))) \<and>
     (\<exists>!r. r \<in> set (operators s') \<and> op_cn r = cs_common_name subject)"
proof -
  obtain row where b: "maybe_bootstrap settings e subject s = (s', Some row)"
    using assms(1,2) by (auto simp: resolve_operator_def split: prod.splits)
  note B = maybe_bootstrap_Some [OF b]
  have d: "distinct (map op_cn (operators s'))" using B(3) assms(3) by auto
  have row: "row \<in> set (operators s')" "op_cn row = cs_common_name subject"
    using find_operator_cn [OF B(1)] by auto
  have "op_cn ` set (operators s') = insert (cs_common_name subject) (op_cn ` set (operators (au_interleave e s)))"
    using B(3) imageI [OF row(1), of op_cn] row(2) by auto
  moreover have "\<exists>!r. r \<in> set (operators s') \<and> op_cn r = cs_common_name subject"
    using row distinct_map_eq [OF d] by metis
  ultimately show ?thesis using B(2) d by blast
qed

definition sample_x509 :: x509_certificate where
  "sample_x509 = \<lparr>x_subject = [(''2.5.4.3'', ''alice@wg.local'')], x_sans = None, x_serial_number = 42,
     x_not_valid_before = 0, x_not_valid_after = 10\<rparr>"

definition sample_auth_env :: auth_env where
  "sample_auth_env = \<lparr>au_load_pem = (\<lambda>pem. Inr sample_x509), au_now = 5, au_new_id = 9,
     au_interleave = id, registry_fails = False, joins_fail = False\<rparr>"

definition sample_settings :: auth_settings where
  "sample_settings = \<lparr>tls_required = True, auth_bootstrap_operator_cn = Some ''alice@wg.local'',
     auth_bootstrap_operator_role = ''admin''\<rparr>"

definition sample_scope :: asgi_scope where
  "sample_scope = \<lparr>sc_method = ''GET'', sc_path = ''/servers'',
     sc_extensions = Some (Some \<lparr>client_cert_chain = Some [''PEM'']\<rparr>)\<rparr>"

definition sample_subject :: cert_subject where
  "sample_subject = \<lparr>cs_common_name = ''alice@wg.local'', cs_sans = [], cs_serial = 42,
     cs_not_before = 0, cs_not_after = 10, cs_cert_pem = ''PEM''\<rparr>"

theorem dispatch_admits_registered_operators_witness:
  "\<exists>s' lines rs subject r. dispatch sample_settings sample_auth_env sample_scope scoped_db = Inr (s', lines, Forward rs) \<and>
     extract_subject_from_scope (au_load_pem sample_auth_env) sample_scope = Inr (Some subject) \<and>
     r \<in> set (operators s') \<and> op_cn r = cs_common_name subject \<and> op_status r = Active \<and>
     get_tenant_scope s' rs = scope_from_db s' r"
proof -
  have "dispatch sample_settings sample_auth_env sample_scope scoped_db =
      Inr (scoped_db, [Auth_Admit ''alice@wg.local'' ''42'' ''operator'' ''GET'' ''/servers''],
        Forward (admit_state sample_auth_env scoped_db sample_subject sample_operator))"
    by (simp add: dispatch_def sample_scope_def sample_settings_def sample_auth_env_def is_health_path_def
        HEALTH_PATHS_def extract_subject_from_scope_def parse_subject_from_pem_def strip_def rstrip_if_def
        is_space_def sample_x509_def common_name_def sans_from_cert_def resolve_operator_def
        find_operator_def scoped_db_def sample_db_def empty_db_def sample_operator_def serial_is_revoked_def
        sample_subject_def str_of_int_def str_of_nat_small str_of_nat_big digit_chars)
  moreover from this have "\<exists>subject r. extract_subject_from_scope (au_load_pem sample_auth_env) sample_scope =
        Inr (Some subject) \<and> r \<in> set (operators scoped_db) \<and> op_cn r = cs_common_name subject \<and> op_status r = Active \<and>
      (\<forall>c \<in> set (certificates scoped_db). crt_serial c = str_of_int (cs_serial subject) \<longrightarrow> \<not> crt_revoked c) \<and>
      get_tenant_scope scoped_db (admit_state sample_auth_env scoped_db sample_subject sample_operator) =
        scope_from_db scoped_db r \<and>
      require_subject (admit_state sample_auth_env scoped_db sample_subject sample_operator) = Inr subject"
    by (rule dispatch_admits_registered_operators)
      (simp_all add: sample_settings_def sample_auth_env_def sample_scope_def is_health_path_def
        HEALTH_PATHS_def scoped_db_def sample_db_def empty_db_def)
  ultimately show ?thesis by blast
qed

theorem bootstrap_registers_one_row_witness:
  "\<exists>s' op. resolve_operator sample_settings sample_auth_env sample_subject empty_db = (s', Some op) \<and>
     distinct (map op_cn (operators s'))"
proof -
  let ?row = "\<lparr>op_id = 9, op_tenant = None, op_cn = ''alice@wg.local'',
    op_display_name = Some ''bootstrap:alice@wg.local'', op_role = Admin, op_status = Active, op_created_at = 5\<rparr>"
  have r: "resolve_operator sample_settings sample_auth_env sample_subject empty_db =
      (empty_db\<lparr>operators := [?row]\<rparr>, Some ?row)"
    by (simp add: resolve_operator_def maybe_bootstrap_def find_operator_def empty_db_def sample_settings_def
        sample_auth_env_def sample_subject_def operator_role_of_def Let_def)
  have n: "find_operator empty_db (cs_common_name sample_subject) = None"
    by (simp add: find_operator_def empty_db_def)
  have "distinct (map op_cn (operators (au_interleave sample_auth_env empty_db)))"
    by (simp add: sample_auth_env_def empty_db_def)
  from bootstrap_registers_one_row [OF r n this] r show ?thesis by blast
qed

end
