(* ===== verification/Ip_Text.thy ===== *)
theory Ip_Text
  imports Ip_Address6
begin

unbundle bit_operations_syntax

text \<open>
  Printing and parsing of IPv6 addresses and of networks of either version: the
  compressed hextets, the IPv4-mapped form and the scope id parse back to what was
  printed, so the CIDR strings the program stores denote the networks it accepted.
\<close>

section \<open>Printing and parsing IPv6\<close>

lemma hex_char_val: "d < 16 \<Longrightarrow> hex_val (hex_char d) = Some d"
  by (auto simp: hex_char_def hex_val_def Let_def)

lemma hex_char_not: "d < 16 \<Longrightarrow> hex_val c = None \<Longrightarrow> hex_char d \<noteq> c"
  using hex_char_val by force

lemma hex_str_small: "n < 16 \<Longrightarrow> hex_str n = [hex_char n]"
  by (simp add: hex_str.simps [of n])

lemma hex_str_big: "\<not> n < 16 \<Longrightarrow> hex_str n = hex_str (n div 16) @ [hex_char (n mod 16)]"
  by (simp add: hex_str.simps [of n])

lemma hex_str_not_Nil [simp]: "hex_str n \<noteq> []"
  by (subst hex_str.simps) simp

lemma Nil_hex_str [simp]: "[] \<noteq> hex_str n"
  by (metis hex_str_not_Nil)

lemma hex_str_hex: "list_all (\<lambda>c. hex_val c \<noteq> None) (hex_str n)"
proof (induction n rule: hex_str.induct)
  case (1 n)
  then show ?case by (cases "n < 16") (simp_all add: hex_str_small hex_str_big hex_char_val)
qed

lemma hex_str_value: "foldl (\<lambda>m c. 16 * m + the (hex_val c)) 0 (hex_str n) = n"
proof (induction n rule: hex_str.induct)
  case (1 n)
  then show ?case by (cases "n < 16") (simp_all add: hex_str_small hex_str_big hex_char_val)
qed

lemma length_hex_str: "n < 16 ^ k \<Longrightarrow> 0 < k \<Longrightarrow> length (hex_str n) \<le> k"
proof (induction k arbitrary: n)
  case (Suc k)
  show ?case
  proof (cases "n < 16")
    case False
    with Suc.prems have "n div 16 < 16 ^ k" and "0 < k" by (auto intro: gr0I)
    with Suc.IH False show ?thesis by (simp add: hex_str_big)
  qed (simp add: hex_str_small)
qed simp

lemma parse_hextet_str: "h < 65536 \<Longrightarrow> parse_hextet (hex_str h) = Inr h"
  using length_hex_str [of h 4] hex_str_hex [of h] by (simp add: parse_hextet_def hex_str_value)

lemma hex_str_no: "hex_val c = None \<Longrightarrow> c \<notin> set (hex_str n)"
  using hex_str_hex [of n] by (auto simp: list_all_iff)

lemma rmap_parse_hextets: "(\<And>h. h \<in> set hs \<Longrightarrow> h < 65536) \<Longrightarrow> rmap parse_hextet (map hex_str hs) = Inr hs"
  by (induction hs) (simp_all add: parse_hextet_str)

text \<open>The scan returns a run of zeros inside the list.\<close>

definition zero_run :: "nat list \<Rightarrow> nat \<times> nat \<Rightarrow> bool" where
  "zero_run hs r \<longleftrightarrow> fst r + snd r \<le> length hs \<and> (\<forall>i. fst r \<le> i \<and> i < fst r + snd r \<longrightarrow> hs ! i = 0)"

lemma longest_run_zero:
  assumes "zero_run (pre @ hs) best" and "zero_run (pre @ hs) cur" and "snd cur \<noteq> 0 \<longrightarrow> fst cur + snd cur = length pre"
  shows "zero_run (pre @ hs) (longest_run hs (length pre) cur best)"
  using assms
proof (induction hs arbitrary: pre cur best)
  case (Cons h hs)
  obtain cs cl bs bl where c: "cur = (cs, cl)" "best = (bs, bl)" by fastforce
  show ?case
  proof (cases "h = 0")
    case True
    let ?cur = "(if cl = 0 then length pre else cs, cl + 1)"
    have z: "zero_run (pre @ h # hs) ?cur"
      using Cons.prems c True by (auto simp: zero_run_def nth_append less_Suc_eq)
    have "zero_run ((pre @ [h]) @ hs) (longest_run hs (length (pre @ [h])) ?cur (if bl < cl + 1 then ?cur else best))"
      using z Cons.prems c by (intro Cons.IH) auto
    then show ?thesis using True c by (simp add: Let_def split: if_splits)
  next
    case False
    have "zero_run ((pre @ [h]) @ hs) (longest_run hs (length (pre @ [h])) (0, 0) best)"
      using Cons.prems by (intro Cons.IH) (auto simp: zero_run_def)
    then show ?thesis using False c by simp
  qed
qed simp

lemma longest_run_spec: "zero_run hs (longest_run hs 0 (0, 0) (0, 0))"
  using longest_run_zero [of "[]" hs "(0, 0)" "(0, 0)"] by (simp add: zero_run_def)

lemma zero_run_decompose:
  assumes "zero_run hs (b, l)"
  shows "hs = take b hs @ replicate l 0 @ drop (b + l) hs"
proof -
  have "take l (drop b hs) = replicate l 0"
    using assms by (intro nth_equalityI) (auto simp: zero_run_def)
  moreover have "drop b hs = take l (drop b hs) @ drop (b + l) hs"
    using append_take_drop_id [of l "drop b hs"] by (simp add: add.commute)
  ultimately show ?thesis using append_take_drop_id [of b hs] by metis
qed

lemma foldl_hextets_zeros:
  "foldl (\<lambda>n h. 65536 * n + h) n (replicate l (0::nat)) = n * 65536 ^ l"
  by (induction l arbitrary: n) (simp_all add: mult.assoc)

lemma ip6_hextets_less: "h \<in> set (ip6_hextets a) \<Longrightarrow> h < 65536"
  by (auto simp: ip6_hextets_def)

lemma ip6_hextets_value:
  assumes "a < 2 ^ 128"
  shows "foldl (\<lambda>n h. 65536 * n + h) 0 (ip6_hextets a) = a"
proof -
  have step: "65536 * (x div (65536 * k)) + x div k mod 65536 = x div k" for x k :: nat
    by (metis div_mult2_eq mult.commute mult_div_mod_eq)
  have top: "a div 65536 ^ 7 mod 65536 = a div 65536 ^ 7"
    using assms by (intro mod_less) (simp add: less_mult_imp_div_less)
  show ?thesis
    unfolding ip6_hextets_def list.map foldl.simps top mult_0_right add_0
    using step [of a "65536 ^ 6"] step [of a "65536 ^ 5"] step [of a "65536 ^ 4"] step [of a "65536 ^ 3"]
      step [of a "65536 ^ 2"] step [of a "65536 ^ 1"] step [of a "65536 ^ 0"] top
    by simp
qed

lemma sep_not_hex [simp]:
  "hex_val CHR '':'' = None" "hex_val CHR ''.'' = None" "hex_val CHR ''/'' = None" "hex_val CHR ''%'' = None"
  by (simp_all add: hex_val_def)

lemma skip_indices_one:
  assumes "parts = pre @ [] # post" and "pre \<noteq> []" and "post \<noteq> []"
    and "\<And>p. p \<in> set (tl pre) \<union> set (butlast post) \<Longrightarrow> p \<noteq> []"
  shows "skip_indices parts = [length pre]"
proof -
  let ?n = "length pre" and ?m = "length post"
  have "parts ! i \<noteq> []" if i: "1 \<le> i" "i < ?n + ?m" "i \<noteq> ?n" for i
  proof (cases "i < ?n")
    case True
    then have "parts ! i = tl pre ! (i - 1)" "i - 1 < length (tl pre)"
      using i assms(1) by (auto simp: nth_append nth_tl)
    then show ?thesis using assms(4) nth_mem by auto
  next
    case False
    then have "parts ! i = butlast post ! (i - ?n - 1)" "i - ?n - 1 < length (butlast post)"
      using i assms(1,3) by (auto simp: nth_append nth_butlast nth_Cons')
    then show ?thesis using assms(4) nth_mem by auto
  qed
  moreover have "[1 ..< ?n + ?m] = [1 ..< ?n] @ ?n # [Suc ?n ..< ?n + ?m]"
    using assms(2,3) upt_add_eq_append [of 1 ?n ?m] by (simp add: Suc_le_eq upt_conv_Cons)
  ultimately show ?thesis using assms(1) by (simp add: skip_indices_def filter_empty_conv)
qed

lemma layout_compressed:
  assumes A: "\<And>p. p \<in> set A \<Longrightarrow> p \<noteq> []" and C: "\<And>p. p \<in> set C \<Longrightarrow> p \<noteq> []"
    and len: "length A + l + length C = 8" "0 < l"
    and parts: "parts = (if A = [] then [[]] else A) @ [] # (if C = [] then [[]] else C)"
  shows "layout_parts parts = Inr (length A, l, length C)"
    and "take (length A) parts = A" and "drop (length parts - length C) parts = C"
proof -
  have "[] \<notin> set A" "[] \<notin> set C" using A C by auto
  then have "skip_indices parts = [length (if A = [] then [[]] else A)]"
    by (intro skip_indices_one [OF parts]) (auto split: if_splits dest: in_set_butlastD list.set_sel(2))
  moreover have "hd parts = [] \<longleftrightarrow> A = []" using A parts by (cases A) auto
  moreover have "last parts = [] \<longleftrightarrow> C = []" using C [OF last_in_set] parts by auto
  ultimately show "layout_parts parts = Inr (length A, l, length C)"
    using len parts by (auto simp: layout_parts_def Let_def)
  show "take (length A) parts = A" "drop (length parts - length C) parts = C" using parts by auto
qed

lemma layout_full:
  assumes "\<And>p. p \<in> set parts \<Longrightarrow> p \<noteq> []" and "length parts = 8"
  shows "layout_parts parts = Inr (8, 0, 0)"
proof -
  have "skip_indices parts = []" using assms by (auto simp: skip_indices_def filter_empty_conv)
  moreover have "parts \<noteq> []" using assms(2) by auto
  ultimately show ?thesis
    using assms(2) assms(1) [OF hd_in_set] assms(1) [OF last_in_set] by (simp add: layout_parts_def Let_def)
qed

lemma compress_cases:
  fixes hs :: "nat list"
  obtains (full) "compress_hextets hs = map hex_str hs"
  | (run) b l where "zero_run hs (b, l)" and "1 < l"
      and "compress_hextets hs = (if take b hs = [] then [[]] else map hex_str (take b hs)) @ [] #
        (if drop (b + l) hs = [] then [[]] else map hex_str (drop (b + l) hs))"
proof -
  obtain b l where bl: "longest_run hs 0 (0, 0) (0, 0) = (b, l)" by fastforce
  then have z: "zero_run hs (b, l)" using longest_run_spec [of hs] by simp
  show ?thesis
  proof (cases "1 < l")
    case True
    then have "hs \<noteq> []" using z by (auto simp: zero_run_def)
    with True z show ?thesis
      by (intro run [OF z True]) (auto simp: compress_hextets_def bl Let_def zero_run_def take_map drop_map)
  next
    case False
    then show ?thesis by (intro full) (simp add: compress_hextets_def bl)
  qed
qed

text \<open>Parsing the printed hextets gives the value back.\<close>

lemma compress_parts:
  assumes "length hs = 8" and "\<And>h. h \<in> set hs \<Longrightarrow> h < 65536"
  shows "\<exists>hi sk lo xs ys. layout_parts (compress_hextets hs) = Inr (hi, sk, lo) \<and>
     length (compress_hextets hs) \<le> 9 \<and> 3 \<le> length (compress_hextets hs) \<and>
     rmap parse_hextet (take hi (compress_hextets hs)) = Inr xs \<and>
     rmap parse_hextet (drop (length (compress_hextets hs) - lo) (compress_hextets hs)) = Inr ys \<and>
     hs = xs @ replicate sk 0 @ ys"
proof (cases hs rule: compress_cases)
  case full
  have "layout_parts (map hex_str hs) = Inr (8, 0, 0)" using assms by (intro layout_full) auto
  then show ?thesis using full assms by (auto simp: rmap_parse_hextets)
next
  case (run b l)
  have len: "b + l \<le> 8" using run(1) assms(1) by (simp add: zero_run_def)
  let ?A = "map hex_str (take b hs)" and ?C = "map hex_str (drop (b + l) hs)"
  have parts: "compress_hextets hs = (if ?A = [] then [[]] else ?A) @ [] # (if ?C = [] then [[]] else ?C)"
    using run(3) by simp
  have AC: "length ?A + l + length ?C = 8" "0 < l" using len assms(1) run(2) by auto
  have "p \<noteq> []" if "p \<in> set ?A \<or> p \<in> set ?C" for p using that by auto
  then have L: "layout_parts (compress_hextets hs) = Inr (length ?A, l, length ?C)"
    "take (length ?A) (compress_hextets hs) = ?A"
    "drop (length (compress_hextets hs) - length ?C) (compress_hextets hs) = ?C"
    using layout_compressed [OF _ _ AC parts] by blast+
  have R: "rmap parse_hextet (take (length ?A) (compress_hextets hs)) = Inr (take b hs)"
    "rmap parse_hextet (drop (length (compress_hextets hs) - length ?C) (compress_hextets hs)) = Inr (drop (b + l) hs)"
    unfolding L using assms(2) by (auto intro!: rmap_parse_hextets dest: in_set_takeD in_set_dropD)
  have B: "length (compress_hextets hs) \<le> 9" "3 \<le> length (compress_hextets hs)"
    unfolding parts using AC run(2) by (auto simp: Suc_le_eq)
  show ?thesis by (intro exI conjI) (rule L(1) R B zero_run_decompose [OF run(1)])+
qed

lemma compress_no:
  assumes "hex_val c = None" and "p \<in> set (compress_hextets hs)"
  shows "c \<notin> set p"
  using assms by (cases hs rule: compress_cases) (auto simp: hex_str_no split: if_splits)

lemma length_ip6_hextets [simp]: "length (ip6_hextets a) = 8"
  by (simp add: ip6_hextets_def)

lemma join_not_Nil: "2 \<le> length ps \<Longrightarrow> sep \<noteq> [] \<Longrightarrow> join_with sep ps \<noteq> []"
  by (induction sep ps rule: join_with.induct) auto

lemma string_from_ip6_int_roundtrip:
  assumes "a < 2 ^ 128"
  shows "ip6_int_from_string (string_from_ip6_int a) = Inr a"
proof -
  let ?hs = "ip6_hextets a"
  let ?ps = "compress_hextets ?hs"
  obtain hi sk lo xs ys where L: "layout_parts ?ps = Inr (hi, sk, lo)" "length ?ps \<le> 9" "3 \<le> length ?ps"
    and R: "rmap parse_hextet (take hi ?ps) = Inr xs" "rmap parse_hextet (drop (length ?ps - lo) ?ps) = Inr ys"
    and D: "?hs = xs @ replicate sk 0 @ ys"
    using compress_parts [of ?hs] ip6_hextets_less [of _ a] by auto
  have ne: "?ps \<noteq> []" using L(3) by auto
  have split: "split_on CHR '':'' (string_from_ip6_int a) = ?ps"
    unfolding string_from_ip6_int_def using ne compress_no [of "CHR '':''"] by (intro split_join) auto
  have "CHR ''.'' \<notin> set (last ?ps)" using compress_no [of "CHR ''.''", OF _ last_in_set [OF ne]] by simp
  then have "expand_v4_suffix ?ps = Inr ?ps" by (simp add: expand_v4_suffix_def)
  moreover have "string_from_ip6_int a \<noteq> []"
    unfolding string_from_ip6_int_def using L(3) by (intro join_not_Nil) auto
  moreover have "foldl (\<lambda>n h. 65536 * n + h) (foldl (\<lambda>n h. 65536 * n + h) 0 xs * 65536 ^ sk) ys = a"
    using ip6_hextets_value [OF assms] unfolding D by (simp add: foldl_hextets_zeros)
  ultimately show ?thesis using L R by (simp add: ip6_int_from_string_def split Let_def)
qed

lemma mapped_string: "string_from_ip6_int 65535 = ''::ffff''"
  by code_simp

lemma ip4_str_no_colon: "CHR '':'' \<notin> set (ip4_str a)" "CHR ''.'' \<in> set (ip4_str a)" "CHR ''%'' \<notin> set (ip4_str a)"
  by (simp_all add: ip4_str_def ip4_octets_def digit_not_sep is_digit_def)

lemma hextet_ffff: "hex_str 65535 = ''ffff''"
  by code_simp

lemma mapped_roundtrip:
  assumes "v < 4294967296"
  shows "ip6_int_from_string (''::ffff'' @ '':'' @ ip4_str v) = Inr (65535 * 4294967296 + v)"
proof -
  let ?h = "v div 65536 mod 65536" and ?l = "v mod 65536"
  let ?C = "map hex_str [65535, ?h, ?l]"
  let ?ps = "[[], [], ''ffff'', hex_str ?h, hex_str ?l]"
  have "split_on CHR '':'' (''::ffff'' @ '':'' @ ip4_str v) = [[], [], ''ffff'', ip4_str v]"
    by (simp add: ip4_str_no_colon)
  moreover have "expand_v4_suffix [[], [], ''ffff'', ip4_str v] = Inr ?ps"
    using assms by (simp add: expand_v4_suffix_def ip4_str_no_colon ip4_str_roundtrip)
  moreover have ps: "?ps = (if ([] :: string list) = [] then [[]] else []) @ [] # (if ?C = [] then [[]] else ?C)"
    by (simp add: hextet_ffff)
  have "layout_parts ?ps = Inr (length ([] :: string list), 5, length ?C)"
    by (rule layout_compressed(1) [OF _ _ _ _ ps]) auto
  moreover have "rmap parse_hextet ?C = Inr [65535, ?h, ?l]" by (rule rmap_parse_hextets) auto
  then have "rmap parse_hextet [''ffff'', hex_str ?h, hex_str ?l] = Inr [65535, ?h, ?l]"
    by (simp only: list.map hextet_ffff)
  moreover have "65536 * (65536 * 65535 + ?h) + ?l = 65535 * 4294967296 + v"
  proof -
    have "v div 65536 < 65536" using assms by simp
    then have "?h = v div 65536" by simp
    then show ?thesis using mult_div_mod_eq [of 65536 v] by (simp only:) simp
  qed
  ultimately show ?thesis by (simp add: ip6_int_from_string_def)
qed

text \<open>A scope id as the parser leaves it: not empty, without the two separators.\<close>

definition wf_scope :: "string option \<Rightarrow> bool" where
  "wf_scope z = (case z of None \<Rightarrow> True | Some t \<Rightarrow> t \<noteq> [] \<and> CHR ''%'' \<notin> set t \<and> CHR ''/'' \<notin> set t)"

definition ip6_text :: "nat \<Rightarrow> string" where
  "ip6_text a = ip_str (IPv6 a None)"

lemma ip6_text_cases:
  "ip6_text a = (if a div 4294967296 = 65535 then ''::ffff'' @ '':'' @ ip4_str (a mod 4294967296)
     else string_from_ip6_int a)"
  by (simp add: ip6_text_def ipv4_mapped_def mapped_string)

lemma ip6_text_roundtrip:
  assumes "a < 2 ^ 128"
  shows "ip6_int_from_string (ip6_text a) = Inr a"
proof (cases "a div 4294967296 = 65535")
  case True
  then have "65535 * 4294967296 + a mod 4294967296 = a" using div_mult_mod_eq [of a 4294967296] by simp
  with True mapped_roundtrip [of "a mod 4294967296"] show ?thesis by (simp add: ip6_text_cases)
next
  case False
  with string_from_ip6_int_roundtrip [OF assms] show ?thesis by (simp add: ip6_text_cases)
qed

lemma join_no: "c \<notin> set sep \<Longrightarrow> (\<And>p. p \<in> set ps \<Longrightarrow> c \<notin> set p) \<Longrightarrow> c \<notin> set (join_with sep ps)"
  by (induction sep ps rule: join_with.induct) auto

lemma ip6_text_no: "CHR ''/'' \<notin> set (ip6_text a)" "CHR ''%'' \<notin> set (ip6_text a)"
proof -
  have "c \<notin> set (string_from_ip6_int a)" if "hex_val c = None" "c \<noteq> CHR '':''" for c
    unfolding string_from_ip6_int_def using that compress_no by (intro join_no) auto
  then show "CHR ''/'' \<notin> set (ip6_text a)" "CHR ''%'' \<notin> set (ip6_text a)"
    by (auto simp: ip6_text_cases ip4_str_no_slash ip4_str_no_colon)
qed

lemma ip6_text_colon: "a < 2 ^ 128 \<Longrightarrow> CHR '':'' \<in> set (ip6_text a)"
  using ip6_text_roundtrip [of a]
  by (cases "CHR '':'' \<in> set (ip6_text a)") (simp_all add: ip6_int_from_string_def split: if_splits)

lemma ip4_of_string_no_colon:
  assumes "ip4_of_string s = Inr a"
  shows "CHR '':'' \<notin> set s"
proof -
  obtain bs where bs: "rmap parse_octet (split_on CHR ''.'' s) = Inr bs"
    using assms by (auto simp: ip4_of_string_def Let_def result_simps split: if_splits)
  have "CHR '':'' \<notin> set p" if "p \<in> set (split_on CHR ''.'' s)" for p
  proof -
    have "\<exists>b. parse_octet p = Inr b" using rmap_Inr_all [OF bs that] by blast
    then have "isdigit p" by (auto simp: parse_octet_def split: if_splits)
    then show ?thesis by (auto simp: isdigit_def list_all_iff is_digit_def)
  qed
  then have "CHR '':'' \<notin> set (join_with ''.'' (split_on CHR ''.'' s))" by (intro join_no) auto
  then show ?thesis by simp
qed

lemma ip_str_text: "ip_str (IPv6 a z) = ip6_text a @ (case z of None \<Rightarrow> [] | Some t \<Rightarrow> CHR ''%'' # t)"
  by (simp add: ip6_text_def)

lemma partition_on_append: "c \<notin> set p \<Longrightarrow> partition_on c (p @ c # r) = (p, True, r)"
  by (simp add: partition_on_def takeWhile_append dropWhile_append)

lemma partition_on_none: "c \<notin> set p \<Longrightarrow> partition_on c p = (p, False, [])"
proof -
  assume "c \<notin> set p"
  then have t: "takeWhile (\<lambda>x. x \<noteq> c) p = p" and d: "dropWhile (\<lambda>x. x \<noteq> c) p = []"
    by (auto simp: takeWhile_eq_all_conv)
  show ?thesis unfolding partition_on_def t d by simp
qed

lemma ip6_str_roundtrip:
  assumes "a < 2 ^ 128" and "wf_scope z"
  shows "ip6_of_string (ip_str (IPv6 a z)) = Inr (a, z)"
  using assms ip6_text_no [of a]
  by (cases z) (auto simp: ip6_of_string_def ip_str_text split_scope_id_def partition_on_append
      partition_on_none ip6_text_roundtrip wf_scope_def simp del: ip_str.simps)

lemma ip6_network_scope:
  "ip6_network strict s = Inr (Net6 a z p) \<Longrightarrow> wf_scope z \<and> (\<forall>t. z = Some t \<longrightarrow> set t \<subseteq> set s)"
proof -
  assume "ip6_network strict s = Inr (Net6 a z p)"
  then obtain x m q z' where sp: "split_addr_prefix s = Inr (x, m)" and x: "ip6_of_string x = Inr (q, z')"
    and z: "z = None \<or> z = z'"
    by (auto simp: ip6_network_def result_simps split: if_splits option.splits)
  have "x \<in> set (split_on CHR ''/'' s)"
    using sp by (auto simp: split_addr_prefix_def split: list.splits)
  then have sub: "set x \<subseteq> set s" and sl: "CHR ''/'' \<notin> set x"
    using split_on_subset split_on_no_sep_in by blast+
  from x obtain y where "split_scope_id x = Inr (y, z')"
    by (auto simp: ip6_of_string_def result_simps split: if_splits)
  then have "z' = None \<or> (\<exists>t. z' = Some t \<and> t \<noteq> [] \<and> CHR ''%'' \<notin> set t \<and> set t \<subseteq> set x)"
    by (auto simp: split_scope_id_def partition_on_def Let_def split: if_splits dest!: in_set_dropD dest: set_dropWhileD)
  with z sub sl show "wf_scope z \<and> (\<forall>t. z = Some t \<longrightarrow> set t \<subseteq> set s)" by (auto simp: wf_scope_def)
qed

text \<open>What the parser produces: well-formed networks with a printable scope.\<close>

fun printable_net :: "ip_net \<Rightarrow> bool" where
  "printable_net (Net4 n) \<longleftrightarrow> wf_net n"
| "printable_net (Net6 a z p) \<longleftrightarrow> wf_ip_net (Net6 a z p) \<and> wf_scope z"

lemma ip_network_printable: "ip_network strict s = Inr n \<Longrightarrow> printable_net n"
  by (cases n) (auto simp: ip_network_def split: sum.splits dest: ip4_network_wf ip6_network_wf ip6_network_scope)

lemma ip4_network_no_colon: "ip4_network strict (x @ ''/'' @ m) = Inr n \<Longrightarrow> CHR ''/'' \<notin> set x \<Longrightarrow> CHR '':'' \<notin> set x"
  by (auto simp: ip4_network_def split_addr_prefix_def result_simps split: list.splits dest: ip4_of_string_no_colon)

lemma ip_net_str_roundtrip:
  assumes "printable_net n"
  shows "ip_network strict (ip_net_str n) = Inr n"
proof (cases n)
  case (Net4 m)
  then show ?thesis using assms by (simp add: ip_network_def net_str_roundtrip)
next
  case (Net6 a z p)
  let ?x = "ip_str (IPv6 a z)"
  have w: "p \<le> 128" "a < 2 ^ 128" "a mod 2 ^ (128 - p) = 0" "wf_scope z" using assms Net6 by auto
  have sl: "CHR ''/'' \<notin> set ?x"
    using w(4) ip6_text_no [of a] by (auto simp: ip_str_text wf_scope_def simp del: ip_str.simps split: option.splits)
  have "CHR '':'' \<in> set ?x" using ip6_text_colon [OF w(2)] by (simp add: ip_str_text del: ip_str.simps)
  then have v4: "\<exists>e. ip4_network strict (?x @ ''/'' @ str_of_nat p) = Inl e"
    using ip4_network_no_colon sl by (metis obj_sumE)
  have "split_addr_prefix (?x @ ''/'' @ str_of_nat p) = Inr (?x, Some (str_of_nat p))"
    using sl by (simp add: split_addr_prefix_def digit_not_sep is_digit_def del: ip_str.simps)
  moreover have "a AND netmask6 p = a" using in_net6_iff [OF w(1,3,2)] by simp
  ultimately have "ip6_network strict (?x @ ''/'' @ str_of_nat p) = Inr n"
    using w Net6 by (simp add: ip6_network_def ip6_str_roundtrip del: ip_str.simps)
  with v4 Net6 show ?thesis by (auto simp: ip_network_def simp del: ip_str.simps)
qed
end
