(* ===== verification/Json.thy ===== *)
theory Json
  imports Ip_Text "HOL-Library.Multiset" "HOL-Library.List_Lexorder" "HOL-Library.Char_ord"
begin

text \<open>
  Python's \<^verbatim>\<open>json\<close> as the program uses it: the compact form of the audit log, the indented form of
  backup files, and \<^verbatim>\<open>json.loads\<close>, here a lexer and a stack machine over its tokens. Strings hold
  characters up to U+00FF. Reading the indented form gives the value back with sorted keys.
\<close>

section \<open>JSON values as \<^verbatim>\<open>json.dumps\<close> renders them\<close>

text \<open>
  \<^verbatim>\<open>JTime\<close> is a \<^verbatim>\<open>datetime\<close>, which the \<^verbatim>\<open>default=str\<close> fallback renders as a string; \<^verbatim>\<open>JFloat\<close> is a float,
  kept as the literal it was read from.
\<close>

datatype json =
    JNull
  | JBool bool
  | JInt int
  | JFloat string
  | JStr string
  | JTime int
  | JArr "json list"
  | JObj "(string \<times> json) list"

definition json_escape_char :: "char \<Rightarrow> string" where
  "json_escape_char c =
     (let n = of_char c :: nat in
      if c = CHR 0x22 then [CHR 0x5C, CHR 0x22]
      else if c = CHR 0x5C then [CHR 0x5C, CHR 0x5C]
      else if n = 10 then [CHR 0x5C, CHR ''n'']
      else if n = 13 then [CHR 0x5C, CHR ''r'']
      else if n = 9 then [CHR 0x5C, CHR ''t'']
      else if n = 12 then [CHR 0x5C, CHR ''f'']
      else if n = 8 then [CHR 0x5C, CHR ''b'']
      else if n < 32 \<or> 126 < n then CHR 0x5C # ''u00'' @ [hex_char (n div 16), hex_char (n mod 16)]
      else [c])"

definition json_string :: "string \<Rightarrow> string" where
  "json_string s = CHR 0x22 # concat (map json_escape_char s) @ [CHR 0x22]"

text \<open>\<^verbatim>\<open>json.dumps(v, separators=(",", ":"), default=str)\<close>, with or without \<^verbatim>\<open>sort_keys\<close>.\<close>

fun json_dumps :: "(int \<Rightarrow> string) \<Rightarrow> bool \<Rightarrow> json \<Rightarrow> string" where
  "json_dumps iso_of sk JNull = ''null''"
| "json_dumps iso_of sk (JBool b) = (if b then ''true'' else ''false'')"
| "json_dumps iso_of sk (JInt i) = str_of_int i"
| "json_dumps iso_of sk (JFloat lit) = lit"
| "json_dumps iso_of sk (JStr s) = json_string s"
| "json_dumps iso_of sk (JTime t) = json_string (iso_of t)"
| "json_dumps iso_of sk (JArr xs) = ''['' @ join_with '','' (map (json_dumps iso_of sk) xs) @ '']''"
| "json_dumps iso_of sk (JObj kvs) =
     (let items = map (\<lambda>(k, v). (k, json_string k @ '':'' @ json_dumps iso_of sk v)) kvs in
      ''{'' @ join_with '','' (map snd (if sk then sort_key fst items else items)) @ ''}'')"

text \<open>\<^verbatim>\<open>json.dumps(v, indent=2, sort_keys=True)\<close>; the first argument is the nesting depth.\<close>

definition indentation :: "nat \<Rightarrow> string" where
  "indentation l = CHR 0x0A # replicate (2 * l) CHR '' ''"

fun json_pretty :: "nat \<Rightarrow> json \<Rightarrow> string" where
  "json_pretty l (JArr xs) =
     (if xs = [] then ''[]''
      else ''['' @ indentation (l + 1) @ join_with ('','' @ indentation (l + 1)) (map (json_pretty (l + 1)) xs) @ indentation l @ '']'')"
| "json_pretty l (JObj kvs) =
     (if kvs = [] then ''{}''
      else let items = map (\<lambda>(k, v). (k, json_string k @ '': '' @ json_pretty (l + 1) v)) kvs in
        ''{'' @ indentation (l + 1) @ join_with ('','' @ indentation (l + 1)) (map snd (sort_key fst items)) @ indentation l @ ''}'')"
| "json_pretty l v = json_dumps str_of_int True v"

section \<open>\<^verbatim>\<open>json.loads\<close>\<close>

datatype json_token = T_LBrace | T_RBrace | T_LBrack | T_RBrack | T_Comma | T_Colon | T_Str string | T_Val json

definition json_unescape :: "char \<Rightarrow> char option" where
  "json_unescape c =
     map_of [(CHR 0x22, CHR 0x22), (CHR 0x5C, CHR 0x5C), (CHR ''/'', CHR ''/''), (CHR ''b'', CHR 0x08), (CHR ''f'', CHR 0x0C),
       (CHR ''n'', CHR 0x0A), (CHR ''r'', CHR 0x0D), (CHR ''t'', CHR 0x09)] c"

definition hex4 :: "char \<Rightarrow> char \<Rightarrow> char \<Rightarrow> char \<Rightarrow> nat option" where
  "hex4 a b c d =
     (case (hex_val a, hex_val b, hex_val c, hex_val d) of
        (Some w, Some x, Some y, Some z) \<Rightarrow> Some (((w * 16 + x) * 16 + y) * 16 + z)
      | _ \<Rightarrow> None)"

text \<open>The rest of a string after its opening quote: its contents and what follows the closing quote.\<close>

fun lex_str :: "string \<Rightarrow> (string \<times> string) option" where
  "lex_str [] = None"
| "lex_str (c # cs) =
     (if c = CHR 0x22 then Some ([], cs)
      else if c = CHR 0x5C then
        (case cs of
           [] \<Rightarrow> None
         | e # ds \<Rightarrow>
             if e = CHR ''u'' then
               (case ds of
                  h1 # h2 # h3 # h4 # es \<Rightarrow>
                    (case hex4 h1 h2 h3 h4 of
                       None \<Rightarrow> None
                     | Some n \<Rightarrow> if n < 256 then map_option (\<lambda>(s, r). (char_of n # s, r)) (lex_str es) else None)
                | _ \<Rightarrow> None)
             else (case json_unescape e of
                     None \<Rightarrow> None
                   | Some x \<Rightarrow> map_option (\<lambda>(s, r). (x # s, r)) (lex_str ds)))
      else if (of_char c :: nat) < 32 then None
      else map_option (\<lambda>(s, r). (c # s, r)) (lex_str cs))"

definition lex_frac :: "string \<Rightarrow> string \<times> string" where
  "lex_frac s =
     (case s of
        c # t \<Rightarrow>
          if c = CHR ''.'' then
            (let ds = takeWhile is_digit t in if ds = [] then ([], s) else (c # ds, dropWhile is_digit t))
          else ([], s)
      | [] \<Rightarrow> ([], s))"

definition lex_exponent :: "string \<Rightarrow> string \<times> string" where
  "lex_exponent s =
     (case s of
        c # t \<Rightarrow>
          if c = CHR ''e'' \<or> c = CHR ''E'' then
            (let sign = takeWhile (\<lambda>d. d = CHR ''+'' \<or> d = CHR ''-'') (take 1 t);
                 u = drop (length sign) t; ds = takeWhile is_digit u in
             if ds = [] then ([], s) else (c # sign @ ds, dropWhile is_digit u))
          else ([], s)
      | [] \<Rightarrow> ([], s))"

definition lex_number :: "string \<Rightarrow> (json \<times> string) option" where
  "lex_number s =
     (let neg = startswith s ''-''; s1 = (if neg then drop 1 s else s);
          ds = takeWhile is_digit s1;
          whole = (if startswith ds ''0'' then ''0'' else ds);
          r1 = drop (length whole) s1;
          (frac, r2) = lex_frac r1; (ex, r3) = lex_exponent r2 in
      if whole = [] then None
      else if frac = [] \<and> ex = []
      then Some (JInt (if neg then - int (digits_to_nat whole) else int (digits_to_nat whole)), r3)
      else Some (JFloat ((if neg then ''-'' else []) @ whole @ frac @ ex), r3))"

definition json_keyword :: "string \<Rightarrow> (json \<times> string) option" where
  "json_keyword s =
     map_option (\<lambda>(w, v). (v, drop (length w) s))
       (find (\<lambda>(w, v). startswith s w)
         [(''null'', JNull), (''true'', JBool True), (''false'', JBool False),
          (''NaN'', JFloat ''NaN''), (''Infinity'', JFloat ''Infinity''), (''-Infinity'', JFloat ''-Infinity'')])"

fun next_token :: "string \<Rightarrow> (json_token \<times> string) option" where
  "next_token [] = None"
| "next_token (c # cs) =
     (if c = CHR ''{'' then Some (T_LBrace, cs)
      else if c = CHR ''}'' then Some (T_RBrace, cs)
      else if c = CHR ''['' then Some (T_LBrack, cs)
      else if c = CHR '']'' then Some (T_RBrack, cs)
      else if c = CHR '','' then Some (T_Comma, cs)
      else if c = CHR '':'' then Some (T_Colon, cs)
      else if c = CHR 0x22 then map_option (\<lambda>(s, r). (T_Str s, r)) (lex_str cs)
      else (case json_keyword (c # cs) of
              Some (v, r) \<Rightarrow> Some (T_Val v, r)
            | None \<Rightarrow> map_option (\<lambda>(v, r). (T_Val v, r)) (lex_number (c # cs))))"

definition json_space :: "char \<Rightarrow> bool" where
  "json_space c \<longleftrightarrow> c \<in> {CHR '' '', CHR 0x09, CHR 0x0A, CHR 0x0D}"

lemma lex_str_shorter: "lex_str s = Some (x, r) \<Longrightarrow> length r < length s"
  by (induction s arbitrary: x r rule: lex_str.induct)
    (fastforce split: if_splits list.splits option.splits)+

lemma lex_number_eq:
  assumes "s1 = (if startswith s ''-'' then drop 1 s else s)"
    and "whole = (if startswith (takeWhile is_digit s1) ''0'' then ''0'' else takeWhile is_digit s1)"
    and "lex_frac (drop (length whole) s1) = (fr, r2)" and "lex_exponent r2 = (ex, r3)"
  shows "lex_number s = (if whole = [] then None
      else if fr = [] \<and> ex = [] then Some (JInt (if startswith s ''-'' then - int (digits_to_nat whole) else int (digits_to_nat whole)), r3)
      else Some (JFloat ((if startswith s ''-'' then ''-'' else []) @ whole @ fr @ ex), r3))"
  unfolding lex_number_def Let_def assms(1) [symmetric] assms(2) [symmetric] assms(3,4) prod.case ..

lemma lex_number_shorter:
  assumes "lex_number s = Some (v, r)"
  shows "length r < length s"
proof -
  have f: "length (snd (lex_frac t)) \<le> length t" for t
    by (auto simp: lex_frac_def Let_def length_dropWhile_le le_SucI split: list.splits)
  have e: "length (snd (lex_exponent t)) \<le> length t" for t
  proof (cases t)
    case (Cons c u)
    let ?sign = "takeWhile (\<lambda>d. d = CHR ''+'' \<or> d = CHR ''-'') (take 1 u)"
    have "length (dropWhile is_digit (drop (length ?sign) u)) \<le> length u"
      by (rule le_trans [OF length_dropWhile_le]) simp
    then show ?thesis unfolding lex_exponent_def Cons Let_def by simp
  qed (simp add: lex_exponent_def)
  define s1 where "s1 = (if startswith s ''-'' then drop 1 s else s)"
  define whole where "whole = (if startswith (takeWhile is_digit s1) ''0'' then ''0'' else takeWhile is_digit s1)"
  obtain fr r2 where fr: "lex_frac (drop (length whole) s1) = (fr, r2)" by force
  obtain ex r3 where ex: "lex_exponent r2 = (ex, r3)" by force
  note n = lex_number_eq [OF s1_def whole_def fr ex]
  have w: "whole \<noteq> []" using assms n by (cases "whole = []") simp_all
  have r: "r = r3" using assms n w by (cases "fr = [] \<and> ex = []") simp_all
  have "s1 \<noteq> []" using w unfolding whole_def by (cases s1) (simp_all add: startswith_def)
  then have "length (drop (length whole) s1) < length s1" using w by simp
  also have "length s1 \<le> length s" by (simp add: s1_def)
  finally show ?thesis using r f [of "drop (length whole) s1"] e [of r2] fr ex by simp
qed

lemma json_keyword_shorter: "json_keyword (c # cs) = Some (v, r) \<Longrightarrow> length r < length (c # cs)"
  by (auto simp: json_keyword_def split: if_splits)

lemma next_token_shorter: "next_token s = Some (t, r) \<Longrightarrow> length r < length s"
  by (cases s)
    (auto split: if_splits option.splits prod.splits dest: lex_str_shorter json_keyword_shorter lex_number_shorter)

function json_lex :: "string \<Rightarrow> json_token list option" where
  "json_lex [] = Some []"
| "json_lex (c # cs) =
     (if json_space c then json_lex cs
      else case next_token (c # cs) of None \<Rightarrow> None | Some (t, r) \<Rightarrow> map_option ((#) t) (json_lex r))"
  by pat_completeness auto

termination
  by (relation "measure length") (auto simp del: next_token.simps dest: next_token_shorter)

text \<open>
  The parser: a stack of open containers (\<^verbatim>\<open>Open_Pair\<close> is an object with a key that waits for its value)
  and what may come next. A repeated key keeps its place and takes the later value, as in a \<^verbatim>\<open>dict\<close>.
\<close>

definition dict_put :: "string \<Rightarrow> 'a \<Rightarrow> (string \<times> 'a) list \<Rightarrow> (string \<times> 'a) list" where
  "dict_put k v kvs =
     (if k \<in> fst ` set kvs then map (\<lambda>(a, b). if a = k then (a, v) else (a, b)) kvs else kvs @ [(k, v)])"

datatype json_frame = Open_Arr "json list" | Open_Obj "(string \<times> json) list" | Open_Pair "(string \<times> json) list" string

datatype json_expect =
    Want_Value "json_frame list"
  | Want_Value_Or_End "json_frame list"
  | Want_Key "json_frame list"
  | Want_Key_Or_End "json_frame list"
  | Want_Colon "json_frame list"
  | Want_Next "json_frame list"
  | Json_Done json

fun json_complete :: "json \<Rightarrow> json_frame list \<Rightarrow> json_expect option" where
  "json_complete v [] = Some (Json_Done v)"
| "json_complete v (Open_Arr acc # st) = Some (Want_Next (Open_Arr (acc @ [v]) # st))"
| "json_complete v (Open_Pair acc k # st) = Some (Want_Next (Open_Obj (dict_put k v acc) # st))"
| "json_complete v (Open_Obj acc # st) = None"

fun value_token :: "json_token \<Rightarrow> json_frame list \<Rightarrow> json_expect option" where
  "value_token T_LBrace st = Some (Want_Key_Or_End (Open_Obj [] # st))"
| "value_token T_LBrack st = Some (Want_Value_Or_End (Open_Arr [] # st))"
| "value_token (T_Str s) st = json_complete (JStr s) st"
| "value_token (T_Val v) st = json_complete v st"
| "value_token _ st = None"

fun key_token :: "json_token \<Rightarrow> json_frame list \<Rightarrow> json_expect option" where
  "key_token (T_Str k) (Open_Obj acc # st) = Some (Want_Colon (Open_Pair acc k # st))"
| "key_token _ _ = None"

fun after_token :: "json_token \<Rightarrow> json_frame list \<Rightarrow> json_expect option" where
  "after_token T_Comma (Open_Arr acc # st) = Some (Want_Value (Open_Arr acc # st))"
| "after_token T_RBrack (Open_Arr acc # st) = json_complete (JArr acc) st"
| "after_token T_Comma (Open_Obj acc # st) = Some (Want_Key (Open_Obj acc # st))"
| "after_token T_RBrace (Open_Obj acc # st) = json_complete (JObj acc) st"
| "after_token _ _ = None"

fun json_step :: "json_token \<Rightarrow> json_expect \<Rightarrow> json_expect option" where
  "json_step t (Want_Value st) = value_token t st"
| "json_step t (Want_Value_Or_End st) = (if t = T_RBrack then after_token t st else value_token t st)"
| "json_step t (Want_Key st) = key_token t st"
| "json_step t (Want_Key_Or_End st) = (if t = T_RBrace then after_token t st else key_token t st)"
| "json_step t (Want_Colon st) = (if t = T_Colon then Some (Want_Value st) else None)"
| "json_step t (Want_Next st) = after_token t st"
| "json_step t (Json_Done v) = None"

fun json_run :: "json_token list \<Rightarrow> json_expect \<Rightarrow> json_expect option" where
  "json_run [] e = Some e"
| "json_run (t # ts) e = (case json_step t e of None \<Rightarrow> None | Some e' \<Rightarrow> json_run ts e')"

definition json_loads :: "string \<Rightarrow> json result" where
  "json_loads s =
     (case json_lex s of
        Some ts \<Rightarrow> (case json_run ts (Want_Value []) of Some (Json_Done v) \<Rightarrow> Inr v | _ \<Rightarrow> Inl (ValueError ''JSONDecodeError''))
      | None \<Rightarrow> Inl (ValueError ''JSONDecodeError''))"

section \<open>Reading back what was written\<close>

lemma hex4_code:
  assumes "n < 256"
  shows "hex4 CHR ''0'' CHR ''0'' (hex_char (n div 16)) (hex_char (n mod 16)) = Some n"
proof -
  have z: "hex_val CHR ''0'' = Some 0" by (simp add: hex_val_def)
  have "n div 16 < 16" "n mod 16 < 16" using assms by simp_all
  then show ?thesis unfolding hex4_def z using hex_char_val by simp
qed

lemma lex_str_escape: "lex_str (json_escape_char c @ rest) = map_option (\<lambda>(s, r). (c # s, r)) (lex_str rest)"
proof -
  let ?n = "of_char c :: nat"
  have d: "char_of (10 :: nat) = CHR 0x0A" "char_of (13 :: nat) = CHR 0x0D" "char_of (9 :: nat) = CHR 0x09"
    "char_of (12 :: nat) = CHR 0x0C" "char_of (8 :: nat) = CHR 0x08" by code_simp+
  have k: "?n = 10 \<Longrightarrow> c = CHR 0x0A" "?n = 13 \<Longrightarrow> c = CHR 0x0D" "?n = 9 \<Longrightarrow> c = CHR 0x09"
    "?n = 12 \<Longrightarrow> c = CHR 0x0C" "?n = 8 \<Longrightarrow> c = CHR 0x08"
    using d by (metis char_of_char)+
  consider "c = CHR 0x22" | "c = CHR 0x5C" | "?n \<in> {8, 9, 10, 12, 13}"
    | "c \<noteq> CHR 0x22" "c \<noteq> CHR 0x5C" "?n \<notin> {8, 9, 10, 12, 13}" "?n < 32 \<or> 126 < ?n"
    | "c \<noteq> CHR 0x22" "c \<noteq> CHR 0x5C" "?n \<notin> {8, 9, 10, 12, 13}" "32 \<le> ?n" "?n \<le> 126"
    by fastforce
  then show ?thesis
  proof cases
    case 3
    then show ?thesis using k by (auto simp: json_escape_char_def json_unescape_def)
  next
    case 4
    then have "json_escape_char c = CHR 0x5C # ''u00'' @ [hex_char (?n div 16), hex_char (?n mod 16)]"
      by (simp add: json_escape_char_def Let_def)
    then show ?thesis using hex4_code [of ?n] by simp
  qed (simp_all add: json_escape_char_def json_unescape_def)
qed

lemma lex_str_string: "lex_str (concat (map json_escape_char s) @ CHR 0x22 # rest) = Some (s, rest)"
  by (induction s) (simp_all add: lex_str_escape)

lemma next_token_string: "next_token (json_string s @ rest) = Some (T_Str s, rest)"
  by (simp add: json_string_def lex_str_string)

text \<open>What may follow a number so that it is read as it was written.\<close>

definition number_end :: "string \<Rightarrow> bool" where
  "number_end s \<longleftrightarrow> (case s of [] \<Rightarrow> True | c # _ \<Rightarrow> \<not> is_digit c \<and> c \<notin> {CHR ''.'', CHR ''e'', CHR ''E''})"

lemma number_end_simps [simp]: "number_end (indentation l @ s)" "number_end ('','' @ s)" "number_end (CHR '','' # s)" "number_end []"
  by (simp_all add: number_end_def indentation_def is_digit_def)

lemma takeWhile_number: "number_end rest \<Longrightarrow> takeWhile is_digit (str_of_nat n @ rest) = str_of_nat n"
  using str_of_nat_digits [of n] by (cases rest) (auto simp: number_end_def list_all_iff takeWhile_tail)

lemma whole_nat:
  assumes "number_end rest"
  shows "str_of_nat n = (if startswith (takeWhile is_digit (str_of_nat n @ rest)) ''0'' then ''0''
       else takeWhile is_digit (str_of_nat n @ rest))"
proof -
  have "startswith (str_of_nat n) ''0'' \<Longrightarrow> n = 0"
    using hd_str_of_nat [of n] by (cases "str_of_nat n") (auto simp: startswith_def)
  moreover have "str_of_nat 0 = ''0''" by (simp add: str_of_nat_small digit_chars)
  ultimately show ?thesis unfolding takeWhile_number [OF assms] by auto
qed

lemma lex_number_int:
  assumes e: "number_end rest"
  shows "lex_number (str_of_int i @ rest) = Some (JInt i, rest)"
proof -
  have f: "lex_frac rest = ([], rest)" and x: "lex_exponent rest = ([], rest)"
    using e by (auto simp: lex_frac_def lex_exponent_def number_end_def split: list.splits)
  have d: "lex_frac (drop (length (str_of_nat n)) (str_of_nat n @ rest)) = ([], rest)" for n using f by simp
  have neg: "startswith (CHR ''-'' # s) ''-''" for s by (simp add: startswith_def)
  have pos: "\<not> startswith (str_of_nat n @ s) ''-''" for n s
    using str_of_nat_digits [of n] by (cases "str_of_nat n") (auto simp: startswith_def is_digit_def)
  show ?thesis
  proof (cases "i < 0")
    case True
    then have s: "str_of_int i = CHR ''-'' # str_of_nat (nat (- i))" by (simp add: str_of_int_def)
    show ?thesis
      using lex_number_eq [OF _ whole_nat [OF e] d x, of "nat (- i)" "CHR ''-'' # str_of_nat (nat (- i)) @ rest"] True neg
      by (simp add: s)
  next
    case False
    then have s: "str_of_int i = str_of_nat (nat i)" by (simp add: str_of_int_def)
    show ?thesis
      using lex_number_eq [OF _ whole_nat [OF e] d x, of "nat i" "str_of_nat (nat i) @ rest"] False pos [of "nat i" rest]
      by (simp add: s)
  qed
qed

lemma digit_not_special:
  "is_digit c \<Longrightarrow> c \<notin> {CHR ''{'', CHR ''}'', CHR ''['', CHR '']'', CHR '','', CHR '':'', CHR 0x22, CHR ''n'', CHR ''t'', CHR ''f'', CHR ''N'', CHR ''I'', CHR ''-''}
     \<and> \<not> json_space c"
  by (auto simp: is_digit_def json_space_def)

lemma str_of_int_start:
  obtains c cs where "str_of_int i = c # cs" "is_digit c"
  | c cs where "str_of_int i = CHR ''-'' # c # cs" "is_digit c"
proof -
  have d: "\<exists>c cs. str_of_nat n = c # cs \<and> is_digit c" for n
    using str_of_nat_digits [of n] by (cases "str_of_nat n") auto
  show thesis
  proof (cases "i < 0")
    case True
    with d [of "nat (- i)"] show thesis using that(2) by (auto simp: str_of_int_def)
  next
    case False
    with d [of "nat i"] show thesis using that(1) by (auto simp: str_of_int_def)
  qed
qed

lemma next_token_int:
  assumes "number_end rest"
  shows "next_token (str_of_int i @ rest) = Some (T_Val (JInt i), rest) \<and> \<not> json_space (hd (str_of_int i))"
proof -
  have num: "lex_number (str_of_int i @ rest) = Some (JInt i, rest)" using lex_number_int [OF assms] .
  have kw: "json_keyword (c # cs) = None" if "is_digit c" for c cs
    using digit_not_special [OF that] by (simp add: json_keyword_def startswith_def)
  have kw': "json_keyword (CHR ''-'' # c # cs) = None" if "is_digit c" for c cs
    using digit_not_special [OF that] by (simp add: json_keyword_def startswith_def)
  show ?thesis
  proof (rule str_of_int_start [of i])
    fix c cs assume c: "str_of_int i = c # cs" "is_digit c"
    then show ?thesis using num kw [of c "cs @ rest"] digit_not_special [OF c(2)] by simp
  next
    fix c cs assume c: "str_of_int i = CHR ''-'' # c # cs" "is_digit c"
    then show ?thesis using num kw' [of c "cs @ rest"] by (simp add: json_space_def)
  qed
qed

fun commas :: "json_token list list \<Rightarrow> json_token list" where
  "commas [] = []"
| "commas [p] = p"
| "commas (p # q # ps) = p @ T_Comma # commas (q # ps)"

fun json_tokens :: "json \<Rightarrow> json_token list" where
  "json_tokens (JStr s) = [T_Str s]"
| "json_tokens (JArr xs) = T_LBrack # commas (map json_tokens xs) @ [T_RBrack]"
| "json_tokens (JObj kvs) =
     T_LBrace # commas (map snd (sort_key fst (map (\<lambda>(k, v). (k, T_Str k # T_Colon # json_tokens v)) kvs))) @ [T_RBrace]"
| "json_tokens v = [T_Val v]"

text \<open>Values made of what JSON has: no \<^verbatim>\<open>datetime\<close>, no float, and no key twice in an object.\<close>

fun json_plain :: "json \<Rightarrow> bool" where
  "json_plain (JArr xs) \<longleftrightarrow> list_all json_plain xs"
| "json_plain (JObj kvs) \<longleftrightarrow> distinct (map fst kvs) \<and> list_all (\<lambda>(k, v). json_plain v) kvs"
| "json_plain (JTime t) \<longleftrightarrow> False"
| "json_plain (JFloat lit) \<longleftrightarrow> False"
| "json_plain v \<longleftrightarrow> True"

definition json_reads :: "string \<Rightarrow> json_token list \<Rightarrow> bool" where
  "json_reads p ts \<longleftrightarrow> (\<forall>rest. number_end rest \<longrightarrow> json_lex (p @ rest) = map_option ((@) ts) (json_lex rest))"

lemma lex_token: "next_token s = Some (t, r) \<Longrightarrow> \<not> json_space (hd s) \<Longrightarrow> json_lex s = map_option ((#) t) (json_lex r)"
  by (cases s) simp_all

lemma lex_spaces: "\<forall>c \<in> set w. json_space c \<Longrightarrow> json_lex (w @ s) = json_lex s"
  by (induction w) simp_all

lemma lex_indentation [simp]: "json_lex (indentation l @ s) = json_lex s"
  by (rule lex_spaces) (simp add: indentation_def json_space_def)

lemma lex_punctuation:
  "json_lex (CHR ''{'' # s) = map_option ((#) T_LBrace) (json_lex s)" "json_lex (CHR ''}'' # s) = map_option ((#) T_RBrace) (json_lex s)"
  "json_lex (CHR ''['' # s) = map_option ((#) T_LBrack) (json_lex s)" "json_lex (CHR '']'' # s) = map_option ((#) T_RBrack) (json_lex s)"
  "json_lex (CHR '','' # s) = map_option ((#) T_Comma) (json_lex s)" "json_lex (CHR '':'' # s) = map_option ((#) T_Colon) (json_lex s)"
  "json_lex (CHR '' '' # s) = json_lex s"
  by (simp_all add: json_space_def)

lemma lex_string: "json_lex (json_string k @ s) = map_option ((#) (T_Str k)) (json_lex s)"
  by (rule lex_token [OF next_token_string]) (simp add: json_string_def json_space_def)

lemma map_option_append [simp]: "map_option ((@) a) (map_option ((@) b) x) = map_option ((@) (a @ b)) x"
  "map_option ((#) t) (map_option ((@) b) x) = map_option ((@) (t # b)) x"
  "map_option ((@) a) (map_option ((#) t) x) = map_option ((@) (a @ [t])) x"
  "map_option ((#) t) x = map_option ((@) [t]) x"
  by (cases x; simp)+

lemma reads_join:
  assumes "list_all2 json_reads ps tss" and "ps \<noteq> []"
  shows "json_reads (join_with ('','' @ indentation l) ps) (commas tss)"
  using assms
proof (induction ps tss rule: list_all2_induct)
  case (Cons p ps ts tss)
  show ?case
  proof (cases ps)
    case Nil
    then show ?thesis using Cons by simp
  next
    case (Cons q qs)
    then obtain us uss where "tss = us # uss" using \<open>list_all2 json_reads ps tss\<close> by (cases tss) auto
    then show ?thesis using Cons \<open>json_reads p ts\<close> Cons.IH
      unfolding json_reads_def by (simp add: lex_punctuation del: json_lex.simps)
  qed
qed simp

lemma sort_items: "sort_key fst (map (\<lambda>(k, v). (k, g k v)) kvs) = map (\<lambda>(k, v). (k, g k v)) (sort_key fst kvs)"
proof -
  have "insort_key fst (case kv of (k, v) \<Rightarrow> (k, g k v)) (map (\<lambda>(k, v). (k, g k v)) xs) = map (\<lambda>(k, v). (k, g k v)) (insort_key fst kv xs)"
    for kv xs by (induction xs) (auto split: prod.splits)
  then show ?thesis by (induction kvs) simp_all
qed

lemma pretty_obj:
  "kvs \<noteq> [] \<Longrightarrow> json_pretty l (JObj kvs) = ''{'' @ indentation (l + 1) @
     join_with ('','' @ indentation (l + 1)) (map (\<lambda>(k, v). json_string k @ '': '' @ json_pretty (l + 1) v) (sort_key fst kvs)) @
     indentation l @ ''}''"
  unfolding json_pretty.simps Let_def sort_items by (simp add: comp_def case_prod_unfold)

lemma tokens_obj:
  "json_tokens (JObj kvs) = T_LBrace # commas (map (\<lambda>(k, v). T_Str k # T_Colon # json_tokens v) (sort_key fst kvs)) @ [T_RBrace]"
  unfolding json_tokens.simps sort_items by (simp add: comp_def case_prod_unfold)

lemma lex_pretty: "json_plain v \<Longrightarrow> json_reads (json_pretty l v) (json_tokens v)"
proof (induction v arbitrary: l)
  case (JArr xs)
  show ?case
  proof (cases "xs = []")
    case False
    have "list_all2 json_reads (map (json_pretty (l + 1)) xs) (map json_tokens xs)"
      using JArr by (simp add: list_all2_map1 list_all2_map2 list_all2_same list_all_iff)
    from reads_join [OF this, of "l + 1"] False show ?thesis
      unfolding json_reads_def by (simp add: lex_punctuation del: json_lex.simps)
  qed (simp add: json_reads_def lex_punctuation del: json_lex.simps)
next
  case (JObj kvs)
  show ?case
  proof (cases "kvs = []")
    case False
    have item: "json_reads (json_string k @ '': '' @ json_pretty (l + 1) v) (T_Str k # T_Colon # json_tokens v)"
      if "(k, v) \<in> set (sort_key fst kvs)" for k v
      using JObj.IH [of "(k, v)" v "l + 1"] JObj.prems that
      by (auto simp: json_reads_def lex_string lex_punctuation list_all_iff simp del: json_lex.simps)
    have "list_all2 json_reads (map (\<lambda>(k, v). json_string k @ '': '' @ json_pretty (l + 1) v) (sort_key fst kvs))
        (map (\<lambda>(k, v). T_Str k # T_Colon # json_tokens v) (sort_key fst kvs))"
      using item by (auto simp: list_all2_map1 list_all2_map2 list_all2_same)
    moreover have "sort_key fst kvs \<noteq> []" using False by (metis length_0_conv length_sort)
    ultimately have "json_reads (join_with ('','' @ indentation (l + 1)) (map (\<lambda>(k, v). json_string k @ '': '' @ json_pretty (l + 1) v) (sort_key fst kvs)))
        (commas (map (\<lambda>(k, v). T_Str k # T_Colon # json_tokens v) (sort_key fst kvs)))"
      by (intro reads_join) simp_all
    then show ?thesis
      unfolding pretty_obj [OF False] tokens_obj json_reads_def
      by (simp add: lex_punctuation del: json_lex.simps json_pretty.simps json_tokens.simps)
  qed (simp add: json_reads_def lex_punctuation del: json_lex.simps)
next
  case (JInt i)
  show ?case unfolding json_reads_def
  proof (intro allI impI)
    fix rest :: string assume "number_end rest"
    from next_token_int [OF this, of i] have n: "next_token (str_of_int i @ rest) = Some (T_Val (JInt i), rest)"
      and h: "\<not> json_space (hd (str_of_int i @ rest))" by (auto simp: str_of_int_def hd_append)
    show "json_lex (json_pretty l (JInt i) @ rest) = map_option ((@) (json_tokens (JInt i))) (json_lex rest)"
      using lex_token [OF n h] by simp
  qed
next
  case (JStr s)
  show ?case by (simp add: json_reads_def lex_string)
qed (auto simp: json_reads_def json_keyword_def startswith_def json_space_def)

fun json_norm :: "json \<Rightarrow> json" where
  "json_norm (JArr xs) = JArr (map json_norm xs)"
| "json_norm (JObj kvs) = JObj (sort_key fst (map (\<lambda>(k, v). (k, json_norm v)) kvs))"
| "json_norm v = v"

definition run_from :: "json_expect option \<Rightarrow> json_token list \<Rightarrow> json_expect option" where
  "run_from e ts = (case e of None \<Rightarrow> None | Some e' \<Rightarrow> json_run ts e')"

lemma run_from_simps [simp]: "run_from None ts = None" "run_from (Some e) ts = json_run ts e"
  "(case e' of None \<Rightarrow> None | Some x \<Rightarrow> json_run ts x) = run_from e' ts"
  by (simp_all add: run_from_def)

definition json_consumes :: "json_token list \<Rightarrow> json \<Rightarrow> bool" where
  "json_consumes p v \<longleftrightarrow> p \<noteq> [] \<and> hd p \<noteq> T_RBrack \<and> (\<forall>ts st. json_run (p @ ts) (Want_Value st) = run_from (json_complete v st) ts)"

lemma consumes_after_open: "json_consumes p v \<Longrightarrow> json_run (p @ ts) (Want_Value_Or_End st) = run_from (json_complete v st) ts"
  unfolding json_consumes_def by (cases p) auto

lemma array_run:
  assumes "list_all2 json_consumes ps vs" and "ps \<noteq> []"
  shows "json_run (commas ps @ T_RBrack # ts) (Want_Value (Open_Arr acc # st)) = run_from (json_complete (JArr (acc @ vs)) st) ts"
    and "json_run (commas ps @ T_RBrack # ts) (Want_Value_Or_End (Open_Arr acc # st)) = run_from (json_complete (JArr (acc @ vs)) st) ts"
proof -
  show first: "json_run (commas ps @ T_RBrack # ts) (Want_Value (Open_Arr acc # st)) = run_from (json_complete (JArr (acc @ vs)) st) ts" for acc
    using assms
  proof (induction ps vs arbitrary: acc rule: list_all2_induct)
    case (Cons p ps v vs)
    then show ?case by (cases ps) (auto simp: json_consumes_def)
  qed simp
  obtain p q where p: "p \<noteq> []" "hd p \<noteq> T_RBrack" "commas ps = p @ q"
  proof (cases ps rule: commas.cases)
    case (2 p)
    then show thesis using assms that [of p "[]"] by (auto simp: json_consumes_def list_all2_Cons1)
  next
    case (3 p q qs)
    then show thesis using assms that [of p] by (auto simp: json_consumes_def list_all2_Cons1)
  qed (use assms in simp)
  have "json_run (p @ xs) (Want_Value_Or_End s) = json_run (p @ xs) (Want_Value s)" for xs s using p(1,2) by (cases p) auto
  then show "json_run (commas ps @ T_RBrack # ts) (Want_Value_Or_End (Open_Arr acc # st)) = run_from (json_complete (JArr (acc @ vs)) st) ts"
    using first p(3) by simp
qed

lemma dict_put_new: "k \<notin> fst ` set kvs \<Longrightarrow> dict_put k v kvs = kvs @ [(k, v)]"
  by (simp add: dict_put_def)

lemma object_run:
  assumes "\<forall>(k, v) \<in> set kvs. json_consumes (f v) (g v)" and "kvs \<noteq> []" and "distinct (map fst acc @ map fst kvs)"
  shows "json_run (commas (map (\<lambda>(k, v). T_Str k # T_Colon # f v) kvs) @ T_RBrace # ts) (Want_Key (Open_Obj acc # st)) =
     run_from (json_complete (JObj (acc @ map (\<lambda>(k, v). (k, g v)) kvs)) st) ts"
  using assms
proof (induction kvs arbitrary: acc)
  case (Cons kv kvs)
  obtain k v where kv: "kv = (k, v)" by (cases kv)
  have c: "json_run (f v @ xs) (Want_Value st) = run_from (json_complete (g v) st) xs" for xs st
    using Cons.prems(1) kv by (auto simp: json_consumes_def)
  have n: "k \<notin> fst ` set acc" using Cons.prems(3) kv by auto
  show ?case
  proof (cases kvs)
    case Nil
    then show ?thesis using c n kv by (simp add: dict_put_new)
  next
    case (Cons x xs)
    have "distinct (map fst (acc @ [(k, g v)]) @ map fst kvs)" using Cons.prems(3) kv by auto
    from Cons.IH [OF _ _ this] Cons.prems(1) c n kv show ?thesis
      by (cases x) (simp add: dict_put_new Cons)
  qed
qed simp

lemma consumes_tokens: "json_plain v \<Longrightarrow> json_consumes (json_tokens v) (json_norm v)"
proof (induction v)
  case (JArr xs)
  have all: "list_all2 json_consumes (map json_tokens xs) (map json_norm xs)"
    using JArr by (simp add: list_all2_map1 list_all2_map2 list_all2_same list_all_iff)
  show ?case
  proof (cases "xs = []")
    case False
    then show ?thesis using array_run(2) [OF all] by (simp add: json_consumes_def)
  qed (simp add: json_consumes_def)
next
  case (JObj kvs)
  have items: "\<forall>(k, v) \<in> set (sort_key fst kvs). json_consumes (json_tokens v) (json_norm v)"
    using JObj by (auto simp: list_all_iff)
  have dist: "distinct (map fst ([] :: (string \<times> json) list) @ map fst (sort_key fst kvs))"
    using JObj.prems by (simp add: distinct_map)
  have norm: "json_norm (JObj kvs) = JObj (map (\<lambda>(k, v). (k, json_norm v)) (sort_key fst kvs))"
    unfolding json_norm.simps sort_items ..
  show ?case
  proof (cases "kvs = []")
    case False
    then have ne: "sort_key fst kvs \<noteq> []" by (metis length_0_conv length_sort)
    then obtain p q where pq: "commas (map (\<lambda>(k, v). T_Str k # T_Colon # json_tokens v) (sort_key fst kvs)) = T_Str p # q"
      by (cases "sort_key fst kvs" rule: remdups_adj.cases) auto
    have "json_run (commas (map (\<lambda>(k, v). T_Str k # T_Colon # json_tokens v) (sort_key fst kvs)) @ T_RBrace # ts) (Want_Key_Or_End (Open_Obj [] # st)) =
        run_from (json_complete (json_norm (JObj kvs)) st) ts" for ts st
      using object_run [OF items ne dist, of ts st] unfolding norm pq by simp
    then show ?thesis unfolding json_consumes_def tokens_obj by (simp del: json_norm.simps)
  qed (simp add: json_consumes_def)
qed (simp_all add: json_consumes_def)

theorem json_loads_pretty:
  assumes "json_plain v"
  shows "json_loads (json_pretty 0 v) = Inr (json_norm v)"
proof -
  have "json_lex (json_pretty 0 v) = Some (json_tokens v)"
    using lex_pretty [OF assms, of 0] unfolding json_reads_def by (metis append_Nil2 json_lex.simps(1) number_end_simps(4) option.simps(9))
  moreover have "json_run (json_tokens v) (Want_Value []) = Some (Json_Done (json_norm v))"
    using consumes_tokens [OF assms] unfolding json_consumes_def by (metis append_Nil2 json_complete.simps(1) json_run.simps(1) run_from_simps(2))
  ultimately show ?thesis by (simp add: json_loads_def)
qed

theorem json_loads_pretty_witness:
  "json_loads (json_pretty 0 (JObj [(''b'', JArr [JInt (- 12), JNull, JStr [CHR 0x22, CHR 0x0A, CHR ''x'']]), (''a'', JObj [])])) =
     Inr (JObj [(''a'', JObj []), (''b'', JArr [JInt (- 12), JNull, JStr [CHR 0x22, CHR 0x0A, CHR ''x'']])])"
  by (subst json_loads_pretty) (simp, code_simp)

section \<open>Dicts\<close>

lemma map_of_replace:
  "map_of (map (\<lambda>(a, b). if a = k then (a, v) else (a, b)) kvs) x =
     (if x = k \<and> k \<in> fst ` set kvs then Some v else map_of kvs x)"
proof (induction kvs)
  case (Cons p kvs)
  obtain a b where "p = (a, b)" by fastforce
  with Cons.IH show ?case by (cases "a = k"; cases "x = a") simp_all
qed simp

lemma map_of_dict_put: "map_of (dict_put k v kvs) x = (if x = k then Some v else map_of kvs x)"
proof (cases "k \<in> fst ` set kvs")
  case True
  then show ?thesis by (simp add: dict_put_def map_of_replace)
next
  case False
  then have "map_of kvs k = None" by (simp add: map_of_eq_None_iff)
  with False show ?thesis by (simp add: dict_put_def map_add_def split: option.splits)
qed

lemma keys_dict_put: "distinct (map fst kvs) \<Longrightarrow> distinct (map fst (dict_put k v kvs))"
proof -
  have "fst \<circ> (\<lambda>(a, b). if a = k then (a, v) else (a, b)) = fst" by (rule ext) (simp add: case_prod_unfold)
  then show "distinct (map fst kvs) \<Longrightarrow> ?thesis" by (cases "k \<in> fst ` set kvs") (simp_all add: dict_put_def)
qed

end
