(* ===== verification/Audit_Log.thy ===== *)
theory Audit_Log
  imports Auth Json
begin

text \<open>
  \<^verbatim>\<open>audit.py\<close> and the read side in \<^verbatim>\<open>routers/audit.py\<close>: JSON rendering of the dicts
  the handlers pass, the canonical hash, the actor of a request, the insertion of an
  audit row in the caller's transaction and the filtered, paged listing. The log line
  of \<^verbatim>\<open>emit\<close> is returned as a string.
\<close>

section \<open>Emission and hashing\<close>

definition json_opt :: "string option \<Rightarrow> json" where
  "json_opt x = (case x of None \<Rightarrow> JNull | Some s \<Rightarrow> JStr s)"

definition json_int_opt :: "int option \<Rightarrow> json" where
  "json_int_opt x = (case x of None \<Rightarrow> JNull | Some i \<Rightarrow> JInt i)"

definition emit :: "env \<Rightarrow> string \<Rightarrow> (string \<times> json) list \<Rightarrow> string" where
  "emit e event kws =
     json_dumps (iso e) False (JObj ((''ts'', JStr (iso e (now e))) # (''event'', JStr event) # kws))"

definition canonical_json_hash :: "env \<Rightarrow> (string \<times> json) list option \<Rightarrow> string option" where
  "canonical_json_hash e obj =
     (case obj of None \<Rightarrow> None | Some kvs \<Rightarrow> Some (sha256 e (json_dumps (iso e) True (JObj kvs))))"

record actor =
  actor_cn :: "string option"
  actor_serial :: "string option"
  actor_role :: "string option"

definition actor_from_request :: "request_state \<Rightarrow> actor" where
  "actor_from_request rs =
     \<lparr>actor_cn = map_option op_cn (rs_operator rs),
      actor_serial = map_option (\<lambda>c. str_of_int (cs_serial c)) (rs_cert_subject rs),
      actor_role = map_option (\<lambda>op. operator_role_value (op_role op)) (rs_operator rs)\<rparr>"

record audit_args =
  aa_event :: string
  aa_resource_type :: string
  aa_resource_id :: "int option"
  aa_action :: string
  aa_before :: "(string \<times> json) list option"
  aa_after :: "(string \<times> json) list option"
  aa_payload :: "(string \<times> json) list option"
  aa_request_id :: "string option"
  aa_tenant_id :: "int option"

definition audit_row :: "env \<Rightarrow> actor \<Rightarrow> audit_args \<Rightarrow> audit_event" where
  "audit_row e a x =
     \<lparr>ae_id = new_audit_id e, ae_tenant = aa_tenant_id x, ae_ts = now e, ae_event = aa_event x,
      ae_actor_cn = actor_cn a, ae_actor_serial = actor_serial a, ae_actor_role = actor_role a,
      ae_resource_type = aa_resource_type x, ae_resource_id = aa_resource_id x, ae_action = aa_action x,
      ae_before_hash = canonical_json_hash e (aa_before x), ae_after_hash = canonical_json_hash e (aa_after x),
      ae_payload = map_option (\<lambda>p. json_dumps (iso e) False (JObj p)) (aa_payload x),
      ae_request_id = aa_request_id x\<rparr>"

definition persist_line :: "env \<Rightarrow> audit_event \<Rightarrow> string" where
  "persist_line e r = emit e (ae_event r)
     [(''actor_cn'', json_opt (ae_actor_cn r)), (''actor_serial'', json_opt (ae_actor_serial r)),
      (''actor_role'', json_opt (ae_actor_role r)), (''resource_type'', JStr (ae_resource_type r)),
      (''resource_id'', json_int_opt (ae_resource_id r)), (''action'', JStr (ae_action r)),
      (''before_hash'', json_opt (ae_before_hash r)), (''after_hash'', json_opt (ae_after_hash r)),
      (''request_id'', json_opt (ae_request_id r)), (''tenant_id'', json_int_opt (ae_tenant r))]"

text \<open>
  \<^verbatim>\<open>persist\<close> adds the row to the session and flushes; the tenant reference is checked
  by the database. The new state, the row and the log line are the result.
\<close>

definition persist ::
  "env \<Rightarrow> actor \<Rightarrow> audit_args \<Rightarrow> state \<Rightarrow> (state \<times> audit_event \<times> string) result" where
  "persist e a x s =
     (let row = audit_row e a x in
      if ref_ok (ten_id ` set (tenants s)) (aa_tenant_id x)
      then Inr (s\<lparr>audit_events := audit_events s @ [row]\<rparr>, row, persist_line e row)
      else Inl IntegrityError)"

section \<open>Listing\<close>

definition get_operator :: "request_state \<Rightarrow> operator result" where
  "get_operator rs = or_raise (rs_operator rs) (HTTPException 401 ''operator unknown'')"

definition RequireAdminOrAuditor :: "request_state \<Rightarrow> operator result" where
  "RequireAdminOrAuditor rs =
     rbind (get_operator rs) (\<lambda>op.
       if op_role op \<notin> {Admin, Auditor} then Inl (HTTPException 403 ''role not permitted'') else Inr op)"

definition max_limit :: int where "max_limit = 500"

record audit_query =
  aq_event :: "string option"
  aq_actor_cn :: "string option"
  aq_resource_type :: "string option"
  aq_resource_id :: "int option"
  aq_since :: "int option"
  aq_until :: "int option"
  aq_limit :: int
  aq_offset :: int

definition audit_matches :: "audit_query \<Rightarrow> audit_event \<Rightarrow> bool" where
  "audit_matches q r \<longleftrightarrow>
     (case aq_event q of None \<Rightarrow> True | Some v \<Rightarrow> ae_event r = v) \<and>
     (case aq_actor_cn q of None \<Rightarrow> True | Some v \<Rightarrow> ae_actor_cn r = Some v) \<and>
     (case aq_resource_type q of None \<Rightarrow> True | Some v \<Rightarrow> ae_resource_type r = v) \<and>
     (case aq_resource_id q of None \<Rightarrow> True | Some v \<Rightarrow> ae_resource_id r = Some v) \<and>
     (case aq_since q of None \<Rightarrow> True | Some t \<Rightarrow> t \<le> ae_ts r) \<and>
     (case aq_until q of None \<Rightarrow> True | Some t \<Rightarrow> ae_ts r < t)"

text \<open>\<^verbatim>\<open>ORDER BY ts DESC, id DESC\<close>.\<close>

definition newest_first :: "audit_event list \<Rightarrow> audit_event list" where
  "newest_first rows = sort_key (\<lambda>r. - ae_ts r) (sort_key (\<lambda>r. - ae_id r) rows)"

record audit_page =
  ap_items :: "audit_event list"
  ap_total :: int
  ap_limit :: int
  ap_offset :: int

definition list_audit_events :: "request_state \<Rightarrow> audit_query \<Rightarrow> state \<Rightarrow> audit_page result" where
  "list_audit_events rs q s =
     rbind (RequireAdminOrAuditor rs) (\<lambda>_.
     rbind (check (0 < aq_limit q \<and> aq_limit q \<le> max_limit \<and> 0 \<le> aq_offset q) (HTTPException 422 ''query'')) (\<lambda>_.
       let rows = filter (audit_matches q) (audit_events s) in
       Inr \<lparr>ap_items = take (nat (aq_limit q)) (drop (nat (aq_offset q)) (newest_first rows)),
         ap_total = int (length rows), ap_limit = aq_limit q, ap_offset = aq_offset q\<rparr>))"

section \<open>Correctness\<close>

lemma json_dumps_items_perm:
  assumes "mset xs = mset ys" and "distinct (map fst xs)"
  shows "sort_key fst xs = sort_key fst (ys :: (string \<times> 'b) list)"
proof (rule properties_for_sort_key)
  show "mset (sort_key fst ys) = mset xs" using assms(1) by simp
  show "sorted (map fst (sort_key fst ys))" by simp
  fix k assume "k \<in> set (sort_key fst ys)"
  then have k: "k \<in> set xs" using assms(1) by (metis set_mset_mset set_sort)
  have *: "filter (\<lambda>x. fst k = fst x) zs = [k]" if "distinct (map fst zs)" "k \<in> set zs" for zs :: "(string \<times> 'b) list"
    using that by (induction zs) (auto simp: filter_empty_conv image_iff)
  have "distinct (map fst (sort_key fst ys))"
    using assms by (metis distinct_map mset_eq_imp_distinct_iff mset_map mset_sort)
  then show "filter (\<lambda>x. fst k = fst x) (sort_key fst ys) = filter (\<lambda>x. fst k = fst x) xs"
    using * [OF assms(2) k] * [of "sort_key fst ys"] \<open>k \<in> set (sort_key fst ys)\<close> by simp
qed

text \<open>
  The canonical hash of a dict does not depend on the order its keys were
  inserted in.
\<close>

theorem canonical_json_hash_order_independent:
  assumes "mset xs = mset ys" and "distinct (map fst xs)"
  shows "canonical_json_hash e (Some xs) = canonical_json_hash e (Some ys)"
proof -
  let ?f = "\<lambda>(k, v). (k, json_string k @ '':'' @ json_dumps (iso e) True v)"
  have "mset (map ?f xs) = mset (map ?f ys)" using assms(1) by (simp add: mset_map)
  moreover have "fst \<circ> ?f = fst" by auto
  then have "distinct (map fst (map ?f xs))" using assms(2) by simp
  ultimately have "sort_key fst (map ?f xs) = sort_key fst (map ?f ys)" by (rule json_dumps_items_perm)
  then show ?thesis by (simp add: canonical_json_hash_def Let_def)
qed

theorem canonical_json_hash_order_independent_witness:
  "canonical_json_hash sample_env (Some [(''b'', JInt 1), (''a'', JNull)]) =
   canonical_json_hash sample_env (Some [(''a'', JNull), (''b'', JInt 1)])"
  by (rule canonical_json_hash_order_independent) (simp_all add: add_mset_commute)

lemma newest_first_perm: "mset (newest_first rows) = mset rows"
  by (simp add: newest_first_def)

text \<open>
  Walking the pages of one query with a fixed positive limit returns every
  matching audit row exactly once, newest first, and each page reports the full
  count of matches.
\<close>

theorem audit_pages_partition_matches:
  assumes "rs_operator rs = Some op" and "op_role op = Admin \<or> op_role op = Auditor"
    and "0 < l" and "l \<le> max_limit" and "filter (audit_matches q) (audit_events s) = rows"
  shows "\<exists>pages. (\<forall>i < n. list_audit_events rs (q\<lparr>aq_limit := l, aq_offset := int i * l\<rparr>) s = Inr (pages i) \<and>
       ap_total (pages i) = int (length rows)) \<and>
     concat (map (\<lambda>i. ap_items (pages i)) [0 ..< n]) = take (n * nat l) (newest_first rows) \<and>
     (length rows \<le> n * nat l \<longrightarrow> mset (concat (map (\<lambda>i. ap_items (pages i)) [0 ..< n])) = mset rows) \<and>
     sorted (map (\<lambda>r. - ae_ts r) (newest_first rows))"
proof -
  let ?page = "\<lambda>i. \<lparr>ap_items = take (nat l) (drop (i * nat l) (newest_first rows)),
    ap_total = int (length rows), ap_limit = l, ap_offset = int i * l\<rparr>"
  have matches: "audit_matches (q\<lparr>aq_limit := l, aq_offset := x\<rparr>) = audit_matches q" for x
    by (rule ext) (simp add: audit_matches_def)
  have off: "nat (int i * l) = i * nat l" for i
    using assms(3) by (simp add: nat_mult_distrib)
  have pages: "list_audit_events rs (q\<lparr>aq_limit := l, aq_offset := int i * l\<rparr>) s = Inr (?page i)" for i
    using assms
    by (auto simp: list_audit_events_def RequireAdminOrAuditor_def get_operator_def matches off Let_def)
  have walk: "concat (map (\<lambda>i. take k (drop (i * k) xs)) [0 ..< n]) = take (n * k) xs" for k and xs :: "audit_event list"
  proof (induction n)
    case (Suc n)
    have "take (Suc n * k) xs = take (n * k) xs @ take k (drop (n * k) xs)"
      by (simp only: mult_Suc add.commute [of k] take_add)
    with Suc show ?case by simp
  qed simp
  have "mset (take (n * nat l) (newest_first rows)) = mset rows" if "length rows \<le> n * nat l"
    using that by (simp add: newest_first_perm newest_first_def)
  moreover have "sorted (map (\<lambda>r. - ae_ts r) (newest_first rows))" by (simp add: newest_first_def)
  ultimately show ?thesis
    by (intro exI [of _ ?page]) (simp add: pages walk)
qed

definition admin_request :: request_state where
  "admin_request = no_state\<lparr>rs_operator := Some (sample_operator\<lparr>op_role := Admin\<rparr>)\<rparr>"

definition any_event :: audit_query where
  "any_event = \<lparr>aq_event = None, aq_actor_cn = None, aq_resource_type = None, aq_resource_id = None,
     aq_since = None, aq_until = None, aq_limit = 100, aq_offset = 0\<rparr>"

theorem audit_pages_partition_matches_witness:
  "\<exists>pages. list_audit_events admin_request (any_event\<lparr>aq_limit := 2, aq_offset := 0\<rparr>) empty_db = Inr (pages 0) \<and>
     ap_items (pages (0::nat)) = []"
proof -
  have o: "rs_operator admin_request = Some (sample_operator\<lparr>op_role := Admin\<rparr>)"
    by (simp add: admin_request_def)
  have f: "filter (audit_matches any_event) (audit_events empty_db) = []" by (simp add: empty_db_def)
  from audit_pages_partition_matches [OF o _ _ _ f, of 2 1] show ?thesis
    by (auto simp: max_limit_def newest_first_def)
qed

end
