(* ===== verification/Enrollment.thy ===== *)
theory Enrollment
  imports Ip_Text Audit_Log
begin

text \<open>
  \<^verbatim>\<open>enrollment.py\<close>: minting, finding, expiring, revoking, consuming and sweeping
  enrollment tokens, and the source networks a token is bound to. SHA-256 is the
  parameter \<^term>\<open>sha256\<close> of the environment, the entropy of \<^verbatim>\<open>secrets\<close> an argument.
\<close>

section \<open>Tokens\<close>

definition TOKEN_PREFIX :: string where "TOKEN_PREFIX = ''wgmenr_''"

definition generate_token :: "string \<Rightarrow> string" where
  "generate_token entropy = TOKEN_PREFIX @ entropy"

definition hash_token :: "env \<Rightarrow> string \<Rightarrow> string" where
  "hash_token e token = sha256 e token"

text \<open>The keyword arguments of \<^verbatim>\<open>mint_token\<close> besides the two rows.\<close>

record mint_args =
  ma_ssh_username :: string
  ma_name_prefix :: string
  ma_ttl_seconds :: int
  ma_max_uses :: int
  ma_created_by_cn :: "string option"
  ma_allowed_cidrs :: "string list option"

definition new_token_row :: "env \<Rightarrow> string \<Rightarrow> server \<Rightarrow> ssh_key \<Rightarrow> mint_args \<Rightarrow> enrollment_token" where
  "new_token_row e token server key a =
     \<lparr>et_id = new_id e, et_tenant = srv_tenant server, et_server_id = srv_id server,
      et_ssh_key_id = key_id key, et_ssh_username = ma_ssh_username a,
      et_name_prefix = ma_name_prefix a, et_token_hash = hash_token e token,
      et_max_uses = ma_max_uses a, et_use_count = 0,
      et_expires_at = now e + seconds (ma_ttl_seconds a),
      et_created_by_cn = ma_created_by_cn a, et_created_at = now e, et_revoked_at = None,
      et_revoked_by_cn = None,
      et_allowed_cidrs = (case ma_allowed_cidrs a of
          None \<Rightarrow> None | Some [] \<Rightarrow> None | Some cs \<Rightarrow> Some (join_with '','' cs))\<rparr>"

text \<open>The flush checks the unique hash and the three references.\<close>

definition mint_token ::
  "env \<Rightarrow> string \<Rightarrow> server \<Rightarrow> ssh_key \<Rightarrow> mint_args \<Rightarrow> state \<Rightarrow> (state \<times> enrollment_token \<times> string) result" where
  "mint_token e entropy server key a s =
     (let token = generate_token entropy; row = new_token_row e token server key a in
      if et_token_hash row \<in> et_token_hash ` set (enrollment_tokens s) \<or>
         et_server_id row \<notin> srv_id ` set (servers s) \<or>
         et_ssh_key_id row \<notin> key_id ` set (ssh_keys s) \<or>
         \<not> ref_ok (ten_id ` set (tenants s)) (et_tenant row)
      then Inl IntegrityError
      else Inr (s\<lparr>enrollment_tokens := enrollment_tokens s @ [row]\<rparr>, row, token))"

definition find_token :: "env \<Rightarrow> state \<Rightarrow> string \<Rightarrow> enrollment_token option" where
  "find_token e s token = find (\<lambda>t. et_token_hash t = hash_token e token) (enrollment_tokens s)"

definition is_expired :: "enrollment_token \<Rightarrow> int \<Rightarrow> bool" where
  "is_expired row t \<longleftrightarrow> et_expires_at row \<le> t"

definition token_status :: "enrollment_token \<Rightarrow> int \<Rightarrow> enrollment_token_status" where
  "token_status row t =
     (if et_revoked_at row \<noteq> None then Token_Revoked
      else if is_expired row t then Token_Expired
      else if et_max_uses row \<le> et_use_count row then Token_Exhausted
      else Token_Active)"

definition active_filter :: "int \<Rightarrow> enrollment_token \<Rightarrow> bool" where
  "active_filter t row \<longleftrightarrow>
     et_revoked_at row = None \<and> t < et_expires_at row \<and> et_use_count row < et_max_uses row"

definition revoke_token ::
  "env \<Rightarrow> enrollment_token \<Rightarrow> string option \<Rightarrow> state \<Rightarrow> state \<times> bool" where
  "revoke_token e row revoked_by s =
     (if et_revoked_at row \<noteq> None then (s, False)
      else (s\<lparr>enrollment_tokens := upd_where (\<lambda>r. et_id r = et_id row)
                (\<lambda>r. r\<lparr>et_revoked_at := Some (now e), et_revoked_by_cn := revoked_by\<rparr>)
                (enrollment_tokens s)\<rparr>, True))"

text \<open>
  The guarded \<^verbatim>\<open>UPDATE\<close>: the condition is evaluated on the stored rows, not on the
  caller's copy, and the result is whether the statement changed one row.
\<close>

definition consumable :: "int \<Rightarrow> enrollment_token \<Rightarrow> bool" where
  "consumable i r \<longleftrightarrow> et_id r = i \<and> et_use_count r < et_max_uses r \<and> et_revoked_at r = None"

definition consume_token :: "enrollment_token \<Rightarrow> state \<Rightarrow> state \<times> bool" where
  "consume_token row s =
     (s\<lparr>enrollment_tokens := upd_where (consumable (et_id row))
         (\<lambda>r. r\<lparr>et_use_count := et_use_count r + 1\<rparr>) (enrollment_tokens s)\<rparr>,
      length (filter (consumable (et_id row)) (enrollment_tokens s)) = 1)"

definition dead :: "int \<Rightarrow> enrollment_token \<Rightarrow> bool" where
  "dead cutoff row \<longleftrightarrow> et_expires_at row < cutoff \<or>
     (case et_revoked_at row of None \<Rightarrow> False | Some r \<Rightarrow> r < cutoff)"

definition delete_dead_tokens :: "int \<Rightarrow> int \<Rightarrow> state \<Rightarrow> state \<times> int list" where
  "delete_dead_tokens retention_seconds t s =
     (let cutoff = t - seconds retention_seconds;
          ids = sort (map et_id (filter (dead cutoff) (enrollment_tokens s)))
      in if ids = [] then (s, [])
         else (s\<lparr>enrollment_tokens := filter (\<lambda>r. et_id r \<notin> set ids) (enrollment_tokens s)\<rparr>, ids))"

section \<open>Source networks\<close>

fun normalize_cidrs_acc :: "string list \<Rightarrow> string list \<Rightarrow> string list result" where
  "normalize_cidrs_acc out [] = Inr out"
| "normalize_cidrs_acc out (value # vs) =
     rbind (ip_network True (strip value)) (\<lambda>n.
       let text' = ip_net_str n in
       normalize_cidrs_acc (if text' \<notin> set out then out @ [text'] else out) vs)"

definition normalize_cidrs :: "string list \<Rightarrow> string list result" where
  "normalize_cidrs values = normalize_cidrs_acc [] values"

definition allowed_networks :: "enrollment_token \<Rightarrow> ip_net list option result" where
  "allowed_networks row =
     (case et_allowed_cidrs row of
        None \<Rightarrow> Inr None
      | Some [] \<Rightarrow> Inr None
      | Some cs \<Rightarrow> rbind (rmap (ip_network True) (split_on CHR '','' cs)) (\<lambda>ns. Inr (Some ns)))"

text \<open>IPv4-mapped IPv6 peers count as their IPv4 address.\<close>

fun unmap :: "ip_addr \<Rightarrow> ip_addr" where
  "unmap (IPv4 a) = IPv4 a"
| "unmap (IPv6 a z) = (case ipv4_mapped a of None \<Rightarrow> IPv6 a z | Some v4 \<Rightarrow> IPv4 v4)"

definition source_allowed :: "enrollment_token \<Rightarrow> string option \<Rightarrow> bool result" where
  "source_allowed row host =
     rbind (allowed_networks row) (\<lambda>networks.
       case networks of
         None \<Rightarrow> Inr True
       | Some ns \<Rightarrow>
           (case ip_address (case host of None \<Rightarrow> [] | Some h \<Rightarrow> h) of
              Inl _ \<Rightarrow> Inr False
            | Inr addr \<Rightarrow> Inr (\<exists>n \<in> set ns. addr_in_net (unmap addr) n)))"

section \<open>Lemmas\<close>

lemma consume_token_frame [frame_simps]:
  "servers (fst (consume_token row s)) = servers s" "clients (fst (consume_token row s)) = clients s"
  "ssh_keys (fst (consume_token row s)) = ssh_keys s" "tenants (fst (consume_token row s)) = tenants s"
  "map et_id (enrollment_tokens (fst (consume_token row s))) = map et_id (enrollment_tokens s)"
  by (simp_all add: consume_token_def map_upd_where)

lemma mint_token_Inr:
  "mint_token e entropy server key a s = Inr (s', row, token) \<longleftrightarrow> token = generate_token entropy \<and>
     row = new_token_row e token server key a \<and> et_token_hash row \<notin> et_token_hash ` set (enrollment_tokens s) \<and>
     et_server_id row \<in> srv_id ` set (servers s) \<and> et_ssh_key_id row \<in> key_id ` set (ssh_keys s) \<and>
     ref_ok (ten_id ` set (tenants s)) (et_tenant row) \<and> s' = s\<lparr>enrollment_tokens := enrollment_tokens s @ [row]\<rparr>"
  by (auto simp: mint_token_def Let_def)

lemma filter_key_singleton:
  assumes "distinct (map key rows)"
  shows "filter (\<lambda>r. key r = i \<and> P r) rows =
     (case get_row key rows i of None \<Rightarrow> [] | Some r \<Rightarrow> if P r then [r] else [])"
  using assms
proof (induction rows)
  case (Cons x xs)
  have "filter (\<lambda>r. key r = i \<and> P r) xs = []" if "key x = i"
    using that Cons.prems by (auto simp: filter_empty_conv) (metis image_eqI)
  with Cons show ?case by (auto simp: get_row_def)
qed (simp add: get_row_def)

lemma consume_token_iff:
  assumes "distinct (map et_id (enrollment_tokens s))"
  shows "snd (consume_token row s) \<longleftrightarrow>
     (\<exists>r \<in> set (enrollment_tokens s). consumable (et_id row) r)"
proof -
  have "filter (consumable (et_id row)) (enrollment_tokens s) =
      filter (\<lambda>r. et_id r = et_id row \<and> (et_use_count r < et_max_uses r \<and> et_revoked_at r = None)) (enrollment_tokens s)"
    by (rule arg_cong2 [where f = filter]) (auto simp: consumable_def)
  also have "length \<dots> = 1 \<longleftrightarrow> \<dots> \<noteq> []"
    unfolding filter_key_singleton [OF assms] by (auto split: option.splits)
  finally show ?thesis
    by (auto simp: consume_token_def filter_empty_conv consumable_def)
qed

text \<open>Normalised CIDR strings are the printed networks, first occurrences only.\<close>

lemma normalize_cidrs_acc_spec:
  assumes "normalize_cidrs_acc out vs = Inr cs"
  shows "\<exists>ns. rmap (\<lambda>v. ip_network True (strip v)) vs = Inr ns \<and> set cs = set out \<union> ip_net_str ` set ns \<and>
     (distinct out \<longrightarrow> distinct cs) \<and> (out \<noteq> [] \<or> vs \<noteq> [] \<longrightarrow> cs \<noteq> [])"
  using assms
proof (induction out vs rule: normalize_cidrs_acc.induct)
  case (2 out v vs)
  obtain n where n: "ip_network True (strip v) = Inr n" using 2(2) by (auto simp: result_simps)
  let ?out = "if ip_net_str n \<notin> set out then out @ [ip_net_str n] else out"
  have "normalize_cidrs_acc ?out vs = Inr cs" using 2(2) n by (simp add: Let_def)
  from 2(1) [OF refl this] obtain ns where
    ns: "rmap (\<lambda>v. ip_network True (strip v)) vs = Inr ns" "set cs = set ?out \<union> ip_net_str ` set ns"
      "distinct ?out \<longrightarrow> distinct cs" "?out \<noteq> [] \<or> vs \<noteq> [] \<longrightarrow> cs \<noteq> []"
    by (auto simp: n)
  then show ?case using n by (intro exI [of _ "n # ns"]) (auto split: if_splits)
qed simp

lemma strip_subset: "set (strip v) \<subseteq> set v"
proof
  fix c assume "c \<in> set (strip v)"
  then have "c \<in> set (dropWhile is_space (rev (dropWhile is_space v)))" by (simp add: strip_def rstrip_if_def)
  then have "c \<in> set (dropWhile is_space v)" using set_dropWhileD by fastforce
  then show "c \<in> set v" using set_dropWhileD by fastforce
qed

lemma ip4_str_no_comma: "CHR '','' \<notin> set (ip4_str a)"
  by (simp add: ip4_str_def ip4_octets_def digit_not_sep is_digit_def)

lemma ip6_text_no_comma: "CHR '','' \<notin> set (ip6_text a)"
proof -
  have "CHR '','' \<notin> set (string_from_ip6_int a)"
    unfolding string_from_ip6_int_def using compress_no [of "CHR '',''"]
    by (intro join_no) (auto simp: hex_val_def)
  then show ?thesis by (auto simp: ip6_text_cases ip4_str_no_comma)
qed

lemma ip_net_str_no_comma:
  assumes "ip_network True s = Inr n" and "CHR '','' \<notin> set s"
  shows "CHR '','' \<notin> set (ip_net_str n)"
proof (cases n)
  case (Net4 m)
  then show ?thesis by (simp add: net_str_def ip4_str_no_comma digit_not_sep is_digit_def)
next
  case (Net6 a z p)
  then have "ip6_network True s = Inr (Net6 a z p)"
    using assms(1) by (auto simp: ip_network_def split: sum.splits)
  then have "\<forall>t. z = Some t \<longrightarrow> CHR '','' \<notin> set t" using ip6_network_scope assms(2) by blast
  then show ?thesis
    by (auto simp: Net6 ip_str_text ip6_text_no_comma digit_not_sep is_digit_def simp del: ip_str.simps
        split: option.splits)
qed

text \<open>Reading the stored string gives exactly the networks that were accepted.\<close>

lemma allowed_networks_stored:
  assumes "normalize_cidrs vs = Inr cs" and "vs \<noteq> []" and "\<And>v. v \<in> set vs \<Longrightarrow> CHR '','' \<notin> set v"
    and "et_allowed_cidrs row = Some (join_with '','' cs)"
  shows "\<exists>ns. allowed_networks row = Inr (Some ns) \<and>
     (\<forall>n. n \<in> set ns \<longleftrightarrow> (\<exists>v \<in> set vs. ip_network True (strip v) = Inr n))"
proof -
  obtain ns where ns: "rmap (\<lambda>v. ip_network True (strip v)) vs = Inr ns"
    and cs: "set cs = ip_net_str ` set ns" and ne: "cs \<noteq> []"
    using normalize_cidrs_acc_spec [of "[]" vs cs] assms(1,2) by (auto simp: normalize_cidrs_def)
  have from_v: "\<exists>v \<in> set vs. ip_network True (strip v) = Inr n" if "n \<in> set ns" for n
    using rmap_Inr_set [OF ns that] by blast
  have rd: "ip_network True c = Inr (projr (ip_network True c)) \<and> projr (ip_network True c) \<in> set ns \<and> CHR '','' \<notin> set c"
    if c: "c \<in> set cs" for c
  proof -
    obtain n where n: "n \<in> set ns" "c = ip_net_str n" using c cs by auto
    then obtain v where v: "v \<in> set vs" "ip_network True (strip v) = Inr n" using from_v by blast
    then have "ip_network True c = Inr n" using n ip_net_str_roundtrip [OF ip_network_printable] by simp
    moreover have "CHR '','' \<notin> set (strip v)" using strip_subset [of v] assms(3) [OF v(1)] by blast
    ultimately show ?thesis using n ip_net_str_no_comma [OF v(2)] by simp
  qed
  have "split_on CHR '','' (join_with '','' cs) = cs" using ne rd by (intro split_join) auto
  moreover have "rmap (ip_network True) cs = Inr (map (\<lambda>c. projr (ip_network True c)) cs)"
    using rd by (intro rmap_Inr_map) auto
  moreover have "join_with '','' cs \<noteq> []"
  proof
    assume e: "join_with '','' cs = []"
    then have "cs = [[]]" using \<open>split_on CHR '','' (join_with '','' cs) = cs\<close> by simp
    then have "ip_network True [] = Inr (projr (ip_network True []))" using rd by simp
    moreover have "ip_network True [] = Inl (ValueError (py_repr [] @ '' does not appear to be an IPv4 or IPv6 network''))"
      by code_simp
    ultimately show False by simp
  qed
  ultimately have "allowed_networks row = Inr (Some (map (\<lambda>c. projr (ip_network True c)) cs))"
    using assms(4) by (cases "join_with '','' cs") (auto simp: allowed_networks_def)
  moreover have "n \<in> set (map (\<lambda>c. projr (ip_network True c)) cs) \<longleftrightarrow> (\<exists>v \<in> set vs. ip_network True (strip v) = Inr n)" for n
  proof -
    have "n \<in> set (map (\<lambda>c. projr (ip_network True c)) cs) \<longleftrightarrow> n \<in> set ns"
      using rd cs ip_net_str_roundtrip [OF ip_network_printable] from_v by (auto simp: image_iff) (metis sum.sel(2))
    then show ?thesis using from_v rmap_set_iff [OF ns] by blast
  qed
  ultimately show ?thesis by blast
qed

section \<open>Correctness\<close>

text \<open>
  a token minted with a list of networks is redeemable from exactly the addresses
  those networks cover (an IPv4-mapped IPv6 peer counts as IPv4), whatever canonical
  text they were stored as; a missing or unparsable peer address is refused.
\<close>

theorem bound_token_source_allowed:
  assumes "normalize_cidrs vs = Inr cs" and "vs \<noteq> []"
    and "\<And>v. v \<in> set vs \<Longrightarrow> CHR '','' \<notin> set v"
    and "et_allowed_cidrs (new_token_row e token server key (a\<lparr>ma_allowed_cidrs := Some cs\<rparr>)) =
      et_allowed_cidrs row"
  shows "source_allowed row host = Inr (\<exists>h addr v n. host = Some h \<and> ip_address h = Inr addr \<and> v \<in> set vs \<and>
       ip_network True (strip v) = Inr n \<and> ip_net_covers n (unmap addr))"
proof -
  have "cs \<noteq> []" using normalize_cidrs_acc_spec [of "[]" vs cs] assms(1,2) by (auto simp: normalize_cidrs_def)
  then have "et_allowed_cidrs row = Some (join_with '','' cs)"
    using assms(4) by (auto simp: new_token_row_def split: list.splits)
  from allowed_networks_stored [OF assms(1,2,3) this] obtain ns where
    ns: "allowed_networks row = Inr (Some ns)" "\<And>n. n \<in> set ns \<longleftrightarrow> (\<exists>v \<in> set vs. ip_network True (strip v) = Inr n)"
    by blast
  have covers: "addr_in_net (unmap addr) n \<longleftrightarrow> ip_net_covers n (unmap addr)"
    if "ip_address h = Inr addr" "n \<in> set ns" for h addr n
  proof (rule addr_in_net_iff)
    show "wf_ip_net n" using that(2) ns(2) ip_network_wf by blast
    show "wf_ip (unmap addr)" using ip_address_wf [OF that(1)]
      by (cases addr) (auto simp: ipv4_mapped_def split: if_splits)
  qed
  have empty: "ip_address [] = Inl (ValueError (py_repr [] @ '' does not appear to be an IPv4 or IPv6 address''))"
    by code_simp
  show ?thesis
  proof (cases host)
    case None
    then show ?thesis using ns(1) empty by (simp add: source_allowed_def)
  next
    case (Some h)
    show ?thesis
    proof (cases "ip_address h")
      case (Inr addr)
      have "(\<exists>n \<in> set ns. addr_in_net (unmap addr) n) \<longleftrightarrow>
          (\<exists>v n. v \<in> set vs \<and> ip_network True (strip v) = Inr n \<and> ip_net_covers n (unmap addr))"
        using ns(2) covers [OF Inr] by blast
      then show ?thesis using ns(1) Some Inr by (simp add: source_allowed_def)
    qed (use ns(1) Some in \<open>simp add: source_allowed_def\<close>)
  qed
qed

text \<open>
  The sweep removes exactly the tokens whose expiry or revocation lies before the
  cutoff, returns their ids in ascending order, and with a non-negative retention
  never removes a token that is still redeemable.
\<close>

theorem delete_dead_tokens_exact:
  assumes "distinct (map et_id (enrollment_tokens s))" and "0 \<le> retention"
    and "delete_dead_tokens retention t s = (s', ids)"
  shows "enrollment_tokens s' = filter (\<lambda>r. \<not> dead (t - seconds retention) r) (enrollment_tokens s) \<and>
     sorted ids \<and> set ids = et_id ` {r \<in> set (enrollment_tokens s). dead (t - seconds retention) r} \<and>
     (\<forall>r \<in> set (enrollment_tokens s). token_status r t = Token_Active \<longrightarrow> r \<in> set (enrollment_tokens s'))"
proof -
  let ?c = "t - seconds retention"
  let ?dead = "filter (dead ?c) (enrollment_tokens s)"
  have ids: "ids = sort (map et_id ?dead)"
    using assms(3) by (auto simp: delete_dead_tokens_def Let_def split: if_splits)
  have mem: "et_id r \<in> set ids \<longleftrightarrow> dead ?c r" if "r \<in> set (enrollment_tokens s)" for r
    using that distinct_map_eq [OF assms(1)] unfolding ids by auto
  have "enrollment_tokens s' = filter (\<lambda>r. et_id r \<notin> set ids) (enrollment_tokens s)"
  proof (cases "ids = []")
    case True
    with assms(3) have "s' = s" by (auto simp: delete_dead_tokens_def Let_def split: if_splits)
    then show ?thesis using True by simp
  next
    case False
    then show ?thesis using assms(3) ids by (auto simp: delete_dead_tokens_def Let_def split: if_splits)
  qed
  also have "\<dots> = filter (\<lambda>r. \<not> dead ?c r) (enrollment_tokens s)"
    using mem by (intro filter_cong) auto
  finally have s': "enrollment_tokens s' = filter (\<lambda>r. \<not> dead ?c r) (enrollment_tokens s)" .
  have "\<not> dead ?c r" if "token_status r t = Token_Active" for r
    using that assms(2) by (auto simp: token_status_def is_expired_def dead_def seconds_def split: if_splits)
  with s' ids show ?thesis by (auto simp: image_iff)
qed

definition sample_token :: enrollment_token where
  "sample_token = \<lparr>et_id = 1, et_tenant = Some 1, et_server_id = 1, et_ssh_key_id = 1,
     et_ssh_username = ''ops'', et_name_prefix = ''node'', et_token_hash = ''wgmenr_x'', et_max_uses = 1,
     et_use_count = 0, et_expires_at = 5000000, et_created_by_cn = None, et_created_at = 0,
     et_revoked_at = None, et_revoked_by_cn = None, et_allowed_cidrs = None\<rparr>"

definition sample_mint :: mint_args where
  "sample_mint = \<lparr>ma_ssh_username = ''ops'', ma_name_prefix = ''node'', ma_ttl_seconds = 60, ma_max_uses = 1,
     ma_created_by_cn = None, ma_allowed_cidrs = None\<rparr>"

theorem bound_token_source_allowed_witness:
  "source_allowed (sample_token\<lparr>et_allowed_cidrs := Some ''10.0.0.0/8''\<rparr>) (Some ''::ffff:10.1.2.3'') = Inr True"
proof -
  let ?row = "sample_token\<lparr>et_allowed_cidrs := Some ''10.0.0.0/8''\<rparr>"
  let ?n = "Net4 \<lparr>network_address = 167772160, prefixlen = 8\<rparr>"
  have n: "normalize_cidrs [''10.0.0.0/8''] = Inr [''10.0.0.0/8'']" by code_simp
  have row: "et_allowed_cidrs (new_token_row sample_env [] sample_hub sample_key
      (sample_mint\<lparr>ma_allowed_cidrs := Some [''10.0.0.0/8'']\<rparr>)) = et_allowed_cidrs ?row"
    by (simp add: new_token_row_def)
  have a: "ip_address ''::ffff:10.1.2.3'' = Inr (IPv6 281470849581571 None)" by code_simp
  have b: "ip_network True (strip ''10.0.0.0/8'') = Inr ?n" by code_simp
  have "ip_net_covers ?n (unmap (IPv6 281470849581571 None))"
    by (simp add: ipv4_mapped_def net_addresses_def)
  then have ex: "\<exists>h addr v n. Some ''::ffff:10.1.2.3'' = Some h \<and> ip_address h = Inr addr \<and>
      v \<in> set [''10.0.0.0/8''] \<and> ip_network True (strip v) = Inr n \<and> ip_net_covers n (unmap addr)"
    using a b by fastforce
  have "source_allowed ?row (Some ''::ffff:10.1.2.3'') = Inr (\<exists>h addr v n. Some ''::ffff:10.1.2.3'' = Some h \<and>
      ip_address h = Inr addr \<and> v \<in> set [''10.0.0.0/8''] \<and> ip_network True (strip v) = Inr n \<and>
      ip_net_covers n (unmap addr))"
    by (rule bound_token_source_allowed [OF n _ _ row]) auto
  then show ?thesis unfolding eqTrueI [OF ex] .
qed

theorem delete_dead_tokens_exact_witness:
  "enrollment_tokens (fst (delete_dead_tokens 60 90000000 (empty_db\<lparr>enrollment_tokens := [sample_token]\<rparr>))) = []"
proof -
  let ?s = "empty_db\<lparr>enrollment_tokens := [sample_token]\<rparr>"
  have d: "distinct (map et_id (enrollment_tokens ?s))" by simp
  have "delete_dead_tokens 60 90000000 ?s = (fst (delete_dead_tokens 60 90000000 ?s), snd (delete_dead_tokens 60 90000000 ?s))"
    by simp
  from delete_dead_tokens_exact [OF d _ this] show ?thesis
    by (simp add: dead_def sample_token_def seconds_def)
qed

end
