(* ===== verification/Locks.thy ===== *)
theory Locks
  imports Prelude
begin

text \<open>
  \<^verbatim>\<open>locks.py\<close>: the per-row advisory lock as a context manager around a body. The
  MySQL named-lock server is a parameter (three operations on the world the body runs
  in); its documented behaviour is the locale \<^verbatim>\<open>named_locks\<close>, interpreted on a table of
  lock holders reached over a connection that may fail at any call.
\<close>

section \<open>Lock names\<close>

definition lock_name_for :: "string \<Rightarrow> int \<Rightarrow> string result" where
  "lock_name_for scope row_id =
     (if scope = [] then Inl (ValueError ''lock scope must be a non-empty string'')
      else if row_id \<le> 0 then Inl (ValueError (''lock row_id must be positive; got '' @ str_of_int row_id))
      else Inr (''wgm:'' @ scope @ '':'' @ str_of_int row_id))"

definition is_mysql_dialect :: "string \<Rightarrow> bool" where
  "is_mysql_dialect d \<longleftrightarrow> d \<in> {''mysql'', ''mariadb''}"

section \<open>The context manager\<close>

text \<open>
  \<^verbatim>\<open>GET_LOCK\<close> and \<^verbatim>\<open>RELEASE_LOCK\<close> answer a number or NULL, or raise; invalidating a
  connection closes it for real.
\<close>

record 'w lock_server =
  GET_LOCK :: "int \<Rightarrow> string \<Rightarrow> int \<Rightarrow> 'w \<Rightarrow> 'w \<times> int option result"
  RELEASE_LOCK :: "int \<Rightarrow> string \<Rightarrow> 'w \<Rightarrow> 'w \<times> int option result"
  invalidate :: "int \<Rightarrow> 'w \<Rightarrow> 'w"

text \<open>The \<^verbatim>\<open>finally\<close> block: an error or an answer other than 1 drops the connection.\<close>

definition release_or_drop :: "'w lock_server \<Rightarrow> int \<Rightarrow> string \<Rightarrow> 'w \<Rightarrow> 'w" where
  "release_or_drop srv conn name w =
     (case RELEASE_LOCK srv conn name w of
        (w', Inr (Some r)) \<Rightarrow> if r = 1 then w' else invalidate srv conn w'
      | (w', _) \<Rightarrow> invalidate srv conn w')"

definition task_row_lock ::
  "'w lock_server \<Rightarrow> string \<Rightarrow> int \<Rightarrow> string \<Rightarrow> int \<Rightarrow> int \<Rightarrow> (bool \<Rightarrow> 'w \<Rightarrow> 'w \<times> 'a result) \<Rightarrow> 'w \<Rightarrow> 'w \<times> 'a result" where
  "task_row_lock srv dialect conn scope row_id timeout body w =
     (case lock_name_for scope row_id of
        Inl e \<Rightarrow> (w, Inl e)
      | Inr name \<Rightarrow>
          if \<not> is_mysql_dialect dialect then body True w
          else (case GET_LOCK srv conn name timeout w of
              (w1, Inl e) \<Rightarrow> (w1, Inl e)
            | (w1, Inr answer) \<Rightarrow>
                let acquired = (answer = Some 1);
                    (w2, r) = body acquired w1
                in (if acquired then release_or_drop srv conn name w2 else w2, r)))"

section \<open>Laws of the lock server\<close>

text \<open>
  \<^verbatim>\<open>holder w name\<close> is the connection that holds \<^verbatim>\<open>name\<close>. Only an answer of 1 takes the
  lock, and only a free one (or one the connection has); a release answers 1 when it
  freed the lock of the connection; any other answer, and an exception on the way, leaves
  open whether it did; closing a connection frees what it holds and nothing else.
\<close>

locale named_locks =
  fixes srv :: "'w lock_server" and holder :: "'w \<Rightarrow> string \<Rightarrow> int option"
  assumes get_lock_acquired: "GET_LOCK srv c n t w = (w', Inr (Some 1)) \<Longrightarrow>
      (holder w n = None \<or> holder w n = Some c) \<and> holder w' = (holder w)(n := Some c)"
    and get_lock_not: "GET_LOCK srv c n t w = (w', r) \<Longrightarrow> r \<noteq> Inr (Some 1) \<Longrightarrow> holder w' = holder w"
    and release_freed: "RELEASE_LOCK srv c n w = (w', Inr (Some 1)) \<Longrightarrow>
      holder w n = Some c \<and> holder w' = (holder w)(n := None)"
    and release_not: "RELEASE_LOCK srv c n w = (w', r) \<Longrightarrow> r \<noteq> Inr (Some 1) \<Longrightarrow>
      holder w' = holder w \<or> holder w n = Some c \<and> holder w' = (holder w)(n := None)"
    and invalidate_frees: "holder (invalidate srv c w) n = (if holder w n = Some c then None else holder w n)"
begin

lemma release_or_drop_frees:
  assumes "holder w n = Some c"
  shows "holder (release_or_drop srv c n w) n = None"
proof -
  obtain w' r where rl: "RELEASE_LOCK srv c n w = (w', r)" by fastforce
  show ?thesis
  proof (cases "r = Inr (Some 1)")
    case True
    with rl release_freed show ?thesis by (simp add: release_or_drop_def)
  next
    case False
    then have "release_or_drop srv c n w = invalidate srv c w'"
      using rl by (auto simp: release_or_drop_def split: sum.splits option.splits)
    moreover have "holder w' n = Some c \<or> holder w' n = None" using release_not [OF rl False] assms by auto
    ultimately show ?thesis using invalidate_frees by auto
  qed
qed

lemma release_or_drop_others:
  assumes "holder w m \<noteq> Some c" and "m \<noteq> n"
  shows "holder (release_or_drop srv c n w) m = holder w m"
proof -
  obtain w' r where rl: "RELEASE_LOCK srv c n w = (w', r)" by fastforce
  have m: "holder w' m = holder w m"
    using rl release_freed [of c n w w'] release_not [OF rl] assms(2) by (cases "r = Inr (Some 1)") auto
  then show ?thesis
    using rl assms invalidate_frees
    by (auto simp: release_or_drop_def split: sum.splits option.splits)
qed

text \<open>
  Whatever the body does and raises, the connection does not hold the lock
  afterwards, provided the body leaves the lock to its owner.
\<close>

lemma no_stranded_lock:
  assumes "task_row_lock srv d c scope i t body w = (w', r)" and "lock_name_for scope i = Inr name"
    and "is_mysql_dialect d" and "holder w name \<noteq> Some c"
    and "\<And>acq v v' x. body acq v = (v', x) \<Longrightarrow> holder v' name = Some c \<longleftrightarrow> holder v name = Some c"
  shows "holder w' name \<noteq> Some c"
proof -
  obtain w1 ans where g: "GET_LOCK srv c name t w = (w1, ans)" by fastforce
  show ?thesis
  proof (cases "ans = Inr (Some 1)")
    case True
    obtain w2 x where b: "body True w1 = (w2, x)" by fastforce
    have "holder w1 name = Some c" using get_lock_acquired g True by auto
    then have "holder w2 name = Some c" using assms(5) [OF b] by simp
    moreover have "w' = release_or_drop srv c name w2"
      using assms(1-3) g True b by (simp add: task_row_lock_def)
    ultimately show ?thesis using release_or_drop_frees by simp
  next
    case False
    have h: "holder w1 name \<noteq> Some c" using get_lock_not [OF g False] assms(4) by simp
    show ?thesis
    proof (cases ans)
      case (Inl e)
      then show ?thesis using assms(1-3) g h by (simp add: task_row_lock_def)
    next
      case (Inr a)
      obtain w2 x where b: "body False w1 = (w2, x)" by fastforce
      have "w' = w2" using assms(1-3) g Inr False b by (simp add: task_row_lock_def)
      then show ?thesis using assms(5) [OF b] h by simp
    qed
  qed
qed

text \<open>
  The body runs with \<^verbatim>\<open>True\<close> only while the connection holds the lock, and what it
  returns or raises is what the caller sees.
\<close>

lemma body_runs_locked:
  assumes "task_row_lock srv d c scope i t body w = (w', r)" and "lock_name_for scope i = Inr name"
    and "is_mysql_dialect d"
  shows "(\<exists>e. snd (GET_LOCK srv c name t w) = Inl e \<and> r = Inl e) \<or>
     (\<exists>acq w1 w2. body acq w1 = (w2, r) \<and> (acq \<longrightarrow> holder w1 name = Some c))"
proof -
  obtain w1 ans where g: "GET_LOCK srv c name t w = (w1, ans)" by fastforce
  show ?thesis
  proof (cases ans)
    case (Inr a)
    obtain w2 x where b: "body (a = Some 1) w1 = (w2, x)" by fastforce
    have "x = r" using assms g Inr b by (auto simp: task_row_lock_def)
    moreover have "a = Some 1 \<longrightarrow> holder w1 name = Some c" using get_lock_acquired g Inr by auto
    ultimately show ?thesis using b by blast
  qed (use assms g in \<open>auto simp: task_row_lock_def\<close>)
qed

end

section \<open>A table of holders behind a failing connection\<close>

text \<open>
  MySQL's named locks: \<^verbatim>\<open>GET_LOCK\<close> answers 1 when the name is free or already held by
  the same connection and 0 on a timeout; \<^verbatim>\<open>RELEASE_LOCK\<close> answers 1 for the holder, 0
  for another holder and NULL for a free name. The calls are numbered, and \<^verbatim>\<open>net\<close> says
  of each whether it goes through, fails before the server saw it, or (a release) fails
  after the server carried it out.
\<close>

datatype delivery = Delivered | Request_Lost | Answer_Lost

type_synonym lock_table = "(string \<Rightarrow> int option) \<times> nat"

definition net_get_lock :: "(nat \<Rightarrow> delivery) \<Rightarrow> int \<Rightarrow> string \<Rightarrow> int \<Rightarrow> lock_table \<Rightarrow> lock_table \<times> int option result" where
  "net_get_lock net c n t w =
     (let (held, k) = w in
      if net k \<noteq> Delivered then ((held, k + 1), Inl (OtherError ''GET_LOCK''))
      else if held n = None \<or> held n = Some c then ((held(n := Some c), k + 1), Inr (Some 1))
      else ((held, k + 1), Inr (Some 0)))"

definition net_release_lock :: "(nat \<Rightarrow> delivery) \<Rightarrow> int \<Rightarrow> string \<Rightarrow> lock_table \<Rightarrow> lock_table \<times> int option result" where
  "net_release_lock net c n w =
     (let (held, k) = w;
          freed = (if held n = Some c then held(n := None) else held)
      in (case net k of
            Delivered \<Rightarrow> ((freed, k + 1), Inr (if held n = Some c then Some 1 else if held n = None then None else Some 0))
          | Request_Lost \<Rightarrow> ((held, k + 1), Inl (OtherError ''RELEASE_LOCK''))
          | Answer_Lost \<Rightarrow> ((freed, k + 1), Inl (OtherError ''RELEASE_LOCK''))))"

definition net_invalidate :: "int \<Rightarrow> lock_table \<Rightarrow> lock_table" where
  "net_invalidate c w = ((\<lambda>n. if fst w n = Some c then None else fst w n), snd w)"

definition net_locks :: "(nat \<Rightarrow> delivery) \<Rightarrow> lock_table lock_server" where
  "net_locks net = \<lparr>GET_LOCK = net_get_lock net, RELEASE_LOCK = net_release_lock net, invalidate = net_invalidate\<rparr>"

interpretation net: named_locks "net_locks net" fst for net
  by unfold_locales
    (auto simp: net_locks_def net_get_lock_def net_release_lock_def net_invalidate_def Let_def
      split: if_splits prod.splits delivery.splits)

section \<open>Correctness\<close>

lemma str_of_pos_inject: "0 < i \<Longrightarrow> 0 < j \<Longrightarrow> str_of_int i = str_of_int j \<longleftrightarrow> i = j"
  by (auto simp: str_of_int_def)

text \<open>
  Lock names are injective on scopes without a colon: distinct rows never share
  an advisory lock, and the two invalid arguments raise.
\<close>

theorem lock_name_for_inject:
  assumes "CHR '':'' \<notin> set a" and "CHR '':'' \<notin> set b"
    and "lock_name_for a i = Inr n" and "lock_name_for b j = Inr n"
  shows "a = b \<and> i = j"
proof -
  have pos: "0 < i" "0 < j" and eq: "a @ '':'' @ str_of_int i = b @ '':'' @ str_of_int j"
    using assms(3,4) by (auto simp: lock_name_for_def split: if_splits)
  have "CHR '':'' \<notin> set (str_of_int i)" "CHR '':'' \<notin> set (str_of_int j)"
    using pos by (simp_all add: str_of_int_def digit_not_sep is_digit_def)
  then have "split_on CHR '':'' (a @ '':'' @ str_of_int i) = [a, str_of_int i]"
    "split_on CHR '':'' (b @ '':'' @ str_of_int j) = [b, str_of_int j]"
    using assms(1,2) by simp_all
  with eq pos show ?thesis by (simp add: str_of_pos_inject)
qed

theorem lock_name_for_inject_witness:
  "lock_name_for ''server'' 7 = Inr ''wgm:server:7'' \<and> (''server'' = ''server'' \<and> (7::int) = 7)"
proof -
  have l: "lock_name_for ''server'' 7 = Inr ''wgm:server:7''" by code_simp
  have "''server'' = ''server'' \<and> (7::int) = 7"
    by (rule lock_name_for_inject [OF _ _ l l]) simp_all
  with l show ?thesis by blast
qed

text \<open>
  C13: for every server of named locks that keeps the documented laws
  (\<^verbatim>\<open>named_locks\<close>: only an answer of 1 takes a lock and only a free one, closing a
  connection frees what it holds; a release that raises or does not answer 1 may or may
  not have freed the name): on MySQL, when the connection holds nothing of that name before
  and the body leaves the name to it, the connection does not hold the row lock once the
  context manager is left, whatever the body returns or raises and however the release
  goes. The body was told it is the owner only while the lock was held, and the caller
  sees the body's own result, or the error of \<^verbatim>\<open>GET_LOCK\<close>.
\<close>

theorem task_row_lock_never_stranded:
  assumes "named_locks srv holder"
    and "task_row_lock srv d c scope i t body w = (w', r)"
    and "lock_name_for scope i = Inr name" and "is_mysql_dialect d" and "holder w name \<noteq> Some c"
    and "\<And>acq v v' x. body acq v = (v', x) \<Longrightarrow> holder v' name = Some c \<longleftrightarrow> holder v name = Some c"
  shows "holder w' name \<noteq> Some c \<and>
     ((\<exists>e. snd (GET_LOCK srv c name t w) = Inl e \<and> r = Inl e) \<or>
      (\<exists>acq w1 w2. body acq w1 = (w2, r) \<and> (acq \<longrightarrow> holder w1 name = Some c)))"
  using named_locks.no_stranded_lock [OF assms(1-5)] named_locks.body_runs_locked [OF assms(1-4)] assms(6) by blast

text \<open>
  The body raises and the release fails on the way to the server: the lock is held up to
  the \<^verbatim>\<open>invalidate\<close> and free after it.
\<close>

theorem task_row_lock_never_stranded_witness:
  "\<exists>w' r. task_row_lock (net_locks (\<lambda>k. if k = 1 then Request_Lost else Delivered)) ''mysql'' 4 ''server'' 7 5
     (\<lambda>acq v. (v, (Inl IndexError :: unit result))) (\<lambda>_. None, 0) = (w', r) \<and>
     fst w' ''wgm:server:7'' \<noteq> Some 4"
proof -
  let ?net = "\<lambda>k. if k = 1 then Request_Lost else Delivered"
  let ?body = "\<lambda>acq v. (v, (Inl IndexError :: unit result))"
  obtain w' r where t: "task_row_lock (net_locks ?net) ''mysql'' 4 ''server'' 7 5 ?body (\<lambda>_. None, 0) = (w', r)"
    by fastforce
  have l: "lock_name_for ''server'' 7 = Inr ''wgm:server:7''" by code_simp
  have "is_mysql_dialect ''mysql''" by (simp add: is_mysql_dialect_def)
  from task_row_lock_never_stranded [OF net.named_locks_axioms t l this] t show ?thesis by auto
qed

end
