(* ===== verification/Rate_Limit.thy ===== *)
theory Rate_Limit
  imports Prelude
begin

text \<open>
  \<^verbatim>\<open>ratelimit.py\<close>: fixed-window counters. \<^verbatim>\<open>MemoryLimiter\<close> keeps a dict from key to count
  and reset time; \<^verbatim>\<open>RedisLimiter\<close> runs two pipelines on a client, which is a parameter.
  The contract both backends share is the locale \<^verbatim>\<open>rate_limiter\<close>. Times are
  microseconds of the injected clock.
\<close>

record decision_rl =
  allowed :: bool
  dcount :: int
  retry_after :: int

section \<open>In-process windows\<close>

type_synonym windows = "string \<Rightarrow> (int \<times> int) option"

text \<open>
  \<^verbatim>\<open>int(round(x))\<close> of a number of seconds given in microseconds: to the nearest, ties to
  even.
\<close>

definition round_seconds :: "int \<Rightarrow> int" where
  "round_seconds us =
     (let q = us div 1000000; r = us mod 1000000 in
      if r < 500000 then q else if 500000 < r then q + 1 else if even q then q else q + 1)"

definition retry_after_mem :: "int \<Rightarrow> int \<Rightarrow> int" where
  "retry_after_mem reset_at clock = max 1 (round_seconds (reset_at - clock))"

definition current_mem :: "int \<Rightarrow> string \<Rightarrow> windows \<Rightarrow> windows \<times> (int \<times> int) option" where
  "current_mem clock key w =
     (case w key of
        Some (n, reset) \<Rightarrow> if reset \<le> clock then (w(key := None), None) else (w, Some (n, reset))
      | None \<Rightarrow> (w, None))"

text \<open>The three readings of the clock in one call, in order.\<close>

definition hit_mem ::
  "int \<times> int \<times> int \<Rightarrow> string \<Rightarrow> int \<Rightarrow> int \<Rightarrow> windows \<Rightarrow> windows \<times> decision_rl result" where
  "hit_mem clocks key limit window w =
     (let (c1, c2, c3) = clocks;
          (w1, entry) = current_mem c1 key w;
          (n, reset) = (case entry of None \<Rightarrow> (0, c2 + window * 1000000) | Some x \<Rightarrow> x);
          cnt = n + 1
      in (w1(key := Some (cnt, reset)),
          Inr \<lparr>allowed = (cnt \<le> limit), dcount = cnt, retry_after = retry_after_mem reset c3\<rparr>))"

definition peek_mem ::
  "int \<times> int \<times> int \<Rightarrow> string \<Rightarrow> int \<Rightarrow> int \<Rightarrow> windows \<Rightarrow> windows \<times> decision_rl result" where
  "peek_mem clocks key limit window w =
     (let (c1, c2, c3) = clocks; (w1, entry) = current_mem c1 key w in
      case entry of
        None \<Rightarrow> (w1, Inr \<lparr>allowed = True, dcount = 0, retry_after = 0\<rparr>)
      | Some (n, reset) \<Rightarrow>
          (w1, Inr \<lparr>allowed = (n < limit), dcount = n, retry_after = retry_after_mem reset c3\<rparr>))"

section \<open>Shared windows\<close>

text \<open>
  The client: the transaction \<^verbatim>\<open>INCR; EXPIRE NX; TTL\<close> answers the new count and the time
  to live, the transaction \<^verbatim>\<open>GET; TTL\<close> the stored count, if any, and the time to live.
  A \<^verbatim>\<open>RedisError\<close> is \<^term>\<open>OtherError\<close>.
\<close>

record 'w redis_client =
  incr_expire_ttl :: "string \<Rightarrow> int \<Rightarrow> 'w \<Rightarrow> 'w \<times> (int \<times> int) result"
  get_ttl :: "string \<Rightarrow> 'w \<Rightarrow> 'w \<times> (int option \<times> int) result"

definition KEY_PREFIX :: string where "KEY_PREFIX = ''wgm:rl:''"

definition backend_error :: "exn \<Rightarrow> exn" where
  "backend_error e = (case e of OtherError m \<Rightarrow> RateLimitBackendError m | _ \<Rightarrow> e)"

definition hit_redis ::
  "'w redis_client \<Rightarrow> string \<Rightarrow> int \<Rightarrow> int \<Rightarrow> 'w \<Rightarrow> 'w \<times> decision_rl result" where
  "hit_redis client key limit window w =
     (case incr_expire_ttl client (KEY_PREFIX @ key) window w of
        (w', Inl e) \<Rightarrow> (w', Inl (backend_error e))
      | (w', Inr (cnt, ttl)) \<Rightarrow>
          (w', Inr \<lparr>allowed = (cnt \<le> limit), dcount = cnt,
                    retry_after = (if 0 < ttl then max 1 ttl else window)\<rparr>))"

definition peek_redis ::
  "'w redis_client \<Rightarrow> string \<Rightarrow> int \<Rightarrow> int \<Rightarrow> 'w \<Rightarrow> 'w \<times> decision_rl result" where
  "peek_redis client key limit window w =
     (case get_ttl client (KEY_PREFIX @ key) w of
        (w', Inl e) \<Rightarrow> (w', Inl (backend_error e))
      | (w', Inr (raw, ttl)) \<Rightarrow>
          (let cnt = (case raw of None \<Rightarrow> 0 | Some n \<Rightarrow> n) in
           if cnt = 0 then (w', Inr \<lparr>allowed = True, dcount = 0, retry_after = 0\<rparr>)
           else (w', Inr \<lparr>allowed = (cnt < limit), dcount = cnt,
                          retry_after = (if 0 < ttl then max 1 ttl else window)\<rparr>)))"

section \<open>Selection of the backend\<close>

datatype limiter_choice = Memory_Backend | Redis_Backend string

record limiter_settings =
  enroll_rate_limit_backend :: string
  enroll_rate_limit_redis_url :: "string option"
  celery_broker_url :: string

definition make_limiter :: "limiter_settings \<Rightarrow> limiter_choice result" where
  "make_limiter st =
     (let backend = enroll_rate_limit_backend st in
      if backend = ''memory'' then Inr Memory_Backend
      else if backend = ''redis''
      then Inr (Redis_Backend (case enroll_rate_limit_redis_url st of
             Some u \<Rightarrow> (if u = [] then celery_broker_url st else u) | None \<Rightarrow> celery_broker_url st))
      else Inl (ValueError (''ENROLL_RATE_LIMIT_BACKEND must be 'redis' or 'memory', got '' @ py_repr backend)))"

section \<open>The limiter contract\<close>

text \<open>
  At one instant, \<^verbatim>\<open>live w key\<close> is the count of the open window of \<^verbatim>\<open>key\<close> (0 when there
  is none). A hit counts one event for its key and no other and is allowed while the
  new count is within the limit; a peek counts nothing and is allowed while another
  hit would be.
\<close>

locale rate_limiter =
  fixes hit :: "string \<Rightarrow> int \<Rightarrow> int \<Rightarrow> 'w \<Rightarrow> 'w \<times> decision_rl result"
    and peek :: "string \<Rightarrow> int \<Rightarrow> int \<Rightarrow> 'w \<Rightarrow> 'w \<times> decision_rl result"
    and live :: "'w \<Rightarrow> string \<Rightarrow> int"
    and ok :: "'w \<Rightarrow> bool"
  assumes hit_ok: "ok w \<Longrightarrow> 0 < window \<Longrightarrow> \<exists>w' d. hit key limit window w = (w', Inr d) \<and> ok w' \<and>
      live w' = (live w)(key := live w key + 1) \<and> dcount d = live w key + 1 \<and>
      (allowed d \<longleftrightarrow> live w key + 1 \<le> limit) \<and> 1 \<le> retry_after d"
    and peek_ok: "ok w \<Longrightarrow> 0 < window \<Longrightarrow> \<exists>w' d. peek key limit window w = (w', Inr d) \<and> ok w' \<and>
      live w' = live w \<and> dcount d = live w key \<and>
      (allowed d \<longleftrightarrow> live w key = 0 \<or> live w key < limit)"
    and live_nonneg: "ok w \<Longrightarrow> 0 \<le> live w key"
begin

text \<open>The decisions of \<^verbatim>\<open>n\<close> hits on one key at one instant.\<close>

primrec hits :: "nat \<Rightarrow> string \<Rightarrow> int \<Rightarrow> int \<Rightarrow> 'w \<Rightarrow> 'w \<times> bool list" where
  "hits 0 key limit window w = (w, [])"
| "hits (Suc n) key limit window w =
     (let (w', r) = hit key limit window w; (w'', bs) = hits n key limit window w'
      in (w'', (case r of Inl _ \<Rightarrow> False | Inr d \<Rightarrow> allowed d) # bs))"

lemma hits_spec:
  assumes "ok w" and "0 < window"
  shows "ok (fst (hits n key limit window w)) \<and>
     live (fst (hits n key limit window w)) = (live w)(key := live w key + int n) \<and>
     snd (hits n key limit window w) = map (\<lambda>i. live w key + int i + 1 \<le> limit) [0 ..< n]"
  using assms(1)
proof (induction n arbitrary: w)
  case (Suc n)
  obtain w' d where h: "hit key limit window w = (w', Inr d)" "ok w'"
    "live w' = (live w)(key := live w key + 1)" "allowed d \<longleftrightarrow> live w key + 1 \<le> limit"
    using hit_ok [OF Suc.prems assms(2)] by blast
  have "[0 ..< Suc n] = 0 # map Suc [0 ..< n]" by (simp add: map_Suc_upt upt_conv_Cons del: upt_Suc)
  then show ?case
    using Suc.IH [OF h(2)] h by (simp add: split_beta Let_def comp_def add.assoc fun_eq_iff)
qed simp

text \<open>Exactly the first \<^verbatim>\<open>limit\<close> hits of a fresh window are allowed.\<close>

lemma allowed_hits:
  assumes "ok w" and "0 < window" and "live w key = 0" and "0 \<le> limit"
  shows "length (filter id (snd (hits n key limit window w))) = min n (nat limit)"
proof -
  have "filter id (map (\<lambda>i. int i + 1 \<le> limit) [0 ..< n]) = replicate (min n (nat limit)) True"
  proof (induction n)
    case (Suc n)
    then show ?case
      by (cases "int n + 1 \<le> limit") (auto simp: min_def replicate_append_same nat_le_eq_zle)
  qed simp
  then show ?thesis using hits_spec [OF assms(1,2)] assms(3) by simp
qed

text \<open>A peek after the limit is reached refuses, however often it is asked.\<close>

lemma peek_locked:
  assumes "ok w" and "0 < window" and "0 < limit" and "limit \<le> live w key"
  shows "\<exists>w' d. peek key limit window w = (w', Inr d) \<and> \<not> allowed d \<and> live w' = live w \<and> ok w'"
  using peek_ok [OF assms(1,2), of key limit] assms(3,4) by fastforce

end

section \<open>Both backends satisfy the contract\<close>

definition live_mem :: "int \<Rightarrow> windows \<Rightarrow> string \<Rightarrow> int" where
  "live_mem c w key = (case w key of Some (n, reset) \<Rightarrow> if reset \<le> c then 0 else n | None \<Rightarrow> 0)"

definition ok_mem :: "windows \<Rightarrow> bool" where
  "ok_mem w \<longleftrightarrow> (\<forall>key n reset. w key = Some (n, reset) \<longrightarrow> 1 \<le> n)"

lemma live_mem_nonneg: "ok_mem w \<Longrightarrow> 0 \<le> live_mem c w key"
  by (cases "w key") (force simp: ok_mem_def live_mem_def)+

text \<open>The window a hit at time \<^verbatim>\<open>c\<close> counts in: the open one, or a new one.\<close>

definition window_at :: "int \<Rightarrow> int \<Rightarrow> windows \<Rightarrow> string \<Rightarrow> int \<times> int" where
  "window_at c window w key = (case w key of
       Some (n, reset) \<Rightarrow> if reset \<le> c then (0, c + window * 1000000) else (n, reset)
     | None \<Rightarrow> (0, c + window * 1000000))"

lemma hit_mem_eq:
  "hit_mem (c, c, c) key limit window w =
     (let (n, reset) = window_at c window w key in
      (w(key := Some (n + 1, reset)),
       Inr \<lparr>allowed = (n + 1 \<le> limit), dcount = n + 1, retry_after = retry_after_mem reset c\<rparr>))"
  by (auto simp: hit_mem_def current_mem_def window_at_def Let_def split: option.splits)

lemma window_at_live:
  assumes "window_at c window w key = (n, reset)" and "0 < window"
  shows "n = live_mem c w key" and "c < reset"
  using assms by (auto simp: window_at_def live_mem_def split: option.splits if_splits)

lemma hit_mem_spec:
  assumes "ok_mem w" and "0 < window"
  shows "\<exists>w' d. hit_mem (c, c, c) key limit window w = (w', Inr d) \<and> ok_mem w' \<and>
     live_mem c w' = (live_mem c w)(key := live_mem c w key + 1) \<and> dcount d = live_mem c w key + 1 \<and>
     (allowed d \<longleftrightarrow> live_mem c w key + 1 \<le> limit) \<and> 1 \<le> retry_after d"
proof -
  obtain n reset where nr: "window_at c window w key = (n, reset)" by fastforce
  note L = window_at_live [OF nr assms(2)]
  have "ok_mem (w(key := Some (n + 1, reset)))"
    using assms(1) live_mem_nonneg [OF assms(1), of c key] L(1) by (auto simp: ok_mem_def)
  moreover have "live_mem c (w(key := Some (n + 1, reset))) = (live_mem c w)(key := live_mem c w key + 1)"
    using L by (auto simp: live_mem_def fun_eq_iff)
  ultimately show ?thesis using L(1) by (simp add: hit_mem_eq nr retry_after_mem_def)
qed

lemma peek_mem_spec:
  assumes "ok_mem w"
  shows "\<exists>w' d. peek_mem (c, c, c) key limit window w = (w', Inr d) \<and> ok_mem w' \<and>
     live_mem c w' = live_mem c w \<and> dcount d = live_mem c w key \<and>
     (allowed d \<longleftrightarrow> live_mem c w key = 0 \<or> live_mem c w key < limit)"
proof -
  have drop: "ok_mem (w(key := None))" using assms by (auto simp: ok_mem_def)
  have same: "live_mem c (w(key := None)) = live_mem c w" if "w key = Some (n, r)" "r \<le> c" for n r
    using that by (auto simp: live_mem_def fun_eq_iff)
  consider "w key = None" | n r where "w key = Some (n, r)" "r \<le> c" | n r where "w key = Some (n, r)" "c < r"
    by (metis linorder_not_le option.exhaust surj_pair)
  then show ?thesis
  proof cases
    case (2 n r)
    with drop same show ?thesis by (simp add: peek_mem_def current_mem_def live_mem_def)
  next
    case (3 n r)
    then have "n \<noteq> 0" using assms by (force simp: ok_mem_def)
    with 3 assms show ?thesis by (simp add: peek_mem_def current_mem_def live_mem_def)
  qed (use assms in \<open>simp add: peek_mem_def current_mem_def live_mem_def\<close>)
qed

interpretation mem: rate_limiter "hit_mem (c, c, c)" "peek_mem (c, c, c)" "live_mem c" ok_mem for c
proof unfold_locales
  fix w :: windows and window limit :: int and key :: string
  assume "ok_mem w" and "0 < window"
  then show "\<exists>w' d. hit_mem (c, c, c) key limit window w = (w', Inr d) \<and> ok_mem w' \<and>
     live_mem c w' = (live_mem c w)(key := live_mem c w key + 1) \<and> dcount d = live_mem c w key + 1 \<and>
     allowed d = (live_mem c w key + 1 \<le> limit) \<and> 1 \<le> retry_after d"
    by (rule hit_mem_spec)
qed (auto intro: peek_mem_spec live_mem_nonneg)

text \<open>
  The Redis commands the pipelines send, on a keyspace of counters with an optional
  expiry instant: an expired key is gone, \<^verbatim>\<open>EXPIRE NX\<close> sets an expiry only when there is
  none, \<^verbatim>\<open>TTL\<close> answers whole seconds, -1 without an expiry and -2 without the key.
\<close>

type_synonym keyspace = "string \<Rightarrow> (int \<times> int option) option"

definition live_key :: "int \<Rightarrow> keyspace \<Rightarrow> string \<Rightarrow> (int \<times> int option) option" where
  "live_key c db k = (case db k of
       None \<Rightarrow> None
     | Some (n, None) \<Rightarrow> Some (n, None)
     | Some (n, Some x) \<Rightarrow> if x \<le> c then None else Some (n, Some x))"

definition ttl_of :: "int \<Rightarrow> (int \<times> int option) option \<Rightarrow> int" where
  "ttl_of c entry = (case entry of None \<Rightarrow> -2 | Some (n, None) \<Rightarrow> -1
     | Some (n, Some x) \<Rightarrow> (x - c + 500000) div 1000000)"

definition redis_at :: "int \<Rightarrow> keyspace redis_client" where
  "redis_at c = \<lparr>
     incr_expire_ttl = (\<lambda>k window db.
       let (n, x) = (case live_key c db k of None \<Rightarrow> (0, None) | Some y \<Rightarrow> y);
           entry = (n + 1, Some (case x of None \<Rightarrow> c + window * 1000000 | Some t \<Rightarrow> t))
       in (db(k := Some entry), Inr (n + 1, ttl_of c (Some entry)))),
     get_ttl = (\<lambda>k db. (db, Inr (map_option fst (live_key c db k), ttl_of c (live_key c db k))))\<rparr>"

definition live_redis :: "int \<Rightarrow> keyspace \<Rightarrow> string \<Rightarrow> int" where
  "live_redis c db key = (case live_key c db (KEY_PREFIX @ key) of None \<Rightarrow> 0 | Some (n, _) \<Rightarrow> n)"

definition ok_redis :: "keyspace \<Rightarrow> bool" where
  "ok_redis db \<longleftrightarrow> (\<forall>k n x. db k = Some (n, x) \<longrightarrow> 1 \<le> n)"

lemma live_key_ok: "ok_redis db \<Longrightarrow> live_key c db k = Some (n, x) \<Longrightarrow> 1 \<le> n"
  unfolding ok_redis_def live_key_def by (force split: option.splits if_splits)

lemma live_key_upd:
  "live_key c (db(k := Some (n, Some x))) k' =
     (if k' = k then (if x \<le> c then None else Some (n, Some x)) else live_key c db k')"
  by (simp add: live_key_def)

lemma live_key_future: "live_key c db k = Some (n, Some x) \<Longrightarrow> c < x"
  by (auto simp: live_key_def split: option.splits if_splits)

lemma hit_redis_spec:
  assumes "ok_redis db" and "0 < window"
  shows "\<exists>db' d. hit_redis (redis_at c) key limit window db = (db', Inr d) \<and> ok_redis db' \<and>
     live_redis c db' = (live_redis c db)(key := live_redis c db key + 1) \<and> dcount d = live_redis c db key + 1 \<and>
     (allowed d \<longleftrightarrow> live_redis c db key + 1 \<le> limit) \<and> 1 \<le> retry_after d"
proof -
  let ?k = "KEY_PREFIX @ key"
  obtain n x where nx: "(case live_key c db ?k of None \<Rightarrow> (0, None) | Some y \<Rightarrow> y) = (n, x)" by fastforce
  let ?x = "case x of None \<Rightarrow> c + window * 1000000 | Some t \<Rightarrow> t"
  have n: "0 \<le> n" "n = live_redis c db key"
    using nx live_key_ok [OF assms(1), of c ?k] by (auto simp: live_redis_def split: option.splits prod.splits)
  have fut: "c < ?x"
    using nx live_key_future [of c db ?k] assms(2) by (auto split: option.splits)
  have "ok_redis (db(?k := Some (n + 1, Some ?x)))" using assms(1) n by (auto simp: ok_redis_def)
  moreover have "live_redis c (db(?k := Some (n + 1, Some ?x))) = (live_redis c db)(key := live_redis c db key + 1)"
    using fut n by (auto simp: live_redis_def live_key_upd fun_eq_iff)
  ultimately show ?thesis
    using n assms(2) by (auto simp: hit_redis_def redis_at_def nx Let_def)
qed

lemma peek_redis_spec:
  assumes "ok_redis db"
  shows "\<exists>db' d. peek_redis (redis_at c) key limit window db = (db', Inr d) \<and> ok_redis db' \<and>
     live_redis c db' = live_redis c db \<and> dcount d = live_redis c db key \<and>
     (allowed d \<longleftrightarrow> live_redis c db key = 0 \<or> live_redis c db key < limit)"
  using assms live_key_ok [OF assms, of c "KEY_PREFIX @ key"]
  by (cases "live_key c db (KEY_PREFIX @ key)") (auto simp: peek_redis_def redis_at_def live_redis_def Let_def)

interpretation red: rate_limiter "hit_redis (redis_at c)" "peek_redis (redis_at c)" "live_redis c" ok_redis for c
proof unfold_locales
  fix w :: keyspace and window limit :: int and key :: string
  assume w: "ok_redis w"
  then show "0 \<le> live_redis c w key"
    using live_key_ok [OF w, of c "KEY_PREFIX @ key"] by (force simp: live_redis_def split: option.splits)
qed (auto intro: hit_redis_spec peek_redis_spec)

section \<open>Runs of hits\<close>

text \<open>The decisions of one key's hits at the given times.\<close>

fun run_mem :: "string \<Rightarrow> int \<Rightarrow> int \<Rightarrow> int list \<Rightarrow> windows \<Rightarrow> (int \<times> bool) list" where
  "run_mem key limit window [] w = []"
| "run_mem key limit window (t # ts) w =
     (case hit_mem (t, t, t) key limit window w of
        (w', Inr d) \<Rightarrow> (t, allowed d) # run_mem key limit window ts w'
      | (w', Inl _) \<Rightarrow> [])"

definition allowed_in :: "int \<Rightarrow> int \<Rightarrow> (int \<times> bool) list \<Rightarrow> int" where
  "allowed_in lo hi ds = int (length (filter (\<lambda>(t, b). b \<and> lo \<le> t \<and> t < hi) ds))"

lemma run_mem_Cons:
  "run_mem key limit window (t # ts) w =
     (let (n, r) = window_at t window w key in
      (t, n + 1 \<le> limit) # run_mem key limit window ts (w(key := Some (n + 1, r))))"
  by (simp add: hit_mem_eq Let_def split: prod.splits)

declare run_mem.simps(2) [simp del]

text \<open>
  Inside a window that closes after the interval, and for the last window before it:
  how many more hits can be allowed in the interval that ends at \<^verbatim>\<open>hi\<close>.
\<close>

lemma allowed_open_window:
  assumes "w key = Some (n, r)" and "hi \<le> r" and "sorted ts" and "0 < window"
  shows "allowed_in lo hi (run_mem key limit window ts w) \<le> max 0 (limit - n)"
  using assms(1,3)
proof (induction ts arbitrary: w n)
  case (Cons t ts)
  show ?case
  proof (cases "t < hi")
    case True
    then have "window_at t window w key = (n, r)" using Cons.prems assms(2) by (simp add: window_at_def)
    moreover have "allowed_in lo hi (run_mem key limit window ts (w(key := Some (n + 1, r)))) \<le> max 0 (limit - (n + 1))"
      using Cons.prems by (intro Cons.IH) auto
    ultimately show ?thesis by (auto simp: run_mem_Cons allowed_in_def)
  next
    case False
    then have late: "\<forall>u \<in> set (t # ts). hi \<le> u" using Cons.prems by auto
    have times: "fst ` set (run_mem key limit window us v) \<subseteq> set us" for us v
      by (induction us arbitrary: v) (auto simp: run_mem_Cons split: prod.splits)
    have "filter (\<lambda>(t, b). b \<and> lo \<le> t \<and> t < hi) (run_mem key limit window (t # ts) w) = []"
      using late times [of "t # ts" w] by (fastforce simp: filter_empty_conv)
    then show ?thesis by (simp add: allowed_in_def del: run_mem.simps)
  qed
qed (simp add: allowed_in_def)

lemma allowed_old_window:
  assumes "w key = Some (n, r)" and "r \<le> hi" and "hi = lo + window * 1000000" and "sorted ts" and "0 < window"
    and "0 \<le> limit" and "lo < r"
  shows "allowed_in lo hi (run_mem key limit window ts w) \<le> max 0 (limit - n) + limit"
  using assms(1,4)
proof (induction ts arbitrary: w n)
  case (Cons t ts)
  show ?case
  proof (cases "t < r")
    case True
    then have "window_at t window w key = (n, r)" using Cons.prems by (simp add: window_at_def)
    moreover have "allowed_in lo hi (run_mem key limit window ts (w(key := Some (n + 1, r)))) \<le>
        max 0 (limit - (n + 1)) + limit"
      using Cons.prems by (intro Cons.IH) auto
    ultimately show ?thesis by (auto simp: run_mem_Cons allowed_in_def)
  next
    case False
    let ?r = "t + window * 1000000"
    have new: "window_at t window w key = (0, ?r)" using False Cons.prems by (simp add: window_at_def)
    have "hi \<le> ?r" using False assms(3,7) by simp
    then have "allowed_in lo hi (run_mem key limit window ts (w(key := Some (1, ?r)))) \<le> max 0 (limit - 1)"
      using Cons.prems assms(5) by (intro allowed_open_window [where r = ?r]) auto
    then show ?thesis using assms(6) by (auto simp: run_mem_Cons new allowed_in_def)
  qed
qed (use assms in \<open>simp add: allowed_in_def\<close>)

section \<open>Correctness\<close>

text \<open>
  in any interval as long as the window, the in-process limiter allows at most
  twice the limit, whatever the times of the hits (the module's worst case across a
  window boundary).
\<close>

theorem memory_limiter_interval_bound:
  assumes "sorted ts" and "0 < window" and "0 \<le> limit"
  shows "allowed_in lo (lo + window * 1000000) (run_mem key limit window ts (\<lambda>_. None)) \<le> 2 * limit"
proof -
  let ?hi = "lo + window * 1000000"
  have "allowed_in lo ?hi (run_mem key limit window ts w) \<le> 2 * limit"
    if "w key = None \<or> (\<exists>n r. w key = Some (n, r) \<and> 1 \<le> n \<and> r \<le> ?hi)" for w
    using assms(1) that
  proof (induction ts arbitrary: w)
    case (Cons t ts)
    obtain n r where nr: "window_at t window w key = (n, r)" by fastforce
    let ?w = "w(key := Some (n + 1, r))"
    have n: "0 \<le> n" and tr: "t < r"
      using nr Cons.prems assms(2) by (auto simp: window_at_def split: option.splits if_splits)
    have sorted: "sorted ts" using Cons.prems by simp
    consider (early) "r \<le> ?hi" "r \<le> lo" | (mid) "lo < r" "r \<le> ?hi" | (late) "?hi < r" by linarith
    then show ?case
    proof cases
      case early
      then have "allowed_in lo ?hi (run_mem key limit window ts ?w) \<le> 2 * limit"
        using sorted n by (intro Cons.IH) auto
      then show ?thesis using early tr by (simp add: run_mem_Cons nr allowed_in_def)
    next
      case mid
      then have "allowed_in lo ?hi (run_mem key limit window ts ?w) \<le> max 0 (limit - (n + 1)) + limit"
        using sorted assms by (intro allowed_old_window) auto
      then show ?thesis using n assms(3) by (auto simp: run_mem_Cons nr allowed_in_def)
    next
      case late
      then have "allowed_in lo ?hi (run_mem key limit window ts ?w) \<le> max 0 (limit - (n + 1))"
        using sorted assms by (intro allowed_open_window [where r = r]) auto
      then show ?thesis using n assms(3) by (auto simp: run_mem_Cons nr allowed_in_def)
    qed
  qed (use assms(3) in \<open>simp add: allowed_in_def\<close>)
  from this [of "\<lambda>_. None"] show ?thesis by simp
qed

theorem memory_limiter_interval_bound_witness:
  "allowed_in 0 (0 + 1 * 1000000) (run_mem ''k'' 1 1 [0, 5, 1000000] (\<lambda>_. None)) \<le> 2 * 1"
  by (rule memory_limiter_interval_bound) simp_all

text \<open>
  the two backends are interchangeable: on windows and a keyspace that agree at
  the current instant, a hit and a peek give the same decision and count, and the two
  stores still agree at every later instant.
\<close>

definition agree :: "int \<Rightarrow> windows \<Rightarrow> keyspace \<Rightarrow> bool" where
  "agree c w db \<longleftrightarrow> (\<forall>key.
     (case w key of Some (n, r) \<Rightarrow> if r \<le> c then None else Some (n, Some r) | None \<Rightarrow> None) =
     live_key c db (KEY_PREFIX @ key))"

lemma agree_later: "agree c w db \<Longrightarrow> c \<le> c' \<Longrightarrow> agree c' w db"
proof -
  assume a: "agree c w db" and le: "c \<le> c'"
  have "(case w key of Some (n, r) \<Rightarrow> if r \<le> c' then None else Some (n, Some r) | None \<Rightarrow> None) =
      live_key c' db (KEY_PREFIX @ key)" for key
    using a [unfolded agree_def, rule_format, of key] le
    by (auto simp: live_key_def split: option.splits if_splits prod.splits)
  then show ?thesis by (simp add: agree_def)
qed

lemma agree_window_at:
  assumes "agree c w db"
  shows "window_at c window w key =
     (case live_key c db (KEY_PREFIX @ key) of
        Some (n, Some r) \<Rightarrow> (n, r) | _ \<Rightarrow> (0, c + window * 1000000))"
  using assms [unfolded agree_def, rule_format, of key]
  by (auto simp: window_at_def split: option.splits if_splits prod.splits)

theorem backends_agree:
  assumes "agree c w db" and "0 < window" and "c \<le> c'"
  shows "\<exists>w1 db1 w2 db2 d1 d2 e1 e2.
     hit_mem (c, c, c) key limit window w = (w1, Inr d1) \<and> hit_redis (redis_at c) key limit window db = (db1, Inr d2) \<and>
     allowed d1 = allowed d2 \<and> dcount d1 = dcount d2 \<and> agree c' w1 db1 \<and>
     (ok_mem w \<longrightarrow> peek_mem (c, c, c) key limit window w = (w2, Inr e1) \<and>
        peek_redis (redis_at c) key limit window db = (db2, Inr e2) \<and>
        allowed e1 = allowed e2 \<and> dcount e1 = dcount e2 \<and> agree c' w2 db2)"
proof -
  let ?k = "KEY_PREFIX @ key"
  obtain n r where nr: "window_at c window w key = (n, r)" by fastforce
  have red: "(case live_key c db ?k of None \<Rightarrow> (0, None) | Some y \<Rightarrow> y) = (n, if live_key c db ?k = None then None else Some r)"
    using agree_window_at [OF assms(1), of window key] nr assms(1) [unfolded agree_def, rule_format, of key]
    by (auto split: option.splits if_splits prod.splits)
  have entry: "(case if live_key c db ?k = None then None else Some r of None \<Rightarrow> c + window * 1000000 | Some t \<Rightarrow> t) = r"
    using agree_window_at [OF assms(1), of window key] nr by (cases "live_key c db ?k") simp_all
  have h: "hit_redis (redis_at c) key limit window db = (db(?k := Some (n + 1, Some r)),
      Inr \<lparr>allowed = (n + 1 \<le> limit), dcount = n + 1, retry_after =
        (if 0 < ttl_of c (Some (n + 1, Some r)) then max 1 (ttl_of c (Some (n + 1, Some r))) else window)\<rparr>)"
    by (simp add: hit_redis_def redis_at_def red entry Let_def)
  have ag: "agree c (w(key := Some (n + 1, r))) (db(?k := Some (n + 1, Some r)))"
    using assms(1) by (auto simp: agree_def live_key_upd)
  have p: "\<exists>w2 db2 e1 e2. peek_mem (c, c, c) key limit window w = (w2, Inr e1) \<and>
        peek_redis (redis_at c) key limit window db = (db2, Inr e2) \<and>
        allowed e1 = allowed e2 \<and> dcount e1 = dcount e2 \<and> agree c' w2 db2" if "ok_mem w"
  proof -
    have agk: "(case w key of Some (n, r) \<Rightarrow> if r \<le> c then None else Some (n, Some r) | None \<Rightarrow> None) = live_key c db ?k"
      using assms(1) by (simp add: agree_def)
    have drop: "agree c (w(key := None)) db" if "live_key c db ?k = None"
      using assms(1) that by (simp add: agree_def)
    consider "w key = None" | m x where "w key = Some (m, x)" "x \<le> c" | m x where "w key = Some (m, x)" "c < x"
      by (metis linorder_not_le option.exhaust surj_pair)
    then show ?thesis
    proof cases
      case 1
      with agk agree_later [OF assms(1,3)] show ?thesis
        by (auto simp: peek_mem_def current_mem_def peek_redis_def redis_at_def Let_def)
    next
      case (2 m x)
      with agk have "live_key c db ?k = None" by simp
      with 2 agree_later [OF drop assms(3)] show ?thesis
        by (auto simp: peek_mem_def current_mem_def peek_redis_def redis_at_def Let_def)
    next
      case (3 m x)
      then have "m \<noteq> 0" using that by (force simp: ok_mem_def)
      with 3 agk [symmetric] agree_later [OF assms(1,3)] show ?thesis
        by (auto simp: peek_mem_def current_mem_def peek_redis_def redis_at_def Let_def)
    qed
  qed
  have hm: "hit_mem (c, c, c) key limit window w = (w(key := Some (n + 1, r)),
      Inr \<lparr>allowed = (n + 1 \<le> limit), dcount = n + 1, retry_after = retry_after_mem r c\<rparr>)"
    by (simp add: hit_mem_eq nr)
  show ?thesis
  proof (cases "ok_mem w")
    case True
    then obtain w2 db2 e1 e2 where "peek_mem (c, c, c) key limit window w = (w2, Inr e1) \<and>
        peek_redis (redis_at c) key limit window db = (db2, Inr e2) \<and>
        allowed e1 = allowed e2 \<and> dcount e1 = dcount e2 \<and> agree c' w2 db2" using p by blast
    then show ?thesis unfolding hm h using agree_later [OF ag assms(3)] by fastforce
  next
    case False
    then show ?thesis unfolding hm h using agree_later [OF ag assms(3)] by fastforce
  qed
qed

theorem backends_agree_witness:
  "\<exists>w1 db1 d1 d2. hit_mem (0, 0, 0) ''k'' 1 60 (\<lambda>_. None) = (w1, Inr d1) \<and>
     hit_redis (redis_at 0) ''k'' 1 60 (\<lambda>_. None) = (db1, Inr d2) \<and> allowed d1 = allowed d2"
  using backends_agree [of 0 "\<lambda>_. None" "\<lambda>_. None" 60 0 "''k''" 1]
  by (auto simp: agree_def live_key_def)

end
