(* ===== verification/Wireguard.thy ===== *)
theory Wireguard
  imports Samples
begin

text \<open>
  \<^verbatim>\<open>wireguard.py\<close>: the configuration templates, the command sequences that install them
  over an SSH runner, and the parser of \<^verbatim>\<open>wg show <iface> dump\<close>. A runner maps a remote
  command to the new state of the remote host and the captured output or an
  exception; it is a parameter.
\<close>

section \<open>Templates\<close>

definition nl :: char where "nl = CHR 0x0A"

definition text_lines :: "string list \<Rightarrow> string" where
  "text_lines ls = concat (map (\<lambda>l. l @ [nl]) ls)"

definition privatekey_placeholder :: string where
  "privatekey_placeholder = ''$(cat /etc/wireguard/privatekey)''"

definition server_interface_lines :: "server \<Rightarrow> string list" where
  "server_interface_lines v =
     [''[Interface]'',
      ''Address = '' @ srv_address v,
      ''ListenPort = '' @ str_of_int (srv_endpoint_port v),
      ''PrivateKey = '' @ privatekey_placeholder,
      ''PostUp = iptables -A FORWARD -i '' @ srv_interface v @ '' -j ACCEPT; iptables -A FORWARD -o '' @
        srv_interface v @ '' -j ACCEPT; iptables -t nat -A POSTROUTING -s '' @ srv_subnet v @ '' -o eth0 -j MASQUERADE'',
      ''PostDown = iptables -D FORWARD -i '' @ srv_interface v @ '' -j ACCEPT; iptables -D FORWARD -o '' @
        srv_interface v @ '' -j ACCEPT; iptables -t nat -D POSTROUTING -s '' @ srv_subnet v @ '' -o eth0 -j MASQUERADE'']"

definition server_peer_lines :: "client \<Rightarrow> string list" where
  "server_peer_lines c =
     [[], ''[Peer]'', ''# '' @ cli_name c, ''PublicKey = '' @ cli_public_key c, ''AllowedIPs = '' @ cli_address c]"

definition hub_peer_lines :: "server \<Rightarrow> string list" where
  "hub_peer_lines v =
     [[], ''[Peer]'', ''PublicKey = '' @ srv_public_key v,
      ''Endpoint = '' @ srv_endpoint_host v @ '':'' @ str_of_int (srv_endpoint_port v),
      ''AllowedIPs = '' @ srv_subnet v, ''PersistentKeepalive = 25'']"

definition render_client_config :: "client \<Rightarrow> server \<Rightarrow> string" where
  "render_client_config c v =
     text_lines ([''[Interface]'', ''Address = '' @ cli_address c, ''PrivateKey = '' @ privatekey_placeholder] @
       hub_peer_lines v)"

definition render_manual_client_config :: "client \<Rightarrow> server \<Rightarrow> string \<Rightarrow> string result" where
  "render_manual_client_config c v private_key =
     (if \<not> cli_is_manual c then Inl (ValueError ''render_manual_client_config requires a manual client'')
      else if private_key = [] then Inl (ValueError ''manual client has no stored private key'')
      else Inr (text_lines ([''[Interface]'', ''PrivateKey = '' @ private_key, ''Address = '' @ cli_address c] @
             hub_peer_lines v)))"

definition render_enrolled_client_config :: "client \<Rightarrow> server \<Rightarrow> string" where
  "render_enrolled_client_config c v =
     text_lines ([''[Interface]'', ''Address = '' @ cli_address c,
       ''PostUp = wg set %i private-key /etc/wireguard/privatekey''] @ hub_peer_lines v)"

definition render_server_config :: "server \<Rightarrow> client list \<Rightarrow> string" where
  "render_server_config v cs =
     text_lines (server_interface_lines v) @ concat (map (\<lambda>c. text_lines (server_peer_lines c)) cs)"

section \<open>Remote commands\<close>

text \<open>\<^verbatim>\<open>runner.sudo(cmd, check)\<close> and \<^verbatim>\<open>runner.write_file(path, content, mode, sudo)\<close>.\<close>

datatype remote_cmd = Sudo string bool | WriteFile string string string bool

type_synonym 'h runner = "remote_cmd \<Rightarrow> 'h \<Rightarrow> 'h \<times> string result"

fun run_all :: "'h runner \<Rightarrow> remote_cmd list \<Rightarrow> 'h \<Rightarrow> 'h \<times> unit result" where
  "run_all r [] h = (h, Inr ())"
| "run_all r (c # cs) h = (case r c h of (h', Inl e) \<Rightarrow> (h', Inl e) | (h', Inr _) \<Rightarrow> run_all r cs h')"

text \<open>\<^verbatim>\<open>sh -c '...'\<close> around a script.\<close>

definition sh_c :: "string \<Rightarrow> string" where
  "sh_c script = ''sh -c '' @ [CHR 0x27] @ script @ [CHR 0x27]"

definition install_wireguard_cmds :: "remote_cmd list" where
  "install_wireguard_cmds =
     [Sudo ''apt-get update -y'' True,
      Sudo ''DEBIAN_FRONTEND=noninteractive apt-get install -y wireguard iptables'' True]"

definition ensure_keypair_cmds :: "remote_cmd list" where
  "ensure_keypair_cmds =
     [Sudo ''mkdir -p /etc/wireguard'' True,
      Sudo ''chmod 700 /etc/wireguard'' True,
      Sudo (sh_c ''umask 077; test -s /etc/wireguard/privatekey || wg genkey > /etc/wireguard/privatekey'') True,
      Sudo ''chmod 600 /etc/wireguard/privatekey'' True]"

definition derive_pubkey_cmd :: remote_cmd where
  "derive_pubkey_cmd =
     Sudo (sh_c ''wg pubkey < /etc/wireguard/privatekey | tee /etc/wireguard/publickey'') True"

definition ensure_keypair :: "'h runner \<Rightarrow> 'h \<Rightarrow> 'h \<times> string result" where
  "ensure_keypair r h =
     (case run_all r ensure_keypair_cmds h of
        (h', Inl e) \<Rightarrow> (h', Inl e)
      | (h', Inr _) \<Rightarrow> (case r derive_pubkey_cmd h' of
            (h'', Inl e) \<Rightarrow> (h'', Inl e)
          | (h'', Inr out) \<Rightarrow> (h'', Inr (strip out))))"

definition conf_path :: "string \<Rightarrow> string" where
  "conf_path iface = ''/etc/wireguard/'' @ iface @ ''.conf''"

text \<open>
  The four commands that install a rendered body as \<^verbatim>\<open><iface>.conf\<close>; the private key is
  substituted on the host.
\<close>

definition write_config_cmds :: "string \<Rightarrow> string \<Rightarrow> remote_cmd list" where
  "write_config_cmds conf iface =
     [Sudo (sh_c (''cat > /tmp/wg0.conf.tpl <<'' @ [CHR 0x22] @ ''WGEOF'' @ [CHR 0x22, nl] @ conf @ ''WGEOF'')) True,
      Sudo (sh_c (''PK=$(cat /etc/wireguard/privatekey) && sed '' @ [CHR 0x22] @ ''s|'' @ [CHR 0x5C] @
        ''$(cat /etc/wireguard/privatekey)|$PK|'' @ [CHR 0x22] @ '' /tmp/wg0.conf.tpl > '' @ conf_path iface)) True,
      Sudo (''chmod 600 '' @ conf_path iface) True,
      Sudo ''rm -f /tmp/wg0.conf.tpl'' True]"

definition write_server_config_cmds :: "server \<Rightarrow> client list \<Rightarrow> remote_cmd list" where
  "write_server_config_cmds v cs = write_config_cmds (render_server_config v cs) (srv_interface v)"

definition enable_ip_forwarding_cmds :: "remote_cmd list" where
  "enable_ip_forwarding_cmds =
     [Sudo ''sysctl -w net.ipv4.ip_forward=1'' True,
      WriteFile ''/etc/sysctl.d/99-wg-manager.conf'' (''net.ipv4.ip_forward=1'' @ [nl]) ''644'' True]"

definition restart_interface_cmds :: "string \<Rightarrow> remote_cmd list" where
  "restart_interface_cmds iface =
     [Sudo (''systemctl enable wg-quick@'' @ iface) True,
      Sudo (sh_c (''systemctl restart wg-quick@'' @ iface @ '' || systemctl start wg-quick@'' @ iface)) True]"

definition ensure_interface_down_cmds :: "string \<Rightarrow> remote_cmd list" where
  "ensure_interface_down_cmds iface =
     [Sudo (''systemctl stop wg-quick@'' @ iface) False,
      Sudo (sh_c (''test -f '' @ conf_path iface @ '' && wg-quick down '' @ iface @ '' || true'')) True,
      Sudo (sh_c (''ip link show '' @ iface @ '' >/dev/null 2>&1 && ip link delete '' @ iface @ '' || true'')) True]"

section \<open>Provisioning\<close>

definition provision_node ::
  "'h runner \<Rightarrow> string \<Rightarrow> remote_cmd list \<Rightarrow> 'h \<Rightarrow> 'h \<times> string result" where
  "provision_node r iface cmds h =
     (case run_all r install_wireguard_cmds h of
        (h1, Inl e) \<Rightarrow> (h1, Inl e)
      | (h1, Inr _) \<Rightarrow> (case ensure_keypair r h1 of
            (h2, Inl e) \<Rightarrow> (h2, Inl e)
          | (h2, Inr public_key) \<Rightarrow>
              (case run_all r (ensure_interface_down_cmds iface @ cmds) h2 of
                 (h3, Inl e) \<Rightarrow> (h3, Inl e) | (h3, Inr _) \<Rightarrow> (h3, Inr public_key))))"

definition provision_server :: "'h runner \<Rightarrow> server \<Rightarrow> client list \<Rightarrow> 'h \<Rightarrow> 'h \<times> string result" where
  "provision_server r v cs =
     provision_node r (srv_interface v)
       (write_server_config_cmds v cs @ enable_ip_forwarding_cmds @ restart_interface_cmds (srv_interface v))"

definition reconfigure_server :: "'h runner \<Rightarrow> server \<Rightarrow> client list \<Rightarrow> 'h \<Rightarrow> 'h \<times> unit result" where
  "reconfigure_server r v cs =
     run_all r (write_server_config_cmds v cs @ restart_interface_cmds (srv_interface v))"

definition provision_client :: "'h runner \<Rightarrow> client \<Rightarrow> server \<Rightarrow> 'h \<Rightarrow> 'h \<times> string result" where
  "provision_client r c v =
     provision_node r ''wg0'' (write_config_cmds (render_client_config c v) ''wg0'' @ restart_interface_cmds ''wg0'')"

section \<open>Peer discovery\<close>

record interface_info =
  if_public_key :: string
  if_listen_port :: int
  if_fwmark :: "int option"

record peer_info =
  pi_public_key :: string
  pi_preshared_key :: "string option"
  pi_endpoint :: "string option"
  pi_allowed_ips :: string
  pi_last_handshake_epoch :: int
  pi_rx_bytes :: int
  pi_tx_bytes :: int
  pi_persistent_keepalive :: "int option"

definition nullable :: "string \<Rightarrow> string option" where
  "nullable v = (if v \<in> {''(none)'', ''off'', []} then None else Some v)"

text \<open>\<^verbatim>\<open>s.splitlines()\<close> on ASCII: the line boundaries, with CR LF as one.\<close>

definition is_line_break :: "char \<Rightarrow> bool" where
  "is_line_break c \<longleftrightarrow> (let n = of_char c :: nat in (10 \<le> n \<and> n \<le> 13) \<or> (28 \<le> n \<and> n \<le> 30))"

definition drop_lf :: "string \<Rightarrow> string" where
  "drop_lf cs = (case cs of [] \<Rightarrow> [] | d # ds \<Rightarrow> if d = CHR 0x0A then ds else cs)"

lemma length_drop_lf [termination_simp]: "length (drop_lf cs) \<le> length cs"
  by (simp add: drop_lf_def split: list.splits)

fun splitlines_acc :: "string \<Rightarrow> string \<Rightarrow> string list" where
  "splitlines_acc cur [] = (if cur = [] then [] else [rev cur])"
| "splitlines_acc cur (c # cs) =
     (if c = CHR 0x0D then rev cur # splitlines_acc [] (drop_lf cs)
      else if is_line_break c then rev cur # splitlines_acc [] cs
      else splitlines_acc (c # cur) cs)"

definition splitlines :: "string \<Rightarrow> string list" where
  "splitlines s = splitlines_acc [] s"

text \<open>\<^verbatim>\<open>int(s)\<close> and \<^verbatim>\<open>int(s, 16)\<close>: optional sign, digits with single underscores between them.\<close>

definition parse_digits :: "(char \<Rightarrow> bool) \<Rightarrow> (string \<Rightarrow> nat) \<Rightarrow> string list \<Rightarrow> nat result" where
  "parse_digits ok val parts =
     (if list_all (\<lambda>p. p \<noteq> [] \<and> list_all ok p) parts then Inr (val (concat parts))
      else Inl (ValueError ''invalid literal for int''))"

definition split_sign :: "string \<Rightarrow> bool \<times> string" where
  "split_sign s = (case s of c # cs \<Rightarrow> if c = CHR ''-'' then (True, cs) else if c = CHR ''+'' then (False, cs) else (False, s)
                   | [] \<Rightarrow> (False, []))"

definition int_of_string :: "string \<Rightarrow> int result" where
  "int_of_string s = (let (neg, d) = split_sign (strip s) in
     rbind (parse_digits is_digit digits_to_nat (split_on CHR ''_'' d)) (\<lambda>n.
       Inr (if neg then - int n else int n)))"

definition hex_digit_val :: "char \<Rightarrow> nat option" where
  "hex_digit_val c = (let n = of_char c :: nat in
     if 48 \<le> n \<and> n \<le> 57 then Some (n - 48) else if 97 \<le> n \<and> n \<le> 102 then Some (n - 87)
     else if 65 \<le> n \<and> n \<le> 70 then Some (n - 55) else None)"

definition hex_to_nat :: "string \<Rightarrow> nat" where
  "hex_to_nat s = foldl (\<lambda>n c. 16 * n + (case hex_digit_val c of Some v \<Rightarrow> v | None \<Rightarrow> 0)) 0 s"

text \<open>The argument starts with \<^verbatim>\<open>0x\<close>; an underscore may follow the prefix.\<close>

definition hex_int_of_string :: "string \<Rightarrow> int result" where
  "hex_int_of_string s =
     (let parts = split_on CHR ''_'' (drop 2 (strip s)) in
      rbind (parse_digits (\<lambda>c. hex_digit_val c \<noteq> None) hex_to_nat
               (case parts of [] # q # ps \<Rightarrow> q # ps | _ \<Rightarrow> parts)) (\<lambda>n. Inr (int n)))"

definition parse_fwmark :: "string \<Rightarrow> int option result" where
  "parse_fwmark fwmark =
     (if fwmark = ''off'' then Inr None
      else if startswith fwmark ''0x'' then rbind (hex_int_of_string fwmark) (\<lambda>n. Inr (Some n))
      else rbind (int_of_string fwmark) (\<lambda>n. Inr (Some n)))"

definition digits_or_zero :: "string \<Rightarrow> int" where
  "digits_or_zero s = (if isdigit s then int (digits_to_nat s) else 0)"

definition tab :: char where "tab = CHR 0x09"

definition parse_peer_line :: "string \<Rightarrow> peer_info option" where
  "parse_peer_line line = (case split_on tab line of
       pk # psk # ep # aips # hs # rx # tx # ka # _ \<Rightarrow>
         Some \<lparr>pi_public_key = pk, pi_preshared_key = nullable psk, pi_endpoint = nullable ep,
           pi_allowed_ips = aips, pi_last_handshake_epoch = digits_or_zero hs,
           pi_rx_bytes = digits_or_zero rx, pi_tx_bytes = digits_or_zero tx,
           pi_persistent_keepalive = (if isdigit ka then Some (int (digits_to_nat ka)) else None)\<rparr>
     | _ \<Rightarrow> None)"

definition parse_wg_dump :: "string \<Rightarrow> (interface_info \<times> peer_info list) result" where
  "parse_wg_dump dump =
     (case filter (\<lambda>l. strip l \<noteq> []) (splitlines dump) of
        [] \<Rightarrow> Inl (ValueError ''empty wg dump output'')
      | first # rest \<Rightarrow>
          (case split_on tab first of
             priv # pub # listen_port # fwmark # _ \<Rightarrow>
               rbind (int_of_string listen_port) (\<lambda>port.
               rbind (parse_fwmark fwmark) (\<lambda>mark.
                 Inr (\<lparr>if_public_key = pub, if_listen_port = port, if_fwmark = mark\<rparr>,
                      List.map_filter parse_peer_line rest)))
           | _ \<Rightarrow> Inl (ValueError (''malformed interface line: '' @ py_repr first))))"

definition discover_peers_cmd :: "server \<Rightarrow> remote_cmd" where
  "discover_peers_cmd v = Sudo (''wg show '' @ srv_interface v @ '' dump'') True"

definition discover_peers :: "'h runner \<Rightarrow> server \<Rightarrow> 'h \<Rightarrow> 'h \<times> (interface_info \<times> peer_info list) result" where
  "discover_peers r v h = (case r (discover_peers_cmd v) h of
       (h', Inl e) \<Rightarrow> (h', Inl e) | (h', Inr out) \<Rightarrow> (h', parse_wg_dump out))"

section \<open>Lemmas\<close>

lemma splitlines_acc_line:
  "list_all (\<lambda>c. \<not> is_line_break c) l \<Longrightarrow> splitlines_acc cur (l @ nl # s) = (rev cur @ l) # splitlines_acc [] s"
proof (induction l arbitrary: cur)
  case Nil
  then show ?case by (simp add: nl_def is_line_break_def)
next
  case (Cons c l)
  then have "c \<noteq> CHR 0x0D" by (auto simp: is_line_break_def)
  with Cons show ?case by simp
qed

text \<open>Text built line by line splits back into its lines.\<close>

lemma splitlines_text_lines:
  "list_all (list_all (\<lambda>c. \<not> is_line_break c)) ls \<Longrightarrow> splitlines (text_lines ls) = ls"
proof -
  have "splitlines_acc [] (text_lines ls) = ls" if "list_all (list_all (\<lambda>c. \<not> is_line_break c)) ls"
    using that by (induction ls) (simp_all add: text_lines_def splitlines_acc_line)
  then show "list_all (list_all (\<lambda>c. \<not> is_line_break c)) ls \<Longrightarrow> ?thesis" by (simp add: splitlines_def)
qed

lemma text_lines_append: "text_lines (xs @ ys) = text_lines xs @ text_lines ys"
  by (simp add: text_lines_def)

lemma render_server_config_lines:
  "render_server_config v cs = text_lines (server_interface_lines v @ concat (map server_peer_lines cs))"
  by (induction cs) (simp_all add: render_server_config_def text_lines_append text_lines_def)

text \<open>
  Reading a WireGuard configuration: a line in brackets opens a section, blank lines and
  comments are skipped, and every other line assigns a value to a key of the section it
  stands in. Each \<^verbatim>\<open>[Peer]\<close> section declares one peer.
\<close>

primrec key_value :: "string \<Rightarrow> (string \<times> string) option" where
  "key_value [] = None"
| "key_value (c # cs) =
     (if startswith (c # cs) '' = '' then Some ([], drop 3 (c # cs))
      else map_option (\<lambda>(k, v). (c # k, v)) (key_value cs))"

type_synonym conf_section = "string \<times> (string \<times> string) list"

fun read_sections :: "string \<Rightarrow> (string \<times> string) list \<Rightarrow> string list \<Rightarrow> conf_section list" where
  "read_sections header kvs [] = [(header, kvs)]"
| "read_sections header kvs (l # ls) =
     (if startswith l ''['' then (header, kvs) # read_sections l [] ls
      else if l = [] \<or> startswith l ''#'' then read_sections header kvs ls
      else (case key_value l of
              None \<Rightarrow> read_sections header kvs ls
            | Some kv \<Rightarrow> read_sections header (kvs @ [kv]) ls))"

text \<open>What stands before the first section belongs to none.\<close>

definition conf_sections :: "string \<Rightarrow> conf_section list" where
  "conf_sections conf = tl (read_sections [] [] (splitlines conf))"

definition clean :: "string \<Rightarrow> bool" where
  "clean s \<longleftrightarrow> list_all (\<lambda>c. \<not> is_line_break c) s"

definition clean_server :: "server \<Rightarrow> bool" where
  "clean_server v \<longleftrightarrow> clean (srv_address v) \<and> clean (srv_interface v) \<and> clean (srv_subnet v)"

definition clean_client :: "client \<Rightarrow> bool" where
  "clean_client c \<longleftrightarrow> clean (cli_name c) \<and> clean (cli_public_key c) \<and> clean (cli_address c)"

lemma clean_append [simp]: "clean (a @ b) \<longleftrightarrow> clean a \<and> clean b"
  by (simp add: clean_def)

lemma clean_digits: "clean (str_of_nat n)"
  using str_of_nat_digits [of n] by (auto simp: clean_def list_all_iff is_line_break_def is_digit_def)

lemma clean_int: "clean (str_of_int i)"
  using clean_digits by (auto simp: str_of_int_def) (simp add: clean_def is_line_break_def)

lemma key_value_literal:
  "key_value (''Address = '' @ x) = Some (''Address'', x)"
  "key_value (''ListenPort = '' @ x) = Some (''ListenPort'', x)"
  "key_value (''PrivateKey = '' @ x) = Some (''PrivateKey'', x)"
  "key_value (''PostUp = '' @ x) = Some (''PostUp'', x)"
  "key_value (''PostDown = '' @ x) = Some (''PostDown'', x)"
  "key_value (''PublicKey = '' @ x) = Some (''PublicKey'', x)"
  "key_value (''AllowedIPs = '' @ x) = Some (''AllowedIPs'', x)"
  "key_value (''Endpoint = '' @ x) = Some (''Endpoint'', x)"
  "key_value (''PersistentKeepalive = '' @ x) = Some (''PersistentKeepalive'', x)"
  by (simp_all add: startswith_def)

lemma read_sections_header: "read_sections h kvs ((CHR ''['' # l) # ls) = (h, kvs) # read_sections (CHR ''['' # l) [] ls"
  by (simp add: startswith_def)

lemma read_sections_key:
  assumes "key_value l = Some kv" and "l = c # cs" and "c \<noteq> CHR ''[''" and "c \<noteq> CHR ''#''"
  shows "read_sections h kvs (l # ls) = read_sections h (kvs @ [kv]) ls"
  using assms by (simp add: startswith_def)

lemma read_sections_skip:
  "read_sections h kvs ([] # ls) = read_sections h kvs ls"
  "read_sections h kvs ((CHR ''#'' # l) # ls) = read_sections h kvs ls"
  by (simp_all add: startswith_def)

text \<open>The section a peer's lines declare.\<close>

definition peer_section :: "client \<Rightarrow> conf_section" where
  "peer_section c = (''[Peer]'', [(''PublicKey'', cli_public_key c), (''AllowedIPs'', cli_address c)])"

lemma read_peer:
  "read_sections h kvs (server_peer_lines c @ ls) =
     (h, kvs) # read_sections ''[Peer]'' (snd (peer_section c)) ls"
  using key_value_literal(6) [of "cli_public_key c"] key_value_literal(7) [of "cli_address c"]
  by (simp add: server_peer_lines_def peer_section_def read_sections_header read_sections_skip read_sections_key
      del: read_sections.simps(2) key_value.simps)

lemma read_peers:
  "read_sections h kvs (concat (map server_peer_lines cs)) = (h, kvs) # map peer_section cs"
proof (induction cs arbitrary: h kvs)
  case (Cons c cs)
  then show ?case by (simp add: read_peer) (simp add: peer_section_def)
qed simp

definition hub_rules :: "server \<Rightarrow> string \<Rightarrow> string" where
  "hub_rules v flag = ''iptables '' @ flag @ '' FORWARD -i '' @ srv_interface v @ '' -j ACCEPT; iptables '' @ flag @
     '' FORWARD -o '' @ srv_interface v @ '' -j ACCEPT; iptables -t nat '' @ flag @ '' POSTROUTING -s '' @ srv_subnet v @
     '' -o eth0 -j MASQUERADE''"

definition interface_section :: "server \<Rightarrow> conf_section" where
  "interface_section v = (''[Interface]'',
     [(''Address'', srv_address v), (''ListenPort'', str_of_int (srv_endpoint_port v)),
      (''PrivateKey'', privatekey_placeholder), (''PostUp'', hub_rules v ''-A''), (''PostDown'', hub_rules v ''-D'')])"

lemma server_interface_lines_keys:
  "server_interface_lines v =
     [''[Interface]'', ''Address = '' @ srv_address v, ''ListenPort = '' @ str_of_int (srv_endpoint_port v),
      ''PrivateKey = '' @ privatekey_placeholder, ''PostUp = '' @ hub_rules v ''-A'', ''PostDown = '' @ hub_rules v ''-D'']"
  by (simp add: server_interface_lines_def hub_rules_def)

lemma read_interface:
  "read_sections h kvs (server_interface_lines v @ ls) =
     (h, kvs) # read_sections ''[Interface]'' (snd (interface_section v)) ls"
  using key_value_literal(1) [of "srv_address v"] key_value_literal(2) [of "str_of_int (srv_endpoint_port v)"]
    key_value_literal(3) [of privatekey_placeholder] key_value_literal(4) [of "hub_rules v ''-A''"]
    key_value_literal(5) [of "hub_rules v ''-D''"]
  by (simp add: server_interface_lines_keys interface_section_def read_sections_header read_sections_key
      del: read_sections.simps(2) key_value.simps)

lemma interface_lines_clean:
  assumes "clean_server v"
  shows "list_all clean (server_interface_lines v)"
proof -
  have lit: "clean ''[Interface]''" "clean ''Address = ''" "clean ''ListenPort = ''" "clean ''PrivateKey = ''"
    "clean privatekey_placeholder" "clean ''PostUp = iptables -A FORWARD -i ''"
    "clean '' -j ACCEPT; iptables -A FORWARD -o ''" "clean '' -j ACCEPT; iptables -t nat -A POSTROUTING -s ''"
    "clean '' -o eth0 -j MASQUERADE''" "clean ''PostDown = iptables -D FORWARD -i ''"
    "clean '' -j ACCEPT; iptables -D FORWARD -o ''" "clean '' -j ACCEPT; iptables -t nat -D POSTROUTING -s ''"
    by code_simp+
  show ?thesis
    using assms unfolding server_interface_lines_def clean_server_def
    by (simp only: list.pred_inject clean_append lit clean_int simp_thms)
qed

lemma peer_lines_clean:
  assumes "clean_client c"
  shows "list_all clean (server_peer_lines c)"
proof -
  have lit: "clean []" "clean ''[Peer]''" "clean ''# ''" "clean ''PublicKey = ''" "clean ''AllowedIPs = ''"
    by code_simp+
  show ?thesis
    using assms unfolding server_peer_lines_def clean_client_def
    by (simp only: list.pred_inject clean_append lit simp_thms)
qed

section \<open>Correctness\<close>

text \<open>
  C14: when no field of the hub and of the clients that is written into it holds a line
  break, the configuration written to the hub reads back, section by section, as one
  \<^verbatim>\<open>[Interface]\<close> with the hub's address and port, followed by exactly one \<^verbatim>\<open>[Peer]\<close> per
  client, in order, with its public key and its address.
\<close>

theorem server_config_declares_clients:
  assumes "clean_server v" and "\<And>c. c \<in> set cs \<Longrightarrow> clean_client c"
  shows "conf_sections (render_server_config v cs) =
    (''[Interface]'',
      [(''Address'', srv_address v), (''ListenPort'', str_of_int (srv_endpoint_port v)),
       (''PrivateKey'', privatekey_placeholder), (''PostUp'', hub_rules v ''-A''), (''PostDown'', hub_rules v ''-D'')]) #
    map (\<lambda>c. (''[Peer]'', [(''PublicKey'', cli_public_key c), (''AllowedIPs'', cli_address c)])) cs"
proof -
  have "list_all clean (server_interface_lines v @ concat (map server_peer_lines cs))"
    using interface_lines_clean [OF assms(1)] peer_lines_clean assms(2) by (auto simp: list_all_iff)
  then have "splitlines (render_server_config v cs) = server_interface_lines v @ concat (map server_peer_lines cs)"
    unfolding render_server_config_lines by (intro splitlines_text_lines) (simp add: clean_def list_all_iff)
  then show ?thesis
    unfolding conf_sections_def by (simp only: read_interface read_peers list.sel interface_section_def peer_section_def [abs_def] snd_conv)
qed

theorem server_config_declares_clients_witness:
  "tl (conf_sections (render_server_config sample_hub [sample_client])) =
     [(''[Peer]'', [(''PublicKey'', ''peerkey''), (''AllowedIPs'', ''10.9.0.2/32'')])]"
proof -
  have h: "clean_server sample_hub" by code_simp
  have "clean_client sample_client" by code_simp
  then have "clean_client c" if "c \<in> set [sample_client]" for c using that by simp
  note server_config_declares_clients [of sample_hub "[sample_client]", OF h this]
  then show ?thesis by (simp only: list.sel list.map) (simp add: sample_client_def)
qed

text \<open>A runner that also records the commands it is given.\<close>

definition recording :: "'h runner \<Rightarrow> (remote_cmd list \<times> 'h) runner" where
  "recording r c lh = (let (h', out) = r c (snd lh) in ((fst lh @ [c], h'), out))"

lemma prefix_append: "xs = l @ es \<Longrightarrow> \<exists>rest. xs @ ys = l @ rest"
  by simp

lemma recording_step: "r c h = (h', out) \<Longrightarrow> recording r c (l, h) = ((l @ [c], h'), out)"
  by (simp add: recording_def)

text \<open>The commands of a full provision of a hub, in order.\<close>

definition provision_plan :: "server \<Rightarrow> client list \<Rightarrow> remote_cmd list" where
  "provision_plan v cs =
     install_wireguard_cmds @ ensure_keypair_cmds @ [derive_pubkey_cmd] @ ensure_interface_down_cmds (srv_interface v) @
     write_server_config_cmds v cs @ enable_ip_forwarding_cmds @ restart_interface_cmds (srv_interface v)"

lemma run_all_recording:
  assumes "run_all (recording r) cs (l, h) = ((l', h'), x)"
  shows "\<exists>ds. l' = l @ ds \<and> (case x of Inl _ \<Rightarrow> \<exists>es. cs = ds @ es | Inr _ \<Rightarrow> ds = cs)"
  using assms
proof (induction cs arbitrary: l h)
  case (Cons c cs)
  obtain h1 out where c: "r c h = (h1, out)" by fastforce
  show ?case
  proof (cases out)
    case (Inl e)
    then show ?thesis using Cons.prems recording_step [of r c h h1 out l, OF c] by auto
  next
    case (Inr s)
    then have "run_all (recording r) cs (l @ [c], h1) = ((l', h'), x)" using Cons.prems recording_step [of r c h h1 out l, OF c] by simp
    from Cons.IH [OF this] obtain ds where "l' = (l @ [c]) @ ds"
      "case x of Inl _ \<Rightarrow> \<exists>es. cs = ds @ es | Inr _ \<Rightarrow> ds = cs" by blast
    then show ?thesis by (intro exI [of _ "c # ds"]) (auto split: sum.splits)
  qed
qed (auto split: sum.splits)

text \<open>
  A provision runs the planned commands in order and stops at the first that
  raises: what ran is a prefix of the plan, and it is the whole plan exactly when the
  provision succeeds.
\<close>

theorem provision_server_runs_plan:
  assumes "provision_server (recording r) v cs ([], h) = ((l, h'), x)"
  shows "case x of Inl _ \<Rightarrow> \<exists>rest. provision_plan v cs = l @ rest | Inr _ \<Rightarrow> l = provision_plan v cs"
proof -
  let ?tail = "ensure_interface_down_cmds (srv_interface v) @
    write_server_config_cmds v cs @ enable_ip_forwarding_cmds @ restart_interface_cmds (srv_interface v)"
  obtain l1 h1 x1 where 1: "run_all (recording r) install_wireguard_cmds ([], h) = ((l1, h1), x1)"
    by (metis surj_pair)
  note R1 = run_all_recording [OF 1]
  show ?thesis
  proof (cases x1)
    case (Inl e)
    then have "x = Inl e" "l = l1" using assms 1 by (simp_all add: provision_server_def provision_node_def)
    moreover obtain es where "install_wireguard_cmds = l1 @ es" using R1 Inl by auto
    ultimately show ?thesis using prefix_append by (auto simp: provision_plan_def)
  next
    case (Inr u)
    then have l1: "l1 = install_wireguard_cmds" using R1 by simp
    obtain l2 h2 x2 where 2: "run_all (recording r) ensure_keypair_cmds (l1, h1) = ((l2, h2), x2)" by (metis surj_pair)
    note R2 = run_all_recording [OF 2]
    show ?thesis
    proof (cases x2)
      case (Inl e)
      then have "x = Inl e" "l = l2"
        using assms 1 \<open>x1 = Inr u\<close> 2 by (simp_all add: provision_server_def provision_node_def ensure_keypair_def)
      moreover obtain ds es where "l2 = l1 @ ds" "ensure_keypair_cmds = ds @ es" using R2 Inl by auto
      ultimately show ?thesis using l1 prefix_append by (auto simp: provision_plan_def)
    next
      case (Inr u')
      then have l2: "l2 = install_wireguard_cmds @ ensure_keypair_cmds" using R2 l1 by simp
      obtain h3 x3 where 3: "r derive_pubkey_cmd h2 = (h3, x3)" by fastforce
      show ?thesis
      proof (cases x3)
        case (Inl e)
        then have "x = Inl e" "l = l2 @ [derive_pubkey_cmd]"
          using assms 1 \<open>x1 = Inr u\<close> 2 \<open>x2 = Inr u'\<close> 3
          by (simp_all add: provision_server_def provision_node_def ensure_keypair_def recording_step)
        with l2 show ?thesis by (auto simp: provision_plan_def)
      next
        case (Inr out)
        obtain l4 h4 x4 where 4: "run_all (recording r) ?tail (l2 @ [derive_pubkey_cmd], h3) = ((l4, h4), x4)"
          by (metis surj_pair)
        have "l = l4" "x = (case x4 of Inl e \<Rightarrow> Inl e | Inr _ \<Rightarrow> Inr (strip out))"
          using assms 1 \<open>x1 = Inr u\<close> 2 \<open>x2 = Inr u'\<close> 3 Inr 4
          by (auto simp: provision_server_def provision_node_def ensure_keypair_def recording_step split: sum.splits)
        moreover obtain ds where "l4 = (l2 @ [derive_pubkey_cmd]) @ ds" "case x4 of Inl _ \<Rightarrow> \<exists>es. ?tail = ds @ es | Inr _ \<Rightarrow> ds = ?tail"
          using run_all_recording [OF 4] by blast
        ultimately show ?thesis using l2 by (cases x4) (auto simp: provision_plan_def)
      qed
    qed
  qed
qed

theorem provision_server_runs_plan_witness:
  "\<exists>l h' x. provision_server (recording (\<lambda>c h. (h, Inr []))) sample_hub [] ([], ()) = ((l, h'), x) \<and>
     (case x of Inl _ \<Rightarrow> \<exists>rest. provision_plan sample_hub [] = l @ rest | Inr _ \<Rightarrow> l = provision_plan sample_hub [])"
proof -
  obtain l h' x where p: "provision_server (recording (\<lambda>c h. (h, Inr []))) sample_hub [] ([], ()) = ((l, h'), x)"
    by (metis surj_pair)
  from provision_server_runs_plan [OF p] p show ?thesis by blast
qed

end
