(* ===== verification/Host_Ssh.thy ===== *)
theory Host_Ssh
  imports Wireguard
begin

text \<open>
  \<^verbatim>\<open>host_ssh.py\<close> and the install half of \<^verbatim>\<open>bootstrap_ssh.py\<close>: signing the host key a
  target presents and laying down the CA key, the certificate and the sshd drop-in.
  The SSH CA is a parameter with its two signing operations and its public key.
\<close>

section \<open>The SSH CA\<close>

record host_cert =
  hcert_pem :: string
  hcert_valid_after :: int
  hcert_valid_before :: int
  hcert_serial :: int
  hcert_principals :: "string list"

record user_cert =
  ucert_private_pem :: string
  ucert_pem :: string
  ucert_valid_after :: int
  ucert_valid_before :: int
  ucert_serial :: int
  ucert_principals :: "string list"

record ssh_ca =
  mint_host_cert :: "string \<Rightarrow> string list \<Rightarrow> int \<Rightarrow> host_cert result"
  mint_user_cert :: "string list \<Rightarrow> int \<Rightarrow> user_cert result"
  ca_public_key :: string

section \<open>Installation\<close>

definition HOST_CA_PUB_PATH :: string where "HOST_CA_PUB_PATH = ''/etc/ssh/wg-manager-user-ca.pub''"
definition HOST_CERT_PATH :: string where "HOST_CERT_PATH = ''/etc/ssh/ssh_host_ed25519_key-cert.pub''"
definition SSHD_DROPIN_PATH :: string where "SSHD_DROPIN_PATH = ''/etc/ssh/sshd_config.d/wg-manager.conf''"
definition HOST_PUBKEY_PROBE :: string where "HOST_PUBKEY_PROBE = ''/etc/ssh/ssh_host_ed25519_key.pub''"

definition sshd_dropin :: string where
  "sshd_dropin = text_lines
     [''# Managed by wg-manager (Phase 2c CP3). Do not hand-edit.'',
      ''#'',
      ''# TrustedUserCAKeys tells sshd to accept user certificates signed by'',
      ''# the listed CA(s) as a substitute for entries in authorized_keys.'',
      ''# HostCertificate makes sshd present a CA-signed host certificate'',
      ''# during the SSH handshake so clients using KnownHostsCAPolicy can'',
      ''# verify the host without TOFU.'',
      ''TrustedUserCAKeys '' @ HOST_CA_PUB_PATH,
      ''HostCertificate '' @ HOST_CERT_PATH]"

definition read_host_pubkey :: "'h runner \<Rightarrow> 'h \<Rightarrow> 'h \<times> string result" where
  "read_host_pubkey r h =
     (case r (Sudo (''cat '' @ HOST_PUBKEY_PROBE) True) h of
        (h', Inl e) \<Rightarrow> (h', Inl e)
      | (h', Inr out) \<Rightarrow>
          (h', if strip out = []
               then Inl (HostCertInstallError (''target host has no ed25519 host public key at '' @
                      py_repr HOST_PUBKEY_PROBE @
                      ''; run `ssh-keygen -A` on the host before re-running provisioning''))
               else Inr (strip out)))"

definition reload_sshd_cmd :: remote_cmd where
  "reload_sshd_cmd = Sudo (sh_c (''systemctl reload sshd || systemctl restart sshd '' @
     ''|| systemctl reload ssh || systemctl restart ssh '' @
     ''|| service ssh reload || service ssh restart '' @
     ''|| service sshd reload || service sshd restart '' @
     ''|| kill -HUP $(pidof sshd) || kill -HUP 1'')) True"

definition host_cert_cmds :: "string \<Rightarrow> host_cert \<Rightarrow> remote_cmd list" where
  "host_cert_cmds ca_pub cert =
     [WriteFile HOST_CA_PUB_PATH (ca_pub @ [nl]) ''644'' True,
      WriteFile HOST_CERT_PATH (hcert_pem cert @ [nl]) ''644'' True,
      WriteFile SSHD_DROPIN_PATH sshd_dropin ''644'' True,
      reload_sshd_cmd]"

definition install_host_cert_files ::
  "'h runner \<Rightarrow> ssh_ca \<Rightarrow> string list \<Rightarrow> int \<Rightarrow> 'h \<Rightarrow> 'h \<times> host_cert result" where
  "install_host_cert_files r ca principals ttl h =
     (case read_host_pubkey r h of
        (h1, Inl e) \<Rightarrow> (h1, Inl e)
      | (h1, Inr pub) \<Rightarrow>
          (case mint_host_cert ca pub principals ttl of
             Inl e \<Rightarrow> (h1, Inl e)
           | Inr cert \<Rightarrow>
               (case run_all r (host_cert_cmds (ca_public_key ca) cert) h1 of
                  (h2, Inl e) \<Rightarrow> (h2, Inl e) | (h2, Inr _) \<Rightarrow> (h2, Inr cert))))"

definition install_host_cert ::
  "'h runner \<Rightarrow> string \<Rightarrow> ssh_ca \<Rightarrow> int \<Rightarrow> 'h \<Rightarrow> 'h \<times> host_cert result" where
  "install_host_cert r hostname ca ttl = install_host_cert_files r ca [hostname] ttl"

text \<open>DNS comparison of two names: surrounding space, trailing dots and case are ignored.\<close>

definition dns_norm :: "string \<Rightarrow> string" where
  "dns_norm s = lower (rstrip_if (\<lambda>c. c = CHR ''.'') (strip s))"

definition bootstrap_principals :: "string \<Rightarrow> string \<Rightarrow> string list" where
  "bootstrap_principals hostname alias_name =
     hostname # (if dns_norm alias_name \<noteq> dns_norm hostname then [alias_name] else [])"

definition bootstrap_host ::
  "'h runner \<Rightarrow> string \<Rightarrow> string \<Rightarrow> ssh_ca \<Rightarrow> int \<Rightarrow> 'h \<Rightarrow> 'h \<times> host_cert result" where
  "bootstrap_host r hostname alias_name ca ttl =
     install_host_cert_files r ca (bootstrap_principals hostname alias_name) ttl"

end
