(* ===== verification/Tasks.thy ===== *)
theory Tasks
  imports Host_Ssh Locks Enrollment Samples
begin

text \<open>
  \<^verbatim>\<open>tasks.py\<close>: the Celery tasks. The world a task runs in is the database and the state
  of the remote hosts; the SSH CA, the connections, the crypto backend of the bootstrap
  material and the lock server are parameters collected in one record. A task opens
  its own session; what it commits before an exception stays.
\<close>

section \<open>World and collaborators\<close>

record 'h world =
  db :: state
  remote :: 'h

record dial =
  d_host :: string
  d_port :: int
  d_username :: string
  d_pkey :: string
  d_cert :: string
  d_ca_public_key :: string
  d_accepted :: "string list"

record bootstrap_dial =
  b_host :: string
  b_port :: int
  b_username :: string
  b_key_pem :: string
  b_passphrase :: "string option"

record 'h task_env =
  tenv :: env
  ca_backend :: "ssh_ca result"
  connect :: "dial \<Rightarrow> 'h \<Rightarrow> 'h \<times> 'h runner result"
  bootstrap_connect :: "bootstrap_dial \<Rightarrow> 'h \<Rightarrow> 'h \<times> 'h runner result"
  decrypt_text :: "string \<Rightarrow> string \<Rightarrow> string result"
  lock_srv :: "'h world lock_server"
  dialect_name :: string
  lock_conn :: int
  user_cert_ttl :: int
  host_cert_ttl :: int
  renew_before :: int
  token_retention :: int

text \<open>\<^verbatim>\<open>_SSH_EXPECTED_ERRORS\<close> and \<^verbatim>\<open>str(exc)\<close>.\<close>

fun ssh_expected :: "exn \<Rightarrow> bool" where
  "ssh_expected (SSHConnectionError _) = True"
| "ssh_expected (SSHCommandError _) = True"
| "ssh_expected (SSHCAError _) = True"
| "ssh_expected (HostCertInstallError _) = True"
| "ssh_expected (OSError _) = True"
| "ssh_expected _ = False"

fun exn_str :: "exn \<Rightarrow> string" where
  "exn_str (SSHConnectionError m) = m"
| "exn_str (SSHCommandError m) = m"
| "exn_str (SSHCAError m) = m"
| "exn_str (HostCertInstallError m) = m"
| "exn_str (OSError m) = m"
| "exn_str (ValueError m) = m"
| "exn_str (RuntimeError m) = m"
| "exn_str _ = []"

section \<open>Runners and host certificates\<close>

definition accepted_names :: "string option \<Rightarrow> string list" where
  "accepted_names known = filter (\<lambda>n. n \<noteq> []) (map strip (split_on CHR '','' (case known of None \<Rightarrow> [] | Some k \<Rightarrow> k)))"

definition open_runner ::
  "'h task_env \<Rightarrow> string \<Rightarrow> int \<Rightarrow> string \<Rightarrow> string option \<Rightarrow> 'h \<Rightarrow> 'h \<times> 'h runner result" where
  "open_runner te host port username known h =
     (case ca_backend te of
        Inl e \<Rightarrow> (h, Inl e)
      | Inr ca \<Rightarrow> (case mint_user_cert ca [username] (user_cert_ttl te) of
            Inl e \<Rightarrow> (h, Inl e)
          | Inr uc \<Rightarrow> connect te \<lparr>d_host = host, d_port = port, d_username = username,
              d_pkey = ucert_private_pem uc, d_cert = ucert_pem uc, d_ca_public_key = ca_public_key ca,
              d_accepted = accepted_names known\<rparr> h))"

definition persist_host_cert :: "host_cert \<Rightarrow> string \<Rightarrow> host_cert_cols" where
  "persist_host_cert cert ca_pub =
     \<lparr>hc_pem = Some (hcert_pem cert), hc_serial = Some (hcert_serial cert),
      hc_principals = Some (join_with '','' (hcert_principals cert)),
      hc_valid_after = Some (hcert_valid_after cert), hc_valid_before = Some (hcert_valid_before cert),
      hc_ca_public_key = Some ca_pub\<rparr>"

definition install_host_cert_task ::
  "'h task_env \<Rightarrow> 'h runner \<Rightarrow> string \<Rightarrow> 'h \<Rightarrow> 'h \<times> host_cert_cols result" where
  "install_host_cert_task te r hostname h =
     (case ca_backend te of
        Inl e \<Rightarrow> (h, Inl e)
      | Inr ca \<Rightarrow> (case install_host_cert r hostname ca (host_cert_ttl te) h of
            (h', Inl e) \<Rightarrow> (h', Inl e)
          | (h', Inr cert) \<Rightarrow> (h', Inr (persist_host_cert cert (ca_public_key ca)))))"

definition run_bootstrap_if_supplied ::
  "'h task_env \<Rightarrow> string \<Rightarrow> int \<Rightarrow> string \<Rightarrow> bootstrap_kwargs \<Rightarrow> 'h \<Rightarrow> 'h \<times> unit result" where
  "run_bootstrap_if_supplied te hostname port username kw h =
     (case bootstrap_pem_ciphertext kw of
        None \<Rightarrow> (h, Inr ())
      | Some pem_ct \<Rightarrow>
          (case rbind (or_raise (bootstrap_pem_context kw)
                   (ValueError ''bootstrap_pem_context is required when bootstrap_pem_ciphertext is supplied'')) (\<lambda>ctx.
                rbind (decrypt_text te pem_ct ctx) (\<lambda>pem.
                rbind (case bootstrap_passphrase_ciphertext kw of
                    None \<Rightarrow> Inr None
                  | Some pp_ct \<Rightarrow> rbind (or_raise (bootstrap_passphrase_context kw)
                      (ValueError ''bootstrap_passphrase_context is required when bootstrap_passphrase_ciphertext is supplied''))
                      (\<lambda>pctx. rbind (decrypt_text te pp_ct pctx) (\<lambda>p. Inr (Some p)))) (\<lambda>passphrase.
                rbind (ca_backend te) (\<lambda>ca. Inr (pem, passphrase, ca))))) of
             Inl e \<Rightarrow> (h, Inl e)
           | Inr (pem, passphrase, ca) \<Rightarrow>
               (case bootstrap_connect te \<lparr>b_host = hostname, b_port = port, b_username = username,
                   b_key_pem = pem, b_passphrase = passphrase\<rparr> h of
                  (h1, Inl e) \<Rightarrow> (h1, Inl e)
                | (h1, Inr r) \<Rightarrow> (case bootstrap_host r hostname hostname ca (host_cert_ttl te) h1 of
                      (h2, Inl e) \<Rightarrow> (h2, Inl e) | (h2, Inr _) \<Rightarrow> (h2, Inr ())))))"

definition ready_clients_for :: "state \<Rightarrow> int \<Rightarrow> client list" where
  "ready_clients_for s sid = filter (\<lambda>c. cli_server_id c = sid \<and> cli_status c = Ready) (clients s)"

section \<open>Provisioning a hub\<close>

datatype task_result =
    Skipped int
  | Provisioned_Server int string string nat
  | Rotated int "int option" "int option"
  | Coalesced int int int
  | Applied int int "string list"
  | Provisioned_Client int string string int string

text \<open>A flush writes the changed columns of one row.\<close>

definition modify_server :: "int \<Rightarrow> (server \<Rightarrow> server) \<Rightarrow> state \<Rightarrow> state" where
  "modify_server i f s = s\<lparr>servers := upd_where (\<lambda>x. srv_id x = i) f (servers s)\<rparr>"

definition modify_client :: "int \<Rightarrow> (client \<Rightarrow> client) \<Rightarrow> state \<Rightarrow> state" where
  "modify_client i f s = s\<lparr>clients := upd_where (\<lambda>x. cli_id x = i) f (clients s)\<rparr>"

text \<open>The SSH work of a provision: bootstrap, connect, provision, install the host certificate.\<close>

definition provision_server_ssh ::
  "'h task_env \<Rightarrow> server \<Rightarrow> client list \<Rightarrow> bootstrap_kwargs \<Rightarrow> 'h \<Rightarrow> 'h \<times> (string \<times> host_cert_cols) result" where
  "provision_server_ssh te v cs kw h =
     (case run_bootstrap_if_supplied te (srv_hostname v) (srv_ssh_port v) (srv_ssh_username v) kw h of
        (h1, Inl e) \<Rightarrow> (h1, Inl e)
      | (h1, Inr _) \<Rightarrow>
          (case open_runner te (srv_hostname v) (srv_ssh_port v) (srv_ssh_username v)
                  (hc_principals (srv_host_cert v)) h1 of
             (h2, Inl e) \<Rightarrow> (h2, Inl e)
           | (h2, Inr r) \<Rightarrow>
               (case provision_server r v cs h2 of
                  (h3, Inl e) \<Rightarrow> (h3, Inl e)
                | (h3, Inr pk) \<Rightarrow>
                    (case install_host_cert_task te r (srv_hostname v) h3 of
                       (h4, Inl e) \<Rightarrow> (h4, Inl e) | (h4, Inr hc) \<Rightarrow> (h4, Inr (pk, hc))))))"

definition clean_failure :: "string \<Rightarrow> exn \<Rightarrow> exn" where
  "clean_failure prefix e = (if ssh_expected e then RuntimeError (prefix @ exn_str e) else e)"

definition provision_server_body ::
  "'h task_env \<Rightarrow> int \<Rightarrow> bootstrap_kwargs \<Rightarrow> 'h world \<Rightarrow> 'h world \<times> task_result result" where
  "provision_server_body te sid kw w =
     (case get_row srv_id (servers (db w)) sid of
        None \<Rightarrow> (w, Inl (ValueError (''Server '' @ str_of_int sid @ '' not found'')))
      | Some v \<Rightarrow>
          (case get_row key_id (ssh_keys (db w)) (srv_ssh_key_id v) of
             None \<Rightarrow> (w\<lparr>db := modify_server sid (\<lambda>x. x\<lparr>srv_status := Error\<rparr>) (db w)\<rparr>,
                      Inl (ValueError (''SSH key '' @ str_of_int (srv_ssh_key_id v) @ '' not found'')))
           | Some _ \<Rightarrow>
               (let cs = ready_clients_for (db w) sid in
                case provision_server_ssh te v cs kw (remote w) of
                  (h', Inl e) \<Rightarrow>
                    (w\<lparr>remote := h', db := modify_server sid (\<lambda>x. x\<lparr>srv_status := Error\<rparr>) (db w)\<rparr>,
                     Inl (clean_failure (''server '' @ str_of_int sid @ '' ('' @ srv_hostname v @ '') provisioning failed: '') e))
                | (h', Inr (pk, hc)) \<Rightarrow>
                    (w\<lparr>remote := h', db := modify_server sid (\<lambda>x. x\<lparr>srv_public_key := pk, srv_status := Ready, srv_host_cert := hc\<rparr>) (db w)\<rparr>,
                     Inr (Provisioned_Server sid pk (srv_address v) (length cs))))))"

definition provision_server_task ::
  "'h task_env \<Rightarrow> int \<Rightarrow> bootstrap_kwargs \<Rightarrow> 'h world \<Rightarrow> 'h world \<times> task_result result" where
  "provision_server_task te sid kw w =
     task_row_lock (lock_srv te) (dialect_name te) (lock_conn te) ''server'' sid 5
       (\<lambda>acquired w. if \<not> acquired then (w, Inr (Skipped sid)) else provision_server_body te sid kw w) w"

section \<open>Rotating host certificates\<close>

definition rotate_ssh ::
  "'h task_env \<Rightarrow> string \<Rightarrow> int \<Rightarrow> string \<Rightarrow> string option \<Rightarrow> 'h \<Rightarrow> 'h \<times> host_cert_cols result" where
  "rotate_ssh te host port username known h =
     (case open_runner te host port username known h of
        (h1, Inl e) \<Rightarrow> (h1, Inl e)
      | (h1, Inr r) \<Rightarrow> install_host_cert_task te r host h1)"

definition rotate_host_cert_body :: "'h task_env \<Rightarrow> int \<Rightarrow> 'h world \<Rightarrow> 'h world \<times> task_result result" where
  "rotate_host_cert_body te sid w =
     (case get_row srv_id (servers (db w)) sid of
        None \<Rightarrow> (w, Inl (ValueError (''Server '' @ str_of_int sid @ '' not found'')))
      | Some v \<Rightarrow>
          (case get_row key_id (ssh_keys (db w)) (srv_ssh_key_id v) of
             None \<Rightarrow> (w, Inl (ValueError (''SSH key '' @ str_of_int (srv_ssh_key_id v) @ '' not found'')))
           | Some _ \<Rightarrow>
               (case rotate_ssh te (srv_hostname v) (srv_ssh_port v) (srv_ssh_username v)
                       (hc_principals (srv_host_cert v)) (remote w) of
                  (h', Inl e) \<Rightarrow> (w\<lparr>remote := h'\<rparr>,
                     Inl (clean_failure (''host-cert rotation failed for server '' @ str_of_int sid @ '' ('' @
                       srv_hostname v @ ''): '') e))
                | (h', Inr hc) \<Rightarrow>
                    (w\<lparr>remote := h', db := modify_server sid (\<lambda>x. x\<lparr>srv_host_cert := hc\<rparr>) (db w)\<rparr>,
                     Inr (Rotated sid (hc_serial hc) (hc_valid_before hc))))))"

definition rotate_host_cert_task :: "'h task_env \<Rightarrow> int \<Rightarrow> 'h world \<Rightarrow> 'h world \<times> task_result result" where
  "rotate_host_cert_task te sid w =
     task_row_lock (lock_srv te) (dialect_name te) (lock_conn te) ''server'' sid 5
       (\<lambda>acquired w. if \<not> acquired then (w, Inr (Skipped sid)) else rotate_host_cert_body te sid w) w"

definition rotate_client_host_cert_body :: "'h task_env \<Rightarrow> int \<Rightarrow> 'h world \<Rightarrow> 'h world \<times> task_result result" where
  "rotate_client_host_cert_body te cid w =
     (case get_row cli_id (clients (db w)) cid of
        None \<Rightarrow> (w, Inl (ValueError (''Client '' @ str_of_int cid @ '' not found'')))
      | Some c \<Rightarrow>
          (case (cli_is_manual c, cli_hostname c) of
             (False, Some host) \<Rightarrow>
               (case (cli_ssh_key_id c, cli_ssh_username c) of
                  (Some kid, Some user) \<Rightarrow>
                    (case get_row key_id (ssh_keys (db w)) kid of
                       None \<Rightarrow> (w, Inl (ValueError (''SSH key '' @ str_of_int kid @ '' not found'')))
                     | Some _ \<Rightarrow>
                         (case rotate_ssh te host (cli_ssh_port c) user (hc_principals (cli_host_cert c)) (remote w) of
                            (h', Inl e) \<Rightarrow> (w\<lparr>remote := h'\<rparr>,
                               Inl (clean_failure (''host-cert rotation failed for client '' @ str_of_int cid @ '' ('' @
                                 host @ ''): '') e))
                          | (h', Inr hc) \<Rightarrow>
                              (w\<lparr>remote := h', db := modify_client cid (\<lambda>x. x\<lparr>cli_host_cert := hc\<rparr>) (db w)\<rparr>,
                               Inr (Rotated cid (hc_serial hc) (hc_valid_before hc)))))
                | _ \<Rightarrow> (w, Inl (ValueError (''Client '' @ str_of_int cid @ '' has no SSH credentials''))))
           | _ \<Rightarrow> (w, Inl (ValueError (''Client '' @ str_of_int cid @
                     '' is a manual client; no SSH access to rotate a host cert on'')))))"

definition rotate_client_host_cert_task :: "'h task_env \<Rightarrow> int \<Rightarrow> 'h world \<Rightarrow> 'h world \<times> task_result result" where
  "rotate_client_host_cert_task te cid w =
     task_row_lock (lock_srv te) (dialect_name te) (lock_conn te) ''client'' cid 5
       (\<lambda>acquired w. if \<not> acquired then (w, Inr (Skipped cid)) else rotate_client_host_cert_body te cid w) w"

text \<open>The sweep's selection and its dispatch loop, which isolates broker failures.\<close>

definition expiring :: "int \<Rightarrow> host_cert_cols \<Rightarrow> bool" where
  "expiring cutoff hc \<longleftrightarrow> (case hc_valid_before hc of None \<Rightarrow> True | Some t \<Rightarrow> t < cutoff)"

definition expiring_servers :: "int \<Rightarrow> state \<Rightarrow> int list" where
  "expiring_servers cutoff s =
     map srv_id (filter (\<lambda>v. srv_status v = Ready \<and> expiring cutoff (srv_host_cert v)) (servers s))"

definition expiring_clients :: "int \<Rightarrow> state \<Rightarrow> int list" where
  "expiring_clients cutoff s =
     map cli_id (filter (\<lambda>c. cli_status c = Ready \<and> \<not> cli_is_manual c \<and> expiring cutoff (cli_host_cert c)) (clients s))"

fun dispatch_each ::
  "env \<Rightarrow> (int \<Rightarrow> task_msg) \<Rightarrow> int list \<Rightarrow> state \<Rightarrow> state \<times> int list \<times> (int \<times> exn) list" where
  "dispatch_each e msg [] s = (s, [], [])"
| "dispatch_each e msg (i # is) s =
     (case delay e (msg i) s of
        (s', Inl x) \<Rightarrow> (let (t, ok, bad) = dispatch_each e msg is s' in (t, ok, (i, x) # bad))
      | (s', Inr _) \<Rightarrow> (let (t, ok, bad) = dispatch_each e msg is s' in (t, i # ok, bad)))"

definition rotate_expiring_host_certs_task ::
  "'h task_env \<Rightarrow> state \<Rightarrow> state \<times> int list \<times> int list \<times> (int \<times> exn) list" where
  "rotate_expiring_host_certs_task te s =
     (let cutoff = now (tenv te) + seconds (renew_before te);
          (s1, ok1, bad1) = dispatch_each (tenv te) RotateHostCert (expiring_servers cutoff s) s;
          (s2, ok2, bad2) = dispatch_each (tenv te) RotateClientHostCert (expiring_clients cutoff s) s1
      in (s2, ok1, ok2, bad1 @ bad2))"

section \<open>Reconfiguring a hub\<close>

definition RECONFIGURE_RETRY_SECONDS :: int where "RECONFIGURE_RETRY_SECONDS = 10"

definition request_reconfigure :: "env \<Rightarrow> int \<Rightarrow> (state, string) handler" where
  "request_reconfigure e sid s =
     (case get_row srv_id (servers s) sid of
        None \<Rightarrow> (s, Inl (ValueError (''Server '' @ str_of_int sid @ '' not found'')))
      | Some v \<Rightarrow>
          let s' = s\<lparr>servers := upd_where (\<lambda>x. srv_id x = sid)
                      (\<lambda>x. x\<lparr>srv_requested_gen := srv_requested_gen x + 1\<rparr>) (servers s)\<rparr>
          in delay e (ReconfigureServer sid (srv_requested_gen v + 1)) s')"

text \<open>The guarded update that only moves the applied generation forward.\<close>

definition mark_applied :: "int \<Rightarrow> int \<Rightarrow> state \<Rightarrow> state" where
  "mark_applied sid target s = s\<lparr>servers := upd_where (\<lambda>x. srv_id x = sid \<and> srv_applied_gen x < target)
     (\<lambda>x. x\<lparr>srv_applied_gen := target\<rparr>) (servers s)\<rparr>"

definition reconfigure_ssh :: "'h task_env \<Rightarrow> server \<Rightarrow> client list \<Rightarrow> 'h \<Rightarrow> 'h \<times> unit result" where
  "reconfigure_ssh te v cs h =
     (case open_runner te (srv_hostname v) (srv_ssh_port v) (srv_ssh_username v) (hc_principals (srv_host_cert v)) h of
        (h1, Inl e) \<Rightarrow> (h1, Inl e) | (h1, Inr r) \<Rightarrow> reconfigure_server r v cs h1)"

definition reconfigure_server_body ::
  "'h task_env \<Rightarrow> int \<Rightarrow> int option \<Rightarrow> 'h world \<Rightarrow> 'h world \<times> task_result result" where
  "reconfigure_server_body te sid generation w =
     (case get_row srv_id (servers (db w)) sid of
        None \<Rightarrow> (w, Inl (ValueError (''Server '' @ str_of_int sid @ '' not found'')))
      | Some v \<Rightarrow>
          if (case generation of None \<Rightarrow> False | Some g \<Rightarrow> g \<le> srv_applied_gen v)
          then (w, Inr (Coalesced sid (the generation) (srv_applied_gen v)))
          else (case get_row key_id (ssh_keys (db w)) (srv_ssh_key_id v) of
             None \<Rightarrow> (w, Inl (ValueError (''SSH key '' @ str_of_int (srv_ssh_key_id v) @ '' not found'')))
           | Some _ \<Rightarrow>
               (let target = srv_requested_gen v; cs = ready_clients_for (db w) sid in
                case reconfigure_ssh te v cs (remote w) of
                  (h', Inl e) \<Rightarrow> (w\<lparr>remote := h'\<rparr>,
                     Inl (clean_failure (''server '' @ str_of_int sid @ '' ('' @ srv_hostname v @ '') reconfigure failed: '') e))
                | (h', Inr _) \<Rightarrow>
                    (w\<lparr>remote := h', db := mark_applied sid target (db w)\<rparr>,
                     Inr (Applied sid target (map cli_name cs))))))"

definition reconfigure_server_task ::
  "'h task_env \<Rightarrow> int \<Rightarrow> int option \<Rightarrow> 'h world \<Rightarrow> 'h world \<times> task_result result" where
  "reconfigure_server_task te sid generation w =
     task_row_lock (lock_srv te) (dialect_name te) (lock_conn te) ''server'' sid 5
       (\<lambda>acquired w. if \<not> acquired then (w, Inl (Retry RECONFIGURE_RETRY_SECONDS))
          else reconfigure_server_body te sid generation w) w"

section \<open>Provisioning a client\<close>

definition provision_client_ssh ::
  "'h task_env \<Rightarrow> client \<Rightarrow> string \<Rightarrow> string \<Rightarrow> server \<Rightarrow> bootstrap_kwargs \<Rightarrow> 'h \<Rightarrow> 'h \<times> (string \<times> host_cert_cols) result" where
  "provision_client_ssh te c host user v kw h =
     (case run_bootstrap_if_supplied te host (cli_ssh_port c) user kw h of
        (h1, Inl e) \<Rightarrow> (h1, Inl e)
      | (h1, Inr _) \<Rightarrow>
          (case open_runner te host (cli_ssh_port c) user (hc_principals (cli_host_cert c)) h1 of
             (h2, Inl e) \<Rightarrow> (h2, Inl e)
           | (h2, Inr r) \<Rightarrow>
               (case provision_client r c v h2 of
                  (h3, Inl e) \<Rightarrow> (h3, Inl e)
                | (h3, Inr pk) \<Rightarrow>
                    (case install_host_cert_task te r host h3 of
                       (h4, Inl e) \<Rightarrow> (h4, Inl e) | (h4, Inr hc) \<Rightarrow> (h4, Inr (pk, hc))))))"

text \<open>
  A client with an SSH key but without a host name or user is not created by any
  handler; the attempt to dial it raises and marks the row.
\<close>

definition provision_client_body ::
  "'h task_env \<Rightarrow> int \<Rightarrow> bootstrap_kwargs \<Rightarrow> 'h world \<Rightarrow> 'h world \<times> task_result result" where
  "provision_client_body te cid kw w =
     (let failed = (\<lambda>h' x. (w\<lparr>remote := h', db := modify_client cid (\<lambda>y. y\<lparr>cli_status := Error\<rparr>) (db w)\<rparr>, Inl x)) in
      case get_row cli_id (clients (db w)) cid of
        None \<Rightarrow> (w, Inl (ValueError (''Client '' @ str_of_int cid @ '' not found'')))
      | Some c \<Rightarrow>
          (case get_row srv_id (servers (db w)) (cli_server_id c) of
             None \<Rightarrow> failed (remote w) (ValueError (''Server '' @ str_of_int (cli_server_id c) @ '' not found''))
           | Some v \<Rightarrow>
               (case Option.bind (cli_ssh_key_id c) (get_row key_id (ssh_keys (db w))) of
                  None \<Rightarrow> failed (remote w) (ValueError ''SSH key for client is missing'')
                | Some _ \<Rightarrow>
                    (case (cli_hostname c, cli_ssh_username c) of
                       (Some host, Some user) \<Rightarrow>
                         (case provision_client_ssh te c host user v kw (remote w) of
                            (h', Inl e) \<Rightarrow> failed h' (clean_failure (''client '' @ str_of_int cid @ '' ('' @ host @
                               '') provisioning failed: '') e)
                          | (h', Inr (pk, hc)) \<Rightarrow>
                              (w\<lparr>remote := h', db := modify_client cid (\<lambda>x. x\<lparr>cli_public_key := pk, cli_status := Ready,
                                   cli_host_cert := hc\<rparr>) (db w)\<rparr>,
                               Inr (Provisioned_Client cid (cli_address c) pk (srv_id v) [])))
                     | _ \<Rightarrow> failed (remote w) (OtherError ''no SSH host'')))))"

text \<open>A success dispatches the reconfigure of the hub once the session is closed.\<close>

definition provision_client_task ::
  "'h task_env \<Rightarrow> int \<Rightarrow> bootstrap_kwargs \<Rightarrow> 'h world \<Rightarrow> 'h world \<times> task_result result" where
  "provision_client_task te cid kw w =
     (case task_row_lock (lock_srv te) (dialect_name te) (lock_conn te) ''client'' cid 5
        (\<lambda>acquired w. if \<not> acquired then (w, Inr (Skipped cid)) else provision_client_body te cid kw w) w of
        (w', Inr (Provisioned_Client i addr pk sid _)) \<Rightarrow>
          (case request_reconfigure (tenv te) sid (db w') of
             (s', Inl e) \<Rightarrow> (w'\<lparr>db := s'\<rparr>, Inl e)
           | (s', Inr tid) \<Rightarrow> (w'\<lparr>db := s'\<rparr>, Inr (Provisioned_Client i addr pk sid tid)))
      | r \<Rightarrow> r)"

section \<open>Discovering peers\<close>

datatype discovery =
    Discovered int nat nat nat nat
  | Ssh_Failed int string
  | Discovery_Error int string

definition is_managed_key :: "state \<Rightarrow> int \<Rightarrow> string \<Rightarrow> bool" where
  "is_managed_key s sid k \<longleftrightarrow> k \<noteq> [] \<and> (\<exists>c \<in> set (clients s). cli_server_id c = sid \<and> cli_public_key c = k)"

definition handshake_at :: "peer_info \<Rightarrow> int option" where
  "handshake_at p = (if 0 < pi_last_handshake_epoch p then Some (seconds (pi_last_handshake_epoch p)) else None)"

definition refresh_peer :: "int \<Rightarrow> bool \<Rightarrow> peer_info \<Rightarrow> discovered_peer \<Rightarrow> discovered_peer" where
  "refresh_peer t m p r = r\<lparr>dp_allowed_ips := pi_allowed_ips p, dp_endpoint := pi_endpoint p,
     dp_last_handshake_at := handshake_at p, dp_rx_bytes := pi_rx_bytes p, dp_tx_bytes := pi_tx_bytes p,
     dp_persistent_keepalive := pi_persistent_keepalive p, dp_is_managed := m, dp_last_seen_at := t\<rparr>"

definition new_peer :: "int \<Rightarrow> int \<Rightarrow> int \<Rightarrow> bool \<Rightarrow> peer_info \<Rightarrow> discovered_peer" where
  "new_peer i sid t m p =
     \<lparr>dp_id = i, dp_server_id = sid, dp_public_key = pi_public_key p, dp_allowed_ips = pi_allowed_ips p,
      dp_endpoint = pi_endpoint p, dp_last_handshake_at = handshake_at p, dp_rx_bytes = pi_rx_bytes p,
      dp_tx_bytes = pi_tx_bytes p, dp_persistent_keepalive = pi_persistent_keepalive p, dp_is_managed = m,
      dp_first_seen_at = t, dp_last_seen_at = t\<rparr>"

text \<open>
  One iteration of the upsert loop. The lookup autoflushes, so it also finds a row
  added for an earlier line of the same dump; new rows take consecutive ids.
\<close>

definition upsert_peer ::
  "state \<Rightarrow> int \<Rightarrow> int \<Rightarrow> peer_info \<Rightarrow> discovered_peer list \<times> int \<times> nat \<times> nat \<Rightarrow> discovered_peer list \<times> int \<times> nat \<times> nat" where
  "upsert_peer s sid t p acc =
     (let (rows, i, n, u) = acc; m = is_managed_key s sid (pi_public_key p);
          hit = (\<lambda>r. dp_server_id r = sid \<and> dp_public_key r = pi_public_key p) in
      if \<exists>r \<in> set rows. hit r then (upd_where hit (refresh_peer t m p) rows, i, n, u + 1)
      else (rows @ [new_peer i sid t m p], i + 1, n + 1, u))"

definition prune_stale :: "int \<Rightarrow> string list \<Rightarrow> discovered_peer list \<Rightarrow> discovered_peer list" where
  "prune_stale sid observed rows = filter (\<lambda>r. \<not> (dp_server_id r = sid \<and> dp_public_key r \<notin> set observed)) rows"

definition record_peers :: "env \<Rightarrow> int \<Rightarrow> peer_info list \<Rightarrow> state \<Rightarrow> state \<times> discovery" where
  "record_peers e sid peers s =
     (let (rows, _, n, u) = foldl (\<lambda>acc p. upsert_peer s sid (now e) p acc) (discovered_peers s, new_id e, 0, 0) peers;
          kept = prune_stale sid (map pi_public_key peers) rows
      in (s\<lparr>discovered_peers := kept\<rparr>,
          Discovered sid (length peers) n u (length rows - length kept)))"

definition discover_peers_task :: "'h task_env \<Rightarrow> int \<Rightarrow> 'h world \<Rightarrow> 'h world \<times> discovery result" where
  "discover_peers_task te sid w =
     (case get_row srv_id (servers (db w)) sid of
        None \<Rightarrow> (w, Inl (ValueError (''Server '' @ str_of_int sid @ '' not found'')))
      | Some v \<Rightarrow>
          (case get_row key_id (ssh_keys (db w)) (srv_ssh_key_id v) of
             None \<Rightarrow> (w, Inl (ValueError (''SSH key '' @ str_of_int (srv_ssh_key_id v) @ '' not found'')))
           | Some _ \<Rightarrow>
               (case (case open_runner te (srv_hostname v) (srv_ssh_port v) (srv_ssh_username v)
                         (hc_principals (srv_host_cert v)) (remote w) of
                        (h1, Inl e) \<Rightarrow> (h1, Inl e) | (h1, Inr r) \<Rightarrow> discover_peers r v h1) of
                  (h', Inl e) \<Rightarrow>
                    (w\<lparr>remote := h'\<rparr>,
                     if ssh_expected e
                     then Inr (Ssh_Failed sid (''discovery on server '' @ str_of_int sid @ '' ('' @ srv_hostname v @
                            '') failed: '' @ exn_str e))
                     else Inl e)
                | (h', Inr (_, peers)) \<Rightarrow>
                    (let (s', d) = record_peers (tenv te) sid peers (db w) in (w\<lparr>remote := h', db := s'\<rparr>, Inr d)))))"

fun discover_each :: "'h task_env \<Rightarrow> int list \<Rightarrow> 'h world \<Rightarrow> 'h world \<times> discovery list" where
  "discover_each te [] w = (w, [])"
| "discover_each te (i # is) w =
     (let (w', r) = discover_peers_task te i w; (w'', ds) = discover_each te is w'
      in (w'', (case r of Inr d \<Rightarrow> d | Inl e \<Rightarrow> Discovery_Error i (exn_str e)) # ds))"

definition discovery_ok :: "discovery \<Rightarrow> bool" where
  "discovery_ok d = (case d of Discovered _ _ _ _ _ \<Rightarrow> True | _ \<Rightarrow> False)"

text \<open>Total, successful, failed servers, the peers seen, and the results.\<close>

definition discover_all_peers_task :: "'h task_env \<Rightarrow> 'h world \<Rightarrow> 'h world \<times> (nat \<times> nat \<times> nat \<times> nat \<times> discovery list)" where
  "discover_all_peers_task te w =
     (let ids = filter (\<lambda>i. i \<noteq> 0) (map srv_id (servers (db w)));
          (w', ds) = discover_each te ids w;
          ok = length (filter discovery_ok ds)
      in (w', length ids, ok, length ds - ok,
          sum_list (map (\<lambda>d. case d of Discovered _ n _ _ _ \<Rightarrow> n | _ \<Rightarrow> 0) ds), ds))"

definition sweep_enrollment_tokens_task :: "'h task_env \<Rightarrow> state \<Rightarrow> state \<times> int list" where
  "sweep_enrollment_tokens_task te s = delete_dead_tokens (token_retention te) (now (tenv te)) s"

section \<open>Sample collaborators\<close>

text \<open>A certificate authority that signs everything, and a hub that answers every command.\<close>

definition sample_ca :: ssh_ca where
  "sample_ca = \<lparr>mint_host_cert = (\<lambda>k ps ttl. Inr \<lparr>hcert_pem = ''cert'', hcert_valid_after = 0,
        hcert_valid_before = ttl, hcert_serial = 1, hcert_principals = ps\<rparr>),
     mint_user_cert = (\<lambda>ps ttl. Inr \<lparr>ucert_private_pem = ''key'', ucert_pem = ''cert'',
        ucert_valid_after = 0, ucert_valid_before = ttl, ucert_serial = 1, ucert_principals = ps\<rparr>),
     ca_public_key = ''ca-pub''\<rparr>"

definition sample_dump :: string where
  "sample_dump = join_with [tab] [''priv'', ''hubkey'', ''51820'', ''off''] @ [nl] @
     join_with [tab] [''peerkey'', ''(none)'', ''192.0.2.9:4500'', ''10.9.0.2/32'', ''100'', ''5'', ''6'', ''off''] @ [nl]"

definition sample_answer :: "remote_cmd \<Rightarrow> string" where
  "sample_answer cmd = (if cmd = discover_peers_cmd sample_hub then sample_dump else ''ssh-ed25519 AAAA'')"

definition quiet_env :: "unit task_env" where
  "quiet_env = \<lparr>tenv = sample_env, ca_backend = Inr sample_ca,
     connect = (\<lambda>d h. (h, Inr (\<lambda>cmd h. (h, Inr (sample_answer cmd))))),
     bootstrap_connect = (\<lambda>d h. (h, Inl (SSHConnectionError []))), decrypt_text = (\<lambda>c x. Inl (DecryptError [])),
     lock_srv = \<lparr>GET_LOCK = (\<lambda>c n t w. (w, Inr (Some 1))), RELEASE_LOCK = (\<lambda>c n w. (w, Inr (Some 1))), invalidate = (\<lambda>c w. w)\<rparr>,
     dialect_name = ''sqlite'', lock_conn = 0, user_cert_ttl = 60, host_cert_ttl = 60, renew_before = 60, token_retention = 60\<rparr>"

end
