(* ===== verification/Task_Props.thy ===== *)
theory Task_Props
  imports Tasks
begin

text \<open>
  What the Celery tasks of \<^verbatim>\<open>tasks.py\<close> achieve: peer discovery, the sweep of expiring host
  certificates and the provisioning of a hub.
\<close>

section \<open>Peer discovery\<close>

text \<open>The rows of one server, as a map from public keys.\<close>

definition peer_row :: "int \<Rightarrow> string \<Rightarrow> discovered_peer list \<Rightarrow> discovered_peer option" where
  "peer_row sid k rows = find (\<lambda>r. dp_server_id r = sid \<and> dp_public_key r = k) rows"

definition peer_keys_unique :: "discovered_peer list \<Rightarrow> bool" where
  "peer_keys_unique rows \<longleftrightarrow> distinct (map (\<lambda>r. (dp_server_id r, dp_public_key r)) rows)"

text \<open>What a row says about the peer of a dump line.\<close>

definition describes :: "state \<Rightarrow> int \<Rightarrow> int \<Rightarrow> discovered_peer \<Rightarrow> peer_info \<Rightarrow> bool" where
  "describes s sid t r p \<longleftrightarrow> dp_server_id r = sid \<and> dp_public_key r = pi_public_key p \<and> dp_allowed_ips r = pi_allowed_ips p \<and>
     dp_endpoint r = pi_endpoint p \<and> dp_last_handshake_at r = handshake_at p \<and> dp_rx_bytes r = pi_rx_bytes p \<and>
     dp_tx_bytes r = pi_tx_bytes p \<and> dp_persistent_keepalive r = pi_persistent_keepalive p \<and>
     dp_is_managed r = is_managed_key s sid (pi_public_key p) \<and> dp_last_seen_at r = t"

definition upsert_all :: "state \<Rightarrow> int \<Rightarrow> int \<Rightarrow> peer_info list \<Rightarrow> discovered_peer list \<times> int \<times> nat \<times> nat \<Rightarrow> discovered_peer list \<times> int \<times> nat \<times> nat" where
  "upsert_all s sid t peers acc = foldl (\<lambda>acc p. upsert_peer s sid t p acc) acc peers"

lemma upsert_all_Cons: "upsert_all s sid t (p # ps) acc = upsert_all s sid t ps (upsert_peer s sid t p acc)"
  by (simp add: upsert_all_def)

lemma upsert_peer_rows:
  assumes "upsert_peer s sid t p (rows, i, n, u) = (rows', i', n', u')"
  shows "peer_keys_unique rows \<Longrightarrow> peer_keys_unique rows'"
    and "\<exists>r \<in> set rows'. describes s sid t r p"
    and "r \<in> set rows' \<Longrightarrow> dp_server_id r = sid \<and> dp_public_key r = pi_public_key p \<Longrightarrow> describes s sid t r p"
    and "\<not> (dp_server_id r = sid \<and> dp_public_key r = pi_public_key p) \<Longrightarrow> r \<in> set rows' \<longleftrightarrow> r \<in> set rows"
    and "n' + u' = n + u + 1" and "length rows' + n = length rows + n'"
proof -
  let ?hit = "\<lambda>r. dp_server_id r = sid \<and> dp_public_key r = pi_public_key p"
  let ?m = "is_managed_key s sid (pi_public_key p)"
  consider (upd) "\<exists>r \<in> set rows. ?hit r" "rows' = upd_where ?hit (refresh_peer t ?m p) rows" "n' = n" "u' = u + 1"
    | (new) "\<forall>r \<in> set rows. \<not> ?hit r" "rows' = rows @ [new_peer i sid t ?m p]" "n' = n + 1" "u' = u"
    using assms by (auto simp: upsert_peer_def Let_def split: if_splits)
  note c = this
  have k: "(\<lambda>r. (dp_server_id r, dp_public_key r)) (refresh_peer t ?m p x) = (\<lambda>r. (dp_server_id r, dp_public_key r)) x" for x
    by (simp add: refresh_peer_def)
  show "peer_keys_unique rows \<Longrightarrow> peer_keys_unique rows'"
    by (cases rule: c) (auto simp: peer_keys_unique_def map_upd_where [where g = "\<lambda>r. (dp_server_id r, dp_public_key r)", OF k] new_peer_def)
  show "\<exists>r \<in> set rows'. describes s sid t r p"
  proof (cases rule: c)
    case upd
    then obtain r where "r \<in> set rows" "?hit r" by blast
    then have "refresh_peer t ?m p r \<in> set rows'" unfolding upd(2) set_upd_where by (intro bexI [of _ r]) auto
    then show ?thesis using \<open>?hit r\<close> by (intro bexI) (auto simp: describes_def refresh_peer_def)
  qed (auto simp: describes_def new_peer_def)
  show "describes s sid t r p" if rin: "r \<in> set rows'" and rhit: "?hit r"
  proof (cases rule: c)
    case upd
    obtain y where "r = (if ?hit y then refresh_peer t ?m p y else y)"
      using rin unfolding upd(2) set_upd_where by blast
    then show ?thesis using rhit by (cases "?hit y") (simp_all add: describes_def refresh_peer_def)
  next
    case new
    then have "r = new_peer i sid t ?m p" using rin rhit by auto
    then show ?thesis by (simp only:) (simp add: describes_def new_peer_def)
  qed
  show "r \<in> set rows' \<longleftrightarrow> r \<in> set rows" if nh: "\<not> ?hit r"
  proof (cases rule: c)
    case upd
    have "(if ?hit r then refresh_peer t ?m p r else r) = r" using nh by auto
    moreover have "?hit (refresh_peer t ?m p y)" if "?hit y" for y using that by (simp add: refresh_peer_def)
    ultimately show ?thesis using nh unfolding upd(2) set_upd_where by (metis (no_types, lifting))
  qed (use nh in \<open>auto simp: new_peer_def\<close>)
  show "n' + u' = n + u + 1" "length rows' + n = length rows + n'"
    by (cases rule: c; simp add: upd_where_def)+
qed

lemma upsert_all_rows:
  assumes "upsert_all s sid t peers (rows, i, n, u) = (rows', i', n', u')" and "peer_keys_unique rows"
  shows "peer_keys_unique rows' \<and> n' + u' = n + u + length peers \<and> length rows' + n = length rows + n' \<and>
    (\<forall>r \<in> set rows'. dp_server_id r = sid \<and> dp_public_key r \<in> pi_public_key ` set peers \<longrightarrow>
       (\<exists>p \<in> set peers. describes s sid t r p)) \<and>
    (\<forall>p \<in> set peers. \<exists>r \<in> set rows'. dp_server_id r = sid \<and> dp_public_key r = pi_public_key p) \<and>
    (\<forall>r. \<not> (dp_server_id r = sid \<and> dp_public_key r \<in> pi_public_key ` set peers) \<longrightarrow> r \<in> set rows' \<longleftrightarrow> r \<in> set rows)"
  using assms
proof (induction peers arbitrary: rows i n u)
  case Nil
  then show ?case by (simp add: upsert_all_def)
next
  case (Cons p ps)
  obtain rows1 i1 n1 u1 where o: "upsert_peer s sid t p (rows, i, n, u) = (rows1, i1, n1, u1)" by (metis prod_cases4)
  note R = upsert_peer_rows [OF o]
  have IH: "peer_keys_unique rows' \<and> n' + u' = n1 + u1 + length ps \<and> length rows' + n1 = length rows1 + n' \<and>
    (\<forall>r \<in> set rows'. dp_server_id r = sid \<and> dp_public_key r \<in> pi_public_key ` set ps \<longrightarrow>
       (\<exists>p \<in> set ps. describes s sid t r p)) \<and>
    (\<forall>p \<in> set ps. \<exists>r \<in> set rows'. dp_server_id r = sid \<and> dp_public_key r = pi_public_key p) \<and>
    (\<forall>r. \<not> (dp_server_id r = sid \<and> dp_public_key r \<in> pi_public_key ` set ps) \<longrightarrow> r \<in> set rows' \<longleftrightarrow> r \<in> set rows1)"
    using Cons.prems o R(1) by (intro Cons.IH) (auto simp: upsert_all_Cons)
  have here: "\<exists>r \<in> set rows'. dp_server_id r = sid \<and> dp_public_key r = pi_public_key p"
  proof (cases "pi_public_key p \<in> pi_public_key ` set ps")
    case True
    then show ?thesis using IH by auto
  next
    case False
    obtain r where "r \<in> set rows1" "dp_server_id r = sid" "dp_public_key r = pi_public_key p"
      using R(2) by (auto simp: describes_def)
    then show ?thesis using IH False by (intro bexI [of _ r]) auto
  qed
  have desc: "\<exists>q \<in> set (p # ps). describes s sid t r q"
    if "r \<in> set rows'" "dp_server_id r = sid" "dp_public_key r \<in> pi_public_key ` set (p # ps)" for r
  proof (cases "dp_public_key r \<in> pi_public_key ` set ps")
    case True
    then show ?thesis using IH that by auto
  next
    case False
    then have "r \<in> set rows1" "dp_public_key r = pi_public_key p" using IH that by auto
    then show ?thesis using R(3) that by auto
  qed
  have keep: "r \<in> set rows' \<longleftrightarrow> r \<in> set rows"
    if "\<not> (dp_server_id r = sid \<and> dp_public_key r \<in> pi_public_key ` set (p # ps))" for r
    using that IH R(4) by auto
  show ?case using IH here desc keep R(5,6) by auto
qed

lemma record_peers_spec:
  assumes "peer_keys_unique (discovered_peers s)" and "record_peers e sid peers s = (s', d)"
  shows "s' = s\<lparr>discovered_peers := discovered_peers s'\<rparr> \<and> peer_keys_unique (discovered_peers s') \<and>
     {dp_public_key r | r. r \<in> set (discovered_peers s') \<and> dp_server_id r = sid} = pi_public_key ` set peers \<and>
     (\<forall>r \<in> set (discovered_peers s'). dp_server_id r = sid \<longrightarrow> (\<exists>p \<in> set peers. describes s sid (now e) r p)) \<and>
     (\<forall>r. dp_server_id r \<noteq> sid \<longrightarrow> r \<in> set (discovered_peers s') \<longleftrightarrow> r \<in> set (discovered_peers s)) \<and>
     (\<exists>n u k. d = Discovered sid (length peers) n u k \<and> n + u = length peers \<and>
        length (discovered_peers s') + k = length (discovered_peers s) + n)"
proof -
  obtain rows i n u where o: "upsert_all s sid (now e) peers (discovered_peers s, new_id e, 0, 0) = (rows, i, n, u)"
    by (metis prod_cases4)
  let ?kept = "prune_stale sid (map pi_public_key peers) rows"
  have r: "s' = s\<lparr>discovered_peers := ?kept\<rparr>" "d = Discovered sid (length peers) n u (length rows - length ?kept)"
    using assms(2) o by (auto simp: record_peers_def upsert_all_def Let_def)
  note U = upsert_all_rows [OF o assms(1)]
  have kept: "x \<in> set ?kept \<longleftrightarrow> x \<in> set rows \<and> (dp_server_id x = sid \<longrightarrow> dp_public_key x \<in> pi_public_key ` set peers)" for x
    by (auto simp: prune_stale_def)
  have "peer_keys_unique ?kept" using U by (simp add: prune_stale_def peer_keys_unique_def distinct_map_filter)
  moreover have "{dp_public_key r | r. r \<in> set ?kept \<and> dp_server_id r = sid} = pi_public_key ` set peers"
  proof (intro equalityI subsetI)
    fix k assume "k \<in> pi_public_key ` set peers"
    then obtain p where p: "p \<in> set peers" "k = pi_public_key p" by blast
    then obtain x where "x \<in> set rows" "dp_server_id x = sid" "dp_public_key x = pi_public_key p" using U by blast
    moreover from this have "x \<in> set ?kept" using p kept by simp
    ultimately show "k \<in> {dp_public_key r | r. r \<in> set ?kept \<and> dp_server_id r = sid}" using p by force
  qed (use kept in auto)
  moreover have "\<forall>r \<in> set ?kept. dp_server_id r = sid \<longrightarrow> (\<exists>p \<in> set peers. describes s sid (now e) r p)"
    using U kept by blast
  moreover have "\<forall>r. dp_server_id r \<noteq> sid \<longrightarrow> r \<in> set ?kept \<longleftrightarrow> r \<in> set (discovered_peers s)"
    using U kept by blast
  moreover have "length ?kept \<le> length rows" by (simp add: prune_stale_def)
  ultimately show ?thesis using r U by simp
qed

section \<open>What a dump says\<close>

text \<open>
  \<^verbatim>\<open>wg show <interface> dump\<close> prints the interface on its first line and one peer per
  further line, in tab separated columns; lines with fewer than eight columns and blank
  lines say nothing about a peer.
\<close>

definition peer_columns :: "string \<Rightarrow> string list list" where
  "peer_columns out = filter (\<lambda>f. 8 \<le> length f) (map (split_on tab) (tl (filter (\<lambda>l. strip l \<noteq> []) (splitlines out))))"

text \<open>What a row stores of the columns of a peer line.\<close>

definition stores_columns :: "state \<Rightarrow> int \<Rightarrow> int \<Rightarrow> discovered_peer \<Rightarrow> string list \<Rightarrow> bool" where
  "stores_columns s sid t r f \<longleftrightarrow> dp_server_id r = sid \<and> dp_last_seen_at r = t \<and>
     dp_public_key r = f ! 0 \<and> dp_endpoint r = nullable (f ! 2) \<and> dp_allowed_ips r = f ! 3 \<and>
     dp_last_handshake_at r = (if digits_or_zero (f ! 4) = 0 then None else Some (seconds (digits_or_zero (f ! 4)))) \<and>
     dp_rx_bytes r = digits_or_zero (f ! 5) \<and> dp_tx_bytes r = digits_or_zero (f ! 6) \<and>
     dp_persistent_keepalive r = (if isdigit (f ! 7) then Some (int (digits_to_nat (f ! 7))) else None) \<and>
     (dp_is_managed r \<longleftrightarrow> f ! 0 \<noteq> [] \<and> (\<exists>c \<in> set (clients s). cli_server_id c = sid \<and> cli_public_key c = f ! 0))"

definition peer_of_columns :: "string list \<Rightarrow> peer_info" where
  "peer_of_columns f = \<lparr>pi_public_key = f ! 0, pi_preshared_key = nullable (f ! 1), pi_endpoint = nullable (f ! 2),
     pi_allowed_ips = f ! 3, pi_last_handshake_epoch = digits_or_zero (f ! 4), pi_rx_bytes = digits_or_zero (f ! 5),
     pi_tx_bytes = digits_or_zero (f ! 6),
     pi_persistent_keepalive = (if isdigit (f ! 7) then Some (int (digits_to_nat (f ! 7))) else None)\<rparr>"

lemma parse_peer_line_columns:
  "parse_peer_line l = (if 8 \<le> length (split_on tab l) then Some (peer_of_columns (split_on tab l)) else None)"
  by (auto simp: parse_peer_line_def peer_of_columns_def eval_nat_numeral split: list.splits)

lemma parse_wg_dump_peers:
  assumes "parse_wg_dump out = Inr (iface, peers)"
  shows "peers = map peer_of_columns (peer_columns out)"
proof -
  obtain l ls where ls: "filter (\<lambda>l. strip l \<noteq> []) (splitlines out) = l # ls" "peers = List.map_filter parse_peer_line ls"
    using assms by (auto simp: parse_wg_dump_def result_simps split: list.splits)
  have "List.map_filter parse_peer_line ls = map peer_of_columns (filter (\<lambda>f. 8 \<le> length f) (map (split_on tab) ls))" for ls
    by (induction ls) (simp_all add: map_filter_simps parse_peer_line_columns)
  then show ?thesis using ls by (simp add: peer_columns_def)
qed

lemma describes_columns: "describes s sid t r (peer_of_columns f) \<longleftrightarrow> stores_columns s sid t r f"
proof -
  have "0 \<le> digits_or_zero z" for z by (simp add: digits_or_zero_def)
  then have "0 < digits_or_zero z \<longleftrightarrow> digits_or_zero z \<noteq> 0" for z by (simp add: less_le)
  then show ?thesis
    by (auto simp: describes_def stores_columns_def peer_of_columns_def handshake_at_def is_managed_key_def)
qed

section \<open>Correctness\<close>

text \<open>
  C11: when the stored keys of every server are distinct, a discovery that succeeds has
  opened a session to the stored host of the server, and makes the output of
  \<^verbatim>\<open>wg show <interface> dump\<close> on it authoritative: afterwards the keys of the server's rows are
  exactly the keys in the peer lines of that output, one row per key; every row stores the
  columns of such a line, the observation time and whether a client of the server has
  that key; the counts in the result agree, and rows of other servers and every other
  table stay. An SSH failure is reported without touching the database, and any other
  exception too.
\<close>

theorem discovery_is_authoritative:
  assumes "discover_peers_task te sid w = (w', r)" and "peer_keys_unique (discovered_peers (db w))"
  shows "case r of
      Inl _ \<Rightarrow> db w' = db w
    | Inr (Ssh_Failed i _) \<Rightarrow> i = sid \<and> db w' = db w
    | Inr (Discovery_Error _ _) \<Rightarrow> False
    | Inr (Discovered i cnt n u k) \<Rightarrow> i = sid \<and> n + u = cnt \<and>
        length (discovered_peers (db w')) + k = length (discovered_peers (db w)) + n \<and>
        db w' = (db w)\<lparr>discovered_peers := discovered_peers (db w')\<rparr> \<and> peer_keys_unique (discovered_peers (db w')) \<and>
        (\<exists>v h1 run out. get_row srv_id (servers (db w)) sid = Some v \<and>
          open_runner te (srv_hostname v) (srv_ssh_port v) (srv_ssh_username v)
            (hc_principals (srv_host_cert v)) (remote w) = (h1, Inr run) \<and>
          run (Sudo (''wg show '' @ srv_interface v @ '' dump'') True) h1 = (remote w', Inr out) \<and>
          cnt = length (peer_columns out) \<and>
          {dp_public_key r | r. r \<in> set (discovered_peers (db w')) \<and> dp_server_id r = sid} = (\<lambda>f. f ! 0) ` set (peer_columns out) \<and>
          (\<forall>r \<in> set (discovered_peers (db w')). dp_server_id r = sid \<longrightarrow>
             (\<exists>f \<in> set (peer_columns out). stores_columns (db w) sid (now (tenv te)) r f)) \<and>
          (\<forall>r. dp_server_id r \<noteq> sid \<longrightarrow> r \<in> set (discovered_peers (db w')) \<longleftrightarrow> r \<in> set (discovered_peers (db w))))"
proof (cases "get_row srv_id (servers (db w)) sid")
  case None
  then show ?thesis using assms(1) by (auto simp: discover_peers_task_def)
next
  case (Some v)
  let ?ssh = "case open_runner te (srv_hostname v) (srv_ssh_port v) (srv_ssh_username v) (hc_principals (srv_host_cert v)) (remote w) of
      (h1, Inl e) \<Rightarrow> (h1, Inl e) | (h1, Inr run) \<Rightarrow> discover_peers run v h1"
  obtain h' q where q: "?ssh = (h', q)" by fastforce
  show ?thesis
  proof (cases "get_row key_id (ssh_keys (db w)) (srv_ssh_key_id v)")
    case None
    then show ?thesis using assms(1) Some by (auto simp: discover_peers_task_def)
  next
    case (Some key)
    note row = \<open>get_row srv_id (servers (db w)) sid = Some v\<close>
    show ?thesis
    proof (cases q)
      case (Inl e)
      then show ?thesis using assms(1) Some row q by (auto simp: discover_peers_task_def split: if_splits)
    next
      case (Inr pr)
      obtain iface peers where pr: "pr = (iface, peers)" by (cases pr)
      obtain s' d where d: "record_peers (tenv te) sid peers (db w) = (s', d)" by fastforce
      have w': "w' = w\<lparr>remote := h', db := s'\<rparr>" "r = Inr d"
        using assms(1) Some row q Inr pr d by (auto simp: discover_peers_task_def)
      obtain h1 run out where run: "open_runner te (srv_hostname v) (srv_ssh_port v) (srv_ssh_username v)
          (hc_principals (srv_host_cert v)) (remote w) = (h1, Inr run)"
        "run (Sudo (''wg show '' @ srv_interface v @ '' dump'') True) h1 = (h', Inr out)"
        "parse_wg_dump out = Inr (iface, peers)"
        using q Inr pr by (auto simp: discover_peers_def discover_peers_cmd_def split: prod.splits sum.splits)
      have ps: "peers = map peer_of_columns (peer_columns out)" by (rule parse_wg_dump_peers [OF run(3)])
      have keys: "pi_public_key ` set peers = (\<lambda>f. f ! 0) ` set (peer_columns out)"
        by (simp add: ps peer_of_columns_def image_image)
      have stored: "(\<exists>p \<in> set peers. describes (db w) sid t r p) \<longleftrightarrow>
          (\<exists>f \<in> set (peer_columns out). stores_columns (db w) sid t r f)" for t r
        by (simp add: ps describes_columns)
      obtain n u k where "d = Discovered sid (length peers) n u k" using record_peers_spec [OF assms(2) d] by blast
      with run row show ?thesis using record_peers_spec [OF assms(2) d, unfolded keys stored] by (simp add: w' ps)
    qed
  qed
qed

lemma dispatch_each_spec:
  assumes "dispatch_each e msg ids s = (s', ok, bad)"
  shows "s' = s\<lparr>task_queue := task_queue s @ map msg ok\<rparr> \<and>
     ok = filter (\<lambda>i. \<exists>tid. broker e (msg i) = Inr tid) ids \<and>
     map fst bad = filter (\<lambda>i. \<not> (\<exists>tid. broker e (msg i) = Inr tid)) ids"
  using assms
proof (induction ids arbitrary: s s' ok bad)
  case (Cons i ids)
  show ?case
  proof (cases "broker e (msg i)")
    case (Inl x)
    then show ?thesis using Cons.prems by (auto simp: delay_def split: prod.splits dest!: Cons.IH)
  next
    case (Inr tid)
    then show ?thesis using Cons.prems by (auto simp: delay_def split: prod.splits dest!: Cons.IH)
  qed
qed simp

definition needs_rotation :: "int \<Rightarrow> host_cert_cols \<Rightarrow> bool" where
  "needs_rotation cutoff hc \<longleftrightarrow> (\<forall>t. hc_valid_before hc = Some t \<longrightarrow> t < cutoff)"

text \<open>
  one sweep dispatches a rotation for exactly the ready hosts whose certificate is
  unknown or lapses within the renewal window, each once; a broker failure on one is
  reported and does not stop the others, and nothing but the queue changes.
\<close>

theorem sweep_rotates_expiring_hosts:
  assumes "rotate_expiring_host_certs_task te s = (s', ok_servers, ok_clients, failed)"
    and "distinct (map srv_id (servers s))" and "distinct (map cli_id (clients s))"
  shows "s' = s\<lparr>task_queue := task_queue s @ map RotateHostCert ok_servers @ map RotateClientHostCert ok_clients\<rparr> \<and>
     distinct ok_servers \<and> distinct ok_clients \<and>
     (\<forall>v \<in> set (servers s). srv_status v = Ready \<and> needs_rotation (now (tenv te) + seconds (renew_before te)) (srv_host_cert v) \<longrightarrow>
        srv_id v \<in> set ok_servers \<or> srv_id v \<in> fst ` set failed) \<and>
     (\<forall>c \<in> set (clients s). cli_status c = Ready \<and> \<not> cli_is_manual c \<and>
        needs_rotation (now (tenv te) + seconds (renew_before te)) (cli_host_cert c) \<longrightarrow>
        cli_id c \<in> set ok_clients \<or> cli_id c \<in> fst ` set failed) \<and>
     (\<forall>i \<in> set ok_servers. \<exists>v \<in> set (servers s). srv_id v = i \<and> srv_status v = Ready \<and>
        needs_rotation (now (tenv te) + seconds (renew_before te)) (srv_host_cert v)) \<and>
     (\<forall>i \<in> set ok_clients. \<exists>c \<in> set (clients s). cli_id c = i \<and> cli_status c = Ready \<and> \<not> cli_is_manual c \<and>
        needs_rotation (now (tenv te) + seconds (renew_before te)) (cli_host_cert c))"
proof -
  let ?cut = "now (tenv te) + seconds (renew_before te)"
  obtain s1 bad1 bad2 where d1: "dispatch_each (tenv te) RotateHostCert (expiring_servers ?cut s) s = (s1, ok_servers, bad1)"
    and d2: "dispatch_each (tenv te) RotateClientHostCert (expiring_clients ?cut s) s1 = (s', ok_clients, bad2)"
    and f: "failed = bad1 @ bad2"
    using assms(1) by (auto simp: rotate_expiring_host_certs_task_def Let_def split: prod.splits)
  have need: "expiring ?cut hc \<longleftrightarrow> needs_rotation ?cut hc" for hc
    by (auto simp: expiring_def needs_rotation_def split: option.splits)
  note D = dispatch_each_spec [OF d1] dispatch_each_spec [OF d2]
  have fs: "fst ` set failed = set (map fst bad1) \<union> set (map fst bad2)" by (simp add: f image_Un)
  have "distinct (expiring_servers ?cut s)" "distinct (expiring_clients ?cut s)"
    using assms(2,3) by (simp_all add: expiring_servers_def expiring_clients_def distinct_map_filter)
  moreover have "set (expiring_servers ?cut s) = srv_id ` {v \<in> set (servers s). srv_status v = Ready \<and> needs_rotation ?cut (srv_host_cert v)}"
    "set (expiring_clients ?cut s) = cli_id ` {c \<in> set (clients s). cli_status c = Ready \<and> \<not> cli_is_manual c \<and> needs_rotation ?cut (cli_host_cert c)}"
    by (auto simp: expiring_servers_def expiring_clients_def need)
  ultimately show ?thesis using D unfolding fs by auto
qed

section \<open>Provisioning\<close>

text \<open>
  a provisioning run of a hub that is not skipped leaves the row \<^verbatim>\<open>ready\<close> with the
  public key and the host certificate it installed when every SSH step succeeded, and
  \<^verbatim>\<open>error\<close> with every other column as it was when one raised; no other row of the database
  changes, and an expected SSH failure surfaces as one \<^verbatim>\<open>RuntimeError\<close>.
\<close>

theorem provision_server_settles_status:
  assumes "get_row srv_id (servers (db w)) sid = Some v"
    and "provision_server_body te sid kw w = (w', r)"
  shows "(\<exists>u. db w' = (db w)\<lparr>servers := upd_where (\<lambda>x. srv_id x = sid) u (servers (db w))\<rparr> \<and>
       (case r of
          Inr res \<Rightarrow> (\<exists>pk hc. provision_server_ssh te v (ready_clients_for (db w) sid) kw (remote w) = (remote w', Inr (pk, hc)) \<and>
             get_row srv_id (servers (db w')) sid = Some (v\<lparr>srv_public_key := pk, srv_status := Ready, srv_host_cert := hc\<rparr>) \<and>
             res = Provisioned_Server sid pk (srv_address v) (length (ready_clients_for (db w) sid)))
        | Inl x \<Rightarrow> get_row srv_id (servers (db w')) sid = Some (v\<lparr>srv_status := Error\<rparr>) \<and> \<not> ssh_expected x))"
proof -
  let ?cs = "ready_clients_for (db w) sid"
  have got: "get_row srv_id (servers (modify_server sid f (db w))) sid = Some (f v)" if "\<And>x. srv_id (f x) = srv_id x" for f
    using assms(1) get_upd_where [of srv_id f "\<lambda>x. srv_id x = sid" "servers (db w)" sid] that
    by (auto simp: modify_server_def dest: get_row_SomeD)
  show ?thesis
  proof (cases "get_row key_id (ssh_keys (db w)) (srv_ssh_key_id v)")
    case None
    then show ?thesis using assms got [of "\<lambda>x. x\<lparr>srv_status := Error\<rparr>"]
      by (auto simp: provision_server_body_def modify_server_def)
  next
    case (Some key)
    obtain h' q where q: "provision_server_ssh te v ?cs kw (remote w) = (h', q)" by fastforce
    show ?thesis
    proof (cases q)
      case (Inl x)
      have "\<not> ssh_expected (clean_failure p x)" for p by (simp add: clean_failure_def)
      then show ?thesis using assms Some q Inl got [of "\<lambda>x. x\<lparr>srv_status := Error\<rparr>"]
        by (auto simp: provision_server_body_def modify_server_def Let_def)
    next
      case (Inr y)
      obtain pk hc where y: "y = (pk, hc)" by (cases y)
      then show ?thesis
        using assms Some q Inr got [of "\<lambda>x. x\<lparr>srv_public_key := pk, srv_status := Ready, srv_host_cert := hc\<rparr>"]
        by (auto simp: provision_server_body_def modify_server_def Let_def)
    qed
  qed
qed

section \<open>Witnesses\<close>

definition sample_world :: "unit world" where
  "sample_world = \<lparr>db = sample_db, remote = ()\<rparr>"

theorem discovery_is_authoritative_witness:
  "{dp_public_key r | r. r \<in> set (discovered_peers (db (fst (discover_peers_task quiet_env 1 sample_world)))) \<and> dp_server_id r = 1} =
     {''peerkey''}"
proof -
  obtain w' r where r: "discover_peers_task quiet_env 1 sample_world = (w', r)" by fastforce
  have "peer_keys_unique (discovered_peers (db sample_world))" by code_simp
  note P = discovery_is_authoritative [OF r this]
  have "snd (discover_peers_task quiet_env 1 sample_world) = Inr (Discovered 1 1 1 0 0)" by code_simp
  then have "r = Inr (Discovered 1 1 1 0 0)" by (simp add: r)
  with P obtain out where "length (peer_columns out) = 1"
    and K: "{dp_public_key r | r. r \<in> set (discovered_peers (db w')) \<and> dp_server_id r = 1} = (\<lambda>f. f ! 0) ` set (peer_columns out)"
    by auto
  then have one: "\<exists>k. (\<lambda>f. f ! 0) ` set (peer_columns out) = {k}" by (auto simp: length_Suc_conv)
  have "map dp_public_key (discovered_peers (db (fst (discover_peers_task quiet_env 1 sample_world)))) = [''peerkey'']"
    by code_simp
  then have "(\<lambda>f. f ! 0) ` set (peer_columns out) \<subseteq> {''peerkey''}" unfolding K [symmetric] by (auto simp: r)
  with one K show ?thesis by (auto simp: r)
qed

theorem sweep_rotates_expiring_hosts_witness:
  "\<exists>s' oks okc failed. rotate_expiring_host_certs_task quiet_env sample_db = (s', oks, okc, failed) \<and>
     (1 \<in> set oks \<or> 1 \<in> fst ` set failed) \<and> distinct oks"
proof -
  obtain s' oks okc failed where r: "rotate_expiring_host_certs_task quiet_env sample_db = (s', oks, okc, failed)"
    by (metis prod_cases4)
  have d: "distinct (map srv_id (servers sample_db))" "distinct (map cli_id (clients sample_db))"
    by (simp_all add: sample_db_def)
  have hub: "sample_hub \<in> set (servers sample_db)" "srv_status sample_hub = Ready" "srv_id sample_hub = 1"
    "needs_rotation c (srv_host_cert sample_hub)" for c
    by (simp_all add: sample_db_def sample_hub_def needs_rotation_def no_host_cert_def)
  show ?thesis using sweep_rotates_expiring_hosts [OF r d] hub r by (metis (no_types, lifting))
qed

theorem provision_server_settles_status_witness:
  "\<exists>pk hc. get_row srv_id (servers (db (fst (provision_server_body quiet_env 1 \<lparr>bootstrap_pem_ciphertext = None, bootstrap_pem_context = None,
      bootstrap_passphrase_ciphertext = None, bootstrap_passphrase_context = None\<rparr> sample_world)))) 1 =
    Some (sample_hub\<lparr>srv_public_key := pk, srv_status := Ready, srv_host_cert := hc\<rparr>)"
proof -
  let ?kw = "\<lparr>bootstrap_pem_ciphertext = None, bootstrap_pem_context = None,
      bootstrap_passphrase_ciphertext = None, bootstrap_passphrase_context = None\<rparr>"
  obtain w' r where r: "provision_server_body quiet_env 1 ?kw sample_world = (w', r)" by fastforce
  have g: "get_row srv_id (servers (db sample_world)) 1 = Some sample_hub" by code_simp
  have "snd (provision_server_body quiet_env 1 ?kw sample_world) = Inr (Provisioned_Server 1 ''ssh-ed25519 AAAA'' ''10.9.0.1/24'' 1)"
    by code_simp
  with provision_server_settles_status [OF g r] show ?thesis by (auto simp: r)
qed

end
