(* ===== verification/Reconfigure.thy ===== *)
theory Reconfigure
  imports Tasks
begin

text \<open>
  The generation protocol of \<^verbatim>\<open>request_reconfigure\<close> and \<^verbatim>\<open>reconfigure_server_task\<close> in
  \<^verbatim>\<open>tasks.py\<close> as interleaved steps of requesters, of other commits and of the one worker
  that holds the hub's row lock. Ghost fields number the commits and record the hub's
  ready clients at each of them, the commit that requested a generation, and the
  commit whose client list is on the hub.
\<close>

section \<open>Steps\<close>

text \<open>
  Where the worker is: it read the row (with the generation it will mark, or none when
  it provisions), it read the client list, it wrote the hub.
\<close>

datatype worker =
    Idle
  | Row_Read "int option"
  | Clients_Read "int option" "client list" nat
  | Hub_Written "int option"

record hub_system =
  sys_db :: state
  sys_ver :: nat
  sys_log :: "nat \<Rightarrow> client list"
  sys_req :: "int \<Rightarrow> nat option"
  sys_worker :: worker
  sys_hub :: "client list"
  sys_hub_ver :: "nat option"

definition commit_db :: "int \<Rightarrow> state \<Rightarrow> hub_system \<Rightarrow> hub_system" where
  "commit_db sid s' x = x\<lparr>sys_db := s', sys_ver := sys_ver x + 1,
     sys_log := (sys_log x)(sys_ver x + 1 := ready_clients_for s' sid)\<rparr>"

definition gens :: "int \<Rightarrow> state \<Rightarrow> (int \<times> int) option" where
  "gens sid s = map_option (\<lambda>v. (srv_requested_gen v, srv_applied_gen v)) (get_row srv_id (servers s) sid)"

text \<open>
  Any other transaction may change anything but the two generation columns of the hub
  (or delete the hub). A worker that crashes, or whose SSH session fails, lets go of the
  lock without marking.
\<close>

inductive hub_step :: "int \<Rightarrow> hub_system \<Rightarrow> hub_system \<Rightarrow> bool" for sid where
  change: "gens sid s' = gens sid (sys_db x) \<or> gens sid s' = None \<Longrightarrow> hub_step sid x (commit_db sid s' x)"
| request: "gens sid (sys_db x) = Some (rg, ag) \<Longrightarrow> request_reconfigure e sid (sys_db x) = (s', r) \<Longrightarrow>
    hub_step sid x ((commit_db sid s' x)\<lparr>sys_req := (sys_req x)(rg + 1 \<mapsto> sys_ver x + 1)\<rparr>)"
| take: "sys_worker x = Idle \<Longrightarrow> gens sid (sys_db x) = Some (rg, ag) \<Longrightarrow>
    \<not> (case generation of None \<Rightarrow> False | Some g \<Rightarrow> g \<le> ag) \<Longrightarrow>
    hub_step sid x (x\<lparr>sys_worker := Row_Read (Some rg)\<rparr>)"
| take_provision: "sys_worker x = Idle \<Longrightarrow> hub_step sid x (x\<lparr>sys_worker := Row_Read None\<rparr>)"
| load: "sys_worker x = Row_Read target \<Longrightarrow>
    hub_step sid x (x\<lparr>sys_worker := Clients_Read target (ready_clients_for (sys_db x) sid) (sys_ver x)\<rparr>)"
| put_hub: "sys_worker x = Clients_Read target cs n \<Longrightarrow>
    hub_step sid x (x\<lparr>sys_worker := Hub_Written target, sys_hub := cs, sys_hub_ver := Some n\<rparr>)"
| mark: "sys_worker x = Hub_Written (Some target) \<Longrightarrow>
    hub_step sid x ((commit_db sid (mark_applied sid target (sys_db x)) x)\<lparr>sys_worker := Idle\<rparr>)"
| give_up: "hub_step sid x (x\<lparr>sys_worker := Idle\<rparr>)"

inductive hub_reach :: "int \<Rightarrow> hub_system \<Rightarrow> bool" for sid where
  start: "sys_req x = (\<lambda>_. None) \<Longrightarrow> sys_worker x = Idle \<Longrightarrow> sys_hub_ver x = None \<Longrightarrow>
    sys_log x (sys_ver x) = ready_clients_for (sys_db x) sid \<Longrightarrow>
    (\<forall>rg ag. gens sid (sys_db x) = Some (rg, ag) \<longrightarrow> ag \<le> rg) \<Longrightarrow> hub_reach sid x"
| step: "hub_reach sid x \<Longrightarrow> hub_step sid x y \<Longrightarrow> hub_reach sid y"

section \<open>Invariant\<close>

text \<open>The hub's configuration is a recorded client list, at or after the commit \<^verbatim>\<open>r\<close>.\<close>

definition covers :: "(int \<Rightarrow> nat option) \<Rightarrow> int \<Rightarrow> nat option \<Rightarrow> bool" where
  "covers req g n \<longleftrightarrow> (\<forall>h r. h \<le> g \<and> req h = Some r \<longrightarrow> (\<exists>k. n = Some k \<and> r \<le> k))"

fun worker_ok :: "hub_system \<Rightarrow> worker \<Rightarrow> bool" where
  "worker_ok x Idle = True"
| "worker_ok x (Row_Read target) = True"
| "worker_ok x (Clients_Read target cs n) \<longleftrightarrow> cs = sys_log x n \<and> n \<le> sys_ver x \<and>
     (\<forall>k. sys_hub_ver x = Some k \<longrightarrow> k \<le> n) \<and> (\<forall>g. target = Some g \<longrightarrow> covers (sys_req x) g (Some n))"
| "worker_ok x (Hub_Written target) \<longleftrightarrow> (\<forall>g. target = Some g \<longrightarrow> covers (sys_req x) g (sys_hub_ver x))"

fun target_of :: "worker \<Rightarrow> int option" where
  "target_of Idle = None"
| "target_of (Row_Read t) = t"
| "target_of (Clients_Read t cs n) = t"
| "target_of (Hub_Written t) = t"

definition hub_inv :: "int \<Rightarrow> hub_system \<Rightarrow> bool" where
  "hub_inv sid x \<longleftrightarrow>
     sys_log x (sys_ver x) = ready_clients_for (sys_db x) sid \<and>
     (\<forall>n. sys_hub_ver x = Some n \<longrightarrow> n \<le> sys_ver x \<and> sys_hub x = sys_log x n) \<and>
     (\<forall>g r. sys_req x g = Some r \<longrightarrow> r \<le> sys_ver x) \<and> worker_ok x (sys_worker x) \<and>
     (\<forall>rg ag. gens sid (sys_db x) = Some (rg, ag) \<longrightarrow> ag \<le> rg \<and> covers (sys_req x) ag (sys_hub_ver x) \<and>
        (\<forall>t. target_of (sys_worker x) = Some t \<longrightarrow> t \<le> rg))"

lemma gens_request:
  assumes "gens sid s = Some (rg, ag)" and "request_reconfigure e sid s = (s', r)"
  shows "gens sid s' = Some (rg + 1, ag)" and "ready_clients_for s' sid = ready_clients_for s sid"
  using assms
  by (auto simp: gens_def request_reconfigure_def Let_def delay_def ready_clients_for_def get_upd_where
      split: option.splits sum.splits dest: get_row_SomeD)

lemma gens_mark_applied:
  assumes "gens sid s = Some (rg, ag)"
  shows "gens sid (mark_applied sid t s) = Some (rg, max ag t)"
proof -
  obtain v where "get_row srv_id (servers s) sid = Some v" "rg = srv_requested_gen v" "ag = srv_applied_gen v"
    using assms by (auto simp: gens_def)
  then show ?thesis by (auto simp: gens_def mark_applied_def get_upd_where dest: get_row_SomeD)
qed

lemma gens_mark_applied_None: "gens sid s = None \<Longrightarrow> gens sid (mark_applied sid t s) = None"
  by (auto simp: gens_def mark_applied_def get_upd_where)

lemma covers_request: "covers req g n \<Longrightarrow> g < h \<Longrightarrow> covers (req(h \<mapsto> r)) g n"
  by (auto simp: covers_def)

text \<open>A commit keeps the ghost records and adds one.\<close>

lemma commit_sel [simp]:
  "sys_db (commit_db sid s' x) = s'" "sys_ver (commit_db sid s' x) = sys_ver x + 1"
  "sys_req (commit_db sid s' x) = sys_req x" "sys_worker (commit_db sid s' x) = sys_worker x"
  "sys_hub (commit_db sid s' x) = sys_hub x" "sys_hub_ver (commit_db sid s' x) = sys_hub_ver x"
  "sys_log (commit_db sid s' x) k = (if k = sys_ver x + 1 then ready_clients_for s' sid else sys_log x k)"
  by (simp_all add: commit_db_def)

lemma worker_ok_commit: "worker_ok x w \<Longrightarrow> worker_ok (commit_db sid s' x) w"
  by (cases w) auto

lemma commit_inv:
  assumes "hub_inv sid x" and "gens sid s' = gens sid (sys_db x) \<or> gens sid s' = None"
  shows "hub_inv sid (commit_db sid s' x)"
proof -
  have w: "worker_ok (commit_db sid s' x) (sys_worker x)"
    using assms(1) by (intro worker_ok_commit) (simp add: hub_inv_def)
  show ?thesis
  proof (cases "gens sid s'")
    case (Some g)
    then have "gens sid (sys_db x) = gens sid s'" using assms(2) by simp
    with assms(1) w show ?thesis by (auto simp: hub_inv_def le_Suc_eq)
  qed (use assms(1) w in \<open>auto simp: hub_inv_def le_Suc_eq\<close>)
qed

lemma request_inv:
  assumes "hub_inv sid x" and "gens sid (sys_db x) = Some (rg, ag)" and "gens sid s' = Some (rg + 1, ag)"
  shows "hub_inv sid ((commit_db sid s' x)\<lparr>sys_req := (sys_req x)(rg + 1 \<mapsto> sys_ver x + 1)\<rparr>)"
proof -
  let ?req = "(sys_req x)(rg + 1 \<mapsto> sys_ver x + 1)"
  have le: "ag \<le> rg" "covers (sys_req x) ag (sys_hub_ver x)" and t: "\<And>t. target_of (sys_worker x) = Some t \<Longrightarrow> t \<le> rg"
    using assms(1,2) by (auto simp: hub_inv_def)
  have "covers ?req ag (sys_hub_ver x)" using le by (intro covers_request) auto
  moreover have "worker_ok ((commit_db sid s' x)\<lparr>sys_req := ?req\<rparr>) (sys_worker x)"
    using assms(1) t by (cases "sys_worker x") (auto simp: hub_inv_def intro!: covers_request)
  ultimately show ?thesis using assms(1,3) le(1) t by (auto simp: hub_inv_def le_Suc_eq)
qed

lemma mark_inv:
  assumes "hub_inv sid x" and "sys_worker x = Hub_Written (Some t)"
  shows "hub_inv sid ((commit_db sid (mark_applied sid t (sys_db x)) x)\<lparr>sys_worker := Idle\<rparr>)"
proof (cases "gens sid (sys_db x)")
  case None
  then show ?thesis using assms(1) by (auto simp: hub_inv_def gens_mark_applied_None le_Suc_eq)
next
  case (Some g)
  then obtain rg ag where g: "gens sid (sys_db x) = Some (rg, ag)" by (cases g) simp
  then have "t \<le> rg" "ag \<le> rg" "covers (sys_req x) ag (sys_hub_ver x)" "covers (sys_req x) t (sys_hub_ver x)"
    using assms by (auto simp: hub_inv_def)
  then show ?thesis
    using assms(1) gens_mark_applied [OF g, of t] by (auto simp: hub_inv_def le_Suc_eq max_def)
qed

lemma hub_step_inv: "hub_step sid x y \<Longrightarrow> hub_inv sid x \<Longrightarrow> hub_inv sid y"
proof (induction rule: hub_step.induct)
  case (change s' x)
  then show ?case by (intro commit_inv)
next
  case (request x rg ag e s' r)
  then show ?case using gens_request(1) by (intro request_inv)
next
  case (take x rg ag generation)
  then show ?case by (auto simp: hub_inv_def)
next
  case (take_provision x)
  then show ?case by (auto simp: hub_inv_def)
next
  case (load x target)
  then show ?case by (auto simp: hub_inv_def covers_def)
next
  case (put_hub x target cs n)
  then have w: "worker_ok x (Clients_Read target cs n)" by (simp add: hub_inv_def)
  have "covers (sys_req x) g (Some n)" if "covers (sys_req x) g (sys_hub_ver x)" for g
    using that w by (auto simp: covers_def) (metis order_trans)
  then show ?case using put_hub w by (auto simp: hub_inv_def)
next
  case (mark x t)
  then show ?case by (intro mark_inv)
next
  case (give_up x)
  then show ?case by (auto simp: hub_inv_def)
qed

lemma hub_reach_inv: "hub_reach sid x \<Longrightarrow> hub_inv sid x"
proof (induction rule: hub_reach.induct)
  case (start x)
  then show ?case by (auto simp: hub_inv_def covers_def)
next
  case (step x y)
  then show ?case by (blast intro: hub_step_inv)
qed

section \<open>Correctness\<close>

text \<open>
  C2: under any interleaving of commits, requests, worker runs, failures and crashes,
  once the hub's applied generation has reached a requested one, the client list on the
  hub was read at or after the commit that requested it; and if the hub's ready clients
  have not changed since that request, the hub has exactly the current ones.
\<close>

theorem applied_generation_is_on_hub:
  assumes "hub_reach sid x" and "get_row srv_id (servers (sys_db x)) sid = Some v"
    and "sys_req x g = Some r" and "g \<le> srv_applied_gen v"
  shows "srv_applied_gen v \<le> srv_requested_gen v \<and>
     (\<exists>n. r \<le> n \<and> n \<le> sys_ver x \<and> sys_hub x = sys_log x n) \<and>
     ((\<forall>k. r \<le> k \<and> k \<le> sys_ver x \<longrightarrow> sys_log x k = sys_log x (sys_ver x)) \<longrightarrow>
       sys_hub x = ready_clients_for (sys_db x) sid)"
proof -
  have I: "hub_inv sid x" using assms(1) by (rule hub_reach_inv)
  have "gens sid (sys_db x) = Some (srv_requested_gen v, srv_applied_gen v)" using assms(2) by (simp add: gens_def)
  then have c: "covers (sys_req x) (srv_applied_gen v) (sys_hub_ver x)" and le: "srv_applied_gen v \<le> srv_requested_gen v"
    using I by (auto simp: hub_inv_def)
  obtain n where "sys_hub_ver x = Some n" "r \<le> n" using c assms(3,4) by (auto simp: covers_def)
  then show ?thesis using I le by (auto simp: hub_inv_def)
qed

text \<open>
  C10: the task body refines the steps: when it reports \<^verbatim>\<open>applied\<close> it made exactly the steps
  read row, read clients, write hub, mark, and installed that client list over SSH; when
  it reports \<^verbatim>\<open>coalesced\<close> it did nothing and the generation was covered; when it raises,
  the database is as before.
\<close>

theorem reconfigure_body_refines_steps:
  assumes "reconfigure_server_body te sid generation w = (w', r)"
    and "sys_db x = db w" and "sys_worker x = Idle"
  shows "case r of
       Inr (Applied i target names) \<Rightarrow> i = sid \<and>
         (\<exists>y v. (hub_step sid)\<^sup>*\<^sup>* x y \<and> sys_db y = db w' \<and> sys_worker y = Idle \<and>
           get_row srv_id (servers (db w)) sid = Some v \<and> target = srv_requested_gen v \<and>
           sys_hub y = ready_clients_for (db w) sid \<and> names = map cli_name (sys_hub y) \<and>
           reconfigure_ssh te v (sys_hub y) (remote w) = (remote w', Inr ()))
     | Inr (Coalesced i g a) \<Rightarrow> i = sid \<and> w' = w \<and> generation = Some g \<and> g \<le> a \<and>
         (\<exists>v. get_row srv_id (servers (db w)) sid = Some v \<and> a = srv_applied_gen v)
     | Inr _ \<Rightarrow> False
     | Inl _ \<Rightarrow> db w' = db w"
proof (cases "get_row srv_id (servers (db w)) sid")
  case None
  then show ?thesis using assms(1) by (auto simp: reconfigure_server_body_def)
next
  case (Some v)
  let ?co = "case generation of None \<Rightarrow> False | Some g \<Rightarrow> g \<le> srv_applied_gen v"
  let ?cs = "ready_clients_for (db w) sid"
  have gens: "gens sid (sys_db x) = Some (srv_requested_gen v, srv_applied_gen v)" using Some assms(2) by (simp add: gens_def)
  show ?thesis
  proof (cases "?co \<or> get_row key_id (ssh_keys (db w)) (srv_ssh_key_id v) = None")
    case True
    then show ?thesis using assms(1) Some by (auto simp: reconfigure_server_body_def split: option.splits if_splits)
  next
    case False
    obtain h' q where q: "reconfigure_ssh te v ?cs (remote w) = (h', q)" by fastforce
    have body: "(w', r) = (case q of
        Inl e \<Rightarrow> (w\<lparr>remote := h'\<rparr>, Inl (clean_failure (''server '' @ str_of_int sid @ '' ('' @ srv_hostname v @ '') reconfigure failed: '') e))
      | Inr _ \<Rightarrow> (w\<lparr>remote := h', db := mark_applied sid (srv_requested_gen v) (db w)\<rparr>,
                  Inr (Applied sid (srv_requested_gen v) (map cli_name ?cs))))"
      using assms(1) Some False q by (auto simp: reconfigure_server_body_def Let_def split: sum.splits option.splits if_splits)
    show ?thesis
    proof (cases q)
      case (Inr u)
      let ?x1 = "x\<lparr>sys_worker := Row_Read (Some (srv_requested_gen v))\<rparr>"
      let ?x2 = "x\<lparr>sys_worker := Clients_Read (Some (srv_requested_gen v)) ?cs (sys_ver x)\<rparr>"
      let ?x3 = "x\<lparr>sys_worker := Hub_Written (Some (srv_requested_gen v)), sys_hub := ?cs, sys_hub_ver := Some (sys_ver x)\<rparr>"
      let ?y = "(commit_db sid (mark_applied sid (srv_requested_gen v) (sys_db x)) ?x3)\<lparr>sys_worker := Idle\<rparr>"
      have "hub_step sid x ?x1" using False by (intro hub_step.take [OF assms(3) gens, of generation]) auto
      moreover have "hub_step sid ?x1 ?x2" using hub_step.load [of ?x1] assms(2) by simp
      moreover have "hub_step sid ?x2 ?x3" using hub_step.put_hub [of ?x2] by simp
      moreover have "hub_step sid ?x3 ?y" using hub_step.mark [of ?x3] by simp
      ultimately have "(hub_step sid)\<^sup>*\<^sup>* x ?y" by (meson converse_rtranclp_into_rtranclp r_into_rtranclp)
      then show ?thesis using body Inr Some q assms(2) by (auto intro!: exI [of _ ?y])
    qed (use body in auto)
  qed
qed

section \<open>Witnesses\<close>

definition start_system :: "state \<Rightarrow> hub_system" where
  "start_system s = \<lparr>sys_db = s, sys_ver = 0, sys_log = (\<lambda>_. ready_clients_for s 1), sys_req = (\<lambda>_. None),
     sys_worker = Idle, sys_hub = [], sys_hub_ver = None\<rparr>"

definition requested_system :: hub_system where
  "requested_system = (commit_db 1 (fst (request_reconfigure sample_env 1 sample_db)) (start_system sample_db))
     \<lparr>sys_req := (\<lambda>_. None)(1 \<mapsto> 1)\<rparr>"

lemma requested_reach: "hub_reach 1 requested_system"
proof -
  have g: "gens 1 sample_db = Some (0, 0)" by code_simp
  have s: "hub_reach 1 (start_system sample_db)"
    using g by (intro hub_reach.start) (simp_all add: start_system_def)
  obtain s' r where q: "request_reconfigure sample_env 1 sample_db = (s', r)" by fastforce
  have "hub_step 1 (start_system sample_db) ((commit_db 1 s' (start_system sample_db))\<lparr>sys_req := (sys_req (start_system sample_db))(0 + 1 \<mapsto> sys_ver (start_system sample_db) + 1)\<rparr>)"
    using g q by (intro hub_step.request) (simp_all add: start_system_def)
  then have "hub_step 1 (start_system sample_db) requested_system"
    by (simp add: requested_system_def q start_system_def)
  with s show ?thesis by (rule hub_reach.step)
qed

text \<open>One run of the task on the requested system, and what it leaves.\<close>

definition quiet_run :: "unit world \<times> task_result result" where
  "quiet_run = reconfigure_server_body quiet_env 1 (Some 1) \<lparr>db = sys_db requested_system, remote = ()\<rparr>"

lemma quiet_run_applied: "snd quiet_run = Inr (Applied 1 1 [''laptop''])"
  by code_simp

theorem reconfigure_body_refines_steps_witness:
  "\<exists>y. (hub_step 1)\<^sup>*\<^sup>* requested_system y \<and> sys_db y = db (fst quiet_run) \<and>
     map cli_name (sys_hub y) = [''laptop'']"
proof -
  obtain w' where r: "quiet_run = (w', Inr (Applied 1 1 [''laptop'']))"
    using quiet_run_applied by (metis prod.collapse)
  have i: "sys_worker requested_system = Idle" by (simp add: requested_system_def start_system_def)
  show ?thesis
    using reconfigure_body_refines_steps [OF r [unfolded quiet_run_def] _ i] by (simp add: r del: map_eq_Cons_conv) metis
qed

theorem applied_generation_is_on_hub_witness:
  "\<exists>x v r. hub_reach 1 x \<and> get_row srv_id (servers (sys_db x)) 1 = Some v \<and> srv_applied_gen v = 1 \<and>
     sys_req x 1 = Some r \<and> (\<exists>n. r \<le> n \<and> n \<le> sys_ver x \<and> sys_hub x = sys_log x n)"
proof -
  let ?s = "sys_db requested_system"
  let ?x1 = "requested_system\<lparr>sys_worker := Row_Read (Some 1)\<rparr>"
  let ?x2 = "?x1\<lparr>sys_worker := Clients_Read (Some 1) (ready_clients_for ?s 1) (sys_ver ?x1)\<rparr>"
  let ?x3 = "?x2\<lparr>sys_worker := Hub_Written (Some 1), sys_hub := ready_clients_for ?s 1, sys_hub_ver := Some (sys_ver ?x1)\<rparr>"
  let ?y = "(commit_db 1 (mark_applied 1 1 (sys_db ?x3)) ?x3)\<lparr>sys_worker := Idle\<rparr>"
  have g: "gens 1 ?s = Some (1, 0)" by code_simp
  have "hub_step 1 requested_system ?x1"
    by (rule hub_step.take [OF _ g, of None]) (simp_all add: requested_system_def start_system_def)
  moreover have "hub_step 1 ?x1 ?x2" using hub_step.load [of ?x1] by simp
  moreover have "hub_step 1 ?x2 ?x3" using hub_step.put_hub [of ?x2] by simp
  moreover have "hub_step 1 ?x3 ?y" using hub_step.mark [of ?x3] by simp
  ultimately have y: "hub_reach 1 ?y" using requested_reach by (blast intro: hub_reach.step)
  have "gens 1 (sys_db ?y) = Some (1, 1)" using gens_mark_applied [OF g, of 1] by simp
  then obtain v where v: "get_row srv_id (servers (sys_db ?y)) 1 = Some v" "srv_applied_gen v = 1" by (auto simp: gens_def)
  have r: "sys_req ?y 1 = Some 1" by (simp add: requested_system_def)
  obtain z v where z: "hub_reach 1 z" "get_row srv_id (servers (sys_db z)) 1 = Some v" "srv_applied_gen v = 1"
    "sys_req z 1 = Some 1"
    using y v r by blast
  then have "\<exists>n. 1 \<le> n \<and> n \<le> sys_ver z \<and> sys_hub z = sys_log z n"
    using applied_generation_is_on_hub [OF z(1,2,4)] by simp
  with z show ?thesis by blast
qed

end
