(* ===== verification/Address_Plan.thy ===== *)
theory Address_Plan
  imports Ipam "HOL-Library.Sublist"
begin

text \<open>
  The addresses stored for a hub and its clients, and the two ways they change: a client is
  added with an address \<^verbatim>\<open>allocate_client_ip\<close> returned, or rows go away or change other columns.
\<close>

text \<open>
  The invariant the allocator keeps: on one hub no two clients share a host address,
  and none has the hub's own.
\<close>

definition stored_hosts :: "state \<Rightarrow> server \<Rightarrow> ip_addr result list" where
  "stored_hosts s v = map host_from_cidr (filter (\<lambda>a. a \<noteq> []) (client_addresses s v))"

definition addresses_unique :: "state \<Rightarrow> bool" where
  "addresses_unique s \<longleftrightarrow> list_all (\<lambda>v. distinct (host_from_cidr (srv_address v) # stored_hosts s v)) (servers s)"

lemma allocated_not_stored:
  assumes "allocate_client_ip s v = Inr a"
  shows "a < 4294967296" and "Inr (IPv4 a) \<notin> set (host_from_cidr (srv_address v) # stored_hosts s v)"
proof -
  obtain n taken where n: "ip4_network False (srv_subnet v) = Inr n" and t: "taken_addresses s v n = Inr taken"
    using assms by (auto simp: allocate_client_ip_def result_simps)
  have f: "find (\<lambda>x. \<not> address_in_use s v n x) (hosts n) = Some a"
    using assms by (simp add: allocate_client_ip_cases [OF n t] result_simps)
  have wf: "wf_net n" using n by (rule ip4_network_wf)
  with f have "a \<in> net_addresses n" by (auto dest!: find_SomeD intro: hosts_in_network)
  with wf show "a < 4294967296" using net_addresses_bounded [OF wf] by (auto simp: wf_net_def)
  show "Inr (IPv4 a) \<notin> set (host_from_cidr (srv_address v) # stored_hosts s v)"
    using f by (force simp: address_in_use_def stored_hosts_def client_addresses_def dest!: find_SomeD)
qed

lemma stored_hosts_append:
  assumes "clients s' = clients s @ [c]" and "cli_address c \<noteq> []"
  shows "stored_hosts s' v = stored_hosts s v @ (if cli_server_id c = srv_id v then [host_from_cidr (cli_address c)] else [])"
  using assms by (simp add: stored_hosts_def client_addresses_def)

text \<open>Adding a client with an address allocated in a view that has the hub's committed clients.\<close>

lemma allocation_keeps_unique:
  assumes "distinct (map srv_id (servers s))" and "addresses_unique s"
    and "allocate_client_ip snap v = Inr a" and "v \<in> set (servers s)"
    and "client_addresses snap v = client_addresses s v"
    and "clients s' = clients s @ [c]" and "servers s' = servers s"
    and "cli_server_id c = srv_id v" and "cli_address c = ip4_str a @ ''/32''"
  shows "addresses_unique s'"
proof -
  have c: "cli_address c \<noteq> []" "host_from_cidr (cli_address c) = Inr (IPv4 a)"
    using host_from_cidr_client [OF allocated_not_stored(1) [OF assms(3)]] assms(9) by simp_all
  have app: "stored_hosts s' w = stored_hosts s w @ (if srv_id v = srv_id w then [Inr (IPv4 a)] else [])" for w
    using stored_hosts_append [OF assms(6) c(1), of w] c(2) assms(8) by simp
  have "distinct (host_from_cidr (srv_address w) # stored_hosts s' w)" if w: "w \<in> set (servers s)" for w
  proof (cases "srv_id v = srv_id w")
    case True
    with w have "w = v" using assms(1,4) by (auto intro: distinct_map_eq)
    moreover have "stored_hosts snap v = stored_hosts s v" using assms(5) by (simp add: stored_hosts_def)
    ultimately show ?thesis
      using assms(2) w allocated_not_stored(2) [OF assms(3)] by (auto simp: addresses_unique_def list_all_iff app)
  qed (use assms(2) w in \<open>auto simp: addresses_unique_def list_all_iff app\<close>)
  then show ?thesis by (simp add: addresses_unique_def list_all_iff assms(7))
qed

text \<open>
  A state that adds nothing to the address plan of another: every hub has its identity and
  address from there, and the clients' hubs and addresses are a subsequence.
\<close>

definition plan_of :: "state \<Rightarrow> (int \<times> string) list" where
  "plan_of s = map (\<lambda>c. (cli_server_id c, cli_address c)) (clients s)"

definition plan_le :: "state \<Rightarrow> state \<Rightarrow> bool" where
  "plan_le s' s \<longleftrightarrow> (\<lambda>v. (srv_id v, srv_address v)) ` set (servers s') \<subseteq> (\<lambda>v. (srv_id v, srv_address v)) ` set (servers s) \<and>
     subseq (plan_of s') (plan_of s)"

lemma subseq_keeps:
  assumes "subseq xs ys"
  shows "distinct ys \<Longrightarrow> distinct xs" and "x \<in> set xs \<Longrightarrow> x \<in> set ys"
  using assms by (auto simp: subseq_conv_nths distinct_nthsI dest: in_set_nthsD)

lemma stored_hosts_plan:
  "stored_hosts s v = map (\<lambda>x. host_from_cidr (snd x)) (filter (\<lambda>x. fst x = srv_id v \<and> snd x \<noteq> []) (plan_of s))"
  by (simp add: stored_hosts_def client_addresses_def plan_of_def filter_map comp_def conj_commute)

lemma plan_le_refl: "plan_le s s"
  by (simp add: plan_le_def)

lemma plan_le_trans: "plan_le s'' s' \<Longrightarrow> plan_le s' s \<Longrightarrow> plan_le s'' s"
  unfolding plan_le_def by (meson order_trans subseq_order.order_trans)

lemma plan_le_unique:
  assumes "plan_le s' s" and "addresses_unique s"
  shows "addresses_unique s'"
proof -
  have "distinct (host_from_cidr (srv_address v') # stored_hosts s' v')" if v': "v' \<in> set (servers s')" for v'
  proof -
    obtain v where v: "v \<in> set (servers s)" "srv_id v' = srv_id v" "srv_address v' = srv_address v"
      using assms(1) v' by (auto simp: plan_le_def)
    have "stored_hosts s' v' = stored_hosts s' v" by (simp add: stored_hosts_plan v(2))
    moreover have "subseq (stored_hosts s' v) (stored_hosts s v)"
      using assms(1) unfolding stored_hosts_plan plan_le_def by (intro subseq_map subseq_filter) simp
    moreover have "distinct (host_from_cidr (srv_address v) # stored_hosts s v)"
      using assms(2) v(1) by (simp add: addresses_unique_def list_all_iff)
    ultimately show ?thesis
      using v(3) by (auto dest: subseq_keeps)
  qed
  then show ?thesis by (simp add: addresses_unique_def list_all_iff)
qed

end
