(* ===== verification/Row_Store.thy ===== *)
theory Row_Store
  imports Audit_Log
begin

text \<open>
  What the database and the ORM of \<^verbatim>\<open>models.py\<close> do with single rows on behalf of the routers:
  the JSON form of a row for the audit log, and inserting, updating and deleting a row
  with the declared constraints enforced (a unique column, a foreign key to a missing
  row, or deleting a row that is still referenced raises \<^term>\<open>IntegrityError\<close>).
\<close>

section \<open>Rows as JSON\<close>

text \<open>\<^verbatim>\<open>row.model_dump(mode="json")\<close>: the columns in declaration order.\<close>

definition json_time :: "env \<Rightarrow> int option \<Rightarrow> json" where
  "json_time e t = (case t of None \<Rightarrow> JNull | Some x \<Rightarrow> JStr (iso_z e x))"

definition host_cert_json :: "env \<Rightarrow> host_cert_cols \<Rightarrow> (string \<times> json) list" where
  "host_cert_json e hc =
     [(''host_cert_pem'', json_opt (hc_pem hc)), (''host_cert_serial'', json_int_opt (hc_serial hc)),
      (''host_cert_principals'', json_opt (hc_principals hc)),
      (''host_cert_valid_after'', json_time e (hc_valid_after hc)),
      (''host_cert_valid_before'', json_time e (hc_valid_before hc)),
      (''host_cert_ca_public_key'', json_opt (hc_ca_public_key hc))]"

definition client_json :: "env \<Rightarrow> client \<Rightarrow> (string \<times> json) list" where
  "client_json e c =
     [(''id'', JInt (cli_id c)), (''tenant_id'', json_int_opt (cli_tenant c)), (''name'', JStr (cli_name c)),
      (''hostname'', json_opt (cli_hostname c)), (''ssh_port'', JInt (cli_ssh_port c)),
      (''ssh_username'', json_opt (cli_ssh_username c)), (''ssh_key_id'', json_int_opt (cli_ssh_key_id c)),
      (''server_id'', JInt (cli_server_id c)), (''address'', JStr (cli_address c)),
      (''public_key'', JStr (cli_public_key c)), (''is_manual'', JBool (cli_is_manual c)),
      (''status'', JStr (node_status_value (cli_status c))), (''created_at'', JStr (iso_z e (cli_created_at c)))] @
     host_cert_json e (cli_host_cert c)"

definition server_json :: "env \<Rightarrow> server \<Rightarrow> (string \<times> json) list" where
  "server_json e v =
     [(''id'', JInt (srv_id v)), (''tenant_id'', json_int_opt (srv_tenant v)), (''hostname'', JStr (srv_hostname v)),
      (''ssh_port'', JInt (srv_ssh_port v)), (''ssh_username'', JStr (srv_ssh_username v)),
      (''ssh_key_id'', JInt (srv_ssh_key_id v)), (''endpoint_host'', JStr (srv_endpoint_host v)),
      (''endpoint_port'', JInt (srv_endpoint_port v)), (''interface'', JStr (srv_interface v)),
      (''subnet'', JStr (srv_subnet v)), (''address'', JStr (srv_address v)), (''public_key'', JStr (srv_public_key v)),
      (''status'', JStr (node_status_value (srv_status v))), (''created_at'', JStr (iso_z e (srv_created_at v)))] @
     host_cert_json e (srv_host_cert v) @
     [(''reconfig_requested_gen'', JInt (srv_requested_gen v)), (''reconfig_applied_gen'', JInt (srv_applied_gen v))]"

fun ssh_key_mode_value :: "ssh_key_mode \<Rightarrow> string" where
  "ssh_key_mode_value Legacy = ''legacy''"
| "ssh_key_mode_value Ca = ''ca''"

definition ssh_key_json :: "env \<Rightarrow> ssh_key \<Rightarrow> (string \<times> json) list" where
  "ssh_key_json e k =
     [(''id'', JInt (key_id k)), (''tenant_id'', json_int_opt (key_tenant k)), (''name'', JStr (key_name k)),
      (''mode'', JStr (ssh_key_mode_value (key_mode k))), (''created_at'', JStr (iso_z e (key_created_at k)))]"

text \<open>Without the \<^verbatim>\<open>token_hash\<close> column, as the router dumps it.\<close>

definition token_json :: "env \<Rightarrow> enrollment_token \<Rightarrow> (string \<times> json) list" where
  "token_json e t =
     [(''id'', JInt (et_id t)), (''tenant_id'', json_int_opt (et_tenant t)), (''server_id'', JInt (et_server_id t)),
      (''ssh_key_id'', JInt (et_ssh_key_id t)), (''ssh_username'', JStr (et_ssh_username t)),
      (''name_prefix'', JStr (et_name_prefix t)), (''max_uses'', JInt (et_max_uses t)),
      (''use_count'', JInt (et_use_count t)), (''expires_at'', JStr (iso_z e (et_expires_at t))),
      (''created_by_cn'', json_opt (et_created_by_cn t)), (''created_at'', JStr (iso_z e (et_created_at t))),
      (''revoked_at'', json_time e (et_revoked_at t)), (''revoked_by_cn'', json_opt (et_revoked_by_cn t)),
      (''allowed_cidrs'', json_opt (et_allowed_cidrs t))]"

section \<open>Flushing one row\<close>

text \<open>\<^verbatim>\<open>session.add(row); session.flush()\<close>: unique columns and references are checked.\<close>

definition insert_client :: "client \<Rightarrow> state \<Rightarrow> state result" where
  "insert_client c s =
     (if cli_name c \<in> cli_name ` set (clients s) \<or> cli_server_id c \<notin> srv_id ` set (servers s) \<or>
         \<not> ref_ok (key_id ` set (ssh_keys s)) (cli_ssh_key_id c) \<or> \<not> ref_ok (ten_id ` set (tenants s)) (cli_tenant c)
      then Inl IntegrityError
      else Inr (s\<lparr>clients := clients s @ [c]\<rparr>))"

definition insert_server :: "server \<Rightarrow> state \<Rightarrow> state result" where
  "insert_server v s =
     (if srv_ssh_key_id v \<notin> key_id ` set (ssh_keys s) \<or> \<not> ref_ok (ten_id ` set (tenants s)) (srv_tenant v)
      then Inl IntegrityError
      else Inr (s\<lparr>servers := servers s @ [v]\<rparr>))"

definition insert_ssh_key :: "ssh_key \<Rightarrow> state \<Rightarrow> state result" where
  "insert_ssh_key k s =
     (if key_name k \<in> key_name ` set (ssh_keys s) \<or> \<not> ref_ok (ten_id ` set (tenants s)) (key_tenant k)
      then Inl IntegrityError
      else Inr (s\<lparr>ssh_keys := ssh_keys s @ [k]\<rparr>))"

definition insert_tenant :: "tenant \<Rightarrow> state \<Rightarrow> state result" where
  "insert_tenant t s =
     (if ten_name t \<in> ten_name ` set (tenants s) \<or> ten_slug t \<in> ten_slug ` set (tenants s)
      then Inl IntegrityError
      else Inr (s\<lparr>tenants := tenants s @ [t]\<rparr>))"

definition insert_join :: "operator_tenant \<Rightarrow> state \<Rightarrow> state result" where
  "insert_join j s =
     (if (ot_operator_id j, ot_tenant_id j) \<in> (\<lambda>x. (ot_operator_id x, ot_tenant_id x)) ` set (operator_tenants s) \<or>
         ot_operator_id j \<notin> op_id ` set (operators s) \<or> ot_tenant_id j \<notin> ten_id ` set (tenants s)
      then Inl IntegrityError
      else Inr (s\<lparr>operator_tenants := operator_tenants s @ [j]\<rparr>))"

text \<open>An update writes the row back under its primary key.\<close>

definition others :: "('r \<Rightarrow> int) \<Rightarrow> 'r \<Rightarrow> 'r list \<Rightarrow> 'r list" where
  "others key r rows = filter (\<lambda>x. key x \<noteq> key r) rows"

definition save_server :: "server \<Rightarrow> state \<Rightarrow> state result" where
  "save_server v s =
     (if srv_ssh_key_id v \<notin> key_id ` set (ssh_keys s) \<or> \<not> ref_ok (ten_id ` set (tenants s)) (srv_tenant v)
      then Inl IntegrityError
      else Inr (s\<lparr>servers := put_row srv_id v (servers s)\<rparr>))"

definition save_client :: "client \<Rightarrow> state \<Rightarrow> state result" where
  "save_client c s =
     (if cli_name c \<in> cli_name ` set (others cli_id c (clients s)) \<or> cli_server_id c \<notin> srv_id ` set (servers s) \<or>
         \<not> ref_ok (key_id ` set (ssh_keys s)) (cli_ssh_key_id c) \<or> \<not> ref_ok (ten_id ` set (tenants s)) (cli_tenant c)
      then Inl IntegrityError
      else Inr (s\<lparr>clients := put_row cli_id c (clients s)\<rparr>))"

definition save_ssh_key :: "ssh_key \<Rightarrow> state \<Rightarrow> state result" where
  "save_ssh_key k s =
     (if key_name k \<in> key_name ` set (others key_id k (ssh_keys s)) \<or> \<not> ref_ok (ten_id ` set (tenants s)) (key_tenant k)
      then Inl IntegrityError
      else Inr (s\<lparr>ssh_keys := put_row key_id k (ssh_keys s)\<rparr>))"

definition save_tenant :: "tenant \<Rightarrow> state \<Rightarrow> state result" where
  "save_tenant t s =
     (if ten_name t \<in> ten_name ` set (others ten_id t (tenants s)) \<or> ten_slug t \<in> ten_slug ` set (others ten_id t (tenants s))
      then Inl IntegrityError
      else Inr (s\<lparr>tenants := put_row ten_id t (tenants s)\<rparr>))"

text \<open>A delete is refused while another row references the key.\<close>

definition delete_server_row :: "int \<Rightarrow> state \<Rightarrow> state result" where
  "delete_server_row i s =
     (if i \<in> cli_server_id ` set (clients s) \<or> i \<in> dp_server_id ` set (discovered_peers s) \<or>
         i \<in> et_server_id ` set (enrollment_tokens s)
      then Inl IntegrityError
      else Inr (s\<lparr>servers := del_row srv_id i (servers s)\<rparr>))"

definition delete_ssh_key_row :: "int \<Rightarrow> state \<Rightarrow> state result" where
  "delete_ssh_key_row i s =
     (if i \<in> srv_ssh_key_id ` set (servers s) \<or> Some i \<in> cli_ssh_key_id ` set (clients s) \<or>
         i \<in> et_ssh_key_id ` set (enrollment_tokens s)
      then Inl IntegrityError
      else Inr (s\<lparr>ssh_keys := del_row key_id i (ssh_keys s)\<rparr>))"

section \<open>Constraints survive a flush\<close>

lemma persist_Inr:
  "persist e a x s = Inr (s', r, l) \<longleftrightarrow> ref_ok (ten_id ` set (tenants s)) (aa_tenant_id x) \<and>
     r = audit_row e a x \<and> s' = s\<lparr>audit_events := audit_events s @ [r]\<rparr> \<and> l = persist_line e r"
  by (auto simp: persist_def Let_def)

lemma insert_client_Inr:
  "insert_client c s = Inr s' \<longleftrightarrow> cli_name c \<notin> cli_name ` set (clients s) \<and> cli_server_id c \<in> srv_id ` set (servers s) \<and>
     ref_ok (key_id ` set (ssh_keys s)) (cli_ssh_key_id c) \<and> ref_ok (ten_id ` set (tenants s)) (cli_tenant c) \<and>
     s' = s\<lparr>clients := clients s @ [c]\<rparr>"
  by (auto simp: insert_client_def)

lemmas wf_simps = wf_state_def unique_keys_def unique_columns_def foreign_keys_ok_def Let_def

lemma wf_distinct_ids:
  assumes "wf_state s"
  shows "distinct (map srv_id (servers s))" "distinct (map cli_id (clients s))" "distinct (map key_id (ssh_keys s))"
    "distinct (map et_id (enrollment_tokens s))" "distinct (map ten_id (tenants s))"
  using assms by (simp_all add: wf_state_def unique_keys_def)

lemma insert_simps [result_simps]:
  "insert_server v s = Inr s' \<longleftrightarrow> srv_ssh_key_id v \<in> key_id ` set (ssh_keys s) \<and>
     ref_ok (ten_id ` set (tenants s)) (srv_tenant v) \<and> s' = s\<lparr>servers := servers s @ [v]\<rparr>"
  "insert_ssh_key k s = Inr s' \<longleftrightarrow> key_name k \<notin> key_name ` set (ssh_keys s) \<and>
     ref_ok (ten_id ` set (tenants s)) (key_tenant k) \<and> s' = s\<lparr>ssh_keys := ssh_keys s @ [k]\<rparr>"
  "insert_tenant t s = Inr s' \<longleftrightarrow> ten_name t \<notin> ten_name ` set (tenants s) \<and> ten_slug t \<notin> ten_slug ` set (tenants s) \<and>
     s' = s\<lparr>tenants := tenants s @ [t]\<rparr>"
  "insert_join j s = Inr s' \<longleftrightarrow>
     (ot_operator_id j, ot_tenant_id j) \<notin> (\<lambda>x. (ot_operator_id x, ot_tenant_id x)) ` set (operator_tenants s) \<and>
     ot_operator_id j \<in> op_id ` set (operators s) \<and> ot_tenant_id j \<in> ten_id ` set (tenants s) \<and>
     s' = s\<lparr>operator_tenants := operator_tenants s @ [j]\<rparr>"
  by (auto simp: insert_server_def insert_ssh_key_def insert_tenant_def insert_join_def)

lemma save_simps [result_simps]:
  "save_server v s = Inr s' \<longleftrightarrow> srv_ssh_key_id v \<in> key_id ` set (ssh_keys s) \<and>
     ref_ok (ten_id ` set (tenants s)) (srv_tenant v) \<and> s' = s\<lparr>servers := put_row srv_id v (servers s)\<rparr>"
  "save_client c s = Inr s' \<longleftrightarrow> cli_name c \<notin> cli_name ` set (others cli_id c (clients s)) \<and>
     cli_server_id c \<in> srv_id ` set (servers s) \<and> ref_ok (key_id ` set (ssh_keys s)) (cli_ssh_key_id c) \<and>
     ref_ok (ten_id ` set (tenants s)) (cli_tenant c) \<and> s' = s\<lparr>clients := put_row cli_id c (clients s)\<rparr>"
  "save_ssh_key k s = Inr s' \<longleftrightarrow> key_name k \<notin> key_name ` set (others key_id k (ssh_keys s)) \<and>
     ref_ok (ten_id ` set (tenants s)) (key_tenant k) \<and> s' = s\<lparr>ssh_keys := put_row key_id k (ssh_keys s)\<rparr>"
  "save_tenant t s = Inr s' \<longleftrightarrow> ten_name t \<notin> ten_name ` set (others ten_id t (tenants s)) \<and>
     ten_slug t \<notin> ten_slug ` set (others ten_id t (tenants s)) \<and> s' = s\<lparr>tenants := put_row ten_id t (tenants s)\<rparr>"
  by (auto simp: save_server_def save_client_def save_ssh_key_def save_tenant_def)

lemma delete_simps [result_simps]:
  "delete_server_row i s = Inr s' \<longleftrightarrow> i \<notin> cli_server_id ` set (clients s) \<and> i \<notin> dp_server_id ` set (discovered_peers s) \<and>
     i \<notin> et_server_id ` set (enrollment_tokens s) \<and> s' = s\<lparr>servers := del_row srv_id i (servers s)\<rparr>"
  "delete_ssh_key_row i s = Inr s' \<longleftrightarrow> i \<notin> srv_ssh_key_id ` set (servers s) \<and> Some i \<notin> cli_ssh_key_id ` set (clients s) \<and>
     i \<notin> et_ssh_key_id ` set (enrollment_tokens s) \<and> s' = s\<lparr>ssh_keys := del_row key_id i (ssh_keys s)\<rparr>"
  by (auto simp: delete_server_row_def delete_ssh_key_row_def)

lemma ref_ok_insert: "ref_ok ids r \<Longrightarrow> ref_ok (insert i ids) r"
  by (cases r) auto

lemma keys_put_row_set: "key ` set (put_row key r rows) = key ` set rows"
  by (metis keys_put_row set_map)

lemma keys_del_row_set: "key ` {r \<in> S. key r \<noteq> i} = key ` S - {i}"
  by auto

lemma distinct_map_put_row:
  assumes "distinct (map f rows)" and "distinct (map key rows)" and "f r \<notin> f ` set (others key r rows)"
  shows "distinct (map f (put_row key r rows))"
  using assms
proof (induction rows)
  case (Cons x xs)
  show ?case
  proof (cases "key x = key r")
    case True
    then have "put_row key r xs = xs" unfolding put_row_def using Cons.prems(2) by (intro map_idI) (auto simp: image_iff)
    moreover have "others key r (x # xs) = xs"
      using True Cons.prems(2) by (auto simp: others_def image_iff filter_id_conv)
    ultimately show ?thesis using True Cons.prems by (simp add: put_row_def)
  next
    case False
    then have "f x \<notin> f ` set (put_row key r xs)" using Cons.prems by (auto simp: in_put_row others_def)
    then show ?thesis using False Cons by (auto simp: put_row_def others_def)
  qed
qed (simp add: put_row_def)

lemma distinct_map_del_row: "distinct (map f rows) \<Longrightarrow> distinct (map f (del_row key i rows))"
  by (simp add: del_row_def distinct_map_filter)

lemma ref_ok_remove: "ref_ok ids r \<Longrightarrow> r \<noteq> Some i \<Longrightarrow> ref_ok (ids - {i}) r"
  by (cases r) auto

lemma wf_insert:
  assumes "wf_state s"
  shows "insert_server v s = Inr s' \<Longrightarrow> srv_id v \<notin> srv_id ` set (servers s) \<Longrightarrow> wf_state s'"
    and "insert_client c s = Inr s' \<Longrightarrow> cli_id c \<notin> cli_id ` set (clients s) \<Longrightarrow> wf_state s'"
    and "insert_ssh_key k s = Inr s' \<Longrightarrow> key_id k \<notin> key_id ` set (ssh_keys s) \<Longrightarrow> wf_state s'"
    and "insert_tenant t s = Inr s' \<Longrightarrow> ten_id t \<notin> ten_id ` set (tenants s) \<Longrightarrow> wf_state s'"
    and "insert_join j s = Inr s' \<Longrightarrow> ot_id j \<notin> ot_id ` set (operator_tenants s) \<Longrightarrow> wf_state s'"
  subgoal using assms by (auto simp: wf_simps result_simps)
  subgoal using assms by (auto simp: wf_simps insert_client_Inr)
  subgoal using assms by (auto simp: wf_simps result_simps intro: ref_ok_insert)
  subgoal using assms by (auto simp: wf_simps result_simps intro: ref_ok_insert)
  subgoal using assms by (auto simp: wf_simps result_simps)
  done

lemma wf_save:
  assumes "wf_state s"
  shows "save_server v s = Inr s' \<Longrightarrow> wf_state s'"
    and "save_client c s = Inr s' \<Longrightarrow> wf_state s'"
    and "save_ssh_key k s = Inr s' \<Longrightarrow> wf_state s'"
    and "save_tenant t s = Inr s' \<Longrightarrow> wf_state s'"
  subgoal using assms by (auto simp: wf_simps result_simps keys_put_row_set in_put_row)
  subgoal using assms by (auto simp: wf_simps result_simps keys_put_row_set in_put_row intro!: distinct_map_put_row)
  subgoal using assms by (auto simp: wf_simps result_simps keys_put_row_set in_put_row intro!: distinct_map_put_row)
  subgoal using assms by (auto simp: wf_simps result_simps keys_put_row_set in_put_row intro!: distinct_map_put_row)
  done

lemma wf_delete:
  assumes "wf_state s"
  shows "delete_server_row i s = Inr s' \<Longrightarrow> wf_state s'"
    and "delete_ssh_key_row i s = Inr s' \<Longrightarrow> wf_state s'"
    and "wf_state (s\<lparr>clients := filter P (clients s), discovered_peers := filter Q (discovered_peers s)\<rparr>)"
    and "wf_state (s\<lparr>operator_tenants := filter R (operator_tenants s)\<rparr>)"
  subgoal using assms by (auto simp: wf_simps result_simps keys_del_row_set)
  subgoal using assms by (auto simp: wf_simps result_simps keys_del_row_set image_iff [of "Some i"] intro!: ref_ok_remove distinct_map_del_row)
  subgoal using assms by (auto simp: wf_simps distinct_map_filter)
  subgoal using assms by (auto simp: wf_simps distinct_map_filter)
  done

lemma wf_persist: "wf_state s \<Longrightarrow> persist e a x s = Inr (s', r) \<Longrightarrow> wf_state s'"
  by (cases r) (auto simp: wf_simps persist_Inr audit_row_def)

end
