(* ===== verification/Enroll_App.thy ===== *)
theory Enroll_App
  imports Tasks Address_Plan Row_Store
begin

text \<open>
  \<^verbatim>\<open>enroll_app.py\<close>: the redemption of an enrollment token on the public listener. It
  runs in one database transaction. Its plain reads see the snapshot the transaction's first read took, the
  guarded update and the insert act on the current state; with a database that reads
  committed data, the two coincide. JSON decoding of the body and loading an SSH public
  key are parameters.
\<close>

section \<open>Request and environment\<close>

record enroll_request =
  rq_peer :: "string option"
  rq_authorization :: "string option"
  rq_body :: string

record enroll_payload =
  py_hostname :: string
  py_wg_public_key :: string
  py_ssh_host_public_key :: string

record enroll_env =
  en_ca :: "ssh_ca result"
  en_ttl :: int
  decode_body :: "string \<Rightarrow> (string \<times> string \<times> string) option"
  load_ed25519 :: "string \<Rightarrow> string option"

record enroll_response =
  resp_client_id :: int
  resp_name :: string
  resp_address :: string
  resp_wg_config :: string
  resp_ssh_username :: string
  resp_user_ca_public_key :: string
  resp_host_certificate :: string
  resp_principals :: "string list"
  resp_task_id :: string

section \<open>Body validation\<close>

definition is_lower_alnum :: "char \<Rightarrow> bool" where
  "is_lower_alnum c \<longleftrightarrow> is_digit c \<or> (let n = of_char c :: nat in 97 \<le> n \<and> n \<le> 122)"

definition host_label :: "string \<Rightarrow> bool" where
  "host_label l \<longleftrightarrow> l \<noteq> [] \<and> is_lower_alnum (hd l) \<and> is_lower_alnum (last l) \<and>
     list_all (\<lambda>c. is_lower_alnum c \<or> c = CHR ''-'') l"

definition enroll_hostname_ok :: "string \<Rightarrow> bool" where
  "enroll_hostname_ok h \<longleftrightarrow> length h \<le> 63 \<and> list_all host_label (split_on CHR ''.'' h)"

definition is_base64 :: "char \<Rightarrow> bool" where
  "is_base64 c \<longleftrightarrow> is_digit c \<or> (let n = of_char c :: nat in (65 \<le> n \<and> n \<le> 90) \<or> (97 \<le> n \<and> n \<le> 122)) \<or>
     c = CHR ''+'' \<or> c = CHR ''/''"

text \<open>Base64 of exactly 32 bytes: 43 characters of the alphabet and one padding character.\<close>

definition wg_key_shape :: "string \<Rightarrow> bool" where
  "wg_key_shape k \<longleftrightarrow> length k = 44 \<and> list_all is_base64 (butlast k) \<and> last k = CHR ''=''"

definition parse_body :: "enroll_env \<Rightarrow> string \<Rightarrow> enroll_payload result" where
  "parse_body en body =
     (case decode_body en body of
        None \<Rightarrow> Inl (HTTPException 422 ''body'')
      | Some (hostname, wg, sshk) \<Rightarrow>
          (case load_ed25519 en sshk of
             None \<Rightarrow> Inl (HTTPException 422 ''body'')
           | Some norm \<Rightarrow>
               if enroll_hostname_ok hostname \<and> wg_key_shape wg
               then Inr \<lparr>py_hostname = hostname, py_wg_public_key = wg, py_ssh_host_public_key = norm\<rparr>
               else Inl (HTTPException 422 ''body'')))"

section \<open>Redemption\<close>

definition bearer :: "string option \<Rightarrow> string option" where
  "bearer authorization =
     (case authorization of
        None \<Rightarrow> None
      | Some a \<Rightarrow>
          if a = [] then None
          else let (scheme, _, value) = partition_on CHR '' '' a in
            if lower scheme \<noteq> ''bearer'' \<or> strip value = [] then None else Some (strip value))"

text \<open>
  The checks on the token, in order; the reason and the token id go to the audit line
  and the metrics only.
\<close>

definition check_token :: "env \<Rightarrow> enroll_request \<Rightarrow> state \<Rightarrow> enrollment_token result" where
  "check_token e rq snap =
     rbind (or_raise (bearer (rq_authorization rq)) (EnrollReject ''missing_token'' None)) (\<lambda>token.
     rbind (or_raise (find_token e snap token) (EnrollReject ''unknown_token'' None)) (\<lambda>row.
     rbind (check (et_revoked_at row = None) (EnrollReject ''revoked'' (Some (et_id row)))) (\<lambda>_.
     rbind (check (\<not> is_expired row (now e)) (EnrollReject ''expired'' (Some (et_id row)))) (\<lambda>_.
     rbind (check (\<not> et_max_uses row \<le> et_use_count row) (EnrollReject ''exhausted'' (Some (et_id row)))) (\<lambda>_.
     rbind (source_allowed row (rq_peer rq)) (\<lambda>ok.
     rbind (check ok (EnrollReject ''source_not_allowed'' (Some (et_id row)))) (\<lambda>_. Inr row)))))))"


text \<open>The audit line \<^verbatim>\<open>_reject\<close> writes.\<close>

definition reject_line :: "env \<Rightarrow> enroll_request \<Rightarrow> string \<Rightarrow> int option \<Rightarrow> string" where
  "reject_line e rq reason token_id =
     emit e ''enroll.reject'' [(''reason'', JStr reason), (''token_id'', json_int_opt token_id), (''peer'', json_opt (rq_peer rq))]"

definition admitted_client ::
  "env \<Rightarrow> enrollment_token \<Rightarrow> enroll_payload \<Rightarrow> server \<Rightarrow> nat \<Rightarrow> host_cert \<Rightarrow> string \<Rightarrow> client" where
  "admitted_client e row p server address cert ca_pub =
     \<lparr>cli_id = new_id e, cli_tenant = et_tenant row,
      cli_name = et_name_prefix row @ ''-'' @ py_hostname p, cli_hostname = Some (ip4_str address),
      cli_ssh_port = 22, cli_ssh_username = Some (et_ssh_username row), cli_ssh_key_id = Some (et_ssh_key_id row),
      cli_server_id = srv_id server, cli_address = ip4_str address @ ''/32'',
      cli_public_key = py_wg_public_key p, cli_is_manual = False, cli_status = Ready, cli_created_at = now e,
      cli_host_cert = persist_host_cert cert ca_pub\<rparr>"

definition allocate_or_409 :: "state \<Rightarrow> server \<Rightarrow> nat result" where
  "allocate_or_409 snap server = (case allocate_client_ip snap server of
       Inl (IPPoolExhausted m) \<Rightarrow> Inl (HTTPException 409 m) | r \<Rightarrow> r)"

definition sign_or_502 :: "ssh_ca \<Rightarrow> enroll_payload \<Rightarrow> nat \<Rightarrow> int \<Rightarrow> host_cert result" where
  "sign_or_502 ca p address ttl = (case mint_host_cert ca (py_ssh_host_public_key p) [ip4_str address] ttl of
       Inl (SSHCAError m) \<Rightarrow> Inl (HTTPException 502 ''certificate authority unavailable; retry later'') | r \<Rightarrow> r)"

definition admit ::
  "env \<Rightarrow> enroll_env \<Rightarrow> enrollment_token \<Rightarrow> enroll_payload \<Rightarrow> state \<Rightarrow> state \<Rightarrow>
   (state \<times> client \<times> server \<times> host_cert \<times> string) result" where
  "admit e en row p snap s =
     rbind (case get_row srv_id (servers snap) (et_server_id row) of
         None \<Rightarrow> Inl (HTTPException 503 ''hub not ready; retry later'')
       | Some v \<Rightarrow> if srv_status v \<noteq> Ready then Inl (HTTPException 503 ''hub not ready; retry later'') else Inr v) (\<lambda>server.
     let name = et_name_prefix row @ ''-'' @ py_hostname p in
     rbind (check (name \<notin> cli_name ` set (clients snap))
       (HTTPException 409 (''client '' @ py_repr name @ '' already exists''))) (\<lambda>_.
     rbind (check (py_wg_public_key p \<notin> cli_public_key ` set (clients snap))
       (HTTPException 409 ''wg_public_key already enrolled'')) (\<lambda>_.
     rbind (allocate_or_409 snap server) (\<lambda>address.
     rbind (en_ca en) (\<lambda>ca.
     rbind (sign_or_502 ca p address (en_ttl en)) (\<lambda>cert.
     let client = admitted_client e row p server address cert (ca_public_key ca) in
     rbind (insert_client client s) (\<lambda>s'. Inr (s', client, server, cert, ca_public_key ca))))))))"

definition no_actor :: actor where
  "no_actor = \<lparr>actor_cn = None, actor_serial = None, actor_role = None\<rparr>"

definition enroll_audit :: "env \<Rightarrow> enroll_request \<Rightarrow> enrollment_token \<Rightarrow> enroll_payload \<Rightarrow> client \<Rightarrow> audit_args" where
  "enroll_audit e rq row p c =
     \<lparr>aa_event = ''client.enroll'', aa_resource_type = ''client'', aa_resource_id = Some (cli_id c),
      aa_action = ''create'', aa_before = None, aa_after = Some (client_json e c),
      aa_payload = Some [(''token_id'', JInt (et_id row)), (''hostname'', JStr (py_hostname p)),
        (''server_id'', JInt (et_server_id row)), (''peer'', json_opt (rq_peer rq))],
      aa_request_id = None, aa_tenant_id = cli_tenant c\<rparr>"

text \<open>
  The transaction: \<^verbatim>\<open>acquired\<close> is the answer of the hub's address lock. Any exception
  before the commit rolls everything back.
\<close>

definition enroll_tx ::
  "env \<Rightarrow> enroll_env \<Rightarrow> enroll_request \<Rightarrow> bool \<Rightarrow> state \<Rightarrow>
   (state, enrollment_token \<times> client \<times> server \<times> host_cert \<times> string) handler" where
  "enroll_tx e en rq acquired snap = atomically (\<lambda>s.
     rbind (check_token e rq snap) (\<lambda>row.
     rbind (parse_body en (rq_body rq)) (\<lambda>p.
     rbind (check acquired (HTTPException 503 ''enrollment busy; retry'')) (\<lambda>_.
     let (s1, taken) = consume_token row s in
     rbind (check taken (EnrollReject ''exhausted'' (Some (et_id row)))) (\<lambda>_.
     rbind (admit e en row p snap s1) (\<lambda>(s2, client, server, cert, ca_pub).
     rbind (persist e no_actor (enroll_audit e rq row p client) s2) (\<lambda>(s3, _).
       Inr (s3, row, client, server, cert, ca_pub))))))))"

definition enroll ::
  "env \<Rightarrow> enroll_env \<Rightarrow> enroll_request \<Rightarrow> bool \<Rightarrow> state \<Rightarrow> (state, enroll_response) handler" where
  "enroll e en rq acquired snap =
     andThen (enroll_tx e en rq acquired snap) (\<lambda>(row, client, server, cert, ca_pub).
     andThen (request_reconfigure e (et_server_id row)) (\<lambda>tid s.
       (s, Inr \<lparr>resp_client_id = cli_id client, resp_name = cli_name client, resp_address = cli_address client,
          resp_wg_config = render_enrolled_client_config client server,
          resp_ssh_username = (case cli_ssh_username client of None \<Rightarrow> [] | Some u \<Rightarrow> u),
          resp_user_ca_public_key = ca_pub, resp_host_certificate = hcert_pem cert,
          resp_principals = hcert_principals cert, resp_task_id = tid\<rparr>)))"

section \<open>Lemmas\<close>

lemma check_token_Inr:
  assumes "check_token e rq snap = Inr row"
  shows "\<exists>token. bearer (rq_authorization rq) = Some token \<and> row \<in> set (enrollment_tokens snap) \<and>
     et_token_hash row = sha256 e token \<and> token_status row (now e) = Token_Active \<and>
     source_allowed row (rq_peer rq) = Inr True"
  using assms
  by (auto simp: check_token_def result_simps find_token_def hash_token_def token_status_def dest!: find_SomeD)


lemma consume_token_taken:
  assumes "distinct (map et_id (enrollment_tokens s))" and "consume_token row s = (s1, True)"
  shows "\<exists>t \<in> set (enrollment_tokens s). consumable (et_id row) t \<and>
     s1 = s\<lparr>enrollment_tokens := put_row et_id (t\<lparr>et_use_count := et_use_count t + 1\<rparr>) (enrollment_tokens s)\<rparr>"
proof -
  have s1: "s1 = s\<lparr>enrollment_tokens := upd_where (consumable (et_id row)) (\<lambda>r. r\<lparr>et_use_count := et_use_count r + 1\<rparr>) (enrollment_tokens s)\<rparr>"
    using assms(2) by (auto simp: consume_token_def)
  obtain t where t: "t \<in> set (enrollment_tokens s)" "consumable (et_id row) t"
    using consume_token_iff [OF assms(1), of row] assms(2) by auto
  have "(if consumable (et_id row) x then x\<lparr>et_use_count := et_use_count x + 1\<rparr> else x) =
      (if et_id x = et_id t then t\<lparr>et_use_count := et_use_count t + 1\<rparr> else x)"
    if "x \<in> set (enrollment_tokens s)" for x
    using that t distinct_map_eq [OF assms(1) that t(1)] by (auto simp: consumable_def)
  then show ?thesis using t by (auto simp: s1 upd_where_def put_row_def cong: map_cong)
qed

lemma allocate_or_409_Inr: "allocate_or_409 snap v = Inr a \<longleftrightarrow> allocate_client_ip snap v = Inr a"
  by (auto simp: allocate_or_409_def split: sum.splits exn.splits)

lemma sign_or_502_Inr: "sign_or_502 ca p a ttl = Inr cert \<longleftrightarrow>
   mint_host_cert ca (py_ssh_host_public_key p) [ip4_str a] ttl = Inr cert"
  by (auto simp: sign_or_502_def split: sum.splits exn.splits)

lemmas tx_simps = result_simps persist_Inr insert_client_Inr allocate_or_409_Inr sign_or_502_Inr

lemma admit_Inr:
  assumes "admit e en row p snap s = Inr (s', c, v, cert, ca_pub)"
  shows "\<exists>a ca. get_row srv_id (servers snap) (et_server_id row) = Some v \<and> srv_status v = Ready \<and>
     allocate_client_ip snap v = Inr a \<and> en_ca en = Inr ca \<and> ca_pub = ca_public_key ca \<and>
     mint_host_cert ca (py_ssh_host_public_key p) [ip4_str a] (en_ttl en) = Inr cert \<and>
     c = admitted_client e row p v a cert ca_pub \<and> py_wg_public_key p \<notin> cli_public_key ` set (clients snap) \<and>
     insert_client c s = Inr s'"
  using assms by (auto simp: admit_def Let_def result_simps allocate_or_409_Inr sign_or_502_Inr
      split: option.splits if_splits)

lemma enroll_tx_Inr:
  assumes "enroll_tx e en rq acq snap s = (s', Inr (row, c, v, cert, ca_pub))"
  shows "\<exists>p s1 s2. check_token e rq snap = Inr row \<and> parse_body en (rq_body rq) = Inr p \<and> acq \<and>
     consume_token row s = (s1, True) \<and> admit e en row p snap s1 = Inr (s2, c, v, cert, ca_pub) \<and>
     s' = s2\<lparr>audit_events := audit_events s2 @ [audit_row e no_actor (enroll_audit e rq row p c)]\<rparr>"
  using assms by (auto simp: enroll_tx_def tx_simps Let_def split_beta) (metis prod.collapse)

section \<open>Correctness\<close>

lemma enroll_tx_success:
  assumes "distinct (map et_id (enrollment_tokens s))"
    and "enroll_tx e en rq acquired snap s = (s', Inr (row, c, v, cert, ca_pub))"
  shows "\<exists>token t p a ca. bearer (rq_authorization rq) = Some token \<and> row \<in> set (enrollment_tokens snap) \<and>
     et_token_hash row = sha256 e token \<and> token_status row (now e) = Token_Active \<and>
     source_allowed row (rq_peer rq) = Inr True \<and> parse_body en (rq_body rq) = Inr p \<and>
     get_row srv_id (servers snap) (et_server_id row) = Some v \<and> srv_status v = Ready \<and>
     t \<in> set (enrollment_tokens s) \<and> et_id t = et_id row \<and> et_use_count t < et_max_uses t \<and> et_revoked_at t = None \<and>
     allocate_client_ip snap v = Inr a \<and> en_ca en = Inr ca \<and>
     mint_host_cert ca (py_ssh_host_public_key p) [ip4_str a] (en_ttl en) = Inr cert \<and>
     c = admitted_client e row p v a cert (ca_public_key ca) \<and>
     cli_name c \<notin> cli_name ` set (clients s) \<and> cli_public_key c \<notin> cli_public_key ` set (clients snap) \<and>
     s' = s\<lparr>clients := clients s @ [c],
            enrollment_tokens := put_row et_id (t\<lparr>et_use_count := et_use_count t + 1\<rparr>) (enrollment_tokens s),
            audit_events := audit_events s @ [audit_row e no_actor (enroll_audit e rq row p c)]\<rparr>"
proof -
  obtain p s1 s2 where ct: "check_token e rq snap = Inr row" and p: "parse_body en (rq_body rq) = Inr p"
    and s1: "consume_token row s = (s1, True)" and ad: "admit e en row p snap s1 = Inr (s2, c, v, cert, ca_pub)"
    and s': "s' = s2\<lparr>audit_events := audit_events s2 @ [audit_row e no_actor (enroll_audit e rq row p c)]\<rparr>"
    using enroll_tx_Inr [OF assms(2)] by blast
  obtain token where token: "bearer (rq_authorization rq) = Some token" "row \<in> set (enrollment_tokens snap)"
    "et_token_hash row = sha256 e token" "token_status row (now e) = Token_Active" "source_allowed row (rq_peer rq) = Inr True"
    using check_token_Inr [OF ct] by blast
  obtain t where t: "t \<in> set (enrollment_tokens s)" "consumable (et_id row) t"
    and s1_eq: "s1 = s\<lparr>enrollment_tokens := put_row et_id (t\<lparr>et_use_count := et_use_count t + 1\<rparr>) (enrollment_tokens s)\<rparr>"
    using consume_token_taken [OF assms(1) s1] by blast
  obtain a ca where a: "get_row srv_id (servers snap) (et_server_id row) = Some v" "srv_status v = Ready"
    "allocate_client_ip snap v = Inr a" "en_ca en = Inr ca" "ca_pub = ca_public_key ca"
    "mint_host_cert ca (py_ssh_host_public_key p) [ip4_str a] (en_ttl en) = Inr cert"
    "c = admitted_client e row p v a cert ca_pub" "py_wg_public_key p \<notin> cli_public_key ` set (clients snap)"
    "insert_client c s1 = Inr s2"
    using admit_Inr [OF ad] by blast
  have clients1: "clients s1 = clients s" by (simp add: s1_eq)
  have "cli_name c \<notin> cli_name ` set (clients s)" and s2: "s2 = s1\<lparr>clients := clients s @ [c]\<rparr>"
    using a(9) by (auto simp: insert_client_Inr clients1)
  moreover have "cli_public_key c \<notin> cli_public_key ` set (clients snap)"
    using a(7,8) by (simp add: admitted_client_def)
  moreover have "s' = s\<lparr>clients := clients s @ [c],
      enrollment_tokens := put_row et_id (t\<lparr>et_use_count := et_use_count t + 1\<rparr>) (enrollment_tokens s),
      audit_events := audit_events s @ [audit_row e no_actor (enroll_audit e rq row p c)]\<rparr>"
    by (simp add: s' s2 s1_eq)
  ultimately show ?thesis
    using token t(1,2) p a by (auto simp: consumable_def)
qed




lemma enroll_tx_client:
  assumes "enroll_tx e en rq acquired snap s = (s', Inr (row, c, v, cert, ca_pub))"
  shows "\<exists>p a. allocate_client_ip snap v = Inr a \<and> c = admitted_client e row p v a cert ca_pub \<and>
     get_row srv_id (servers snap) (et_server_id row) = Some v"
proof -
  obtain p s1 s2 where "admit e en row p snap s1 = Inr (s2, c, v, cert, ca_pub)"
    using enroll_tx_Inr [OF assms] by blast
  from admit_Inr [OF this] show ?thesis by blast
qed

lemma enroll_tx_tables:
  assumes "distinct (map et_id (enrollment_tokens s))"
    and "enroll_tx e en rq acquired snap s = (s', Inr (row, c, v, cert, ca_pub))"
  shows "clients s' = clients s @ [c]" and "servers s' = servers s"
    and "\<exists>t \<in> set (enrollment_tokens s). consumable (et_id row) t \<and>
       enrollment_tokens s' = put_row et_id (t\<lparr>et_use_count := et_use_count t + 1\<rparr>) (enrollment_tokens s)"
  using enroll_tx_success [OF assms] by (auto simp: consumable_def)

text \<open>
  A redemption whose reads see the committed rows of the hub keeps the addresses of
  every hub pairwise distinct.
\<close>

theorem enroll_keeps_addresses_unique:
  assumes "distinct (map et_id (enrollment_tokens s))" and "distinct (map srv_id (servers s))"
    and "addresses_unique s"
    and "enroll_tx e en rq acquired snap s = (s', Inr (row, c, v, cert, ca_pub))"
    and "servers snap = servers s" and "client_addresses snap v = client_addresses s v"
  shows "addresses_unique s'"
proof -
  obtain p a where a: "allocate_client_ip snap v = Inr a" and c: "c = admitted_client e row p v a cert ca_pub"
    and v: "get_row srv_id (servers snap) (et_server_id row) = Some v"
    using enroll_tx_client [OF assms(4)] by blast
  have "clients s' = clients s @ [c]" "servers s' = servers s"
    using enroll_tx_tables [OF assms(1,4)] by simp_all
  moreover have "v \<in> set (servers s)" using get_row_SomeD [OF v] assms(5) by simp
  ultimately show ?thesis
    using allocation_keeps_unique [OF assms(2,3) a _ assms(6)] c by (simp add: admitted_client_def)
qed

section \<open>The life of tokens\<close>

text \<open>
  Every way the program changes the token table: minting, revoking, sweeping,
  redeeming. \<^term>\<open>m\<close> remembers the number of uses each id was minted with and
  \<^term>\<open>l\<close> lists the token id of every committed redemption; the database does not reuse
  an id. A redemption may read any snapshot.
\<close>

inductive token_life :: "state \<Rightarrow> (int \<Rightarrow> int option) \<Rightarrow> int list \<Rightarrow> bool" where
  start: "enrollment_tokens s = [] \<Longrightarrow> token_life s (\<lambda>_. None) []"
| mint: "token_life s m l \<Longrightarrow> mint_token e entropy server key a s = Inr (s', row, token) \<Longrightarrow> m (new_id e) = None \<Longrightarrow>
    1 \<le> ma_max_uses a \<Longrightarrow> token_life s' (m(new_id e \<mapsto> ma_max_uses a)) l"
| revoke: "token_life s m l \<Longrightarrow> token_life (fst (revoke_token e row revoked_by s)) m l"
| sweep: "token_life s m l \<Longrightarrow> token_life (fst (delete_dead_tokens retention t s)) m l"
| enroll_ok: "token_life s m l \<Longrightarrow> enroll_tx e en rq acquired snap s = (s', Inr (row, x)) \<Longrightarrow>
    token_life s' m (et_id row # l)"
| enroll_failed: "token_life s m l \<Longrightarrow> enroll_tx e en rq acquired snap s = (s', Inl x) \<Longrightarrow> token_life s' m l"
| other: "token_life s m l \<Longrightarrow> enrollment_tokens s' = enrollment_tokens s \<Longrightarrow> token_life s' m l"

definition uses_accounted :: "state \<Rightarrow> (int \<Rightarrow> int option) \<Rightarrow> int list \<Rightarrow> bool" where
  "uses_accounted s m l \<longleftrightarrow> distinct (map et_id (enrollment_tokens s)) \<and>
     (\<forall>t \<in> set (enrollment_tokens s). m (et_id t) = Some (et_max_uses t) \<and> et_use_count t = int (count_list l (et_id t))) \<and>
     (\<forall>i. int (count_list l i) \<le> (case m i of None \<Rightarrow> 0 | Some k \<Rightarrow> k)) \<and> (\<forall>i k. m i = Some k \<longrightarrow> 1 \<le> k)"

lemma uses_accounted_mint:
  assumes "uses_accounted s m l" and "enrollment_tokens s' = enrollment_tokens s @ [row]"
    and "et_id row = i" and "m i = None" and "et_max_uses row = k" and "et_use_count row = 0" and "1 \<le> k"
  shows "uses_accounted s' (m(i \<mapsto> k)) l"
proof -
  have "count_list l i = 0" using assms(1,4) by (auto simp: uses_accounted_def) (metis of_nat_le_0_iff option.simps(4))
  moreover have "i \<notin> et_id ` set (enrollment_tokens s)" using assms(1,4) by (auto simp: uses_accounted_def)
  ultimately show ?thesis using assms by (auto simp: uses_accounted_def)
qed

lemma uses_accounted_upd:
  assumes "uses_accounted s m l" and "enrollment_tokens s' = upd_where P f (enrollment_tokens s)"
    and "\<And>t. et_id (f t) = et_id t" and "\<And>t. et_max_uses (f t) = et_max_uses t" and "\<And>t. et_use_count (f t) = et_use_count t"
  shows "uses_accounted s' m l"
  using assms(1) by (auto simp: uses_accounted_def assms(2-5) map_upd_where set_upd_where)

lemma uses_accounted_filter:
  assumes "uses_accounted s m l" and "enrollment_tokens s' = filter P (enrollment_tokens s)"
  shows "uses_accounted s' m l"
  using assms(1) by (auto simp: uses_accounted_def assms(2) distinct_map_filter)

lemma uses_accounted_redeem:
  assumes "uses_accounted s m l" and "t \<in> set (enrollment_tokens s)" and "consumable i t"
    and "enrollment_tokens s' = put_row et_id (t\<lparr>et_use_count := et_use_count t + 1\<rparr>) (enrollment_tokens s)"
  shows "uses_accounted s' m (i # l)"
  using assms(1-3) by (auto simp: uses_accounted_def assms(4) in_put_row consumable_def) (metis option.inject)

lemma token_life_accounted: "token_life s m l \<Longrightarrow> uses_accounted s m l"
proof (induction rule: token_life.induct)
  case (start s)
  then show ?case by (simp add: uses_accounted_def)
next
  case (mint s m l e entropy server key a s' row token)
  then show ?case
    using mint(2) [unfolded mint_token_Inr] by (intro uses_accounted_mint [OF mint.IH]) (auto simp: new_token_row_def)
next
  case (revoke s m l e row revoked_by)
  then show ?case
    by (cases "et_revoked_at row = None") (auto simp: revoke_token_def intro: uses_accounted_upd)
next
  case (sweep s m l retention t)
  then show ?case by (auto simp: delete_dead_tokens_def Let_def intro: uses_accounted_filter)
next
  case (enroll_ok s m l e en rq acquired snap s' row x)
  obtain c v cert ca_pub where x: "x = (c, v, cert, ca_pub)" by (cases x)
  have "distinct (map et_id (enrollment_tokens s))" using enroll_ok.IH by (simp add: uses_accounted_def)
  from enroll_tx_tables(3) [OF this enroll_ok(2) [unfolded x]] show ?case
    using uses_accounted_redeem [OF enroll_ok.IH] by blast
next
  case (enroll_failed s m l e en rq acquired snap s' x)
  then show ?case by (simp add: enroll_tx_def result_simps)
next
  case (other s m l s')
  then show ?case by (simp add: uses_accounted_def)
qed

text \<open>
  C3: over any history of minting, revoking, sweeping and (possibly stale) redemptions,
  a token admits at most the number of hosts it was minted for, and the stored counter
  is the number of redemptions committed so far.
\<close>

theorem token_uses_bounded:
  assumes "token_life s m l"
  shows "int (count_list l i) \<le> (case m i of None \<Rightarrow> 0 | Some k \<Rightarrow> k) \<and>
     (\<forall>t \<in> set (enrollment_tokens s). et_use_count t = int (count_list l (et_id t)) \<and> et_use_count t \<le> et_max_uses t)"
proof -
  have "uses_accounted s m l" using assms by (rule token_life_accounted)
  then show ?thesis by (auto simp: uses_accounted_def) (metis option.simps(5))
qed

section \<open>Witnesses\<close>

definition sample_body :: "string \<Rightarrow> (string \<times> string \<times> string) option" where
  "sample_body b = (if b = [] then None else Some (b, replicate 42 CHR ''A'' @ [hd b, CHR ''=''], ''ssh-ed25519 k''))"

definition sample_enroll_env :: enroll_env where
  "sample_enroll_env = \<lparr>en_ca = Inr sample_ca, en_ttl = 3600, decode_body = sample_body, load_ed25519 = Some\<rparr>"

definition enroll_db :: state where
  "enroll_db = sample_db\<lparr>enrollment_tokens := [sample_token\<lparr>et_max_uses := 2\<rparr>]\<rparr>"

definition sample_request :: "string \<Rightarrow> enroll_request" where
  "sample_request b = \<lparr>rq_peer = Some ''198.51.100.7'', rq_authorization = Some ''Bearer wgmenr_x'', rq_body = b\<rparr>"

definition first_enrollment :: "state \<times> (enrollment_token \<times> client \<times> server \<times> host_cert \<times> string) result" where
  "first_enrollment = enroll_tx sample_env sample_enroll_env (sample_request ''web'') True enroll_db enroll_db"

lemma first_enrollment_ok: "\<exists>s' row c v cert ca_pub. first_enrollment = (s', Inr (row, c, v, cert, ca_pub)) \<and>
   cli_address c = ''10.9.0.3/32'' \<and> et_id row = 1 \<and> v = sample_hub \<and> servers s' = servers enroll_db"
proof -
  have "case first_enrollment of (s', Inr (row, c, v, cert, ca_pub)) \<Rightarrow>
      cli_address c = ''10.9.0.3/32'' \<and> et_id row = 1 \<and> v = sample_hub \<and> servers s' = servers enroll_db | _ \<Rightarrow> False"
    by code_simp
  then show ?thesis by (fastforce split: prod.splits sum.splits)
qed


lemma enroll_db_unique: "addresses_unique enroll_db"
  by code_simp

theorem enroll_keeps_addresses_unique_witness:
  "\<exists>s' x. first_enrollment = (s', Inr x) \<and> addresses_unique s'"
proof -
  obtain s' row c v cert ca_pub where ok: "first_enrollment = (s', Inr (row, c, v, cert, ca_pub))"
    using first_enrollment_ok by blast
  have d: "distinct (map et_id (enrollment_tokens enroll_db))" "distinct (map srv_id (servers enroll_db))"
    by (simp_all add: enroll_db_def sample_db_def)
  show ?thesis
    using enroll_keeps_addresses_unique [OF d enroll_db_unique ok [unfolded first_enrollment_def] refl refl] ok by blast
qed


text \<open>
  Two redemptions serialised by the hub's lock, the second of which took its snapshot
  before the first committed (its token lookup precedes the lock): both get the same
  address.
\<close>

theorem stale_snapshot_duplicates_address:
  "\<exists>s1 x1 s2 x2. first_enrollment = (s1, Inr x1) \<and>
     enroll_tx (sample_env\<lparr>new_id := 9\<rparr>) sample_enroll_env (sample_request ''db'') True enroll_db s1 = (s2, Inr x2) \<and>
     \<not> addresses_unique s2"
proof -
  have "case first_enrollment of (s1, Inr x1) \<Rightarrow>
      (case enroll_tx (sample_env\<lparr>new_id := 9\<rparr>) sample_enroll_env (sample_request ''db'') True enroll_db s1 of
         (s2, Inr x2) \<Rightarrow> \<not> addresses_unique s2 | _ \<Rightarrow> False) | _ \<Rightarrow> False"
    by code_simp
  then show ?thesis by (fastforce split: prod.splits sum.splits)
qed

theorem token_uses_bounded_witness:
  "\<exists>s m l. l \<noteq> [] \<and> token_life s m l \<and> int (count_list l 7) \<le> (case m 7 of None \<Rightarrow> 0 | Some k \<Rightarrow> k)"
proof -
  let ?e = "sample_env\<lparr>new_id := 7\<rparr>"
  let ?a = "sample_mint"
  obtain s1 row tok where m: "mint_token ?e ''x'' sample_hub sample_key ?a sample_db = Inr (s1, row, tok)"
    and s1: "s1 = sample_db\<lparr>enrollment_tokens := [row]\<rparr>" "row = new_token_row ?e ''wgmenr_x'' sample_hub sample_key ?a"
    by (simp add: mint_token_def Let_def new_token_row_def generate_token_def TOKEN_PREFIX_def sample_db_def empty_db_def
        sample_hub_def sample_key_def sample_tenant_def)
  have "token_life sample_db (\<lambda>_. None) []" by (rule token_life.start) (simp add: sample_db_def empty_db_def)
  then have l1: "token_life s1 ((\<lambda>_. None)(7 \<mapsto> 1)) []"
    using token_life.mint [OF _ m] by (simp add: sample_mint_def)
  have "case enroll_tx sample_env sample_enroll_env (sample_request ''web'') True s1 s1 of
      (s2, Inr (r, x)) \<Rightarrow> et_id r = 7 | _ \<Rightarrow> False"
    unfolding s1 by code_simp
  then obtain s2 r x where t: "enroll_tx sample_env sample_enroll_env (sample_request ''web'') True s1 s1 = (s2, Inr (r, x))"
    by (auto split: prod.splits sum.splits)
  have l2: "token_life s2 ((\<lambda>_. None)(7 \<mapsto> 1)) [et_id r]" by (rule token_life.enroll_ok [OF l1 t])
  show ?thesis using token_uses_bounded [OF l2, of 7] l2 by (intro exI [of _ s2] exI [of _ "(\<lambda>_. None)(7 \<mapsto> 1)"] exI [of _ "[et_id r]"]) simp
qed

end
