(* ===== verification/Enroll_Limits.thy ===== *)
theory Enroll_Limits
  imports Rate_Limit
begin

text \<open>
  \<^verbatim>\<open>enroll_app.py\<close>: the per-source rate limits in front of the enrollment route, over any
  limiter that satisfies the contract of \<^verbatim>\<open>ratelimit.py\<close>. The application behind the
  middleware is an argument: it may answer or raise, and change its state.
\<close>

section \<open>The rate-limit middleware\<close>

definition ENROLL_PATH :: string where "ENROLL_PATH = ''/v1/enroll''"

record enroll_limits =
  enroll_failure_limit :: int
  enroll_failure_window_seconds :: int
  enroll_rate_limit_requests :: int
  enroll_rate_limit_window_seconds :: int

record reply =
  status_code :: int
  reply_detail :: string
  reply_retry_after :: "int option"

definition too_many :: "int \<Rightarrow> reply" where
  "too_many retry = \<lparr>status_code = 429, reply_detail = ''too many requests'', reply_retry_after = Some retry\<rparr>"

definition failure_statuses :: "int list" where "failure_statuses = [401, 422]"

text \<open>What the middleware writes besides the answer: audit lines and the blocked counter.\<close>

datatype limit_event =
    Emit_Rate_Limited string string int
  | Record_Rate_Limited string

definition unavailable :: reply where
  "unavailable = \<lparr>status_code = 503, reply_detail = ''enrollment temporarily unavailable; retry'',
     reply_retry_after = Some 5\<rparr>"

definition fail_key :: "string \<Rightarrow> string" where "fail_key ip = ''enroll-fail:'' @ ip"

definition req_key :: "string \<Rightarrow> string" where "req_key ip = ''enroll-req:'' @ ip"

text \<open>The two checks before the application runs; \<^term>\<open>Inr None\<close> passes the request on.\<close>

definition limit_gate ::
  "(string \<Rightarrow> int \<Rightarrow> int \<Rightarrow> 'w \<Rightarrow> 'w \<times> decision_rl result) \<Rightarrow> (string \<Rightarrow> int \<Rightarrow> int \<Rightarrow> 'w \<Rightarrow> 'w \<times> decision_rl result) \<Rightarrow>
   enroll_limits \<Rightarrow> string \<Rightarrow> 'w \<Rightarrow> 'w \<times> limit_event list \<times> reply option result" where
  "limit_gate hit peek st ip w =
     (case (if 0 < enroll_failure_limit st
            then peek (fail_key ip) (enroll_failure_limit st) (enroll_failure_window_seconds st) w
            else (w, Inr \<lparr>allowed = True, dcount = 0, retry_after = 0\<rparr>)) of
        (w1, Inl e) \<Rightarrow> (w1, [], Inl e)
      | (w1, Inr locked) \<Rightarrow>
          if \<not> allowed locked
          then (w1, [Record_Rate_Limited ''failures''], Inr (Some (too_many (retry_after locked))))
          else if 0 < enroll_rate_limit_requests st
          then (case hit (req_key ip) (enroll_rate_limit_requests st) (enroll_rate_limit_window_seconds st) w1 of
                  (w2, Inl e) \<Rightarrow> (w2, [], Inl e)
                | (w2, Inr d) \<Rightarrow>
                    if allowed d then (w2, [], Inr None)
                    else (w2, (if dcount d = enroll_rate_limit_requests st + 1
                               then [Emit_Rate_Limited ip ''requests'' (retry_after d)] else []) @
                              [Record_Rate_Limited ''requests''], Inr (Some (too_many (retry_after d)))))
          else (w1, [], Inr None))"

text \<open>The count of a failed attempt; an unreachable backend does not mask the answer.\<close>

definition count_failure ::
  "(string \<Rightarrow> int \<Rightarrow> int \<Rightarrow> 'w \<Rightarrow> 'w \<times> decision_rl result) \<Rightarrow> enroll_limits \<Rightarrow> string \<Rightarrow> reply \<Rightarrow> 'w \<Rightarrow>
   'w \<times> limit_event list \<times> reply result" where
  "count_failure hit st ip rep w =
     (if status_code rep \<in> set failure_statuses \<and> 0 < enroll_failure_limit st
      then (case hit (fail_key ip) (enroll_failure_limit st) (enroll_failure_window_seconds st) w of
              (w', Inl (RateLimitBackendError _)) \<Rightarrow> (w', [], Inr rep)
            | (w', Inl e) \<Rightarrow> (w', [], Inl e)
            | (w', Inr d) \<Rightarrow> (w', if dcount d = enroll_failure_limit st
                                  then [Emit_Rate_Limited ip ''failures'' (retry_after d)] else [], Inr rep))
      else (w, [], Inr rep))"

definition limited_dispatch ::
  "(string \<Rightarrow> int \<Rightarrow> int \<Rightarrow> 'w \<Rightarrow> 'w \<times> decision_rl result) \<Rightarrow> (string \<Rightarrow> int \<Rightarrow> int \<Rightarrow> 'w \<Rightarrow> 'w \<times> decision_rl result) \<Rightarrow>
   enroll_limits \<Rightarrow> string \<Rightarrow> string \<Rightarrow> string option \<Rightarrow> ('s \<Rightarrow> 's \<times> reply result) \<Rightarrow> 'w \<times> 's \<Rightarrow>
   ('w \<times> 's) \<times> limit_event list \<times> reply result" where
  "limited_dispatch hit peek st meth path peer call_next ws =
     (let (w, s) = ws in
      if meth \<noteq> ''POST'' \<or> path \<noteq> ENROLL_PATH
      then (let (s', r) = call_next s in ((w, s'), [], r))
      else let ip = (case peer of None \<Rightarrow> ''unknown'' | Some h \<Rightarrow> h) in
      (case limit_gate hit peek st ip w of
         (w1, ev, Inl (RateLimitBackendError _)) \<Rightarrow> ((w1, s), ev, Inr unavailable)
       | (w1, ev, Inl e) \<Rightarrow> ((w1, s), ev, Inl e)
       | (w1, ev, Inr (Some rep)) \<Rightarrow> ((w1, s), ev, Inr rep)
       | (w1, ev, Inr None) \<Rightarrow>
           (case call_next s of
              (s', Inl e) \<Rightarrow> ((w1, s'), ev, Inl e)
            | (s', Inr rep) \<Rightarrow>
                (let (w2, ev2, r) = count_failure hit st ip rep w1 in ((w2, s'), ev @ ev2, r)))))"

section \<open>Guessing tokens is bounded\<close>

definition source_ip :: "string option \<Rightarrow> string" where
  "source_ip peer = (case peer of None \<Rightarrow> ''unknown'' | Some h \<Rightarrow> h)"

text \<open>
  Enroll requests served one after the other by the in-process limiter; each carries its
  instant, its source and what the application does with it.
\<close>

fun serve_timed ::
  "enroll_limits \<Rightarrow> (int \<times> string option \<times> ('s \<Rightarrow> 's \<times> reply result)) list \<Rightarrow> windows \<times> 's \<Rightarrow>
   (windows \<times> 's) \<times> (string \<times> reply result) list" where
  "serve_timed st [] ws = (ws, [])"
| "serve_timed st ((c, peer, app) # rs) ws =
     (let (ws', _, r) = limited_dispatch (hit_mem (c, c, c)) (peek_mem (c, c, c)) st ''POST'' ENROLL_PATH peer app ws;
          (ws'', out) = serve_timed st rs ws'
      in (ws'', (source_ip peer, r) # out))"

definition is_failure :: "reply result \<Rightarrow> bool" where
  "is_failure r = (case r of Inl _ \<Rightarrow> False | Inr rep \<Rightarrow> status_code rep \<in> set failure_statuses)"

definition failures_of :: "string \<Rightarrow> (string \<times> reply result) list \<Rightarrow> nat" where
  "failures_of ip out = length (filter (\<lambda>(i, r). i = ip \<and> is_failure r) out)"

definition limits_ok :: "enroll_limits \<Rightarrow> bool" where
  "limits_ok st \<longleftrightarrow> 0 < enroll_failure_limit st \<and> 0 < enroll_failure_window_seconds st \<and> 0 < enroll_rate_limit_window_seconds st"

lemma key_simps [simp]:
  "fail_key a = fail_key b \<longleftrightarrow> a = b" "req_key a \<noteq> fail_key b" "fail_key b \<noteq> req_key a"
  by (simp_all add: fail_key_def req_key_def)

lemma too_many_not_failure [simp]: "is_failure (Inr (too_many r)) = False" "is_failure (Inl e) = False"
  by (simp_all add: is_failure_def too_many_def failure_statuses_def)

context rate_limiter
begin

lemma gate_spec:
  assumes "ok w" and "limits_ok st"
  shows "\<exists>w' ev r. limit_gate hit peek st ip w = (w', ev, Inr r) \<and> ok w' \<and>
     (\<forall>i. live w' (fail_key i) = live w (fail_key i)) \<and>
     (r = None \<and> live w (fail_key ip) < enroll_failure_limit st \<or>
      (\<exists>n. r = Some (too_many n)))"
proof -
  obtain w1 d where p: "peek (fail_key ip) (enroll_failure_limit st) (enroll_failure_window_seconds st) w = (w1, Inr d)"
    "ok w1" "live w1 = live w" "allowed d \<longleftrightarrow> live w (fail_key ip) = 0 \<or> live w (fail_key ip) < enroll_failure_limit st"
    using peek_ok [OF assms(1), of "enroll_failure_window_seconds st"] assms(2) by (auto simp: limits_ok_def) blast
  obtain w2 d2 where h: "hit (req_key ip) (enroll_rate_limit_requests st) (enroll_rate_limit_window_seconds st) w1 = (w2, Inr d2)"
    "ok w2" "live w2 = (live w1)(req_key ip := live w1 (req_key ip) + 1)"
    using hit_ok [OF p(2), of "enroll_rate_limit_window_seconds st"] assms(2) by (auto simp: limits_ok_def) blast
  show ?thesis
  proof (cases "allowed d")
    case True
    then have "live w (fail_key ip) < enroll_failure_limit st" using p(4) assms(2) by (auto simp: limits_ok_def)
    with True show ?thesis using p h assms(2) by (auto simp: limit_gate_def limits_ok_def)
  next
    case False
    with p assms(2) show ?thesis by (auto simp: limit_gate_def limits_ok_def)
  qed
qed

lemma dispatch_spec:
  assumes "ok w" and "limits_ok st" and "ip = source_ip peer"
    and "limited_dispatch hit peek st ''POST'' ENROLL_PATH peer app (w, s) = ((w', s'), ev, r)"
  shows "ok w'" and "live w' (fail_key i) = live w (fail_key i) + (if i = ip \<and> is_failure r then 1 else 0)"
    and "is_failure r \<Longrightarrow> live w (fail_key ip) < enroll_failure_limit st"
    and "enroll_failure_limit st \<le> live w (fail_key ip) \<Longrightarrow> s' = s \<and> (\<exists>n. r = Inr (too_many n))"
proof -
  obtain w1 ev1 g where g: "limit_gate hit peek st ip w = (w1, ev1, Inr g)" "ok w1"
    "\<And>i. live w1 (fail_key i) = live w (fail_key i)"
    "g = None \<and> live w (fail_key ip) < enroll_failure_limit st \<or> (\<exists>n. g = Some (too_many n))"
    using gate_spec [OF assms(1,2)] by metis
  obtain w2 d where h: "hit (fail_key ip) (enroll_failure_limit st) (enroll_failure_window_seconds st) w1 = (w2, Inr d)"
    "ok w2" "live w2 = (live w1)(fail_key ip := live w1 (fail_key ip) + 1)"
    using hit_ok [OF g(2), of "enroll_failure_window_seconds st"] assms(2) by (auto simp: limits_ok_def) blast
  have ip: "(case peer of None \<Rightarrow> ''unknown'' | Some h \<Rightarrow> h) = ip" by (simp add: assms(3) source_ip_def)
  have all: "ok w' \<and> (\<forall>i. live w' (fail_key i) = live w (fail_key i) + (if i = ip \<and> is_failure r then 1 else 0)) \<and>
      (is_failure r \<longrightarrow> live w (fail_key ip) < enroll_failure_limit st) \<and>
      (enroll_failure_limit st \<le> live w (fail_key ip) \<longrightarrow> s' = s \<and> (\<exists>n. r = Inr (too_many n)))"
    using g(4)
  proof (elim disjE conjE exE)
    assume "g = None" "live w (fail_key ip) < enroll_failure_limit st"
    then show ?thesis
      using assms(2,4) g(1,2,3) h
      by (cases "app s"; cases "snd (app s)")
        (auto simp: limited_dispatch_def ip count_failure_def is_failure_def limits_ok_def split: if_splits)
  next
    fix n assume "g = Some (too_many n)"
    then show ?thesis using assms(4) g(1,2,3) by (auto simp: limited_dispatch_def ip)
  qed
  show "ok w'" "live w' (fail_key i) = live w (fail_key i) + (if i = ip \<and> is_failure r then 1 else 0)"
    "is_failure r \<Longrightarrow> live w (fail_key ip) < enroll_failure_limit st"
    "enroll_failure_limit st \<le> live w (fail_key ip) \<Longrightarrow> s' = s \<and> (\<exists>n. r = Inr (too_many n))"
    using all by blast+
qed

lemma locked_out:
  assumes "ok w" and "limits_ok st" and "ip = source_ip peer" and "enroll_failure_limit st \<le> live w (fail_key ip)"
  shows "\<exists>w' ev n. limited_dispatch hit peek st ''POST'' ENROLL_PATH peer app (w, s) = ((w', s), ev, Inr (too_many n)) \<and>
     live w' (fail_key ip) = live w (fail_key ip)"
proof -
  obtain w' s' ev r where d: "limited_dispatch hit peek st ''POST'' ENROLL_PATH peer app (w, s) = ((w', s'), ev, r)"
    by (metis prod.collapse)
  then show ?thesis
    using dispatch_spec(4) [OF assms(1-3) d assms(4)] dispatch_spec(2) [OF assms(1-3) d, of ip] by auto
qed

end

text \<open>
  No window of the key that is open at \<^verbatim>\<open>c\<close> closes before \<^verbatim>\<open>hi\<close>; limiter calls at instants from
  \<^verbatim>\<open>lo\<close> on keep it so when windows last at least until \<^verbatim>\<open>hi\<close>.
\<close>

definition open_until :: "int \<Rightarrow> int \<Rightarrow> string \<Rightarrow> windows \<Rightarrow> bool" where
  "open_until c hi key w \<longleftrightarrow> (case w key of None \<Rightarrow> True | Some (n, reset) \<Rightarrow> reset \<le> c \<or> hi \<le> reset)"

lemma open_until_hit:
  assumes "open_until c hi key w" and "key = k \<Longrightarrow> hi \<le> c + window * 1000000"
  shows "open_until c hi key (fst (hit_mem (c, c, c) k limit window w))"
  using assms by (auto simp: open_until_def hit_mem_eq window_at_def split: option.splits if_splits)

lemma open_until_peek:
  assumes "open_until c hi key w"
  shows "open_until c hi key (fst (peek_mem (c, c, c) k limit window w))"
  using assms by (auto simp: open_until_def peek_mem_def current_mem_def split: option.splits if_splits)

lemma open_until_later:
  assumes "open_until c hi key w" and "c \<le> c'" and "c' < hi"
  shows "open_until c' hi key w" and "live_mem c' w key = live_mem c w key"
  using assms by (auto simp: open_until_def live_mem_def split: option.splits)

lemma open_until_gate:
  assumes "open_until c hi (fail_key ip) w"
  shows "open_until c hi (fail_key ip) (fst (limit_gate (hit_mem (c, c, c)) (peek_mem (c, c, c)) st i w))"
proof -
  let ?p = "peek_mem (c, c, c) (fail_key i) (enroll_failure_limit st) (enroll_failure_window_seconds st) w"
  let ?h = "\<lambda>w. hit_mem (c, c, c) (req_key i) (enroll_rate_limit_requests st) (enroll_rate_limit_window_seconds st) w"
  have 1: "open_until c hi (fail_key ip) (fst ?p)" using assms by (rule open_until_peek)
  have 2: "open_until c hi (fail_key ip) (fst (?h x))" if "open_until c hi (fail_key ip) x" for x
    using that by (rule open_until_hit) simp
  show ?thesis using assms 1 2 [OF assms] 2 [OF 1]
    by (auto simp: limit_gate_def split: prod.splits sum.splits)
qed

lemma open_until_count:
  assumes "open_until c hi (fail_key ip) w" and "hi \<le> c + enroll_failure_window_seconds st * 1000000"
  shows "open_until c hi (fail_key ip) (fst (count_failure (hit_mem (c, c, c)) st i rep w))"
proof -
  have "open_until c hi (fail_key ip)
      (fst (hit_mem (c, c, c) (fail_key i) (enroll_failure_limit st) (enroll_failure_window_seconds st) w))"
    using assms by (intro open_until_hit) auto
  then show ?thesis using assms(1) by (auto simp: count_failure_def split: prod.splits sum.splits exn.splits)
qed

lemma open_until_dispatch:
  assumes "open_until c hi (fail_key ip) w" and "hi \<le> c + enroll_failure_window_seconds st * 1000000"
    and "limited_dispatch (hit_mem (c, c, c)) (peek_mem (c, c, c)) st ''POST'' ENROLL_PATH peer app (w, s) = ((w', s'), ev, r)"
  shows "open_until c hi (fail_key ip) w'"
proof -
  let ?i = "case peer of None \<Rightarrow> ''unknown'' | Some h \<Rightarrow> h"
  let ?g = "limit_gate (hit_mem (c, c, c)) (peek_mem (c, c, c)) st ?i w"
  have g: "open_until c hi (fail_key ip) (fst ?g)" using assms(1) by (rule open_until_gate)
  have f: "open_until c hi (fail_key ip) (fst (count_failure (hit_mem (c, c, c)) st ?i rep (fst ?g)))" for rep
    using g assms(2) by (rule open_until_count)
  have "w' = fst ?g \<or> (\<exists>rep. w' = fst (count_failure (hit_mem (c, c, c)) st ?i rep (fst ?g)))"
    using assms(3) by (auto simp: limited_dispatch_def Let_def split: prod.splits sum.splits exn.splits option.splits) (metis fst_conv)+
  then show ?thesis using f g by auto
qed

lemma serve_timed_bounded:
  assumes "ok_mem w" and "limits_ok st" and "sorted (t # map fst rs)"
    and "\<And>c. c \<in> set (t # map fst rs) \<Longrightarrow> lo \<le> c \<and> c < hi" and "hi \<le> lo + enroll_failure_window_seconds st * 1000000"
    and "open_until t hi (fail_key ip) w" and "live_mem t w (fail_key ip) \<le> enroll_failure_limit st"
    and "serve_timed st rs (w, s) = ((w', s'), out)"
  shows "live_mem t w (fail_key ip) + int (failures_of ip out) \<le> enroll_failure_limit st"
  using assms(1,3,4,6,7,8)
proof (induction rs arbitrary: t w s out)
  case (Cons x rs)
  obtain c peer app where x: "x = (c, peer, app)" by (cases x)
  obtain w1 s1 ev r where d: "limited_dispatch (hit_mem (c, c, c)) (peek_mem (c, c, c)) st ''POST'' ENROLL_PATH peer app (w, s) = ((w1, s1), ev, r)"
    by (metis prod.collapse)
  obtain out1 where o: "serve_timed st rs (w1, s1) = ((w', s'), out1)" "out = (source_ip peer, r) # out1"
    using Cons.prems(6) d by (auto simp: x split: prod.splits)
  have c: "t \<le> c" "lo \<le> c" "c < hi" using Cons.prems(2,3) by (auto simp: x)
  note later = open_until_later [OF Cons.prems(4) c(1,3)]
  note dd = mem.dispatch_spec [OF Cons.prems(1) assms(2) refl d]
  have u1: "open_until c hi (fail_key ip) w1"
    using c(2) assms(5) by (intro open_until_dispatch [OF later(1) _ d]) linarith
  have l1: "live_mem c w1 (fail_key ip) \<le> enroll_failure_limit st"
    using Cons.prems(5) later(2) dd(2) [of ip] dd(3) by (auto split: if_splits)
  have "live_mem c w1 (fail_key ip) + int (failures_of ip out1) \<le> enroll_failure_limit st"
    using Cons.prems(2,3) by (intro Cons.IH [OF dd(1) _ _ u1 l1 o(1)]) (auto simp: x)
  then show ?case using dd(2) [of ip] later(2) by (auto simp: o(2) failures_of_def)
qed (simp add: failures_of_def)

text \<open>
  Requests one after the other: during any interval no longer than the failure window, counted from a
  moment with no open failure window, one source gets at most \<^verbatim>\<open>enroll_failure_limit\<close> answers that a token
  or body was wrong, whatever the application does and whatever other sources send.
\<close>

theorem sequential_failures_bounded:
  assumes "ok_mem w" and "limits_ok st" and "sorted (lo # map fst rs)"
    and "\<And>x. x \<in> set rs \<Longrightarrow> fst x < lo + enroll_failure_window_seconds st * 1000000"
    and "live_mem lo w (fail_key ip) = 0"
    and "serve_timed st rs (w, s) = ((w', s'), out)"
  shows "int (failures_of ip out) \<le> enroll_failure_limit st"
proof -
  let ?hi = "lo + enroll_failure_window_seconds st * 1000000"
  have "open_until lo ?hi (fail_key ip) w"
    using assms(1,5) by (force simp: open_until_def live_mem_def ok_mem_def split: option.splits if_splits)
  moreover have "lo \<le> c \<and> c < ?hi" if "c \<in> set (lo # map fst rs)" for c
    using that assms(2,3,4) by (auto simp: limits_ok_def)
  ultimately have "live_mem lo w (fail_key ip) + int (failures_of ip out) \<le> enroll_failure_limit st"
    using assms(2,5) by (intro serve_timed_bounded [OF assms(1,2,3) _ order.refl _ _ assms(6)]) (auto simp: limits_ok_def)
  then show ?thesis using assms(5) by simp
qed

text \<open>
  Once a source has used up its failures, its requests are answered 429 without
  running the application, even with a valid token, on either backend.
\<close>

theorem locked_out_source_not_served:
  assumes "limits_ok st" and "ip = source_ip peer"
  shows "(ok_mem w \<and> enroll_failure_limit st \<le> live_mem c w (fail_key ip) \<longrightarrow>
       (\<exists>w' ev n. limited_dispatch (hit_mem (c, c, c)) (peek_mem (c, c, c)) st ''POST'' ENROLL_PATH peer app (w, s) =
         ((w', s), ev, Inr (too_many n)) \<and> live_mem c w' (fail_key ip) = live_mem c w (fail_key ip))) \<and>
     (ok_redis k \<and> enroll_failure_limit st \<le> live_redis c k (fail_key ip) \<longrightarrow>
       (\<exists>k' ev n. limited_dispatch (hit_redis (redis_at c)) (peek_redis (redis_at c)) st ''POST'' ENROLL_PATH peer app (k, s) =
         ((k', s), ev, Inr (too_many n)) \<and> live_redis c k' (fail_key ip) = live_redis c k (fail_key ip)))"
  using mem.locked_out [OF _ assms, of w c app s] red.locked_out [OF _ assms, of k c app s] by blast

definition sample_limits :: enroll_limits where
  "sample_limits = \<lparr>enroll_failure_limit = 2, enroll_failure_window_seconds = 60, enroll_rate_limit_requests = 100,
     enroll_rate_limit_window_seconds = 60\<rparr>"

definition deny :: "unit \<Rightarrow> unit \<times> reply result" where
  "deny s = (s, Inr \<lparr>status_code = 401, reply_detail = ''invalid enrollment token'', reply_retry_after = None\<rparr>)"

definition three_guesses :: "(int \<times> string option \<times> (unit \<Rightarrow> unit \<times> reply result)) list" where
  "three_guesses = [(0, Some ''a'', deny), (1, Some ''a'', deny), (2, Some ''a'', deny)]"

theorem sequential_failures_bounded_witness:
  "int (failures_of ''a'' (snd (serve_timed sample_limits three_guesses (\<lambda>_. None, ())))) \<le> 2 \<and>
   map snd (snd (serve_timed sample_limits three_guesses (\<lambda>_. None, ()))) = [snd (deny ()), snd (deny ()), Inr (too_many 60)]"
proof -
  have l: "limits_ok sample_limits" by (simp add: limits_ok_def sample_limits_def)
  obtain w' s' out where r: "serve_timed sample_limits three_guesses (\<lambda>_. None, ()) = ((w', s'), out)"
    by (metis prod.collapse)
  have "int (failures_of ''a'' out) \<le> enroll_failure_limit sample_limits"
    by (rule sequential_failures_bounded [OF _ l _ _ _ r, where lo = 0])
      (auto simp: ok_mem_def three_guesses_def sample_limits_def live_mem_def)
  moreover have "map snd (snd (serve_timed sample_limits three_guesses (\<lambda>_. None, ()))) =
      [snd (deny ()), snd (deny ()), Inr (too_many 60)]"
    by code_simp
  ultimately show ?thesis by (simp add: r) (simp add: sample_limits_def)
qed

theorem locked_out_source_not_served_witness:
  "\<exists>w' ev n. limited_dispatch (hit_mem (0, 0, 0)) (peek_mem (0, 0, 0)) sample_limits ''POST'' ENROLL_PATH (Some ''a'') deny
     ((\<lambda>_. None)(fail_key ''a'' \<mapsto> (2, 60000000)), ()) = ((w', ()), ev, Inr (too_many n))"
proof -
  have l: "limits_ok sample_limits" by (simp add: limits_ok_def sample_limits_def)
  let ?w = "(\<lambda>_. None)(fail_key ''a'' \<mapsto> (2, 60000000)) :: windows"
  have i: "''a'' = source_ip (Some ''a'')" by (simp add: source_ip_def)
  have "ok_mem ?w" "enroll_failure_limit sample_limits \<le> live_mem 0 ?w (fail_key ''a'')"
    by (simp_all add: ok_mem_def live_mem_def sample_limits_def)
  then show ?thesis
    using locked_out_source_not_served [OF l i, of ?w 0 deny "()"] by blast
qed

section \<open>Requests in flight at once\<close>

text \<open>
  The middleware awaits each limiter call in a thread pool and then the application, so the requests of
  one source interleave between the calls. A request is first looked up in the failure
  bucket, then counted in the request bucket, then run, and its answer counted if it is a failure; each
  limiter call is atomic, under the limiter's lock.
\<close>

definition gate_peek ::
  "(string \<Rightarrow> int \<Rightarrow> int \<Rightarrow> 'w \<Rightarrow> 'w \<times> decision_rl result) \<Rightarrow> enroll_limits \<Rightarrow> string \<Rightarrow> 'w \<Rightarrow>
   'w \<times> limit_event list \<times> reply option result" where
  "gate_peek peek st ip w =
     (case (if 0 < enroll_failure_limit st
            then peek (fail_key ip) (enroll_failure_limit st) (enroll_failure_window_seconds st) w
            else (w, Inr \<lparr>allowed = True, dcount = 0, retry_after = 0\<rparr>)) of
        (w1, Inl e) \<Rightarrow> (w1, [], Inl e)
      | (w1, Inr locked) \<Rightarrow>
          if \<not> allowed locked
          then (w1, [Record_Rate_Limited ''failures''], Inr (Some (too_many (retry_after locked))))
          else (w1, [], Inr None))"

definition gate_requests ::
  "(string \<Rightarrow> int \<Rightarrow> int \<Rightarrow> 'w \<Rightarrow> 'w \<times> decision_rl result) \<Rightarrow> enroll_limits \<Rightarrow> string \<Rightarrow> 'w \<Rightarrow>
   'w \<times> limit_event list \<times> reply option result" where
  "gate_requests hit st ip w =
     (if 0 < enroll_rate_limit_requests st
      then (case hit (req_key ip) (enroll_rate_limit_requests st) (enroll_rate_limit_window_seconds st) w of
              (w2, Inl e) \<Rightarrow> (w2, [], Inl e)
            | (w2, Inr d) \<Rightarrow>
                if allowed d then (w2, [], Inr None)
                else (w2, (if dcount d = enroll_rate_limit_requests st + 1
                           then [Emit_Rate_Limited ip ''requests'' (retry_after d)] else []) @
                          [Record_Rate_Limited ''requests''], Inr (Some (too_many (retry_after d)))))
      else (w, [], Inr None))"

text \<open>The \<^verbatim>\<open>except RateLimitBackendError\<close> around both.\<close>

definition gate_error :: "exn \<Rightarrow> reply result" where
  "gate_error e = (case e of RateLimitBackendError _ \<Rightarrow> Inr unavailable | _ \<Rightarrow> Inl e)"

text \<open>Together they are the gate of the middleware.\<close>

lemma limit_gate_split:
  "limit_gate hit peek st ip w =
     (case gate_peek peek st ip w of
        (w1, ev, Inr None) \<Rightarrow> gate_requests hit st ip w1
      | r \<Rightarrow> r)"
  by (simp add: limit_gate_def gate_peek_def gate_requests_def split: prod.splits sum.splits)

text \<open>The state of the listener: the requests between two awaits, by source, and the answers given.\<close>

record flight =
  fl_clock :: int
  fl_windows :: windows
  fl_peeked :: "string list"
  fl_running :: "string list"
  fl_answers :: "(string \<times> reply result) list"

datatype flight_event =
    Peek int string
  | Count_Request int string
  | Finish int string "reply result"

definition flight_gate :: "int \<Rightarrow> string \<Rightarrow> windows \<times> limit_event list \<times> reply option result \<Rightarrow> (flight \<Rightarrow> flight) \<Rightarrow> flight \<Rightarrow> flight" where
  "flight_gate c ip g pass x =
     (case g of
        (w, _, Inr None) \<Rightarrow> pass (x\<lparr>fl_clock := c, fl_windows := w\<rparr>)
      | (w, _, Inr (Some rep)) \<Rightarrow> x\<lparr>fl_clock := c, fl_windows := w, fl_answers := fl_answers x @ [(ip, Inr rep)]\<rparr>
      | (w, _, Inl e) \<Rightarrow> x\<lparr>fl_clock := c, fl_windows := w, fl_answers := fl_answers x @ [(ip, gate_error e)]\<rparr>)"

definition finished :: "enroll_limits \<Rightarrow> int \<Rightarrow> string \<Rightarrow> reply result \<Rightarrow> windows \<Rightarrow> windows \<times> reply result" where
  "finished st c ip r w =
     (case r of
        Inl e \<Rightarrow> (w, Inl e)
      | Inr rep \<Rightarrow> (let (w', _, r') = count_failure (hit_mem (c, c, c)) st ip rep w in (w', r')))"

fun flight_step :: "enroll_limits \<Rightarrow> flight_event \<Rightarrow> flight \<Rightarrow> flight option" where
  "flight_step st (Peek c ip) x =
     (if c < fl_clock x then None
      else Some (flight_gate c ip (gate_peek (peek_mem (c, c, c)) st ip (fl_windows x))
        (\<lambda>y. y\<lparr>fl_peeked := ip # fl_peeked y\<rparr>) x))"
| "flight_step st (Count_Request c ip) x =
     (if c < fl_clock x \<or> ip \<notin> set (fl_peeked x) then None
      else Some (flight_gate c ip (gate_requests (hit_mem (c, c, c)) st ip (fl_windows x))
        (\<lambda>y. y\<lparr>fl_running := ip # fl_running y\<rparr>) (x\<lparr>fl_peeked := remove1 ip (fl_peeked x)\<rparr>)))"
| "flight_step st (Finish c ip r) x =
     (if c < fl_clock x \<or> ip \<notin> set (fl_running x) then None
      else let (w, r') = finished st c ip r (fl_windows x) in
        Some (x\<lparr>fl_clock := c, fl_windows := w, fl_running := remove1 ip (fl_running x), fl_answers := fl_answers x @ [(ip, r')]\<rparr>))"

fun flight_run :: "enroll_limits \<Rightarrow> flight_event list \<Rightarrow> flight \<Rightarrow> flight list option" where
  "flight_run st [] x = Some [x]"
| "flight_run st (e # es) x =
     (case flight_step st e x of None \<Rightarrow> None | Some y \<Rightarrow> map_option ((#) x) (flight_run st es y))"

definition in_flight :: "string \<Rightarrow> flight \<Rightarrow> nat" where
  "in_flight ip x = count_list (fl_peeked x) ip + count_list (fl_running x) ip"

definition idle_at :: "int \<Rightarrow> windows \<Rightarrow> flight" where
  "idle_at c w = \<lparr>fl_clock = c, fl_windows = w, fl_peeked = [], fl_running = [], fl_answers = []\<rparr>"

lemma count_list_remove1: "a \<in> set xs \<Longrightarrow> count_list xs b = count_list (remove1 a xs) b + (if a = b then 1 else 0)"
  by (induction xs) auto

lemma failures_of_snoc: "failures_of ip (out @ [(i, r)]) = failures_of ip out + (if i = ip \<and> is_failure r then 1 else 0)"
  by (simp add: failures_of_def)

context rate_limiter
begin

lemma gate_peek_spec:
  assumes "ok w" and "limits_ok st"
  shows "\<exists>w' ev r. gate_peek peek st ip w = (w', ev, Inr r) \<and> ok w' \<and> live w' = live w \<and>
     (r = None \<and> live w (fail_key ip) < enroll_failure_limit st \<or> (\<exists>n. r = Some (too_many n)))"
proof -
  obtain w1 d where p: "peek (fail_key ip) (enroll_failure_limit st) (enroll_failure_window_seconds st) w = (w1, Inr d)"
    "ok w1" "live w1 = live w" "allowed d \<longleftrightarrow> live w (fail_key ip) = 0 \<or> live w (fail_key ip) < enroll_failure_limit st"
    using peek_ok [OF assms(1), of "enroll_failure_window_seconds st"] assms(2) by (auto simp: limits_ok_def) blast
  then show ?thesis using assms(2) by (auto simp: gate_peek_def limits_ok_def)
qed

lemma gate_requests_spec:
  assumes "ok w" and "limits_ok st"
  shows "\<exists>w' ev r. gate_requests hit st ip w = (w', ev, Inr r) \<and> ok w' \<and> (\<forall>i. live w' (fail_key i) = live w (fail_key i)) \<and>
     (r = None \<or> (\<exists>n. r = Some (too_many n)))"
proof -
  obtain w2 d where h: "hit (req_key ip) (enroll_rate_limit_requests st) (enroll_rate_limit_window_seconds st) w = (w2, Inr d)"
    "ok w2" "live w2 = (live w)(req_key ip := live w (req_key ip) + 1)"
    using hit_ok [OF assms(1), of "enroll_rate_limit_window_seconds st"] assms(2) by (auto simp: limits_ok_def) blast
  then show ?thesis using assms(1) by (cases "allowed d") (auto simp: gate_requests_def)
qed

lemma count_failure_spec:
  assumes "ok w" and "limits_ok st" and "count_failure hit st ip rep w = (w', ev, r)"
  shows "ok w' \<and> r = Inr rep \<and> live w' (fail_key i) = live w (fail_key i) + (if i = ip \<and> is_failure r then 1 else 0)"
proof -
  obtain w2 d where h: "hit (fail_key ip) (enroll_failure_limit st) (enroll_failure_window_seconds st) w = (w2, Inr d)"
    "ok w2" "live w2 = (live w)(fail_key ip := live w (fail_key ip) + 1)"
    using hit_ok [OF assms(1), of "enroll_failure_window_seconds st"] assms(2) by (auto simp: limits_ok_def) blast
  then show ?thesis using assms by (auto simp: count_failure_def limits_ok_def is_failure_def split: if_splits)
qed

end

lemma open_until_gate_peek:
  assumes "open_until c hi key w"
  shows "open_until c hi key (fst (gate_peek (peek_mem (c, c, c)) st i w))"
proof -
  have "fst (gate_peek (peek_mem (c, c, c)) st i w) =
      (if 0 < enroll_failure_limit st
       then fst (peek_mem (c, c, c) (fail_key i) (enroll_failure_limit st) (enroll_failure_window_seconds st) w) else w)"
    by (auto simp: gate_peek_def split: prod.splits sum.splits)
  then show ?thesis using assms open_until_peek by simp
qed

lemma open_until_gate_requests:
  assumes "open_until c hi (fail_key ip) w"
  shows "open_until c hi (fail_key ip) (fst (gate_requests (hit_mem (c, c, c)) st i w))"
proof -
  have "fst (gate_requests (hit_mem (c, c, c)) st i w) =
      (if 0 < enroll_rate_limit_requests st
       then fst (hit_mem (c, c, c) (req_key i) (enroll_rate_limit_requests st) (enroll_rate_limit_window_seconds st) w) else w)"
    by (auto simp: gate_requests_def split: prod.splits sum.splits)
  moreover have "open_until c hi (fail_key ip)
      (fst (hit_mem (c, c, c) (req_key i) (enroll_rate_limit_requests st) (enroll_rate_limit_window_seconds st) w))"
    using assms by (rule open_until_hit) simp
  ultimately show ?thesis using assms by simp
qed

text \<open>
  The open failure window has counted every failed answer, and together with what is in flight they stay
  below the limit plus the number of requests that may be in flight.
\<close>

definition flight_inv :: "enroll_limits \<Rightarrow> string \<Rightarrow> int \<Rightarrow> nat \<Rightarrow> flight \<Rightarrow> bool" where
  "flight_inv st ip hi k x \<longleftrightarrow> ok_mem (fl_windows x) \<and> open_until (fl_clock x) hi (fail_key ip) (fl_windows x) \<and>
     live_mem (fl_clock x) (fl_windows x) (fail_key ip) = int (failures_of ip (fl_answers x)) \<and>
     int (failures_of ip (fl_answers x) + in_flight ip x) < enroll_failure_limit st + int k"

lemma flight_inv_advance:
  assumes "flight_inv st ip hi k x" and "fl_clock x \<le> c" and "c < hi"
  shows "ok_mem (fl_windows x)" and "open_until c hi (fail_key ip) (fl_windows x)"
    and "live_mem c (fl_windows x) (fail_key ip) = int (failures_of ip (fl_answers x))"
  using assms open_until_later [of "fl_clock x" hi "fail_key ip" "fl_windows x" c] by (auto simp: flight_inv_def)

lemma flight_inv_answer:
  assumes "flight_inv st ip hi k x" and "ok_mem w" and "open_until c hi (fail_key ip) w"
    and "live_mem c w (fail_key ip) = int (failures_of ip (fl_answers x)) + (if i = ip \<and> is_failure r then 1 else 0)"
    and "in_flight ip y + (if i = ip \<and> is_failure r then 1 else 0) \<le> in_flight ip x"
    and "fl_clock y = c" and "fl_windows y = w" and "fl_answers y = fl_answers x @ [(i, r)]"
  shows "flight_inv st ip hi k y"
  using assms by (auto simp: flight_inv_def failures_of_snoc split: if_splits)

lemma flight_peek_inv:
  assumes "flight_inv st ip hi k x" and "limits_ok st" and "flight_step st (Peek c i) x = Some y"
    and "in_flight ip y \<le> k" and "c < hi"
  shows "flight_inv st ip hi k y \<and> fl_clock x \<le> fl_clock y"
proof -
  have c: "fl_clock x \<le> c" using assms(3) by (simp split: if_splits)
  note adv = flight_inv_advance [OF assms(1) c assms(5)]
  obtain w ev r where g: "gate_peek (peek_mem (c, c, c)) st i (fl_windows x) = (w, ev, Inr r)" "ok_mem w"
    "live_mem c w = live_mem c (fl_windows x)"
    "r = None \<and> live_mem c (fl_windows x) (fail_key i) < enroll_failure_limit st \<or> (\<exists>n. r = Some (too_many n))"
    using mem.gate_peek_spec [OF adv(1) assms(2)] by metis
  have o: "open_until c hi (fail_key ip) w" using open_until_gate_peek [OF adv(2), of st i] g(1) by simp
  have live: "live_mem c w (fail_key ip) = int (failures_of ip (fl_answers x))" using g(3) adv(3) by simp
  from g(4) show ?thesis
  proof (elim disjE conjE exE)
    assume r: "r = None" "live_mem c (fl_windows x) (fail_key i) < enroll_failure_limit st"
    then have y: "y = x\<lparr>fl_clock := c, fl_windows := w, fl_peeked := i # fl_peeked x\<rparr>"
      using assms(3) c g(1) by (simp add: flight_gate_def)
    have "int (failures_of ip (fl_answers x) + in_flight ip y) < enroll_failure_limit st + int k"
    proof (cases "i = ip")
      case True
      then show ?thesis using r(2) adv(3) assms(4) by simp
    next
      case False
      then have "in_flight ip y = in_flight ip x" by (simp add: y in_flight_def)
      then show ?thesis using assms(1) by (simp add: flight_inv_def)
    qed
    then show ?thesis using g(2) o live c by (simp add: flight_inv_def y)
  next
    fix n assume "r = Some (too_many n)"
    then have y: "y = x\<lparr>fl_clock := c, fl_windows := w, fl_answers := fl_answers x @ [(i, Inr (too_many n))]\<rparr>"
      using assms(3) c g(1) by (simp add: flight_gate_def)
    have "flight_inv st ip hi k y"
      by (rule flight_inv_answer [OF assms(1) g(2) o, where i = i and r = "Inr (too_many n)"]) (simp_all add: live y in_flight_def)
    then show ?thesis using c by (simp add: y)
  qed
qed

lemma flight_request_inv:
  assumes "flight_inv st ip hi k x" and "limits_ok st" and "flight_step st (Count_Request c i) x = Some y" and "c < hi"
  shows "flight_inv st ip hi k y \<and> fl_clock x \<le> fl_clock y"
proof -
  have c: "fl_clock x \<le> c" "i \<in> set (fl_peeked x)" using assms(3) by (simp_all split: if_splits)
  note adv = flight_inv_advance [OF assms(1) c(1) assms(4)]
  obtain w ev r where g: "gate_requests (hit_mem (c, c, c)) st i (fl_windows x) = (w, ev, Inr r)" "ok_mem w"
    "live_mem c w (fail_key ip) = live_mem c (fl_windows x) (fail_key ip)" "r = None \<or> (\<exists>n. r = Some (too_many n))"
    using mem.gate_requests_spec [OF adv(1) assms(2)] by metis
  have o: "open_until c hi (fail_key ip) w" using open_until_gate_requests [OF adv(2), of st i] g(1) by simp
  have live: "live_mem c w (fail_key ip) = int (failures_of ip (fl_answers x))" using g(3) adv(3) by simp
  have n: "count_list (fl_peeked x) ip = count_list (remove1 i (fl_peeked x)) ip + (if i = ip then 1 else 0)"
    by (rule count_list_remove1 [OF c(2)])
  from g(4) show ?thesis
  proof (elim disjE exE)
    assume "r = None"
    then have y: "y = x\<lparr>fl_clock := c, fl_windows := w, fl_peeked := remove1 i (fl_peeked x), fl_running := i # fl_running x\<rparr>"
      using assms(3) c g(1) by (auto simp: flight_gate_def)
    have "in_flight ip y = in_flight ip x" using n by (simp add: y in_flight_def)
    then show ?thesis using assms(1) g(2) o live c(1) by (simp add: flight_inv_def y)
  next
    fix m assume "r = Some (too_many m)"
    then have y: "y = x\<lparr>fl_clock := c, fl_windows := w, fl_peeked := remove1 i (fl_peeked x),
        fl_answers := fl_answers x @ [(i, Inr (too_many m))]\<rparr>"
      using assms(3) c g(1) by (auto simp: flight_gate_def)
    have "flight_inv st ip hi k y"
      by (rule flight_inv_answer [OF assms(1) g(2) o, where i = i and r = "Inr (too_many m)"])
        (use n live in \<open>simp_all add: y in_flight_def\<close>)
    then show ?thesis using c by (simp add: y)
  qed
qed

lemma flight_finish_inv:
  assumes "flight_inv st ip hi k x" and "limits_ok st" and "flight_step st (Finish c i r) x = Some y" and "c < hi"
    and "hi \<le> c + enroll_failure_window_seconds st * 1000000"
  shows "flight_inv st ip hi k y \<and> fl_clock x \<le> fl_clock y"
proof -
  have c: "fl_clock x \<le> c" "i \<in> set (fl_running x)" using assms(3) by (simp_all split: if_splits)
  obtain w r' where f: "finished st c i r (fl_windows x) = (w, r')" by fastforce
  have y: "y = x\<lparr>fl_clock := c, fl_windows := w, fl_running := remove1 i (fl_running x), fl_answers := fl_answers x @ [(i, r')]\<rparr>"
    using assms(3) f c by simp
  note adv = flight_inv_advance [OF assms(1) c(1) assms(4)]
  have n: "count_list (fl_running x) ip = count_list (remove1 i (fl_running x)) ip + (if i = ip then 1 else 0)"
    by (rule count_list_remove1 [OF c(2)])
  have w: "ok_mem w \<and> open_until c hi (fail_key ip) w \<and>
      live_mem c w (fail_key ip) = live_mem c (fl_windows x) (fail_key ip) + (if i = ip \<and> is_failure r' then 1 else 0)"
  proof (cases r)
    case (Inl e)
    then show ?thesis using f adv by (auto simp: finished_def)
  next
    case (Inr rep)
    obtain ev where cf: "count_failure (hit_mem (c, c, c)) st i rep (fl_windows x) = (w, ev, r')"
      using f Inr by (auto simp: finished_def split: prod.splits)
    show ?thesis
      using mem.count_failure_spec [OF adv(1) assms(2) cf, of ip] open_until_count [OF adv(2) assms(5), of i rep] cf by auto
  qed
  have "flight_inv st ip hi k y"
    by (rule flight_inv_answer [OF assms(1), where i = i and r = r' and c = c and w = w])
      (use w adv(3) n in \<open>simp_all add: y in_flight_def\<close>)
  then show ?thesis using c by (simp add: y)
qed

lemma flight_gate_clock [simp]: "(\<And>z. fl_clock (pass z) = fl_clock z) \<Longrightarrow> fl_clock (flight_gate c ip g pass x) = c"
  by (auto simp: flight_gate_def split: prod.splits sum.splits option.splits)

lemma flight_step_inv:
  assumes "flight_inv st ip hi k x" and "limits_ok st" and "flight_step st e x = Some y"
    and "in_flight ip y \<le> k" and "fl_clock y < hi" and "lo \<le> fl_clock x"
    and "hi \<le> lo + enroll_failure_window_seconds st * 1000000"
  shows "flight_inv st ip hi k y \<and> fl_clock x \<le> fl_clock y"
proof (cases e)
  case (Peek c i)
  then have "fl_clock y = c" using assms(3) by (auto split: if_splits)
  then show ?thesis using flight_peek_inv [OF assms(1,2) assms(3) [unfolded Peek] assms(4)] assms(5) by simp
next
  case (Count_Request c i)
  then have "fl_clock y = c" using assms(3) by (auto split: if_splits)
  then show ?thesis using flight_request_inv [OF assms(1,2) assms(3) [unfolded Count_Request]] assms(5) by simp
next
  case (Finish c i r)
  then have "fl_clock y = c" "fl_clock x \<le> c" using assms(3) by (auto split: if_splits prod.splits)
  then show ?thesis using flight_finish_inv [OF assms(1,2) assms(3) [unfolded Finish]] assms(5,6,7) by simp
qed

lemma flight_run_inv:
  assumes "limits_ok st" and "hi \<le> lo + enroll_failure_window_seconds st * 1000000"
    and "flight_run st es x = Some xs" and "flight_inv st ip hi k x" and "lo \<le> fl_clock x"
    and "\<And>y. y \<in> set xs \<Longrightarrow> in_flight ip y \<le> k \<and> fl_clock y < hi"
  shows "\<forall>y \<in> set xs. flight_inv st ip hi k y"
  using assms(3-6)
proof (induction es arbitrary: x xs)
  case (Cons e es)
  obtain y ys where y: "flight_step st e x = Some y" "flight_run st es y = Some ys" "xs = x # ys"
    using Cons.prems(1) by (auto split: option.splits)
  have "y \<in> set ys" using y(2) by (cases es) (auto split: option.splits)
  then have step: "flight_inv st ip hi k y \<and> fl_clock x \<le> fl_clock y"
    using flight_step_inv [OF Cons.prems(2) assms(1) y(1) _ _ Cons.prems(3) assms(2)] Cons.prems(4) y(3) by auto
  have "\<forall>z \<in> set ys. flight_inv st ip hi k z"
    using Cons.IH [OF y(2)] step Cons.prems(3,4) y(3) by auto
  then show ?case using Cons.prems(2) y(3) by simp
qed simp

text \<open>
  C9: for the in-process limiter with a positive failure limit and positive windows, over any interleaving
  of the middleware's limiter calls and application runs (each limiter call at one instant, instants not going
  back), during an interval no longer than the failure window that starts without an open failure window of the
  source: when at most \<^verbatim>\<open>k\<close> requests of that source are between their first check and their answer at
  once (\<^verbatim>\<open>k\<close> at least 1), the source gets at most \<^verbatim>\<open>enroll_failure_limit + k - 1\<close> answers 401 or 422. One
  request at a time (\<^verbatim>\<open>k = 1\<close>) gives the configured limit; with more the limit can be exceeded
  (\<^verbatim>\<open>concurrent_failures_exceed_limit\<close>).
\<close>

theorem failed_attempts_bounded:
  assumes "limits_ok st" and "ok_mem w" and "live_mem lo w (fail_key ip) = 0" and "1 \<le> k"
    and "flight_run st es (idle_at lo w) = Some xs"
    and "\<And>x. x \<in> set xs \<Longrightarrow> in_flight ip x \<le> k \<and> fl_clock x < lo + enroll_failure_window_seconds st * 1000000"
    and "x \<in> set xs"
  shows "int (failures_of ip (fl_answers x)) \<le> enroll_failure_limit st + int k - 1"
proof -
  let ?hi = "lo + enroll_failure_window_seconds st * 1000000"
  have "open_until lo ?hi (fail_key ip) w"
    using assms(2,3) by (force simp: open_until_def live_mem_def ok_mem_def split: option.splits if_splits)
  then have "flight_inv st ip ?hi k (idle_at lo w)"
    using assms(1-4) by (auto simp: flight_inv_def idle_at_def failures_of_def in_flight_def limits_ok_def)
  then have "flight_inv st ip ?hi k x"
    using flight_run_inv [OF assms(1) order.refl assms(5), where ip = ip and k = k] assms(6,7) by (auto simp: idle_at_def)
  then show ?thesis by (simp add: flight_inv_def)
qed

definition wrong_token :: "reply result" where
  "wrong_token = Inr \<lparr>status_code = 401, reply_detail = ''invalid enrollment token'', reply_retry_after = None\<rparr>"

definition one_at_a_time :: "flight_event list" where
  "one_at_a_time = [Peek 0 ''a'', Count_Request 1 ''a'', Finish 2 ''a'' wrong_token, Peek 3 ''a'', Count_Request 3 ''a'',
     Finish 4 ''a'' wrong_token, Peek 5 ''a'']"

theorem failed_attempts_bounded_witness:
  "\<exists>xs. flight_run sample_limits one_at_a_time (idle_at 0 (\<lambda>_. None)) = Some xs \<and> length xs = 8 \<and>
     (\<forall>x \<in> set xs. int (failures_of ''a'' (fl_answers x)) \<le> 2) \<and> failures_of ''a'' (fl_answers (last xs)) = 2"
proof -
  have c: "case flight_run sample_limits one_at_a_time (idle_at 0 (\<lambda>_. None)) of None \<Rightarrow> False
     | Some xs \<Rightarrow> length xs = 8 \<and> list_all (\<lambda>x. in_flight ''a'' x \<le> 1 \<and> fl_clock x < 60000000) xs \<and>
         failures_of ''a'' (fl_answers (last xs)) = 2"
    by code_simp
  then obtain xs where xs: "flight_run sample_limits one_at_a_time (idle_at 0 (\<lambda>_. None)) = Some xs" "length xs = 8"
    "list_all (\<lambda>x. in_flight ''a'' x \<le> 1 \<and> fl_clock x < 60000000) xs" "failures_of ''a'' (fl_answers (last xs)) = 2"
    by (auto split: option.splits)
  have l: "limits_ok sample_limits" by (simp add: limits_ok_def sample_limits_def)
  have "int (failures_of ''a'' (fl_answers x)) \<le> enroll_failure_limit sample_limits + int 1 - 1" if "x \<in> set xs" for x
    by (rule failed_attempts_bounded [OF l _ _ _ xs(1) _ that])
      (use xs(3) in \<open>auto simp: ok_mem_def live_mem_def sample_limits_def list_all_iff\<close>)
  then show ?thesis using xs by (auto simp: sample_limits_def)
qed

text \<open>Three requests that are all looked up before the first is answered get three wrong-token answers under a limit of two.\<close>

theorem concurrent_failures_exceed_limit:
  "case flight_run sample_limits [Peek 0 ''a'', Peek 0 ''a'', Peek 0 ''a'', Count_Request 1 ''a'', Count_Request 1 ''a'',
       Count_Request 1 ''a'', Finish 2 ''a'' wrong_token, Finish 2 ''a'' wrong_token, Finish 2 ''a'' wrong_token]
     (idle_at 0 (\<lambda>_. None)) of
     None \<Rightarrow> False
   | Some xs \<Rightarrow> enroll_failure_limit sample_limits < int (failures_of ''a'' (fl_answers (last xs)))"
  by code_simp

text \<open>A request served without interruption is its steps in a row.\<close>

lemma flight_runI: "flight_run st es x = Some xs \<Longrightarrow> last xs = z \<Longrightarrow> \<exists>es xs. flight_run st es x = Some xs \<and> last xs = z"
  by blast

theorem dispatch_is_flight:
  assumes "limited_dispatch (hit_mem (c, c, c)) (peek_mem (c, c, c)) st ''POST'' ENROLL_PATH peer app (w, s) = ((w', s'), ev, r)"
    and "fl_clock x \<le> c" and "fl_windows x = w"
  shows "\<exists>es xs. flight_run st es x = Some xs \<and>
     last xs = x\<lparr>fl_clock := c, fl_windows := w', fl_answers := fl_answers x @ [(source_ip peer, r)]\<rparr>"
proof -
  let ?ip = "source_ip peer"
  have ip: "(case peer of None \<Rightarrow> ''unknown'' | Some h \<Rightarrow> h) = ?ip" by (simp add: source_ip_def)
  obtain w1 ev1 g1 where g1: "gate_peek (peek_mem (c, c, c)) st ?ip w = (w1, ev1, g1)" by (metis prod.collapse)
  obtain w2 ev2 g2 where g2: "gate_requests (hit_mem (c, c, c)) st ?ip w1 = (w2, ev2, g2)" by (metis prod.collapse)
  note d = assms(1) [unfolded limited_dispatch_def Let_def prod.case ip limit_gate_split g1]
  show ?thesis
  proof (cases "g1 = Inr None")
    case False
    then have "w' = w1 \<and> r = (case g1 of Inr (Some rep) \<Rightarrow> Inr rep | Inl e \<Rightarrow> gate_error e)"
      using d by (auto simp: gate_error_def split: sum.splits option.splits exn.splits)
    then have "flight_run st [Peek c ?ip] x =
        Some [x, x\<lparr>fl_clock := c, fl_windows := w', fl_answers := fl_answers x @ [(?ip, r)]\<rparr>]"
      using g1 assms(2,3) False by (auto simp: flight_gate_def split: sum.splits option.splits)
    then show ?thesis by (rule flight_runI) simp
  next
    case g1_pass: True
    show ?thesis
    proof (cases "g2 = Inr None")
      case False
      then have "w' = w2 \<and> r = (case g2 of Inr (Some rep) \<Rightarrow> Inr rep | Inl e \<Rightarrow> gate_error e)"
        using d g1_pass g2 by (auto simp: gate_error_def split: sum.splits option.splits exn.splits)
      then have "\<exists>y. flight_run st [Peek c ?ip, Count_Request c ?ip] x =
          Some [x, y, x\<lparr>fl_clock := c, fl_windows := w', fl_answers := fl_answers x @ [(?ip, r)]\<rparr>]"
        using g1 g2 assms(2,3) False g1_pass by (auto simp: flight_gate_def split: sum.splits option.splits)
      then show ?thesis by (elim exE) (rule flight_runI, assumption, simp)
    next
      case True
      obtain s1 q where q: "app s = (s1, q)" by fastforce
      have "finished st c ?ip q w2 = (w', r)"
        using d g1_pass g2 True q by (auto simp: finished_def split: sum.splits prod.splits)
      then have "\<exists>y z. flight_run st [Peek c ?ip, Count_Request c ?ip, Finish c ?ip q] x =
          Some [x, y, z, x\<lparr>fl_clock := c, fl_windows := w', fl_answers := fl_answers x @ [(?ip, r)]\<rparr>]"
        using g1 g2 assms(2,3) True g1_pass by (auto simp: flight_gate_def split: sum.splits option.splits)
      then show ?thesis by (elim exE) (rule flight_runI, assumption, simp)
    qed
  qed
qed

end
