(* ===== verification/Router_Gate.thy ===== *)
theory Router_Gate
  imports Row_Store Tenant_Scope
begin

text \<open>
  The gate the resource routers share (\<^verbatim>\<open>routers/servers.py\<close>, \<^verbatim>\<open>routers/clients.py\<close>,
  \<^verbatim>\<open>routers/ssh_keys.py\<close>): a row outside the caller's tenants answers like a missing one,
  and mutations then ask for the admin or operator role in the row's tenant. The locale
  states what a resource with such reads promises; each router interprets it.
\<close>

definition not_found :: "string \<Rightarrow> exn" where
  "not_found what = HTTPException 404 (what @ '' not found'')"

definition scoped_row :: "string \<Rightarrow> ('r \<Rightarrow> int option) \<Rightarrow> tenant_scope \<Rightarrow> 'r option \<Rightarrow> 'r result" where
  "scoped_row what tenant_of scope found =
     rbind (or_raise found (not_found what)) (\<lambda>row.
     rbind (check (is_super_admin scope \<or> (case tenant_of row of None \<Rightarrow> False | Some t \<Rightarrow> t \<in> set (tenant_ids scope)))
       (not_found what)) (\<lambda>_. Inr row))"

definition gated_row :: "string \<Rightarrow> ('r \<Rightarrow> int option) \<Rightarrow> tenant_scope \<Rightarrow> 'r option \<Rightarrow> 'r result" where
  "gated_row what tenant_of scope found =
     rbind (scoped_row what tenant_of scope found) (\<lambda>row.
     rbind (require_tenant_role scope (tenant_of row) [Admin, Operator_Role]) (\<lambda>_. Inr row))"

lemma scoped_row_Inr [result_simps]:
  "scoped_row what tenant_of scope found = Inr row \<longleftrightarrow> found = Some row \<and> visible scope (tenant_of row)"
  by (auto simp: scoped_row_def result_simps visible_iff split: option.splits)

lemma scoped_row_Inl:
  "scoped_row what tenant_of scope found = Inl x \<longleftrightarrow>
     x = not_found what \<and> (\<forall>row. found = Some row \<longrightarrow> \<not> visible scope (tenant_of row))"
  by (cases found) (auto simp: scoped_row_def result_simps visible_iff split: option.splits)

lemma gated_row_Inr [result_simps]:
  "gated_row what tenant_of scope found = Inr row \<longleftrightarrow>
     found = Some row \<and> visible scope (tenant_of row) \<and>
     require_tenant_role scope (tenant_of row) [Admin, Operator_Role] = Inr ()"
  by (auto simp: gated_row_def rbind_Inr_iff scoped_row_Inr)

lemma gated_row_hidden:
  "\<not> (\<exists>row. found = Some row \<and> visible scope (tenant_of row)) \<Longrightarrow>
     gated_row what tenant_of scope found = Inl (not_found what)"
  by (auto simp: gated_row_def rbind_Inl_iff scoped_row_Inl)

text \<open>What a caller must not be able to tell apart: no row under the key, or one outside the scope.\<close>

definition hidden_or_missing :: "('r \<Rightarrow> int) \<Rightarrow> ('r \<Rightarrow> int option) \<Rightarrow> tenant_scope \<Rightarrow> 'r list \<Rightarrow> int \<Rightarrow> bool" where
  "hidden_or_missing key tenant_of scope rows i \<longleftrightarrow>
     (case get_row key rows i of None \<Rightarrow> True | Some r \<Rightarrow> \<not> visible scope (tenant_of r))"

lemma delay_Inr [result_simps]: "delay e m s = (s', Inr tid) \<longleftrightarrow> broker e m = Inr tid \<and> s' = s\<lparr>task_queue := task_queue s @ [m]\<rparr>"
  by (auto simp: delay_def split: sum.splits)

lemma delay_Inl [result_simps]: "delay e m s = (s', Inl x) \<longleftrightarrow> broker e m = Inl x \<and> s' = s"
  by (auto simp: delay_def split: sum.splits)

text \<open>
  Reads of a tenant-scoped resource: the list is the visible rows in order, a lookup by
  primary key goes through the gate.
\<close>

locale scoped_resource =
  fixes rows :: "state \<Rightarrow> 'r list"
    and key :: "'r \<Rightarrow> int"
    and tenant_of :: "'r \<Rightarrow> int option"
    and what :: string
    and list_rows :: "tenant_scope \<Rightarrow> state \<Rightarrow> 'r list"
    and get_one :: "tenant_scope \<Rightarrow> int \<Rightarrow> state \<Rightarrow> 'r result"
  assumes list_law: "list_rows scope s = filter (\<lambda>r. visible scope (tenant_of r)) (rows s)"
    and get_law: "get_one scope i s = scoped_row what tenant_of scope (get_row key (rows s) i)"
begin

lemma get_iff_listed:
  assumes "distinct (map key (rows s))"
  shows "get_one scope i s = Inr r \<longleftrightarrow> r \<in> set (list_rows scope s) \<and> key r = i"
  using assms by (auto simp: get_law list_law scoped_row_Inr get_row_eq_Some_iff)

lemma get_hidden_or_missing:
  "hidden_or_missing key tenant_of scope (rows s) i \<Longrightarrow> get_one scope i s = Inl (not_found what)"
  by (auto simp: get_law scoped_row_Inl hidden_or_missing_def)

lemma get_hidden: "\<not> (\<exists>r. get_one scope i s = Inr r) \<Longrightarrow> get_one scope i s = Inl (not_found what)"
  by (cases "get_one scope i s") (auto simp: get_law scoped_row_Inl)

text \<open>Adding or changing rows the caller cannot see changes neither answer.\<close>

lemma reads_noninterference:
  assumes "filter (\<lambda>r. visible scope (tenant_of r)) (rows s) = filter (\<lambda>r. visible scope (tenant_of r)) (rows s')"
    and "distinct (map key (rows s))" and "distinct (map key (rows s'))"
  shows "list_rows scope s = list_rows scope s' \<and> get_one scope i s = get_one scope i s'"
proof -
  have l: "list_rows scope s = list_rows scope s'" using assms(1) by (simp add: list_law)
  have "get_one scope i s = get_one scope i s'"
  proof (cases "\<exists>r. get_one scope i s = Inr r")
    case True
    then obtain r where "get_one scope i s = Inr r" by blast
    moreover from this have "get_one scope i s' = Inr r"
      using get_iff_listed [OF assms(2)] get_iff_listed [OF assms(3)] l by metis
    ultimately show ?thesis by simp
  next
    case False
    then have "\<not> (\<exists>r. get_one scope i s' = Inr r)"
      using get_iff_listed [OF assms(2)] get_iff_listed [OF assms(3)] l by metis
    then show ?thesis using False get_hidden by metis
  qed
  with l show ?thesis by blast
qed

end

text \<open>
  Mutations of one row of such a resource. The provider promises that the gate comes
  first, that a failure leaves the state alone, and that a success touches no other row
  of the table and does not move the row to another tenant.
\<close>

definition writable :: "tenant_scope \<Rightarrow> int option \<Rightarrow> bool" where
  "writable scope tid \<longleftrightarrow> visible scope tid \<and> require_tenant_role scope tid [Admin, Operator_Role] = Inr ()"

lemma gated_row_writable:
  "gated_row what tenant_of scope found = Inr row \<longleftrightarrow> found = Some row \<and> writable scope (tenant_of row)"
  by (auto simp: gated_row_Inr writable_def)

lemma gated_row_member: "gated_row what tenant_of scope (get_row key rows i) = Inr row \<Longrightarrow> row \<in> set rows \<and> key row = i"
  by (auto simp: gated_row_writable dest: get_row_SomeD)

lemma filter_through: "(\<And>x. x \<in> set xs \<Longrightarrow> P x \<Longrightarrow> Q x) \<Longrightarrow> filter P (filter Q xs) = filter P xs"
  by (induction xs) auto

locale gated_mutation =
  fixes rows :: "state \<Rightarrow> 'r list"
    and key :: "'r \<Rightarrow> int"
    and tenant_of :: "'r \<Rightarrow> int option"
    and what :: string
    and mutate :: "tenant_scope \<Rightarrow> int \<Rightarrow> (state, 'a) handler"
  assumes refused: "gated_row what tenant_of scope (get_row key (rows s) i) = Inl x \<Longrightarrow> mutate scope i s = (s, Inl x)"
    and failed: "mutate scope i s = (s', Inl x) \<Longrightarrow> s' = s"
    and applied: "mutate scope i s = (s', Inr y) \<Longrightarrow> get_row key (rows s) i = Some row \<Longrightarrow>
      filter (\<lambda>r. key r \<noteq> i) (rows s') = filter (\<lambda>r. key r \<noteq> i) (rows s) \<and>
      (\<forall>r \<in> set (rows s'). key r = i \<longrightarrow> tenant_of r = tenant_of row)"
begin

lemma hidden_looks_missing:
  assumes "hidden_or_missing key tenant_of scope (rows s) i"
  shows "mutate scope i s = (s, Inl (not_found what))"
  using assms by (intro refused gated_row_hidden) (auto simp: hidden_or_missing_def)

lemma unwritable_unchanged:
  assumes "\<And>r. get_row key (rows s) i = Some r \<Longrightarrow> \<not> writable scope (tenant_of r)"
  shows "\<exists>x. mutate scope i s = (s, Inl x)"
proof (cases "gated_row what tenant_of scope (get_row key (rows s) i)")
  case (Inl x)
  from refused [OF this] show ?thesis by blast
next
  case (Inr r)
  then show ?thesis using assms by (auto simp: gated_row_writable)
qed

lemma isolates:
  assumes "distinct (map key (rows s))" and "\<not> writable scope (Some t)"
  shows "filter (\<lambda>r. tenant_of r = Some t) (rows (fst (mutate scope i s))) = filter (\<lambda>r. tenant_of r = Some t) (rows s)"
proof (cases "mutate scope i s")
  case (Pair s' res)
  show ?thesis
  proof (cases res)
    case (Inl x)
    then show ?thesis using Pair failed by fastforce
  next
    case (Inr y)
    note ok = Pair [unfolded Inr]
    have "\<exists>r. get_row key (rows s) i = Some r \<and> writable scope (tenant_of r)"
    proof (rule ccontr)
      assume "\<not> (\<exists>r. get_row key (rows s) i = Some r \<and> writable scope (tenant_of r))"
      then have "\<exists>x. mutate scope i s = (s, Inl x)" by (intro unwritable_unchanged) blast
      with ok show False by simp
    qed
    then obtain r where r: "get_row key (rows s) i = Some r" "writable scope (tenant_of r)" by blast
    then have t: "tenant_of r \<noteq> Some t" using assms(2) by auto
    have "filter (\<lambda>x. tenant_of x = Some t) (filter (\<lambda>x. key x \<noteq> i) (rows s')) = filter (\<lambda>x. tenant_of x = Some t) (rows s')"
      by (rule filter_through) (use applied [OF ok r(1)] t in auto)
    moreover have "filter (\<lambda>x. tenant_of x = Some t) (filter (\<lambda>x. key x \<noteq> i) (rows s)) = filter (\<lambda>x. tenant_of x = Some t) (rows s)"
      by (rule filter_through) (use get_row_eq_Some_iff [OF assms(1), of i] r(1) t in fastforce)
    ultimately show ?thesis using applied [OF ok r(1)] ok by simp
  qed
qed

end


lemma filter_put_row: "filter (\<lambda>r. key r \<noteq> key x) (put_row key x rows) = filter (\<lambda>r. key r \<noteq> key x) rows"
  by (induction rows) (auto simp: put_row_def)

lemma filter_del_row: "filter (\<lambda>r. key r \<noteq> i) (del_row key i rows) = filter (\<lambda>r. key r \<noteq> i) rows"
  by (simp add: del_row_def)

lemma saved_row_law:
  assumes "tenant_of x = tenant_of row" and "key x = i"
  shows "filter (\<lambda>r. key r \<noteq> i) (put_row key x rows) = filter (\<lambda>r. key r \<noteq> i) rows \<and>
     (\<forall>r \<in> set (put_row key x rows). key r = i \<longrightarrow> tenant_of r = tenant_of row)"
  using assms filter_put_row [of key x rows] by (auto simp: in_put_row)

lemma deleted_row_law:
  "filter (\<lambda>r. key r \<noteq> i) (del_row key i rows) = filter (\<lambda>r. key r \<noteq> i) rows \<and>
   (\<forall>r \<in> set (del_row key i rows). key r = i \<longrightarrow> tenant_of r = t)"
  by (auto simp: del_row_def)

end
