(* ===== verification/Servers.thy ===== *)
theory Servers
  imports Router_Gate Tasks Ipam
begin

text \<open>
  \<^verbatim>\<open>routers/servers.py\<close> and \<^verbatim>\<open>routers/_bootstrap.py\<close>: registering, reading, updating, deleting
  and dispatching work for hubs. The crypto backend is a parameter.
\<close>

section \<open>Bootstrap material\<close>

record bootstrap_fields =
  bootstrap_ssh_key_pem :: "string option"
  bootstrap_ssh_key_passphrase :: "string option"

definition no_bootstrap :: bootstrap_kwargs where
  "no_bootstrap = \<lparr>bootstrap_pem_ciphertext = None, bootstrap_pem_context = None,
     bootstrap_passphrase_ciphertext = None, bootstrap_passphrase_context = None\<rparr>"

text \<open>\<^verbatim>\<open>encrypt plaintext context\<close> is the backend's answer.\<close>

definition encrypt_bootstrap_kwargs ::
  "(string \<Rightarrow> string \<Rightarrow> string result) \<Rightarrow> bootstrap_fields \<Rightarrow> string \<Rightarrow> bootstrap_kwargs result" where
  "encrypt_bootstrap_kwargs encrypt p node_kind =
     (case bootstrap_ssh_key_pem p of
        None \<Rightarrow> Inr no_bootstrap
      | Some pem \<Rightarrow>
          let ctx = ''provision-'' @ node_kind @ '':bootstrap-pem'';
              pctx = ''provision-'' @ node_kind @ '':bootstrap-passphrase'' in
          rbind (encrypt pem ctx) (\<lambda>ct.
          case bootstrap_ssh_key_passphrase p of
            None \<Rightarrow> Inr (no_bootstrap\<lparr>bootstrap_pem_ciphertext := Some ct, bootstrap_pem_context := Some ctx\<rparr>)
          | Some pp \<Rightarrow> rbind (encrypt pp pctx) (\<lambda>pct.
              Inr \<lparr>bootstrap_pem_ciphertext = Some ct, bootstrap_pem_context = Some ctx,
                   bootstrap_passphrase_ciphertext = Some pct, bootstrap_passphrase_context = Some pctx\<rparr>)))"

section \<open>Request bodies\<close>

record server_create =
  sc_hostname :: string
  sc_ssh_port :: int
  sc_ssh_username :: string
  sc_ssh_key_id :: int
  sc_endpoint_host :: string
  sc_endpoint_port :: int
  sc_interface :: string
  sc_subnet :: "string option"
  sc_tenant_id :: "int option"
  sc_bootstrap :: bootstrap_fields

record server_update =
  su_hostname :: "string option"
  su_ssh_port :: "int option"
  su_ssh_username :: "string option"
  su_ssh_key_id :: "int option"
  su_endpoint_host :: "string option"
  su_endpoint_port :: "int option"

text \<open>The validators of \<^verbatim>\<open>ServerCreate.subnet\<close> in \<^verbatim>\<open>schemas.py\<close>.\<close>

definition max_subnet_prefix :: nat where "max_subnet_prefix = 30"

definition parse_strict_subnet :: "string \<Rightarrow> ipv4_network result" where
  "parse_strict_subnet value =
     (case ip4_network True value of
        Inl _ \<Rightarrow> Inl (ValueError (''invalid IPv4 subnet '' @ py_repr value))
      | Inr n \<Rightarrow> if prefixlen n > max_subnet_prefix
                 then Inl (ValueError (''subnet '' @ py_repr value @ '' is too narrow'')) else Inr n)"

definition validate_subnet :: "string option \<Rightarrow> string option result" where
  "validate_subnet v = (case v of None \<Rightarrow> Inr None
     | Some x \<Rightarrow> rbind (parse_strict_subnet x) (\<lambda>n. Inr (Some (net_str n))))"

section \<open>Registration\<close>

text \<open>\<^verbatim>\<open>list(network.hosts())[0]\<close>.\<close>

definition first_host :: "ipv4_network \<Rightarrow> nat" where
  "first_host n = fst (host_range n)"

definition new_server :: "env \<Rightarrow> server_create \<Rightarrow> tenant \<Rightarrow> ipv4_network \<Rightarrow> server" where
  "new_server e p tenant n =
     \<lparr>srv_id = new_id e, srv_tenant = Some (ten_id tenant), srv_hostname = sc_hostname p, srv_ssh_port = sc_ssh_port p,
      srv_ssh_username = sc_ssh_username p, srv_ssh_key_id = sc_ssh_key_id p, srv_endpoint_host = sc_endpoint_host p,
      srv_endpoint_port = sc_endpoint_port p, srv_interface = sc_interface p, srv_subnet = net_str n,
      srv_address = ip4_str (first_host n) @ ''/'' @ str_of_nat (prefixlen n), srv_public_key = [], srv_status = Pending,
      srv_created_at = now e, srv_host_cert = no_host_cert, srv_requested_gen = 0, srv_applied_gen = 0\<rparr>"

definition register_server_tx ::
  "env \<Rightarrow> string \<Rightarrow> request_state \<Rightarrow> tenant_scope \<Rightarrow> server_create \<Rightarrow> (state, server) handler" where
  "register_server_tx e default_subnet rs scope p = atomically (\<lambda>s.
     rbind (resolve_create_tenant scope s (sc_tenant_id p) create_roles) (\<lambda>tenant.
     rbind (or_raise (get_row key_id (ssh_keys s) (sc_ssh_key_id p)) (not_found ''SSH key'')) (\<lambda>_.
     let subnet_cidr = (case sc_subnet p of None \<Rightarrow> default_subnet | Some x \<Rightarrow> if x = [] then default_subnet else x) in
     rbind (ip4_network False subnet_cidr) (\<lambda>network.
     rbind (subnet_in_pool (net_str network) (ten_subnet_pool tenant)) (\<lambda>inside.
     rbind (check inside (HTTPException 422 (''subnet '' @ py_repr (net_str network) @ '' is outside tenant '' @
        py_repr (ten_slug tenant) @ [CHR 0x27] @ ''s pool '' @ py_repr (ten_subnet_pool tenant)))) (\<lambda>_.
     let row = new_server e p tenant network in
     rbind (insert_server row s) (\<lambda>s1.
     rbind (persist e (actor_from_request rs)
        \<lparr>aa_event = ''server.create'', aa_resource_type = ''server'', aa_resource_id = Some (srv_id row),
         aa_action = ''create'', aa_before = None, aa_after = Some (server_json e row),
         aa_payload = Some [(''hostname'', JStr (srv_hostname row))], aa_request_id = None, aa_tenant_id = srv_tenant row\<rparr> s1)
       (\<lambda>(s2, _). Inr (s2, row)))))))))"

definition register_server ::
  "env \<Rightarrow> (string \<Rightarrow> string \<Rightarrow> string result) \<Rightarrow> string \<Rightarrow> request_state \<Rightarrow> tenant_scope \<Rightarrow> server_create \<Rightarrow>
   (state, string \<times> server) handler" where
  "register_server e encrypt default_subnet rs scope p =
     andThen (register_server_tx e default_subnet rs scope p) (\<lambda>row s.
       case encrypt_bootstrap_kwargs encrypt (sc_bootstrap p) ''server'' of
         Inl x \<Rightarrow> (s, Inl x)
       | Inr kw \<Rightarrow> andThen (delay e (ProvisionServer (srv_id row) kw)) (\<lambda>tid s. (s, Inr (tid, row))) s)"

section \<open>Reads, updates, deletes\<close>

definition list_servers :: "tenant_scope \<Rightarrow> state \<Rightarrow> server list" where
  "list_servers scope s = (case scope_filter scope of
       None \<Rightarrow> servers s | Some p \<Rightarrow> filter (\<lambda>v. p (srv_tenant v)) (servers s))"

definition get_server :: "tenant_scope \<Rightarrow> int \<Rightarrow> state \<Rightarrow> server result" where
  "get_server scope i s = scoped_row ''Server'' srv_tenant scope (get_row srv_id (servers s) i)"

definition opt_set :: "('v \<Rightarrow> 'r \<Rightarrow> 'r) \<Rightarrow> 'v option \<Rightarrow> 'r \<Rightarrow> 'r" where
  "opt_set f v r = (case v of None \<Rightarrow> r | Some x \<Rightarrow> f x r)"

definition apply_server_update :: "server_update \<Rightarrow> server \<Rightarrow> server" where
  "apply_server_update u v =
     opt_set (\<lambda>x r. r\<lparr>srv_endpoint_port := x\<rparr>) (su_endpoint_port u)
     (opt_set (\<lambda>x r. r\<lparr>srv_endpoint_host := x\<rparr>) (su_endpoint_host u)
     (opt_set (\<lambda>x r. r\<lparr>srv_ssh_key_id := x\<rparr>) (su_ssh_key_id u)
     (opt_set (\<lambda>x r. r\<lparr>srv_ssh_username := x\<rparr>) (su_ssh_username u)
     (opt_set (\<lambda>x r. r\<lparr>srv_ssh_port := x\<rparr>) (su_ssh_port u)
     (opt_set (\<lambda>x r. r\<lparr>srv_hostname := x\<rparr>) (su_hostname u) v)))))"

text \<open>\<^verbatim>\<open>sorted(updates.keys())\<close>.\<close>

definition server_update_fields :: "server_update \<Rightarrow> string list" where
  "server_update_fields u =
     (if su_endpoint_host u = None then [] else [''endpoint_host'']) @
     (if su_endpoint_port u = None then [] else [''endpoint_port'']) @
     (if su_hostname u = None then [] else [''hostname'']) @
     (if su_ssh_key_id u = None then [] else [''ssh_key_id'']) @
     (if su_ssh_port u = None then [] else [''ssh_port'']) @
     (if su_ssh_username u = None then [] else [''ssh_username''])"

definition update_server ::
  "env \<Rightarrow> request_state \<Rightarrow> tenant_scope \<Rightarrow> int \<Rightarrow> server_update \<Rightarrow> (state, server) handler" where
  "update_server e rs scope i u = atomically (\<lambda>s.
     rbind (gated_row ''Server'' srv_tenant scope (get_row srv_id (servers s) i)) (\<lambda>row.
     rbind (check (case su_ssh_key_id u of None \<Rightarrow> True | Some k \<Rightarrow> get_row key_id (ssh_keys s) k \<noteq> None)
       (not_found ''SSH key'')) (\<lambda>_.
     let row' = apply_server_update u row in
     rbind (save_server row' s) (\<lambda>s1.
     rbind (persist e (actor_from_request rs)
        \<lparr>aa_event = ''server.update'', aa_resource_type = ''server'', aa_resource_id = Some (srv_id row'),
         aa_action = ''update'', aa_before = Some (server_json e row), aa_after = Some (server_json e row'),
         aa_payload = Some [(''hostname'', JStr (srv_hostname row')),
           (''fields'', JArr (map JStr (server_update_fields u)))],
         aa_request_id = None, aa_tenant_id = srv_tenant row'\<rparr> s1)
       (\<lambda>(s2, _). Inr (s2, row'))))))"

definition delete_server :: "tenant_scope \<Rightarrow> int \<Rightarrow> bool \<Rightarrow> (state, unit) handler" where
  "delete_server scope i force = atomically (\<lambda>s.
     rbind (gated_row ''Server'' srv_tenant scope (get_row srv_id (servers s) i)) (\<lambda>row.
     let attached = filter (\<lambda>c. cli_server_id c = i) (clients s) in
     rbind (check (attached = [] \<or> force)
       (HTTPException 409 (''Server still has '' @ str_of_nat (length attached) @
          '' managed client(s); pass ?force=true to cascade-delete them.''))) (\<lambda>_.
     let s1 = (if force then s\<lparr>clients := filter (\<lambda>c. cli_server_id c \<noteq> i) (clients s),
                   discovered_peers := filter (\<lambda>p. dp_server_id p \<noteq> i) (discovered_peers s)\<rparr> else s) in
     rbind (delete_server_row i s1) (\<lambda>s2. Inr (s2, ())))))"

section \<open>Dispatch endpoints\<close>

definition reprovision_server :: "env \<Rightarrow> int \<Rightarrow> (state, string \<times> server) handler" where
  "reprovision_server e i =
     andThen (atomically (\<lambda>s.
       rbind (or_raise (get_row srv_id (servers s) i) (not_found ''Server'')) (\<lambda>row.
       let row' = row\<lparr>srv_status := Pending\<rparr> in
       rbind (save_server row' s) (\<lambda>s'. Inr (s', row'))))) (\<lambda>row.
     andThen (delay e (ProvisionServer (srv_id row) no_bootstrap)) (\<lambda>tid s. (s, Inr (tid, row))))"

definition discover_server_peers :: "env \<Rightarrow> int \<Rightarrow> (state, string \<times> server) handler" where
  "discover_server_peers e i s =
     (case get_row srv_id (servers s) i of
        None \<Rightarrow> (s, Inl (not_found ''Server''))
      | Some row \<Rightarrow> andThen (delay e (DiscoverPeers (srv_id row))) (\<lambda>tid s. (s, Inr (tid, row))) s)"

definition list_server_discovered_peers :: "int \<Rightarrow> state \<Rightarrow> discovered_peer list result" where
  "list_server_discovered_peers i s =
     rbind (or_raise (get_row srv_id (servers s) i) (not_found ''Server'')) (\<lambda>_.
       Inr (filter (\<lambda>p. dp_server_id p = i) (discovered_peers s)))"

definition list_all_discovered_peers :: "state \<Rightarrow> discovered_peer list" where
  "list_all_discovered_peers s = discovered_peers s"

definition rotate_server_host_cert :: "env \<Rightarrow> int \<Rightarrow> (state, string \<times> server) handler" where
  "rotate_server_host_cert e i s =
     (case get_row srv_id (servers s) i of
        None \<Rightarrow> (s, Inl (not_found ''Server''))
      | Some row \<Rightarrow>
          if get_row key_id (ssh_keys s) (srv_ssh_key_id row) = None
          then (s, Inl (HTTPException 409 (''server '' @ str_of_int (srv_id row) @ '' references SSHKey '' @
                  str_of_int (srv_ssh_key_id row) @ '' which no longer exists; reassign before rotating'')))
          else andThen (delay e (RotateHostCert (srv_id row))) (\<lambda>tid s. (s, Inr (tid, row))) s)"

definition discover_all_servers :: "env \<Rightarrow> (state, string \<times> nat) handler" where
  "discover_all_servers e s =
     (let cnt = length (servers s) in
      andThen (delay e DiscoverAllPeers) (\<lambda>tid s. (s, Inr (tid, cnt))) s)"

section \<open>Lemmas\<close>

interpretation server_reads: scoped_resource servers srv_id srv_tenant "''Server''" list_servers get_server
  by unfold_locales (auto simp: list_servers_def visible_def get_server_def split: option.splits)

lemma first_host_hosts:
  assumes "wf_net n"
  shows "hosts n \<noteq> [] \<and> first_host n = hosts n ! 0"
proof -
  have "fst (host_range n) < Suc (snd (host_range n))"
  proof (cases "prefixlen n \<ge> 31")
    case True
    then show ?thesis using Suc_broadcast [OF assms] by (simp add: host_range_def)
  next
    case False
    then have "(2::nat) ^ 2 \<le> 2 ^ (32 - prefixlen n)" by (intro power_increasing) simp_all
    with False show ?thesis using Suc_broadcast [OF assms] by (simp add: host_range_def)
  qed
  then show ?thesis
    using host_range_hosts [OF assms] by (metis first_host_def list.distinct(1) nth_Cons_0 upt_conv_Cons)
qed

lemma register_server_tx_Inr:
  assumes "register_server_tx e d rs scope p s = (s', Inr row)"
  shows "\<exists>tenant n. resolve_create_tenant scope s (sc_tenant_id p) create_roles = Inr tenant \<and>
     sc_ssh_key_id p \<in> key_id ` set (ssh_keys s) \<and>
     ip4_network False (case sc_subnet p of None \<Rightarrow> d | Some x \<Rightarrow> if x = [] then d else x) = Inr n \<and>
     subnet_in_pool (net_str n) (ten_subnet_pool tenant) = Inr True \<and> row = new_server e p tenant n \<and>
     servers s' = servers s @ [row] \<and> tenants s' = tenants s \<and> ssh_keys s' = ssh_keys s \<and> clients s' = clients s \<and>
     enrollment_tokens s' = enrollment_tokens s \<and> task_queue s' = task_queue s \<and>
     (\<exists>a. audit_events s' = audit_events s @ [a] \<and> ae_event a = ''server.create'' \<and> ae_tenant a = srv_tenant row \<and>
        ae_resource_id a = Some (srv_id row))"
  using assms
  by (auto simp: register_server_tx_def result_simps persist_Inr Let_def audit_row_def new_server_def)

lemma update_server_Inr:
  assumes "update_server e rs scope i u s = (s', Inr r)"
  shows "\<exists>row. gated_row ''Server'' srv_tenant scope (get_row srv_id (servers s) i) = Inr row \<and> r = apply_server_update u row \<and>
     servers s' = put_row srv_id r (servers s) \<and> clients s' = clients s \<and> ssh_keys s' = ssh_keys s \<and>
     enrollment_tokens s' = enrollment_tokens s \<and> save_server r s = Inr (s'\<lparr>audit_events := audit_events s\<rparr>)"
  using assms by (auto simp: update_server_def atomically_Inr_iff rbind_Inr_iff persist_Inr Let_def save_simps)

lemma delete_server_Inr:
  assumes "delete_server scope i force s = (s', Inr u)"
  shows "\<exists>row. gated_row ''Server'' srv_tenant scope (get_row srv_id (servers s) i) = Inr row \<and>
     servers s' = del_row srv_id i (servers s) \<and> ssh_keys s' = ssh_keys s \<and> enrollment_tokens s' = enrollment_tokens s \<and>
     clients s' = filter (\<lambda>c. cli_server_id c \<noteq> i) (clients s) \<and>
     discovered_peers s' = filter (\<lambda>p. dp_server_id p \<noteq> i) (discovered_peers s) \<and>
     (force \<or> (\<forall>c \<in> set (clients s). cli_server_id c \<noteq> i)) \<and> (\<forall>t \<in> set (enrollment_tokens s). et_server_id t \<noteq> i)"
proof -
  let ?s1 = "if force then s\<lparr>clients := filter (\<lambda>c. cli_server_id c \<noteq> i) (clients s),
                   discovered_peers := filter (\<lambda>p. dp_server_id p \<noteq> i) (discovered_peers s)\<rparr> else s"
  obtain row where row: "gated_row ''Server'' srv_tenant scope (get_row srv_id (servers s) i) = Inr row"
    and ck: "filter (\<lambda>c. cli_server_id c = i) (clients s) = [] \<or> force" and del: "delete_server_row i ?s1 = Inr s'"
    using assms unfolding delete_server_def Let_def
    by (auto simp: atomically_Inr_iff rbind_Inr_iff check_Inr_iff)
  show ?thesis
  proof (cases force)
    case True
    then show ?thesis using row del by (auto simp: delete_simps)
  next
    case False
    then have nc: "\<forall>c \<in> set (clients s). cli_server_id c \<noteq> i" using ck by (auto simp: filter_empty_conv)
    have np: "\<forall>p \<in> set (discovered_peers s). dp_server_id p \<noteq> i" using del False by (auto simp: delete_simps)
    have "filter (\<lambda>c. cli_server_id c \<noteq> i) (clients s) = clients s" "filter (\<lambda>p. dp_server_id p \<noteq> i) (discovered_peers s) = discovered_peers s"
      using nc np by (auto simp: filter_id_conv)
    then show ?thesis using False row del nc by (auto simp: delete_simps)
  qed
qed

lemma apply_server_update_keeps [simp]:
  "srv_id (apply_server_update u v) = srv_id v" "srv_tenant (apply_server_update u v) = srv_tenant v"
  by (simp_all add: apply_server_update_def opt_set_def split: option.splits)

interpretation server_updates: gated_mutation servers srv_id srv_tenant "''Server''" "\<lambda>scope i. update_server e rs scope i u"
proof
  show "update_server e rs scope i u s = (s, Inl x)"
    if "gated_row ''Server'' srv_tenant scope (get_row srv_id (servers s) i) = Inl x" for scope s i x
    using that by (simp add: update_server_def atomically_def)
  show "s' = s" if "update_server e rs scope i u s = (s', Inl x)" for scope i s s' x
    using that by (simp add: update_server_def atomically_Inl_iff)
  show "filter (\<lambda>r. srv_id r \<noteq> i) (servers s') = filter (\<lambda>r. srv_id r \<noteq> i) (servers s) \<and>
      (\<forall>r \<in> set (servers s'). srv_id r = i \<longrightarrow> srv_tenant r = srv_tenant row)"
    if "update_server e rs scope i u s = (s', Inr y)" "get_row srv_id (servers s) i = Some row" for scope i s s' y row
    using update_server_Inr [OF that(1)] that(2) get_row_SomeD [OF that(2)]
    by (auto simp: gated_row_writable intro!: saved_row_law)
qed

interpretation server_deletes: gated_mutation servers srv_id srv_tenant "''Server''" "\<lambda>scope i. delete_server scope i force"
proof
  show "delete_server scope i force s = (s, Inl x)"
    if "gated_row ''Server'' srv_tenant scope (get_row srv_id (servers s) i) = Inl x" for scope s i x
    using that by (simp add: delete_server_def atomically_def)
  show "s' = s" if "delete_server scope i force s = (s', Inl x)" for scope i s s' x
    using that by (simp add: delete_server_def atomically_Inl_iff)
  show "filter (\<lambda>r. srv_id r \<noteq> i) (servers s') = filter (\<lambda>r. srv_id r \<noteq> i) (servers s) \<and>
      (\<forall>r \<in> set (servers s'). srv_id r = i \<longrightarrow> srv_tenant r = srv_tenant row)"
    if "delete_server scope i force s = (s', Inr y)" "get_row srv_id (servers s) i = Some row" for scope i s s' y row
    using delete_server_Inr [OF that(1)] deleted_row_law by metis
qed

section \<open>Correctness\<close>

text \<open>
  C15: a registration that succeeds lands in an existing tenant the caller may create in
  (the one named in the body, if any) and can then see; the hub's subnet lies inside
  that tenant's pool and its address is the first host address of the subnet; the row
  is pending and appended, one audit row of the tenant is written and exactly the
  provisioning message, with encrypted bootstrap material only, is queued.
\<close>

theorem register_server_in_pool:
  assumes "register_server e encrypt default_subnet rs scope p s = (s', Inr (tid, row))"
  shows "\<exists>tenant np n kw. tenant \<in> set (tenants s) \<and> srv_tenant row = Some (ten_id tenant) \<and>
     (\<forall>i. sc_tenant_id p = Some i \<longrightarrow> ten_id tenant = i) \<and> visible scope (srv_tenant row) \<and>
     require_tenant_role scope (srv_tenant row) create_roles = Inr () \<and>
     parse_pool (ten_subnet_pool tenant) = Inr np \<and> ip4_network True (srv_subnet row) = Inr n \<and>
     net_addresses n \<subseteq> net_addresses np \<and> host_from_cidr (srv_address row) = Inr (IPv4 (hosts n ! 0)) \<and>
     hosts n \<noteq> [] \<and> srv_status row = Pending \<and> servers s' = servers s @ [row] \<and>
     encrypt_bootstrap_kwargs encrypt (sc_bootstrap p) ''server'' = Inr kw \<and>
     task_queue s' = task_queue s @ [ProvisionServer (srv_id row) kw] \<and>
     (\<exists>a. audit_events s' = audit_events s @ [a] \<and> ae_event a = ''server.create'' \<and> ae_tenant a = srv_tenant row)"
proof -
  obtain s1 kw where tx: "register_server_tx e default_subnet rs scope p s = (s1, Inr row)"
    and kw: "encrypt_bootstrap_kwargs encrypt (sc_bootstrap p) ''server'' = Inr kw"
    and s': "s' = s1\<lparr>task_queue := task_queue s1 @ [ProvisionServer (srv_id row) kw]\<rparr>"
    using assms
    by (cases "encrypt_bootstrap_kwargs encrypt (sc_bootstrap p) ''server''") (auto simp: register_server_def result_simps)
  obtain tenant n where tn: "resolve_create_tenant scope s (sc_tenant_id p) create_roles = Inr tenant"
    and n: "ip4_network False (case sc_subnet p of None \<Rightarrow> default_subnet | Some x \<Rightarrow> if x = [] then default_subnet else x) = Inr n"
    and pool: "subnet_in_pool (net_str n) (ten_subnet_pool tenant) = Inr True"
    and row: "row = new_server e p tenant n"
    and tabs: "servers s1 = servers s @ [row]" "task_queue s1 = task_queue s"
      "\<exists>a. audit_events s1 = audit_events s @ [a] \<and> ae_event a = ''server.create'' \<and> ae_tenant a = srv_tenant row"
    using register_server_tx_Inr [OF tx] by blast
  have wf: "wf_net n" using n by (rule ip4_network_wf)
  obtain np where "parse_pool (ten_subnet_pool tenant) = Inr np" "net_addresses n \<subseteq> net_addresses np"
    using subnet_in_pool_sets [OF wf pool] by blast
  moreover have "ip4_network True (srv_subnet row) = Inr n" by (simp add: row new_server_def net_str_roundtrip [OF wf])
  moreover have fh: "hosts n \<noteq> []" "first_host n = hosts n ! 0" using first_host_hosts [OF wf] by auto
  moreover have "host_from_cidr (srv_address row) = Inr (IPv4 (hosts n ! 0))"
  proof -
    have "hosts n ! 0 \<in> net_addresses n" using fh wf by (intro hosts_in_network) (auto intro: nth_mem)
    then have "hosts n ! 0 < 4294967296" using net_addresses_bounded [OF wf] by (auto simp: wf_net_def)
    then show ?thesis using wf fh(2) host_from_cidr_prefix by (simp add: row new_server_def wf_net_def)
  qed
  moreover have "srv_tenant row = Some (ten_id tenant)" "srv_status row = Pending" by (simp_all add: row new_server_def)
  ultimately show ?thesis
    using resolve_create_tenant_Inr [OF tn] kw tabs
    by (intro exI [of _ tenant] exI [of _ np] exI [of _ n] exI [of _ kw])
      (auto simp: s' visible_iff result_simps create_roles_def)
qed


definition sample_server_create :: server_create where
  "sample_server_create = \<lparr>sc_hostname = ''h2'', sc_ssh_port = 22, sc_ssh_username = ''root'', sc_ssh_key_id = 1,
     sc_endpoint_host = ''h2.example'', sc_endpoint_port = 51820, sc_interface = ''wg0'', sc_subnet = Some ''10.9.4.0/24'',
     sc_tenant_id = None, sc_bootstrap = \<lparr>bootstrap_ssh_key_pem = None, bootstrap_ssh_key_passphrase = None\<rparr>\<rparr>"

theorem register_server_in_pool_witness:
  "\<exists>tenant np. tenant \<in> set (tenants scoped_db) \<and> parse_pool (ten_subnet_pool tenant) = Inr np \<and>
     net_addresses \<lparr>network_address = 168363008, prefixlen = 24\<rparr> \<subseteq> net_addresses np"
proof -
  let ?h = "register_server sample_env (\<lambda>x c. Inr x) ''10.8.0.0/24'' anonymous_request (scope_from_db scoped_db sample_operator)
     sample_server_create scoped_db"
  let ?row = "new_server sample_env sample_server_create sample_tenant \<lparr>network_address = 168363008, prefixlen = 24\<rparr>"
  have "snd ?h = Inr (''task'', ?row)" by code_simp
  then have "?h = (fst ?h, Inr (''task'', ?row))" by (simp add: prod_eq_iff)
  note r = register_server_in_pool [OF this]
  have "ip4_network True (srv_subnet ?row) = Inr \<lparr>network_address = 168363008, prefixlen = 24\<rparr>" by code_simp
  with r show ?thesis by auto
qed

end
