(* ===== verification/Clients.thy ===== *)
theory Clients
  imports Servers
begin

text \<open>
  \<^verbatim>\<open>routers/clients.py\<close>: registering clients over SSH and by hand, reading, updating and
  deleting them, and the SSH configuration export. Key generation is a parameter.
\<close>

section \<open>Registration\<close>

record client_create =
  cc_name :: string
  cc_hostname :: string
  cc_ssh_port :: int
  cc_ssh_username :: string
  cc_ssh_key_id :: int
  cc_server_id :: int
  cc_bootstrap :: bootstrap_fields

definition name_taken :: "string \<Rightarrow> exn" where
  "name_taken name = HTTPException 409 (''Client named '' @ py_repr name @ '' already exists'')"

definition allocate_client :: "state \<Rightarrow> server \<Rightarrow> nat result" where
  "allocate_client s v = (case allocate_client_ip s v of
       Inl (IPPoolExhausted m) \<Rightarrow> Inl (HTTPException 409 m) | r \<Rightarrow> r)"

definition new_client :: "env \<Rightarrow> client_create \<Rightarrow> nat \<Rightarrow> client" where
  "new_client e p a =
     \<lparr>cli_id = new_id e, cli_tenant = None, cli_name = cc_name p, cli_hostname = Some (cc_hostname p),
      cli_ssh_port = cc_ssh_port p, cli_ssh_username = Some (cc_ssh_username p), cli_ssh_key_id = Some (cc_ssh_key_id p),
      cli_server_id = cc_server_id p, cli_address = ip4_str a @ ''/32'', cli_public_key = [], cli_is_manual = False,
      cli_status = Pending, cli_created_at = now e, cli_host_cert = no_host_cert\<rparr>"

definition register_client_tx :: "env \<Rightarrow> client_create \<Rightarrow> (state, client) handler" where
  "register_client_tx e p = atomically (\<lambda>s.
     rbind (check (cc_name p \<notin> cli_name ` set (clients s)) (name_taken (cc_name p))) (\<lambda>_.
     rbind (or_raise (get_row key_id (ssh_keys s) (cc_ssh_key_id p)) (not_found ''SSH key'')) (\<lambda>_.
     rbind (or_raise (get_row srv_id (servers s) (cc_server_id p)) (not_found ''Server'')) (\<lambda>server.
     rbind (check (srv_status server = Ready)
       (HTTPException 400 (''Server is not ready (status='' @ node_status_value (srv_status server) @ '')''))) (\<lambda>_.
     rbind (allocate_client s server) (\<lambda>a.
     let row = new_client e p a in
     rbind (insert_client row s) (\<lambda>s'. Inr (s', row))))))))"

definition register_client ::
  "env \<Rightarrow> (string \<Rightarrow> string \<Rightarrow> string result) \<Rightarrow> client_create \<Rightarrow> (state, string \<times> client) handler" where
  "register_client e encrypt p =
     andThen (register_client_tx e p) (\<lambda>row s.
       case encrypt_bootstrap_kwargs encrypt (cc_bootstrap p) ''client'' of
         Inl x \<Rightarrow> (s, Inl x)
       | Inr kw \<Rightarrow> andThen (delay e (ProvisionClient (cli_id row) kw)) (\<lambda>tid s. (s, Inr (tid, row))) s)"

text \<open>\<^verbatim>\<open>keys\<close> is the pair \<^verbatim>\<open>generate_wireguard_keypair\<close> returned.\<close>

definition new_manual_client :: "env \<Rightarrow> string \<Rightarrow> int \<Rightarrow> string \<Rightarrow> nat \<Rightarrow> client" where
  "new_manual_client e name sid pub a =
     \<lparr>cli_id = new_id e, cli_tenant = None, cli_name = name, cli_hostname = None, cli_ssh_port = 22,
      cli_ssh_username = None, cli_ssh_key_id = None, cli_server_id = sid, cli_address = ip4_str a @ ''/32'',
      cli_public_key = pub, cli_is_manual = True, cli_status = Ready, cli_created_at = now e,
      cli_host_cert = no_host_cert\<rparr>"

definition register_manual_client_tx :: "env \<Rightarrow> string \<times> string \<Rightarrow> string \<Rightarrow> int \<Rightarrow> (state, client \<times> server) handler" where
  "register_manual_client_tx e keys name sid = atomically (\<lambda>s.
     rbind (check (name \<notin> cli_name ` set (clients s)) (name_taken name)) (\<lambda>_.
     rbind (or_raise (get_row srv_id (servers s) sid) (not_found ''Server'')) (\<lambda>server.
     rbind (check (srv_status server = Ready)
       (HTTPException 400 (''Server is not ready (status='' @ node_status_value (srv_status server) @
          ''); manual clients require a server whose public key is known''))) (\<lambda>_.
     rbind (allocate_client s server) (\<lambda>a.
     let row = new_manual_client e name sid (snd keys) a in
     rbind (insert_client row s) (\<lambda>s'. Inr (s', row, server)))))))"

definition register_manual_client ::
  "env \<Rightarrow> string \<times> string \<Rightarrow> string \<Rightarrow> int \<Rightarrow> (state, string \<times> client \<times> string) handler" where
  "register_manual_client e keys name sid =
     andThen (register_manual_client_tx e keys name sid) (\<lambda>(row, server) s.
       case render_manual_client_config row server (fst keys) of
         Inl x \<Rightarrow> (s, Inl x)
       | Inr conf \<Rightarrow> andThen (request_reconfigure e sid) (\<lambda>tid s. (s, Inr (tid, row, conf))) s)"

section \<open>Reads, updates, deletes\<close>

definition list_clients :: "tenant_scope \<Rightarrow> state \<Rightarrow> client list" where
  "list_clients scope s = (case scope_filter scope of
       None \<Rightarrow> clients s | Some p \<Rightarrow> filter (\<lambda>c. p (cli_tenant c)) (clients s))"

definition get_client :: "tenant_scope \<Rightarrow> int \<Rightarrow> state \<Rightarrow> client result" where
  "get_client scope i s = scoped_row ''Client'' cli_tenant scope (get_row cli_id (clients s) i)"

record client_update =
  cu_name :: "string option"
  cu_hostname :: "string option"
  cu_ssh_port :: "int option"
  cu_ssh_username :: "string option"
  cu_ssh_key_id :: "int option"

definition apply_client_update :: "client_update \<Rightarrow> client \<Rightarrow> client" where
  "apply_client_update u c =
     opt_set (\<lambda>x r. r\<lparr>cli_ssh_key_id := Some x\<rparr>) (cu_ssh_key_id u)
     (opt_set (\<lambda>x r. r\<lparr>cli_ssh_username := Some x\<rparr>) (cu_ssh_username u)
     (opt_set (\<lambda>x r. r\<lparr>cli_ssh_port := x\<rparr>) (cu_ssh_port u)
     (opt_set (\<lambda>x r. r\<lparr>cli_hostname := Some x\<rparr>) (cu_hostname u)
     (opt_set (\<lambda>x r. r\<lparr>cli_name := x\<rparr>) (cu_name u) c))))"

definition update_client :: "tenant_scope \<Rightarrow> int \<Rightarrow> client_update \<Rightarrow> (state, client) handler" where
  "update_client scope i u = atomically (\<lambda>s.
     rbind (gated_row ''Client'' cli_tenant scope (get_row cli_id (clients s) i)) (\<lambda>row.
     rbind (check (case cu_ssh_key_id u of None \<Rightarrow> True | Some k \<Rightarrow> get_row key_id (ssh_keys s) k \<noteq> None)
       (not_found ''SSH key'')) (\<lambda>_.
     rbind (check (case cu_name u of None \<Rightarrow> True | Some n \<Rightarrow> n = cli_name row \<or> n \<notin> cli_name ` set (clients s))
       (name_taken (case cu_name u of None \<Rightarrow> [] | Some n \<Rightarrow> n))) (\<lambda>_.
     let row' = apply_client_update u row in
     rbind (save_client row' s) (\<lambda>s'. Inr (s', row'))))))"

definition delete_client_tx :: "env \<Rightarrow> request_state \<Rightarrow> tenant_scope \<Rightarrow> int \<Rightarrow> (state, client) handler" where
  "delete_client_tx e rs scope i = atomically (\<lambda>s.
     rbind (gated_row ''Client'' cli_tenant scope (get_row cli_id (clients s) i)) (\<lambda>row.
     rbind (persist e (actor_from_request rs)
        \<lparr>aa_event = ''client.delete'', aa_resource_type = ''client'', aa_resource_id = Some i, aa_action = ''delete'',
         aa_before = Some (client_json e row), aa_after = None,
         aa_payload = Some [(''name'', JStr (cli_name row)), (''server_id'', JInt (cli_server_id row))],
         aa_request_id = None, aa_tenant_id = cli_tenant row\<rparr>
        (s\<lparr>clients := del_row cli_id i (clients s)\<rparr>))
       (\<lambda>(s2, _). Inr (s2, row))))"

definition delete_client :: "env \<Rightarrow> request_state \<Rightarrow> tenant_scope \<Rightarrow> int \<Rightarrow> (state, string \<times> int \<times> int) handler" where
  "delete_client e rs scope i =
     andThen (delete_client_tx e rs scope i) (\<lambda>row.
     andThen (request_reconfigure e (cli_server_id row)) (\<lambda>tid s. (s, Inr (tid, i, cli_server_id row))))"

section \<open>Dispatch endpoints and the SSH configuration export\<close>

definition reprovision_client :: "env \<Rightarrow> int \<Rightarrow> (state, string \<times> client) handler" where
  "reprovision_client e i =
     andThen (atomically (\<lambda>s.
       rbind (or_raise (get_row cli_id (clients s) i) (not_found ''Client'')) (\<lambda>row.
       rbind (check (\<not> cli_is_manual row) (HTTPException 400 (''Cannot reprovision a manual client '' @ em_dash @
          '' delete and re-register to mint a fresh keypair and config''))) (\<lambda>_.
       let row' = row\<lparr>cli_status := Pending\<rparr> in
       rbind (save_client row' s) (\<lambda>s'. Inr (s', row')))))) (\<lambda>row.
     andThen (delay e (ProvisionClient (cli_id row) no_bootstrap)) (\<lambda>tid s. (s, Inr (tid, row))))"

definition rotate_client_host_cert :: "env \<Rightarrow> int \<Rightarrow> (state, string \<times> client) handler" where
  "rotate_client_host_cert e i s =
     (case get_row cli_id (clients s) i of
        None \<Rightarrow> (s, Inl (not_found ''Client''))
      | Some row \<Rightarrow>
          if cli_is_manual row
          then (s, Inl (HTTPException 400 (''Cannot rotate a host cert on a manual client '' @ em_dash @ '' no SSH access'')))
          else if Option.bind (cli_ssh_key_id row) (get_row key_id (ssh_keys s)) = None
          then (s, Inl (HTTPException 409 (''client '' @ str_of_int (cli_id row) @ '' references SSHKey '' @
                  (case cli_ssh_key_id row of None \<Rightarrow> ''None'' | Some k \<Rightarrow> str_of_int k) @
                  '' which no longer exists; reassign before rotating'')))
          else andThen (delay e (RotateClientHostCert (cli_id row))) (\<lambda>tid s. (s, Inr (tid, row))) s)"

definition ssh_config_block :: "client \<Rightarrow> string result" where
  "ssh_config_block c =
     rbind (if cli_address c = [] then Inr [] else rbind (ip_interface_ip (cli_address c)) (\<lambda>a. Inr (ip_str a))) (\<lambda>host_ip.
       Inr (text_lines [''Host '' @ cli_name c @ ''.vpn'', ''    HostName '' @ host_ip,
              ''    User '' @ (case cli_ssh_username c of None \<Rightarrow> ''None'' | Some u \<Rightarrow> u)]))"

definition export_ssh_config :: "state \<Rightarrow> string result" where
  "export_ssh_config s =
     rbind (rmap ssh_config_block (filter (\<lambda>c. \<not> cli_is_manual c) (sort_key cli_id (clients s)))) (\<lambda>blocks.
       Inr (join_with [nl] blocks))"

section \<open>Lemmas\<close>

interpretation client_reads: scoped_resource clients cli_id cli_tenant "''Client''" list_clients get_client
  by unfold_locales (auto simp: list_clients_def visible_def get_client_def split: option.splits)

lemma allocate_client_Inr: "allocate_client s v = Inr a \<longleftrightarrow> allocate_client_ip s v = Inr a"
  by (auto simp: allocate_client_def split: sum.splits exn.splits)

lemma update_client_Inr:
  assumes "update_client scope i u s = (s', Inr r)"
  shows "\<exists>row. gated_row ''Client'' cli_tenant scope (get_row cli_id (clients s) i) = Inr row \<and> r = apply_client_update u row \<and>
     save_client r s = Inr s'"
  using assms by (auto simp: update_client_def atomically_Inr_iff rbind_Inr_iff Let_def)

lemma delete_client_tx_Inr:
  assumes "delete_client_tx e rs scope i s = (s', Inr row)"
  shows "gated_row ''Client'' cli_tenant scope (get_row cli_id (clients s) i) = Inr row \<and>
     (\<exists>a. s' = s\<lparr>clients := del_row cli_id i (clients s), audit_events := audit_events s @ [a]\<rparr> \<and>
        ae_event a = ''client.delete'' \<and> ae_resource_id a = Some i \<and> ae_tenant a = cli_tenant row)"
  using assms by (auto simp: delete_client_tx_def atomically_Inr_iff rbind_Inr_iff persist_Inr audit_row_def)

lemma apply_client_update_keeps [simp]:
  "cli_id (apply_client_update u c) = cli_id c" "cli_tenant (apply_client_update u c) = cli_tenant c"
  "cli_server_id (apply_client_update u c) = cli_server_id c" "cli_address (apply_client_update u c) = cli_address c"
  by (simp_all add: apply_client_update_def opt_set_def split: option.splits)

interpretation client_updates: gated_mutation clients cli_id cli_tenant "''Client''" "\<lambda>scope i. update_client scope i u"
proof
  show "update_client scope i u s = (s, Inl x)"
    if "gated_row ''Client'' cli_tenant scope (get_row cli_id (clients s) i) = Inl x" for scope s i x
    using that by (simp add: update_client_def atomically_def)
  show "s' = s" if "update_client scope i u s = (s', Inl x)" for scope i s s' x
    using that by (simp add: update_client_def atomically_Inl_iff)
  show "filter (\<lambda>r. cli_id r \<noteq> i) (clients s') = filter (\<lambda>r. cli_id r \<noteq> i) (clients s) \<and>
      (\<forall>r \<in> set (clients s'). cli_id r = i \<longrightarrow> cli_tenant r = cli_tenant row)"
    if "update_client scope i u s = (s', Inr y)" "get_row cli_id (clients s) i = Some row" for scope i s s' y row
    using update_client_Inr [OF that(1)] that(2) get_row_SomeD [OF that(2)]
    by (auto simp: gated_row_writable save_simps intro!: saved_row_law)
qed

interpretation client_deletes: gated_mutation clients cli_id cli_tenant "''Client''" "\<lambda>scope i. delete_client_tx e rs scope i"
proof
  show "delete_client_tx e rs scope i s = (s, Inl x)"
    if "gated_row ''Client'' cli_tenant scope (get_row cli_id (clients s) i) = Inl x" for scope s i x
    using that by (simp add: delete_client_tx_def atomically_def)
  show "s' = s" if "delete_client_tx e rs scope i s = (s', Inl x)" for scope i s s' x
    using that by (simp add: delete_client_tx_def atomically_Inl_iff)
  show "filter (\<lambda>r. cli_id r \<noteq> i) (clients s') = filter (\<lambda>r. cli_id r \<noteq> i) (clients s) \<and>
      (\<forall>r \<in> set (clients s'). cli_id r = i \<longrightarrow> cli_tenant r = cli_tenant row)"
    if "delete_client_tx e rs scope i s = (s', Inr y)" "get_row cli_id (clients s) i = Some row" for scope i s s' y row
    using delete_client_tx_Inr [OF that(1)] by (auto simp: del_row_def)
qed

end
