(* ===== verification/Ssh_Keys.thy ===== *)
theory Ssh_Keys
  imports Router_Gate
begin

text \<open>\<^verbatim>\<open>routers/ssh_keys.py\<close>: create, list, get, rename and delete SSH roles.\<close>

section \<open>Handlers\<close>

record ssh_key_create =
  skc_name :: string
  skc_tenant_id :: "int option"

definition new_ssh_key :: "env \<Rightarrow> ssh_key_create \<Rightarrow> tenant \<Rightarrow> ssh_key" where
  "new_ssh_key e p tenant = \<lparr>key_id = new_id e, key_tenant = Some (ten_id tenant), key_name = skc_name p,
     key_mode = Ca, key_created_at = now e\<rparr>"

definition create_ssh_key :: "env \<Rightarrow> request_state \<Rightarrow> tenant_scope \<Rightarrow> ssh_key_create \<Rightarrow> (state, ssh_key) handler" where
  "create_ssh_key e rs scope p = atomically (\<lambda>s.
     rbind (resolve_create_tenant scope s (skc_tenant_id p) create_roles) (\<lambda>tenant.
     rbind (check (skc_name p \<notin> key_name ` set (ssh_keys s))
       (HTTPException 409 (''SSH key named '' @ py_repr (skc_name p) @ '' already exists''))) (\<lambda>_.
     let row = new_ssh_key e p tenant in
     rbind (insert_ssh_key row s) (\<lambda>s1.
     rbind (persist e (actor_from_request rs)
        \<lparr>aa_event = ''ssh_key.create'', aa_resource_type = ''ssh_key'', aa_resource_id = Some (key_id row),
         aa_action = ''create'', aa_before = None, aa_after = Some (ssh_key_json e row),
         aa_payload = Some [(''name'', JStr (key_name row))], aa_request_id = None, aa_tenant_id = key_tenant row\<rparr> s1)
       (\<lambda>(s2, _). Inr (s2, row))))))"

definition list_ssh_keys :: "tenant_scope \<Rightarrow> state \<Rightarrow> ssh_key list" where
  "list_ssh_keys scope s = (case scope_filter scope of
       None \<Rightarrow> ssh_keys s | Some p \<Rightarrow> filter (\<lambda>k. p (key_tenant k)) (ssh_keys s))"

definition get_ssh_key :: "tenant_scope \<Rightarrow> int \<Rightarrow> state \<Rightarrow> ssh_key result" where
  "get_ssh_key scope i s = scoped_row ''SSH key'' key_tenant scope (get_row key_id (ssh_keys s) i)"

text \<open>The only field is \<^verbatim>\<open>name\<close>; \<^verbatim>\<open>exclude_none\<close> makes an absent and a null name the same.\<close>

definition update_ssh_key :: "tenant_scope \<Rightarrow> int \<Rightarrow> string option \<Rightarrow> (state, ssh_key) handler" where
  "update_ssh_key scope i name = atomically (\<lambda>s.
     rbind (gated_row ''SSH key'' key_tenant scope (get_row key_id (ssh_keys s) i)) (\<lambda>row.
     rbind (check (case name of None \<Rightarrow> True | Some n \<Rightarrow> n = key_name row \<or> n \<notin> key_name ` set (ssh_keys s))
       (HTTPException 409 (''SSH key named '' @ py_repr (case name of None \<Rightarrow> [] | Some n \<Rightarrow> n) @ '' already exists''))) (\<lambda>_.
     let row' = (case name of None \<Rightarrow> row | Some n \<Rightarrow> row\<lparr>key_name := n\<rparr>) in
     rbind (save_ssh_key row' s) (\<lambda>s'. Inr (s', row')))))"

definition delete_ssh_key :: "tenant_scope \<Rightarrow> int \<Rightarrow> (state, unit) handler" where
  "delete_ssh_key scope i = atomically (\<lambda>s.
     rbind (gated_row ''SSH key'' key_tenant scope (get_row key_id (ssh_keys s) i)) (\<lambda>row.
     rbind (check (i \<notin> srv_ssh_key_id ` set (servers s) \<and> Some i \<notin> cli_ssh_key_id ` set (clients s))
       (HTTPException 409 ''SSH key is still referenced by a server or client'')) (\<lambda>_.
     rbind (delete_ssh_key_row i s) (\<lambda>s'. Inr (s', ())))))"

section \<open>Lemmas\<close>

interpretation ssh_key_reads: scoped_resource ssh_keys key_id key_tenant "''SSH key''" list_ssh_keys get_ssh_key
  by unfold_locales (auto simp: list_ssh_keys_def visible_def get_ssh_key_def split: option.splits)

lemma update_ssh_key_Inr:
  assumes "update_ssh_key scope i name s = (s', Inr r)"
  shows "\<exists>row. gated_row ''SSH key'' key_tenant scope (get_row key_id (ssh_keys s) i) = Inr row \<and>
     r = (case name of None \<Rightarrow> row | Some n \<Rightarrow> row\<lparr>key_name := n\<rparr>) \<and> save_ssh_key r s = Inr s'"
  using assms by (auto simp: update_ssh_key_def atomically_Inr_iff rbind_Inr_iff Let_def)

lemma delete_ssh_key_Inr:
  assumes "delete_ssh_key scope i s = (s', Inr u)"
  shows "\<exists>row. gated_row ''SSH key'' key_tenant scope (get_row key_id (ssh_keys s) i) = Inr row \<and> delete_ssh_key_row i s = Inr s'"
  using assms by (auto simp: delete_ssh_key_def atomically_Inr_iff rbind_Inr_iff)


interpretation key_updates: gated_mutation ssh_keys key_id key_tenant "''SSH key''" "\<lambda>scope i. update_ssh_key scope i name"
proof
  show "update_ssh_key scope i name s = (s, Inl x)"
    if "gated_row ''SSH key'' key_tenant scope (get_row key_id (ssh_keys s) i) = Inl x" for scope s i x
    using that by (simp add: update_ssh_key_def atomically_def)
  show "s' = s" if "update_ssh_key scope i name s = (s', Inl x)" for scope i s s' x
    using that by (simp add: update_ssh_key_def atomically_Inl_iff)
  show "filter (\<lambda>r. key_id r \<noteq> i) (ssh_keys s') = filter (\<lambda>r. key_id r \<noteq> i) (ssh_keys s) \<and>
      (\<forall>r \<in> set (ssh_keys s'). key_id r = i \<longrightarrow> key_tenant r = key_tenant row)"
    if "update_ssh_key scope i name s = (s', Inr y)" "get_row key_id (ssh_keys s) i = Some row" for scope i s s' y row
    using update_ssh_key_Inr [OF that(1)] that(2) get_row_SomeD [OF that(2)]
    by (auto simp: gated_row_writable save_simps split: option.splits intro!: saved_row_law)
qed

interpretation key_deletes: gated_mutation ssh_keys key_id key_tenant "''SSH key''" delete_ssh_key
proof
  show "delete_ssh_key scope i s = (s, Inl x)"
    if "gated_row ''SSH key'' key_tenant scope (get_row key_id (ssh_keys s) i) = Inl x" for scope s i x
    using that by (simp add: delete_ssh_key_def atomically_def)
  show "s' = s" if "delete_ssh_key scope i s = (s', Inl x)" for scope i s s' x
    using that by (simp add: delete_ssh_key_def atomically_Inl_iff)
  show "filter (\<lambda>r. key_id r \<noteq> i) (ssh_keys s') = filter (\<lambda>r. key_id r \<noteq> i) (ssh_keys s) \<and>
      (\<forall>r \<in> set (ssh_keys s'). key_id r = i \<longrightarrow> key_tenant r = key_tenant row)"
    if "delete_ssh_key scope i s = (s', Inr y)" "get_row key_id (ssh_keys s) i = Some row" for scope i s s' y row
    using delete_ssh_key_Inr [OF that(1)] by (auto simp: delete_simps del_row_def)
qed

end
