(* ===== verification/Tenants.thy ===== *)
theory Tenants
  imports Row_Store Ipam
begin

text \<open>
  \<^verbatim>\<open>routers/tenants.py\<close>: the tenant registry, its address pools and the operators attached
  to a tenant.
\<close>

section \<open>Gates and helpers\<close>

definition RequireAdmin :: "request_state \<Rightarrow> operator result" where
  "RequireAdmin rs = rbind (get_operator rs) (\<lambda>op.
     rbind (check (op_role op = Admin) (HTTPException 403 ''role not permitted'')) (\<lambda>_. Inr op))"

definition is_slug_char :: "char \<Rightarrow> bool" where
  "is_slug_char c \<longleftrightarrow> is_digit c \<or> (let n = of_char c :: nat in 97 \<le> n \<and> n \<le> 122)"

text \<open>\<^verbatim>\<open>re.sub(r"[^a-z0-9]+", "-", s)\<close>: every maximal run of other characters becomes one dash.\<close>

fun dash_runs :: "bool \<Rightarrow> string \<Rightarrow> string" where
  "dash_runs in_run [] = []"
| "dash_runs in_run (c # cs) =
     (if is_slug_char c then c # dash_runs False cs
      else if in_run then dash_runs True cs else CHR ''-'' # dash_runs True cs)"

definition slugify :: "string \<Rightarrow> string" where
  "slugify name =
     (let dash = (\<lambda>c. c = CHR ''-''); slug = rstrip_if dash (dropWhile dash (dash_runs False (lower name)))
      in if slug = [] then ''tenant'' else slug)"

definition require_tenant :: "state \<Rightarrow> string \<Rightarrow> tenant result" where
  "require_tenant s slug = or_raise (find (\<lambda>t. ten_slug t = slug) (tenants s))
     (HTTPException 404 (''no tenant with slug '' @ py_repr slug))"

definition require_operator :: "state \<Rightarrow> string \<Rightarrow> operator result" where
  "require_operator s cn = or_raise (find (\<lambda>o'. op_cn o' = cn) (operators s))
     (HTTPException 422 (''no operator registered with CN '' @ py_repr cn @ '' '' @ em_dash @
        '' register the operator first via `wg-manager operators add --cn '' @ cn @ ''`''))"

text \<open>The first tenant whose pool overlaps decides the answer; a pool that does not parse raises.\<close>

fun reject_pool_overlap :: "string \<Rightarrow> int option \<Rightarrow> tenant list \<Rightarrow> unit result" where
  "reject_pool_overlap pool exclude [] = Inr ()"
| "reject_pool_overlap pool exclude (other # rest) =
     (if exclude = Some (ten_id other) \<or> ten_subnet_pool other = [] then reject_pool_overlap pool exclude rest
      else rbind (pools_overlap pool (ten_subnet_pool other)) (\<lambda>b.
        if b then Inl (HTTPException 409 (''subnet_pool '' @ py_repr pool @ '' overlaps tenant '' @
               py_repr (ten_slug other) @ [CHR 0x27] @ ''s pool '' @ py_repr (ten_subnet_pool other)))
        else reject_pool_overlap pool exclude rest))"

text \<open>The detail of the 422 goes on with the text of the parse error, which is left out.\<close>

definition check_pool :: "string \<Rightarrow> int option \<Rightarrow> state \<Rightarrow> unit result" where
  "check_pool pool exclude s =
     (case ip4_network True pool of
        Inl x \<Rightarrow> Inl (HTTPException 422 (''invalid subnet_pool '' @ py_repr pool))
      | Inr _ \<Rightarrow> reject_pool_overlap pool exclude (tenants s))"

section \<open>Tenants\<close>

record tenant_create =
  tc_name :: string
  tc_slug :: "string option"
  tc_subnet_pool :: "string option"

definition default_pool :: string where "default_pool = ''10.0.0.0/8''"

definition target_slug :: "tenant_create \<Rightarrow> string" where
  "target_slug b = (case tc_slug b of None \<Rightarrow> slugify (tc_name b) | Some x \<Rightarrow> if x = [] then slugify (tc_name b) else x)"

definition new_tenant :: "env \<Rightarrow> tenant_create \<Rightarrow> tenant" where
  "new_tenant e b = \<lparr>ten_id = new_id e, ten_name = tc_name b, ten_slug = target_slug b,
     ten_subnet_pool = (case tc_subnet_pool b of None \<Rightarrow> default_pool | Some p \<Rightarrow> p), ten_created_at = now e\<rparr>"

definition create_tenant :: "env \<Rightarrow> request_state \<Rightarrow> tenant_create \<Rightarrow> (state, tenant) handler" where
  "create_tenant e rs b = atomically (\<lambda>s.
     rbind (RequireAdmin rs) (\<lambda>_.
     rbind (case find (\<lambda>t. ten_slug t = target_slug b) (tenants s) of
         None \<Rightarrow> Inr ()
       | Some t \<Rightarrow> Inl (HTTPException 409 (''tenant with slug '' @ py_repr (target_slug b) @ '' already exists (id='' @
           str_of_int (ten_id t) @ '')''))) (\<lambda>_.
     rbind (case find (\<lambda>t. ten_name t = tc_name b) (tenants s) of
         None \<Rightarrow> Inr ()
       | Some t \<Rightarrow> Inl (HTTPException 409 (''tenant with name '' @ py_repr (tc_name b) @ '' already exists (id='' @
           str_of_int (ten_id t) @ '')''))) (\<lambda>_.
     rbind (case tc_subnet_pool b of None \<Rightarrow> Inr () | Some p \<Rightarrow> check_pool p None s) (\<lambda>_.
     rbind (insert_tenant (new_tenant e b) s) (\<lambda>s'. Inr (s', new_tenant e b)))))))"

definition update_tenant :: "request_state \<Rightarrow> string \<Rightarrow> string option \<Rightarrow> (state, tenant) handler" where
  "update_tenant rs slug pool = atomically (\<lambda>s.
     rbind (RequireAdmin rs) (\<lambda>_.
     rbind (require_tenant s slug) (\<lambda>row.
     rbind (case pool of None \<Rightarrow> Inr () | Some p \<Rightarrow> check_pool p (Some (ten_id row)) s) (\<lambda>_.
     let row' = (case pool of None \<Rightarrow> row | Some p \<Rightarrow> row\<lparr>ten_subnet_pool := p\<rparr>) in
     rbind (save_tenant row' s) (\<lambda>s'. Inr (s', row'))))))"

definition list_tenants :: "request_state \<Rightarrow> state \<Rightarrow> tenant list result" where
  "list_tenants rs s = rbind (RequireAdminOrAuditor rs) (\<lambda>_. Inr (sort_key ten_id (tenants s)))"

definition get_tenant :: "request_state \<Rightarrow> string \<Rightarrow> state \<Rightarrow> tenant result" where
  "get_tenant rs slug s = rbind (RequireAdminOrAuditor rs) (\<lambda>_. require_tenant s slug)"

section \<open>Operators of a tenant\<close>

record operator_tenant_read =
  otr_id :: int
  otr_tenant_id :: int
  otr_tenant_slug :: string
  otr_tenant_name :: string
  otr_operator_id :: int
  otr_operator_cn :: string
  otr_role :: operator_role
  otr_created_at :: int

definition to_attach_read :: "operator_tenant \<Rightarrow> tenant \<Rightarrow> operator \<Rightarrow> operator_tenant_read" where
  "to_attach_read j t o' = \<lparr>otr_id = ot_id j, otr_tenant_id = ten_id t, otr_tenant_slug = ten_slug t,
     otr_tenant_name = ten_name t, otr_operator_id = op_id o', otr_operator_cn = op_cn o', otr_role = ot_role j,
     otr_created_at = ot_created_at j\<rparr>"

definition find_join :: "state \<Rightarrow> operator \<Rightarrow> tenant \<Rightarrow> operator_tenant option" where
  "find_join s o' t = find (\<lambda>j. ot_operator_id j = op_id o' \<and> ot_tenant_id j = ten_id t) (operator_tenants s)"

definition attach_operator ::
  "env \<Rightarrow> request_state \<Rightarrow> string \<Rightarrow> string \<Rightarrow> operator_role \<Rightarrow> (state, operator_tenant_read) handler" where
  "attach_operator e rs slug cn role = atomically (\<lambda>s.
     rbind (RequireAdmin rs) (\<lambda>_.
     rbind (require_tenant s slug) (\<lambda>tenant.
     rbind (require_operator s cn) (\<lambda>operator.
     rbind (case find_join s operator tenant of
         None \<Rightarrow> Inr ()
       | Some j \<Rightarrow> Inl (HTTPException 409 (''operator '' @ py_repr cn @ '' already attached to tenant '' @ py_repr slug @
           '' (role='' @ operator_role_value (ot_role j) @ '')''))) (\<lambda>_.
     let j = \<lparr>ot_id = new_id e, ot_operator_id = op_id operator, ot_tenant_id = ten_id tenant, ot_role = role,
              ot_created_at = now e\<rparr> in
     rbind (insert_join j s) (\<lambda>s'. Inr (s', to_attach_read j tenant operator)))))))"

definition detach_operator :: "request_state \<Rightarrow> string \<Rightarrow> string \<Rightarrow> (state, unit) handler" where
  "detach_operator rs slug cn = atomically (\<lambda>s.
     rbind (RequireAdmin rs) (\<lambda>_.
     rbind (require_tenant s slug) (\<lambda>tenant.
     rbind (or_raise (find (\<lambda>o'. op_cn o' = cn) (operators s)) (HTTPException 404 (''no operator with CN '' @ py_repr cn))) (\<lambda>operator.
     rbind (or_raise (find_join s operator tenant)
       (HTTPException 404 (''operator '' @ py_repr cn @ '' is not attached to tenant '' @ py_repr slug))) (\<lambda>j.
       Inr (s\<lparr>operator_tenants := filter (\<lambda>x. ot_id x \<noteq> ot_id j) (operator_tenants s)\<rparr>, ()))))))"

definition list_tenant_operators :: "request_state \<Rightarrow> string \<Rightarrow> state \<Rightarrow> operator_tenant_read list result" where
  "list_tenant_operators rs slug s =
     rbind (RequireAdminOrAuditor rs) (\<lambda>_.
     rbind (require_tenant s slug) (\<lambda>tenant.
       Inr (concat (map (\<lambda>j. case get_row op_id (operators s) (ot_operator_id j) of
                               None \<Rightarrow> [] | Some o' \<Rightarrow> [to_attach_read j tenant o'])
            (sort_key ot_id (filter (\<lambda>j. ot_tenant_id j = ten_id tenant) (operator_tenants s)))))))"

section \<open>Lemmas\<close>

lemma reject_pool_overlap_Inr:
  "reject_pool_overlap pool exclude ts = Inr () \<longleftrightarrow>
     (\<forall>t \<in> set ts. exclude = Some (ten_id t) \<or> ten_subnet_pool t = [] \<or> pools_overlap pool (ten_subnet_pool t) = Inr False)"
  by (induction ts) (auto simp: result_simps split: if_splits)

lemma parse_pool_Nil: "parse_pool [] = Inr n \<longleftrightarrow> False"
proof -
  have "\<not> isl (parse_pool []) \<Longrightarrow> False" by code_simp
  then show ?thesis by (metis isl_def sum.disc(2))
qed

text \<open>The invariant on pools: no address belongs to the pools of two tenants.\<close>

definition disjoint_pools :: "string \<Rightarrow> string \<Rightarrow> bool" where
  "disjoint_pools a b \<longleftrightarrow> (\<forall>na nb. parse_pool a = Inr na \<longrightarrow> parse_pool b = Inr nb \<longrightarrow> net_addresses na \<inter> net_addresses nb = {})"

definition pools_disjoint :: "state \<Rightarrow> bool" where
  "pools_disjoint s \<longleftrightarrow> (\<forall>t \<in> set (tenants s). \<forall>u \<in> set (tenants s). ten_id t \<noteq> ten_id u \<longrightarrow>
     disjoint_pools (ten_subnet_pool t) (ten_subnet_pool u))"

lemma disjoint_pools_sym: "disjoint_pools a b \<longleftrightarrow> disjoint_pools b a"
  by (auto simp: disjoint_pools_def)

lemma check_pool_disjoint:
  assumes "check_pool pool exclude s = Inr ()" and "t \<in> set (tenants s)" and "exclude \<noteq> Some (ten_id t)"
  shows "disjoint_pools pool (ten_subnet_pool t)"
proof -
  have "ten_subnet_pool t = [] \<or> pools_overlap pool (ten_subnet_pool t) = Inr False"
    using assms by (auto simp: check_pool_def reject_pool_overlap_Inr split: sum.splits)
  then show ?thesis
  proof
    assume "pools_overlap pool (ten_subnet_pool t) = Inr False"
    from pools_overlap_False [OF this] show ?thesis by (auto simp: disjoint_pools_def)
  qed (simp add: disjoint_pools_def parse_pool_Nil)
qed

lemma create_tenant_Inr:
  assumes "create_tenant e rs b s = (s', Inr t)"
  shows "(\<exists>op. RequireAdmin rs = Inr op) \<and> t = new_tenant e b \<and> s' = s\<lparr>tenants := tenants s @ [t]\<rparr> \<and>
     (\<forall>p. tc_subnet_pool b = Some p \<longrightarrow> check_pool p None s = Inr ())"
  using assms by (auto simp: create_tenant_def result_simps split: option.splits)

lemma update_tenant_Inr:
  assumes "update_tenant rs slug pool s = (s', Inr t)"
  shows "\<exists>row. row \<in> set (tenants s) \<and> ten_slug row = slug \<and> s' = s\<lparr>tenants := put_row ten_id t (tenants s)\<rparr> \<and>
     t = (case pool of None \<Rightarrow> row | Some p \<Rightarrow> row\<lparr>ten_subnet_pool := p\<rparr>) \<and>
     (\<forall>p. pool = Some p \<longrightarrow> check_pool p (Some (ten_id row)) s = Inr ())"
  using assms
  by (auto simp: update_tenant_def require_tenant_def result_simps Let_def dest!: find_SomeD split: option.splits)

lemma join_unique:
  assumes "wf_state s" and "j \<in> set (operator_tenants s)" and "k \<in> set (operator_tenants s)"
    and "ot_operator_id j = ot_operator_id k" and "ot_tenant_id j = ot_tenant_id k"
  shows "j = k"
proof -
  have "distinct (map (\<lambda>j. (ot_operator_id j, ot_tenant_id j)) (operator_tenants s))"
    using assms(1) by (simp add: wf_state_def unique_columns_def)
  from distinct_map_eq [OF this assms(2,3)] assms(4,5) show ?thesis by simp
qed

lemma role_in_db:
  assumes "wf_state s"
  shows "role_in (scope_from_db s op) t = Some r \<longleftrightarrow>
     (\<exists>j \<in> set (operator_tenants s). ot_operator_id j = op_id op \<and> ot_tenant_id j = t \<and> ot_role j = r)"
proof
  assume "role_in (scope_from_db s op) t = Some r"
  then show "\<exists>j \<in> set (operator_tenants s). ot_operator_id j = op_id op \<and> ot_tenant_id j = t \<and> ot_role j = r"
    by (auto simp: role_in_def scope_from_db_def Let_def join_rows_def dest!: role_map_Some)
next
  assume "\<exists>j \<in> set (operator_tenants s). ot_operator_id j = op_id op \<and> ot_tenant_id j = t \<and> ot_role j = r"
  then obtain j where j: "j \<in> set (operator_tenants s)" "ot_operator_id j = op_id op" "ot_tenant_id j = t" "ot_role j = r"
    by blast
  then have "role_map (join_rows s (op_id op)) t \<noteq> None"
    unfolding role_map_dom by (auto simp: join_rows_def)
  then obtain r' where r': "role_map (join_rows s (op_id op)) t = Some r'" by blast
  then obtain k where k: "k \<in> set (join_rows s (op_id op))" "ot_tenant_id k = t" "ot_role k = r'"
    using role_map_Some by blast
  have "k = j"
    by (rule join_unique [OF assms _ j(1)]) (use j(2,3) k(1,2) in \<open>simp_all add: join_rows_def\<close>)
  with k(3) j(4) r' show "role_in (scope_from_db s op) t = Some r"
    by (simp add: role_in_def scope_from_db_def Let_def)
qed

lemma attach_operator_Inr:
  assumes "attach_operator e rs slug cn role s = (s', Inr a)"
  shows "\<exists>t o' j. t \<in> set (tenants s) \<and> ten_slug t = slug \<and> o' \<in> set (operators s) \<and> op_cn o' = cn \<and>
     find_join s o' t = None \<and> insert_join j s = Inr s' \<and> ot_id j = new_id e \<and>
     ot_operator_id j = op_id o' \<and> ot_tenant_id j = ten_id t \<and> ot_role j = role \<and> a = to_attach_read j t o'"
proof -
  obtain t o' where "require_tenant s slug = Inr t" "require_operator s cn = Inr o'" "find_join s o' t = None"
    and r: "insert_join \<lparr>ot_id = new_id e, ot_operator_id = op_id o', ot_tenant_id = ten_id t, ot_role = role,
        ot_created_at = now e\<rparr> s = Inr s'"
      "a = to_attach_read \<lparr>ot_id = new_id e, ot_operator_id = op_id o', ot_tenant_id = ten_id t, ot_role = role,
        ot_created_at = now e\<rparr> t o'"
    using assms unfolding attach_operator_def by (auto simp: atomically_Inr_iff rbind_Inr_iff Let_def split: option.splits)
  then show ?thesis
    by (intro exI [of _ t] exI [of _ o'] exI conjI [OF _ conjI])
      (auto simp: require_tenant_def require_operator_def result_simps dest!: find_SomeD)
qed

lemma find_unique:
  assumes "x \<in> set xs" and "P x" and "\<And>y. y \<in> set xs \<Longrightarrow> P y \<Longrightarrow> y = x"
  shows "find P xs = Some x"
proof -
  have "find P xs \<noteq> None" using assms(1,2) by (auto simp: find_None_iff)
  then obtain y where y: "find P xs = Some y" by blast
  then have "y \<in> set xs" "P y" by (auto dest!: find_SomeD)
  with assms(3) y show ?thesis by blast
qed

lemma unique_by_name:
  assumes "wf_state s"
  shows "t \<in> set (tenants s) \<Longrightarrow> find (\<lambda>x. ten_slug x = ten_slug t) (tenants s) = Some t"
    and "o' \<in> set (operators s) \<Longrightarrow> find (\<lambda>x. op_cn x = op_cn o') (operators s) = Some o'"
  using assms by (auto simp: wf_state_def unique_columns_def intro!: find_unique dest: distinct_map_eq)

lemma role_in_frame:
  assumes "operator_tenants s1 = operator_tenants s @ [j]" and "(op_id op, i) \<noteq> (ot_operator_id j, ot_tenant_id j)"
  shows "role_in (scope_from_db s1 op) i = role_in (scope_from_db s op) i"
  using assms by (auto simp: role_in_def scope_from_db_def Let_def join_rows_def role_map_def)

section \<open>Correctness\<close>

text \<open>
  creating a tenant with an explicit pool, and changing the pool of a tenant, never
  make the pools of two tenants share an address.
\<close>

theorem tenant_pools_stay_disjoint:
  assumes "pools_disjoint s"
    and "create_tenant e rs b s = (s', Inr t) \<and> tc_subnet_pool b \<noteq> None \<or> update_tenant rs slug pool s = (s', Inr t)"
  shows "pools_disjoint s'"
  using assms(2)
proof
  assume c: "create_tenant e rs b s = (s', Inr t) \<and> tc_subnet_pool b \<noteq> None"
  then obtain p where p: "tc_subnet_pool b = Some p" by auto
  have "disjoint_pools (ten_subnet_pool t) (ten_subnet_pool u)" if "u \<in> set (tenants s)" for u
    using check_pool_disjoint [of p None s u] that create_tenant_Inr [OF conjunct1 [OF c]] p by (auto simp: new_tenant_def)
  then show ?thesis
    using assms(1) create_tenant_Inr [OF conjunct1 [OF c]] by (auto simp: pools_disjoint_def disjoint_pools_sym)
next
  assume u: "update_tenant rs slug pool s = (s', Inr t)"
  from update_tenant_Inr [OF u] obtain row where row: "row \<in> set (tenants s)" and s': "s' = s\<lparr>tenants := put_row ten_id t (tenants s)\<rparr>"
    and t: "t = (case pool of None \<Rightarrow> row | Some p \<Rightarrow> row\<lparr>ten_subnet_pool := p\<rparr>)"
    and ck: "\<forall>p. pool = Some p \<longrightarrow> check_pool p (Some (ten_id row)) s = Inr ()"
    by blast
  have id: "ten_id t = ten_id row" by (simp add: t split: option.splits)
  have "disjoint_pools (ten_subnet_pool t) (ten_subnet_pool u)" if "u \<in> set (tenants s)" "ten_id u \<noteq> ten_id row" for u
    using assms(1) row that ck check_pool_disjoint [of _ "Some (ten_id row)" s u]
    by (auto simp: t pools_disjoint_def split: option.splits)
  then show ?thesis
    using assms(1) id by (auto simp: s' pools_disjoint_def in_put_row disjoint_pools_sym)
qed


definition root_operator :: operator where
  "root_operator = \<lparr>op_id = 1, op_tenant = None, op_cn = ''root@wg.local'', op_display_name = None,
     op_role = Admin, op_status = Active, op_created_at = 0\<rparr>"

definition root_request :: request_state where
  "root_request = \<lparr>rs_cert_subject = None, rs_operator = Some root_operator, rs_tenant_ids = None, rs_tenant_roles = None,
     rs_is_super_admin = Some True\<rparr>"

definition beta_create :: "string option \<Rightarrow> tenant_create" where
  "beta_create pool = \<lparr>tc_name = ''Beta Corp'', tc_slug = None, tc_subnet_pool = pool\<rparr>"

lemma sample_pools_disjoint: "pools_disjoint sample_db"
  by (simp add: pools_disjoint_def sample_db_def)

theorem tenant_pools_stay_disjoint_witness:
  "pools_disjoint (fst (create_tenant sample_env root_request (beta_create (Some ''10.20.0.0/16'')) sample_db))"
proof -
  let ?b = "beta_create (Some ''10.20.0.0/16'')"
  let ?h = "create_tenant sample_env root_request ?b sample_db"
  have "snd ?h = Inr (new_tenant sample_env ?b)" by code_simp
  then have "?h = (fst ?h, Inr (new_tenant sample_env ?b))" by (simp add: prod_eq_iff)
  moreover have "tc_subnet_pool ?b \<noteq> None" by (simp add: beta_create_def)
  ultimately show ?thesis using tenant_pools_stay_disjoint [OF sample_pools_disjoint] by blast
qed

text \<open>
  Without an explicit pool the new tenant gets \<^verbatim>\<open>10.0.0.0/8\<close> unchecked: from a database
  whose pools are disjoint, the request succeeds and the pools overlap.
\<close>

theorem default_pool_breaks_disjointness:
  "pools_disjoint sample_db \<and>
   snd (create_tenant sample_env root_request (beta_create None) sample_db) = Inr (new_tenant sample_env (beta_create None)) \<and>
   \<not> pools_disjoint (fst (create_tenant sample_env root_request (beta_create None) sample_db))"
proof -
  let ?t = "new_tenant sample_env (beta_create None)"
  let ?h = "create_tenant sample_env root_request (beta_create None) sample_db"
  let ?a = "\<lparr>network_address = 168361984, prefixlen = 16\<rparr>" and ?b = "\<lparr>network_address = 167772160, prefixlen = 8\<rparr>"
  have r: "snd ?h = Inr ?t" by code_simp
  then have "?h = (fst ?h, Inr ?t)" by (simp add: prod_eq_iff)
  from create_tenant_Inr [OF this] have mem: "sample_tenant \<in> set (tenants (fst ?h))" "?t \<in> set (tenants (fst ?h))"
    by (auto simp: sample_db_def)
  have "parse_pool (ten_subnet_pool sample_tenant) = Inr ?a" "parse_pool (ten_subnet_pool ?t) = Inr ?b" by code_simp+
  moreover have "network_address ?a \<in> net_addresses ?a \<inter> net_addresses ?b" by (simp add: net_addresses_def)
  ultimately have "\<not> disjoint_pools (ten_subnet_pool sample_tenant) (ten_subnet_pool ?t)"
    unfolding disjoint_pools_def by blast
  moreover have "ten_id sample_tenant \<noteq> ten_id ?t" by (simp add: sample_tenant_def new_tenant_def sample_env_def)
  ultimately have "\<not> pools_disjoint (fst ?h)" using mem unfolding pools_disjoint_def by blast
  with r sample_pools_disjoint show ?thesis by blast
qed

text \<open>
  attaching an operator to a tenant gives that operator exactly the requested role
  there and changes no other grant; detaching restores the database.
\<close>

theorem attach_then_detach:
  assumes "wf_state s" and "new_id e \<notin> ot_id ` set (operator_tenants s)"
    and "attach_operator e rs slug cn role s = (s1, Inr a)"
  shows "\<exists>t o'. t \<in> set (tenants s) \<and> ten_slug t = slug \<and> o' \<in> set (operators s) \<and> op_cn o' = cn \<and>
     role_in (scope_from_db s o') (ten_id t) = None \<and> role_in (scope_from_db s1 o') (ten_id t) = Some role \<and>
     (\<forall>op i. (op_id op, i) \<noteq> (op_id o', ten_id t) \<longrightarrow>
        role_in (scope_from_db s1 op) i = role_in (scope_from_db s op) i) \<and>
     detach_operator rs slug cn s1 = (s, Inr ())"
proof -
  obtain t o' j where t: "t \<in> set (tenants s)" "ten_slug t = slug" and op: "o' \<in> set (operators s)" "op_cn o' = cn"
    and nj: "find_join s o' t = None" and ins: "insert_join j s = Inr s1"
    and j: "ot_id j = new_id e" "ot_operator_id j = op_id o'" "ot_tenant_id j = ten_id t" "ot_role j = role"
    using attach_operator_Inr [OF assms(3)] by blast
  have s1: "s1 = s\<lparr>operator_tenants := operator_tenants s @ [j]\<rparr>" using ins by (simp add: result_simps)
  have wf1: "wf_state s1" using wf_insert(5) [OF assms(1) ins] assms(2) j(1) by simp
  have none: "role_in (scope_from_db s o') (ten_id t) = None"
    by (rule ccontr) (use nj in \<open>auto simp: role_in_db [OF assms(1)] find_join_def find_None_iff\<close>)
  moreover have "role_in (scope_from_db s1 o') (ten_id t) = Some role"
    unfolding role_in_db [OF wf1] using j by (auto simp: s1)
  moreover have "role_in (scope_from_db s1 op) i = role_in (scope_from_db s op) i"
    if "(op_id op, i) \<noteq> (op_id o', ten_id t)" for op i
    using that j by (intro role_in_frame) (auto simp: s1)
  moreover have "detach_operator rs slug cn s1 = (s, Inr ())"
  proof -
    obtain adm where "RequireAdmin rs = Inr adm"
      using assms(3) by (auto simp: attach_operator_def atomically_Inr_iff rbind_Inr_iff)
    moreover have "find (\<lambda>t. ten_slug t = slug) (tenants s1) = Some t" "find (\<lambda>o'. op_cn o' = cn) (operators s1) = Some o'"
      using unique_by_name [OF assms(1)] t op by (auto simp: s1)
    moreover have "find_join s1 o' t = Some j"
      unfolding find_join_def
    proof (rule find_unique)
      show "j \<in> set (operator_tenants s1)" by (simp add: s1)
      show "ot_operator_id j = op_id o' \<and> ot_tenant_id j = ten_id t" using j by simp
      fix k assume "k \<in> set (operator_tenants s1)" "ot_operator_id k = op_id o' \<and> ot_tenant_id k = ten_id t"
      then show "k = j" using join_unique [OF wf1, of k j] j by (simp add: s1)
    qed
    moreover have "filter (\<lambda>x. ot_id x \<noteq> ot_id j) (operator_tenants s1) = operator_tenants s"
      using assms(2) j(1) by (auto simp: s1 filter_id_conv image_iff)
    ultimately show ?thesis by (simp add: detach_operator_def require_tenant_def atomically_def s1)
  qed
  ultimately show ?thesis using t op by blast
qed

theorem attach_then_detach_witness:
  "detach_operator root_request ''acme'' ''alice@wg.local''
     (fst (attach_operator sample_env root_request ''acme'' ''alice@wg.local'' Auditor
        (sample_db\<lparr>operators := [sample_operator]\<rparr>))) = (sample_db\<lparr>operators := [sample_operator]\<rparr>, Inr ())"
proof -
  let ?s = "sample_db\<lparr>operators := [sample_operator]\<rparr>"
  let ?h = "attach_operator sample_env root_request ''acme'' ''alice@wg.local'' Auditor ?s"
  have "\<not> isl (snd ?h)" by code_simp
  then obtain a where "?h = (fst ?h, Inr a)" by (metis prod.collapse sum.collapse(2))
  moreover have "wf_state ?s"
    by (simp add: wf_simps sample_db_def empty_db_def sample_operator_def sample_tenant_def sample_key_def sample_hub_def
        sample_client_def)
  moreover have "new_id sample_env \<notin> ot_id ` set (operator_tenants ?s)"
    by (simp add: sample_db_def empty_db_def)
  ultimately show ?thesis using attach_then_detach by blast
qed

end
