(* ===== verification/Tokens_Api.thy ===== *)
theory Tokens_Api
  imports Row_Store Enrollment
begin

text \<open>
  \<^verbatim>\<open>routers/enrollment_tokens.py\<close>: minting, listing, reading and revoking enrollment tokens,
  for admins of the hub's tenant only.
\<close>

section \<open>Handlers\<close>

record token_create =
  tkc_server_id :: int
  tkc_ssh_key_id :: int
  tkc_ssh_username :: string
  tkc_name_prefix :: string
  tkc_ttl_seconds :: int
  tkc_max_uses :: int
  tkc_allowed_cidrs :: "string list option"

record token_created =
  tcr_id :: int
  tcr_token :: string
  tcr_server_id :: int
  tcr_tenant_id :: "int option"
  tcr_max_uses :: int
  tcr_expires_at :: int

definition token_mint_args :: "actor \<Rightarrow> token_create \<Rightarrow> mint_args" where
  "token_mint_args a p = \<lparr>ma_ssh_username = tkc_ssh_username p, ma_name_prefix = tkc_name_prefix p,
     ma_ttl_seconds = tkc_ttl_seconds p, ma_max_uses = tkc_max_uses p, ma_created_by_cn = actor_cn a,
     ma_allowed_cidrs = tkc_allowed_cidrs p\<rparr>"

definition create_enrollment_token ::
  "env \<Rightarrow> string \<Rightarrow> request_state \<Rightarrow> tenant_scope \<Rightarrow> token_create \<Rightarrow> (state, token_created) handler" where
  "create_enrollment_token e entropy rs scope p = atomically (\<lambda>s.
     rbind (or_raise (get_row srv_id (servers s) (tkc_server_id p)) (HTTPException 404 ''Server not found'')) (\<lambda>server.
     rbind (require_tenant_role scope (srv_tenant server) [Admin]) (\<lambda>_.
     rbind (or_raise (get_row key_id (ssh_keys s) (tkc_ssh_key_id p)) (HTTPException 404 ''SSH key not found'')) (\<lambda>ssh_key.
     rbind (check (key_tenant ssh_key = srv_tenant server)
       (HTTPException 400 ''SSH key must belong to the same tenant as the server'')) (\<lambda>_.
     rbind (check (srv_status server = Ready)
       (HTTPException 400 (''Server is not ready (status='' @ node_status_value (srv_status server) @
          ''); enrollment needs the hub'' @ [CHR 0x27] @ ''s public key''))) (\<lambda>_.
     let actor = actor_from_request rs in
     rbind (mint_token e entropy server ssh_key (token_mint_args actor p) s) (\<lambda>(s1, row, token).
     rbind (persist e actor
        \<lparr>aa_event = ''enrollment_token.create'', aa_resource_type = ''enrollment_token'', aa_resource_id = Some (et_id row),
         aa_action = ''create'', aa_before = None, aa_after = Some (token_json e row),
         aa_payload = Some [(''server_id'', JInt (et_server_id row)), (''max_uses'', JInt (et_max_uses row)),
           (''ttl_seconds'', JInt (tkc_ttl_seconds p)),
           (''allowed_cidrs'', (case tkc_allowed_cidrs p of None \<Rightarrow> JNull | Some cs \<Rightarrow> JArr (map JStr cs)))],
         aa_request_id = None, aa_tenant_id = et_tenant row\<rparr> s1)
       (\<lambda>(s2, _). Inr (s2, \<lparr>tcr_id = et_id row, tcr_token = token, tcr_server_id = et_server_id row,
          tcr_tenant_id = et_tenant row, tcr_max_uses = et_max_uses row, tcr_expires_at = et_expires_at row\<rparr>)))))))))"

text \<open>
  \<^verbatim>\<open>_read\<close>: the row without its hash, with the derived status and the stored networks as a
  list.
\<close>

record token_read =
  tr_row :: enrollment_token
  tr_allowed_cidrs :: "string list option"
  tr_status :: enrollment_token_status

definition read_token :: "env \<Rightarrow> enrollment_token \<Rightarrow> token_read" where
  "read_token e row = \<lparr>tr_row = row\<lparr>et_token_hash := []\<rparr>,
     tr_allowed_cidrs = (case et_allowed_cidrs row of None \<Rightarrow> None
       | Some cs \<Rightarrow> if cs = [] then None else Some (split_on CHR '','' cs)),
     tr_status = token_status row (now e)\<rparr>"

text \<open>Tenant ids whose joined role is admin, as a predicate on the column.\<close>

definition admin_tenant :: "tenant_scope \<Rightarrow> int option \<Rightarrow> bool" where
  "admin_tenant scope tid = (case tid of None \<Rightarrow> False | Some t \<Rightarrow> tenant_roles scope t = Some Admin)"

definition list_enrollment_tokens ::
  "env \<Rightarrow> tenant_scope \<Rightarrow> int option \<Rightarrow> bool \<Rightarrow> state \<Rightarrow> token_read list" where
  "list_enrollment_tokens e scope sid active s =
     map (read_token e)
       (filter (\<lambda>t. (is_super_admin scope \<or> admin_tenant scope (et_tenant t)) \<and>
                    (case sid of None \<Rightarrow> True | Some i \<Rightarrow> et_server_id t = i) \<and>
                    (\<not> active \<or> active_filter (now e) t))
         (rev (sort_key et_id (enrollment_tokens s))))"

definition get_enrollment_token :: "env \<Rightarrow> tenant_scope \<Rightarrow> int \<Rightarrow> state \<Rightarrow> token_read result" where
  "get_enrollment_token e scope i s =
     rbind (or_raise (get_row et_id (enrollment_tokens s) i) (HTTPException 404 ''Enrollment token not found'')) (\<lambda>row.
     rbind (require_tenant_role scope (et_tenant row) [Admin]) (\<lambda>_. Inr (read_token e row)))"

definition revoke_enrollment_token ::
  "env \<Rightarrow> request_state \<Rightarrow> tenant_scope \<Rightarrow> int \<Rightarrow> (state, token_read) handler" where
  "revoke_enrollment_token e rs scope i = atomically (\<lambda>s.
     rbind (or_raise (get_row et_id (enrollment_tokens s) i) (HTTPException 404 ''Enrollment token not found'')) (\<lambda>row.
     rbind (require_tenant_role scope (et_tenant row) [Admin]) (\<lambda>_.
     let actor = actor_from_request rs; (s1, changed) = revoke_token e row (actor_cn actor) s in
     if \<not> changed then Inr (s, read_token e row)
     else let row' = row\<lparr>et_revoked_at := Some (now e), et_revoked_by_cn := actor_cn actor\<rparr> in
       rbind (persist e actor
          \<lparr>aa_event = ''enrollment_token.revoke'', aa_resource_type = ''enrollment_token'', aa_resource_id = Some (et_id row),
           aa_action = ''revoke'', aa_before = Some (token_json e row), aa_after = Some (token_json e row'),
           aa_payload = Some [(''server_id'', JInt (et_server_id row)), (''use_count'', JInt (et_use_count row))],
           aa_request_id = None, aa_tenant_id = et_tenant row\<rparr> s1)
         (\<lambda>(s2, _). Inr (s2, read_token e row')))))"

section \<open>Lemmas\<close>

lemma create_enrollment_token_Inr:
  assumes "create_enrollment_token e entropy rs scope p s = (s', Inr r)"
  shows "\<exists>server key row. get_row srv_id (servers s) (tkc_server_id p) = Some server \<and> srv_status server = Ready \<and>
     require_tenant_role scope (srv_tenant server) [Admin] = Inr () \<and>
     get_row key_id (ssh_keys s) (tkc_ssh_key_id p) = Some key \<and> key_tenant key = srv_tenant server \<and>
     row = new_token_row e (tcr_token r) server key (token_mint_args (actor_from_request rs) p) \<and>
     et_token_hash row \<notin> et_token_hash ` set (enrollment_tokens s) \<and> tcr_id r = et_id row \<and>
     tcr_max_uses r = et_max_uses row \<and> tcr_expires_at r = et_expires_at row \<and>
     enrollment_tokens s' = enrollment_tokens s @ [row] \<and> servers s' = servers s \<and> clients s' = clients s \<and>
     (\<exists>a. audit_events s' = audit_events s @ [a] \<and> ae_event a = ''enrollment_token.create'' \<and> ae_tenant a = srv_tenant server)"
  using assms
  by (auto simp: create_enrollment_token_def result_simps mint_token_Inr persist_Inr Let_def audit_row_def new_token_row_def)


lemma revoke_enrollment_token_Inr:
  assumes "revoke_enrollment_token e rs scope i s = (s', Inr r)"
  shows "\<exists>row. get_row et_id (enrollment_tokens s) i = Some row \<and>
     require_tenant_role scope (et_tenant row) [Admin] = Inr () \<and>
     (if et_revoked_at row = None
      then enrollment_tokens s' = upd_where (\<lambda>x. et_id x = et_id row)
             (\<lambda>x. x\<lparr>et_revoked_at := Some (now e), et_revoked_by_cn := actor_cn (actor_from_request rs)\<rparr>) (enrollment_tokens s) \<and>
           r = read_token e (row\<lparr>et_revoked_at := Some (now e), et_revoked_by_cn := actor_cn (actor_from_request rs)\<rparr>) \<and>
           (\<exists>a. audit_events s' = audit_events s @ [a] \<and> ae_event a = ''enrollment_token.revoke'')
      else s' = s \<and> r = read_token e row)"
proof -
  obtain row where g: "get_row et_id (enrollment_tokens s) i = Some row" "require_tenant_role scope (et_tenant row) [Admin] = Inr ()"
    using assms unfolding revoke_enrollment_token_def
    by (auto simp: atomically_Inr_iff rbind_Inr_iff or_raise_Inr_iff)
  show ?thesis
  proof (cases "et_revoked_at row")
    case None
    then show ?thesis
      using assms g by (auto simp: revoke_enrollment_token_def atomically_Inr_iff revoke_token_def Let_def rbind_Inr_iff
          persist_Inr audit_row_def)
  next
    case (Some x)
    then show ?thesis
      using assms g by (auto simp: revoke_enrollment_token_def atomically_Inr_iff revoke_token_def Let_def)
  qed
qed

lemma active_filter_status: "active_filter t row \<longleftrightarrow> token_status row t = Token_Active"
  by (auto simp: active_filter_def token_status_def is_expired_def)

lemma admin_gate:
  "require_tenant_role scope tid [Admin] = Inr () \<longleftrightarrow> is_super_admin scope \<or> admin_tenant scope tid"
  by (auto simp: result_simps admin_tenant_def role_in_def split: option.splits)

definition token_db :: state where
  "token_db = sample_db\<lparr>enrollment_tokens := [sample_token]\<rparr>"

lemmas sample_rows = token_db_def sample_db_def empty_db_def sample_tenant_def sample_key_def sample_hub_def
  sample_client_def sample_token_def

lemma wf_token_db: "wf_state token_db" by (simp add: wf_simps sample_rows)

section \<open>Correctness\<close>

text \<open>
  A revocation that succeeds was made by an admin of the token's tenant; from then on
  the token is revoked at every instant, cannot be consumed, and revoking it again answers
  the same row and changes nothing.
\<close>

theorem revoked_token_is_dead:
  assumes "wf_state s" and "revoke_enrollment_token e rs scope i s = (s', Inr r)"
  shows "\<exists>row. get_row et_id (enrollment_tokens s') i = Some row \<and> require_tenant_role scope (et_tenant row) [Admin] = Inr () \<and>
     (\<forall>t. token_status row t = Token_Revoked) \<and> \<not> snd (consume_token row s') \<and> tr_status r = Token_Revoked \<and>
     (\<forall>e' rs' scope'. require_tenant_role scope' (et_tenant row) [Admin] = Inr () \<longrightarrow>
        revoke_enrollment_token e' rs' scope' i s' = (s', Inr (read_token e' row)))"
proof -
  obtain row where row: "get_row et_id (enrollment_tokens s) i = Some row"
    "require_tenant_role scope (et_tenant row) [Admin] = Inr ()"
    and st: "if et_revoked_at row = None
      then enrollment_tokens s' = upd_where (\<lambda>x. et_id x = et_id row)
             (\<lambda>x. x\<lparr>et_revoked_at := Some (now e), et_revoked_by_cn := actor_cn (actor_from_request rs)\<rparr>) (enrollment_tokens s) \<and>
           r = read_token e (row\<lparr>et_revoked_at := Some (now e), et_revoked_by_cn := actor_cn (actor_from_request rs)\<rparr>) \<and>
           (\<exists>a. audit_events s' = audit_events s @ [a] \<and> ae_event a = ''enrollment_token.revoke'')
      else s' = s \<and> r = read_token e row"
    using revoke_enrollment_token_Inr [OF assms(2)] by blast
  have d: "distinct (map et_id (enrollment_tokens s))" using assms(1) by (simp add: wf_state_def unique_keys_def)
  have d': "distinct (map et_id (enrollment_tokens s'))"
    using d st by (auto simp: map_upd_where split: if_splits)
  obtain row' where row': "get_row et_id (enrollment_tokens s') i = Some row'" "et_revoked_at row' \<noteq> None"
    "et_tenant row' = et_tenant row" "r = read_token e row'"
    using row(1) st get_row_SomeD [OF row(1)] by (auto simp: get_upd_where split: if_splits)
  have "\<not> snd (consume_token row' s')"
    using row' get_row_SomeD [OF row'(1)] distinct_map_eq [OF d']
    unfolding consume_token_iff [OF d'] consumable_def by metis
  moreover have "tr_status r = Token_Revoked" using row'(2,4) by (auto simp: read_token_def token_status_def)
  moreover have "revoke_enrollment_token e' rs' scope' i s' = (s', Inr (read_token e' row'))"
    if "require_tenant_role scope' (et_tenant row') [Admin] = Inr ()" for e' rs' scope'
    using that row' by (auto simp: revoke_enrollment_token_def revoke_token_def atomically_def Let_def)
  ultimately show ?thesis using row row' by (auto simp: token_status_def)
qed


theorem revoked_token_is_dead_witness:
  "\<exists>row. get_row et_id (enrollment_tokens (fst (revoke_enrollment_token sample_env anonymous_request unscoped 1 token_db))) 1
      = Some row \<and> (\<forall>t. token_status row t = Token_Revoked)"
proof -
  let ?h = "revoke_enrollment_token sample_env anonymous_request unscoped 1 token_db"
  have "\<not> isl (snd ?h)" by code_simp
  then obtain r where "?h = (fst ?h, Inr r)" by (metis prod.collapse sum.collapse(2))
  from revoked_token_is_dead [OF wf_token_db this] show ?thesis by blast
qed

text \<open>
  The list endpoint shows exactly the tokens the caller may read one by one, restricted
  to the requested hub and, with \<^verbatim>\<open>active\<close>, to those whose derived status is active; no answer
  carries a token hash.
\<close>

theorem token_listing_matches_reads:
  assumes "wf_state s"
  shows "r \<in> set (list_enrollment_tokens e scope sid active s) \<longleftrightarrow>
     (\<exists>i. get_enrollment_token e scope i s = Inr r \<and> (sid = None \<or> sid = Some (et_server_id (tr_row r))) \<and>
        (active \<longrightarrow> tr_status r = Token_Active)) \<and> et_token_hash (tr_row r) = []"
proof -
  have d: "distinct (map et_id (enrollment_tokens s))" using assms by (simp add: wf_state_def unique_keys_def)
  have g: "get_enrollment_token e scope i s = Inr r \<longleftrightarrow>
      (\<exists>t \<in> set (enrollment_tokens s). et_id t = i \<and> (is_super_admin scope \<or> admin_tenant scope (et_tenant t)) \<and>
         r = read_token e t)" for i
    using get_row_eq_Some_iff [OF d] by (auto simp: get_enrollment_token_def rbind_Inr_iff or_raise_Inr_iff admin_gate)
  have l: "r \<in> set (list_enrollment_tokens e scope sid active s) \<longleftrightarrow>
      (\<exists>t \<in> set (enrollment_tokens s). (is_super_admin scope \<or> admin_tenant scope (et_tenant t)) \<and>
         (sid = None \<or> sid = Some (et_server_id t)) \<and> (active \<longrightarrow> token_status t (now e) = Token_Active) \<and> r = read_token e t)"
    unfolding list_enrollment_tokens_def set_map set_filter set_rev set_sort active_filter_status image_iff
    by (cases sid) auto
  have rd: "et_server_id (tr_row (read_token e t)) = et_server_id t" "tr_status (read_token e t) = token_status t (now e)"
    "et_token_hash (tr_row (read_token e t)) = []" for t
    by (simp_all add: read_token_def)
  show ?thesis
  proof
    assume "r \<in> set (list_enrollment_tokens e scope sid active s)"
    then obtain t where "t \<in> set (enrollment_tokens s)" "is_super_admin scope \<or> admin_tenant scope (et_tenant t)"
      "sid = None \<or> sid = Some (et_server_id t)" "active \<longrightarrow> token_status t (now e) = Token_Active" "r = read_token e t"
      unfolding l by blast
    then show "(\<exists>i. get_enrollment_token e scope i s = Inr r \<and> (sid = None \<or> sid = Some (et_server_id (tr_row r))) \<and>
        (active \<longrightarrow> tr_status r = Token_Active)) \<and> et_token_hash (tr_row r) = []"
      unfolding g using rd by auto
  next
    assume "(\<exists>i. get_enrollment_token e scope i s = Inr r \<and> (sid = None \<or> sid = Some (et_server_id (tr_row r))) \<and>
        (active \<longrightarrow> tr_status r = Token_Active)) \<and> et_token_hash (tr_row r) = []"
    then obtain t where "t \<in> set (enrollment_tokens s)" "is_super_admin scope \<or> admin_tenant scope (et_tenant t)"
      "sid = None \<or> sid = Some (et_server_id (tr_row r))" "active \<longrightarrow> tr_status r = Token_Active" "r = read_token e t"
      unfolding g by blast
    then show "r \<in> set (list_enrollment_tokens e scope sid active s)"
      unfolding l using rd by auto
  qed
qed

theorem token_listing_matches_reads_witness:
  "map (et_id \<circ> tr_row) (list_enrollment_tokens sample_env unscoped None True token_db) = [1] \<and>
   (\<exists>i. get_enrollment_token sample_env unscoped i token_db = Inr (read_token sample_env sample_token))"
proof -
  have l: "list_enrollment_tokens sample_env unscoped None True token_db = [read_token sample_env sample_token]" by code_simp
  then have "read_token sample_env sample_token \<in> set (list_enrollment_tokens sample_env unscoped None True token_db)" by simp
  with l show ?thesis
    unfolding token_listing_matches_reads [OF wf_token_db] by (auto simp: read_token_def sample_token_def)
qed

end
