(* ===== verification/Api.thy ===== *)
theory Api
  imports Clients Ssh_Keys Tenants Tokens_Api Enroll_App
begin

text \<open>
  The operator API as a whole: what one tenant's operators can see and change of another
  tenant's rows, over the interpretations of the router contracts, and that a token the API
  mints is one the enrollment listener accepts.
\<close>

section \<open>Views\<close>

text \<open>Two databases that look the same to a scope: equal visible rows in every scoped table.\<close>

definition same_view :: "tenant_scope \<Rightarrow> state \<Rightarrow> state \<Rightarrow> bool" where
  "same_view scope s s' \<longleftrightarrow>
     filter (\<lambda>v. visible scope (srv_tenant v)) (servers s) = filter (\<lambda>v. visible scope (srv_tenant v)) (servers s') \<and>
     filter (\<lambda>c. visible scope (cli_tenant c)) (clients s) = filter (\<lambda>c. visible scope (cli_tenant c)) (clients s') \<and>
     filter (\<lambda>k. visible scope (key_tenant k)) (ssh_keys s) = filter (\<lambda>k. visible scope (key_tenant k)) (ssh_keys s')"

definition other_tenant :: tenant where
  "other_tenant = \<lparr>ten_id = 2, ten_name = ''beta'', ten_slug = ''beta'', ten_subnet_pool = ''10.20.0.0/16'', ten_created_at = 0\<rparr>"

text \<open>A second tenant with a key and a hub of its own, invisible to \<^term>\<open>sample_operator\<close>.\<close>

definition two_tenant_db :: state where
  "two_tenant_db = scoped_db\<lparr>tenants := [sample_tenant, other_tenant],
     ssh_keys := [sample_key, sample_key\<lparr>key_id := 2, key_tenant := Some 2, key_name := ''beta''\<rparr>],
     servers := [sample_hub, sample_hub\<lparr>srv_id := 2, srv_tenant := Some 2, srv_ssh_key_id := 2\<rparr>]\<rparr>"

definition acme_scope :: tenant_scope where
  "acme_scope = scope_from_db scoped_db sample_operator"

lemmas api_samples = two_tenant_db_def scoped_db_def sample_join_def sample_operator_def other_tenant_def sample_rows

lemma wf_samples: "wf_state scoped_db" "wf_state two_tenant_db"
  by (simp_all add: wf_simps api_samples)

lemma acme_scope_simps [simp]:
  "is_super_admin acme_scope = False" "tenant_ids acme_scope = [1]" "role_in acme_scope t = (if t = 1 then Some Operator_Role else None)"
  by (simp_all add: acme_scope_def scope_from_db_def Let_def join_rows_def role_map_def role_in_def api_samples)

lemma acme_visible [simp]: "visible acme_scope tid \<longleftrightarrow> tid = Some 1"
  by (auto simp: visible_iff)

section \<open>Tenants do not see or touch each other\<close>

text \<open>
  C17: the answers of six reads, the list and the single-row endpoints for hubs, clients and SSH
  keys, depend only on the rows of that table the caller's scope shows: well-formed databases
  that differ in hidden rows only give equal answers. The claim is about these six; the SSH
  configuration export and the reads of discovered peers take no scope.
\<close>

theorem scoped_reads_noninterference:
  assumes "wf_state s" and "wf_state s'" and "same_view scope s s'"
  shows "list_servers scope s = list_servers scope s' \<and> get_server scope i s = get_server scope i s' \<and>
     list_clients scope s = list_clients scope s' \<and> get_client scope i s = get_client scope i s' \<and>
     list_ssh_keys scope s = list_ssh_keys scope s' \<and> get_ssh_key scope i s = get_ssh_key scope i s'"
  using assms(3) server_reads.reads_noninterference [OF _ wf_distinct_ids(1) [OF assms(1)] wf_distinct_ids(1) [OF assms(2)], of scope i]
    client_reads.reads_noninterference [OF _ wf_distinct_ids(2) [OF assms(1)] wf_distinct_ids(2) [OF assms(2)], of scope i]
    ssh_key_reads.reads_noninterference [OF _ wf_distinct_ids(3) [OF assms(1)] wf_distinct_ids(3) [OF assms(2)], of scope i]
  unfolding same_view_def by blast


theorem scoped_reads_noninterference_witness:
  "list_servers acme_scope two_tenant_db = list_servers acme_scope scoped_db \<and>
   get_server acme_scope 2 two_tenant_db = get_server acme_scope 2 scoped_db"
proof -
  have "same_view acme_scope two_tenant_db scoped_db"
    by (simp add: same_view_def api_samples)
  from scoped_reads_noninterference [OF wf_samples(2,1) this, of 2] show ?thesis by blast
qed


lemmas gated_ids = wf_distinct_ids(1) wf_distinct_ids(2) wf_distinct_ids(3)

text \<open>
  C5: in a well-formed database, a caller without the admin or operator role in a tenant changes
  none of that tenant's hubs through update and delete of a hub, none of its clients through
  update and delete of a client and none of its SSH keys through update and delete of a key,
  whatever row is named. The claim is about these six endpoints and their own table;
  registering clients, reprovisioning, rotation and discovery take no scope.
\<close>

theorem tenant_isolation:
  assumes "wf_state s" and "\<not> writable scope (Some t)"
  shows "filter (\<lambda>v. srv_tenant v = Some t) (servers (fst (update_server e rs scope i u s))) =
       filter (\<lambda>v. srv_tenant v = Some t) (servers s) \<and>
     filter (\<lambda>v. srv_tenant v = Some t) (servers (fst (delete_server scope i force s))) =
       filter (\<lambda>v. srv_tenant v = Some t) (servers s) \<and>
     filter (\<lambda>c. cli_tenant c = Some t) (clients (fst (update_client scope i cu s))) =
       filter (\<lambda>c. cli_tenant c = Some t) (clients s) \<and>
     filter (\<lambda>c. cli_tenant c = Some t) (clients (fst (delete_client e rs scope i s))) =
       filter (\<lambda>c. cli_tenant c = Some t) (clients s) \<and>
     filter (\<lambda>k. key_tenant k = Some t) (ssh_keys (fst (update_ssh_key scope i name s))) =
       filter (\<lambda>k. key_tenant k = Some t) (ssh_keys s) \<and>
     filter (\<lambda>k. key_tenant k = Some t) (ssh_keys (fst (delete_ssh_key scope i s))) =
       filter (\<lambda>k. key_tenant k = Some t) (ssh_keys s)"
proof -
  have "clients (fst (delete_client e rs scope i s)) = clients (fst (delete_client_tx e rs scope i s))"
    by (auto simp: delete_client_def andThen_def request_reconfigure_def delay_def Let_def split: prod.splits sum.splits option.splits)
  then show ?thesis
    using server_updates.isolates server_deletes.isolates client_updates.isolates client_deletes.isolates key_updates.isolates
      key_deletes.isolates gated_ids [OF assms(1)] assms(2) by metis
qed

theorem tenant_isolation_witness:
  "filter (\<lambda>v. srv_tenant v = Some 2) (servers (fst (delete_server acme_scope 2 True two_tenant_db))) =
     [sample_hub\<lparr>srv_id := 2, srv_tenant := Some 2, srv_ssh_key_id := 2\<rparr>]"
proof -
  have "\<not> writable acme_scope (Some 2)" by (simp add: writable_def)
  from tenant_isolation [OF wf_samples(2) this, where i = 2 and force = True] show ?thesis
    by (simp add: api_samples)
qed

text \<open>
  C16: for hubs, clients and SSH keys, a row outside the caller's scope and a row that does not
  exist give the same 404 from the get, update and delete endpoint of the table, and nothing is
  written. The claim is about these nine endpoints; the dispatch endpoints answer for hidden
  rows and the token endpoints tell hidden rows (403) from missing ones (404).
\<close>

theorem hidden_rows_look_missing:
  shows "(hidden_or_missing srv_id srv_tenant scope (servers s) i \<longrightarrow>
       get_server scope i s = Inl (not_found ''Server'') \<and> update_server e rs scope i u s = (s, Inl (not_found ''Server'')) \<and>
       delete_server scope i force s = (s, Inl (not_found ''Server''))) \<and>
     (hidden_or_missing cli_id cli_tenant scope (clients s) i \<longrightarrow>
       get_client scope i s = Inl (not_found ''Client'') \<and> update_client scope i cu s = (s, Inl (not_found ''Client'')) \<and>
       delete_client e rs scope i s = (s, Inl (not_found ''Client''))) \<and>
     (hidden_or_missing key_id key_tenant scope (ssh_keys s) i \<longrightarrow>
       get_ssh_key scope i s = Inl (not_found ''SSH key'') \<and> update_ssh_key scope i name s = (s, Inl (not_found ''SSH key'')) \<and>
       delete_ssh_key scope i s = (s, Inl (not_found ''SSH key'')))"
proof -
  have "delete_client e rs scope i s = (s, Inl (not_found ''Client''))" if "hidden_or_missing cli_id cli_tenant scope (clients s) i"
    using client_deletes.hidden_looks_missing [OF that] by (simp add: delete_client_def andThen_def)
  then show ?thesis
    by (simp add: server_reads.get_hidden_or_missing client_reads.get_hidden_or_missing ssh_key_reads.get_hidden_or_missing
      server_updates.hidden_looks_missing server_deletes.hidden_looks_missing client_updates.hidden_looks_missing
      key_updates.hidden_looks_missing key_deletes.hidden_looks_missing)
qed

theorem hidden_rows_look_missing_witness:
  "delete_server acme_scope 2 True two_tenant_db = (two_tenant_db, Inl (not_found ''Server'')) \<and>
   delete_server acme_scope 3 True two_tenant_db = (two_tenant_db, Inl (not_found ''Server''))"
proof -
  have h: "hidden_or_missing srv_id srv_tenant acme_scope (servers two_tenant_db) 2"
    "hidden_or_missing srv_id srv_tenant acme_scope (servers two_tenant_db) 3"
    by (simp_all add: hidden_or_missing_def api_samples get_row_def)
  show ?thesis
    using hidden_rows_look_missing [where scope = acme_scope and s = two_tenant_db and i = 2 and force = True]
      hidden_rows_look_missing [where scope = acme_scope and s = two_tenant_db and i = 3 and force = True] h
    by simp
qed

section \<open>From minting to redemption\<close>

lemma find_token_append:
  assumes "enrollment_tokens s' = enrollment_tokens s @ [row]" and "et_token_hash row = sha256 e token"
    and "et_token_hash row \<notin> et_token_hash ` set (enrollment_tokens s)"
  shows "find_token e s' token = Some row"
proof -
  have "find (\<lambda>t. et_token_hash t = sha256 e token) (enrollment_tokens s) = None"
    using assms(2,3) by (auto simp: find_None_iff image_iff)
  then show ?thesis using assms(1,2) by (simp add: find_token_def hash_token_def find_append)
qed


text \<open>
  minting a token needs the admin role in the hub's tenant and a ready hub; the token row
  belongs to that hub and tenant and starts unused, and until it expires the enrollment
  listener accepts the returned token from an allowed source and can consume a use of it.
\<close>

theorem minted_token_is_accepted:
  assumes "wf_state s" and "new_id e \<notin> et_id ` set (enrollment_tokens s)"
    and "create_enrollment_token e entropy rs scope p s = (s', Inr r)" and "0 < tkc_max_uses p"
    and "sha256 e' = sha256 e" and "now e' < now e + seconds (tkc_ttl_seconds p)"
    and "bearer (rq_authorization rq) = Some (tcr_token r)"
  shows "\<exists>server row. server \<in> set (servers s) \<and> srv_id server = tkc_server_id p \<and> srv_status server = Ready \<and>
     require_tenant_role scope (srv_tenant server) [Admin] = Inr () \<and>
     et_server_id row = srv_id server \<and> et_tenant row = srv_tenant server \<and> et_id row = tcr_id r \<and>
     et_max_uses row = tkc_max_uses p \<and> et_use_count row = 0 \<and>
     enrollment_tokens s' = enrollment_tokens s @ [row] \<and>
     (source_allowed row (rq_peer rq) = Inr True \<longrightarrow> check_token e' rq s' = Inr row \<and> snd (consume_token row s'))"
proof -
  obtain server key row where sv: "get_row srv_id (servers s) (tkc_server_id p) = Some server" "srv_status server = Ready"
    "require_tenant_role scope (srv_tenant server) [Admin] = Inr ()"
    and row: "row = new_token_row e (tcr_token r) server key (token_mint_args (actor_from_request rs) p)"
    and hash: "et_token_hash row \<notin> et_token_hash ` set (enrollment_tokens s)"
    and r: "tcr_id r = et_id row" and s': "enrollment_tokens s' = enrollment_tokens s @ [row]"
    using create_enrollment_token_Inr [OF assms(3)] by blast
  have cols: "et_revoked_at row = None" "et_use_count row = 0" "et_max_uses row = tkc_max_uses p"
    "et_expires_at row = now e + seconds (tkc_ttl_seconds p)" "et_id row = new_id e" "et_tenant row = srv_tenant server"
    "et_server_id row = srv_id server" "et_token_hash row = sha256 e (tcr_token r)"
    by (simp_all add: row new_token_row_def token_mint_args_def hash_token_def)
  have "find_token e' s' (tcr_token r) = Some row"
    using find_token_append [OF s' _ hash] cols(8) assms(5) by simp
  then have ct: "check_token e' rq s' = Inr row" if "source_allowed row (rq_peer rq) = Inr True"
    using that assms(4,6,7) cols by (simp add: check_token_def is_expired_def)
  have "distinct (map et_id (enrollment_tokens s'))"
    using assms(1,2) cols(5) by (simp add: s' wf_state_def unique_keys_def)
  from consume_token_iff [OF this, of row] have "snd (consume_token row s')"
    using assms(4) cols by (auto simp: s' consumable_def)
  then show ?thesis using sv cols r s' ct get_row_SomeD [OF sv(1)]
    by (intro exI [of _ server] exI [of _ row]) simp
qed

definition sample_token_create :: token_create where
  "sample_token_create = \<lparr>tkc_server_id = 1, tkc_ssh_key_id = 1, tkc_ssh_username = ''ops'', tkc_name_prefix = ''node'',
     tkc_ttl_seconds = 60, tkc_max_uses = 1, tkc_allowed_cidrs = None\<rparr>"

theorem minted_token_is_accepted_witness:
  "\<exists>row. check_token (sample_env\<lparr>now := 2000000\<rparr>) \<lparr>rq_peer = None, rq_authorization = Some ''bearer wgmenr_abc'', rq_body = []\<rparr>
      (fst (create_enrollment_token sample_env ''abc'' anonymous_request unscoped sample_token_create token_db)) = Inr row \<and>
    et_tenant row = Some 1"
proof -
  let ?h = "create_enrollment_token sample_env ''abc'' anonymous_request unscoped sample_token_create token_db"
  let ?e = "sample_env\<lparr>now := 2000000\<rparr>"
  let ?rq = "\<lparr>rq_peer = None, rq_authorization = Some ''bearer wgmenr_abc'', rq_body = []\<rparr>"
  have ok: "\<not> isl (snd ?h) \<and> tcr_token (projr (snd ?h)) = ''wgmenr_abc''" by code_simp
  then obtain r where h: "?h = (fst ?h, Inr r)" and tok: "tcr_token r = ''wgmenr_abc''"
    by (metis prod.collapse sum.collapse(2))
  have f: "new_id sample_env \<notin> et_id ` set (enrollment_tokens token_db)"
    by (simp add: sample_rows sample_env_def)
  have t: "0 < tkc_max_uses sample_token_create" "sha256 ?e = sha256 sample_env"
    "now ?e < now sample_env + seconds (tkc_ttl_seconds sample_token_create)"
    by (simp_all add: sample_token_create_def sample_env_def seconds_def)
  have b: "bearer (rq_authorization ?rq) = Some ''wgmenr_abc''" by code_simp
  then have b': "bearer (rq_authorization ?rq) = Some (tcr_token r)" using tok by simp
  obtain server row where sr: "server \<in> set (servers token_db)" "et_tenant row = srv_tenant server"
    "enrollment_tokens (fst ?h) = enrollment_tokens token_db @ [row]"
    "source_allowed row (rq_peer ?rq) = Inr True \<longrightarrow> check_token ?e ?rq (fst ?h) = Inr row \<and> snd (consume_token row (fst ?h))"
    using minted_token_is_accepted [OF wf_token_db f h t b'] by blast
  have "et_allowed_cidrs (last (enrollment_tokens (fst ?h))) = None" by code_simp
  then have "source_allowed row (rq_peer ?rq) = Inr True"
    using sr(3) by (simp add: source_allowed_def allowed_networks_def)
  then show ?thesis using sr by (auto simp: sample_rows)
qed

end
