(* ===== verification/Api_Outcomes.thy ===== *)
theory Api_Outcomes
  imports Api
begin

text \<open>
  What single requests of the operator API do, failures included: the deletion of hubs and
  clients, and which handlers can run into a database constraint.
\<close>

section \<open>Deleting hubs and clients\<close>

text \<open>
  for a caller who may write the hub's tenant, deleting it answers 409 while clients
  are attached and \<^verbatim>\<open>force\<close> is off; otherwise it fails on a constraint exactly when an
  enrollment token of the hub is left (which \<^verbatim>\<open>force\<close> does not remove) or, without \<^verbatim>\<open>force\<close>, a
  discovered peer; and else removes the hub with its clients and peers and nothing else.
\<close>

theorem delete_server_outcome:
  assumes "gated_row ''Server'' srv_tenant scope (get_row srv_id (servers s) i) = Inr row"
  shows "delete_server scope i force s =
     (if \<not> force \<and> (\<exists>c \<in> set (clients s). cli_server_id c = i)
      then (s, Inl (HTTPException 409 (''Server still has '' @ str_of_nat (length (filter (\<lambda>c. cli_server_id c = i) (clients s))) @
             '' managed client(s); pass ?force=true to cascade-delete them.'')))
      else if (\<exists>t \<in> set (enrollment_tokens s). et_server_id t = i) \<or> \<not> force \<and> (\<exists>p \<in> set (discovered_peers s). dp_server_id p = i)
      then (s, Inl IntegrityError)
      else (s\<lparr>servers := del_row srv_id i (servers s), clients := filter (\<lambda>c. cli_server_id c \<noteq> i) (clients s),
              discovered_peers := filter (\<lambda>p. dp_server_id p \<noteq> i) (discovered_peers s)\<rparr>, Inr ()))"
proof -
  have a: "filter (\<lambda>c. cli_server_id c = i) (clients s) = [] \<longleftrightarrow> \<not> (\<exists>c \<in> set (clients s). cli_server_id c = i)"
    by (auto simp: filter_empty_conv)
  have c: "filter (\<lambda>c. cli_server_id c \<noteq> i) (clients s) = clients s" if "\<not> (\<exists>c \<in> set (clients s). cli_server_id c = i)"
    using that by (auto simp: filter_id_conv)
  have p: "filter (\<lambda>p. dp_server_id p \<noteq> i) (discovered_peers s) = discovered_peers s" if "\<not> (\<exists>p \<in> set (discovered_peers s). dp_server_id p = i)"
    using that by (auto simp: filter_id_conv)
  have e: "s\<lparr>servers := x\<rparr> = s\<lparr>servers := x, clients := clients s, discovered_peers := discovered_peers s\<rparr>" for x by simp
  show ?thesis
    using assms a c p
    by (cases force) (auto simp: delete_server_def atomically_def delete_server_row_def check_def Let_def image_iff)
qed

theorem delete_server_outcome_witness:
  "delete_server unscoped 1 True (token_db\<lparr>clients := []\<rparr>) = (token_db\<lparr>clients := []\<rparr>, Inl IntegrityError)"
proof -
  have g: "gated_row ''Server'' srv_tenant unscoped (get_row srv_id (servers (token_db\<lparr>clients := []\<rparr>)) 1) = Inr sample_hub"
    by (simp add: gated_row_writable writable_def unscoped_def visible_iff require_tenant_role_def sample_rows get_row_def)
  show ?thesis unfolding delete_server_outcome [OF g] by (simp add: sample_rows)
qed

lemma request_reconfigure_Inr:
  assumes "request_reconfigure e sid s = (s', Inr tid)"
  shows "\<exists>v. get_row srv_id (servers s) sid = Some v \<and>
     s' = s\<lparr>servers := upd_where (\<lambda>x. srv_id x = sid) (\<lambda>x. x\<lparr>srv_requested_gen := srv_requested_gen x + 1\<rparr>) (servers s),
            task_queue := task_queue s @ [ReconfigureServer sid (srv_requested_gen v + 1)]\<rparr>"
  using assms by (auto simp: request_reconfigure_def Let_def delay_Inr split: option.splits)

text \<open>
  A client deletion that succeeds removes exactly that row, was allowed in its
  tenant, is recorded in the audit log, and asks the hub it was on for a reconfigure of the next
  generation.
\<close>

theorem delete_client_reconfigures_hub:
  assumes "delete_client e rs scope i s = (s', Inr (tid, i', sid))"
  shows "\<exists>row v v' a. row \<in> set (clients s) \<and> cli_id row = i \<and> i' = i \<and> sid = cli_server_id row \<and> writable scope (cli_tenant row) \<and>
     clients s' = del_row cli_id i (clients s) \<and> get_row cli_id (clients s') i = None \<and>
     get_row srv_id (servers s) sid = Some v \<and> get_row srv_id (servers s') sid = Some v' \<and>
     srv_requested_gen v' = srv_requested_gen v + 1 \<and> srv_applied_gen v' = srv_applied_gen v \<and>
     task_queue s' = task_queue s @ [ReconfigureServer sid (srv_requested_gen v')] \<and>
     audit_events s' = audit_events s @ [a] \<and> ae_event a = ''client.delete'' \<and> ae_resource_id a = Some i \<and>
     ae_tenant a = cli_tenant row"
proof -
  obtain s1 row where tx: "delete_client_tx e rs scope i s = (s1, Inr row)"
    and rr: "request_reconfigure e (cli_server_id row) s1 = (s', Inr tid)" and ids: "i' = i" "sid = cli_server_id row"
    using assms by (auto simp: delete_client_def andThen_Inr_iff)
  obtain a where row: "row \<in> set (clients s)" "cli_id row = i" "writable scope (cli_tenant row)"
    and s1: "s1 = s\<lparr>clients := del_row cli_id i (clients s), audit_events := audit_events s @ [a]\<rparr>"
    and a: "ae_event a = ''client.delete''" "ae_resource_id a = Some i" "ae_tenant a = cli_tenant row"
    using delete_client_tx_Inr [OF tx] by (auto simp: gated_row_writable dest: get_row_SomeD)
  obtain v where v: "get_row srv_id (servers s1) (cli_server_id row) = Some v"
    and s': "s' = s1\<lparr>servers := upd_where (\<lambda>x. srv_id x = cli_server_id row)
        (\<lambda>x. x\<lparr>srv_requested_gen := srv_requested_gen x + 1\<rparr>) (servers s1),
      task_queue := task_queue s1 @ [ReconfigureServer (cli_server_id row) (srv_requested_gen v + 1)]\<rparr>"
    using request_reconfigure_Inr [OF rr] by blast
  let ?v = "v\<lparr>srv_requested_gen := srv_requested_gen v + 1\<rparr>"
  have "get_row srv_id (servers s') sid = Some ?v"
    using v get_row_SomeD [OF v] by (simp add: s' ids get_upd_where)
  then show ?thesis
    using row a v ids by (intro exI [of _ row] exI [of _ v] exI [of _ ?v] exI [of _ a]) (simp add: s' s1 get_del_row)
qed

theorem delete_client_reconfigures_hub_witness:
  "\<exists>v'. get_row srv_id (servers (fst (delete_client sample_env anonymous_request unscoped 1 sample_db))) 1 = Some v' \<and>
     srv_requested_gen v' = 1"
proof -
  let ?h = "delete_client sample_env anonymous_request unscoped 1 sample_db"
  have "snd ?h = Inr (''task'', 1, 1)" by code_simp
  then have "?h = (fst ?h, Inr (''task'', 1, 1))" by (simp add: prod_eq_iff)
  from delete_client_reconfigures_hub [OF this] show ?thesis by (auto simp: sample_rows get_row_def)
qed

section \<open>Constraints behind the checks\<close>



























end
