(* ===== verification/Pki.thy ===== *)
theory Pki
  imports Ip_Text Models
begin

text \<open>
  \<^verbatim>\<open>pki.py\<close>: the two backends that issue the X.509 certificates of the service, an
  in-process hierarchy for development and Vault's PKI engine, and the factory that selects
  one. The \<^verbatim>\<open>cryptography\<close> package (building, signing and parsing certificates) and the Vault
  server are parameters; instants are microseconds.
\<close>

section \<open>Certificates\<close>

record cert =
  cert_pem :: string
  cert_private_pem :: string
  cert_chain_pem :: string
  cert_serial :: int
  cert_common_name :: string
  cert_sans :: "string list"
  cert_not_before :: int
  cert_not_after :: int

datatype eku = Server_Auth | Client_Auth

datatype general_name = IPAddress ip_addr | DNSName string

definition san_extension :: "string list \<Rightarrow> general_name list" where
  "san_extension sans = map (\<lambda>raw. case ip_address raw of Inr a \<Rightarrow> IPAddress a | Inl _ \<Rightarrow> DNSName raw) sans"

text \<open>\<^verbatim>\<open>_join_pems\<close>: blank entries are skipped, every block ends with one line feed.\<close>

fun join_pems :: "string list \<Rightarrow> string" where
  "join_pems [] = []"
| "join_pems (pem # pems) =
     (if strip pem = [] then join_pems pems
      else rstrip_if (\<lambda>c. c = CHR 0x0A) pem @ [CHR 0x0A] @ join_pems pems)"

section \<open>The local backend\<close>

text \<open>
  What a builder is given before it is signed, and the \<^verbatim>\<open>cryptography\<close> package as far as the
  backend uses it: the key it generates next, the next random serial number, the subject of a
  certificate, and signing with a private key.
\<close>

record tbs_cert =
  tbs_subject :: string
  tbs_issuer :: string
  tbs_key :: string
  tbs_serial :: int
  tbs_not_before :: int
  tbs_not_after :: int
  tbs_ca :: bool
  tbs_path_length :: "nat option"
  tbs_key_usage :: "string list"
  tbs_sans :: "general_name list"
  tbs_eku :: "eku list"

record x509 =
  x_now :: int
  x_keys :: "nat \<Rightarrow> string"
  x_serials :: "nat \<Rightarrow> int"
  x_subject_of :: "string \<Rightarrow> string"
  x_sign :: "tbs_cert \<Rightarrow> string \<Rightarrow> string result"
  x_sign_crl :: "string \<Rightarrow> int \<Rightarrow> int \<Rightarrow> int list \<Rightarrow> string \<Rightarrow> string result"
  x_load_cert :: "string \<Rightarrow> unit result"
  x_load_key :: "string \<Rightarrow> bool result"
  x_issued_by :: "string \<Rightarrow> string \<Rightarrow> unit result"

record local_pki =
  lp_root_cert :: string
  lp_root_key :: string
  lp_int_cert :: string
  lp_int_key :: string
  lp_revoked :: "int set"

definition days :: "int \<Rightarrow> int" where "days n = seconds (n * 86400)"

definition DEV_ROOT_CN :: string where "DEV_ROOT_CN = ''wg-manager dev root''"

definition DEV_INT_CN :: string where "DEV_INT_CN = ''wg-manager dev intermediate''"

definition new_local_pki :: "string \<Rightarrow> string \<Rightarrow> string \<Rightarrow> string \<Rightarrow> local_pki" where
  "new_local_pki root rkey icert ikey =
     \<lparr>lp_root_cert = root, lp_root_key = rkey, lp_int_cert = icert, lp_int_key = ikey, lp_revoked = {}\<rparr>"

definition ca_tbs :: "string \<Rightarrow> string \<Rightarrow> string \<Rightarrow> int \<Rightarrow> int \<Rightarrow> int \<Rightarrow> nat \<Rightarrow> tbs_cert" where
  "ca_tbs subject issuer key serial nb na path =
     \<lparr>tbs_subject = subject, tbs_issuer = issuer, tbs_key = key, tbs_serial = serial, tbs_not_before = nb,
      tbs_not_after = na, tbs_ca = True, tbs_path_length = Some path, tbs_key_usage = [''key_cert_sign'', ''crl_sign''],
      tbs_sans = [], tbs_eku = []\<rparr>"

definition generate :: "x509 \<Rightarrow> local_pki result" where
  "generate x =
     (let root_key = x_keys x 0; int_key = x_keys x 1; nb = x_now x - seconds 60 in
      rbind (x_sign x (ca_tbs DEV_ROOT_CN DEV_ROOT_CN root_key (x_serials x 0) nb (x_now x + days 3650) 1) root_key)
        (\<lambda>root_cert.
      rbind (x_sign x (ca_tbs DEV_INT_CN (x_subject_of x root_cert) int_key (x_serials x 1) nb (x_now x + days 365) 0) root_key)
        (\<lambda>int_cert. Inr (new_local_pki root_cert root_key int_cert int_key))))"

text \<open>\<^verbatim>\<open>load_pem_private_key\<close> tells whether the key is an EC key; \<^verbatim>\<open>verify_directly_issued_by\<close> may raise anything.\<close>

definition value_or_type_error :: "exn \<Rightarrow> bool" where
  "value_or_type_error e = (case e of ValueError _ \<Rightarrow> True | TypeError _ \<Rightarrow> True | _ \<Rightarrow> False)"

definition pinned_load :: "'a result \<Rightarrow> 'a result" where
  "pinned_load r = (case r of
     Inl e \<Rightarrow> Inl (if value_or_type_error e then PKIError ''could not load pinned PEMs'' else e) | Inr v \<Rightarrow> Inr v)"

definition from_pem :: "x509 \<Rightarrow> string \<Rightarrow> string \<Rightarrow> string \<Rightarrow> string \<Rightarrow> local_pki result" where
  "from_pem x root rkey icert ikey =
     rbind (pinned_load (x_load_cert x root)) (\<lambda>_.
     rbind (pinned_load (x_load_key x rkey)) (\<lambda>root_ec.
     rbind (pinned_load (x_load_cert x icert)) (\<lambda>_.
     rbind (pinned_load (x_load_key x ikey)) (\<lambda>int_ec.
     rbind (check root_ec (PKIError ''root key must be EC P-256'')) (\<lambda>_.
     rbind (check int_ec (PKIError ''intermediate key must be EC P-256'')) (\<lambda>_.
       case x_issued_by x icert root of
         Inl _ \<Rightarrow> Inl (PKIError ''pinned intermediate is not signed by pinned root'')
       | Inr _ \<Rightarrow> Inr (new_local_pki root rkey icert ikey)))))))"

definition local_ca_bundle_pem :: "local_pki \<Rightarrow> string" where
  "local_ca_bundle_pem p = lp_int_cert p @ lp_root_cert p"

definition local_issue :: "x509 \<Rightarrow> eku \<Rightarrow> string \<Rightarrow> string list \<Rightarrow> int \<Rightarrow> local_pki \<Rightarrow> cert result" where
  "local_issue x eku common_name sans ttl_seconds p =
     (let leaf_key = x_keys x 0; serial = x_serials x 0; nb = x_now x - seconds 60; na = x_now x + seconds ttl_seconds in
      case x_sign x \<lparr>tbs_subject = common_name, tbs_issuer = x_subject_of x (lp_int_cert p), tbs_key = leaf_key,
             tbs_serial = serial, tbs_not_before = nb, tbs_not_after = na, tbs_ca = False, tbs_path_length = None,
             tbs_key_usage = [], tbs_sans = san_extension sans, tbs_eku = [eku]\<rparr> (lp_int_key p) of
        Inl e \<Rightarrow> Inl (if value_or_type_error e then PKIError ''failed to sign leaf'' else e)
      | Inr leaf \<Rightarrow> Inr \<lparr>cert_pem = leaf, cert_private_pem = leaf_key,
          cert_chain_pem = join_pems [lp_int_cert p, lp_root_cert p], cert_serial = serial,
          cert_common_name = common_name, cert_sans = sans, cert_not_before = nb, cert_not_after = na\<rparr>)"

definition local_revoke_cert :: "int \<Rightarrow> local_pki \<Rightarrow> local_pki" where
  "local_revoke_cert serial p = p\<lparr>lp_revoked := insert serial (lp_revoked p)\<rparr>"

definition local_crl_pem :: "x509 \<Rightarrow> local_pki \<Rightarrow> string result" where
  "local_crl_pem x p =
     (case x_sign_crl x (x_subject_of x (lp_int_cert p)) (x_now x) (x_now x + days 7)
             (sorted_list_of_set (lp_revoked p)) (lp_int_key p) of
        Inl e \<Rightarrow> Inl (if value_or_type_error e then PKIError ''failed to sign CRL'' else e)
      | Inr crl \<Rightarrow> Inr crl)"

section \<open>Serial numbers\<close>

text \<open>\<^verbatim>\<open>int(s, 16)\<close> of a string of hex digits, and \<^verbatim>\<open>f"{n:x}"\<close>.\<close>

definition int_base16 :: "string \<Rightarrow> int result" where
  "int_base16 s =
     (if s \<noteq> [] \<and> list_all (\<lambda>c. hex_val c \<noteq> None) s then Inr (int (foldl (\<lambda>n c. 16 * n + the (hex_val c)) 0 s))
      else Inl (ValueError (''invalid literal for int() with base 16: '' @ py_repr s)))"

definition format_x :: "int \<Rightarrow> string" where
  "format_x n = (if n < 0 then CHR ''-'' # hex_str (nat (- n)) else hex_str (nat n))"

definition hex_colon_to_int :: "string \<Rightarrow> int result" where
  "hex_colon_to_int serial_hex = int_base16 (filter (\<lambda>c. c \<noteq> CHR '':'') serial_hex)"

fun pairs :: "string \<Rightarrow> string list" where
  "pairs (a # b # cs) = [a, b] # pairs cs"
| "pairs [a] = [[a]]"
| "pairs [] = []"

definition int_to_hex_colon :: "int \<Rightarrow> string" where
  "int_to_hex_colon serial =
     (let raw = format_x serial; even_raw = (if length raw mod 2 \<noteq> 0 then CHR ''0'' # raw else raw)
      in join_with '':'' (pairs even_raw))"

section \<open>The Vault backend\<close>

text \<open>
  Vault's answers to \<^verbatim>\<open>generate_certificate\<close> and the parameters it is called with. The chain
  is missing, one string, or a list, depending on Vault's version.
\<close>

datatype ca_chain = No_Chain | Chain_Text string | Chain_List "string list"

record vault_issued =
  vi_certificate :: string
  vi_private_key :: string
  vi_serial_number :: string
  vi_ca_chain :: ca_chain
  vi_issuing_ca :: "string option"

record vault_extra =
  ve_ttl :: string
  ve_alt_names :: "string option"
  ve_ip_sans :: "string option"

record vault_role =
  vr_max_ttl :: string
  vr_ttl :: string
  vr_key_type :: string
  vr_key_bits :: int
  vr_allow_ip_sans :: bool
  vr_allow_subdomains :: bool
  vr_allow_bare_domains :: bool
  vr_server_flag :: bool
  vr_client_flag :: bool
  vr_enforce_hostnames :: bool
  vr_allowed_domains :: "string list option"
  vr_allow_any_name :: bool

text \<open>
  The Vault server behind \<^verbatim>\<open>hvac\<close>, with a state of its own: every call may change it and may
  raise. A read answers the text of the response, if it has one.
\<close>

record 'v vault =
  v_enable_pki :: "string \<Rightarrow> string \<Rightarrow> ('v, unit) handler"
  v_tune_mount :: "string \<Rightarrow> string \<Rightarrow> ('v, unit) handler"
  v_generate_root :: "string \<Rightarrow> ('v, unit) handler"
  v_generate_intermediate :: "string \<Rightarrow> ('v, string) handler"
  v_sign_intermediate :: "string \<Rightarrow> string \<Rightarrow> ('v, string) handler"
  v_set_signed :: "string \<Rightarrow> string \<Rightarrow> ('v, unit) handler"
  v_role :: "string \<Rightarrow> string \<Rightarrow> vault_role \<Rightarrow> ('v, unit) handler"
  v_issue :: "string \<Rightarrow> string \<Rightarrow> vault_extra \<Rightarrow> string \<Rightarrow> ('v, vault_issued) handler"
  v_revoke :: "string \<Rightarrow> string \<Rightarrow> ('v, unit) handler"
  v_get :: "string \<Rightarrow> ('v, string option) handler"
  v_validity :: "string \<Rightarrow> (int \<times> int) result"

record vault_pki =
  vp_root_mount :: string
  vp_int_mount :: string
  vp_server_role :: string
  vp_client_role :: string
  vp_ca_bundle_pem :: string

definition is_vault_error :: "exn \<Rightarrow> bool" where
  "is_vault_error e = (case e of VaultInvalidRequest _ \<Rightarrow> True | VaultInvalidPath _ \<Rightarrow> True | VaultOther _ \<Rightarrow> True | _ \<Rightarrow> False)"

fun vault_text :: "exn \<Rightarrow> string" where
  "vault_text (VaultInvalidRequest m) = m"
| "vault_text (VaultInvalidPath m) = m"
| "vault_text (VaultOther m) = m"
| "vault_text _ = []"

definition as_pki_error :: "string \<Rightarrow> exn \<Rightarrow> ('v, 'a) handler" where
  "as_pki_error m e = raising (if is_vault_error e then PKIError (m @ '': '' @ vault_text e) else e)"

definition split_sans :: "string list \<Rightarrow> string list \<times> string list" where
  "split_sans sans =
     (filter (\<lambda>raw. isl (ip_address raw)) sans, filter (\<lambda>raw. \<not> isl (ip_address raw)) sans)"

definition issue_params :: "string list \<Rightarrow> int \<Rightarrow> vault_extra" where
  "issue_params sans ttl_seconds =
     (let (dns_sans, ip_sans) = split_sans sans in
      \<lparr>ve_ttl = str_of_int ttl_seconds @ ''s'',
       ve_alt_names = (if dns_sans = [] then None else Some (join_with '','' dns_sans)),
       ve_ip_sans = (if ip_sans = [] then None else Some (join_with '','' ip_sans))\<rparr>)"

definition chain_of :: "vault_issued \<Rightarrow> string" where
  "chain_of data =
     (let chain = (case vi_ca_chain data of No_Chain \<Rightarrow> [] | Chain_Text t \<Rightarrow> join_pems [t] | Chain_List ts \<Rightarrow> join_pems ts)
      in if chain = [] then join_pems [case vi_issuing_ca data of None \<Rightarrow> [] | Some t \<Rightarrow> t] else chain)"

definition vault_issue ::
  "'v vault \<Rightarrow> vault_pki \<Rightarrow> string \<Rightarrow> string \<Rightarrow> string list \<Rightarrow> int \<Rightarrow> ('v, cert) handler" where
  "vault_issue v p role common_name sans ttl_seconds =
     andThen (handling (v_issue v role common_name (issue_params sans ttl_seconds) (vp_int_mount p))
         (as_pki_error (''vault refused to issue ('' @ role @ '', cn='' @ py_repr common_name @ '')'')))
       (\<lambda>data s. (s,
          rbind (hex_colon_to_int (vi_serial_number data)) (\<lambda>serial.
          rbind (v_validity v (vi_certificate data)) (\<lambda>(nb, na).
            Inr \<lparr>cert_pem = vi_certificate data, cert_private_pem = vi_private_key data, cert_chain_pem = chain_of data,
                 cert_serial = serial, cert_common_name = common_name, cert_sans = sans,
                 cert_not_before = nb, cert_not_after = na\<rparr>))))"

definition vault_revoke_cert :: "'v vault \<Rightarrow> vault_pki \<Rightarrow> int \<Rightarrow> ('v, unit) handler" where
  "vault_revoke_cert v p serial =
     handling (v_revoke v (int_to_hex_colon serial) (vp_int_mount p))
       (as_pki_error (''vault refused to revoke serial '' @ str_of_int serial))"

definition vault_crl_pem :: "'v vault \<Rightarrow> vault_pki \<Rightarrow> ('v, string) handler" where
  "vault_crl_pem v p =
     andThen (handling (v_get v (''/v1/'' @ vp_int_mount p @ ''/crl/pem'')) (as_pki_error ''could not read CRL''))
       (\<lambda>resp. let text = (case resp of None \<Rightarrow> [] | Some t \<Rightarrow> t) in
          if contains ''BEGIN X509 CRL'' text then returning text
          else raising (PKIError (''unexpected CRL body from vault (first 40 chars: '' @ py_repr (take 40 text) @ '')'')))"


section \<open>Setting up Vault\<close>

text \<open>The \<^verbatim>\<open>except\<close> clauses: an exception that counts as the given value, any other raised again.\<close>

definition tolerate :: "(exn \<Rightarrow> bool) \<Rightarrow> 'a \<Rightarrow> exn \<Rightarrow> ('s, 'a) handler" where
  "tolerate ok x e = (if ok e then returning x else raising e)"

fun invalid_path_or_request :: "exn \<Rightarrow> bool" where
  "invalid_path_or_request (VaultInvalidPath _) = True"
| "invalid_path_or_request (VaultInvalidRequest _) = True"
| "invalid_path_or_request _ = False"

fun no_default_issuer :: "exn \<Rightarrow> bool" where
  "no_default_issuer (VaultOther m) = contains ''no default issuer'' (lower m)"
| "no_default_issuer e = invalid_path_or_request e"

fun path_in_use :: "exn \<Rightarrow> bool" where
  "path_in_use (VaultInvalidRequest m) = contains ''path is already in use'' m"
| "path_in_use _ = False"

fun root_exists :: "exn \<Rightarrow> bool" where
  "root_exists (VaultInvalidRequest m) \<longleftrightarrow> contains ''already exists'' (lower m) \<or> contains ''cannot be generated'' (lower m)"
| "root_exists _ \<longleftrightarrow> False"

definition read_root_cert_pem :: "'v vault \<Rightarrow> string \<Rightarrow> ('v, string) handler" where
  "read_root_cert_pem v mount =
     andThen (handling (v_get v (''/v1/'' @ mount @ ''/ca/pem'')) (tolerate invalid_path_or_request None))
       (\<lambda>resp. returning (case resp of None \<Rightarrow> [] | Some t \<Rightarrow> if contains ''BEGIN CERTIFICATE'' t then t else []))"

definition read_int_ca_chain :: "'v vault \<Rightarrow> string \<Rightarrow> ('v, string) handler" where
  "read_int_ca_chain v mount =
     andThen (handling (v_get v (''/v1/'' @ mount @ ''/ca_chain'')) (tolerate no_default_issuer None))
       (\<lambda>resp. returning (case resp of None \<Rightarrow> [] | Some t \<Rightarrow> if contains ''BEGIN CERTIFICATE'' t then t else []))"

definition role_params :: "string \<Rightarrow> bool \<Rightarrow> bool \<Rightarrow> string \<Rightarrow> vault_role" where
  "role_params allowed_domains server_flag client_flag max_ttl =
     \<lparr>vr_max_ttl = max_ttl, vr_ttl = max_ttl, vr_key_type = ''ec'', vr_key_bits = 256, vr_allow_ip_sans = True,
      vr_allow_subdomains = True, vr_allow_bare_domains = True, vr_server_flag = server_flag, vr_client_flag = client_flag,
      vr_enforce_hostnames = False,
      vr_allowed_domains = (if allowed_domains = [] then None
        else Some (filter (\<lambda>d. d \<noteq> []) (map strip (split_on CHR '','' allowed_domains)))),
      vr_allow_any_name = (if allowed_domains = [] then True else client_flag)\<rparr>"

definition upsert_role :: "'v vault \<Rightarrow> string \<Rightarrow> string \<Rightarrow> string \<Rightarrow> bool \<Rightarrow> bool \<Rightarrow> string \<Rightarrow> ('v, unit) handler" where
  "upsert_role v mount role allowed_domains server_flag client_flag max_ttl =
     v_role v mount role (role_params allowed_domains server_flag client_flag max_ttl)"

definition enable_mount :: "'v vault \<Rightarrow> string \<Rightarrow> string \<Rightarrow> ('v, unit) handler" where
  "enable_mount v mount max_lease =
     andThen (handling (v_enable_pki v mount max_lease) (tolerate path_in_use ())) (\<lambda>_. v_tune_mount v mount max_lease)"

definition ensure_root :: "'v vault \<Rightarrow> string \<Rightarrow> ('v, unit) handler" where
  "ensure_root v root_mount = handling (v_generate_root v root_mount) (tolerate root_exists ())"

definition ensure_intermediate :: "'v vault \<Rightarrow> string \<Rightarrow> string \<Rightarrow> ('v, unit) handler" where
  "ensure_intermediate v root_mount int_mount =
     andThen (read_int_ca_chain v int_mount) (\<lambda>existing_chain.
       if existing_chain \<noteq> [] then returning ()
       else andThen (v_generate_intermediate v int_mount) (\<lambda>csr_pem.
            andThen (v_sign_intermediate v root_mount csr_pem) (\<lambda>int_cert_pem.
            andThen (read_root_cert_pem v root_mount) (\<lambda>root_pem.
              v_set_signed v int_mount (rstrip_if is_space int_cert_pem @ [CHR 0x0A] @ root_pem)))))"

definition bootstrap ::
  "'v vault \<Rightarrow> string \<Rightarrow> string \<Rightarrow> string \<Rightarrow> string \<Rightarrow> string \<Rightarrow> string \<Rightarrow> ('v, vault_pki) handler" where
  "bootstrap v root_mount int_mount server_role client_role allowed_domains max_ttl =
     andThen (handling
         (andThen (enable_mount v root_mount ''87600h'') (\<lambda>_.
          andThen (enable_mount v int_mount ''43800h'') (\<lambda>_.
          andThen (ensure_root v root_mount) (\<lambda>_.
          andThen (ensure_intermediate v root_mount int_mount) (\<lambda>_.
          andThen (upsert_role v int_mount server_role allowed_domains True False max_ttl) (\<lambda>_.
            upsert_role v int_mount client_role allowed_domains False True max_ttl))))))
         (as_pki_error (''PKI bootstrap failed (root='' @ py_repr root_mount @ '', int='' @ py_repr int_mount @ '')'')))
       (\<lambda>_. andThen (read_int_ca_chain v int_mount) (\<lambda>bundle.
          if bundle = [] then raising (PKIError (''intermediate at '' @ py_repr int_mount @ '' reports no ca_chain''))
          else returning \<lparr>vp_root_mount = root_mount, vp_int_mount = int_mount, vp_server_role = server_role,
                          vp_client_role = client_role, vp_ca_bundle_pem = bundle\<rparr>))"

section \<open>The factory\<close>

text \<open>
  \<^verbatim>\<open>_LOCAL_PKI_CACHE\<close> holds the local backends by the four pinned PEMs; a backend is a
  reference to its entry, so what one caller revokes the next one sees.
\<close>

type_synonym pinned = "string option \<times> string option \<times> string option \<times> string option"

datatype pki_backend = Local_Backend pinned | Vault_Backend vault_pki

record pki_settings =
  ps_backend :: string
  ps_pinned :: pinned
  ps_vault_token :: "string option"
  ps_root_mount :: string
  ps_int_mount :: string
  ps_server_role :: string
  ps_client_role :: string

record 'v pki_world =
  pw_cache :: "pinned \<Rightarrow> local_pki option"
  pw_vault :: 'v

definition is_set :: "string option \<Rightarrow> bool" where
  "is_set x \<longleftrightarrow> (case x of None \<Rightarrow> False | Some t \<Rightarrow> t \<noteq> [])"

fun pinned_set :: "pinned \<Rightarrow> bool list" where
  "pinned_set (a, b, c, d) = [is_set a, is_set b, is_set c, is_set d]"

fun local_from_pinned :: "x509 \<Rightarrow> pinned \<Rightarrow> local_pki result" where
  "local_from_pinned x (Some a, Some b, Some c, Some d) =
     (if a \<noteq> [] \<and> b \<noteq> [] \<and> c \<noteq> [] \<and> d \<noteq> [] then from_pem x a b c d else generate x)"
| "local_from_pinned x _ = generate x"

definition make_pki_backend :: "x509 \<Rightarrow> 'v vault \<Rightarrow> pki_settings \<Rightarrow> ('v pki_world, pki_backend) handler" where
  "make_pki_backend x v settings w =
     (if lower (ps_backend settings) = ''local''
      then (case pw_cache w (ps_pinned settings) of
          Some _ \<Rightarrow> (w, Inr (Local_Backend (ps_pinned settings)))
        | None \<Rightarrow>
            if list_ex id (pinned_set (ps_pinned settings)) \<and> \<not> list_all id (pinned_set (ps_pinned settings))
            then (w, Inl (PKIError (''PKI_LOCAL_DEV_* must be set as a complete set '' @
                        ''(root_pem, root_key_pem, int_pem, int_key_pem) or none'')))
            else (case local_from_pinned x (ps_pinned settings) of
                Inl e \<Rightarrow> (w, Inl e)
              | Inr ca \<Rightarrow> (w\<lparr>pw_cache := (pw_cache w)(ps_pinned settings \<mapsto> ca)\<rparr>, Inr (Local_Backend (ps_pinned settings)))))
      else if lower (ps_backend settings) = ''vault''
      then (if \<not> is_set (ps_vault_token settings)
            then (w, Inl (PKIError ''VAULT_TOKEN (or CRYPTO_VAULT_TOKEN) is required for the vault PKI backend''))
            else (case read_int_ca_chain v (ps_int_mount settings) (pw_vault w) of
                (vs, Inl e) \<Rightarrow> (w\<lparr>pw_vault := vs\<rparr>, Inl e)
              | (vs, Inr bundle) \<Rightarrow>
                  (w\<lparr>pw_vault := vs\<rparr>,
                   if bundle = [] then Inl (PKIError (''intermediate at '' @ py_repr (ps_int_mount settings) @ '' is not bootstrapped''))
                   else Inr (Vault_Backend \<lparr>vp_root_mount = ps_root_mount settings, vp_int_mount = ps_int_mount settings,
                     vp_server_role = ps_server_role settings, vp_client_role = ps_client_role settings,
                     vp_ca_bundle_pem = bundle\<rparr>))))
      else (w, Inl (ValueError (''unknown PKI backend '' @ py_repr (ps_backend settings) @ ''; expected '' @ py_repr ''local'' @ '' or '' @ py_repr ''vault''))))"

section \<open>Serials survive the round trip to Vault\<close>

definition hex_value :: "string \<Rightarrow> nat" where
  "hex_value s = foldl (\<lambda>n c. 16 * n + the (hex_val c)) 0 s"

definition lower_hex :: "char \<Rightarrow> bool" where
  "lower_hex c \<longleftrightarrow> is_digit c \<or> (97 \<le> (of_char c :: nat) \<and> (of_char c :: nat) \<le> 102)"

lemma lower_hex_val: "lower_hex c \<Longrightarrow> \<exists>d < 16. hex_val c = Some d \<and> hex_char d = c"
proof -
  assume "lower_hex c"
  then consider "48 \<le> (of_char c :: nat)" "(of_char c :: nat) \<le> 57" | "97 \<le> (of_char c :: nat)" "(of_char c :: nat) \<le> 102"
    by (auto simp: lower_hex_def is_digit_def)
  then show ?thesis
  proof cases
    case 1
    then have "of_char c - 48 < (10 :: nat)" by linarith
    with 1 have "hex_val c = Some (of_char c - 48)" "hex_char (of_char c - 48) = c"
      by (simp_all add: hex_val_def hex_char_def Let_def)
    with 1 show ?thesis by auto
  next
    case 2
    then have "\<not> of_char c - 87 < (10 :: nat)" by linarith
    with 2 have "hex_val c = Some (of_char c - 87)" "hex_char (of_char c - 87) = c"
      by (simp_all add: hex_val_def hex_char_def Let_def)
    with 2 show ?thesis by auto
  qed
qed

lemma hex_value_snoc: "hex_value (s @ [c]) = 16 * hex_value s + the (hex_val c)"
  by (simp add: hex_value_def)

lemma hex_zero: "hex_str 0 = ''0''"
  by code_simp

lemma hex_str_of_value:
  "list_all lower_hex s \<Longrightarrow> s \<noteq> [] \<Longrightarrow> hd s \<noteq> CHR ''0'' \<or> length s = 1 \<Longrightarrow> hex_str (hex_value s) = s"
proof (induction s rule: rev_induct)
  case (snoc c s)
  obtain d where d: "d < 16" "hex_val c = Some d" "hex_char d = c" using lower_hex_val [of c] snoc.prems(1) by auto
  show ?case
  proof (cases "s = []")
    case True
    with d show ?thesis by (simp add: hex_value_def hex_str_small)
  next
    case False
    with snoc have IH: "hex_str (hex_value s) = s" and h: "hd s \<noteq> CHR ''0''" by auto
    have "hex_value s \<noteq> 0" using IH h hex_zero by (metis list.sel(1))
    then have "\<not> hex_value (s @ [c]) < 16" by (simp add: hex_value_snoc d)
    then show ?thesis using d IH by (simp add: hex_str_big hex_value_snoc)
  qed
qed simp

lemma filter_join_pairs: "CHR '':'' \<notin> set s \<Longrightarrow> filter (\<lambda>c. c \<noteq> CHR '':'') (join_with '':'' (pairs s)) = s"
proof (induction s rule: pairs.induct)
  case (1 a b cs)
  then show ?case by (cases "pairs cs") (auto simp: neq_Nil_conv)
qed auto

text \<open>
  A serial as Vault writes it: two lower-case hex digits per byte, without a leading zero byte.
\<close>

definition canonical_serial :: "string \<Rightarrow> bool" where
  "canonical_serial s \<longleftrightarrow>
     (let raw = filter (\<lambda>c. c \<noteq> CHR '':'') s in
      s = join_with '':'' (pairs raw) \<and> raw \<noteq> [] \<and> even (length raw) \<and> list_all lower_hex raw \<and>
      (take 2 raw = ''00'' \<longrightarrow> length raw = 2))"

lemma canonical_raw:
  assumes "list_all lower_hex raw" "raw \<noteq> []" "even (length raw)" "take 2 raw = ''00'' \<longrightarrow> length raw = 2"
  shows "(let h = hex_str (hex_value raw) in if odd (length h) then CHR ''0'' # h else h) = raw"
proof -
  from assms(2,3) obtain a b cs where raw: "raw = a # b # cs"
    by (metis length_0_conv length_Cons list.exhaust odd_one One_nat_def)
  show ?thesis
  proof (cases "a = CHR ''0''")
    case False
    then have "hex_str (hex_value raw) = raw" using assms raw by (intro hex_str_of_value) auto
    then show ?thesis using assms(3) by simp
  next
    case True
    have "hex_value raw = hex_value (b # cs)" using True raw by (simp add: hex_value_def hex_val_def)
    moreover have "hex_str (hex_value (b # cs)) = b # cs"
      using assms raw True by (intro hex_str_of_value) (auto split: if_splits)
    ultimately show ?thesis using True raw assms(3) by simp
  qed
qed

lemma serial_from_vault:
  assumes "canonical_serial s"
  shows "\<exists>n. hex_colon_to_int s = Inr n \<and> 0 \<le> n \<and> int_to_hex_colon n = s"
proof -
  define raw where "raw = filter (\<lambda>c. c \<noteq> CHR '':'') s"
  have c: "s = join_with '':'' (pairs raw)" "raw \<noteq> []" "even (length raw)" "list_all lower_hex raw"
    "take 2 raw = ''00'' \<longrightarrow> length raw = 2"
    using assms by (simp_all add: canonical_serial_def raw_def Let_def)
  have "list_all (\<lambda>c. hex_val c \<noteq> None) raw" using c(4) lower_hex_val by (fastforce simp: list_all_iff)
  then have "hex_colon_to_int s = Inr (int (hex_value raw))"
    using c(2) by (simp add: hex_colon_to_int_def raw_def [symmetric] int_base16_def hex_value_def)
  moreover have "int_to_hex_colon (int (hex_value raw)) = s"
    using canonical_raw [OF c(4,2,3,5)] c(1) by (simp add: int_to_hex_colon_def format_x_def Let_def odd_iff_mod_2_eq_one)
  ultimately show ?thesis by auto
qed

lemma serial_to_vault:
  assumes "0 \<le> n"
  shows "hex_colon_to_int (int_to_hex_colon n) = Inr n"
proof -
  let ?h = "hex_str (nat n)"
  let ?raw = "if length ?h mod 2 \<noteq> 0 then CHR ''0'' # ?h else ?h"
  have colon: "CHR '':'' \<notin> set ?raw" using hex_str_no [of "CHR '':''"] by simp
  have hex: "list_all (\<lambda>c. hex_val c \<noteq> None) ?raw" using hex_str_hex [of "nat n"] by (simp add: hex_val_def)
  have "foldl (\<lambda>n c. 16 * n + the (hex_val c)) 0 ?raw = nat n"
    using hex_str_value [of "nat n"] by (simp add: hex_val_def)
  then show ?thesis
    using assms hex filter_join_pairs [OF colon]
    by (simp add: hex_colon_to_int_def int_to_hex_colon_def format_x_def Let_def int_base16_def)
qed

section \<open>The backend protocol\<close>

text \<open>
  \<^verbatim>\<open>PKIBackend\<close>: what the router and the command line use of a backend. The state \<^verbatim>\<open>'p\<close> is the
  backend's own and outlives any database transaction.
\<close>

record 'p pki_ops =
  issue_server_cert :: "string \<Rightarrow> string list \<Rightarrow> int \<Rightarrow> ('p, cert) handler"
  issue_client_cert :: "string \<Rightarrow> string list \<Rightarrow> int \<Rightarrow> ('p, cert) handler"
  revoke_serial :: "int \<Rightarrow> ('p, unit) handler"

definition local_ops :: "x509 \<Rightarrow> local_pki pki_ops" where
  "local_ops x =
     \<lparr>issue_server_cert = \<lambda>cn sans ttl p. (p, local_issue x Server_Auth cn sans ttl p),
      issue_client_cert = \<lambda>cn sans ttl p. (p, local_issue x Client_Auth cn sans ttl p),
      revoke_serial = \<lambda>serial p. (local_revoke_cert serial p, Inr ())\<rparr>"

definition vault_ops :: "'v vault \<Rightarrow> vault_pki \<Rightarrow> 'v pki_ops" where
  "vault_ops v p =
     \<lparr>issue_server_cert = vault_issue v p (vp_server_role p),
      issue_client_cert = vault_issue v p (vp_client_role p),
      revoke_serial = vault_revoke_cert v p\<rparr>"

text \<open>A leaf carries the name and the alternative names it was asked for.\<close>

locale pki_issuer =
  fixes ops :: "'p pki_ops"
  assumes server_identity:
      "issue_server_cert ops cn sans ttl p = (p', Inr c) \<Longrightarrow> cert_common_name c = cn \<and> cert_sans c = sans"
    and client_identity:
      "issue_client_cert ops cn sans ttl p = (p', Inr c) \<Longrightarrow> cert_common_name c = cn \<and> cert_sans c = sans"

text \<open>The revocation list: a revoked serial is on it, and no operation takes one off.\<close>

locale pki_backend = pki_issuer ops for ops :: "'p pki_ops" +
  fixes listed :: "'p \<Rightarrow> int set"
  assumes server_keeps: "listed p \<subseteq> listed (fst (issue_server_cert ops cn sans ttl p))"
    and client_keeps: "listed p \<subseteq> listed (fst (issue_client_cert ops cn sans ttl p))"
    and revoke_keeps: "listed p \<subseteq> listed (fst (revoke_serial ops n p))"
    and revoke_lists: "revoke_serial ops n p = (p', Inr ()) \<Longrightarrow> n \<in> listed p'"

lemma local_issue_Inr:
  assumes "local_issue x k cn sans ttl p = Inr c"
  shows "cert_common_name c = cn \<and> cert_sans c = sans \<and> cert_not_before c = x_now x - seconds 60 \<and>
     cert_not_after c = x_now x + seconds ttl"
  using assms by (auto simp: local_issue_def Let_def split: sum.splits)

lemma vault_issue_Inr:
  assumes "vault_issue v p role cn sans ttl s = (s', Inr c)"
  shows "cert_common_name c = cn \<and> cert_sans c = sans"
  using assms by (auto simp: vault_issue_def andThen_Inr_iff rbind_Inr_iff split: prod.splits)

interpretation vault_issuer: pki_issuer "vault_ops v p" for v p
  by unfold_locales (auto simp: vault_ops_def dest: vault_issue_Inr)

interpretation local_backend: pki_backend "local_ops x" lp_revoked for x
  by unfold_locales (auto simp: local_ops_def local_revoke_cert_def dest: local_issue_Inr)

text \<open>The certificate revocation list the local backend signs names exactly the revoked serials, in order.\<close>

lemma local_crl_after_revoke:
  assumes "finite (lp_revoked p)"
  shows "local_crl_pem x (local_revoke_cert n p) =
     (case x_sign_crl x (x_subject_of x (lp_int_cert p)) (x_now x) (x_now x + days 7)
        (sorted_list_of_set (insert n (lp_revoked p))) (lp_int_key p) of
        Inl e \<Rightarrow> Inl (if value_or_type_error e then PKIError ''failed to sign CRL'' else e) | Inr crl \<Rightarrow> Inr crl)"
  by (simp add: local_crl_pem_def local_revoke_cert_def)

section \<open>Chains\<close>

definition pem_lines :: "string \<Rightarrow> string list" where
  "pem_lines s = split_on CHR 0x0A s"

definition blank :: "string \<Rightarrow> bool" where "blank s \<longleftrightarrow> strip s = []"

lemma split_on_block: "split_on c (s @ c # t) = split_on c s @ split_on c t"
proof (induction s)
  case (Cons x s)
  obtain q qs where "split_on c s = q # qs" by (meson neq_Nil_conv split_on_not_Nil)
  with Cons show ?case by auto
qed simp

text \<open>
  Every line of a joined chain is a line of one of its blocks: no block starts on the line
  the previous one ends on, whether or not the blocks came with a final line feed.
\<close>

lemma join_pems_lines:
  "pem_lines (join_pems pems) =
     concat (map (\<lambda>p. pem_lines (rstrip_if (\<lambda>c. c = CHR 0x0A) p)) (filter (\<lambda>p. \<not> blank p) pems)) @ [[]]"
  by (induction pems) (simp_all add: pem_lines_def blank_def split_on_block)

section \<open>Memoisation\<close>

text \<open>
  Once a local backend was handed out, the same settings give the same one, with the
  revocations made meanwhile, and change nothing.
\<close>

lemma make_pki_backend_memoised:
  assumes "make_pki_backend x v settings w = (w', Inr (Local_Backend k))"
  shows "k = ps_pinned settings \<and> pw_cache w' k \<noteq> None \<and>
     (\<forall>w2 x2. pw_cache w2 k \<noteq> None \<longrightarrow> make_pki_backend x2 v settings w2 = (w2, Inr (Local_Backend k)))"
  using assms
  by (auto simp: make_pki_backend_def split: if_splits option.splits sum.splits prod.splits)

section \<open>Round trip of serials\<close>

text \<open>
  the serial Vault reports is the one a later revocation names: reading a serial in Vault's
  notation and writing it back gives the same string, and every serial that is written reads back
  as the same number.
\<close>

theorem vault_serial_roundtrip:
  assumes "canonical_serial text" and "0 \<le> n"
  shows "(\<exists>m. hex_colon_to_int text = Inr m \<and> int_to_hex_colon m = text) \<and> hex_colon_to_int (int_to_hex_colon n) = Inr n"
  using serial_from_vault [OF assms(1)] serial_to_vault [OF assms(2)] by blast

theorem vault_serial_roundtrip_witness:
  "hex_colon_to_int ''0a:1b'' = Inr 2587 \<and> int_to_hex_colon 2587 = ''0a:1b'' \<and> hex_colon_to_int (int_to_hex_colon 4096) = Inr 4096"
proof -
  have "canonical_serial ''0a:1b''" "(0 :: int) \<le> 4096" by code_simp+
  from vault_serial_roundtrip [OF this] obtain m where m: "hex_colon_to_int ''0a:1b'' = Inr m" "int_to_hex_colon m = ''0a:1b''"
    and "hex_colon_to_int (int_to_hex_colon 4096) = Inr 4096" by blast
  moreover have "hex_colon_to_int ''0a:1b'' = Inr 2587" by code_simp
  ultimately show ?thesis by simp
qed

end
