(* ===== verification/Certs.thy ===== *)
theory Certs
  imports Pki Tenants
begin

text \<open>
  \<^verbatim>\<open>routers/certs.py\<close>: issuing, renewing, revoking and listing the certificates of operators
  and services. A handler runs on the database and on the state of the PKI backend; an
  exception rolls the database back but not what the backend already did. Building a PKCS#12
  archive is a parameter.
\<close>

section \<open>Profiles\<close>

record cert_profile =
  pf_ttl_days :: int
  pf_default_sans :: "string list option"
  pf_requires_operator :: bool
  pf_server_eku :: bool

fun CERT_PROFILES :: "certificate_type \<Rightarrow> cert_profile" where
  "CERT_PROFILES Api = \<lparr>pf_ttl_days = 30, pf_default_sans = Some [''127.0.0.1'', ''localhost''],
     pf_requires_operator = False, pf_server_eku = True\<rparr>"
| "CERT_PROFILES Cli = \<lparr>pf_ttl_days = 365, pf_default_sans = None, pf_requires_operator = True, pf_server_eku = False\<rparr>"
| "CERT_PROFILES Dashboard = \<lparr>pf_ttl_days = 365, pf_default_sans = None, pf_requires_operator = True, pf_server_eku = False\<rparr>"
| "CERT_PROFILES Mysql = \<lparr>pf_ttl_days = 30, pf_default_sans = Some [''mysql'', ''127.0.0.1'', ''localhost''],
     pf_requires_operator = False, pf_server_eku = True\<rparr>"
| "CERT_PROFILES Mysql_Client = \<lparr>pf_ttl_days = 30, pf_default_sans = None, pf_requires_operator = False, pf_server_eku = False\<rparr>"

fun certificate_type_value :: "certificate_type \<Rightarrow> string" where
  "certificate_type_value Api = ''api''"
| "certificate_type_value Cli = ''cli''"
| "certificate_type_value Dashboard = ''dashboard''"
| "certificate_type_value Mysql = ''mysql''"
| "certificate_type_value Mysql_Client = ''mysql-client''"

definition resolve_sans :: "certificate_type \<Rightarrow> string \<Rightarrow> string list option \<Rightarrow> string list" where
  "resolve_sans cert_type cn sans =
     (case sans of
        Some (x # xs) \<Rightarrow> x # xs
      | _ \<Rightarrow> (case pf_default_sans (CERT_PROFILES cert_type) of Some ds \<Rightarrow> ds | None \<Rightarrow> [cn]))"

definition resolve_operator_fk :: "certificate_type \<Rightarrow> string \<Rightarrow> string option \<Rightarrow> state \<Rightarrow> int option result" where
  "resolve_operator_fk cert_type cn operator_cn s =
     (if \<not> pf_requires_operator (CERT_PROFILES cert_type) then Inr None
      else let target_cn = (case operator_cn of None \<Rightarrow> cn | Some x \<Rightarrow> if x = [] then cn else x) in
        rbind (or_raise (find (\<lambda>o'. op_cn o' = target_cn) (operators s))
          (HTTPException 422 (''no operator registered with CN '' @ py_repr target_cn @ '' '' @ em_dash @
             '' register the operator first via the Operators page or `wg-manager operators add --cn '' @ target_cn @ ''`'')))
          (\<lambda>row. Inr (Some (op_id row))))"

definition mint_leaf ::
  "'p pki_ops \<Rightarrow> certificate_type \<Rightarrow> string \<Rightarrow> string list \<Rightarrow> int \<Rightarrow> ('p, cert) handler" where
  "mint_leaf ops cert_type cn sans ttl_seconds =
     (if pf_server_eku (CERT_PROFILES cert_type) then issue_server_cert ops cn sans ttl_seconds
      else issue_client_cert ops cn sans ttl_seconds)"

section \<open>Rows\<close>

text \<open>\<^verbatim>\<open>session.add(Certificate(...)); session.commit()\<close>: the serial is unique, the references exist.\<close>

definition insert_certificate :: "certificate \<Rightarrow> state \<Rightarrow> state result" where
  "insert_certificate c s =
     (if crt_serial c \<in> crt_serial ` set (certificates s) \<or> \<not> ref_ok (ten_id ` set (tenants s)) (crt_tenant c) \<or>
         \<not> ref_ok (op_id ` set (operators s)) (crt_operator_id c)
      then Inl IntegrityError
      else Inr (s\<lparr>certificates := certificates s @ [c]\<rparr>))"

definition certificate_json :: "env \<Rightarrow> certificate \<Rightarrow> (string \<times> json) list" where
  "certificate_json e c =
     [(''id'', JInt (crt_id c)), (''tenant_id'', json_int_opt (crt_tenant c)), (''serial'', JStr (crt_serial c)),
      (''cert_type'', JStr (certificate_type_value (crt_type c))), (''operator_id'', json_int_opt (crt_operator_id c)),
      (''common_name'', JStr (crt_common_name c)), (''sans'', JStr (crt_sans c)),
      (''not_before'', JStr (iso_z e (crt_not_before c))), (''not_after'', JStr (iso_z e (crt_not_after c))),
      (''revoked'', JBool (crt_revoked c)), (''revoked_at'', json_time e (crt_revoked_at c)),
      (''created_at'', JStr (iso_z e (crt_created_at c))), (''out_cert_path'', json_opt (crt_out_cert_path c)),
      (''out_key_path'', json_opt (crt_out_key_path c)), (''out_chain_path'', json_opt (crt_out_chain_path c))]"

section \<open>Handlers\<close>

record issue_request =
  ir_type :: certificate_type
  ir_common_name :: string
  ir_sans :: "string list option"
  ir_ttl_days :: "int option"
  ir_operator_cn :: "string option"
  ir_pkcs12_password :: string
  ir_tenant_slug :: "string option"

record issue_response =
  is_certificate :: certificate
  is_cert_pem :: string
  is_private_pem :: string
  is_chain_pem :: string
  is_pkcs12_b64 :: "string option"

record whoami_response =
  wa_cn :: string
  wa_serial :: string
  wa_sans :: "string list"
  wa_not_before :: int
  wa_not_after :: int
  wa_operator_cn :: string
  wa_operator_role :: operator_role
  wa_operator_status :: operator_status

type_synonym pkcs12_builder = "cert \<Rightarrow> string \<Rightarrow> string result"

type_synonym 'p cert_world = "state \<times> 'p"

definition whoami :: "request_state \<Rightarrow> whoami_response result" where
  "whoami rs =
     rbind (require_subject rs) (\<lambda>subject.
     rbind (get_operator rs) (\<lambda>operator.
       Inr \<lparr>wa_cn = cs_common_name subject, wa_serial = str_of_int (cs_serial subject), wa_sans = cs_sans subject,
            wa_not_before = cs_not_before subject, wa_not_after = cs_not_after subject, wa_operator_cn = op_cn operator,
            wa_operator_role = op_role operator, wa_operator_status = op_status operator\<rparr>))"

definition list_certs :: "request_state \<Rightarrow> state \<Rightarrow> certificate list result" where
  "list_certs rs s = rbind (RequireAdminOrAuditor rs) (\<lambda>_. Inr (sort_key crt_id (certificates s)))"

text \<open>The part of \<^verbatim>\<open>issue_cert\<close> before the backend is called: operator, alternative names, lifetime and tenant.\<close>

definition issue_plan ::
  "request_state \<Rightarrow> issue_request \<Rightarrow> state \<Rightarrow> (int option \<times> string list \<times> int \<times> int option) result" where
  "issue_plan rs b s =
     (let profile = CERT_PROFILES (ir_type b) in
      rbind (RequireAdmin rs) (\<lambda>_.
      rbind (check (ir_tenant_slug b = None \<or> \<not> pf_server_eku profile)
        (HTTPException 422 (''tenant_slug is not allowed for cert_type '' @ py_repr (certificate_type_value (ir_type b)) @ '' '' @
           em_dash @ '' only cli + dashboard certs carry a tenant binding''))) (\<lambda>_.
      rbind (resolve_operator_fk (ir_type b) (ir_common_name b) (ir_operator_cn b) s) (\<lambda>operator_id.
      let sans = resolve_sans (ir_type b) (ir_common_name b) (ir_sans b);
          ttl_days = (case ir_ttl_days b of None \<Rightarrow> pf_ttl_days profile | Some d \<Rightarrow> if d = 0 then pf_ttl_days profile else d);
          ttl_seconds = ttl_days * 24 * 60 * 60 in
      case ir_tenant_slug b of
        None \<Rightarrow> Inr (operator_id, sans, ttl_seconds, None)
      | Some slug \<Rightarrow>
          rbind (or_raise (find (\<lambda>t. ten_slug t = slug) (tenants s))
              (HTTPException 422 (''no tenant with slug '' @ py_repr slug)))
            (\<lambda>t. Inr (operator_id, sans @ [''tenant:'' @ slug], ttl_seconds, Some (ten_id t)))))))"

definition new_certificate ::
  "env \<Rightarrow> cert \<Rightarrow> certificate_type \<Rightarrow> int option \<Rightarrow> int option \<Rightarrow> certificate" where
  "new_certificate e c cert_type operator_id tenant_id =
     \<lparr>crt_id = new_id e, crt_tenant = tenant_id, crt_serial = str_of_int (cert_serial c), crt_type = cert_type,
      crt_operator_id = operator_id, crt_common_name = cert_common_name c, crt_sans = join_with '','' (cert_sans c),
      crt_not_before = cert_not_before c, crt_not_after = cert_not_after c, crt_revoked = False, crt_revoked_at = None,
      crt_created_at = now e, crt_out_cert_path = None, crt_out_key_path = None, crt_out_chain_path = None\<rparr>"

definition dashboard_bundle :: "pkcs12_builder \<Rightarrow> certificate_type \<Rightarrow> cert \<Rightarrow> string \<Rightarrow> string option result" where
  "dashboard_bundle pk12 cert_type c password =
     (if cert_type = Dashboard then rbind (pk12 c password) (\<lambda>b. Inr (Some b)) else Inr None)"

text \<open>After the leaf was minted: the archive, the row and the answer; a failure leaves the database as it was.\<close>

definition record_leaf ::
  "pkcs12_builder \<Rightarrow> cert \<Rightarrow> string \<Rightarrow> certificate \<Rightarrow> 'p \<Rightarrow> state \<Rightarrow> 'p cert_world \<times> issue_response result" where
  "record_leaf pk12 c password row p s =
     (case rbind (dashboard_bundle pk12 (crt_type row) c password) (\<lambda>bundle.
             rbind (insert_certificate row s) (\<lambda>s'. Inr (s', bundle))) of
        Inl x \<Rightarrow> ((s, p), Inl x)
      | Inr (s', bundle) \<Rightarrow> ((s', p), Inr \<lparr>is_certificate = row, is_cert_pem = cert_pem c, is_private_pem = cert_private_pem c,
          is_chain_pem = cert_chain_pem c, is_pkcs12_b64 = bundle\<rparr>))"

definition issue_cert ::
  "'p pki_ops \<Rightarrow> pkcs12_builder \<Rightarrow> env \<Rightarrow> request_state \<Rightarrow> issue_request \<Rightarrow> ('p cert_world, issue_response) handler" where
  "issue_cert ops pk12 e rs b w =
     (case w of (s, p) \<Rightarrow>
      case issue_plan rs b s of
        Inl x \<Rightarrow> (w, Inl x)
      | Inr (operator_id, sans, ttl_seconds, tenant_id) \<Rightarrow>
          (case mint_leaf ops (ir_type b) (ir_common_name b) sans ttl_seconds p of
             (p', Inl x) \<Rightarrow> ((s, p'), Inl x)
           | (p', Inr c) \<Rightarrow>
               record_leaf pk12 c (ir_pkcs12_password b) (new_certificate e c (ir_type b) operator_id tenant_id) p' s))"

text \<open>\<^verbatim>\<open>max(1, int((row.not_after - row.not_before).total_seconds()))\<close>; the quotient truncates towards zero.\<close>

definition renewal_ttl :: "certificate \<Rightarrow> int" where
  "renewal_ttl row =
     (let d = crt_not_after row - crt_not_before row in max 1 (if 0 \<le> d then d div 1000000 else - (- d div 1000000)))"

definition renewed_certificate :: "env \<Rightarrow> certificate \<Rightarrow> cert \<Rightarrow> certificate" where
  "renewed_certificate e row c =
     (new_certificate e c (crt_type row) (crt_operator_id row) None)
       \<lparr>crt_out_cert_path := crt_out_cert_path row, crt_out_key_path := crt_out_key_path row,
        crt_out_chain_path := crt_out_chain_path row\<rparr>"

definition certificate_not_found :: "int \<Rightarrow> exn" where
  "certificate_not_found i = HTTPException 404 (''certificate id='' @ str_of_int i @ '' not found'')"

definition renew_plan :: "request_state \<Rightarrow> int \<Rightarrow> state \<Rightarrow> certificate result" where
  "renew_plan rs i s =
     rbind (RequireAdmin rs) (\<lambda>_.
     rbind (or_raise (get_row crt_id (certificates s) i) (certificate_not_found i)) (\<lambda>row.
     rbind (check (\<not> crt_revoked row) (HTTPException 422 (''certificate id='' @ str_of_int i @
         '' is revoked; renewal is not supported for revoked certs '' @ em_dash @ '' issue a fresh leaf via POST /certs''))) (\<lambda>_.
       Inr row)))"

definition renew_cert ::
  "'p pki_ops \<Rightarrow> pkcs12_builder \<Rightarrow> env \<Rightarrow> request_state \<Rightarrow> int \<Rightarrow> ('p cert_world, issue_response) handler" where
  "renew_cert ops pk12 e rs i w =
     (case w of (s, p) \<Rightarrow>
      case renew_plan rs i s of
        Inl x \<Rightarrow> (w, Inl x)
      | Inr row \<Rightarrow>
          (case mint_leaf ops (crt_type row) (crt_common_name row) (filter (\<lambda>x. x \<noteq> []) (split_on CHR '','' (crt_sans row)))
                  (renewal_ttl row) p of
             (p', Inl x) \<Rightarrow> ((s, p'), Inl x)
           | (p', Inr c) \<Rightarrow> record_leaf pk12 c [] (renewed_certificate e row c) p' s))"

text \<open>\<^verbatim>\<open>int(s)\<close> of a decimal number with an optional sign.\<close>

definition py_int :: "string \<Rightarrow> int result" where
  "py_int t =
     (if isdigit t then Inr (int (digits_to_nat t))
      else case t of
          CHR ''-'' # ds \<Rightarrow> if isdigit ds then Inr (- int (digits_to_nat ds)) else Inl (ValueError ''invalid literal for int()'')
        | _ \<Rightarrow> Inl (ValueError ''invalid literal for int()''))"

definition revoke_row :: "env \<Rightarrow> request_state \<Rightarrow> certificate \<Rightarrow> state \<Rightarrow> (state \<times> certificate) result" where
  "revoke_row e rs row s =
     (let row' = row\<lparr>crt_revoked := True, crt_revoked_at := Some (now e)\<rparr> in
      rbind (persist e (actor_from_request rs)
         \<lparr>aa_event = ''certificate.revoke'', aa_resource_type = ''certificate'', aa_resource_id = Some (crt_id row),
          aa_action = ''revoke'', aa_before = Some (certificate_json e row), aa_after = Some (certificate_json e row'),
          aa_payload = Some [(''serial'', JStr (crt_serial row)), (''common_name'', JStr (crt_common_name row))],
          aa_request_id = None, aa_tenant_id = crt_tenant row\<rparr>
         (s\<lparr>certificates := put_row crt_id row' (certificates s)\<rparr>))
        (\<lambda>(s2, _). Inr (s2, row')))"

definition revoke_cert :: "'p pki_ops \<Rightarrow> env \<Rightarrow> request_state \<Rightarrow> int \<Rightarrow> ('p cert_world, certificate) handler" where
  "revoke_cert ops e rs i w =
     (case w of (s, p) \<Rightarrow>
      case rbind (RequireAdmin rs) (\<lambda>_. or_raise (get_row crt_id (certificates s) i) (certificate_not_found i)) of
        Inl x \<Rightarrow> (w, Inl x)
      | Inr row \<Rightarrow>
          if crt_revoked row then (w, Inr row)
          else (case py_int (crt_serial row) of
              Inl x \<Rightarrow> (w, Inl x)
            | Inr serial \<Rightarrow>
                (case revoke_serial ops serial p of
                   (p', Inl x) \<Rightarrow> ((s, p'), Inl x)
                 | (p', Inr _) \<Rightarrow>
                     (case revoke_row e rs row s of
                        Inl x \<Rightarrow> ((s, p'), Inl x)
                      | Inr (s', row') \<Rightarrow> ((s', p'), Inr row')))))"

lemma py_int_str_of_int: "py_int (str_of_int n) = Inr n"
proof (cases "n < 0")
  case True
  have "\<not> isdigit (CHR ''-'' # s)" for s by (simp add: isdigit_def is_digit_def)
  then show ?thesis using True by (simp add: py_int_def str_of_int_def)
qed (simp add: py_int_def str_of_int_def)

end
