(* ===== verification/Cert_Props.thy ===== *)
theory Cert_Props
  imports Certs Auth
begin

text \<open>
  What the certificate endpoints guarantee: the registry records exactly the leaves that were
  minted, a revoked row has its serial on the revocation list, and a revoked certificate is
  refused by the authentication of the operator API. The lemmas on the backends are proved in
  the locales of theory \<^verbatim>\<open>Pki\<close>, for the local backend or for any Vault.
\<close>

section \<open>Runs of the handlers\<close>

lemma record_leaf_cases:
  obtains (failed) x where "record_leaf pk12 c pw row p s = ((s, p), Inl x)"
  | (stored) s2 arch where "dashboard_bundle pk12 (crt_type row) c pw = Inr arch" and "insert_certificate row s = Inr s2"
      and "record_leaf pk12 c pw row p s = ((s2, p), Inr \<lparr>is_certificate = row, is_cert_pem = cert_pem c,
        is_private_pem = cert_private_pem c, is_chain_pem = cert_chain_pem c, is_pkcs12_b64 = arch\<rparr>)"
  by (cases "dashboard_bundle pk12 (crt_type row) c pw"; cases "insert_certificate row s")
    (auto simp: record_leaf_def)

lemma insert_certificate_Inr [result_simps]:
  "insert_certificate c s = Inr s' \<longleftrightarrow> crt_serial c \<notin> crt_serial ` set (certificates s) \<and>
     ref_ok (ten_id ` set (tenants s)) (crt_tenant c) \<and> ref_ok (op_id ` set (operators s)) (crt_operator_id c) \<and>
     s' = s\<lparr>certificates := certificates s @ [c]\<rparr>"
  by (auto simp: insert_certificate_def)

lemma issue_cert_Inr:
  assumes "issue_cert ops pk12 e rs b (s, p) = ((s', p'), Inr r)"
  shows "\<exists>operator_id sans ttl tenant_id c. issue_plan rs b s = Inr (operator_id, sans, ttl, tenant_id) \<and>
     mint_leaf ops (ir_type b) (ir_common_name b) sans ttl p = (p', Inr c) \<and>
     insert_certificate (new_certificate e c (ir_type b) operator_id tenant_id) s = Inr s' \<and>
     is_certificate r = new_certificate e c (ir_type b) operator_id tenant_id \<and> is_cert_pem r = cert_pem c \<and>
     is_private_pem r = cert_private_pem c"
  using assms
  by (auto simp: issue_cert_def record_leaf_def rbind_def split: sum.splits prod.splits)

lemma renew_cert_Inr:
  assumes "renew_cert ops pk12 e rs i (s, p) = ((s', p'), Inr r)"
  shows "\<exists>row c. renew_plan rs i s = Inr row \<and>
     mint_leaf ops (crt_type row) (crt_common_name row) (filter (\<lambda>x. x \<noteq> []) (split_on CHR '','' (crt_sans row)))
       (renewal_ttl row) p = (p', Inr c) \<and>
     insert_certificate (renewed_certificate e row c) s = Inr s' \<and> is_certificate r = renewed_certificate e row c"
  using assms
  by (auto simp: renew_cert_def record_leaf_def rbind_def split: sum.splits prod.splits)

lemma revoke_row_Inr:
  "revoke_row e rs row s = Inr (s', row') \<Longrightarrow> row' = row\<lparr>crt_revoked := True, crt_revoked_at := Some (now e)\<rparr> \<and>
     (\<exists>a. s' = s\<lparr>certificates := put_row crt_id row' (certificates s), audit_events := audit_events s @ [a]\<rparr> \<and>
        ae_event a = ''certificate.revoke'' \<and> ae_resource_id a = Some (crt_id row))"
  by (auto simp: revoke_row_def Let_def rbind_Inr_iff persist_Inr audit_row_def)

lemma revoke_cert_Inr:
  assumes "revoke_cert ops e rs i (s, p) = ((s', p'), Inr row')"
  obtains (already) "get_row crt_id (certificates s) i = Some row'" "crt_revoked row'" "s' = s" "p' = p"
  | (now) row serial where "get_row crt_id (certificates s) i = Some row" "\<not> crt_revoked row"
      "py_int (crt_serial row) = Inr serial" "revoke_serial ops serial p = (p', Inr ())" "revoke_row e rs row s = Inr (s', row')"
  using assms
  by (auto simp: revoke_cert_def result_simps split: sum.splits prod.splits if_splits)

lemma mint_leaf_Inr_ops:
  "mint_leaf ops t cn sans ttl p = r \<Longrightarrow>
     (pf_server_eku (CERT_PROFILES t) \<and> issue_server_cert ops cn sans ttl p = r) \<or>
     (\<not> pf_server_eku (CERT_PROFILES t) \<and> issue_client_cert ops cn sans ttl p = r)"
  by (simp add: mint_leaf_def split: if_splits)

section \<open>What the backends promise, for the router\<close>

text \<open>Every revoked row has its serial on the backend's revocation list.\<close>

definition crl_covers :: "('p \<Rightarrow> int set) \<Rightarrow> 'p cert_world \<Rightarrow> bool" where
  "crl_covers listed w \<longleftrightarrow>
     (\<forall>c \<in> set (certificates (fst w)). crt_revoked c \<longrightarrow> (\<exists>n. py_int (crt_serial c) = Inr n \<and> n \<in> listed (snd w)))"

lemma crl_covers_mono:
  assumes "crl_covers listed (s, p)" and "listed p \<subseteq> listed p'"
    and "\<And>c. c \<in> set (certificates s') \<Longrightarrow> crt_revoked c \<Longrightarrow> c \<in> set (certificates s)"
  shows "crl_covers listed (s', p')"
  using assms by (fastforce simp: crl_covers_def)

context pki_issuer
begin

lemma mint_identity: "mint_leaf ops t cn sans ttl p = (p', Inr c) \<Longrightarrow> cert_common_name c = cn \<and> cert_sans c = sans"
  using server_identity client_identity by (auto dest: mint_leaf_Inr_ops)

end

context pki_backend
begin

lemma mint_keeps: "listed p \<subseteq> listed (fst (mint_leaf ops t cn sans ttl p))"
  using server_keeps client_keeps by (simp add: mint_leaf_def)

lemma mint_keepsD: "mint_leaf ops t cn sans ttl p = (p', r) \<Longrightarrow> listed p \<subseteq> listed p'"
  using mint_keeps [of p t cn sans ttl] by simp

lemma record_leaf_covers:
  assumes "crl_covers listed (s, p)" and "listed p \<subseteq> listed p'" and "\<not> crt_revoked row"
  shows "crl_covers listed (fst (record_leaf pk12 c pw row p' s))"
proof (cases rule: record_leaf_cases [of pk12 c pw row p' s])
  case (failed x)
  with assms show ?thesis by (auto intro: crl_covers_mono)
next
  case (stored s2 arch)
  then have "set (certificates s2) = insert row (set (certificates s))" by (auto simp: result_simps)
  with stored assms show ?thesis by (auto intro!: crl_covers_mono [OF assms(1,2)])
qed

lemma issue_covers:
  assumes "crl_covers listed w"
  shows "crl_covers listed (fst (issue_cert ops pk12 e rs b w))"
proof -
  obtain s p where w: "w = (s, p)" by (cases w)
  show ?thesis
    using assms unfolding w issue_cert_def
    by (auto split: sum.splits prod.splits intro!: record_leaf_covers intro: crl_covers_mono mint_keepsD [THEN subsetD]
        simp: new_certificate_def dest!: mint_keepsD)
qed

lemma renew_covers:
  assumes "crl_covers listed w"
  shows "crl_covers listed (fst (renew_cert ops pk12 e rs i w))"
proof -
  obtain s p where w: "w = (s, p)" by (cases w)
  show ?thesis
    using assms unfolding w renew_cert_def
    by (auto split: sum.splits prod.splits intro!: record_leaf_covers intro: crl_covers_mono
        simp: new_certificate_def renewed_certificate_def dest!: mint_keepsD)
qed

lemma revoke_covers:
  assumes "crl_covers listed w"
  shows "crl_covers listed (fst (revoke_cert ops e rs i w))"
proof -
  obtain s p where w: "w = (s, p)" by (cases w)
  obtain s' p' r where run: "revoke_cert ops e rs i (s, p) = ((s', p'), r)" by (metis prod.collapse)
  show ?thesis
  proof (cases r)
    case (Inl x)
    then have "s' = s \<and> listed p \<subseteq> listed p'"
      using run revoke_keeps
      by (auto simp: revoke_cert_def split: sum.splits prod.splits if_splits) (metis fst_conv subsetD)+
    then show ?thesis using assms run w by (auto intro: crl_covers_mono)
  next
    case (Inr row')
    from run [unfolded Inr] show ?thesis
    proof (cases rule: revoke_cert_Inr)
      case already
      then show ?thesis using assms run w by simp
    next
      case (now row serial)
      then have "serial \<in> listed p'" "listed p \<subseteq> listed p'" using revoke_lists revoke_keeps by (auto, metis fst_conv subsetD)
      moreover have "set (certificates s') \<subseteq> insert row' (set (certificates s))" "crt_serial row' = crt_serial row"
        using revoke_row_Inr [OF now(5)] by (auto simp: in_put_row)
      ultimately show ?thesis
        using assms run w now(3) by (fastforce simp: crl_covers_def)
    qed
  qed
qed

end

section \<open>The registry and the revocation list\<close>

text \<open>The certificate requests of any history, each with its own clock, keys and serials.\<close>

inductive cert_step :: "('k \<Rightarrow> 'p pki_ops) \<Rightarrow> 'p cert_world \<Rightarrow> 'p cert_world \<Rightarrow> bool" for ops :: "'k \<Rightarrow> 'p pki_ops" where
  issued: "cert_step ops w (fst (issue_cert (ops k) pk12 e rs b w))"
| renewed: "cert_step ops w (fst (renew_cert (ops k) pk12 e rs i w))"
| revoked: "cert_step ops w (fst (revoke_cert (ops k) e rs i w))"

section \<open>Revocation and authentication\<close>

lemma resolve_operator_certificates:
  assumes "resolve_operator settings e subject s = (s', r)" and "certificates (au_interleave e s) = certificates s"
  shows "certificates s' = certificates s"
  using assms
  by (auto simp: resolve_operator_def maybe_bootstrap_def Let_def split: option.splits if_splits prod.splits)

lemma map_put_row:
  assumes "distinct (map key rows)" and "r0 \<in> set rows" and "key r = key r0" and "f r = f r0"
  shows "map f (put_row key r rows) = map f rows"
  using assms distinct_map_eq [OF assms(1) _ assms(2)] by (auto simp: put_row_def)

lemma revoke_cert_stored:
  assumes "revoke_cert ops e rs i (s, p) = ((s', p'), Inr row)" and "distinct (map crt_id (certificates s))"
  shows "get_row crt_id (certificates s') i = Some row" and "crt_revoked row"
    and "map crt_serial (certificates s') = map crt_serial (certificates s)"
    and "map crt_id (certificates s') = map crt_id (certificates s)"
proof -
  have "get_row crt_id (certificates s') i = Some row \<and> crt_revoked row \<and>
      map crt_serial (certificates s') = map crt_serial (certificates s) \<and> map crt_id (certificates s') = map crt_id (certificates s)"
    using assms(1)
  proof (cases rule: revoke_cert_Inr)
    case (now row0 serial)
    have r: "row = row0\<lparr>crt_revoked := True, crt_revoked_at := Some (env.now e)\<rparr>"
      "certificates s' = put_row crt_id row (certificates s)" using revoke_row_Inr [OF now(5)] by auto
    have k: "row0 \<in> set (certificates s)" "crt_id row0 = i" using get_row_SomeD [OF now(1)] by auto
    have "map crt_serial (put_row crt_id row (certificates s)) = map crt_serial (certificates s)"
      by (rule map_put_row [OF assms(2) k(1)]) (simp_all add: r(1))
    then show ?thesis using r k by (auto simp: get_put_row)
  qed auto
  then show "get_row crt_id (certificates s') i = Some row" and "crt_revoked row"
    and "map crt_serial (certificates s') = map crt_serial (certificates s)"
    and "map crt_id (certificates s') = map crt_id (certificates s)" by auto
qed

text \<open>A request over TLS, neither a probe nor a preflight, with the certificate of this serial, while the registry answers.\<close>

definition presents :: "auth_settings \<Rightarrow> auth_env \<Rightarrow> asgi_scope \<Rightarrow> string \<Rightarrow> bool" where
  "presents settings ae scope serial \<longleftrightarrow>
     tls_required settings \<and> \<not> is_health_path (sc_path scope) \<and> sc_method scope \<noteq> ''OPTIONS'' \<and> \<not> registry_fails ae \<and>
     (case extract_subject_from_scope (au_load_pem ae) scope of
        Inr (Some subject) \<Rightarrow> serial = str_of_int (cs_serial subject) | _ \<Rightarrow> False)"

lemma revoked_not_forwarded:
  assumes "presents settings ae scope (crt_serial row)" and "certificates (au_interleave ae s) = certificates s"
    and "distinct (map crt_serial (certificates s))" and "row \<in> set (certificates s)" and "crt_revoked row"
  shows "dispatch settings ae scope s \<noteq> Inr (t, lines, Forward frs)"
proof
  assume d: "dispatch settings ae scope s = Inr (t, lines, Forward frs)"
  obtain subject where sub: "extract_subject_from_scope (au_load_pem ae) scope = Inr (Some subject)"
    "crt_serial row = str_of_int (cs_serial subject)" using assms(1) by (auto simp: presents_def split: sum.splits option.splits)
  have pre: "tls_required settings" "\<not> is_health_path (sc_path scope)" "sc_method scope \<noteq> ''OPTIONS''" "\<not> registry_fails ae"
    using assms(1) by (simp_all add: presents_def)
  obtain op where r: "resolve_operator settings ae subject s = (t, Some op)" "\<not> serial_is_revoked ae t (cs_serial subject)"
    using dispatch_forwardD [OF d pre(1-3)] sub(1) by auto
  have "certificates t = certificates s" using resolve_operator_certificates [OF r(1) assms(2)] .
  then have "\<not> (\<exists>c \<in> set (certificates s). crt_serial c = str_of_int (cs_serial subject) \<and> crt_revoked c)"
    using r(2) serial_is_revoked_iff [of t ae "cs_serial subject"] pre(4) assms(3) by simp
  then show False using assms(4,5) sub(2) by metis
qed

text \<open>
  C21: once a revocation has been answered, where TLS is required and the registry lookup
  answers (on a database error the middleware admits, see \<^verbatim>\<open>registry_failure_admits_revoked\<close>), no
  request for a path other than the health probes and with a method other than \<^verbatim>\<open>OPTIONS\<close> that
  presents a certificate with the revoked serial reaches the application; a second revocation
  changes nothing, and the certificate cannot be renewed. Ids and serials of the rows are
  distinct, and no other transaction changes the certificates meanwhile.
\<close>

theorem revoked_certificate_is_refused:
  assumes "revoke_cert ops e rs i (s, p) = ((s', p'), Inr row)"
    and "distinct (map crt_id (certificates s))" and "distinct (map crt_serial (certificates s))"
  shows "(tls_required settings \<and> \<not> registry_fails ae \<and> \<not> is_health_path (sc_path scope) \<and> sc_method scope \<noteq> ''OPTIONS'' \<and>
       extract_subject_from_scope (au_load_pem ae) scope = Inr (Some subject) \<and> str_of_int (cs_serial subject) = crt_serial row \<and>
       certificates (au_interleave ae s') = certificates s' \<longrightarrow>
       dispatch settings ae scope s' \<noteq> Inr (t, lines, Forward frs)) \<and>
     revoke_cert ops' e' rs i (s', q) = ((s', q), Inr row) \<and>
     (\<exists>x. renew_cert ops' pk12 e' rs i (s', q) = ((s', q), Inl (HTTPException 422 x)))"
proof -
  note st = revoke_cert_stored [OF assms(1,2)]
  have admin: "\<exists>op. RequireAdmin rs = Inr op" using assms(1) by (auto simp: revoke_cert_def result_simps split: sum.splits)
  have again: "revoke_cert ops' e' rs i (s', q) = ((s', q), Inr row)"
    using admin st(1,2) by (auto simp: revoke_cert_def)
  have renew: "\<exists>x. renew_cert ops' pk12 e' rs i (s', q) = ((s', q), Inl (HTTPException 422 x))"
    using admin st(1,2) by (auto simp: renew_cert_def renew_plan_def)
  have d: "distinct (map crt_serial (certificates s'))" using st(3) assms(3) by simp
  have "row \<in> set (certificates s')" using get_row_SomeD [OF st(1)] by simp
  then have "presents settings ae scope (crt_serial row) \<longrightarrow> certificates (au_interleave ae s') = certificates s' \<longrightarrow>
      dispatch settings ae scope s' \<noteq> Inr (t, lines, Forward frs)"
    using revoked_not_forwarded [OF _ _ d _ st(2)] by blast
  with again renew show ?thesis by (auto simp: presents_def)
qed

section \<open>Issuance and renewal\<close>

lemma issue_plan_Inr:
  assumes "issue_plan rs b s = Inr (operator_id, sans, ttl, tenant_id)"
  shows "resolve_operator_fk (ir_type b) (ir_common_name b) (ir_operator_cn b) s = Inr operator_id"
    and "case tenant_id of
        None \<Rightarrow> ir_tenant_slug b = None \<and> sans = resolve_sans (ir_type b) (ir_common_name b) (ir_sans b)
      | Some t \<Rightarrow> \<not> pf_server_eku (CERT_PROFILES (ir_type b)) \<and> (\<exists>row \<in> set (tenants s). ten_id row = t \<and>
          ir_tenant_slug b = Some (ten_slug row) \<and>
          sans = resolve_sans (ir_type b) (ir_common_name b) (ir_sans b) @ [''tenant:'' @ ten_slug row])"
  using assms
  by (auto simp: issue_plan_def Let_def result_simps split: option.splits dest!: find_SomeD)

lemma resolve_operator_fk_Inr:
  assumes "resolve_operator_fk t cn ocn s = Inr r"
  shows "case r of
      None \<Rightarrow> \<not> pf_requires_operator (CERT_PROFILES t)
    | Some i \<Rightarrow> pf_requires_operator (CERT_PROFILES t) \<and>
        (\<exists>row \<in> set (operators s). op_id row = i \<and> (op_cn row = cn \<or> ocn = Some (op_cn row)))"
  using assms
  by (auto simp: resolve_operator_fk_def Let_def result_simps split: if_splits option.splits dest!: find_SomeD)

text \<open>
  a successful issuance adds exactly one row, which records the minted leaf: its serial,
  its name and its alternative names; leaves for people belong to a registered operator, leaves
  for services to nobody; a tenant is recorded exactly when the leaf names it, and never in a
  server certificate. A failed one leaves the registry alone.
\<close>

theorem issue_cert_records_leaf:
  "case issue_cert (vault_ops v vp) pk12 e rs b (s, p) of
     ((s', p'), Inl x) \<Rightarrow> s' = s
   | ((s', p'), Inr r) \<Rightarrow>
       \<exists>row. certificates s' = certificates s @ [row] \<and> row = is_certificate r \<and> s' = s\<lparr>certificates := certificates s'\<rparr> \<and>
         crt_serial row \<notin> crt_serial ` set (certificates s) \<and> crt_type row = ir_type b \<and>
         crt_common_name row = ir_common_name b \<and> \<not> crt_revoked row \<and>
         (case crt_operator_id row of
            None \<Rightarrow> \<not> pf_requires_operator (CERT_PROFILES (ir_type b))
          | Some i \<Rightarrow> pf_requires_operator (CERT_PROFILES (ir_type b)) \<and>
              (\<exists>op \<in> set (operators s). op_id op = i \<and> (op_cn op = ir_common_name b \<or> ir_operator_cn b = Some (op_cn op)))) \<and>
         (case crt_tenant row of
            None \<Rightarrow> ir_tenant_slug b = None \<and>
              crt_sans row = join_with '','' (resolve_sans (ir_type b) (ir_common_name b) (ir_sans b))
          | Some t \<Rightarrow> \<not> pf_server_eku (CERT_PROFILES (ir_type b)) \<and> (\<exists>tn \<in> set (tenants s). ten_id tn = t \<and>
              ir_tenant_slug b = Some (ten_slug tn) \<and>
              crt_sans row = join_with '','' (resolve_sans (ir_type b) (ir_common_name b) (ir_sans b) @ [''tenant:'' @ ten_slug tn])))"
proof -
  obtain s' p' r where run: "issue_cert (vault_ops v vp) pk12 e rs b (s, p) = ((s', p'), r)" by (metis prod.collapse)
  show ?thesis
  proof (cases r)
    case (Inl x)
    then have "s' = s"
      using run by (auto simp: issue_cert_def record_leaf_def split: sum.splits prod.splits)
    with run Inl show ?thesis by simp
  next
    case (Inr resp)
    obtain operator_id sans ttl tenant_id c where
      plan: "issue_plan rs b s = Inr (operator_id, sans, ttl, tenant_id)"
      and mint: "mint_leaf (vault_ops v vp) (ir_type b) (ir_common_name b) sans ttl p = (p', Inr c)"
      and ins: "insert_certificate (new_certificate e c (ir_type b) operator_id tenant_id) s = Inr s'"
      and resp: "is_certificate resp = new_certificate e c (ir_type b) operator_id tenant_id"
      using issue_cert_Inr [OF run [unfolded Inr]] by blast
    note id = vault_issuer.mint_identity [OF mint]
    show ?thesis
      using run Inr ins resp id issue_plan_Inr(2) [OF plan] resolve_operator_fk_Inr [OF issue_plan_Inr(1) [OF plan]]
      by (simp add: result_simps new_certificate_def) (auto split: option.splits)
  qed
qed

lemma renew_plan_Inr:
  "renew_plan rs i s = Inr row \<Longrightarrow> get_row crt_id (certificates s) i = Some row \<and> \<not> crt_revoked row"
  by (auto simp: renew_plan_def result_simps)

lemma sans_text_roundtrip:
  assumes "[] \<notin> set (split_on CHR '','' t)"
  shows "join_with '','' (filter (\<lambda>x. x \<noteq> []) (split_on CHR '','' t)) = t"
proof -
  have "filter (\<lambda>x. x \<noteq> []) (split_on CHR '','' t) = split_on CHR '','' t" using assms by (auto simp: filter_id_conv)
  then show ?thesis by simp
qed

text \<open>
  A successful renewal keeps the old row and adds one with the same type, name, operator
  and output paths, and with the same alternative names when none of them is empty; the new row
  has no tenant, whatever tenant the renewed one had.
\<close>

theorem renew_cert_keeps_identity:
  assumes "renew_cert (vault_ops v vp) pk12 e rs i (s, p) = ((s', p'), Inr r)"
  shows "\<exists>old row. get_row crt_id (certificates s) i = Some old \<and> \<not> crt_revoked old \<and>
     certificates s' = certificates s @ [row] \<and> is_certificate r = row \<and> crt_type row = crt_type old \<and>
     crt_common_name row = crt_common_name old \<and> crt_operator_id row = crt_operator_id old \<and>
     crt_out_cert_path row = crt_out_cert_path old \<and> crt_out_key_path row = crt_out_key_path old \<and>
     crt_out_chain_path row = crt_out_chain_path old \<and>
     ([] \<notin> set (split_on CHR '','' (crt_sans old)) \<longrightarrow> crt_sans row = crt_sans old) \<and> crt_tenant row = None"
proof -
  obtain old c where plan: "renew_plan rs i s = Inr old"
    and mint: "mint_leaf (vault_ops v vp) (crt_type old) (crt_common_name old)
        (filter (\<lambda>x. x \<noteq> []) (split_on CHR '','' (crt_sans old))) (renewal_ttl old) p = (p', Inr c)"
    and ins: "insert_certificate (renewed_certificate e old c) s = Inr s'" and r: "is_certificate r = renewed_certificate e old c"
    using renew_cert_Inr [OF assms] by blast
  note id = vault_issuer.mint_identity [OF mint]
  have "certificates s' = certificates s @ [renewed_certificate e old c]" using ins by (simp add: result_simps)
  then show ?thesis
    using renew_plan_Inr [OF plan] r id sans_text_roundtrip [of "crt_sans old"]
    by (intro exI [of _ old] exI [of _ "renewed_certificate e old c"]) (simp add: renewed_certificate_def new_certificate_def)
qed

text \<open>
  On the local backend a certificate starts one minute before it is issued, and the renewal
  asks for the length of the whole window again: every renewal makes it a minute longer.
\<close>

theorem local_renewal_extends_window:
  assumes "renew_cert (local_ops x) pk12 e rs i (s, p) = ((s', p'), Inr r)"
    and "get_row crt_id (certificates s) i = Some old"
    and "crt_not_after old - crt_not_before old = seconds w" and "0 < w"
  shows "crt_not_after (is_certificate r) - crt_not_before (is_certificate r) = seconds (w + 60)"
proof -
  obtain row c where plan: "renew_plan rs i s = Inr row"
    and mint: "mint_leaf (local_ops x) (crt_type row) (crt_common_name row)
        (filter (\<lambda>x. x \<noteq> []) (split_on CHR '','' (crt_sans row))) (renewal_ttl row) p = (p', Inr c)"
    and r: "is_certificate r = renewed_certificate e row c"
    using renew_cert_Inr [OF assms(1)] by blast
  have "row = old" using renew_plan_Inr [OF plan] assms(2) by simp
  then have "renewal_ttl row = w" using assms(3,4) by (simp add: renewal_ttl_def seconds_def)
  moreover have "cert_not_before c = x_now x - seconds 60 \<and> cert_not_after c = x_now x + seconds (renewal_ttl row)"
    using mint by (auto simp: mint_leaf_def local_ops_def dest: local_issue_Inr split: if_splits)
  ultimately show ?thesis using r by (simp add: renewed_certificate_def new_certificate_def seconds_def)
qed

section \<open>Constraints\<close>

lemma wf_insert_certificate:
  assumes "wf_state s" and "insert_certificate c s = Inr s'" and "crt_id c \<notin> crt_id ` set (certificates s)"
  shows "wf_state s'"
  using assms by (auto simp: wf_simps result_simps)

lemma wf_put_certificate:
  assumes "wf_state s" and "r0 \<in> set (certificates s)" and "crt_id r = crt_id r0" and "crt_serial r = crt_serial r0"
    and "crt_tenant r = crt_tenant r0" and "crt_operator_id r = crt_operator_id r0"
  shows "wf_state (s\<lparr>certificates := put_row crt_id r (certificates s)\<rparr>)"
proof -
  have d: "distinct (map crt_id (certificates s))" using assms(1) by (simp add: wf_simps)
  have "map crt_serial (put_row crt_id r (certificates s)) = map crt_serial (certificates s)"
    by (rule map_put_row [OF d assms(2)]) (use assms in simp_all)
  then show ?thesis using assms by (auto simp: wf_simps in_put_row)
qed

text \<open>
  What a request to the certificate endpoints does to the database, whatever the backend: nothing,
  one new row, or one row revoked.
\<close>

inductive registry_write :: "state \<Rightarrow> state \<Rightarrow> bool" where
  unchanged: "registry_write s s"
| inserted: "insert_certificate c s = Inr s' \<Longrightarrow> crt_id c \<notin> crt_id ` set (certificates s) \<Longrightarrow> registry_write s s'"
| revoked: "row \<in> set (certificates s) \<Longrightarrow> revoke_row e rs row s = Inr (s', row') \<Longrightarrow> registry_write s s'"

lemma record_leaf_registry:
  assumes "crt_id row \<notin> crt_id ` set (certificates s)"
  shows "registry_write s (fst (fst (record_leaf pk12 c pw row p s)))"
  using assms by (cases rule: record_leaf_cases [of pk12 c pw row p s]) (auto intro: registry_write.intros)

lemma issue_cert_registry:
  assumes "new_id e \<notin> crt_id ` set (certificates s)"
  shows "registry_write s (fst (fst (issue_cert ops pk12 e rs b (s, p))))"
  using assms
  by (auto simp: issue_cert_def new_certificate_def split: sum.splits prod.splits intro!: record_leaf_registry intro: unchanged)

lemma renew_cert_registry:
  assumes "new_id e \<notin> crt_id ` set (certificates s)"
  shows "registry_write s (fst (fst (renew_cert ops pk12 e rs i (s, p))))"
  using assms
  by (auto simp: renew_cert_def renewed_certificate_def new_certificate_def split: sum.splits prod.splits
      intro!: record_leaf_registry intro: unchanged)

lemma revoke_cert_registry: "registry_write s (fst (fst (revoke_cert ops e rs i (s, p))))"
proof -
  obtain s' p' r where run: "revoke_cert ops e rs i (s, p) = ((s', p'), r)" by (metis prod.collapse)
  show ?thesis
  proof (cases r)
    case (Inl x)
    then have "s' = s" using run by (auto simp: revoke_cert_def split: sum.splits prod.splits if_splits)
    then show ?thesis using run by (simp add: unchanged)
  next
    case (Inr row')
    from run [unfolded Inr] show ?thesis
    proof (cases rule: revoke_cert_Inr)
      case already
      then show ?thesis using run by (simp add: unchanged)
    next
      case (now row serial)
      then show ?thesis using run get_row_SomeD [OF now(1)] registry_write.revoked [OF _ now(5)] by simp
    qed
  qed
qed

lemma wf_revoke_row:
  assumes "wf_state s" and "revoke_row e rs row s = Inr (s', row')" and "row \<in> set (certificates s)"
  shows "wf_state s'"
proof -
  let ?row = "row\<lparr>crt_revoked := True, crt_revoked_at := Some (now e)\<rparr>"
  have "wf_state (s\<lparr>certificates := put_row crt_id ?row (certificates s)\<rparr>)"
    by (rule wf_put_certificate [OF assms(1,3)]) simp_all
  moreover obtain a x z where "persist e a x (s\<lparr>certificates := put_row crt_id ?row (certificates s)\<rparr>) = Inr (s', z)"
    using assms(2) unfolding revoke_row_def Let_def by (auto simp: rbind_Inr_iff)
  ultimately show ?thesis by (rule wf_persist)
qed

lemma wf_registry_write: "registry_write s s' \<Longrightarrow> wf_state s \<Longrightarrow> wf_state s'"
  by (cases rule: registry_write.cases, assumption) (auto intro: wf_insert_certificate wf_revoke_row)

lemma registry_write_frame: "registry_write s s' \<Longrightarrow> servers s' = servers s \<and> clients s' = clients s"
  by (cases rule: registry_write.cases, assumption) (auto simp: result_simps dest!: revoke_row_Inr)

section \<open>Witnesses\<close>

definition sample_cert_row :: certificate where
  "sample_cert_row = \<lparr>crt_id = 3, crt_tenant = Some 1, crt_serial = ''42'', crt_type = Cli, crt_operator_id = Some 3,
     crt_common_name = ''alice@wg.local'', crt_sans = ''alice@wg.local'', crt_not_before = 0, crt_not_after = seconds 3600,
     crt_revoked = False, crt_revoked_at = None, crt_created_at = 0, crt_out_cert_path = None, crt_out_key_path = None,
     crt_out_chain_path = None\<rparr>"

definition cert_db :: state where
  "cert_db = sample_db\<lparr>operators := [sample_operator], certificates := [sample_cert_row]\<rparr>"

definition dev_pki :: local_pki where
  "dev_pki = \<lparr>lp_root_cert = ''root'', lp_root_key = ''rk'', lp_int_cert = ''int'', lp_int_key = ''ik'', lp_revoked = {}\<rparr>"

definition sample_x509_lib :: x509 where
  "sample_x509_lib = \<lparr>x_now = 0, x_keys = \<lambda>n. ''key'', x_serials = \<lambda>n. 77, x_subject_of = id, x_sign = \<lambda>t k. Inr ''leaf'',
     x_sign_crl = \<lambda>i a b ns k. Inr ''crl'', x_load_cert = \<lambda>p. Inr (), x_load_key = \<lambda>p. Inr True, x_issued_by = \<lambda>a b. Inr ()\<rparr>"

definition dev_ops :: "local_pki pki_ops" where "dev_ops = local_ops sample_x509_lib"

definition no_pkcs12 :: pkcs12_builder where "no_pkcs12 c pw = Inr ''p12''"

lemma sample_revocation:
  "\<exists>s' p' row. revoke_cert dev_ops sample_env root_request 3 (cert_db, dev_pki) = ((s', p'), Inr row) \<and> crt_serial row = ''42''"
proof -
  let ?h = "revoke_cert dev_ops sample_env root_request 3 (cert_db, dev_pki)"
  have "case snd ?h of Inr row \<Rightarrow> crt_serial row = ''42'' | Inl _ \<Rightarrow> False" by code_simp
  moreover obtain s' p' r where "?h = ((s', p'), r)" by (metis prod.collapse)
  ultimately show ?thesis by (cases r) simp_all
qed

lemma cert_db_distinct: "distinct (map crt_id (certificates cert_db))" "distinct (map crt_serial (certificates cert_db))"
  by (simp_all add: cert_db_def)

theorem revoked_certificate_is_refused_witness:
  "\<exists>s' p' row. revoke_cert dev_ops sample_env root_request 3 (cert_db, dev_pki) = ((s', p'), Inr row) \<and>
     (\<forall>t lines frs. dispatch sample_settings sample_auth_env sample_scope s' \<noteq> Inr (t, lines, Forward frs)) \<and>
     revoke_cert dev_ops sample_env root_request 3 (s', p') = ((s', p'), Inr row)"
proof -
  obtain s' p' row where run: "revoke_cert dev_ops sample_env root_request 3 (cert_db, dev_pki) = ((s', p'), Inr row)"
    and serial: "crt_serial row = ''42''" using sample_revocation by blast
  have pre: "tls_required sample_settings \<and> \<not> registry_fails sample_auth_env \<and> \<not> is_health_path (sc_path sample_scope) \<and>
      sc_method sample_scope \<noteq> ''OPTIONS''" by code_simp
  have "case extract_subject_from_scope (au_load_pem sample_auth_env) sample_scope of
      Inr (Some subject) \<Rightarrow> str_of_int (cs_serial subject) = ''42'' | _ \<Rightarrow> False" by code_simp
  then obtain subject where "extract_subject_from_scope (au_load_pem sample_auth_env) sample_scope = Inr (Some subject)"
    "str_of_int (cs_serial subject) = crt_serial row" unfolding serial by (auto split: sum.splits option.splits)
  moreover have "certificates (au_interleave sample_auth_env s') = certificates s'" by (simp add: sample_auth_env_def)
  moreover note revoked_certificate_is_refused [OF run cert_db_distinct, where settings = sample_settings and
      ae = sample_auth_env and scope = sample_scope and subject = subject and ops' = dev_ops and e' = sample_env and q = p']
  ultimately show ?thesis using run pre by (intro exI [of _ s'] exI [of _ p'] exI [of _ row]) simp
qed

text \<open>
  The registry lookup fails open: while the database does not answer it, the very
  certificate whose row is marked revoked reaches the application.
\<close>

theorem registry_failure_admits_revoked:
  "case dispatch sample_settings (sample_auth_env\<lparr>registry_fails := True\<rparr>) sample_scope
       (cert_db\<lparr>certificates := [sample_cert_row\<lparr>crt_revoked := True\<rparr>]\<rparr>) of
     Inr (t, lines, Forward frs) \<Rightarrow> True | _ \<Rightarrow> False"
  by code_simp

definition sample_vault :: "unit vault" where
  "sample_vault = \<lparr>v_enable_pki = \<lambda>m l. returning (), v_tune_mount = \<lambda>m l. returning (), v_generate_root = \<lambda>m. returning (),
      v_generate_intermediate = \<lambda>m. returning ''csr'', v_sign_intermediate = \<lambda>m csr. returning ''pem'',
      v_set_signed = \<lambda>m c. returning (), v_role = \<lambda>m r q. returning (),
      v_issue = \<lambda>r cn ex m. returning \<lparr>vi_certificate = ''pem'', vi_private_key = ''key'', vi_serial_number = ''0a:1b'',
        vi_ca_chain = No_Chain, vi_issuing_ca = Some ''ca''\<rparr>,
      v_revoke = \<lambda>n m. returning (), v_get = \<lambda>path. returning None, v_validity = \<lambda>pem. Inr (0, 10)\<rparr>"

definition sample_vault_pki :: vault_pki where
  "sample_vault_pki = \<lparr>vp_root_mount = ''pki'', vp_int_mount = ''pki_int'', vp_server_role = ''server'', vp_client_role = ''client'',
     vp_ca_bundle_pem = ''ca''\<rparr>"

theorem renew_cert_keeps_identity_witness:
  "\<exists>w r. renew_cert (vault_ops sample_vault sample_vault_pki) no_pkcs12 sample_env root_request 3 (cert_db, ()) = (w, Inr r) \<and>
     crt_common_name (is_certificate r) = ''alice@wg.local'' \<and> crt_tenant (is_certificate r) = None"
proof -
  let ?h = "renew_cert (vault_ops sample_vault sample_vault_pki) no_pkcs12 sample_env root_request 3 (cert_db, ())"
  have "\<not> isl (snd ?h)" by code_simp
  then obtain s' p' r where run: "?h = ((s', p'), Inr r)" by (metis prod.collapse sum.collapse(2))
  have "get_row crt_id (certificates cert_db) 3 = Some sample_cert_row" by code_simp
  then show ?thesis using renew_cert_keeps_identity [OF run] run by (auto simp: sample_cert_row_def)
qed

theorem local_renewal_extends_window_witness:
  "\<exists>w r. renew_cert dev_ops no_pkcs12 sample_env root_request 3 (cert_db, dev_pki) = (w, Inr r) \<and>
     crt_not_after (is_certificate r) - crt_not_before (is_certificate r) = seconds 3660"
proof -
  let ?h = "renew_cert dev_ops no_pkcs12 sample_env root_request 3 (cert_db, dev_pki)"
  have "\<not> isl (snd ?h)" by code_simp
  then obtain s' p' r where run: "?h = ((s', p'), Inr r)" by (metis prod.collapse sum.collapse(2))
  have "get_row crt_id (certificates cert_db) 3 = Some sample_cert_row" by code_simp
  from local_renewal_extends_window [OF run [unfolded dev_ops_def] this, of 3600] run show ?thesis
    by (simp add: sample_cert_row_def)
qed

end
