(* ===== verification/System.thy ===== *)
theory System
  imports Api Task_Props Cert_Props
begin

text \<open>
  The whole service as a step relation: one rule per endpoint that writes, per enrollment and
  per task body, each one committed transaction. Every step keeps the constraints of the
  database; steps whose reads see committed rows keep client addresses unique on every hub.
\<close>

section \<open>Combinators\<close>

lemma wf_atomically:
  assumes "wf_state s" and "\<And>s' x. tx s = Inr (s', x) \<Longrightarrow> wf_state s'"
  shows "wf_state (fst (atomically tx s))"
  using assms by (auto simp: atomically_def split: sum.splits)

lemma wf_andThen:
  assumes "wf_state (fst (m s))" and "\<And>s' x. m s = (s', Inr x) \<Longrightarrow> wf_state s' \<Longrightarrow> wf_state (fst (f x s'))"
  shows "wf_state (fst (andThen m f s))"
  using assms by (cases "m s") (auto simp: andThen_def split: sum.splits)

lemma wf_delay: "wf_state s \<Longrightarrow> wf_state (fst (delay e m s))"
  by (auto simp: delay_def wf_simps split: sum.splits)

lemma wf_servers_map:
  assumes "wf_state s" and "\<And>v. srv_id (f v) = srv_id v" and "\<And>v. srv_tenant (f v) = srv_tenant v"
    and "\<And>v. srv_ssh_key_id (f v) = srv_ssh_key_id v"
  shows "wf_state (s\<lparr>servers := upd_where P f (servers s)\<rparr>)"
proof -
  have "map srv_id (upd_where P f (servers s)) = map srv_id (servers s)" using assms(2) by (rule map_upd_where)
  then have "srv_id ` set (upd_where P f (servers s)) = srv_id ` set (servers s)" by (metis set_map)
  with \<open>map srv_id (upd_where P f (servers s)) = _\<close> show ?thesis
    using assms by (auto simp: wf_simps set_upd_where)
qed

lemma wf_request_reconfigure: "wf_state s \<Longrightarrow> wf_state (fst (request_reconfigure e sid s))"
  by (auto simp: request_reconfigure_def Let_def split: option.splits intro!: wf_delay wf_servers_map)

lemma wf_tokens_map:
  assumes "wf_state s" and "\<And>t. et_id (f t) = et_id t" and "\<And>t. et_tenant (f t) = et_tenant t"
    and "\<And>t. et_server_id (f t) = et_server_id t" and "\<And>t. et_ssh_key_id (f t) = et_ssh_key_id t"
    and "\<And>t. et_token_hash (f t) = et_token_hash t"
  shows "wf_state (s\<lparr>enrollment_tokens := upd_where P f (enrollment_tokens s)\<rparr>)"
  using assms by (auto simp: wf_simps set_upd_where map_upd_where)

lemma wf_tokens_filter: "wf_state s \<Longrightarrow> wf_state (s\<lparr>enrollment_tokens := filter P (enrollment_tokens s)\<rparr>)"
  by (auto simp: wf_simps distinct_map_filter)

lemma wf_mint_token:
  assumes "wf_state s" and "mint_token e entropy v k a s = Inr (s', row, token)" and "new_id e \<notin> et_id ` set (enrollment_tokens s)"
  shows "wf_state s'"
proof -
  have "et_id row \<notin> et_id ` set (enrollment_tokens s)" and s': "s' = s\<lparr>enrollment_tokens := enrollment_tokens s @ [row]\<rparr>"
    and r: "et_token_hash row \<notin> et_token_hash ` set (enrollment_tokens s)" "et_server_id row \<in> srv_id ` set (servers s)"
      "et_ssh_key_id row \<in> key_id ` set (ssh_keys s)" "ref_ok (ten_id ` set (tenants s)) (et_tenant row)"
    using assms(2,3) by (auto simp: mint_token_Inr new_token_row_def)
  then show ?thesis using assms(1) r unfolding s' by (simp add: wf_simps)
qed

section \<open>Handlers\<close>

text \<open>The key the database assigns to an inserted row is new in every table a handler inserts into.\<close>

definition fresh_id :: "env \<Rightarrow> state \<Rightarrow> bool" where
  "fresh_id e s \<longleftrightarrow> new_id e \<notin> ten_id ` set (tenants s) \<union> key_id ` set (ssh_keys s) \<union> srv_id ` set (servers s) \<union>
     cli_id ` set (clients s) \<union> ot_id ` set (operator_tenants s) \<union> et_id ` set (enrollment_tokens s)"

lemma new_row_ids [simp]:
  "srv_id (new_server e p t n) = new_id e" "key_id (new_ssh_key e kp t) = new_id e" "cli_id (new_client e cp a) = new_id e"
  "cli_id (new_manual_client e name sid pub a) = new_id e" "ten_id (new_tenant e b) = new_id e"
  by (simp_all add: new_server_def new_ssh_key_def new_client_def new_manual_client_def new_tenant_def)

lemma wf_handler:
  assumes "wf_state s" and "\<And>s' x. h s = (s', Inl x) \<Longrightarrow> s' = s" and "\<And>s' y. h s = (s', Inr y) \<Longrightarrow> wf_state s'"
  shows "wf_state (fst (h s))"
proof (cases "h s")
  case (Pair s' r)
  then show ?thesis using assms by (cases r) auto
qed

lemma fresh_idD:
  assumes "fresh_id e s"
  shows "new_id e \<notin> ten_id ` set (tenants s)" "new_id e \<notin> key_id ` set (ssh_keys s)" "new_id e \<notin> srv_id ` set (servers s)"
    "new_id e \<notin> cli_id ` set (clients s)" "new_id e \<notin> ot_id ` set (operator_tenants s)" "new_id e \<notin> et_id ` set (enrollment_tokens s)"
  using assms by (auto simp: fresh_id_def)

lemma wf_insert_new:
  assumes "wf_state s" and "fresh_id e s"
  shows "insert_server (new_server e p t n) s = Inr s' \<Longrightarrow> wf_state s'"
    and "insert_client (new_client e cp a) s = Inr s' \<Longrightarrow> wf_state s'"
    and "insert_client (new_manual_client e name sid pub a) s = Inr s' \<Longrightarrow> wf_state s'"
    and "insert_ssh_key (new_ssh_key e kp t) s = Inr s' \<Longrightarrow> wf_state s'"
    and "insert_tenant (new_tenant e b) s = Inr s' \<Longrightarrow> wf_state s'"
  using wf_insert [OF assms(1)] fresh_idD [OF assms(2)] by auto

lemma wf_register_server:
  assumes "wf_state s" and "fresh_id e s"
  shows "wf_state (fst (register_server e encrypt d rs scope p s))"
  unfolding register_server_def
proof (rule wf_andThen)
  show "wf_state (fst (register_server_tx e d rs scope p s))"
  proof (rule wf_handler [OF assms(1)])
    fix s' y assume "register_server_tx e d rs scope p s = (s', Inr y)"
    then show "wf_state s'"
      by (auto simp: register_server_tx_def atomically_Inr_iff rbind_Inr_iff Let_def
          intro: wf_persist wf_insert_new(1) [OF assms])
  qed (simp add: register_server_tx_def atomically_Inl_iff)
qed (auto intro!: wf_andThen wf_delay split: sum.splits)

lemma wf_create_ssh_key:
  assumes "wf_state s" and "fresh_id e s"
  shows "wf_state (fst (create_ssh_key e rs scope p s))"
proof (rule wf_handler [OF assms(1)])
  fix s' y assume "create_ssh_key e rs scope p s = (s', Inr y)"
  then show "wf_state s'"
    by (auto simp: create_ssh_key_def atomically_Inr_iff rbind_Inr_iff Let_def
        intro: wf_persist wf_insert_new(4) [OF assms])
qed (simp add: create_ssh_key_def atomically_Inl_iff)

lemma wf_update_ssh_key: "wf_state s \<Longrightarrow> wf_state (fst (update_ssh_key scope i name s))"
  using key_updates.failed update_ssh_key_Inr wf_save(3) by (intro wf_handler) blast+

lemma wf_delete_ssh_key: "wf_state s \<Longrightarrow> wf_state (fst (delete_ssh_key scope i s))"
  using key_deletes.failed delete_ssh_key_Inr wf_delete(2) by (intro wf_handler) blast+

lemma wf_update_server:
  assumes "wf_state s"
  shows "wf_state (fst (update_server e rs scope i u s))"
proof (rule wf_handler [OF assms])
  fix s' y assume "update_server e rs scope i u s = (s', Inr y)"
  then show "wf_state s'"
    by (auto simp: update_server_def atomically_Inr_iff rbind_Inr_iff Let_def intro: wf_persist wf_save(1) [OF assms])
qed (rule server_updates.failed)

lemma wf_delete_server:
  assumes "wf_state s"
  shows "wf_state (fst (delete_server scope i force s))"
proof (rule wf_handler [OF assms])
  fix s' y assume "delete_server scope i force s = (s', Inr y)"
  then have "delete_server_row i (if force then s\<lparr>clients := filter (\<lambda>c. cli_server_id c \<noteq> i) (clients s),
                   discovered_peers := filter (\<lambda>p. dp_server_id p \<noteq> i) (discovered_peers s)\<rparr> else s) = Inr s'"
    by (auto simp: delete_server_def atomically_Inr_iff rbind_Inr_iff Let_def)
  then show "wf_state s'" using assms
    by (cases force) (auto intro: wf_delete(1) [OF wf_delete(3) [OF assms]] wf_delete(1))
qed (rule server_deletes.failed)

lemma wf_reprovision_server:
  assumes "wf_state s"
  shows "wf_state (fst (reprovision_server e i s))"
  unfolding reprovision_server_def
  by (intro wf_andThen wf_atomically [OF assms] wf_delay)
    (auto simp: rbind_Inr_iff Let_def dest: wf_save(1) [OF assms])

lemma wf_server_dispatch:
  assumes "wf_state s"
  shows "wf_state (fst (discover_server_peers e i s))" "wf_state (fst (rotate_server_host_cert e i s))"
    "wf_state (fst (discover_all_servers e s))"
  using assms by (auto simp: discover_server_peers_def rotate_server_host_cert_def discover_all_servers_def Let_def
      split: option.splits intro!: wf_andThen wf_delay)


lemma wf_register_client:
  assumes "wf_state s" and "fresh_id e s"
  shows "wf_state (fst (register_client e encrypt p s))"
  unfolding register_client_def
proof (rule wf_andThen)
  show "wf_state (fst (register_client_tx e p s))"
    unfolding register_client_tx_def
    by (rule wf_atomically [OF assms(1)]) (auto simp: rbind_Inr_iff Let_def intro: wf_insert_new(2) [OF assms])
qed (auto intro!: wf_andThen wf_delay split: sum.splits)

lemma wf_register_manual_client:
  assumes "wf_state s" and "fresh_id e s"
  shows "wf_state (fst (register_manual_client e keys name sid s))"
  unfolding register_manual_client_def
proof (rule wf_andThen)
  show "wf_state (fst (register_manual_client_tx e keys name sid s))"
    unfolding register_manual_client_tx_def
    by (rule wf_atomically [OF assms(1)]) (auto simp: rbind_Inr_iff Let_def intro: wf_insert_new(3) [OF assms])
qed (auto intro!: wf_andThen wf_request_reconfigure split: sum.splits)

lemma wf_update_client: "wf_state s \<Longrightarrow> wf_state (fst (update_client scope i u s))"
  using client_updates.failed update_client_Inr wf_save(2) by (intro wf_handler) blast+

lemma wf_del_client:
  assumes "wf_state s"
  shows "wf_state (s\<lparr>clients := del_row cli_id i (clients s)\<rparr>)"
  using wf_delete(3) [OF assms, of "\<lambda>_. True" "\<lambda>c. cli_id c \<noteq> i"] by (simp add: del_row_def)

lemma wf_delete_client:
  assumes "wf_state s"
  shows "wf_state (fst (delete_client e rs scope i s))"
  unfolding delete_client_def
proof (rule wf_andThen)
  show "wf_state (fst (delete_client_tx e rs scope i s))"
    unfolding delete_client_tx_def
    by (rule wf_atomically [OF assms]) (auto simp: rbind_Inr_iff intro: wf_persist [OF wf_del_client [OF assms]])
qed (auto intro!: wf_andThen wf_request_reconfigure)

lemma wf_reprovision_client:
  assumes "wf_state s"
  shows "wf_state (fst (reprovision_client e i s))"
  unfolding reprovision_client_def
  by (intro wf_andThen wf_atomically [OF assms] wf_delay)
    (auto simp: rbind_Inr_iff Let_def dest: wf_save(2) [OF assms])

lemma wf_rotate_client: "wf_state s \<Longrightarrow> wf_state (fst (rotate_client_host_cert e i s))"
  by (auto simp: rotate_client_host_cert_def split: option.splits intro!: wf_andThen wf_delay)

lemma wf_create_tenant:
  assumes "wf_state s" and "fresh_id e s"
  shows "wf_state (fst (create_tenant e rs b s))"
  unfolding create_tenant_def
  by (rule wf_atomically [OF assms(1)]) (auto simp: rbind_Inr_iff intro: wf_insert_new(5) [OF assms])

lemma wf_update_tenant:
  assumes "wf_state s"
  shows "wf_state (fst (update_tenant rs slug pool s))"
  unfolding update_tenant_def
  by (rule wf_atomically [OF assms]) (auto simp: rbind_Inr_iff Let_def intro: wf_save(4) [OF assms])

lemma wf_attach_operator:
  assumes "wf_state s" and "fresh_id e s"
  shows "wf_state (fst (attach_operator e rs slug cn role s))"
proof (rule wf_handler [OF assms(1)])
  fix s' y assume "attach_operator e rs slug cn role s = (s', Inr y)"
  then obtain j where "insert_join j s = Inr s'" "ot_id j = new_id e" using attach_operator_Inr by metis
  then show "wf_state s'" using wf_insert(5) [OF assms(1)] fresh_idD(5) [OF assms(2)] by metis
qed (simp add: attach_operator_def atomically_Inl_iff)

lemma wf_detach_operator:
  assumes "wf_state s"
  shows "wf_state (fst (detach_operator rs slug cn s))"
  unfolding detach_operator_def
  by (rule wf_atomically [OF assms]) (auto simp: rbind_Inr_iff intro: wf_delete(4) [OF assms])

lemma wf_create_token:
  assumes "wf_state s" and "fresh_id e s"
  shows "wf_state (fst (create_enrollment_token e entropy rs scope p s))"
  unfolding create_enrollment_token_def
  by (rule wf_atomically [OF assms(1)])
    (auto simp: rbind_Inr_iff Let_def intro: wf_persist wf_mint_token [OF assms(1) _ fresh_idD(6) [OF assms(2)]])

lemma wf_revoke_token: "wf_state s \<Longrightarrow> wf_state (fst (revoke_token e row by_cn s))"
  by (auto simp: revoke_token_def intro!: wf_tokens_map)

lemma wf_revoke_enrollment_token:
  assumes "wf_state s"
  shows "wf_state (fst (revoke_enrollment_token e rs scope i s))"
  unfolding revoke_enrollment_token_def
proof (rule wf_atomically [OF assms])
  fix s' x
  assume "rbind (or_raise (get_row et_id (enrollment_tokens s) i) (HTTPException 404 ''Enrollment token not found'')) (\<lambda>row.
     rbind (require_tenant_role scope (et_tenant row) [Admin]) (\<lambda>_.
     let actor = actor_from_request rs; (s1, changed) = revoke_token e row (actor_cn actor) s in
     if \<not> changed then Inr (s, read_token e row)
     else let row' = row\<lparr>et_revoked_at := Some (now e), et_revoked_by_cn := actor_cn actor\<rparr> in
       rbind (persist e actor
          \<lparr>aa_event = ''enrollment_token.revoke'', aa_resource_type = ''enrollment_token'', aa_resource_id = Some (et_id row),
           aa_action = ''revoke'', aa_before = Some (token_json e row), aa_after = Some (token_json e row'),
           aa_payload = Some [(''server_id'', JInt (et_server_id row)), (''use_count'', JInt (et_use_count row))],
           aa_request_id = None, aa_tenant_id = et_tenant row\<rparr> s1)
         (\<lambda>(s2, _). Inr (s2, read_token e row')))) = Inr (s', x)"
  then show "wf_state s'"
    using assms wf_revoke_token [OF assms, of e _ "actor_cn (actor_from_request rs)"]
    by (auto simp: rbind_Inr_iff Let_def split_beta split: if_splits intro: wf_persist)
qed

lemma wf_sweep: "wf_state s \<Longrightarrow> wf_state (fst (delete_dead_tokens r t s))"
  by (auto simp: delete_dead_tokens_def Let_def intro: wf_tokens_filter)

lemma wf_enroll:
  assumes "wf_state s" and "fresh_id e s"
  shows "wf_state (fst (enroll e en rq acquired snap s))"
  unfolding enroll_def
proof (rule wf_andThen)
  show "wf_state (fst (enroll_tx e en rq acquired snap s))"
  proof (rule wf_handler [OF assms(1)])
    fix s' y assume a: "enroll_tx e en rq acquired snap s = (s', Inr y)"
    obtain row c v cert ca_pub where y: "y = (row, c, v, cert, ca_pub)" by (cases y)
    obtain p s1 s2 where s1: "consume_token row s = (s1, True)" and ad: "admit e en row p snap s1 = Inr (s2, c, v, cert, ca_pub)"
      and s': "\<exists>z. persist e no_actor (enroll_audit e rq row p c) s2 = Inr (s', z)"
      using a unfolding y enroll_tx_def
      by (auto simp: atomically_Inr_iff rbind_Inr_iff check_Inr_iff Let_def split_beta) (metis prod.collapse)
    have w1: "wf_state s1" using s1 wf_tokens_map [OF assms(1)] by (auto simp: consume_token_def)
    have "clients s1 = clients s" using s1 consume_token_frame(2) [of row s] by simp
    moreover have "insert_client c s1 = Inr s2" "cli_id c = new_id e"
      using admit_Inr [OF ad] by (auto simp: admitted_client_def)
    ultimately have "wf_state s2" using wf_insert(2) [OF w1] fresh_idD(4) [OF assms(2)] by metis
    then show "wf_state s'" using s' wf_persist by blast
  qed (simp add: enroll_tx_def atomically_Inl_iff)
qed (auto intro!: wf_andThen wf_request_reconfigure split: prod.splits)


section \<open>Tasks\<close>

lemma wf_clients_map:
  assumes "wf_state s" and "\<And>c. cli_id (f c) = cli_id c" and "\<And>c. cli_tenant (f c) = cli_tenant c" and "\<And>c. cli_name (f c) = cli_name c"
    and "\<And>c. cli_server_id (f c) = cli_server_id c" and "\<And>c. cli_ssh_key_id (f c) = cli_ssh_key_id c"
  shows "wf_state (s\<lparr>clients := upd_where P f (clients s)\<rparr>)"
  using assms by (auto simp: wf_simps set_upd_where map_upd_where)

lemma wf_provision_server_body:
  "wf_state (db w) \<Longrightarrow> wf_state (db (fst (provision_server_body te sid kw w)))"
  by (auto simp: provision_server_body_def modify_server_def Let_def split: option.splits prod.splits sum.splits
      intro!: wf_servers_map)

lemma wf_rotate_bodies:
  "wf_state (db w) \<Longrightarrow> wf_state (db (fst (rotate_host_cert_body te sid w)))"
  "wf_state (db w) \<Longrightarrow> wf_state (db (fst (rotate_client_host_cert_body te cid w)))"
  by (auto simp: rotate_host_cert_body_def rotate_client_host_cert_body_def modify_server_def modify_client_def
      split: option.splits prod.splits sum.splits bool.splits intro!: wf_servers_map wf_clients_map)

lemma wf_reconfigure_server_body:
  "wf_state (db w) \<Longrightarrow> wf_state (db (fst (reconfigure_server_body te sid g w)))"
  by (auto simp: reconfigure_server_body_def mark_applied_def Let_def split: option.splits prod.splits sum.splits
      intro!: wf_servers_map)

lemma wf_provision_client_body:
  "wf_state (db w) \<Longrightarrow> wf_state (db (fst (provision_client_body te cid kw w)))"
  by (auto simp: provision_client_body_def modify_client_def Let_def split: option.splits prod.splits sum.splits
      intro!: wf_clients_map)


lemma wf_peers:
  assumes "wf_state s" and "peer_keys_unique ps" and "\<And>p. p \<in> set ps \<Longrightarrow> dp_server_id p \<in> srv_id ` set (servers s)"
  shows "wf_state (s\<lparr>discovered_peers := ps\<rparr>)"
  using assms by (auto simp: wf_simps peer_keys_unique_def)

lemma wf_record_peers:
  assumes "wf_state s" and "sid \<in> srv_id ` set (servers s)"
  shows "wf_state (fst (record_peers e sid peers s))"
proof -
  obtain s' d where r: "record_peers e sid peers s = (s', d)" by (cases "record_peers e sid peers s")
  have "peer_keys_unique (discovered_peers s)" using assms(1) by (simp add: wf_simps peer_keys_unique_def)
  note spec = record_peers_spec [OF this r]
  have ref: "dp_server_id p \<in> srv_id ` set (servers s)" if "p \<in> set (discovered_peers s')" for p
  proof (cases "dp_server_id p = sid")
    case False
    then have "p \<in> set (discovered_peers s)" using spec that by blast
    then show ?thesis using assms(1) by (auto simp: wf_simps)
  qed (use assms(2) in simp)
  have "wf_state (s\<lparr>discovered_peers := discovered_peers s'\<rparr>)"
    using wf_peers [OF assms(1), of "discovered_peers s'"] spec ref by blast
  then show ?thesis using r spec by simp
qed

lemma wf_discover_peers_task:
  assumes "wf_state (db w)"
  shows "wf_state (db (fst (discover_peers_task te sid w)))"
proof (cases "get_row srv_id (servers (db w)) sid")
  case (Some v)
  then have "sid \<in> srv_id ` set (servers (db w))" using get_row_SomeD [OF Some] by auto
  from wf_record_peers [OF assms this] have "wf_state s'" if "record_peers e sid ps (db w) = (s', d)" for e ps s' d
    using that by (metis fst_conv)
  then show ?thesis
    using assms Some by (auto simp: discover_peers_task_def Let_def split: option.splits prod.splits sum.splits)
qed (simp add: discover_peers_task_def assms)

section \<open>The system as a step relation\<close>

text \<open>
  \<^term>\<open>stale\<close> allows an enrollment to read an older snapshot than the state it writes to. A task
  runs its body under the row lock; requesting a reconfigure is the step a client task ends
  with; a request to the certificate endpoints is any write they make.
\<close>

inductive system_step :: "bool \<Rightarrow> 'h task_env \<Rightarrow> 'h world \<Rightarrow> 'h world \<Rightarrow> bool" for stale :: bool and te :: "'h task_env" where
  create_ssh_key: "fresh_id e (db w) \<Longrightarrow> system_step stale te w (w\<lparr>db := fst (create_ssh_key e rs scope kp (db w))\<rparr>)"
| update_ssh_key: "system_step stale te w (w\<lparr>db := fst (update_ssh_key scope i name (db w))\<rparr>)"
| delete_ssh_key: "system_step stale te w (w\<lparr>db := fst (delete_ssh_key scope i (db w))\<rparr>)"
| register_server: "fresh_id e (db w) \<Longrightarrow> system_step stale te w (w\<lparr>db := fst (register_server e encrypt d rs scope sp (db w))\<rparr>)"
| update_server: "system_step stale te w (w\<lparr>db := fst (update_server e rs scope i su (db w))\<rparr>)"
| delete_server: "system_step stale te w (w\<lparr>db := fst (delete_server scope i force (db w))\<rparr>)"
| reprovision_server: "system_step stale te w (w\<lparr>db := fst (reprovision_server e i (db w))\<rparr>)"
| discover_server_peers: "system_step stale te w (w\<lparr>db := fst (discover_server_peers e i (db w))\<rparr>)"
| rotate_server_host_cert: "system_step stale te w (w\<lparr>db := fst (rotate_server_host_cert e i (db w))\<rparr>)"
| discover_all_servers: "system_step stale te w (w\<lparr>db := fst (discover_all_servers e (db w))\<rparr>)"
| register_client: "fresh_id e (db w) \<Longrightarrow> system_step stale te w (w\<lparr>db := fst (register_client e encrypt cp (db w))\<rparr>)"
| register_manual_client: "fresh_id e (db w) \<Longrightarrow> system_step stale te w (w\<lparr>db := fst (register_manual_client e keys name i (db w))\<rparr>)"
| update_client: "system_step stale te w (w\<lparr>db := fst (update_client scope i cu (db w))\<rparr>)"
| delete_client: "system_step stale te w (w\<lparr>db := fst (delete_client e rs scope i (db w))\<rparr>)"
| reprovision_client: "system_step stale te w (w\<lparr>db := fst (reprovision_client e i (db w))\<rparr>)"
| rotate_client_host_cert: "system_step stale te w (w\<lparr>db := fst (rotate_client_host_cert e i (db w))\<rparr>)"
| create_tenant: "fresh_id e (db w) \<Longrightarrow> system_step stale te w (w\<lparr>db := fst (create_tenant e rs tc (db w))\<rparr>)"
| update_tenant: "system_step stale te w (w\<lparr>db := fst (update_tenant rs slug pool (db w))\<rparr>)"
| attach_operator: "fresh_id e (db w) \<Longrightarrow> system_step stale te w (w\<lparr>db := fst (attach_operator e rs slug cn role (db w))\<rparr>)"
| detach_operator: "system_step stale te w (w\<lparr>db := fst (detach_operator rs slug cn (db w))\<rparr>)"
| create_enrollment_token: "fresh_id e (db w) \<Longrightarrow>
    system_step stale te w (w\<lparr>db := fst (create_enrollment_token e entropy rs scope tp (db w))\<rparr>)"
| revoke_enrollment_token: "system_step stale te w (w\<lparr>db := fst (revoke_enrollment_token e rs scope i (db w))\<rparr>)"
| enroll: "fresh_id e (db w) \<Longrightarrow> stale \<or> snap = db w \<Longrightarrow>
    system_step stale te w (w\<lparr>db := fst (enroll e en rq acquired snap (db w))\<rparr>)"
| provision_server_body: "system_step stale te w (fst (provision_server_body te i kw w))"
| rotate_host_cert_body: "system_step stale te w (fst (rotate_host_cert_body te i w))"
| rotate_client_host_cert_body: "system_step stale te w (fst (rotate_client_host_cert_body te i w))"
| reconfigure_server_body: "system_step stale te w (fst (reconfigure_server_body te i g w))"
| provision_client_body: "system_step stale te w (fst (provision_client_body te i kw w))"
| request_reconfigure: "system_step stale te w (w\<lparr>db := fst (request_reconfigure e i (db w))\<rparr>)"
| discover_peers_task: "system_step stale te w (fst (discover_peers_task te i w))"
| certificate_request: "registry_write (db w) s' \<Longrightarrow> system_step stale te w (w\<lparr>db := s'\<rparr>)"
| sweep_enrollment_tokens_task: "system_step stale te w (w\<lparr>db := fst (sweep_enrollment_tokens_task te (db w))\<rparr>)"

lemmas wf_handlers = wf_create_ssh_key wf_update_ssh_key wf_delete_ssh_key wf_register_server wf_update_server wf_delete_server
  wf_reprovision_server wf_server_dispatch wf_register_client wf_register_manual_client wf_update_client wf_delete_client
  wf_reprovision_client wf_rotate_client wf_create_tenant wf_update_tenant wf_attach_operator wf_detach_operator wf_create_token
  wf_revoke_enrollment_token wf_enroll wf_provision_server_body wf_rotate_bodies wf_reconfigure_server_body wf_provision_client_body
  wf_request_reconfigure wf_discover_peers_task wf_sweep

lemma system_step_wf: "system_step stale te w w' \<Longrightarrow> wf_state (db w) \<Longrightarrow> wf_state (db w')"
  by (induction rule: system_step.induct)
    (simp_all add: wf_handlers sweep_enrollment_tokens_task_def, blast intro: wf_registry_write)

text \<open>
  in every state the service can reach from a well-formed database, primary keys and
  unique columns are unique and every reference points at a row.
\<close>

theorem system_keeps_constraints:
  assumes "(system_step stale te)\<^sup>*\<^sup>* w w'" and "wf_state (db w)"
  shows "wf_state (db w')"
  using assms by (induction rule: rtranclp_induct) (auto intro: system_step_wf)


section \<open>The address plan\<close>

lemma plan_atomically:
  assumes "\<And>s' x. tx s = Inr (s', x) \<Longrightarrow> plan_le s' s"
  shows "plan_le (fst (atomically tx s)) s"
  using assms by (auto simp: atomically_def plan_le_refl split: sum.splits)

lemma plan_andThen:
  assumes "plan_le (fst (m s)) s" and "\<And>s' x. m s = (s', Inr x) \<Longrightarrow> plan_le (fst (f x s')) s'"
  shows "plan_le (fst (andThen m f s)) s"
  using assms by (cases "m s") (auto simp: andThen_def split: sum.splits intro: plan_le_trans)

lemma plan_same:
  assumes "servers s' = servers s" and "clients s' = clients s"
  shows "plan_le s' s"
  using assms by (simp add: plan_le_def plan_of_def)

lemma plan_delay: "plan_le (fst (delay e m s)) s"
  by (auto simp: delay_def intro!: plan_same split: sum.splits)

lemma plan_servers_map:
  assumes "\<And>v. srv_id (f v) = srv_id v" and "\<And>v. srv_address (f v) = srv_address v"
  shows "plan_le (s\<lparr>servers := upd_where P f (servers s)\<rparr>) s"
  using assms by (auto simp: plan_le_def plan_of_def set_upd_where image_iff) metis+

lemma plan_clients_map:
  assumes "\<And>c. cli_server_id (f c) = cli_server_id c" and "\<And>c. cli_address (f c) = cli_address c"
  shows "plan_le (s\<lparr>clients := upd_where P f (clients s)\<rparr>) s"
  using assms by (simp add: plan_le_def plan_of_def map_upd_where)

lemma plan_request_reconfigure: "plan_le (fst (request_reconfigure e sid s)) s"
  by (auto simp: request_reconfigure_def Let_def plan_le_refl split: option.splits
      intro!: plan_le_trans [OF plan_delay plan_servers_map])

lemma plan_persist: "persist e a x s = Inr (s', r) \<Longrightarrow> plan_le s' s"
  by (cases r) (auto simp: persist_Inr intro!: plan_same)

lemma plan_save_server:
  assumes "save_server v s = Inr s'" and "r \<in> set (servers s)" and "srv_id v = srv_id r" and "srv_address v = srv_address r"
  shows "plan_le s' s"
  using assms by (auto simp: save_simps plan_le_def plan_of_def in_put_row)

lemma plan_save_client:
  assumes "wf_state s" and "save_client c s = Inr s'" and "r \<in> set (clients s)" and "cli_id c = cli_id r"
    and "cli_server_id c = cli_server_id r" and "cli_address c = cli_address r"
  shows "plan_le s' s"
proof -
  have "map (\<lambda>c. (cli_server_id c, cli_address c)) (put_row cli_id c (clients s)) = map (\<lambda>c. (cli_server_id c, cli_address c)) (clients s)"
    using assms(3-6) distinct_map_eq [OF wf_distinct_ids(2) [OF assms(1)] _ assms(3)] by (auto simp: put_row_def)
  then show ?thesis using assms(2) by (auto simp: save_simps plan_le_def plan_of_def)
qed

lemma plan_handler:
  assumes "\<And>s' x. h s = (s', Inl x) \<Longrightarrow> s' = s" and "\<And>s' y. h s = (s', Inr y) \<Longrightarrow> plan_le s' s"
  shows "plan_le (fst (h s)) s"
proof (cases "h s")
  case (Pair s' r)
  then show ?thesis using assms by (cases r) (auto simp: plan_le_refl)
qed

lemma plan_update_server: "plan_le (fst (update_server e rs scope i u s)) s"
proof (rule plan_handler)
  fix s' y assume "update_server e rs scope i u s = (s', Inr y)"
  from update_server_Inr [OF this] obtain row where row: "gated_row ''Server'' srv_tenant scope (get_row srv_id (servers s) i) = Inr row"
    and y: "y = apply_server_update u row" and s': "servers s' = put_row srv_id y (servers s)" "clients s' = clients s" by blast
  have "srv_address y = srv_address row" by (simp add: y apply_server_update_def opt_set_def split: option.splits)
  then show "plan_le s' s" using gated_row_member [OF row] s' y by (auto simp: plan_le_def plan_of_def in_put_row)
qed (rule server_updates.failed)

lemma plan_delete_server: "plan_le (fst (delete_server scope i force s)) s"
proof (rule plan_handler)
  fix s' y assume "delete_server scope i force s = (s', Inr y)"
  from delete_server_Inr [OF this]
  have "servers s' = del_row srv_id i (servers s)" "clients s' = filter (\<lambda>c. cli_server_id c \<noteq> i) (clients s)" by blast+
  then show "plan_le s' s" by (auto simp: plan_le_def plan_of_def del_row_def intro!: subseq_map)
qed (rule server_deletes.failed)

lemma plan_update_client:
  assumes "wf_state s"
  shows "plan_le (fst (update_client scope i u s)) s"
proof (rule plan_handler)
  fix s' y assume "update_client scope i u s = (s', Inr y)"
  from update_client_Inr [OF this] obtain row where row: "gated_row ''Client'' cli_tenant scope (get_row cli_id (clients s) i) = Inr row"
    and y: "y = apply_client_update u row" "save_client y s = Inr s'" by blast
  show "plan_le s' s" by (rule plan_save_client [OF assms y(2)]) (use gated_row_member [OF row] y(1) in simp_all)
qed (rule client_updates.failed)

lemma plan_delete_client: "plan_le (fst (delete_client e rs scope i s)) s"
  unfolding delete_client_def
proof (rule plan_andThen)
  show "plan_le (fst (delete_client_tx e rs scope i s)) s"
  proof (rule plan_handler)
    fix s' y assume "delete_client_tx e rs scope i s = (s', Inr y)"
    from delete_client_tx_Inr [OF this] show "plan_le s' s"
      by (auto simp: plan_le_def plan_of_def del_row_def intro!: subseq_map)
  qed (rule client_deletes.failed)
qed (auto intro!: plan_andThen plan_request_reconfigure simp: plan_le_refl)

lemma plan_dispatch:
  "plan_le (fst (discover_server_peers e i s)) s" "plan_le (fst (rotate_server_host_cert e i s)) s"
  "plan_le (fst (discover_all_servers e s)) s" "plan_le (fst (rotate_client_host_cert e i s)) s"
  by (auto simp: discover_server_peers_def rotate_server_host_cert_def discover_all_servers_def rotate_client_host_cert_def
      Let_def plan_le_refl split: option.splits intro!: plan_andThen plan_delay)

lemma plan_reprovision:
  assumes "wf_state s"
  shows "plan_le (fst (reprovision_server e i s)) s" and "plan_le (fst (reprovision_client e i s)) s"
proof -
  show "plan_le (fst (reprovision_server e i s)) s"
    unfolding reprovision_server_def
    by (intro plan_andThen plan_atomically plan_delay)
      (auto simp: rbind_Inr_iff or_raise_Inr_iff Let_def plan_le_refl dest!: get_row_SomeD intro: plan_save_server)
  show "plan_le (fst (reprovision_client e i s)) s"
    unfolding reprovision_client_def
    by (intro plan_andThen plan_atomically plan_delay)
      (auto simp: rbind_Inr_iff or_raise_Inr_iff Let_def plan_le_refl dest!: get_row_SomeD intro: plan_save_client [OF assms])
qed

text \<open>Handlers and tasks that write neither table.\<close>

lemma plan_other_tables:
  "plan_le (fst (create_ssh_key e rs scope kp s)) s" "plan_le (fst (update_ssh_key scope i name s)) s"
  "plan_le (fst (delete_ssh_key scope i s)) s" "plan_le (fst (create_tenant e rs tc s)) s"
  "plan_le (fst (update_tenant rs slug pool s)) s" "plan_le (fst (attach_operator e rs slug cn role s)) s"
  "plan_le (fst (detach_operator rs slug cn s)) s" "plan_le (fst (create_enrollment_token e entropy rs scope tp s)) s"
  subgoal unfolding create_ssh_key_def by (rule plan_atomically) (auto simp: rbind_Inr_iff Let_def insert_simps persist_Inr intro!: plan_same)
  subgoal unfolding update_ssh_key_def by (rule plan_atomically) (auto simp: rbind_Inr_iff Let_def save_simps intro!: plan_same)
  subgoal unfolding delete_ssh_key_def by (rule plan_atomically) (auto simp: rbind_Inr_iff delete_simps intro!: plan_same)
  subgoal unfolding create_tenant_def by (rule plan_atomically) (auto simp: rbind_Inr_iff insert_simps intro!: plan_same)
  subgoal unfolding update_tenant_def by (rule plan_atomically) (auto simp: rbind_Inr_iff Let_def save_simps intro!: plan_same)
  subgoal unfolding attach_operator_def by (rule plan_atomically) (auto simp: rbind_Inr_iff Let_def insert_simps intro!: plan_same)
  subgoal unfolding detach_operator_def by (rule plan_atomically) (auto simp: rbind_Inr_iff intro!: plan_same)
  subgoal unfolding create_enrollment_token_def
    by (rule plan_atomically) (auto simp: rbind_Inr_iff Let_def mint_token_Inr persist_Inr intro!: plan_same)
  done

lemma plan_revoke: "plan_le (fst (revoke_enrollment_token e rs scope i s)) s"
proof (rule plan_handler)
  fix s' y assume "revoke_enrollment_token e rs scope i s = (s', Inr y)"
  then have "servers s' = servers s \<and> clients s' = clients s"
    unfolding revoke_enrollment_token_def revoke_token_def
    by (auto simp: atomically_Inr_iff rbind_Inr_iff Let_def persist_Inr split: if_splits)
  then show "plan_le s' s" by (simp add: plan_same)
qed (simp add: revoke_enrollment_token_def atomically_Inl_iff)

lemma plan_task_bodies:
  "plan_le (db (fst (provision_server_body te i kw w))) (db w)" "plan_le (db (fst (rotate_host_cert_body te i w))) (db w)"
  "plan_le (db (fst (rotate_client_host_cert_body te i w))) (db w)" "plan_le (db (fst (reconfigure_server_body te i g w))) (db w)"
  "plan_le (db (fst (provision_client_body te i kw w))) (db w)"
  by (auto simp: provision_server_body_def rotate_host_cert_body_def rotate_client_host_cert_body_def reconfigure_server_body_def
      provision_client_body_def modify_server_def modify_client_def mark_applied_def Let_def plan_le_refl
      split: option.splits prod.splits sum.splits bool.splits intro!: plan_servers_map plan_clients_map)

lemma plan_other_tasks:
  "plan_le (db (fst (discover_peers_task te i w))) (db w)" "plan_le (fst (sweep_enrollment_tokens_task te s)) s"
  by (auto simp: discover_peers_task_def record_peers_def sweep_enrollment_tokens_task_def delete_dead_tokens_def Let_def
      split: option.splits prod.splits sum.splits intro!: plan_same)

text \<open>The four ways a row joins the plan.\<close>

lemma unique_andThen:
  assumes "\<And>s' x. m s = (s', Inl x) \<Longrightarrow> addresses_unique s'" and "\<And>s' x. m s = (s', Inr x) \<Longrightarrow> addresses_unique s'"
    and "\<And>s' x. plan_le (fst (f x s')) s'"
  shows "addresses_unique (fst (andThen m f s))"
proof (cases "m s")
  case (Pair s' r)
  show ?thesis
  proof (cases r)
    case (Inr x)
    then have "addresses_unique s'" using assms(2) Pair by blast
    then show ?thesis using Pair Inr plan_le_unique [OF assms(3)] by (simp add: andThen_def)
  qed (use Pair assms(1) in \<open>auto simp: andThen_def\<close>)
qed

lemma unique_new_server:
  assumes "wf_state s" and "addresses_unique s" and "servers s' = servers s @ [v]" and "clients s' = clients s"
    and "srv_id v \<notin> srv_id ` set (servers s)"
  shows "addresses_unique s'"
proof -
  have "stored_hosts s' w = stored_hosts s w" for w by (simp add: stored_hosts_plan plan_of_def assms(4))
  moreover have "stored_hosts s v = []"
    using assms(1,5) by (auto simp: stored_hosts_def client_addresses_def wf_simps filter_empty_conv) (metis)
  ultimately show ?thesis using assms(2) by (simp add: addresses_unique_def list_all_iff assms(3))
qed

lemma unique_register_server:
  assumes "wf_state s" and "fresh_id e s" and "addresses_unique s"
  shows "addresses_unique (fst (register_server e encrypt d rs scope p s))"
  unfolding register_server_def
proof (rule unique_andThen)
  fix s' y assume "register_server_tx e d rs scope p s = (s', Inr y)"
  from register_server_tx_Inr [OF this]
  have "servers s' = servers s @ [y]" "clients s' = clients s" "srv_id y = new_id e" by auto
  then show "addresses_unique s'" using unique_new_server [OF assms(1,3)] fresh_idD(3) [OF assms(2)] by simp
next
  fix s' x assume "register_server_tx e d rs scope p s = (s', Inl x)"
  then show "addresses_unique s'" using assms(3) by (simp add: register_server_tx_def atomically_Inl_iff)
qed (auto intro!: plan_andThen plan_delay simp: plan_le_refl split: sum.splits)

lemma unique_new_client:
  assumes "wf_state s" and "addresses_unique s" and "allocate_client_ip s v = Inr a" and "get_row srv_id (servers s) i = Some v"
    and "insert_client c s = Inr s'" and "cli_server_id c = i" and "cli_address c = ip4_str a @ ''/32''"
  shows "addresses_unique s'"
  using allocation_keeps_unique [OF wf_distinct_ids(1) [OF assms(1)] assms(2,3), of s' c] get_row_SomeD [OF assms(4)] assms(5-7)
  by (simp add: insert_client_Inr)

lemma unique_register_client:
  assumes "wf_state s" and "addresses_unique s"
  shows "addresses_unique (fst (register_client e encrypt p s))"
  unfolding register_client_def
proof (rule unique_andThen)
  fix s' y assume "register_client_tx e p s = (s', Inr y)"
  then obtain v a where "get_row srv_id (servers s) (cc_server_id p) = Some v" "allocate_client_ip s v = Inr a"
    "insert_client (new_client e p a) s = Inr s'"
    by (auto simp: register_client_tx_def atomically_Inr_iff rbind_Inr_iff or_raise_Inr_iff allocate_client_Inr Let_def)
  then show "addresses_unique s'" using unique_new_client [OF assms] by (simp add: new_client_def)
next
  fix s' x assume "register_client_tx e p s = (s', Inl x)"
  then show "addresses_unique s'" using assms(2) by (simp add: register_client_tx_def atomically_Inl_iff)
qed (auto intro!: plan_andThen plan_delay simp: plan_le_refl split: sum.splits)

lemma unique_register_manual_client:
  assumes "wf_state s" and "addresses_unique s"
  shows "addresses_unique (fst (register_manual_client e keys name sid s))"
  unfolding register_manual_client_def
proof (rule unique_andThen)
  fix s' y assume "register_manual_client_tx e keys name sid s = (s', Inr y)"
  then obtain v a where "get_row srv_id (servers s) sid = Some v" "allocate_client_ip s v = Inr a"
    "insert_client (new_manual_client e name sid (snd keys) a) s = Inr s'"
    by (auto simp: register_manual_client_tx_def atomically_Inr_iff rbind_Inr_iff or_raise_Inr_iff allocate_client_Inr Let_def)
  then show "addresses_unique s'" using unique_new_client [OF assms] by (simp add: new_manual_client_def)
next
  fix s' x assume "register_manual_client_tx e keys name sid s = (s', Inl x)"
  then show "addresses_unique s'" using assms(2) by (simp add: register_manual_client_tx_def atomically_Inl_iff)
qed (auto intro!: plan_andThen plan_request_reconfigure simp: plan_le_refl split: sum.splits)

lemma unique_enroll:
  assumes "wf_state s" and "addresses_unique s"
  shows "addresses_unique (fst (enroll e en rq acquired s s))"
  unfolding enroll_def
proof (rule unique_andThen)
  fix s' y assume t: "enroll_tx e en rq acquired s s = (s', Inr y)"
  obtain row c v cert ca_pub where y: "y = (row, c, v, cert, ca_pub)" by (cases y)
  note tx = t [unfolded y]
  obtain p a where a: "allocate_client_ip s v = Inr a" "c = admitted_client e row p v a cert ca_pub"
    "get_row srv_id (servers s) (et_server_id row) = Some v"
    using enroll_tx_client [OF tx] by blast
  show "addresses_unique s'"
    using allocation_keeps_unique [OF wf_distinct_ids(1) [OF assms(1)] assms(2) a(1), of s' c] get_row_SomeD [OF a(3)] a(2)
      enroll_tx_tables [OF wf_distinct_ids(4) [OF assms(1)] tx] by (simp add: admitted_client_def)
next
  fix s' x assume "enroll_tx e en rq acquired s s = (s', Inl x)"
  then show "addresses_unique s'" using assms(2) by (simp add: enroll_tx_def atomically_Inl_iff)
qed (auto intro!: plan_andThen plan_request_reconfigure simp: plan_le_refl split: prod.splits)

lemma plan_registry_write: "registry_write s s' \<Longrightarrow> plan_le s' s"
  by (drule registry_write_frame) (simp add: plan_same)

lemmas plan_steps = plan_update_server plan_delete_server plan_update_client plan_delete_client plan_dispatch plan_reprovision
  plan_other_tables plan_revoke plan_task_bodies plan_other_tasks plan_request_reconfigure

lemmas unique_steps = plan_steps [THEN plan_le_unique] unique_register_server unique_register_client
  unique_register_manual_client unique_enroll

lemma system_step_unique:
  "system_step False te w w' \<Longrightarrow> wf_state (db w) \<Longrightarrow> addresses_unique (db w) \<Longrightarrow> addresses_unique (db w')"
  by (induction rule: system_step.induct)
    (simp_all add: unique_steps, blast intro: plan_registry_write plan_le_unique)

text \<open>
  C4: from a well-formed database without a shared address, over any serial history of the
  endpoints, enrollments and tasks (one transaction after the other, each reading the rows
  committed before it), no state has two clients of one hub, or a client and its hub, with the
  same address. Overlapping transactions are excluded, and have to be: an allocation from an
  older snapshot can repeat an address (\<^verbatim>\<open>stale_snapshot_duplicates_address\<close>), and the two client
  endpoints take no lock.
\<close>

theorem system_keeps_addresses_unique:
  assumes "(system_step False te)\<^sup>*\<^sup>* w w'" and "wf_state (db w)" and "addresses_unique (db w)"
  shows "addresses_unique (db w')"
proof -
  have "wf_state (db w') \<and> addresses_unique (db w')"
    using assms by (induction rule: rtranclp_induct) (auto intro: system_step_wf system_step_unique)
  then show ?thesis by blast
qed


definition sample_world :: "unit world" where
  "sample_world = \<lparr>db = sample_db, remote = ()\<rparr>"

lemma wf_sample_world: "wf_state (db sample_world)" "addresses_unique (db sample_world)"
proof -
  show "wf_state (db sample_world)" by (simp add: sample_world_def wf_simps sample_rows)
  have "addresses_unique sample_db" by code_simp
  then show "addresses_unique (db sample_world)" by (simp add: sample_world_def)
qed

definition sample_world2 :: "unit world" where
  "sample_world2 = sample_world\<lparr>db := fst (register_manual_client sample_env (''priv'', ''pub'') ''phone'' 1 (db sample_world))\<rparr>"

lemma sample_run: "(system_step False quiet_env)\<^sup>*\<^sup>* sample_world (sample_world2\<lparr>db := fst (delete_client sample_env anonymous_request unscoped 1 (db sample_world2))\<rparr>)"
proof -
  have "fresh_id sample_env (db sample_world)" by (simp add: fresh_id_def sample_world_def sample_rows sample_env_def)
  then have "system_step False quiet_env sample_world sample_world2"
    unfolding sample_world2_def by (rule system_step.register_manual_client)
  then show ?thesis by (blast intro: rtranclp.rtrancl_into_rtrancl system_step.delete_client)
qed

theorem system_keeps_constraints_witness:
  "wf_state (fst (delete_client sample_env anonymous_request unscoped 1 (db sample_world2)))"
  using system_keeps_constraints [OF sample_run wf_sample_world(1)] by simp

theorem system_keeps_addresses_unique_witness:
  "map cli_address (clients (fst (delete_client sample_env anonymous_request unscoped 1 (db sample_world2)))) = [''10.9.0.3/32''] \<and>
   addresses_unique (fst (delete_client sample_env anonymous_request unscoped 1 (db sample_world2)))"
proof
  show "map cli_address (clients (fst (delete_client sample_env anonymous_request unscoped 1 (db sample_world2)))) = [''10.9.0.3/32'']"
    by code_simp
qed (use system_keeps_addresses_unique [OF sample_run wf_sample_world] in simp)

end
