(* ===== verification/Bytes.thy ===== *)
theory Bytes
  imports Prelude
begin

text \<open>
  Python's \<^verbatim>\<open>bytes\<close>: lists of 8-bit characters, big-endian numbers
  (\<^verbatim>\<open>int.to_bytes\<close>, \<^verbatim>\<open>int.from_bytes\<close>) and the \<^verbatim>\<open>base64\<close> module's standard alphabet.
\<close>

section \<open>Big-endian numbers\<close>

type_synonym bytes = "char list"

definition byte :: "char \<Rightarrow> nat" where "byte c = of_char c"

definition from_bytes :: "bytes \<Rightarrow> nat" where
  "from_bytes bs = foldl (\<lambda>n b. 256 * n + byte b) 0 bs"

fun to_bytes :: "nat \<Rightarrow> nat \<Rightarrow> bytes" where
  "to_bytes 0 n = []"
| "to_bytes (Suc k) n = to_bytes k (n div 256) @ [char_of (n mod 256)]"

lemma length_to_bytes [simp]: "length (to_bytes k n) = k"
  by (induction k arbitrary: n) simp_all

lemma from_bytes_snoc: "from_bytes (bs @ [b]) = 256 * from_bytes bs + byte b"
  by (simp add: from_bytes_def)

lemma from_to_bytes: "n < 256 ^ k \<Longrightarrow> from_bytes (to_bytes k n) = n"
proof (induction k arbitrary: n)
  case (Suc k)
  then have "n div 256 < 256 ^ k" by (simp add: less_mult_imp_div_less mult.commute)
  with Suc.IH show ?case by (simp add: from_bytes_snoc byte_def)
qed (simp add: from_bytes_def)

section \<open>Base64\<close>

definition b64_char :: "nat \<Rightarrow> char" where
  "b64_char n =
     (if n < 26 then char_of (65 + n) else if n < 52 then char_of (71 + n) else if n < 62 then char_of (n - 4)
      else if n = 62 then CHR ''+'' else CHR ''/'')"

definition b64_val :: "char \<Rightarrow> nat option" where
  "b64_val c =
     (let n = of_char c :: nat in
      if 65 \<le> n \<and> n \<le> 90 then Some (n - 65)
      else if 97 \<le> n \<and> n \<le> 122 then Some (n - 71)
      else if 48 \<le> n \<and> n \<le> 57 then Some (n + 4)
      else if n = 43 then Some 62 else if n = 47 then Some 63 else None)"

fun b64encode :: "bytes \<Rightarrow> string" where
  "b64encode (a # b # c # rest) =
     b64_char (byte a div 4) # b64_char (16 * (byte a mod 4) + byte b div 16) #
     b64_char (4 * (byte b mod 16) + byte c div 64) # b64_char (byte c mod 64) # b64encode rest"
| "b64encode [a, b] =
     [b64_char (byte a div 4), b64_char (16 * (byte a mod 4) + byte b div 16), b64_char (4 * (byte b mod 16)), CHR ''='' ]"
| "b64encode [a] = [b64_char (byte a div 4), b64_char (16 * (byte a mod 4)), CHR ''='', CHR ''='' ]"
| "b64encode [] = []"

text \<open>\<^verbatim>\<open>b64decode\<close> of well-formed text; anything else raises \<^verbatim>\<open>binascii.Error\<close>.\<close>

definition bad_base64 :: exn where "bad_base64 = ValueError ''binascii.Error: invalid base64''"

definition sextet :: "char \<Rightarrow> nat result" where
  "sextet c = or_raise (b64_val c) bad_base64"

fun b64decode :: "string \<Rightarrow> bytes result" where
  "b64decode [] = Inr []"
| "b64decode (w # x # y # z # rest) =
     rbind (sextet w) (\<lambda>i. rbind (sextet x) (\<lambda>j.
       if y = CHR ''='' \<and> z = CHR ''='' \<and> rest = [] then Inr [char_of (4 * i + j div 16)]
       else rbind (sextet y) (\<lambda>k.
         if z = CHR ''='' \<and> rest = []
         then Inr [char_of (4 * i + j div 16), char_of (16 * (j mod 16) + k div 4)]
         else rbind (sextet z) (\<lambda>l. rbind (b64decode rest) (\<lambda>out.
           Inr (char_of (4 * i + j div 16) # char_of (16 * (j mod 16) + k div 4) # char_of (64 * (k mod 4) + l) # out))))))"
| "b64decode _ = Inl bad_base64"

lemma sextet_char: "n < 64 \<Longrightarrow> sextet (b64_char n) = Inr n"
proof -
  have all: "list_all (\<lambda>n. sextet (b64_char n) = Inr n) [0..<64]" by code_simp
  assume "n < 64"
  with all show ?thesis by (simp add: list_all_iff)
qed

lemma b64_char_not_pad: "n < 64 \<Longrightarrow> b64_char n \<noteq> CHR ''=''"
proof -
  assume "n < 64"
  from sextet_char [OF this] show ?thesis by (auto simp: sextet_def b64_val_def)
qed

lemma byte_less [simp]: "byte c < 256"
  by (simp add: byte_def)

lemma char_of_byte [simp]: "char_of (byte c) = c"
  by (simp add: byte_def)

lemma split_byte:
  "byte c div 4 < 64" "byte c div 16 < 16" "byte c div 64 < 4"
  "4 * (byte c div 4) + byte c mod 4 = byte c" "16 * (byte c div 16) + byte c mod 16 = byte c"
  "64 * (byte c div 64) + byte c mod 64 = byte c"
  using byte_less [of c] by (simp_all add: less_mult_imp_div_less)

lemma join_sextets:
  "x < 16 \<Longrightarrow> (16 * m + x) div 16 = (m :: nat)" "x < 16 \<Longrightarrow> (16 * m + x) mod 16 = x"
  "x < 4 \<Longrightarrow> (4 * m + x) div 4 = m" "x < 4 \<Longrightarrow> (4 * m + x) mod 4 = x"
  by simp_all

lemma sextet_bounds: "16 * (byte a mod 4) + byte b div 16 < 64" "4 * (byte b mod 16) + byte c div 64 < 64"
  "16 * (byte a mod 4) < 64" "4 * (byte b mod 16) < 64"
proof -
  have "byte a mod 4 < 4" "byte b mod 16 < 16" by simp_all
  then show "16 * (byte a mod 4) + byte b div 16 < 64" "4 * (byte b mod 16) + byte c div 64 < 64"
    "16 * (byte a mod 4) < 64" "4 * (byte b mod 16) < 64"
    using split_byte(2) [of b] split_byte(3) [of c] by linarith+
qed

theorem b64_roundtrip: "b64decode (b64encode bs) = Inr bs"
proof (induction bs rule: b64encode.induct)
  case (1 a b c rest)
  then show ?case
    by (simp add: sextet_char sextet_bounds split_byte join_sextets b64_char_not_pad mod_less_divisor)
next
  case (2 a b)
  then show ?case by (simp add: sextet_char sextet_bounds split_byte join_sextets b64_char_not_pad)
next
  case (3 a)
  then show ?case by (simp add: sextet_char sextet_bounds split_byte join_sextets)
qed simp

end
