(* ===== verification/Proxy_Protocol.thy ===== *)
theory Proxy_Protocol
  imports Enrollment Bytes
begin

unbundle bit_operations_syntax

text \<open>
  \<^verbatim>\<open>proxy_protocol.py\<close>: the parser of PROXY protocol headers, versions 1 and 2, and
  the protocol class of the enrollment listener that reads one before it starts TLS.
  The parser is called again with everything received so far each time bytes arrive,
  so what matters is that its verdicts are stable: once it accepts or refuses a prefix of
  the stream it gives the same verdict on every longer one. The theory shows this, and that
  the parser always decides within 4112 bytes.

  Not modelled: the log lines, and what asyncio's \<^verbatim>\<open>SSLProtocol\<close> does with the bytes it
  is given. The size of the buffers it lends is a parameter.
\<close>

section \<open>The header\<close>

type_synonym client_addr = "string \<times> nat"
type_synonym parsed_header = "(client_addr option \<times> nat) option result"

definition V1_PREFIX :: bytes where "V1_PREFIX = ''PROXY ''"

definition V1_MAX_LEN :: nat where "V1_MAX_LEN = 107"

definition V2_SIGNATURE :: bytes where
  "V2_SIGNATURE = [CHR 0x0D, CHR 0x0A, CHR 0x0D, CHR 0x0A, CHR 0x00, CHR 0x0D, CHR 0x0A] @ ''QUIT'' @ [CHR 0x0A]"

definition V2_HEADER_LEN :: nat where "V2_HEADER_LEN = 16"

definition V2_MAX_BODY :: nat where "V2_MAX_BODY = 4096"

text \<open>\<^verbatim>\<open>_V2_ADDR\<close>: for TCP over IPv4 and IPv6, the bytes the addresses need and the length of one.\<close>

definition V2_ADDR :: "nat \<Rightarrow> (nat \<times> nat) option" where
  "V2_ADDR family = (if family = 0x11 then Some (12, 4) else if family = 0x21 then Some (36, 16) else None)"

text \<open>\<^verbatim>\<open>struct.unpack("!H", bs)\<close>, \<^verbatim>\<open>ip_address(bs)\<close> of packed bytes, and \<^verbatim>\<open>bs.find\<close> of a CRLF.\<close>

fun unpack_H :: "bytes \<Rightarrow> nat result" where
  "unpack_H [a, b] = Inr (256 * byte a + byte b)"
| "unpack_H _ = Inl (OtherError ''struct.error: unpack requires a buffer of 2 bytes'')"

definition packed_address :: "bytes \<Rightarrow> ip_addr result" where
  "packed_address bs =
     (if length bs = 4 then Inr (IPv4 (from_bytes bs))
      else if length bs = 16 then Inr (IPv6 (from_bytes bs) None)
      else Inl (ValueError ''does not appear to be an IPv4 or IPv6 address''))"

fun find_crlf :: "bytes \<Rightarrow> nat option" where
  "find_crlf (a # b # bs) =
     (if a = CHR 0x0D \<and> b = CHR 0x0A then Some 0 else map_option Suc (find_crlf (b # bs)))"
| "find_crlf _ = None"

definition v1_address :: "string \<Rightarrow> nat \<Rightarrow> string result" where
  "v1_address t version =
     (case ip_address t of
        Inl _ \<Rightarrow> Inl (ProxyProtocolError (''bad v1 address '' @ py_repr t))
      | Inr addr \<Rightarrow>
          if (case addr of IPv4 _ \<Rightarrow> 4 | IPv6 _ _ \<Rightarrow> 6) \<noteq> version \<or> CHR ''%'' \<in> set t
          then Inl (ProxyProtocolError (''bad v1 address '' @ py_repr t))
          else Inr (ip_str addr))"

definition v1_port :: "string \<Rightarrow> nat result" where
  "v1_port t =
     (if \<not> isdigit t \<or> (1 < length t \<and> t ! 0 = CHR ''0'')
      then Inl (ProxyProtocolError (''bad v1 port '' @ py_repr t))
      else let port = digits_to_nat t in
        if 65535 < port then Inl (ProxyProtocolError (''bad v1 port '' @ py_repr t)) else Inr port)"

definition v1_line :: "string \<Rightarrow> client_addr option result" where
  "v1_line line =
     (let parts = split_on CHR '' '' line in
      if 2 \<le> length parts \<and> parts ! 1 = ''UNKNOWN'' then Inr None
      else if length parts \<noteq> 6 \<or> (parts ! 1 \<noteq> ''TCP4'' \<and> parts ! 1 \<noteq> ''TCP6'')
      then Inl (ProxyProtocolError (''malformed v1 header: '' @ py_repr (take 64 line)))
      else let version = (if parts ! 1 = ''TCP4'' then 4 else 6) in
        rbind (v1_address (parts ! 2) version) (\<lambda>src.
        rbind (v1_address (parts ! 3) version) (\<lambda>_.
        rbind (v1_port (parts ! 4)) (\<lambda>sport.
        rbind (v1_port (parts ! 5)) (\<lambda>_. Inr (Some (src, sport)))))))"

definition parse_v1 :: "bytes \<Rightarrow> parsed_header" where
  "parse_v1 buf =
     (if \<not> startswith buf (take (length buf) V1_PREFIX) then Inl (ProxyProtocolError ''bad v1 prefix'')
      else case find_crlf (take V1_MAX_LEN buf) of
        None \<Rightarrow>
          if V1_MAX_LEN \<le> length buf then Inl (ProxyProtocolError ''v1 header longer than 107 bytes'')
          else Inr None
      | Some end_ \<Rightarrow>
          if \<exists>c \<in> set (take end_ buf). 128 \<le> byte c then Inl (ProxyProtocolError ''v1 header is not ASCII'')
          else rbind (v1_line (take end_ buf)) (\<lambda>client. Inr (Some (client, end_ + 2))))"

definition hex2 :: "nat \<Rightarrow> string" where
  "hex2 n = [hex_char (n div 16), hex_char (n mod 16)]"

definition v2_client :: "nat \<Rightarrow> bytes \<Rightarrow> client_addr result" where
  "v2_client family body =
     (case V2_ADDR family of
        None \<Rightarrow> Inl (OtherError ''KeyError'')
      | Some (_, addr_len) \<Rightarrow>
          rbind (packed_address (take addr_len body)) (\<lambda>src.
          rbind (unpack_H (take 2 (drop (2 * addr_len) body))) (\<lambda>sport. Inr (ip_str src, sport))))"

definition v2_family_check :: "nat \<Rightarrow> nat \<Rightarrow> unit result" where
  "v2_family_check family len =
     (case V2_ADDR family of
        None \<Rightarrow> Inl (ProxyProtocolError (''unsupported v2 family 0x'' @ hex2 family))
      | Some (need, _) \<Rightarrow> check (need \<le> len) (ProxyProtocolError ''v2 address block too short''))"

definition parse_v2 :: "bytes \<Rightarrow> parsed_header" where
  "parse_v2 buf =
     (if \<not> startswith buf (take (length buf) V2_SIGNATURE) then Inl (ProxyProtocolError ''bad v2 signature'')
      else if length buf < V2_HEADER_LEN then Inr None
      else let ver_cmd = byte (buf ! 12); family = byte (buf ! 13); command = ver_cmd AND 0x0F in
        rbind (unpack_H (take 2 (drop 14 buf))) (\<lambda>len.
        rbind (check (drop_bit 4 ver_cmd = 2)
          (ProxyProtocolError (''unsupported v2 version '' @ str_of_nat (drop_bit 4 ver_cmd)))) (\<lambda>_.
        rbind (check (command = 0 \<or> command = 1)
          (ProxyProtocolError (''unsupported v2 command '' @ str_of_nat command))) (\<lambda>_.
        rbind (check (len \<le> V2_MAX_BODY)
          (ProxyProtocolError (''v2 header body too long ('' @ str_of_nat len @ '' bytes)''))) (\<lambda>_.
        rbind (if command = 1 \<and> family \<noteq> 0 then v2_family_check family len else Inr ()) (\<lambda>_.
          let total = V2_HEADER_LEN + len in
          if length buf < total then Inr None
          else if command = 0 \<or> family = 0 then Inr (Some (None, total))
          else rbind (v2_client family (take len (drop V2_HEADER_LEN buf))) (\<lambda>client.
            Inr (Some (Some client, total)))))))))"

definition parse_header :: "bytes \<Rightarrow> parsed_header" where
  "parse_header buf =
     (if buf = [] then Inr None
      else if take 1 buf = take 1 V1_PREFIX then parse_v1 buf
      else if take 1 buf = take 1 V2_SIGNATURE then parse_v2 buf
      else Inl (ProxyProtocolError ''connection does not start with a PROXY header''))"

section \<open>The protocol class\<close>

text \<open>
  The state of one connection. \<^verbatim>\<open>transport\<close> is set by \<^verbatim>\<open>connection_made\<close>; the transport
  delivers what it reads to its current protocol, this class until \<^verbatim>\<open>set_protocol\<close>, the
  \<^verbatim>\<open>SSLProtocol\<close> built for the client afterwards; an aborted transport delivers nothing.
  The state keeps the chunks the \<^verbatim>\<open>SSLProtocol\<close> was given and the client its HTTP
  protocol reports.
\<close>

datatype transport_protocol = Header_Reader | Tls "client_addr option" "bytes list"

record transport =
  aborted :: bool
  proto :: transport_protocol

record proxy_conn =
  conn_transport :: "transport option"
  conn_buf :: bytes
  conn_timer :: bool
  conn_peer :: string

text \<open>The class attributes \<^verbatim>\<open>make_proxy_protocol_class\<close> fills in; times in microseconds.\<close>

record 'ctx proxy_class =
  ssl_context :: 'ctx
  trusted :: "ip_net list"
  header_timeout :: int
  handshake_timeout :: int

definition make_proxy_protocol_class :: "'ctx \<Rightarrow> ip_net list \<Rightarrow> int \<Rightarrow> int \<Rightarrow> 'ctx proxy_class result" where
  "make_proxy_protocol_class ctx networks hdr hs =
     (if networks = [] then Inl (ValueError ''PROXY protocol needs at least one trusted proxy network'')
      else Inr \<lparr>ssl_context = ctx, trusted = networks, header_timeout = hdr, handshake_timeout = hs\<rparr>)"

definition is_trusted :: "string \<Rightarrow> ip_net list \<Rightarrow> bool" where
  "is_trusted host networks =
     (case ip_address host of
        Inl _ \<Rightarrow> False
      | Inr addr \<Rightarrow> list_ex (\<lambda>net. addr_in_net (unmap addr) net) networks)"

definition new_conn :: proxy_conn where
  "new_conn = \<lparr>conn_transport = None, conn_buf = [], conn_timer = False, conn_peer = ''?''\<rparr>"

definition cancel_timer :: "proxy_conn \<Rightarrow> proxy_conn" where
  "cancel_timer c = c\<lparr>conn_timer := False\<rparr>"

definition abort :: "proxy_conn \<Rightarrow> proxy_conn" where
  "abort c = c\<lparr>conn_transport := map_option (\<lambda>t. t\<lparr>aborted := True\<rparr>) (conn_transport c)\<rparr>"

definition close :: "proxy_conn \<Rightarrow> proxy_conn" where
  "close c = abort (cancel_timer c)"

definition connection_made :: "'ctx proxy_class \<Rightarrow> string option \<Rightarrow> proxy_conn \<Rightarrow> proxy_conn" where
  "connection_made cls peername c =
     (let c1 = c\<lparr>conn_transport := Some \<lparr>aborted = False, proto = Header_Reader\<rparr>,
                 conn_peer := (case peername of None \<Rightarrow> ''?'' | Some h \<Rightarrow> h)\<rparr> in
      if \<not> is_trusted (conn_peer c1) (trusted cls) then abort c1 else c1\<lparr>conn_timer := True\<rparr>)"

text \<open>
  The loop that copies the left-over bytes into the buffers \<^verbatim>\<open>get_buffer\<close> lends:
  \<^verbatim>\<open>room n\<close> is the length of the buffer for the size hint \<^verbatim>\<open>n\<close>. The result lists the chunks
  handed to \<^verbatim>\<open>buffer_updated\<close>; it is undefined when the loop does not end.
\<close>

partial_function (option) feed :: "(nat \<Rightarrow> nat) \<Rightarrow> bytes \<Rightarrow> bytes list option" where
  "feed room view =
     (if view = [] then Some []
      else let n = min (room (length view)) (length view) in
        Option.bind (feed room (drop n view)) (\<lambda>chunks. Some (take n view # chunks)))"

definition start_tls :: "(nat \<Rightarrow> nat) \<Rightarrow> client_addr option \<Rightarrow> bytes \<Rightarrow> proxy_conn \<Rightarrow> proxy_conn option" where
  "start_tls room client leftover c =
     Option.bind (feed room leftover) (\<lambda>chunks.
       Some (c\<lparr>conn_transport := map_option (\<lambda>t. t\<lparr>proto := Tls client chunks\<rparr>) (conn_transport c),
               conn_buf := []\<rparr>))"

definition data_received :: "(nat \<Rightarrow> nat) \<Rightarrow> bytes \<Rightarrow> proxy_conn \<Rightarrow> proxy_conn option" where
  "data_received room data c =
     (let c1 = c\<lparr>conn_buf := conn_buf c @ data\<rparr> in
      case parse_header (conn_buf c1) of
        Inl _ \<Rightarrow> Some (close c1)
      | Inr None \<Rightarrow> Some c1
      | Inr (Some (client, consumed)) \<Rightarrow>
          start_tls room client (drop consumed (conn_buf c1)) (cancel_timer c1))"

definition on_timeout :: "proxy_conn \<Rightarrow> proxy_conn" where
  "on_timeout c = close c"

definition connection_lost :: "proxy_conn \<Rightarrow> proxy_conn" where
  "connection_lost c = cancel_timer c"

text \<open>
  \<^verbatim>\<open>_ProxiedHTTPProtocol.connection_made\<close>: uvicorn's own sets the client from the socket
  (\<^verbatim>\<open>remote\<close>); the header's client, if it names one, replaces it.
\<close>

definition proxied_connection_made :: "client_addr option \<Rightarrow> client_addr option \<Rightarrow> client_addr option" where
  "proxied_connection_made proxied remote = (case proxied of None \<Rightarrow> remote | Some c \<Rightarrow> Some c)"

section \<open>The event loop\<close>

text \<open>
  What asyncio calls on a connection. Data goes to the transport's current protocol and
  stops once the transport is aborted; a timer fires only while it is armed; a false
  \<^verbatim>\<open>eof_received\<close> makes the transport close itself.
\<close>

datatype conn_event = Data bytes | Eof | Lost | Timeout

fun deliver :: "(nat \<Rightarrow> nat) \<Rightarrow> conn_event \<Rightarrow> proxy_conn \<Rightarrow> proxy_conn option" where
  "deliver room (Data d) c =
     (case conn_transport c of
        None \<Rightarrow> Some c
      | Some t \<Rightarrow>
          if aborted t then Some c
          else (case proto t of
              Header_Reader \<Rightarrow> data_received room d c
            | Tls client chunks \<Rightarrow> Some (c\<lparr>conn_transport := Some (t\<lparr>proto := Tls client (chunks @ [d])\<rparr>)\<rparr>)))"
| "deliver room Eof c =
     (case conn_transport c of
        Some t \<Rightarrow> Some (if proto t = Header_Reader then abort c else c)
      | None \<Rightarrow> Some c)"
| "deliver room Lost c =
     (case conn_transport c of
        Some t \<Rightarrow> Some (if proto t = Header_Reader then connection_lost (abort c) else abort c)
      | None \<Rightarrow> Some c)"
| "deliver room Timeout c = Some (if conn_timer c then on_timeout c else c)"

fun run_conn :: "(nat \<Rightarrow> nat) \<Rightarrow> conn_event list \<Rightarrow> proxy_conn \<Rightarrow> proxy_conn option" where
  "run_conn room [] c = Some c"
| "run_conn room (ev # evs) c = Option.bind (deliver room ev c) (run_conn room evs)"

section \<open>The parser's verdicts are stable\<close>

lemma find_crlf_bound: "find_crlf bs = Some i \<Longrightarrow> i + 2 \<le> length bs"
  by (induction bs arbitrary: i rule: find_crlf.induct) (auto split: if_splits)

lemma find_crlf_append: "find_crlf bs = Some i \<Longrightarrow> find_crlf (bs @ cs) = Some i"
  by (induction bs arbitrary: i rule: find_crlf.induct) (auto split: if_splits)

lemma startswith_cut:
  "startswith buf (take (length buf) p) \<longleftrightarrow> take (length p) buf = take (length buf) p"
  by (cases "length buf \<le> length p") (auto simp: startswith_def min_def)

lemma startswith_shrink:
  "startswith (b @ c) (take (length (b @ c)) p) \<Longrightarrow> startswith b (take (length b) p)"
  unfolding startswith_cut
  by (drule arg_cong [where f = "take (length b)"]) (simp add: min_def split: if_splits)

lemma startswith_grow:
  "startswith b (take (length b) p) \<Longrightarrow> length p \<le> length b \<Longrightarrow>
   startswith (b @ c) (take (length (b @ c)) p)"
  unfolding startswith_cut by simp

lemma find_crlf_nth: "find_crlf bs = Some i \<Longrightarrow> bs ! i = CHR 0x0D"
  by (induction bs arbitrary: i rule: find_crlf.induct) (auto split: if_splits)

lemma length_V1_PREFIX [simp]: "length V1_PREFIX = 6"
  by (simp add: V1_PREFIX_def)

lemma length_V2_SIGNATURE [simp]: "length V2_SIGNATURE = 12"
  by (simp add: V2_SIGNATURE_def)

lemma crlf_after_prefix:
  assumes "startswith b (take (length b) V1_PREFIX)" and "find_crlf (take V1_MAX_LEN b) = Some i"
  shows "6 \<le> i"
proof (rule ccontr)
  assume i: "\<not> 6 \<le> i"
  have len: "i < V1_MAX_LEN" "i < length b" using find_crlf_bound [OF assms(2)] by simp_all
  have "take 6 b = take (length b) V1_PREFIX" using assms(1) by (simp add: startswith_cut)
  then have "b ! i = V1_PREFIX ! i" using i len by (metis not_le nth_take)
  moreover have "b ! i = CHR 0x0D" using find_crlf_nth [OF assms(2)] len by simp
  moreover have "V1_PREFIX ! i \<in> set V1_PREFIX" using i by (intro nth_mem) simp
  ultimately have "CHR 0x0D \<in> set V1_PREFIX" by simp
  then show False by (simp add: V1_PREFIX_def)
qed

lemma parse_v1_stable:
  assumes "parse_v1 b \<noteq> Inr None"
  shows "parse_v1 (b @ c) = parse_v1 b"
proof (cases "startswith b (take (length b) V1_PREFIX)")
  case False
  then have "\<not> startswith (b @ c) (take (length (b @ c)) V1_PREFIX)" using startswith_shrink by blast
  with False show ?thesis by (simp add: parse_v1_def)
next
  case True
  have cut: "take V1_MAX_LEN (b @ c) = take V1_MAX_LEN b @ take (V1_MAX_LEN - length b) c" by simp
  show ?thesis
  proof (cases "find_crlf (take V1_MAX_LEN b)")
    case None
    with assms True have long: "V1_MAX_LEN \<le> length b" by (auto simp: parse_v1_def split: if_splits)
    then have "startswith (b @ c) (take (length (b @ c)) V1_PREFIX)"
      using True by (intro startswith_grow) (auto simp: V1_MAX_LEN_def)
    with None long True show ?thesis by (simp add: parse_v1_def)
  next
    case (Some i)
    have i: "6 \<le> i" "i + 2 \<le> length b"
      using crlf_after_prefix [OF True Some] find_crlf_bound [OF Some] by simp_all
    have "startswith (b @ c) (take (length (b @ c)) V1_PREFIX)" using True i by (intro startswith_grow) auto
    moreover have "find_crlf (take V1_MAX_LEN (b @ c)) = Some i"
      unfolding cut by (rule find_crlf_append [OF Some])
    ultimately show ?thesis using True Some i by (simp add: parse_v1_def)
  qed
qed

text \<open>The fixed part of a version 2 header decides everything but the addresses.\<close>

lemma parse_v2_stable:
  assumes "parse_v2 b \<noteq> Inr None"
  shows "parse_v2 (b @ c) = parse_v2 b"
proof (cases "startswith b (take (length b) V2_SIGNATURE)")
  case False
  then have "\<not> startswith (b @ c) (take (length (b @ c)) V2_SIGNATURE)" using startswith_shrink by blast
  with False show ?thesis by (simp add: parse_v2_def)
next
  case True
  with assms have long: "16 \<le> length b" by (auto simp: parse_v2_def V2_HEADER_LEN_def split: if_splits)
  then have start: "startswith (b @ c) (take (length (b @ c)) V2_SIGNATURE)"
    using True by (intro startswith_grow) auto
  have fixed: "(b @ c) ! 12 = b ! 12" "(b @ c) ! 13 = b ! 13" "take 2 (drop 14 (b @ c)) = take 2 (drop 14 b)"
    using long by (simp_all add: nth_append)
  have body: "take n (drop V2_HEADER_LEN (b @ c)) = take n (drop V2_HEADER_LEN b)" if "V2_HEADER_LEN + n \<le> length b" for n
    using that by simp
  have "\<not> length b < V2_HEADER_LEN" "\<not> length (b @ c) < V2_HEADER_LEN" using long by (simp_all add: V2_HEADER_LEN_def)
  with assms True start show ?thesis
    unfolding parse_v2_def fixed
    by (auto simp: Let_def rbind_def body split: sum.splits if_splits)
qed

theorem parse_header_stable: "parse_header b \<noteq> Inr None \<Longrightarrow> parse_header (b @ c) = parse_header b"
  using parse_v1_stable [of b c] parse_v2_stable [of b c]
  by (cases b) (auto simp: parse_header_def split: if_splits)

section \<open>Bounds\<close>

definition header_limit :: nat where "header_limit = V2_HEADER_LEN + V2_MAX_BODY"

lemma parse_v1_decides: "V1_MAX_LEN \<le> length b \<Longrightarrow> parse_v1 b \<noteq> Inr None"
  by (auto simp: parse_v1_def rbind_def split: option.splits sum.splits)

lemma parse_v2_decides: "header_limit \<le> length b \<Longrightarrow> parse_v2 b \<noteq> Inr None"
  by (auto simp: parse_v2_def rbind_def header_limit_def Let_def check_def split: option.splits sum.splits if_splits)

lemma parse_header_decides: "header_limit \<le> length b \<Longrightarrow> parse_header b \<noteq> Inr None"
  using parse_v1_decides [of b] parse_v2_decides [of b]
  by (auto simp: parse_header_def header_limit_def V2_MAX_BODY_def V1_MAX_LEN_def V2_HEADER_LEN_def)

lemma parse_header_consumed:
  assumes "parse_header b = Inr (Some (client, n))"
  shows "0 < n" and "n \<le> length b" and "n \<le> header_limit"
proof -
  have v1: "0 < n \<and> n \<le> length b \<and> n \<le> V1_MAX_LEN" if "parse_v1 b = Inr (Some (client, n))"
    using that find_crlf_bound [of "take V1_MAX_LEN b"]
    by (auto simp: parse_v1_def rbind_def split: option.splits sum.splits if_splits)
  have v2: "0 < n \<and> n \<le> length b \<and> n \<le> header_limit" if "parse_v2 b = Inr (Some (client, n))"
    using that by (auto simp: parse_v2_def rbind_def header_limit_def V2_HEADER_LEN_def Let_def check_def
        split: option.splits sum.splits if_splits)
  show "0 < n" and "n \<le> length b" and "n \<le> header_limit"
    using assms v1 v2
    by (auto simp: parse_header_def header_limit_def V2_MAX_BODY_def V1_MAX_LEN_def V2_HEADER_LEN_def split: if_splits)
qed

section \<open>Errors\<close>

text \<open>
  The parser raises \<^verbatim>\<open>ProxyProtocolError\<close> only, the exception \<^verbatim>\<open>data_received\<close> catches: the
  slices it unpacks always have the length that is needed.
\<close>

lemma v1_line_raises: "v1_line line = Inl e \<Longrightarrow> \<exists>m. e = ProxyProtocolError m"
  by (auto simp: v1_line_def v1_address_def v1_port_def Let_def result_simps split: if_splits sum.splits)

lemma unpack_H_total: "length bs = 2 \<Longrightarrow> \<exists>n. unpack_H bs = Inr n"
  by (auto simp: length_Suc_conv numeral_2_eq_2)

lemma v2_client_total:
  assumes "v2_family_check family (length body) = Inr ()"
  shows "\<exists>client. v2_client family body = Inr client"
proof -
  obtain need alen where v: "V2_ADDR family = Some (need, alen)" "need \<le> length body"
    using assms by (auto simp: v2_family_check_def result_simps split: option.splits)
  then have n: "need = 2 * alen + 4" "alen = 4 \<or> alen = 16" by (auto simp: V2_ADDR_def split: if_splits)
  have "\<exists>p. unpack_H (take 2 (drop (2 * alen) body)) = Inr p" using v(2) n by (intro unpack_H_total) auto
  moreover have "\<exists>x. packed_address (take alen body) = Inr x" using v(2) n by (auto simp: packed_address_def)
  ultimately show ?thesis using v(1) by (auto simp: v2_client_def)
qed

lemma v2_family_raises: "v2_family_check f n = Inl e \<Longrightarrow> \<exists>m. e = ProxyProtocolError m"
  by (auto simp: v2_family_check_def result_simps split: option.splits)

lemma parse_header_raises:
  assumes "parse_header b = Inl e"
  shows "\<exists>m. e = ProxyProtocolError m"
proof -
  have v1: "\<exists>m. e = ProxyProtocolError m" if "parse_v1 b = Inl e"
    using that v1_line_raises by (auto simp: parse_v1_def result_simps split: if_splits option.splits)
  have v2: "\<exists>m. e = ProxyProtocolError m" if p: "parse_v2 b = Inl e"
  proof (cases "length b < V2_HEADER_LEN")
    case False
    then obtain len where H: "unpack_H (take 2 (drop 14 b)) = Inr len"
      using unpack_H_total [of "take 2 (drop 14 b)"] by (auto simp: V2_HEADER_LEN_def)
    have total: "v2_client f (take n (drop V2_HEADER_LEN b)) \<noteq> Inl e"
      if "v2_family_check f n = Inr ()" "V2_HEADER_LEN + n \<le> length b" for f n
    proof -
      have "length (take n (drop V2_HEADER_LEN b)) = n" using that(2) by simp
      then have "v2_family_check f (length (take n (drop V2_HEADER_LEN b))) = Inr ()" using that(1) by metis
      from v2_client_total [OF this] show ?thesis by auto
    qed
    show ?thesis
      using p unfolding parse_v2_def H
      by (auto simp: Let_def result_simps total not_less v2_family_raises split: if_splits)
  qed (use p in \<open>auto simp: parse_v2_def split: if_splits\<close>)
  show ?thesis using assms v1 v2 by (auto simp: parse_header_def split: if_splits)
qed

end
