(* ===== verification/Proxy_Headers.thy ===== *)
theory Proxy_Headers
  imports Proxy_Protocol
begin

unbundle bit_operations_syntax

text \<open>
  Encoders for PROXY headers, written after the protocol's specification, and the proof that
  the parser of \<^verbatim>\<open>proxy_protocol.py\<close> reads back what they write, for either version of
  the protocol and of IP. On the way: the length and the characters of a printed address.
\<close>

section \<open>Round trips\<close>

text \<open>The characters of a printed address, and its length.\<close>

definition addr_char :: "char \<Rightarrow> bool" where
  "addr_char c \<longleftrightarrow> hex_val c \<noteq> None \<or> c = CHR '':'' \<or> c = CHR ''.''"

lemma is_digit_hex: "is_digit c \<Longrightarrow> hex_val c \<noteq> None"
  by (simp add: is_digit_def hex_val_def Let_def)

lemma ip4_str_chars: "c \<in> set (ip4_str a) \<Longrightarrow> addr_char c"
  using str_of_nat_digits
  by (auto simp: ip4_str_def ip4_octets_def addr_char_def list_all_iff dest!: is_digit_hex)

lemma string_from_ip6_chars: "c \<in> set (string_from_ip6_int a) \<Longrightarrow> addr_char c"
proof -
  assume "c \<in> set (string_from_ip6_int a)"
  moreover have "c \<notin> set (join_with '':'' (compress_hextets (ip6_hextets a)))" if "hex_val c = None" "c \<noteq> CHR '':''"
    using that compress_no by (intro join_no) auto
  ultimately show ?thesis by (auto simp: addr_char_def string_from_ip6_int_def)
qed

lemma ip6_text_chars: "c \<in> set (ip6_text a) \<Longrightarrow> addr_char c"
proof -
  have "addr_char CHR '':''" "addr_char CHR ''f''" by (simp_all add: addr_char_def hex_val_def)
  then show "c \<in> set (ip6_text a) \<Longrightarrow> addr_char c"
    by (auto simp: ip6_text_cases string_from_ip6_chars ip4_str_chars split: if_splits)
qed

lemma length_join_with:
  "(\<And>p. p \<in> set ps \<Longrightarrow> length p \<le> k) \<Longrightarrow> length (join_with [c] ps) \<le> length ps * (k + 1) - 1"
proof (induction "[c]" ps rule: join_with.induct)
  case (3 p q ps)
  then have "length (join_with [c] (q # ps)) \<le> length (q # ps) * (k + 1) - 1" "length p \<le> k" by auto
  then show ?case by simp
qed auto

lemma length_ip4_str: "length (ip4_str a) \<le> 15"
proof -
  have "length (str_of_nat b) \<le> 3" if "b < 256" for b using that by (intro length_str_of_nat_mono) simp_all
  then have "length (ip4_str a) \<le> length (map str_of_nat (ip4_octets a)) * (3 + 1) - 1"
    unfolding ip4_str_def by (intro length_join_with) (auto dest: ip4_octets_less)
  then show ?thesis by (simp add: ip4_octets_def)
qed

lemma length_string_from_ip6: "length (string_from_ip6_int a) \<le> 39"
proof (cases "ip6_hextets a" rule: compress_cases)
  case full
  have "length (hex_str h) \<le> 4" if "h < 65536" for h using that by (intro length_hex_str) simp_all
  then have "length (string_from_ip6_int a) \<le> length (map hex_str (ip6_hextets a)) * (4 + 1) - 1"
    unfolding string_from_ip6_int_def full by (intro length_join_with) (auto dest: ip6_hextets_less)
  then show ?thesis by simp
next
  case (run b l)
  let ?ps = "compress_hextets (ip6_hextets a)"
  have h: "length (hex_str h) \<le> 4" if "h < 65536" for h using that by (intro length_hex_str) simp_all
  have l: "b + l \<le> 8" using run(1) by (simp add: zero_run_def)
  have "length p \<le> 4" if "p \<in> set ?ps" for p
    using that h unfolding run(3)
    by (auto split: if_splits dest!: in_set_takeD in_set_dropD ip6_hextets_less)
  then have "length (string_from_ip6_int a) \<le> length ?ps * (4 + 1) - 1"
    unfolding string_from_ip6_int_def by (intro length_join_with) auto
  moreover have "length ?ps \<le> 8" unfolding run(3) using l run(2) by auto
  ultimately show ?thesis by simp
qed

lemma length_ip6_text: "length (ip6_text a) \<le> 39"
  using length_string_from_ip6 [of a] length_ip4_str [of "a mod 4294967296"] by (auto simp: ip6_text_cases)

text \<open>An address without a scope id parses back from its printed form.\<close>

fun wire_ip :: "ip_addr \<Rightarrow> bool" where
  "wire_ip (IPv4 a) \<longleftrightarrow> a < 2 ^ 32"
| "wire_ip (IPv6 a z) \<longleftrightarrow> a < 2 ^ 128 \<and> z = None"

fun ip_version :: "ip_addr \<Rightarrow> nat" where
  "ip_version (IPv4 _) = 4"
| "ip_version (IPv6 _ _) = 6"

lemma ip_address_roundtrip: "wire_ip a \<Longrightarrow> ip_address (ip_str a) = Inr a"
proof (cases a)
  case (IPv4 x)
  moreover assume "wire_ip a"
  ultimately show ?thesis using ip4_str_roundtrip [of x] by (simp add: ip_address_def)
next
  case (IPv6 x z)
  moreover assume w: "wire_ip a"
  ultimately have x: "x < 2 ^ 128" "z = None" "ip_str a = ip6_text x" by (simp_all add: ip6_text_def)
  have "\<nexists>v. ip4_of_string (ip6_text x) = Inr v" using ip4_of_string_no_colon ip6_text_colon [OF x(1)] by blast
  then obtain e where "ip4_of_string (ip6_text x) = Inl e" by (cases "ip4_of_string (ip6_text x)") auto
  moreover have "ip6_of_string (ip6_text x) = Inr (x, None)"
    using ip6_str_roundtrip [OF x(1), of None] by (simp add: ip6_text_def wf_scope_def)
  ultimately show ?thesis using x IPv6 by (simp add: ip_address_def)
qed

lemma ip_str_facts:
  assumes "wire_ip a"
  shows "c \<in> set (ip_str a) \<Longrightarrow> addr_char c" and "length (ip_str a) \<le> 39"
  using assms ip4_str_chars ip6_text_chars length_ip4_str length_ip6_text
  by (cases a; force simp: ip6_text_def [symmetric] simp del: ip_str.simps(2) intro: le_trans [OF length_ip4_str])+

lemma v1_address_roundtrip: "wire_ip a \<Longrightarrow> v1_address (ip_str a) (ip_version a) = Inr (ip_str a)"
proof -
  assume w: "wire_ip a"
  then have "CHR ''%'' \<notin> set (ip_str a)" using ip_str_facts(1) by (fastforce simp: addr_char_def hex_val_def)
  moreover have "(case a of IPv4 _ \<Rightarrow> 4 | IPv6 _ _ \<Rightarrow> 6) = ip_version a" by (cases a) simp_all
  ultimately show ?thesis by (simp add: v1_address_def ip_address_roundtrip [OF w])
qed

lemma v1_port_roundtrip: "p < 65536 \<Longrightarrow> v1_port (str_of_nat p) = Inr p"
proof -
  assume p: "p < 65536"
  have "\<not> (1 < length (str_of_nat p) \<and> str_of_nat p ! 0 = CHR ''0'')"
    using hd_str_of_nat [of p] by (cases "p = 0") (auto simp: str_of_nat_small hd_conv_nth)
  with p show ?thesis by (simp add: v1_port_def Let_def)
qed

text \<open>
  The headers a proxy sends, after the specification: version 1 as a line of text,
  version 2 in binary with the type-length-value data it may add.
\<close>

definition crlf :: bytes where "crlf = [CHR 0x0D, CHR 0x0A]"

definition encode_v1 :: "ip_addr \<Rightarrow> ip_addr \<Rightarrow> nat \<Rightarrow> nat \<Rightarrow> bytes" where
  "encode_v1 src dst sport dport =
     join_with '' '' [''PROXY'', (if ip_version src = 4 then ''TCP4'' else ''TCP6''), ip_str src, ip_str dst,
       str_of_nat sport, str_of_nat dport] @ crlf"

fun ip_packed :: "ip_addr \<Rightarrow> bytes" where
  "ip_packed (IPv4 a) = to_bytes 4 a"
| "ip_packed (IPv6 a _) = to_bytes 16 a"

definition encode_v2 :: "ip_addr \<Rightarrow> ip_addr \<Rightarrow> nat \<Rightarrow> nat \<Rightarrow> bytes \<Rightarrow> bytes" where
  "encode_v2 src dst sport dport tlvs =
     (let body = ip_packed src @ ip_packed dst @ to_bytes 2 sport @ to_bytes 2 dport @ tlvs
      in V2_SIGNATURE @ [CHR 0x21, (if ip_version src = 4 then CHR 0x11 else CHR 0x21)] @
         to_bytes 2 (length body) @ body)"

lemma find_crlf_line: "CHR 0x0D \<notin> set line \<Longrightarrow> find_crlf (line @ CHR 0x0D # CHR 0x0A # rest) = Some (length line)"
proof (induction line)
  case (Cons x line)
  then show ?case by (cases "line @ CHR 0x0D # CHR 0x0A # rest") auto
qed simp

lemma parse_v1_line:
  assumes "startswith line V1_PREFIX" and "length line + 2 \<le> V1_MAX_LEN"
    and "\<And>c. c \<in> set line \<Longrightarrow> byte c < 128 \<and> c \<noteq> CHR 0x0D"
  shows "parse_v1 (line @ crlf @ rest) = rbind (v1_line line) (\<lambda>client. Inr (Some (client, length line + 2)))"
proof -
  let ?b = "line @ crlf @ rest"
  have len: "6 \<le> length line" using assms(1) by (metis length_V1_PREFIX length_take min.cobounded1 startswith_def)
  have "startswith ?b (take (length ?b) V1_PREFIX)"
    using assms(1) len by (simp add: startswith_cut startswith_def)
  moreover have "find_crlf (take V1_MAX_LEN ?b) = Some (length line)"
    using assms(2,3) by (auto simp: crlf_def take_Cons' intro!: find_crlf_line)
  moreover have "\<not> (\<exists>c \<in> set line. 128 \<le> byte c)" using assms(3) by force
  ultimately show ?thesis by (simp add: parse_v1_def)
qed

lemma unpack_to_bytes: "n < 65536 \<Longrightarrow> unpack_H (to_bytes 2 n) = Inr n"
  by (simp add: numeral_2_eq_2 byte_def)

lemma packed_roundtrip: "wire_ip a \<Longrightarrow> packed_address (ip_packed a) = Inr a"
  using from_to_bytes [of _ 4] from_to_bytes [of _ 16] by (cases a) (auto simp: packed_address_def)

text \<open>The fields of a version 1 line contain no separator.\<close>

definition field_char :: "char \<Rightarrow> bool" where
  "field_char c \<longleftrightarrow> byte c < 128 \<and> c \<noteq> CHR 0x0D \<and> c \<noteq> CHR '' ''"

lemma addr_field_char: "addr_char c \<Longrightarrow> field_char c"
  by (auto simp: addr_char_def field_char_def hex_val_def byte_def Let_def split: if_splits)

lemma digits_field: "list_all field_char (str_of_nat n)"
proof -
  have "field_char c" if "is_digit c" for c
    using is_digit_hex [OF that] by (intro addr_field_char) (simp add: addr_char_def)
  then show ?thesis using str_of_nat_digits [of n] by (auto simp: list_all_iff)
qed

lemma addr_field: "wire_ip a \<Longrightarrow> list_all field_char (ip_str a)"
  by (auto simp: list_all_iff intro: addr_field_char ip_str_facts(1))

definition v1_fields :: "ip_addr \<Rightarrow> ip_addr \<Rightarrow> nat \<Rightarrow> nat \<Rightarrow> string list" where
  "v1_fields src dst sport dport =
     [''PROXY'', (if ip_version src = 4 then ''TCP4'' else ''TCP6''), ip_str src, ip_str dst,
      str_of_nat sport, str_of_nat dport]"

lemma v1_fields_chars:
  assumes "wire_ip src" "wire_ip dst"
  shows "list_all (list_all field_char) (v1_fields src dst sport dport)"
  using addr_field [OF assms(1)] addr_field [OF assms(2)]
  by (simp add: v1_fields_def digits_field) (simp add: field_char_def byte_def)

lemma join_chars: "list_all (list_all P) ps \<Longrightarrow> list_all P sep \<Longrightarrow> list_all P (join_with sep ps)"
  by (induction sep ps rule: join_with.induct) auto

lemma v1_line_roundtrip:
  assumes "wire_ip src" "wire_ip dst" "ip_version dst = ip_version src" "sport < 65536" "dport < 65536"
  shows "v1_line (join_with '' '' (v1_fields src dst sport dport)) = Inr (Some (ip_str src, sport))"
proof -
  have split: "split_on CHR '' '' (join_with '' '' (v1_fields src dst sport dport)) = v1_fields src dst sport dport"
  proof (rule split_join)
    fix p assume "p \<in> set (v1_fields src dst sport dport)"
    then have "list_all field_char p" using v1_fields_chars [OF assms(1,2)] by (meson list_all_iff)
    then show "CHR '' '' \<notin> set p" by (auto simp: list_all_iff field_char_def)
  qed (simp add: v1_fields_def)
  have version: "ip_version src = 4 \<or> ip_version src = 6" by (cases src) simp_all
  have addr: "v1_address (ip_str src) (ip_version src) = Inr (ip_str src)"
    "v1_address (ip_str dst) (ip_version src) = Inr (ip_str dst)"
    using v1_address_roundtrip [OF assms(1)] v1_address_roundtrip [OF assms(2)] assms(3) by simp_all
  show ?thesis
    using version addr v1_port_roundtrip [OF assms(4)] v1_port_roundtrip [OF assms(5)]
    unfolding v1_line_def split by (auto simp: v1_fields_def)
qed

lemma encode_v1_roundtrip:
  assumes "wire_ip src" "wire_ip dst" "ip_version dst = ip_version src" "sport < 65536" "dport < 65536"
  shows "parse_header (encode_v1 src dst sport dport @ rest) =
     Inr (Some (Some (ip_str src, sport), length (encode_v1 src dst sport dport)))"
proof -
  let ?line = "join_with '' '' (v1_fields src dst sport dport)"
  have enc: "encode_v1 src dst sport dport = ?line @ crlf" by (simp add: encode_v1_def v1_fields_def)
  have chars: "list_all (\<lambda>c. byte c < 128 \<and> c \<noteq> CHR 0x0D) ?line"
    using v1_fields_chars [OF assms(1,2), of sport dport]
    by (intro join_chars) (auto simp: list_all_iff field_char_def byte_def)
  have "length (str_of_nat sport) \<le> 5" "length (str_of_nat dport) \<le> 5"
    using assms(4,5) by (auto intro!: length_str_of_nat_mono)
  then have "length ?line + 2 \<le> V1_MAX_LEN"
    using ip_str_facts(2) [OF assms(1)] ip_str_facts(2) [OF assms(2)] by (simp add: V1_MAX_LEN_def v1_fields_def)
  moreover have "startswith ?line V1_PREFIX" by (simp add: startswith_def V1_PREFIX_def v1_fields_def)
  ultimately have "parse_v1 (?line @ crlf @ rest) = Inr (Some (Some (ip_str src, sport), length ?line + 2))"
    using parse_v1_line [of ?line rest] chars by (simp add: v1_line_roundtrip [OF assms] list_all_iff)
  then show ?thesis by (simp add: parse_header_def enc V1_PREFIX_def crlf_def) (simp add: v1_fields_def)
qed

lemma v2_client_roundtrip:
  assumes "wire_ip src" "ip_version dst = ip_version src" "sport < 65536"
  shows "v2_client (if ip_version src = 4 then 17 else 33) (ip_packed src @ ip_packed dst @ to_bytes 2 sport @ rest) =
     Inr (ip_str src, sport)"
  using assms packed_roundtrip [OF assms(1)] unpack_to_bytes [OF assms(3)]
  by (cases src; cases dst) (simp_all add: v2_client_def V2_ADDR_def)

lemma parse_v2_proxy:
  assumes "length lenb = 2" "unpack_H lenb = Inr (length body)" "length body \<le> V2_MAX_BODY"
    and "byte fam \<noteq> 0" "v2_family_check (byte fam) (length body) = Inr ()"
    and "v2_client (byte fam) body = Inr client"
  shows "parse_header (V2_SIGNATURE @ [CHR 0x21, fam] @ lenb @ body @ rest) = Inr (Some (Some client, 16 + length body))"
proof -
  let ?b = "V2_SIGNATURE @ [CHR 0x21, fam] @ lenb @ body @ rest"
  have "startswith ?b (take (length ?b) V2_SIGNATURE)"
    by (simp add: startswith_def)
  moreover have "?b ! 12 = CHR 0x21" "?b ! 13 = fam" by (simp_all add: nth_append)
  moreover have "take 2 (drop 14 ?b) = lenb" "take (length body) (drop 16 ?b) = body"
    using assms(1) by simp_all
  moreover have "byte CHR 0x21 = 33" "(33 :: nat) AND 15 = 1" "drop_bit 4 (33 :: nat) = 2" by code_simp+
  ultimately have "parse_v2 ?b = Inr (Some (Some client, 16 + length body))"
    using assms unfolding parse_v2_def V2_HEADER_LEN_def by simp
  then show ?thesis by (simp add: parse_header_def V2_SIGNATURE_def V1_PREFIX_def)
qed

lemma encode_v2_roundtrip:
  assumes "wire_ip src" "wire_ip dst" "ip_version dst = ip_version src" "sport < 65536" "dport < 65536"
    and "length tlvs \<le> 4060"
  shows "parse_header (encode_v2 src dst sport dport tlvs @ rest) =
     Inr (Some (Some (ip_str src, sport), length (encode_v2 src dst sport dport tlvs)))"
proof -
  let ?body = "ip_packed src @ ip_packed dst @ to_bytes 2 sport @ to_bytes 2 dport @ tlvs"
  let ?fam = "if ip_version src = 4 then CHR 0x11 else CHR 0x21"
  have fam: "byte ?fam = (if ip_version src = 4 then 17 else 33)" by (simp add: byte_def)
  have len: "length ?body \<le> 4096" using assms(3,6) by (cases src; cases dst) simp_all
  have check: "v2_family_check (byte ?fam) (length ?body) = Inr ()"
    using assms(3) unfolding fam by (cases src; cases dst) (simp_all add: v2_family_check_def V2_ADDR_def)
  have client: "v2_client (byte ?fam) ?body = Inr (ip_str src, sport)"
    using v2_client_roundtrip [OF assms(1,3,4), of "to_bytes 2 dport @ tlvs"] unfolding fam by simp
  have "parse_header (V2_SIGNATURE @ [CHR 0x21, ?fam] @ to_bytes 2 (length ?body) @ ?body @ rest) =
      Inr (Some (Some (ip_str src, sport), 16 + length ?body))"
    by (rule parse_v2_proxy) (use len check client in \<open>simp_all add: unpack_to_bytes V2_MAX_BODY_def byte_def\<close>)
  then show ?thesis by (simp add: encode_v2_def Let_def)
qed

text \<open>
  C40: a header for TCP over IPv4, or over IPv6 without a scope id, as the specification writes it,
  the text of version 1 or the binary form of version 2 with at most 4060 bytes of
  type-length-value data, parses to its source address and port whatever bytes follow, and the
  parser reports exactly its length as consumed.
\<close>

theorem proxy_header_roundtrip:
  assumes "wire_ip src" "wire_ip dst" "ip_version dst = ip_version src" "sport < 65536" "dport < 65536"
    and "length tlvs \<le> 4060"
  shows "parse_header (encode_v1 src dst sport dport @ rest) =
       Inr (Some (Some (ip_str src, sport), length (encode_v1 src dst sport dport))) \<and>
     parse_header (encode_v2 src dst sport dport tlvs @ rest) =
       Inr (Some (Some (ip_str src, sport), length (encode_v2 src dst sport dport tlvs)))"
  using encode_v1_roundtrip [OF assms(1-5)] encode_v2_roundtrip [OF assms] by simp

theorem proxy_header_roundtrip_witness:
  "parse_header (encode_v2 (IPv6 1 None) (IPv6 2 None) 51000 8443 ''tlv'' @ ''hello'') =
     Inr (Some (Some (''::1'', 51000), 55))"
proof -
  have "parse_header (encode_v2 (IPv6 1 None) (IPv6 2 None) 51000 8443 ''tlv'' @ ''hello'') =
      Inr (Some (Some (ip_str (IPv6 1 None), 51000), length (encode_v2 (IPv6 1 None) (IPv6 2 None) 51000 8443 ''tlv'')))"
    by (rule conjunct2 [OF proxy_header_roundtrip]) simp_all
  moreover have "ip_str (IPv6 1 None) = ''::1''" by code_simp
  moreover have "length (encode_v2 (IPv6 1 None) (IPv6 2 None) 51000 8443 ''tlv'') = 55" by code_simp
  ultimately show ?thesis by metis
qed

end
