(* ===== verification/Proxy_Listener.thy ===== *)
theory Proxy_Listener
  imports Proxy_Headers
begin

text \<open>
  The connections of the enrollment listener behind a proxy. A connection refines a
  description in terms of the whole byte stream, however the network cuts it into segments;
  it is served only when it comes from a trusted proxy and starts with a header; and it does
  not wait for one forever.
\<close>

section \<open>The listener as a function of the stream\<close>

text \<open>
  What a stream of bytes from a trusted proxy amounts to: the connection is dropped, it
  still waits for the rest of the header, or it serves a client the bytes after it.
\<close>

datatype conn_view = Dropped | Waiting bytes | Serving "client_addr option" bytes

definition header_outcome :: "bytes \<Rightarrow> conn_view" where
  "header_outcome bs =
     (case parse_header bs of
        Inl _ \<Rightarrow> Dropped
      | Inr None \<Rightarrow> Waiting bs
      | Inr (Some (client, n)) \<Rightarrow> Serving client (drop n bs))"

definition conn_view :: "proxy_conn \<Rightarrow> conn_view" where
  "conn_view c =
     (case conn_transport c of
        None \<Rightarrow> Dropped
      | Some t \<Rightarrow>
          if aborted t then Dropped
          else (case proto t of Header_Reader \<Rightarrow> Waiting (conn_buf c) | Tls client chunks \<Rightarrow> Serving client (concat chunks)))"

text \<open>\<^verbatim>\<open>BufferedProtocol.get_buffer\<close> must not return a buffer of size zero.\<close>

definition lends_space :: "(nat \<Rightarrow> nat) \<Rightarrow> bool" where
  "lends_space room \<longleftrightarrow> (\<forall>n > 0. 0 < room n)"

lemma feed_total:
  assumes "lends_space room"
  shows "\<exists>chunks. feed room view = Some chunks \<and> concat chunks = view"
proof (induction view rule: length_induct)
  case (1 view)
  show ?case
  proof (cases "view = []")
    case False
    define n where "n = min (room (length view)) (length view)"
    have "0 < n" using assms False by (simp add: n_def lends_space_def)
    then have "length (drop n view) < length view" using False by simp
    with "1" obtain cs where "feed room (drop n view) = Some cs" "concat cs = drop n view" by blast
    with False show ?thesis by (simp add: feed.simps [of room view] n_def [symmetric])
  qed (simp add: feed.simps)
qed

lemma header_outcome_snoc:
  "header_outcome (bs @ d) = (case header_outcome bs of
      Dropped \<Rightarrow> Dropped
    | Waiting _ \<Rightarrow> header_outcome (bs @ d)
    | Serving client rest \<Rightarrow> Serving client (rest @ d))"
proof (cases "parse_header bs = Inr None")
  case False
  have "n \<le> length bs" if "parse_header bs = Inr (Some (cl, n))" for cl n
    using parse_header_consumed(2) [OF that] .
  then show ?thesis
    using parse_header_stable [OF False, of d]
    by (auto simp: header_outcome_def split: sum.splits option.splits)
qed (simp add: header_outcome_def)

lemma close_view: "conn_view (close c) = Dropped"
  by (simp add: close_def abort_def cancel_timer_def conn_view_def split: option.splits)

lemma data_received_view:
  assumes room: "lends_space room"
    and t: "conn_transport c = Some t" "\<not> aborted t" "proto t = Header_Reader"
  shows "\<exists>c'. data_received room d c = Some c' \<and> conn_view c' = header_outcome (conn_buf c @ d)"
proof (cases "parse_header (conn_buf c @ d)")
  case (Inl e)
  then show ?thesis by (simp add: data_received_def Let_def header_outcome_def close_view)
next
  case (Inr r)
  show ?thesis
  proof (cases r)
    case None
    with Inr t show ?thesis by (simp add: data_received_def Let_def header_outcome_def conn_view_def)
  next
    case (Some p)
    obtain cl n where p: "p = (cl, n)" by (cases p)
    obtain cs where "feed room (drop n (conn_buf c @ d)) = Some cs" "concat cs = drop n (conn_buf c @ d)"
      using feed_total [OF room] by blast
    with Inr Some p t show ?thesis
      by (simp add: data_received_def Let_def header_outcome_def start_tls_def cancel_timer_def conn_view_def)
  qed
qed

lemma deliver_data_view:
  assumes "lends_space room" and "conn_view c = header_outcome bs"
  shows "\<exists>c'. deliver room (Data d) c = Some c' \<and> conn_view c' = header_outcome (bs @ d)"
proof (cases "conn_view c")
  case Dropped
  moreover from Dropped have "deliver room (Data d) c = Some c"
    by (auto simp: conn_view_def split: option.splits if_splits transport_protocol.splits)
  ultimately show ?thesis using assms(2) header_outcome_snoc [of bs d] by simp
next
  case (Waiting b)
  then obtain t where t: "conn_transport c = Some t" "\<not> aborted t" "proto t = Header_Reader" "b = conn_buf c"
    by (auto simp: conn_view_def split: option.splits if_splits transport_protocol.splits)
  have "b = bs" using Waiting assms(2) by (auto simp: header_outcome_def split: sum.splits option.splits)
  with t data_received_view [OF assms(1) t(1-3), of d] show ?thesis by simp
next
  case (Serving cl rest)
  then obtain t chunks where t: "conn_transport c = Some t" "\<not> aborted t" "proto t = Tls cl chunks" "concat chunks = rest"
    by (auto simp: conn_view_def split: option.splits if_splits transport_protocol.splits)
  moreover have "header_outcome bs = Serving cl rest" using Serving assms(2) by simp
  ultimately show ?thesis using header_outcome_snoc [of bs d] by (simp add: conn_view_def)
qed

lemma run_data_view:
  assumes "lends_space room" and "conn_view c = header_outcome bs"
  shows "\<exists>c'. run_conn room (map Data segs) c = Some c' \<and> conn_view c' = header_outcome (bs @ concat segs)"
  using assms(2)
proof (induction segs arbitrary: c bs)
  case (Cons d segs)
  obtain c' where "deliver room (Data d) c = Some c'" "conn_view c' = header_outcome (bs @ d)"
    using deliver_data_view [OF assms(1) Cons.prems] by blast
  with Cons.IH [of c' "bs @ d"] show ?case by simp
qed simp

text \<open>
  C18: a connection from a trusted proxy ends up as the whole byte stream says, whatever
  segments it arrived in: dropped when the stream does not start with a valid header,
  otherwise serving the client of the header with exactly the bytes that follow it.
\<close>

theorem listener_ignores_segmentation:
  assumes "lends_space room" and "is_trusted peer (trusted cls)"
  shows "\<exists>c'. run_conn room (map Data segs) (connection_made cls (Some peer) new_conn) = Some c' \<and>
     conn_view c' = header_outcome (concat segs)"
proof -
  have "conn_view (connection_made cls (Some peer) new_conn) = header_outcome []"
    using assms(2) by (simp add: connection_made_def new_conn_def conn_view_def header_outcome_def parse_header_def)
  from run_data_view [OF assms(1) this] show ?thesis by simp
qed

section \<open>Every run of the event loop\<close>

definition stream :: "conn_event list \<Rightarrow> bytes" where
  "stream evs = concat (map (\<lambda>ev. case ev of Data d \<Rightarrow> d | _ \<Rightarrow> []) evs)"

definition conn_inv :: "conn_event list \<Rightarrow> proxy_conn \<Rightarrow> bool" where
  "conn_inv evs c \<longleftrightarrow>
     (case conn_view c of
        Dropped \<Rightarrow> True
      | Waiting b \<Rightarrow> conn_timer c \<and> header_outcome (stream evs) = Waiting b \<and> Timeout \<notin> set evs
      | Serving client rest \<Rightarrow> \<not> conn_timer c \<and> header_outcome (stream evs) = Serving client rest)"

lemma stream_snoc [simp]:
  "stream (evs @ [Data d]) = stream evs @ d" "stream (evs @ [Eof]) = stream evs"
  "stream (evs @ [Lost]) = stream evs" "stream (evs @ [Timeout]) = stream evs"
  by (simp_all add: stream_def)

lemma run_conn_append:
  "run_conn room (evs @ evs') c = Option.bind (run_conn room evs c) (run_conn room evs')"
proof (induction evs arbitrary: c)
  case (Cons ev evs)
  then show ?case by (cases "deliver room ev c") simp_all
qed simp

lemma abort_view: "conn_view (abort c) = Dropped"
  by (simp add: abort_def conn_view_def split: option.splits)

lemma dropped_deliver: "conn_view c = Dropped \<Longrightarrow> \<exists>c'. deliver room ev c = Some c' \<and> conn_view c' = Dropped"
proof (cases ev)
  case (Data d)
  assume "conn_view c = Dropped"
  with Data show ?thesis
    by (auto simp: conn_view_def split: option.splits if_splits transport_protocol.splits)
next
  case Timeout
  assume "conn_view c = Dropped"
  with Timeout show ?thesis by (simp add: on_timeout_def close_view)
qed (auto simp: conn_view_def connection_lost_def cancel_timer_def abort_def split: option.splits if_splits transport_protocol.splits)

lemma dropped_run: "conn_view c = Dropped \<Longrightarrow> \<exists>c'. run_conn room evs c = Some c' \<and> conn_view c' = Dropped"
proof (induction evs arbitrary: c)
  case (Cons ev evs)
  then obtain c' where "deliver room ev c = Some c'" "conn_view c' = Dropped" using dropped_deliver by blast
  with Cons.IH [of c'] show ?case by simp
qed simp

lemma data_received_timer:
  assumes "data_received room d c = Some c'" and "conn_timer c"
  shows "case header_outcome (conn_buf c @ d) of Waiting _ \<Rightarrow> conn_timer c' | _ \<Rightarrow> \<not> conn_timer c'"
  using assms
  by (auto simp: data_received_def header_outcome_def Let_def close_def abort_def cancel_timer_def start_tls_def
      bind_eq_Some_conv split: sum.splits option.splits)

lemma conn_inv_data:
  assumes "lends_space room" and "conn_inv evs c"
  shows "\<exists>c'. deliver room (Data d) c = Some c' \<and> conn_inv (evs @ [Data d]) c'"
proof (cases "conn_view c")
  case Dropped
  from dropped_deliver [OF this, of room "Data d"] show ?thesis by (auto simp: conn_inv_def)
next
  case (Waiting b)
  then obtain t where t: "conn_transport c = Some t" "\<not> aborted t" "proto t = Header_Reader" "b = conn_buf c"
    by (auto simp: conn_view_def split: option.splits if_splits transport_protocol.splits)
  have inv: "conn_timer c" "header_outcome (stream evs) = Waiting b" "Timeout \<notin> set evs"
    using assms(2) Waiting by (simp_all add: conn_inv_def)
  then have b: "stream evs = b" by (auto simp: header_outcome_def split: sum.splits option.splits)
  obtain c' where c': "data_received room d c = Some c'" "conn_view c' = header_outcome (b @ d)"
    using data_received_view [OF assms(1) t(1-3)] t(4) by blast
  from data_received_timer [OF c'(1) inv(1)] have "conn_inv (evs @ [Data d]) c'"
    using inv(3) by (auto simp: conn_inv_def c'(2) b t(4) [symmetric] split: conn_view.splits)
  with c'(1) t show ?thesis by simp
next
  case (Serving cl rest)
  then obtain t chunks where t: "conn_transport c = Some t" "\<not> aborted t" "proto t = Tls cl chunks" "concat chunks = rest"
    by (auto simp: conn_view_def split: option.splits if_splits transport_protocol.splits)
  moreover have "header_outcome (stream evs) = Serving cl rest" "\<not> conn_timer c"
    using assms(2) Serving by (simp_all add: conn_inv_def)
  ultimately show ?thesis using header_outcome_snoc [of "stream evs" d] by (simp add: conn_inv_def conn_view_def)
qed

lemma conn_inv_deliver:
  assumes "lends_space room" and "conn_inv evs c"
  shows "\<exists>c'. deliver room ev c = Some c' \<and> conn_inv (evs @ [ev]) c'"
proof (cases "conn_view c = Dropped")
  case True
  from dropped_deliver [OF this, of room ev] show ?thesis by (auto simp: conn_inv_def)
next
  case False
  then obtain t where t: "conn_transport c = Some t" "\<not> aborted t"
    by (auto simp: conn_view_def split: option.splits if_splits)
  show ?thesis
  proof (cases ev)
    case (Data d)
    with conn_inv_data [OF assms] show ?thesis by simp
  next
    case Eof
    show ?thesis
    proof (cases "proto t")
      case Header_Reader
      then show ?thesis using Eof t by (simp add: conn_inv_def abort_view)
    next
      case (Tls cl chunks)
      with Eof t assms(2) show ?thesis by (simp add: conn_inv_def conn_view_def)
    qed
  next
    case Lost
    have "conn_view (connection_lost (abort c)) = Dropped"
      by (simp add: connection_lost_def cancel_timer_def abort_def conn_view_def split: option.splits)
    with Lost t show ?thesis by (simp add: conn_inv_def abort_view)
  next
    case Timeout
    show ?thesis
    proof (cases "conn_timer c")
      case True
      with Timeout show ?thesis by (simp add: conn_inv_def on_timeout_def close_view)
    next
      case no: False
      with Timeout assms(2) show ?thesis by (auto simp: conn_inv_def split: conn_view.splits)
    qed
  qed
qed

lemma conn_inv_run:
  assumes "lends_space room" and "conn_inv [] c"
  shows "\<exists>c'. run_conn room evs c = Some c' \<and> conn_inv evs c'"
proof (induction evs rule: rev_induct)
  case (snoc ev evs)
  then obtain c' where c': "run_conn room evs c = Some c'" "conn_inv evs c'" by blast
  from conn_inv_deliver [OF assms(1) c'(2), of ev] c'(1) show ?case
    by (auto simp: run_conn_append)
qed (use assms in simp)

lemma conn_inv_made:
  "conn_inv [] (connection_made cls peer new_conn)"
  by (simp add: conn_inv_def connection_made_def new_conn_def conn_view_def header_outcome_def parse_header_def
      stream_def abort_def Let_def)

lemma made_untrusted:
  "\<not> is_trusted (case peer of None \<Rightarrow> ''?'' | Some h \<Rightarrow> h) (trusted cls) \<Longrightarrow>
   conn_view (connection_made cls peer new_conn) = Dropped"
  by (simp add: connection_made_def new_conn_def Let_def abort_view)

lemma unknown_peer_untrusted [simp]: "\<not> is_trusted ''?'' networks"
proof -
  have "case ip_address ''?'' of Inl _ \<Rightarrow> True | Inr _ \<Rightarrow> False" by code_simp
  then show ?thesis by (simp add: is_trusted_def split: sum.splits)
qed

text \<open>
  C19: whatever the event loop delivers, a connection that is being served came from a
  trusted proxy, and the client and the bytes handed to TLS are the ones the PROXY header
  at the start of its stream determines.
\<close>

theorem served_only_behind_header:
  assumes "lends_space room"
    and "run_conn room evs (connection_made cls peer new_conn) = Some c"
    and "conn_view c = Serving client rest"
  shows "\<exists>h. peer = Some h \<and> is_trusted h (trusted cls) \<and> header_outcome (stream evs) = Serving client rest"
proof -
  have "conn_inv evs c" using conn_inv_run [OF assms(1) conn_inv_made, of evs cls peer] assms(2) by auto
  then have "header_outcome (stream evs) = Serving client rest" using assms(3) by (simp add: conn_inv_def)
  moreover have "is_trusted (case peer of None \<Rightarrow> ''?'' | Some h \<Rightarrow> h) (trusted cls)"
    using dropped_run [OF made_untrusted, of peer cls room evs] assms(2,3) by auto
  ultimately show ?thesis by (cases peer) simp_all
qed

text \<open>
  C20: no connection is left waiting: once the header timer has fired, or 4112 bytes have
  arrived, it has been dropped or handed to TLS, and while it waits it buffers fewer bytes
  than that.
\<close>

theorem header_wait_ends:
  assumes "lends_space room"
  shows "\<exists>c. run_conn room evs (connection_made cls peer new_conn) = Some c \<and>
     (case conn_view c of
        Waiting b \<Rightarrow> Timeout \<notin> set evs \<and> length (stream evs) < 4112 \<and> b = stream evs
      | _ \<Rightarrow> True)"
proof -
  obtain c where c: "run_conn room evs (connection_made cls peer new_conn) = Some c" "conn_inv evs c"
    using conn_inv_run [OF assms conn_inv_made] by blast
  have "length bs < 4112 \<and> b = bs" if "header_outcome bs = Waiting b" for bs b
    using that parse_header_decides [of bs]
    by (fastforce simp: header_outcome_def header_limit_def V2_HEADER_LEN_def V2_MAX_BODY_def not_le [symmetric]
        split: sum.splits option.splits)
  with c show ?thesis by (auto simp: conn_inv_def split: conn_view.splits)
qed

section \<open>Witnesses\<close>

definition lb_class :: "unit proxy_class" where
  "lb_class = \<lparr>ssl_context = (), trusted = [Net4 \<lparr>network_address = 167772160, prefixlen = 8\<rparr>],
     header_timeout = 5000000, handshake_timeout = 10000000\<rparr>"

definition lb_header :: bytes where
  "lb_header = encode_v1 (IPv4 3405803783) (IPv4 167772161) 51000 8443"

definition lb_room :: "nat \<Rightarrow> nat" where "lb_room n = 65536"

lemma lb_facts: "lends_space lb_room" "is_trusted ''10.0.0.5'' (trusted lb_class)"
  by (simp add: lends_space_def lb_room_def) code_simp

theorem listener_ignores_segmentation_witness:
  "\<exists>c'. run_conn lb_room (map Data [take 5 lb_header, drop 5 lb_header @ ''hello'', '' world''])
     (connection_made lb_class (Some ''10.0.0.5'') new_conn) = Some c' \<and>
   conn_view c' = Serving (Some (''203.0.113.7'', 51000)) ''hello world''"
proof -
  have "header_outcome (concat [take 5 lb_header, drop 5 lb_header @ ''hello'', '' world'']) =
      Serving (Some (''203.0.113.7'', 51000)) ''hello world''" by code_simp
  then show ?thesis using listener_ignores_segmentation [OF lb_facts] by metis
qed

theorem served_only_behind_header_witness:
  "\<exists>c. run_conn lb_room [Data (lb_header @ ''hello'')] (connection_made lb_class (Some ''10.0.0.5'') new_conn) = Some c \<and>
     conn_view c = Serving (Some (''203.0.113.7'', 51000)) ''hello'' \<and>
     (\<exists>h. Some ''10.0.0.5'' = Some h \<and> is_trusted h (trusted lb_class) \<and>
       header_outcome (stream [Data (lb_header @ ''hello'')]) = Serving (Some (''203.0.113.7'', 51000)) ''hello'')"
proof -
  let ?c = "connection_made lb_class (Some ''10.0.0.5'') new_conn"
  have "conn_view ?c = header_outcome []" by code_simp
  moreover have "header_outcome ([] @ concat [lb_header @ ''hello'']) = Serving (Some (''203.0.113.7'', 51000)) ''hello''"
    by code_simp
  ultimately obtain c where c: "run_conn lb_room [Data (lb_header @ ''hello'')] ?c = Some c"
      "conn_view c = Serving (Some (''203.0.113.7'', 51000)) ''hello''"
    using run_data_view [OF lb_facts(1), of ?c "[]" "[lb_header @ ''hello'']"] by (auto simp del: run_conn.simps)
  from served_only_behind_header [OF lb_facts(1) c] c show ?thesis by blast
qed

theorem header_wait_ends_witness:
  "\<exists>c. run_conn lb_room [Data (take 5 lb_header), Timeout] (connection_made lb_class (Some ''10.0.0.5'') new_conn) = Some c \<and>
     (\<forall>b. conn_view c \<noteq> Waiting b)"
proof -
  obtain c where "run_conn lb_room [Data (take 5 lb_header), Timeout] (connection_made lb_class (Some ''10.0.0.5'') new_conn) = Some c"
    and "case conn_view c of Waiting b \<Rightarrow> Timeout \<notin> set [Data (take 5 lb_header), Timeout] \<and>
      length (stream [Data (take 5 lb_header), Timeout]) < 4112 \<and> b = stream [Data (take 5 lb_header), Timeout] | _ \<Rightarrow> True"
    using header_wait_ends [OF lb_facts(1)] by blast
  moreover from this(2) have "conn_view c \<noteq> Waiting b" for b by auto
  ultimately show ?thesis by blast
qed

end
