(* ===== verification/Pki_Bootstrap.thy ===== *)
theory Pki_Bootstrap
  imports Pki
begin

text \<open>
  \<^verbatim>\<open>VaultPKI.bootstrap\<close>: under the stated behaviour of Vault, setting up the mounts and roles
  gives each role one use only and is safe to repeat.
\<close>

section \<open>Bootstrap\<close>

text \<open>
  What the bootstrap relies on of Vault: \<^verbatim>\<open>/ca_chain\<close> reads the installed chain, which only
  installing a signed intermediate changes, and writing a role stores its parameters.
\<close>

definition ca_chain_path :: "string \<Rightarrow> string" where "ca_chain_path m = ''/v1/'' @ m @ ''/ca_chain''"

definition vault_laws :: "'v vault \<Rightarrow> ('v \<Rightarrow> string \<Rightarrow> string option) \<Rightarrow> ('v \<Rightarrow> string \<Rightarrow> string \<Rightarrow> vault_role option) \<Rightarrow> bool" where
  "vault_laws v chain role \<longleftrightarrow>
     (\<forall>m s. v_get v (ca_chain_path m) s = (s, Inr (chain s m))) \<and>
     (\<forall>path s. chain (fst (v_get v path s)) = chain s) \<and>
     (\<forall>m l s. chain (fst (v_enable_pki v m l s)) = chain s) \<and>
     (\<forall>m l s. chain (fst (v_tune_mount v m l s)) = chain s) \<and>
     (\<forall>m s. chain (fst (v_generate_root v m s)) = chain s) \<and>
     (\<forall>m r q s. chain (fst (v_role v m r q s)) = chain s) \<and>
     (\<forall>m r q s s'. v_role v m r q s = (s', Inr ()) \<longrightarrow> role s' = (role s)(m := (role s m)(r \<mapsto> q)))"

lemma vault_lawsD:
  assumes "vault_laws v chain role"
  shows "v_get v (ca_chain_path m) s = (s, Inr (chain s m))"
    and "v_get v path s = (s', r1) \<Longrightarrow> chain s' = chain s"
    and "v_enable_pki v m l s = (s', r2) \<Longrightarrow> chain s' = chain s"
    and "v_tune_mount v m l s = (s', r2) \<Longrightarrow> chain s' = chain s"
    and "v_generate_root v m s = (s', r2) \<Longrightarrow> chain s' = chain s"
    and "v_role v m r q s = (s', r2) \<Longrightarrow> chain s' = chain s"
    and "v_role v m r q s = (s', Inr ()) \<Longrightarrow> role s' = (role s)(m := (role s m)(r \<mapsto> q))"
  using assms unfolding vault_laws_def by (metis fst_conv)+

definition pem_body :: "string option \<Rightarrow> string" where
  "pem_body t = (case t of None \<Rightarrow> [] | Some x \<Rightarrow> if contains ''BEGIN CERTIFICATE'' x then x else [])"

lemma read_int_ca_chain_laws:
  assumes "vault_laws v chain role"
  shows "read_int_ca_chain v m s = (s, Inr (pem_body (chain s m)))"
  using vault_lawsD(1) [OF assms, of m s]
  by (simp add: read_int_ca_chain_def andThen_def handling_def returning_def ca_chain_path_def pem_body_def)

lemma enable_mount_chain:
  assumes "vault_laws v chain role" and "enable_mount v m l s = (s', Inr u)"
  shows "chain s' = chain s"
  using assms(2) vault_lawsD(3,4) [OF assms(1)]
  by (auto simp: enable_mount_def tolerate_def result_simps split: if_splits)

lemma ensure_root_chain:
  assumes "vault_laws v chain role" and "ensure_root v m s = (s', Inr u)"
  shows "chain s' = chain s"
  using assms(2) vault_lawsD(5) [OF assms(1)]
  by (auto simp: ensure_root_def tolerate_def result_simps split: if_splits)

lemma ensure_intermediate_chain:
  assumes "vault_laws v chain role" and "ensure_intermediate v rm im s = (s', Inr u)" and "pem_body (chain s im) \<noteq> []"
  shows "s' = s"
  using assms by (auto simp: ensure_intermediate_def andThen_def read_int_ca_chain_laws returning_def)

text \<open>
  a successful bootstrap leaves the server role for server authentication only and the
  client role for client authentication only, reports the installed chain as the bundle, and
  never replaces an intermediate that is already installed.
\<close>

theorem bootstrap_configures_vault:
  assumes "vault_laws v chain role" and "server_role \<noteq> client_role"
    and "bootstrap v rm im server_role client_role domains ttl s = (s', Inr p)"
  shows "role s' im server_role = Some (role_params domains True False ttl) \<and>
     role s' im client_role = Some (role_params domains False True ttl) \<and>
     vp_ca_bundle_pem p \<noteq> [] \<and> chain s' im = Some (vp_ca_bundle_pem p) \<and>
     (pem_body (chain s im) \<noteq> [] \<longrightarrow> chain s' im = chain s im)"
proof -
  obtain s1 s2 s3 s4 s5 where
    e1: "enable_mount v rm ''87600h'' s = (s1, Inr ())" and e2: "enable_mount v im ''43800h'' s1 = (s2, Inr ())"
    and r: "ensure_root v rm s2 = (s3, Inr ())" and i: "ensure_intermediate v rm im s3 = (s4, Inr ())"
    and u1: "v_role v im server_role (role_params domains True False ttl) s4 = (s5, Inr ())"
    and u2: "v_role v im client_role (role_params domains False True ttl) s5 = (s', Inr ())"
    and b: "vp_ca_bundle_pem p = pem_body (chain s' im)" "pem_body (chain s' im) \<noteq> []"
    using assms(3)
    by (auto simp: bootstrap_def upsert_role_def result_simps as_pki_error_def read_int_ca_chain_laws [OF assms(1)]
        split: if_splits)
  have c3: "chain s3 = chain s"
    using enable_mount_chain [OF assms(1) e1] enable_mount_chain [OF assms(1) e2] ensure_root_chain [OF assms(1) r] by simp
  have c5: "chain s' = chain s4" using vault_lawsD(6) [OF assms(1) u1] vault_lawsD(6) [OF assms(1) u2] by simp
  have roles: "role s' im server_role = Some (role_params domains True False ttl)"
    "role s' im client_role = Some (role_params domains False True ttl)"
    using vault_lawsD(7) [OF assms(1) u1] vault_lawsD(7) [OF assms(1) u2] assms(2) by simp_all
  have "chain s' im = Some (vp_ca_bundle_pem p)"
    using b by (simp add: pem_body_def split: option.splits if_splits)
  moreover have "chain s' im = chain s im" if "pem_body (chain s im) \<noteq> []"
    using ensure_intermediate_chain [OF assms(1) i] that c3 c5 by simp
  ultimately show ?thesis using roles b by simp
qed

text \<open>A Vault that keeps the text of its read endpoints by path, and its roles.\<close>

type_synonym file_vault_state = "(string \<Rightarrow> string option) \<times> (string \<Rightarrow> string \<Rightarrow> vault_role option)"

definition file_vault :: "file_vault_state vault" where
  "file_vault =
     \<lparr>v_enable_pki = \<lambda>m l. raising (VaultInvalidRequest ''path is already in use at pki/''),
      v_tune_mount = \<lambda>m l. returning (),
      v_generate_root = \<lambda>m. returning (),
      v_generate_intermediate = \<lambda>m. returning ''csr'',
      v_sign_intermediate = \<lambda>m csr. returning ''-----BEGIN CERTIFICATE-----'',
      v_set_signed = \<lambda>m c s. (((fst s)(ca_chain_path m \<mapsto> c), snd s), Inr ()),
      v_role = \<lambda>m r q s. ((fst s, (snd s)(m := (snd s m)(r \<mapsto> q))), Inr ()),
      v_issue = \<lambda>r cn ex m. raising (VaultOther ''sealed''),
      v_revoke = \<lambda>n m. returning (),
      v_get = \<lambda>path s. (s, Inr (fst s path)),
      v_validity = \<lambda>pem. Inr (0, 0)\<rparr>"

lemma file_vault_laws: "vault_laws file_vault (\<lambda>s m. fst s (ca_chain_path m)) snd"
  by (auto simp: vault_laws_def file_vault_def raising_def returning_def)

theorem bootstrap_configures_vault_witness:
  "\<exists>s' p. bootstrap file_vault ''pki'' ''pki_int'' ''server'' ''client'' [] ''8760h'' (\<lambda>_. None, \<lambda>_ _. None) = (s', Inr p) \<and>
     snd s' ''pki_int'' ''server'' = Some (role_params [] True False ''8760h'')"
proof -
  let ?run = "bootstrap file_vault ''pki'' ''pki_int'' ''server'' ''client'' [] ''8760h'' (\<lambda>_. None, \<lambda>_ _. None)"
  have "case snd ?run of Inr _ \<Rightarrow> True | Inl _ \<Rightarrow> False" by code_simp
  then obtain s' p where run: "?run = (s', Inr p)" by (metis (no_types, lifting) old.sum.exhaust prod.collapse sum.case(1))
  from bootstrap_configures_vault [OF file_vault_laws _ run] show ?thesis using run by auto
qed
end
