(* ===== verification/Crypto.thy ===== *)
theory Crypto
  imports Bytes Tasks Servers
begin

text \<open>
  \<^verbatim>\<open>crypto.py\<close>: encryption at rest with a context that is bound to the ciphertext, by a frame
  inside a Fernet token for development and by Vault's Transit engine in production. Fernet
  and Transit are parameters with their documented behaviour as named hypotheses. The theory
  ends with the composition the backends exist for: the bootstrap key a registration encrypts
  is the one the provisioning task dials with.
\<close>

section \<open>The local backend\<close>

record fernet =
  f_encrypt :: "bytes \<Rightarrow> string"
  f_decrypt :: "string \<Rightarrow> bytes result"

text \<open>What \<^verbatim>\<open>Fernet.decrypt\<close> raises for a token it refuses.\<close>

definition InvalidToken :: exn where "InvalidToken = OtherError ''InvalidToken''"

definition local_prefix :: string where "local_prefix = ''local:v1:''"

definition local_encrypt :: "fernet \<Rightarrow> bytes \<Rightarrow> string \<Rightarrow> string result" where
  "local_encrypt f plaintext ctx =
     (if 65535 < length ctx then Inl (ValueError (''context too long ('' @ str_of_nat (length ctx) @ '' bytes > 65535)''))
      else Inr (local_prefix @ f_encrypt f (to_bytes 2 (length ctx) @ ctx @ plaintext)))"

definition local_decrypt :: "fernet \<Rightarrow> string \<Rightarrow> string \<Rightarrow> bytes result" where
  "local_decrypt f blob ctx =
     (if \<not> startswith blob local_prefix
      then Inl (DecryptError (''blob missing '' @ py_repr local_prefix @ '' prefix; not a local-dev ciphertext''))
      else case f_decrypt f (drop (length local_prefix) blob) of
          Inl x \<Rightarrow> Inl (if x = InvalidToken then DecryptError ''local-dev decrypt failed'' else x)
        | Inr framed \<Rightarrow>
            let context_len = from_bytes (take 2 framed); stored_context = take context_len (drop 2 framed) in
            if stored_context \<noteq> ctx then Inl (DecryptError ''local-dev decrypt failed'')
            else Inr (drop (2 + context_len) framed))"

section \<open>The Vault backend\<close>

record transit =
  t_encrypt_data :: "string \<Rightarrow> string \<Rightarrow> string \<Rightarrow> string \<Rightarrow> string result"
  t_decrypt_data :: "string \<Rightarrow> string \<Rightarrow> string \<Rightarrow> string \<Rightarrow> string result"
  t_latest_version :: "string \<Rightarrow> string \<Rightarrow> int result"
  t_rotate_key :: "string \<Rightarrow> string \<Rightarrow> unit result"

record vault_transit =
  vt_key_name :: string
  vt_mount_point :: string

definition transit_prefix :: string where "transit_prefix = ''vault:''"

definition vault_encrypt :: "transit \<Rightarrow> vault_transit \<Rightarrow> bytes \<Rightarrow> string \<Rightarrow> string result" where
  "vault_encrypt t b plaintext ctx =
     t_encrypt_data t (vt_key_name b) (b64encode plaintext) (b64encode ctx) (vt_mount_point b)"

definition hvac_error :: "exn \<Rightarrow> bool" where
  "hvac_error e = (case e of VaultInvalidRequest _ \<Rightarrow> True | VaultInvalidPath _ \<Rightarrow> True | VaultOther _ \<Rightarrow> True | _ \<Rightarrow> False)"

definition vault_decrypt :: "transit \<Rightarrow> vault_transit \<Rightarrow> string \<Rightarrow> string \<Rightarrow> bytes result" where
  "vault_decrypt t b blob ctx =
     (if \<not> startswith blob transit_prefix
      then Inl (DecryptError (''blob missing '' @ py_repr transit_prefix @ '' prefix; not a vault-transit ciphertext''))
      else case t_decrypt_data t (vt_key_name b) blob (b64encode ctx) (vt_mount_point b) of
          Inl e \<Rightarrow> Inl (if hvac_error e then DecryptError ''vault transit decrypt failed'' else e)
        | Inr plaintext \<Rightarrow> b64decode plaintext)"

definition vault_rotate :: "transit \<Rightarrow> vault_transit \<Rightarrow> unit result" where
  "vault_rotate t b = t_rotate_key t (vt_key_name b) (vt_mount_point b)"

section \<open>The factory and the status endpoint\<close>

datatype crypto_backend = Local_Dev string | Vault_Transit string string vault_transit

record crypto_settings =
  cs_backend :: string
  cs_local_dev_key :: string
  cs_vault_token :: string
  cs_vault_addr :: string
  cs_transit_key :: string
  cs_transit_mount :: string

text \<open>\<^verbatim>\<open>Fernet(key)\<close> raises \<^verbatim>\<open>ValueError\<close> on a malformed key; \<^verbatim>\<open>valid_key\<close> stands for its check.\<close>

definition make_crypto_backend :: "(string \<Rightarrow> bool) \<Rightarrow> crypto_settings \<Rightarrow> crypto_backend result" where
  "make_crypto_backend valid_key settings =
     (let kind = lower (cs_backend settings) in
      if kind = ''local''
      then (if cs_local_dev_key settings = []
            then Inl (ValueError (''CRYPTO_BACKEND=local requires CRYPTO_LOCAL_DEV_KEY to be set. '' @
               ''Generate one with: python -c '' @ [CHR 0x27] @ ''from cryptography.fernet import '' @
               ''Fernet; print(Fernet.generate_key().decode())'' @ [CHR 0x27]))
            else if \<not> valid_key (cs_local_dev_key settings)
            then Inl (ValueError ''Fernet key must be 32 url-safe base64-encoded bytes.'')
            else Inr (Local_Dev (cs_local_dev_key settings)))
      else if kind = ''vault''
      then (if cs_vault_token settings = []
            then Inl (ValueError (''CRYPTO_BACKEND=vault requires CRYPTO_VAULT_TOKEN (or VAULT_TOKEN) '' @
               ''to be set. Phase 2e replaces this with AppRole.''))
            else Inr (Vault_Transit (cs_vault_addr settings) (cs_vault_token settings)
              \<lparr>vt_key_name = cs_transit_key settings, vt_mount_point = cs_transit_mount settings\<rparr>))
      else Inl (ValueError (''unknown CRYPTO_BACKEND='' @ py_repr (cs_backend settings) @ ''; must be '' @
             py_repr ''local'' @ '' or '' @ py_repr ''vault'')))"

fun crypto_name :: "crypto_backend \<Rightarrow> string" where
  "crypto_name (Local_Dev _) = ''local-dev''"
| "crypto_name (Vault_Transit _ _ _) = ''vault-transit''"

fun crypto_key_version :: "transit \<Rightarrow> crypto_backend \<Rightarrow> int result" where
  "crypto_key_version t (Local_Dev _) = Inr 1"
| "crypto_key_version t (Vault_Transit _ _ b) = t_latest_version t (vt_key_name b) (vt_mount_point b)"

definition get_crypto_status :: "transit \<Rightarrow> crypto_backend \<Rightarrow> (string \<times> int) result" where
  "get_crypto_status t b = rbind (crypto_key_version t b) (\<lambda>v. Inr (crypto_name b, v))"

section \<open>What the backends promise\<close>

text \<open>
  \<^verbatim>\<open>CryptoBackend\<close>: decryption under the same context gives the plaintext back, under any other
  it raises \<^verbatim>\<open>DecryptError\<close>.
\<close>

definition crypto_laws :: "(bytes \<Rightarrow> string \<Rightarrow> string result) \<Rightarrow> (string \<Rightarrow> string \<Rightarrow> bytes result) \<Rightarrow> bool" where
  "crypto_laws enc dec \<longleftrightarrow>
     (\<forall>p c b. enc p c = Inr b \<longrightarrow> dec b c = Inr p \<and> (\<forall>c'. c' \<noteq> c \<longrightarrow> (\<exists>m. dec b c' = Inl (DecryptError m))))"

definition fernet_laws :: "fernet \<Rightarrow> bool" where
  "fernet_laws f \<longleftrightarrow> (\<forall>x. f_decrypt f (f_encrypt f x) = Inr x)"

text \<open>
  Transit with a derived key: a ciphertext starts with \<^verbatim>\<open>vault:\<close>, decrypts under its context, and is
  refused with an \<^verbatim>\<open>InvalidRequest\<close> under another.
\<close>

definition transit_laws :: "transit \<Rightarrow> bool" where
  "transit_laws t \<longleftrightarrow>
     (\<forall>k p c m b. t_encrypt_data t k p c m = Inr b \<longrightarrow> startswith b transit_prefix \<and> t_decrypt_data t k b c m = Inr p \<and>
        (\<forall>c'. c' \<noteq> c \<longrightarrow> (\<exists>x. t_decrypt_data t k b c' m = Inl (VaultInvalidRequest x))))"

lemma frame_parts:
  assumes "length ctx \<le> 65535" and "framed = to_bytes 2 (length ctx) @ ctx @ plaintext"
  shows "from_bytes (take 2 framed) = length ctx" "take (length ctx) (drop 2 framed) = ctx"
    "drop (2 + length ctx) framed = plaintext"
  using assms from_to_bytes [of "length ctx" 2] by simp_all

lemma local_decrypt_encrypted:
  assumes "fernet_laws f" and "local_encrypt f p c = Inr b"
  shows "local_decrypt f b c' = (if c = c' then Inr p else Inl (DecryptError ''local-dev decrypt failed''))"
proof -
  let ?framed = "to_bytes 2 (length c) @ c @ p"
  have len: "length c \<le> 65535" and b: "b = local_prefix @ f_encrypt f ?framed"
    using assms(2) by (auto simp: local_encrypt_def split: if_splits)
  have "startswith b local_prefix" "drop (length local_prefix) b = f_encrypt f ?framed"
    by (simp_all add: b startswith_def)
  moreover have "f_decrypt f (f_encrypt f ?framed) = Inr ?framed" using assms(1) by (simp add: fernet_laws_def)
  ultimately show ?thesis
    unfolding local_decrypt_def using frame_parts [OF len refl, of p] by (simp add: Let_def)
qed

lemma local_crypto_laws: "fernet_laws f \<Longrightarrow> crypto_laws (local_encrypt f) (local_decrypt f)"
  by (simp add: crypto_laws_def local_decrypt_encrypted)

lemma vault_crypto_laws:
  assumes "transit_laws t"
  shows "crypto_laws (vault_encrypt t k) (vault_decrypt t k)"
  unfolding crypto_laws_def
proof (intro allI impI conjI)
  fix p c b
  assume e: "vault_encrypt t k p c = Inr b"
  then have b: "startswith b transit_prefix" "t_decrypt_data t (vt_key_name k) b (b64encode c) (vt_mount_point k) = Inr (b64encode p)"
    using assms unfolding vault_encrypt_def transit_laws_def by blast+
  then show "vault_decrypt t k b c = Inr p" by (simp add: vault_decrypt_def b64_roundtrip)
  fix c' :: string
  assume "c' \<noteq> c"
  then have "b64encode c' \<noteq> b64encode c" by (metis b64_roundtrip sum.inject(2))
  then obtain x where "t_decrypt_data t (vt_key_name k) b (b64encode c') (vt_mount_point k) = Inl (VaultInvalidRequest x)"
    using assms e unfolding vault_encrypt_def transit_laws_def by blast
  with b(1) show "\<exists>m. vault_decrypt t k b c' = Inl (DecryptError m)" by (simp add: vault_decrypt_def hvac_error_def)
qed

section \<open>From the registration to the provisioning task\<close>

lemma encrypt_bootstrap_kwargs_decrypts:
  assumes "crypto_laws enc dec" and "encrypt_bootstrap_kwargs enc p kind = Inr kw" and "bootstrap_ssh_key_pem p = Some pem"
  shows "\<exists>ct ctx. bootstrap_pem_ciphertext kw = Some ct \<and> bootstrap_pem_context kw = Some ctx \<and> dec ct ctx = Inr pem \<and>
     (case bootstrap_ssh_key_passphrase p of
        None \<Rightarrow> bootstrap_passphrase_ciphertext kw = None
      | Some pp \<Rightarrow> \<exists>ct ctx. bootstrap_passphrase_ciphertext kw = Some ct \<and> bootstrap_passphrase_context kw = Some ctx \<and>
          dec ct ctx = Inr pp)"
  using assms
  by (auto simp: encrypt_bootstrap_kwargs_def crypto_laws_def Let_def rbind_Inr_iff no_bootstrap_def split: option.splits)

text \<open>What the task does with the key it decrypted.\<close>

definition dial_and_bootstrap ::
  "'h task_env \<Rightarrow> ssh_ca \<Rightarrow> string \<Rightarrow> int \<Rightarrow> string \<Rightarrow> string \<Rightarrow> string option \<Rightarrow> 'h \<Rightarrow> 'h \<times> unit result" where
  "dial_and_bootstrap te ca host port user pem passphrase h =
     (case bootstrap_connect te \<lparr>b_host = host, b_port = port, b_username = user, b_key_pem = pem, b_passphrase = passphrase\<rparr> h of
        (h1, Inl e) \<Rightarrow> (h1, Inl e)
      | (h1, Inr r) \<Rightarrow> (case bootstrap_host r host host ca (host_cert_ttl te) h1 of
            (h2, Inl e) \<Rightarrow> (h2, Inl e) | (h2, Inr _) \<Rightarrow> (h2, Inr ())))"

text \<open>
  C25: with either backend, the key and the passphrase that a registration encrypts for its
  provisioning task are the ones the task opens its bootstrap connection with, and under any
  context but its own the ciphertext of the key is refused.
\<close>

theorem bootstrap_key_reaches_task:
  assumes "(\<exists>f. fernet_laws f \<and> enc = local_encrypt f \<and> dec = local_decrypt f) \<or>
      (\<exists>t k. transit_laws t \<and> enc = vault_encrypt t k \<and> dec = vault_decrypt t k)"
    and "encrypt_bootstrap_kwargs enc p kind = Inr kw" and "bootstrap_ssh_key_pem p = Some pem"
    and "decrypt_text te = dec" and "ca_backend te = Inr ca"
  shows "run_bootstrap_if_supplied te host port user kw h =
       dial_and_bootstrap te ca host port user pem (bootstrap_ssh_key_passphrase p) h \<and>
     (\<exists>ct. bootstrap_pem_ciphertext kw = Some ct \<and>
        (\<forall>ctx. ctx \<noteq> ''provision-'' @ kind @ '':bootstrap-pem'' \<longrightarrow> (\<exists>m. dec ct ctx = Inl (DecryptError m))))"
proof
  have laws: "crypto_laws enc dec" using assms(1) local_crypto_laws vault_crypto_laws by blast
  obtain ct ctx where pem: "bootstrap_pem_ciphertext kw = Some ct" "bootstrap_pem_context kw = Some ctx" "dec ct ctx = Inr pem"
    and pp: "case bootstrap_ssh_key_passphrase p of
        None \<Rightarrow> bootstrap_passphrase_ciphertext kw = None
      | Some pp \<Rightarrow> \<exists>ct ctx. bootstrap_passphrase_ciphertext kw = Some ct \<and> bootstrap_passphrase_context kw = Some ctx \<and>
          dec ct ctx = Inr pp"
    using encrypt_bootstrap_kwargs_decrypts [OF laws assms(2,3)] by blast
  show "run_bootstrap_if_supplied te host port user kw h =
      dial_and_bootstrap te ca host port user pem (bootstrap_ssh_key_passphrase p) h"
    using pem pp assms(4,5)
    by (cases "bootstrap_ssh_key_passphrase p") (auto simp: run_bootstrap_if_supplied_def dial_and_bootstrap_def)
  have "enc pem (''provision-'' @ kind @ '':bootstrap-pem'') = Inr ct"
    using assms(2,3) pem(1)
    by (auto simp: encrypt_bootstrap_kwargs_def Let_def rbind_Inr_iff no_bootstrap_def split: option.splits)
  then show "\<exists>ct. bootstrap_pem_ciphertext kw = Some ct \<and>
      (\<forall>ctx. ctx \<noteq> ''provision-'' @ kind @ '':bootstrap-pem'' \<longrightarrow> (\<exists>m. dec ct ctx = Inl (DecryptError m)))"
    using pem(1) laws unfolding crypto_laws_def by blast
qed

definition plain_fernet :: fernet where
  "plain_fernet = \<lparr>f_encrypt = id, f_decrypt = Inr\<rparr>"

definition sample_bootstrap :: bootstrap_fields where
  "sample_bootstrap = \<lparr>bootstrap_ssh_key_pem = Some ''PEM'', bootstrap_ssh_key_passphrase = Some ''secret''\<rparr>"

definition local_env :: "unit task_env" where
  "local_env = quiet_env\<lparr>decrypt_text := local_decrypt plain_fernet\<rparr>"

theorem bootstrap_key_reaches_task_witness:
  "\<exists>kw ca. encrypt_bootstrap_kwargs (local_encrypt plain_fernet) sample_bootstrap ''server'' = Inr kw \<and>
     run_bootstrap_if_supplied local_env ''hub'' 22 ''root'' kw () =
       dial_and_bootstrap local_env ca ''hub'' 22 ''root'' ''PEM'' (Some ''secret'') ()"
proof -
  have "\<not> isl (encrypt_bootstrap_kwargs (local_encrypt plain_fernet) sample_bootstrap ''server'')" by code_simp
  then obtain kw where kw: "encrypt_bootstrap_kwargs (local_encrypt plain_fernet) sample_bootstrap ''server'' = Inr kw"
    by (metis sum.collapse(2))
  obtain ca where ca: "ca_backend local_env = Inr ca" by (simp add: local_env_def quiet_env_def)
  have "fernet_laws plain_fernet" by (simp add: fernet_laws_def plain_fernet_def)
  then have "(\<exists>f. fernet_laws f \<and> local_encrypt plain_fernet = local_encrypt f \<and> local_decrypt plain_fernet = local_decrypt f) \<or>
      (\<exists>t k. transit_laws t \<and> local_encrypt plain_fernet = vault_encrypt t k \<and> local_decrypt plain_fernet = vault_decrypt t k)"
    by blast
  from bootstrap_key_reaches_task [OF this kw _ _ ca] kw show ?thesis
    by (auto simp: sample_bootstrap_def local_env_def)
qed

end
