(* ===== verification/Ssh_Policy.thy ===== *)
theory Ssh_Policy
  imports Tasks Bytes
begin

text \<open>
  \<^verbatim>\<open>ssh.py\<close>: the decision whether the key a host offers is trusted, and the runner that opens
  sessions and executes commands. Paramiko (the transport, parsing private keys) and the parser
  of OpenSSH certificates are parameters. Times are Unix seconds.
\<close>

section \<open>Names and keys\<close>

text \<open>\<^verbatim>\<open>s.split()\<close>: the maximal runs of characters that are not white space.\<close>

fun words_acc :: "string \<Rightarrow> string \<Rightarrow> string list" where
  "words_acc cur [] = (if cur = [] then [] else [rev cur])"
| "words_acc cur (c # cs) =
     (if is_space c then (if cur = [] then words_acc [] cs else rev cur # words_acc [] cs) else words_acc (c # cur) cs)"

definition words :: "string \<Rightarrow> string list" where "words s = words_acc [] s"

definition ca_pubkey_body :: "string \<Rightarrow> string result" where
  "ca_pubkey_body openssh_line =
     (let parts = words (strip openssh_line) in
      if length parts < 2 then Inl (ValueError (''malformed CA public key: '' @ py_repr openssh_line)) else Inr (parts ! 1))"

definition normalise_principal :: "string \<Rightarrow> string" where
  "normalise_principal name = lower (rstrip_if (\<lambda>c. c = CHR ''.'') (strip name))"

fun before_bracket_colon :: "string \<Rightarrow> string option" where
  "before_bracket_colon (a # b # cs) =
     (if a = CHR '']'' \<and> b = CHR '':'' then Some [] else map_option (\<lambda>r. a # r) (before_bracket_colon (b # cs)))"
| "before_bracket_colon _ = None"

definition dialed_name :: "string \<Rightarrow> string" where
  "dialed_name paramiko_hostname =
     (case paramiko_hostname of
        CHR ''['' # rest \<Rightarrow> (case before_bracket_colon rest of Some inner \<Rightarrow> inner | None \<Rightarrow> paramiko_hostname)
      | _ \<Rightarrow> paramiko_hostname)"

section \<open>The host key policy\<close>

text \<open>
  The key a host offers, with the certificate blob attached to it if there is one, and what
  \<^verbatim>\<open>load_ssh_public_identity\<close> makes of the line built from the blob.
\<close>

record offered_key =
  ok_public_blob :: "(string \<times> bytes) option"

record ssh_certificate =
  sc_is_host_cert :: bool
  sc_serial :: int
  sc_signer_line :: string
  sc_valid_after :: int
  sc_valid_before :: int
  sc_principals :: "string list"

datatype ssh_identity = Plain_Key string | Ssh_Certificate ssh_certificate

type_synonym identity_parser = "string \<Rightarrow> ssh_identity result"

record ca_policy =
  cp_ca_public_key :: string
  cp_ca_body :: string
  cp_principals :: "string list option"

definition KnownHostsCAPolicy :: "string \<Rightarrow> string list option \<Rightarrow> ca_policy result" where
  "KnownHostsCAPolicy ca_line principals =
     rbind (ca_pubkey_body ca_line) (\<lambda>body.
       Inr \<lparr>cp_ca_public_key = ca_line, cp_ca_body = body,
            cp_principals = map_option (\<lambda>ps. map normalise_principal (filter (\<lambda>p. strip p \<noteq> []) ps)) principals\<rparr>)"

definition ED25519_HOST_CERT_ALG :: string where "ED25519_HOST_CERT_ALG = ''ssh-ed25519-cert-v01@openssh.com''"

definition accepted_by :: "ca_policy \<Rightarrow> string \<Rightarrow> string list" where
  "accepted_by pol hostname =
     (case cp_principals pol of Some ps \<Rightarrow> ps | None \<Rightarrow> [normalise_principal (dialed_name hostname)])"

definition missing_host_key ::
  "identity_parser \<Rightarrow> int \<Rightarrow> ca_policy \<Rightarrow> string \<Rightarrow> offered_key \<Rightarrow> unit result" where
  "missing_host_key parse tm pol hostname key =
     (let refuse = (\<lambda>reason. Inl (UntrustedHostKeyError hostname reason)) in
      case ok_public_blob key of
        None \<Rightarrow> refuse ''server offered no certificate (TOFU is disabled)''
      | Some (key_type, key_blob) \<Rightarrow>
          if key_type \<noteq> ED25519_HOST_CERT_ALG
          then refuse (''unsupported cert type '' @ py_repr key_type @ ''; expected ed25519 host cert'')
          else (case parse (key_type @ '' '' @ b64encode key_blob) of
              Inl (ValueError m) \<Rightarrow> refuse (''could not parse offered cert: '' @ m)
            | Inl (TypeError m) \<Rightarrow> refuse (''could not parse offered cert: '' @ m)
            | Inl x \<Rightarrow> Inl x
            | Inr (Plain_Key cls) \<Rightarrow> refuse (''offered material is not an SSH certificate: '' @ cls)
            | Inr (Ssh_Certificate cert) \<Rightarrow>
                if \<not> sc_is_host_cert cert then refuse ''offered certificate is a user cert, not a host cert''
                else (case split_on CHR '' '' (sc_signer_line cert) of
                    _ # signer_body # _ \<Rightarrow>
                      if signer_body \<noteq> cp_ca_body pol then refuse ''host cert signed by an untrusted CA''
                      else if tm < sc_valid_after cert
                      then refuse (''host cert not yet valid (valid_after='' @ str_of_int (sc_valid_after cert) @ '', now='' @
                             str_of_int tm @ ''); check the clock on the wg-manager worker'')
                      else if sc_valid_before cert \<le> tm
                      then refuse (''host cert expired (valid_before='' @ str_of_int (sc_valid_before cert) @ '', now='' @
                             str_of_int tm @ ''); rotate it via rotate-host-cert or re-run bootstrap-host'')
                      else if sc_principals cert = []
                      then refuse ''host cert has no principals (valid for any host); refusing''
                      else if list_ex (\<lambda>p. normalise_principal p \<in> set (accepted_by pol hostname)) (sc_principals cert)
                      then Inr ()
                      else refuse (''host cert not issued for '' @ join_with '', '' (sort (remdups (accepted_by pol hostname))) @
                             '' (cert principals: '' @ join_with '', '' (sc_principals cert) @
                             ''); if the host was renamed outside wg-manager, re-run bootstrap-host'')
                  | _ \<Rightarrow> refuse ''could not extract signer key body'')))"

section \<open>The runner\<close>

text \<open>The connect timeout is a float that is only passed on and printed: it is kept as Python prints it.\<close>

record ssh_runner =
  r_host :: string
  r_port :: int
  r_username :: string
  r_pkey_pem :: string
  r_passphrase :: "string option"
  r_connect_timeout :: string
  r_cert_pem :: "string option"
  r_ca_public_key :: "string option"
  r_accepted_principals :: "string list"

definition SSHRunner ::
  "string \<Rightarrow> int \<Rightarrow> string \<Rightarrow> string \<Rightarrow> string option \<Rightarrow> string \<Rightarrow> string option \<Rightarrow> string option \<Rightarrow> string list \<Rightarrow> ssh_runner result" where
  "SSHRunner host port username pkey_pem passphrase connect_timeout cert_pem ca_line accepted =
     (if (cert_pem = None) \<noteq> (ca_line = None)
      then Inl (ValueError (''SSHRunner CA mode requires both cert_pem and ca_public_key; missing '' @
             (if cert_pem \<noteq> None then ''ca_public_key'' else ''cert_pem'')))
      else Inr \<lparr>r_host = host, r_port = port, r_username = username, r_pkey_pem = pkey_pem, r_passphrase = passphrase,
                r_connect_timeout = connect_timeout, r_cert_pem = cert_pem, r_ca_public_key = ca_line,
                r_accepted_principals = accepted\<rparr>)"

datatype key_policy = Auto_Add | CA_Policy ca_policy

text \<open>
  \<^verbatim>\<open>exec_command\<close> on an open client: the command and what is written to its standard input, giving
  the exit status and both outputs.
\<close>

type_synonym 'h exec = "string \<Rightarrow> string \<Rightarrow> 'h \<Rightarrow> 'h \<times> (int \<times> string \<times> string) result"

text \<open>
  Paramiko: the loaders of private keys in the order they are tried, attaching a certificate, and
  \<^verbatim>\<open>SSHClient.connect\<close> with the policy it was given. A failed connect is a timeout, a refused
  authentication, another SSH or socket error (an untrusted host key is one), or anything else.
\<close>

datatype connect_failure = Timed_Out | Auth_Failed string | Ssh_Or_Os_Failed string | Other_Failure exn

record 'h paramiko =
  pk_load_ed25519 :: "string \<Rightarrow> string option \<Rightarrow> string + string"
  pk_load_rsa :: "string \<Rightarrow> string option \<Rightarrow> string + string"
  pk_load_certificate :: "string \<Rightarrow> string \<Rightarrow> string result"
  pk_connect :: "key_policy \<Rightarrow> string \<Rightarrow> int \<Rightarrow> string \<Rightarrow> string \<Rightarrow> string \<Rightarrow> 'h \<Rightarrow> 'h \<times> (connect_failure + 'h exec)"

definition load_pkey :: "'h paramiko \<Rightarrow> string \<Rightarrow> string option \<Rightarrow> string result" where
  "load_pkey pm pem passphrase =
     (case pk_load_ed25519 pm pem passphrase of
        Inr k \<Rightarrow> Inr k
      | Inl _ \<Rightarrow> (case pk_load_rsa pm pem passphrase of
            Inr k \<Rightarrow> Inr k
          | Inl m \<Rightarrow> Inl (ValueError (''could not parse SSH private key: '' @ m))))"

definition policy_for :: "ssh_runner \<Rightarrow> key_policy result" where
  "policy_for r =
     (case r_ca_public_key r of
        None \<Rightarrow> Inr Auto_Add
      | Some ca \<Rightarrow> rbind (KnownHostsCAPolicy ca (Some (r_host r # r_accepted_principals r))) (\<lambda>p. Inr (CA_Policy p)))"

fun connect_error :: "string \<Rightarrow> int \<Rightarrow> string \<Rightarrow> string \<Rightarrow> connect_failure \<Rightarrow> exn" where
  "connect_error host port username timeout Timed_Out = SSHConnectionError (''SSH connection to '' @ host @ '':'' @ str_of_int port @
     '' timed out after '' @ timeout @ ''s'')"
| "connect_error host port username timeout (Auth_Failed m) =
     SSHConnectionError (''SSH authentication failed for '' @ username @ ''@'' @ host @ '': '' @ m)"
| "connect_error host port username timeout (Ssh_Or_Os_Failed m) =
     SSHConnectionError (''SSH connection to '' @ host @ '':'' @ str_of_int port @ '' failed: '' @ m)"
| "connect_error host port username timeout (Other_Failure e) = e"

definition open_client ::
  "'h paramiko \<Rightarrow> key_policy \<Rightarrow> string \<Rightarrow> int \<Rightarrow> string \<Rightarrow> string \<Rightarrow> string \<Rightarrow> ('h, 'h exec) handler" where
  "open_client pm policy host port username pkey timeout h =
     (case pk_connect pm policy host port username pkey timeout h of
        (h', Inl f) \<Rightarrow> (h', Inl (connect_error host port username timeout f))
      | (h', Inr ex) \<Rightarrow> (h', Inr ex))"

definition enter_runner :: "'h paramiko \<Rightarrow> ssh_runner \<Rightarrow> ('h, 'h exec) handler" where
  "enter_runner pm r h =
     (case rbind (policy_for r) (\<lambda>policy.
           rbind (load_pkey pm (r_pkey_pem r) (r_passphrase r)) (\<lambda>pkey.
           rbind (case r_cert_pem r of None \<Rightarrow> Inr pkey | Some c \<Rightarrow> pk_load_certificate pm pkey c) (\<lambda>pkey'.
             Inr (policy, pkey')))) of
        Inl e \<Rightarrow> (h, Inl e)
      | Inr (policy, pkey) \<Rightarrow> open_client pm policy (r_host r) (r_port r) (r_username r) pkey (r_connect_timeout r) h)"

section \<open>Commands\<close>

record command_result =
  res_cmd :: string
  res_rc :: int
  res_stdout :: string
  res_stderr :: string

definition command_error :: "command_result \<Rightarrow> exn" where
  "command_error r = SSHCommandError (''command '' @ py_repr (res_cmd r) @ '' failed (rc='' @ str_of_int (res_rc r) @ ''): '' @
     strip (res_stderr r))"

text \<open>
  Both runner classes have the same three methods; they differ in the class name of the error a runner
  outside its \<^verbatim>\<open>with\<close> block (it has no client) raises.
\<close>

definition exec_result :: "string \<Rightarrow> 'h exec option \<Rightarrow> string \<Rightarrow> string \<Rightarrow> ('h, command_result) handler" where
  "exec_result cls client cmd stdin h =
     (case client of
        None \<Rightarrow> (h, Inl (RuntimeError (cls @ '' must be used as a context manager'')))
      | Some ex \<Rightarrow> (case ex cmd stdin h of
            (h', Inl e) \<Rightarrow> (h', Inl e)
          | (h', Inr (rc, out, err)) \<Rightarrow> (h', Inr \<lparr>res_cmd = cmd, res_rc = rc, res_stdout = out, res_stderr = err\<rparr>)))"

definition ssh_run :: "string \<Rightarrow> 'h exec option \<Rightarrow> string \<Rightarrow> bool \<Rightarrow> ('h, command_result) handler" where
  "ssh_run cls client cmd chk =
     andThen (exec_result cls client cmd []) (\<lambda>r. if chk \<and> res_rc r \<noteq> 0 then raising (command_error r) else returning r)"

definition ssh_sudo :: "string \<Rightarrow> 'h exec option \<Rightarrow> string \<Rightarrow> bool \<Rightarrow> ('h, command_result) handler" where
  "ssh_sudo cls client cmd chk = ssh_run cls client (''sudo -n '' @ cmd) chk"

text \<open>\<^verbatim>\<open>shlex.quote\<close>.\<close>

definition is_shell_safe :: "char \<Rightarrow> bool" where
  "is_shell_safe c \<longleftrightarrow> is_digit c \<or> (let n = of_char c :: nat in (65 \<le> n \<and> n \<le> 90) \<or> (97 \<le> n \<and> n \<le> 122)) \<or>
     c \<in> set ''@%_-+=:,./''"

definition shlex_quote :: "string \<Rightarrow> string" where
  "shlex_quote s =
     (if s \<noteq> [] \<and> list_all is_shell_safe s then s
      else [CHR 0x27] @ concat (map (\<lambda>c. if c = CHR 0x27 then [CHR 0x27, CHR 0x22, CHR 0x27, CHR 0x22, CHR 0x27] else [c]) s) @ [CHR 0x27])"

definition ssh_write_file ::
  "string \<Rightarrow> 'h exec option \<Rightarrow> string \<Rightarrow> string \<Rightarrow> string \<Rightarrow> bool \<Rightarrow> ('h, command_result) handler" where
  "ssh_write_file cls client path content mode sudo =
     (let quoted = shlex_quote path; pre = (if sudo then ''sudo -n '' else []);
          tee = pre @ ''tee '' @ quoted @ '' > /dev/null''; chmod = pre @ ''chmod '' @ mode @ '' '' @ quoted in
      andThen (exec_result cls client tee content) (\<lambda>r.
        if res_rc r \<noteq> 0 then raising (command_error r)
        else andThen (ssh_run cls client chmod True) (\<lambda>_. returning r)))"

text \<open>The runner the provisioning code of \<^verbatim>\<open>wireguard.py\<close> and \<^verbatim>\<open>host_ssh.py\<close> drives.\<close>

fun runner_of :: "string \<Rightarrow> 'h exec option \<Rightarrow> 'h runner" where
  "runner_of cls client (Sudo cmd chk) h = andThen (ssh_sudo cls client cmd chk) (\<lambda>r. returning (res_stdout r)) h"
| "runner_of cls client (WriteFile path content mode sudo) h =
     andThen (ssh_write_file cls client path content mode sudo) (\<lambda>r. returning (res_stdout r)) h"

text \<open>\<^verbatim>\<open>_make_runner\<close> builds the runner of a CA-mode session from a dial and the task enters it.\<close>

definition ssh_connect :: "'h paramiko \<Rightarrow> dial \<Rightarrow> ('h, 'h runner) handler" where
  "ssh_connect pm d h =
     (case SSHRunner (d_host d) (d_port d) (d_username d) (d_pkey d) None ''15.0'' (Some (d_cert d))
             (Some (d_ca_public_key d)) (d_accepted d) of
        Inl e \<Rightarrow> (h, Inl e)
      | Inr r \<Rightarrow> andThen (enter_runner pm r) (\<lambda>ex. returning (runner_of ''SSHRunner'' (Some ex))) h)"

section \<open>The bootstrap runner\<close>

text \<open>
  \<^verbatim>\<open>bootstrap_ssh.py\<close>: the session that trusts the host on first use, with the operator's own key given
  either as a path or as the PEM itself. Reading the file is a parameter.
\<close>

definition load_pkey_from_pem :: "'h paramiko \<Rightarrow> string \<Rightarrow> string option \<Rightarrow> string \<Rightarrow> string result" where
  "load_pkey_from_pem pm pem passphrase source_label =
     (case pk_load_ed25519 pm pem passphrase of
        Inr k \<Rightarrow> Inr k
      | Inl _ \<Rightarrow> (case pk_load_rsa pm pem passphrase of
            Inr k \<Rightarrow> Inr k
          | Inl m \<Rightarrow> Inl (ValueError (''could not parse SSH private key from '' @ source_label @ '': '' @ m))))"

definition load_pkey_from_path ::
  "'h paramiko \<Rightarrow> (string \<Rightarrow> string result) \<Rightarrow> string \<Rightarrow> string option \<Rightarrow> string result" where
  "load_pkey_from_path pm read_text key_path passphrase =
     rbind (read_text key_path) (\<lambda>pem. load_pkey_from_pem pm pem passphrase (py_repr key_path))"

datatype key_source = Key_Path string | Key_Pem string

record bootstrap_runner =
  br_host :: string
  br_port :: int
  br_username :: string
  br_key :: key_source
  br_passphrase :: "string option"
  br_connect_timeout :: string

definition BootstrapSSHRunner ::
  "string \<Rightarrow> int \<Rightarrow> string \<Rightarrow> string option \<Rightarrow> string option \<Rightarrow> string \<Rightarrow> string option \<Rightarrow> bootstrap_runner result" where
  "BootstrapSSHRunner host port username key_path passphrase connect_timeout key_pem =
     (let mk = (\<lambda>k. Inr \<lparr>br_host = host, br_port = port, br_username = username, br_key = k,
                         br_passphrase = passphrase, br_connect_timeout = connect_timeout\<rparr>) in
      case (key_path, key_pem) of
        (Some _, Some _) \<Rightarrow> Inl (ValueError ''BootstrapSSHRunner requires exactly one of key_path or key_pem; got both'')
      | (None, None) \<Rightarrow> Inl (ValueError ''BootstrapSSHRunner requires exactly one of key_path or key_pem; got neither'')
      | (Some p, None) \<Rightarrow> mk (Key_Path p)
      | (None, Some m) \<Rightarrow> mk (Key_Pem m))"

definition enter_bootstrap ::
  "'h paramiko \<Rightarrow> (string \<Rightarrow> string result) \<Rightarrow> bootstrap_runner \<Rightarrow> ('h, 'h exec) handler" where
  "enter_bootstrap pm read_text r h =
     (case (case br_key r of
              Key_Path p \<Rightarrow> load_pkey_from_path pm read_text p (br_passphrase r)
            | Key_Pem m \<Rightarrow> load_pkey_from_pem pm m (br_passphrase r) ''<in-memory PEM>'') of
        Inl e \<Rightarrow> (h, Inl e)
      | Inr pkey \<Rightarrow> open_client pm Auto_Add (br_host r) (br_port r) (br_username r) pkey (br_connect_timeout r) h)"

definition bootstrap_ssh_connect ::
  "'h paramiko \<Rightarrow> (string \<Rightarrow> string result) \<Rightarrow> string \<Rightarrow> bootstrap_dial \<Rightarrow> ('h, 'h runner) handler" where
  "bootstrap_ssh_connect pm read_text timeout d h =
     (case BootstrapSSHRunner (b_host d) (b_port d) (b_username d) None (b_passphrase d) timeout (Some (b_key_pem d)) of
        Inl e \<Rightarrow> (h, Inl e)
      | Inr r \<Rightarrow> andThen (enter_bootstrap pm read_text r) (\<lambda>ex. returning (runner_of ''BootstrapSSHRunner'' (Some ex))) h)"

section \<open>What a CA-mode session guarantees\<close>

text \<open>The certificate a host attaches to its key, and the names the policy built by a runner accepts.\<close>

definition offers :: "identity_parser \<Rightarrow> offered_key \<Rightarrow> ssh_certificate \<Rightarrow> bool" where
  "offers parse key cert \<longleftrightarrow>
     (\<exists>blob. ok_public_blob key = Some (ED25519_HOST_CERT_ALG, blob) \<and>
        parse (ED25519_HOST_CERT_ALG @ '' '' @ b64encode blob) = Inr (Ssh_Certificate cert))"

text \<open>The key the certificate names as the one it was signed with; whether the signature is that key's is another question.\<close>

definition names_signer :: "string \<Rightarrow> ssh_certificate \<Rightarrow> bool" where
  "names_signer body cert \<longleftrightarrow> (\<exists>algo rest. split_on CHR '' '' (sc_signer_line cert) = algo # body # rest)"

definition vouches_for :: "int \<Rightarrow> string \<Rightarrow> string set \<Rightarrow> ssh_certificate \<Rightarrow> bool" where
  "vouches_for tm body names cert \<longleftrightarrow>
     sc_is_host_cert cert \<and> names_signer body cert \<and> sc_valid_after cert \<le> tm \<and> tm < sc_valid_before cert \<and>
     (\<exists>p \<in> set (sc_principals cert). normalise_principal p \<in> names)"

lemma missing_host_key_iff:
  "missing_host_key parse tm pol hostname key = Inr () \<longleftrightarrow>
     (\<exists>cert. offers parse key cert \<and> vouches_for tm (cp_ca_body pol) (set (accepted_by pol hostname)) cert)"
    (is "?l = ?r")
proof
  show ?r if ?l
    using that
    by (auto simp: missing_host_key_def Let_def offers_def vouches_for_def names_signer_def list_ex_iff
        split: option.splits if_splits sum.splits exn.splits ssh_identity.splits list.splits)
next
  assume ?r
  then obtain cert blob algo rest where b: "ok_public_blob key = Some (ED25519_HOST_CERT_ALG, blob)"
    "parse (ED25519_HOST_CERT_ALG @ '' '' @ b64encode blob) = Inr (Ssh_Certificate cert)"
    and s: "split_on CHR '' '' (sc_signer_line cert) = algo # cp_ca_body pol # rest"
    and v: "sc_is_host_cert cert" "sc_valid_after cert \<le> tm" "tm < sc_valid_before cert"
    "\<exists>p \<in> set (sc_principals cert). normalise_principal p \<in> set (accepted_by pol hostname)"
    unfolding offers_def vouches_for_def names_signer_def by blast
  have ne: "sc_principals cert \<noteq> []" using v(4) by auto
  have ex: "list_ex (\<lambda>p. normalise_principal p \<in> set (accepted_by pol hostname)) (sc_principals cert)"
    using v(4) by (simp add: list_ex_iff)
  show ?l using b s v(1-3) ne ex by (simp add: missing_host_key_def Let_def)
qed

text \<open>
  The behaviour of \<^verbatim>\<open>SSHClient.connect\<close> the runner relies on: there is no known-hosts store, so a
  connection only comes up after the policy accepted the key the host offered, under the name
  Paramiko gives the connection.
\<close>

definition server_hostkey_name :: "string \<Rightarrow> int \<Rightarrow> string" where
  "server_hostkey_name host port = (if port = 22 then host else ''['' @ host @ '']:'' @ str_of_int port)"

definition connect_asks_policy ::
  "'h paramiko \<Rightarrow> identity_parser \<Rightarrow> ('h \<Rightarrow> int) \<Rightarrow> (string \<Rightarrow> int \<Rightarrow> 'h \<Rightarrow> offered_key) \<Rightarrow> bool" where
  "connect_asks_policy pm parse clock offered \<longleftrightarrow>
     (\<forall>pol host port username pkey timeout h h' ex.
        pk_connect pm (CA_Policy pol) host port username pkey timeout h = (h', Inr ex) \<longrightarrow>
        missing_host_key parse (clock h) pol (server_hostkey_name host port) (offered host port h) = Inr ())"

definition acceptable_names :: "string \<Rightarrow> string list \<Rightarrow> string set" where
  "acceptable_names host known = normalise_principal ` {p \<in> set (host # known). strip p \<noteq> []}"

lemma ssh_connect_policy:
  assumes "ssh_connect pm d h = (h', Inr r)"
  obtains pol pkey ex where "ca_pubkey_body (d_ca_public_key d) = Inr (cp_ca_body pol)"
    "set (accepted_by pol hostname) = acceptable_names (d_host d) (d_accepted d)"
    "pk_connect pm (CA_Policy pol) (d_host d) (d_port d) (d_username d) pkey ''15.0'' h = (h', Inr ex)"
    "r = runner_of ''SSHRunner'' (Some ex)"
proof -
  from assms obtain ex rn where rn: "SSHRunner (d_host d) (d_port d) (d_username d) (d_pkey d) None ''15.0'' (Some (d_cert d))
      (Some (d_ca_public_key d)) (d_accepted d) = Inr rn"
    and e: "enter_runner pm rn h = (h', Inr ex)" and r: "r = runner_of ''SSHRunner'' (Some ex)"
    by (auto simp: ssh_connect_def result_simps returning_def SSHRunner_def)
  have host: "r_host rn = d_host d" "r_port rn = d_port d" "r_username rn = d_username d"
    "r_ca_public_key rn = Some (d_ca_public_key d)" "r_accepted_principals rn = d_accepted d" "r_connect_timeout rn = ''15.0''"
    using rn by (auto simp: SSHRunner_def)
  from e obtain policy pkey where p: "policy_for rn = Inr policy"
    and c: "open_client pm policy (r_host rn) (r_port rn) (r_username rn) pkey (r_connect_timeout rn) h = (h', Inr ex)"
    by (auto simp: enter_runner_def result_simps split: sum.splits prod.splits)
  from p obtain pol where pol: "policy = CA_Policy pol"
    "KnownHostsCAPolicy (d_ca_public_key d) (Some (d_host d # d_accepted d)) = Inr pol"
    by (auto simp: policy_for_def host result_simps)
  have k: "ca_pubkey_body (d_ca_public_key d) = Inr (cp_ca_body pol)"
    "cp_principals pol = Some (map normalise_principal (filter (\<lambda>p. strip p \<noteq> []) (d_host d # d_accepted d)))"
    using pol(2) by (auto simp: KnownHostsCAPolicy_def result_simps)
  have n: "set (accepted_by pol hostname) = acceptable_names (d_host d) (d_accepted d)"
    unfolding accepted_by_def k(2) acceptable_names_def by (simp only: option.case set_map set_filter)
  have pc: "pk_connect pm (CA_Policy pol) (d_host d) (d_port d) (d_username d) pkey ''15.0'' h = (h', Inr ex)"
    using c by (auto simp: open_client_def host pol(1) split: prod.splits sum.splits)
  show thesis by (rule that [OF k(1) n pc r])
qed

text \<open>
  The verdict depends on the fields the certificate states, the time and the names only: two blobs that
  parse to the same fields, one signed by the CA and one with any other bytes as its signature, are
  treated alike. No call of the policy verifies the signature.
\<close>

theorem policy_never_checks_signature:
  assumes "offers parse key cert" and "offers parse key' cert"
  shows "missing_host_key parse tm pol hostname key = missing_host_key parse tm pol hostname key'"
  using assms by (auto simp: offers_def missing_host_key_def)

text \<open>
  C23: where \<^verbatim>\<open>connect\<close> consults the policy it was given (as Paramiko does without a known-hosts store), a session
  a task opens through its CA-mode runner only comes up with a host whose key carries a
  host certificate that names the key of the control plane's CA as its signature key, that is within its
  validity window, and that states the dialled name or a name recorded on the row's last certificate. The
  policy reads these fields; it does not verify the signature over them (\<^verbatim>\<open>policy_never_checks_signature\<close>).
\<close>

theorem session_needs_certified_host:
  assumes "connect te = ssh_connect pm" and "connect_asks_policy pm parse clock offered"
    and "open_runner te host port username known h = (h', Inr r)"
  shows "\<exists>ca body cert. ca_backend te = Inr ca \<and> ca_pubkey_body (ca_public_key ca) = Inr body \<and>
     offers parse (offered host port h) cert \<and> sc_is_host_cert cert \<and> names_signer body cert \<and>
     sc_valid_after cert \<le> clock h \<and> clock h < sc_valid_before cert \<and>
     (\<exists>p \<in> set (sc_principals cert). normalise_principal p \<in> acceptable_names host (accepted_names known))"
proof -
  from assms(1,3) obtain ca d where ca: "ca_backend te = Inr ca" and d: "ssh_connect pm d h = (h', Inr r)"
    "d_host d = host" "d_port d = port" "d_ca_public_key d = ca_public_key ca" "d_accepted d = accepted_names known"
    by (auto simp: open_runner_def split: sum.splits)
  from ssh_connect_policy [OF d(1)] obtain pol pkey ex where
    p: "ca_pubkey_body (ca_public_key ca) = Inr (cp_ca_body pol)"
    "set (accepted_by pol (server_hostkey_name host port)) = acceptable_names host (accepted_names known)"
    "pk_connect pm (CA_Policy pol) host port (d_username d) pkey ''15.0'' h = (h', Inr ex)"
    unfolding d(2-5) by metis
  from assms(2) p(3) have "missing_host_key parse (clock h) pol (server_hostkey_name host port) (offered host port h) = Inr ()"
    unfolding connect_asks_policy_def by blast
  with p(1,2) ca show ?thesis unfolding missing_host_key_iff vouches_for_def by (metis)
qed

text \<open>A host that offers one certificate, and a Paramiko that asks the policy it was given.\<close>

definition sample_cert :: ssh_certificate where
  "sample_cert = \<lparr>sc_is_host_cert = True, sc_serial = 7, sc_signer_line = ''ssh-ed25519 AAAA'', sc_valid_after = 10, sc_valid_before = 100,
     sc_principals = [''Hub.Example.'']\<rparr>"

definition sample_offer :: "string \<Rightarrow> int \<Rightarrow> unit \<Rightarrow> offered_key" where
  "sample_offer host port h = \<lparr>ok_public_blob = Some (ED25519_HOST_CERT_ALG, ''cert'')\<rparr>"

definition sample_identity :: identity_parser where
  "sample_identity line = Inr (Ssh_Certificate sample_cert)"

definition sample_paramiko :: "unit paramiko" where
  "sample_paramiko = \<lparr>pk_load_ed25519 = (\<lambda>pem pp. Inr pem), pk_load_rsa = (\<lambda>pem pp. Inl ''not an RSA key''),
     pk_load_certificate = (\<lambda>k c. Inr k),
     pk_connect = (\<lambda>policy host port username pkey timeout h.
       (h, case policy of
            Auto_Add \<Rightarrow> Inl Timed_Out
          | CA_Policy pol \<Rightarrow> (case missing_host_key sample_identity 50 pol (server_hostkey_name host port) (sample_offer host port h) of
                Inl _ \<Rightarrow> Inl (Ssh_Or_Os_Failed ''untrusted'')
              | Inr _ \<Rightarrow> Inr (\<lambda>cmd stdin h. (h, Inr (0, [], []))))))\<rparr>"

definition certified_env :: "unit task_env" where
  "certified_env = quiet_env\<lparr>ca_backend := Inr (sample_ca\<lparr>ca_public_key := ''ssh-ed25519 AAAA wg-ca''\<rparr>), connect := ssh_connect sample_paramiko\<rparr>"

lemma sample_paramiko_asks: "connect_asks_policy sample_paramiko sample_identity (\<lambda>_. 50) sample_offer"
  by (auto simp: connect_asks_policy_def sample_paramiko_def split: sum.splits)

theorem session_needs_certified_host_witness:
  "\<exists>h' r. open_runner certified_env ''hub.example'' 22 ''root'' None () = (h', Inr r) \<and>
     (\<exists>cert. offers sample_identity (sample_offer ''hub.example'' 22 ()) cert \<and> names_signer ''AAAA'' cert \<and>
        sc_valid_after cert \<le> 50 \<and> 50 < sc_valid_before cert)"
proof -
  let ?run = "open_runner certified_env ''hub.example'' 22 ''root'' None ()"
  have ok: "case snd ?run of Inr _ \<Rightarrow> True | Inl _ \<Rightarrow> False" by code_simp
  obtain h' x where hx: "?run = (h', x)" by (cases ?run)
  with ok obtain r where run: "?run = (h', Inr r)" by (cases x) simp_all
  have c: "connect certified_env = ssh_connect sample_paramiko" by (simp add: certified_env_def)
  have b: "ca_pubkey_body ''ssh-ed25519 AAAA wg-ca'' = Inr ''AAAA''" by code_simp
  have be: "ca_backend certified_env = Inr (sample_ca\<lparr>ca_public_key := ''ssh-ed25519 AAAA wg-ca''\<rparr>)" by (simp add: certified_env_def)
  from session_needs_certified_host [OF c sample_paramiko_asks run] be b run show ?thesis by auto
qed

end
