(* ===== verification/Ssh_Ca.thy ===== *)
theory Ssh_Ca
  imports Ssh_Policy Pki
begin

text \<open>
  \<^verbatim>\<open>ssh_ca.py\<close>: the in-process SSH certificate authority, the one behind Vault's SSH engine, and
  the factory with its per-process cache. The \<^verbatim>\<open>cryptography\<close> package (keys, building, signing
  and reading certificates) and the Vault server are parameters.
\<close>

section \<open>The local authority\<close>

datatype cert_kind = User_Cert | Host_Cert

record cert_request =
  rq_public_key :: string
  rq_kind :: cert_kind
  rq_serial :: int
  rq_key_id :: string
  rq_principals :: "string list"
  rq_valid_after :: int
  rq_valid_before :: int
  rq_extensions :: "(string \<times> string) list"

text \<open>
  The package: the text forms of an Ed25519 key, \<^verbatim>\<open>load_ssh_private_key\<close> (another algorithm gives its
  class name), \<^verbatim>\<open>load_ssh_public_identity\<close>, the builder's own checks, and signing.
\<close>

datatype 'k private_key = Ed25519 'k | Other_Key string

record 'k ssh_lib =
  sl_public_openssh :: "'k \<Rightarrow> string"
  sl_private_pem :: "'k \<Rightarrow> string"
  sl_load_private :: "string \<Rightarrow> 'k private_key result"
  sl_identity :: identity_parser
  sl_build :: "cert_request \<Rightarrow> unit result"
  sl_sign :: "'k \<Rightarrow> cert_request \<Rightarrow> string result"

fun value_or_type_text :: "exn \<Rightarrow> string option" where
  "value_or_type_text (ValueError m) = Some m"
| "value_or_type_text (TypeError m) = Some m"
| "value_or_type_text _ = None"

text \<open>\<^verbatim>\<open>except (ValueError, TypeError) as exc: raise SSHCAError(...)\<close>.\<close>

definition ca_error :: "string \<Rightarrow> 'a result \<Rightarrow> 'a result" where
  "ca_error what r =
     (case r of Inr x \<Rightarrow> Inr x
      | Inl e \<Rightarrow> (case value_or_type_text e of Some m \<Rightarrow> Inl (SSHCAError (what @ '': '' @ m)) | None \<Rightarrow> Inl e))"

definition ssh_ca_from_pem :: "'k ssh_lib \<Rightarrow> string \<Rightarrow> 'k result" where
  "ssh_ca_from_pem lib pem =
     rbind (ca_error ''could not load CA PEM'' (sl_load_private lib pem)) (\<lambda>key.
       case key of Ed25519 k \<Rightarrow> Inr k | Other_Key cls \<Rightarrow> Inl (SSHCAError (''SSH CA must be ed25519, got '' @ cls)))"

text \<open>
  What one signature draws from its surroundings: the clock, 63 random bits and a fresh key pair.
\<close>

record 'k sign_env =
  se_time :: int
  se_serial :: int
  se_ephemeral :: 'k

definition local_mint_user_cert ::
  "'k ssh_lib \<Rightarrow> 'k \<Rightarrow> 'k sign_env \<Rightarrow> string list \<Rightarrow> int \<Rightarrow> user_cert result" where
  "local_mint_user_cert lib ca se principals ttl_seconds =
     (let valid_after = se_time se; valid_before = valid_after + ttl_seconds;
          rq = \<lparr>rq_public_key = sl_public_openssh lib (se_ephemeral se), rq_kind = User_Cert, rq_serial = se_serial se,
                rq_key_id = ''wg-manager-user-'' @ str_of_int (se_serial se), rq_principals = principals,
                rq_valid_after = valid_after, rq_valid_before = valid_before, rq_extensions = [(''permit-pty'', [])]\<rparr> in
      rbind (sl_build lib rq) (\<lambda>_.
      rbind (ca_error ''failed to sign user cert'' (sl_sign lib ca rq)) (\<lambda>cert.
        Inr \<lparr>ucert_private_pem = sl_private_pem lib (se_ephemeral se), ucert_pem = cert,
             ucert_valid_after = seconds valid_after, ucert_valid_before = seconds valid_before,
             ucert_serial = se_serial se, ucert_principals = principals\<rparr>)))"

definition local_mint_host_cert ::
  "'k ssh_lib \<Rightarrow> 'k \<Rightarrow> 'k sign_env \<Rightarrow> string \<Rightarrow> string list \<Rightarrow> int \<Rightarrow> host_cert result" where
  "local_mint_host_cert lib ca se public_key_openssh principals ttl_seconds =
     rbind (ca_error ''host public key is not parseable'' (sl_identity lib public_key_openssh)) (\<lambda>pub.
     let valid_after = se_time se; valid_before = valid_after + ttl_seconds;
         rq = \<lparr>rq_public_key = public_key_openssh, rq_kind = Host_Cert, rq_serial = se_serial se,
               rq_key_id = ''wg-manager-host-'' @ str_of_int (se_serial se), rq_principals = principals,
               rq_valid_after = valid_after, rq_valid_before = valid_before, rq_extensions = []\<rparr> in
      rbind (sl_build lib rq) (\<lambda>_.
      rbind (ca_error ''failed to sign host cert'' (sl_sign lib ca rq)) (\<lambda>cert.
        Inr \<lparr>hcert_pem = cert, hcert_valid_after = seconds valid_after, hcert_valid_before = seconds valid_before,
             hcert_serial = se_serial se, hcert_principals = principals\<rparr>)))"

definition local_ssh_ca :: "'k ssh_lib \<Rightarrow> 'k \<Rightarrow> 'k sign_env \<Rightarrow> ssh_ca" where
  "local_ssh_ca lib ca se =
     \<lparr>mint_host_cert = local_mint_host_cert lib ca se, mint_user_cert = local_mint_user_cert lib ca se,
      ca_public_key = sl_public_openssh lib ca\<rparr>"

section \<open>The authority in Vault\<close>

record ssh_role =
  sr_allow_user_certificates :: bool
  sr_allow_host_certificates :: bool
  sr_default_user :: "string option"
  sr_allowed_users :: "string option"
  sr_default_extensions :: "(string \<times> string) list"
  sr_allowed_extensions :: "string option"
  sr_ttl :: string
  sr_max_ttl :: string
  sr_allowed_domains :: "string option"
  sr_allow_bare_domains :: "bool option"
  sr_allow_subdomains :: "bool option"

record sign_request =
  sg_role :: string
  sg_public_key :: string
  sg_valid_principals :: string
  sg_cert_type :: string
  sg_ttl :: string
  sg_mount :: string

text \<open>The SSH engine behind \<^verbatim>\<open>hvac\<close>; a read answers the text of the response.\<close>

record 'v ssh_vault =
  sv_enable_ssh :: "string \<Rightarrow> ('v, unit) handler"
  sv_submit_ca :: "string \<Rightarrow> ('v, unit) handler"
  sv_create_role :: "string \<Rightarrow> string \<Rightarrow> ssh_role \<Rightarrow> ('v, unit) handler"
  sv_get :: "string \<Rightarrow> ('v, string) handler"
  sv_sign_key :: "sign_request \<Rightarrow> ('v, string) handler"

record vault_ssh_ca =
  vs_mount :: string
  vs_user_role :: string
  vs_host_role :: string
  vs_ca_public :: string

definition VaultSSHCA :: "string \<Rightarrow> string \<Rightarrow> string \<Rightarrow> string \<Rightarrow> vault_ssh_ca" where
  "VaultSSHCA mount user_role host_role ca_line =
     \<lparr>vs_mount = mount, vs_user_role = user_role, vs_host_role = host_role, vs_ca_public = strip ca_line\<rparr>"

fun missing_path :: "exn \<Rightarrow> bool" where
  "missing_path (VaultInvalidPath _) = True"
| "missing_path _ = False"

definition read_ca_public_key :: "'v ssh_vault \<Rightarrow> string \<Rightarrow> ('v, string) handler" where
  "read_ca_public_key v mount =
     andThen (handling (sv_get v (''/v1/'' @ mount @ ''/public_key''))
         (\<lambda>e. raising (if missing_path e then SSHCAError (''SSH CA at '' @ py_repr mount @ '' has no public key configured'') else e)))
       (\<lambda>text. returning (strip text))"

fun keys_configured :: "exn \<Rightarrow> bool" where
  "keys_configured (VaultInvalidRequest m) = contains ''keys are already configured'' m"
| "keys_configured _ = False"

definition user_role_params :: "string \<Rightarrow> string \<Rightarrow> ssh_role" where
  "user_role_params allowed_users ttl =
     \<lparr>sr_allow_user_certificates = True, sr_allow_host_certificates = False,
      sr_default_user = Some (split_on CHR '','' allowed_users ! 0), sr_allowed_users = Some allowed_users,
      sr_default_extensions = [(''permit-pty'', [])], sr_allowed_extensions = Some ''permit-pty'',
      sr_ttl = ttl, sr_max_ttl = ttl, sr_allowed_domains = None, sr_allow_bare_domains = None, sr_allow_subdomains = None\<rparr>"

definition host_role_params :: "string \<Rightarrow> string \<Rightarrow> ssh_role" where
  "host_role_params allowed_domains ttl =
     \<lparr>sr_allow_user_certificates = False, sr_allow_host_certificates = True, sr_default_user = None, sr_allowed_users = None,
      sr_default_extensions = [], sr_allowed_extensions = None, sr_ttl = ttl, sr_max_ttl = ttl,
      sr_allowed_domains = Some (if allowed_domains \<noteq> [] then allowed_domains else ''*''),
      sr_allow_bare_domains = (if allowed_domains \<noteq> [] then None else Some True), sr_allow_subdomains = Some True\<rparr>"

definition ssh_bootstrap ::
  "'v ssh_vault \<Rightarrow> string \<Rightarrow> string \<Rightarrow> string \<Rightarrow> string \<Rightarrow> string \<Rightarrow> string \<Rightarrow> string \<Rightarrow> ('v, vault_ssh_ca) handler" where
  "ssh_bootstrap v mount user_role host_role user_ttl host_ttl allowed_users allowed_host_domains =
     andThen (handling
       (andThen (handling (sv_enable_ssh v mount) (tolerate path_in_use ())) (\<lambda>_.
        andThen (handling (sv_submit_ca v mount) (tolerate keys_configured ())) (\<lambda>_.
        andThen (sv_create_role v mount user_role (user_role_params allowed_users user_ttl)) (\<lambda>_.
          sv_create_role v mount host_role (host_role_params allowed_host_domains host_ttl)))))
       (\<lambda>e. raising (if is_vault_error e then SSHCAError (''bootstrap failed at '' @ py_repr mount @ '': '' @ vault_text e) else e)))
     (\<lambda>_. andThen (read_ca_public_key v mount) (\<lambda>ca_public. returning (VaultSSHCA mount user_role host_role ca_public)))"

definition py_repr_list :: "string list \<Rightarrow> string" where
  "py_repr_list xs = ''['' @ join_with '', '' (map py_repr xs) @ '']''"

definition vault_sign ::
  "'v ssh_vault \<Rightarrow> identity_parser \<Rightarrow> vault_ssh_ca \<Rightarrow> string \<Rightarrow> string \<Rightarrow> string list \<Rightarrow> int \<Rightarrow> string \<Rightarrow> ('v, string \<times> int \<times> int \<times> int) handler" where
  "vault_sign v parse ca role public_key_openssh principals ttl_seconds cert_type =
     andThen (handling (sv_sign_key v
         \<lparr>sg_role = role, sg_public_key = public_key_openssh, sg_valid_principals = join_with '','' principals,
          sg_cert_type = cert_type, sg_ttl = str_of_int ttl_seconds @ ''s'', sg_mount = vs_mount ca\<rparr>)
       (\<lambda>e. raising (if is_vault_error e
          then SSHCAError (''vault refused to sign ('' @ cert_type @ '', principals='' @ py_repr_list principals @ ''): '' @ vault_text e)
          else e)))
     (\<lambda>raw s. (s,
        let signed_key = strip raw in
        if \<not> startswith signed_key (ED25519_HOST_CERT_ALG @ '' '')
        then (case words signed_key of
                [] \<Rightarrow> Inl IndexError
              | algo # _ \<Rightarrow> Inl (SSHCAError (''unexpected cert algo from vault: '' @ py_repr algo)))
        else rbind (ca_error ''vault returned an unparseable cert'' (parse signed_key)) (\<lambda>parsed.
          case parsed of
            Plain_Key cls \<Rightarrow> Inl (OtherError ''AttributeError'')
          | Ssh_Certificate c \<Rightarrow> Inr (signed_key, sc_serial c, sc_valid_after c, sc_valid_before c))))"

definition vault_mint_user_cert ::
  "'v ssh_vault \<Rightarrow> 'k ssh_lib \<Rightarrow> vault_ssh_ca \<Rightarrow> 'k \<Rightarrow> string list \<Rightarrow> int \<Rightarrow> ('v, user_cert) handler" where
  "vault_mint_user_cert v lib ca ephemeral principals ttl_seconds =
     andThen (vault_sign v (sl_identity lib) ca (vs_user_role ca) (sl_public_openssh lib ephemeral) principals ttl_seconds ''user'')
       (\<lambda>(signed, serial, va, vb). returning
          \<lparr>ucert_private_pem = sl_private_pem lib ephemeral, ucert_pem = signed, ucert_valid_after = seconds va,
           ucert_valid_before = seconds vb, ucert_serial = serial, ucert_principals = principals\<rparr>)"

definition vault_mint_host_cert ::
  "'v ssh_vault \<Rightarrow> 'k ssh_lib \<Rightarrow> vault_ssh_ca \<Rightarrow> string \<Rightarrow> string list \<Rightarrow> int \<Rightarrow> ('v, host_cert) handler" where
  "vault_mint_host_cert v lib ca public_key_openssh principals ttl_seconds =
     andThen (vault_sign v (sl_identity lib) ca (vs_host_role ca) public_key_openssh principals ttl_seconds ''host'')
       (\<lambda>(signed, serial, va, vb). returning
          \<lparr>hcert_pem = signed, hcert_valid_after = seconds va, hcert_valid_before = seconds vb, hcert_serial = serial,
           hcert_principals = principals\<rparr>)"

text \<open>The two operations as a task sees them when Vault is in the state \<^verbatim>\<open>s\<close>.\<close>

definition vault_ssh_authority :: "'v ssh_vault \<Rightarrow> 'k ssh_lib \<Rightarrow> vault_ssh_ca \<Rightarrow> 'k \<Rightarrow> 'v \<Rightarrow> ssh_ca" where
  "vault_ssh_authority v lib ca ephemeral s =
     \<lparr>mint_host_cert = \<lambda>pub ps ttl. snd (vault_mint_host_cert v lib ca pub ps ttl s),
      mint_user_cert = \<lambda>ps ttl. snd (vault_mint_user_cert v lib ca ephemeral ps ttl s),
      ca_public_key = vs_ca_public ca\<rparr>"

section \<open>The factory\<close>

datatype 'k ssh_ca_backend = Local_CA 'k | Vault_CA vault_ssh_ca

record ssh_ca_settings =
  ss_backend :: string
  ss_local_dev_pem :: "string option"
  ss_vault_token :: string
  ss_mount :: string
  ss_user_role :: string
  ss_host_role :: string

text \<open>The cache of local authorities, keyed by the pinned PEM, and the Vault server.\<close>

record ('k, 'v) ssh_ca_world =
  sw_cache :: "string option \<Rightarrow> 'k option"
  sw_vault :: 'v

definition make_ssh_ca_backend ::
  "'k ssh_lib \<Rightarrow> 'v ssh_vault \<Rightarrow> 'k \<Rightarrow> ssh_ca_settings \<Rightarrow> (('k, 'v) ssh_ca_world, 'k ssh_ca_backend) handler" where
  "make_ssh_ca_backend lib v fresh settings w =
     (let backend = lower (ss_backend settings); pem = ss_local_dev_pem settings in
      if backend = ''local''
      then (case sw_cache w pem of
          Some ca \<Rightarrow> (w, Inr (Local_CA ca))
        | None \<Rightarrow> (case (if is_set pem then ssh_ca_from_pem lib (the pem) else Inr fresh) of
              Inl e \<Rightarrow> (w, Inl e)
            | Inr ca \<Rightarrow> (w\<lparr>sw_cache := (sw_cache w)(pem \<mapsto> ca)\<rparr>, Inr (Local_CA ca))))
      else if backend = ''vault''
      then (if ss_vault_token settings = []
            then (w, Inl (SSHCAError ''VAULT_TOKEN (or CRYPTO_VAULT_TOKEN) is required for the vault SSH CA backend''))
            else (case read_ca_public_key v (ss_mount settings) (sw_vault w) of
                (vs, Inl e) \<Rightarrow> (w\<lparr>sw_vault := vs\<rparr>, Inl e)
              | (vs, Inr ca_public) \<Rightarrow> (w\<lparr>sw_vault := vs\<rparr>,
                  Inr (Vault_CA (VaultSSHCA (ss_mount settings) (ss_user_role settings) (ss_host_role settings) ca_public)))))
      else (w, Inl (ValueError (''unknown SSH CA backend '' @ py_repr (ss_backend settings) @ ''; expected '' @
             py_repr ''local'' @ '' or '' @ py_repr ''vault''))))"

section \<open>What an authority promises\<close>

text \<open>
  The part of \<^verbatim>\<open>SSHCABackend\<close> the tasks build on: a certificate records the principals it was asked
  for. Hence the columns an installation stores name the host it certified.
\<close>

locale ssh_signer =
  fixes ca :: ssh_ca
  assumes host_principals: "mint_host_cert ca pub ps ttl = Inr c \<Longrightarrow> hcert_principals c = ps"
    and user_principals: "mint_user_cert ca ps ttl = Inr u \<Longrightarrow> ucert_principals u = ps"
begin

lemma installed_cols:
  assumes "ca_backend te = Inr ca" and "install_host_cert_task te r hostname h = (h', Inr cols)"
  obtains pub c where "mint_host_cert ca pub [hostname] (host_cert_ttl te) = Inr c"
    "cols = persist_host_cert c (ca_public_key ca)" "hc_principals cols = Some hostname"
proof -
  from assms obtain c where i: "install_host_cert r hostname ca (host_cert_ttl te) h = (h', Inr c)"
    and cols: "cols = persist_host_cert c (ca_public_key ca)"
    by (auto simp: install_host_cert_task_def split: prod.splits sum.splits)
  from i obtain pub where m: "mint_host_cert ca pub [hostname] (host_cert_ttl te) = Inr c"
    by (auto simp: install_host_cert_def install_host_cert_files_def split: prod.splits sum.splits)
  have "hc_principals cols = Some hostname" using host_principals [OF m] cols by (simp add: persist_host_cert_def)
  with m cols show thesis by (rule that)
qed

end

lemma vault_mint_principals:
  "snd (vault_mint_host_cert v lib ca pub ps ttl s) = Inr c \<Longrightarrow> hcert_principals c = ps"
  "snd (vault_mint_user_cert v lib ca eph ps ttl s) = Inr u \<Longrightarrow> ucert_principals u = ps"
  by (auto simp: vault_mint_host_cert_def vault_mint_user_cert_def andThen_def returning_def split: prod.splits sum.splits)

interpretation local_signer: ssh_signer "local_ssh_ca lib k se" for lib k se
  by unfold_locales
    (auto simp: local_ssh_ca_def local_mint_host_cert_def local_mint_user_cert_def Let_def result_simps)

interpretation vault_signer: ssh_signer "vault_ssh_authority v lib ca eph s" for v lib ca eph s
  by unfold_locales (auto simp: vault_ssh_authority_def vault_mint_principals)

section \<open>A certified host stays reachable\<close>

lemma words_acc_run:
  "\<forall>c \<in> set w. \<not> is_space c \<Longrightarrow> words_acc cur (w @ rest) = words_acc (rev w @ cur) rest"
  by (induction w arbitrary: cur) simp_all

definition key_line :: "string \<Rightarrow> string \<Rightarrow> string" where "key_line algo body = algo @ '' '' @ body"

definition plain_word :: "string \<Rightarrow> bool" where "plain_word w \<longleftrightarrow> w \<noteq> [] \<and> list_all (\<lambda>c. \<not> is_space c) w"

lemma space_is_space: "is_space CHR '' ''" by (simp add: is_space_def)

lemma strip_plain_ends:
  assumes "plain_word a" "plain_word b"
  shows "strip (key_line a b) = key_line a b"
proof -
  obtain x xs where a: "a = x # xs" "\<not> is_space x" using assms(1) by (cases a) (auto simp: plain_word_def)
  obtain y ys where b: "rev b = y # ys" using assms(2) by (cases "rev b") (simp_all add: plain_word_def)
  then have "y \<in> set b" by (metis list.set_intros(1) set_rev)
  then have y: "\<not> is_space y" using assms(2) by (simp add: plain_word_def list_all_iff)
  show ?thesis unfolding strip_def rstrip_if_def key_line_def using a b y by simp
qed

lemma words_key_line:
  assumes "plain_word a" "plain_word b"
  shows "words (key_line a b) = [a, b]"
proof -
  have n: "\<forall>c \<in> set a. \<not> is_space c" "\<forall>c \<in> set b. \<not> is_space c" "a \<noteq> []" "b \<noteq> []"
    using assms by (simp_all add: plain_word_def list_all_iff)
  show ?thesis
    using words_acc_run [OF n(1), of "[]" "'' '' @ b"] words_acc_run [OF n(2), of "[]" "[]"] n(3,4)
    by (simp add: words_def key_line_def space_is_space)
qed

lemma ca_pubkey_body_line: "plain_word a \<Longrightarrow> plain_word b \<Longrightarrow> ca_pubkey_body (key_line a b) = Inr b"
  by (simp add: ca_pubkey_body_def strip_plain_ends words_key_line)

lemma split_key_line:
  assumes "plain_word a" "plain_word b"
  shows "split_on CHR '' '' (key_line a b) = [a, b]"
proof -
  have "CHR '' '' \<notin> set a" "CHR '' '' \<notin> set b"
    using assms space_is_space by (auto simp: plain_word_def list_all_iff)
  then show ?thesis by (simp add: key_line_def)
qed

lemma dropWhile_strip: "dropWhile is_space (strip s) = strip s"
proof -
  have "dropWhile p (rev (dropWhile p (rev (dropWhile p s)))) = rev (dropWhile p (rev (dropWhile p s)))" for p :: "char \<Rightarrow> bool"
  proof (cases "rev (dropWhile p (rev (dropWhile p s)))")
    case (Cons x xs)
    have "dropWhile p s = rev (dropWhile p (rev (dropWhile p s))) @ rev (takeWhile p (rev (dropWhile p s)))"
      by (metis rev_append rev_rev_ident takeWhile_dropWhile_id)
    then have "dropWhile p s = x # (xs @ rev (takeWhile p (rev (dropWhile p s))))" using Cons by simp
    then have "\<not> p x" by (metis dropWhile_eq_Cons_conv)
    then show ?thesis using Cons by simp
  next
    case Nil
    then show ?thesis by (metis dropWhile.simps(1))
  qed
  then show ?thesis by (simp add: strip_def rstrip_if_def)
qed

lemma strip_strip [simp]: "strip (strip s) = strip s"
  unfolding strip_def [of "strip s"] dropWhile_strip by (simp add: strip_def rstrip_if_def dropWhile_idem)

lemma normalise_strip [simp]: "normalise_principal (strip p) = normalise_principal p"
  by (simp add: normalise_principal_def)

lemma accepted_names_single: "CHR '','' \<notin> set n \<Longrightarrow> strip n \<noteq> [] \<Longrightarrow> accepted_names (Some n) = [strip n]"
  by (simp add: accepted_names_def)

text \<open>
  The behaviour of the \<^verbatim>\<open>cryptography\<close> package the authority relies on: a public key is printed as an
  algorithm and a body, and reading a signed certificate back gives what was signed.
\<close>

definition ssh_lib_laws :: "'k ssh_lib \<Rightarrow> bool" where
  "ssh_lib_laws lib \<longleftrightarrow>
     (\<forall>k. \<exists>algo body. plain_word algo \<and> plain_word body \<and> sl_public_openssh lib k = key_line algo body) \<and>
     (\<forall>k rq line. sl_sign lib k rq = Inr line \<longrightarrow> sl_identity lib line = Inr (Ssh_Certificate
        \<lparr>sc_is_host_cert = (rq_kind rq = Host_Cert), sc_serial = rq_serial rq, sc_signer_line = sl_public_openssh lib k,
         sc_valid_after = rq_valid_after rq, sc_valid_before = rq_valid_before rq, sc_principals = rq_principals rq\<rparr>))"

lemma local_host_cert_read_back:
  assumes "ssh_lib_laws lib" and "local_mint_host_cert lib k se pub ps ttl = Inr c"
  shows "sl_identity lib (hcert_pem c) = Inr (Ssh_Certificate
     \<lparr>sc_is_host_cert = True, sc_serial = se_serial se, sc_signer_line = sl_public_openssh lib k,
      sc_valid_after = se_time se, sc_valid_before = se_time se + ttl, sc_principals = ps\<rparr>)"
proof -
  from assms(2) obtain rq line where "sl_sign lib k rq = Inr line" and "hcert_pem c = line"
    and "rq_kind rq = Host_Cert" "rq_serial rq = se_serial se" "rq_valid_after rq = se_time se"
      "rq_valid_before rq = se_time se + ttl" "rq_principals rq = ps"
    by (auto simp: local_mint_host_cert_def Let_def result_simps ca_error_def split: sum.splits option.splits)
  with assms(1) show ?thesis unfolding ssh_lib_laws_def by simp
qed

text \<open>
  C24: once a task has installed a certificate from the local authority, the policy of a later session
  accepts the host that presents it exactly while the certificate is valid, whatever name the row
  is dialled under by then.
\<close>

theorem certified_host_stays_reachable:
  assumes "ssh_lib_laws lib" and "ca_backend te = Inr (local_ssh_ca lib k se)"
    and "install_host_cert_task te r hostname h = (h', Inr cols)"
    and "CHR '','' \<notin> set hostname" and "strip hostname \<noteq> []"
    and "ok_public_blob key = Some (ED25519_HOST_CERT_ALG, blob)"
    and "hc_pem cols = Some (ED25519_HOST_CERT_ALG @ '' '' @ b64encode blob)"
  shows "\<exists>pol. KnownHostsCAPolicy (sl_public_openssh lib k) (Some (dialled # accepted_names (hc_principals cols))) = Inr pol \<and>
     (missing_host_key (sl_identity lib) t pol peer key = Inr () \<longleftrightarrow> se_time se \<le> t \<and> t < se_time se + host_cert_ttl te)"
proof -
  obtain algo body where kl: "plain_word algo" "plain_word body" "sl_public_openssh lib k = key_line algo body"
    using assms(1) unfolding ssh_lib_laws_def by blast
  obtain pub c where m: "mint_host_cert (local_ssh_ca lib k se) pub [hostname] (host_cert_ttl te) = Inr c"
    and cols: "cols = persist_host_cert c (ca_public_key (local_ssh_ca lib k se))" and pr: "hc_principals cols = Some hostname"
    by (rule local_signer.installed_cols [OF assms(2,3)])
  have names: "accepted_names (hc_principals cols) = [strip hostname]"
    unfolding pr using accepted_names_single [OF assms(4,5)] .
  define pol where "pol = \<lparr>cp_ca_public_key = sl_public_openssh lib k, cp_ca_body = body,
    cp_principals = Some (map normalise_principal (filter (\<lambda>p. strip p \<noteq> []) [dialled, strip hostname]))\<rparr>"
  have pol: "KnownHostsCAPolicy (sl_public_openssh lib k) (Some (dialled # accepted_names (hc_principals cols))) = Inr pol"
    unfolding names pol_def KnownHostsCAPolicy_def kl(3) ca_pubkey_body_line [OF kl(1,2)] by simp
  have pem: "hcert_pem c = ED25519_HOST_CERT_ALG @ '' '' @ b64encode blob"
    using assms(7) cols by (simp add: persist_host_cert_def)
  have "offers (sl_identity lib) key cert \<longleftrightarrow> cert = \<lparr>sc_is_host_cert = True, sc_serial = se_serial se,
      sc_signer_line = key_line algo body, sc_valid_after = se_time se, sc_valid_before = se_time se + host_cert_ttl te,
      sc_principals = [hostname]\<rparr>" for cert
    using local_host_cert_read_back [OF assms(1), of k se pub "[hostname]" "host_cert_ttl te" c] m assms(6)
    unfolding offers_def local_ssh_ca_def pem kl(3) by auto
  then have "missing_host_key (sl_identity lib) t pol peer key = Inr () \<longleftrightarrow> se_time se \<le> t \<and> t < se_time se + host_cert_ttl te"
    unfolding missing_host_key_iff vouches_for_def names_signer_def
    by (simp add: split_key_line [OF kl(1,2)] pol_def accepted_by_def assms(5))
  with pol show ?thesis by blast
qed

text \<open>A package that signs one request, and a task that has it signed.\<close>

definition one_cert_line :: string where "one_cert_line = ED25519_HOST_CERT_ALG @ '' '' @ b64encode ''cert''"

definition one_request :: cert_request where
  "one_request = \<lparr>rq_public_key = ''ssh-ed25519 AAAA'', rq_kind = Host_Cert, rq_serial = 7, rq_key_id = ''wg-manager-host-7'',
     rq_principals = [''hub.example''], rq_valid_after = 1000, rq_valid_before = 1060, rq_extensions = []\<rparr>"

definition one_cert_lib :: "unit ssh_lib" where
  "one_cert_lib = \<lparr>sl_public_openssh = (\<lambda>_. ''ssh-ed25519 CAKEY''), sl_private_pem = (\<lambda>_. ''pem''),
     sl_load_private = (\<lambda>_. Inr (Ed25519 ())),
     sl_identity = (\<lambda>line. if line = one_cert_line then Inr (Ssh_Certificate
       \<lparr>sc_is_host_cert = True, sc_serial = 7, sc_signer_line = ''ssh-ed25519 CAKEY'', sc_valid_after = 1000,
        sc_valid_before = 1060, sc_principals = [''hub.example'']\<rparr>) else Inr (Plain_Key ''Ed25519PublicKey'')),
     sl_build = (\<lambda>_. Inr ()),
     sl_sign = (\<lambda>_ rq. if rq = one_request then Inr one_cert_line else Inl (ValueError ''unexpected request''))\<rparr>"

lemma one_cert_lib_laws: "ssh_lib_laws one_cert_lib"
proof -
  have "plain_word ''ssh-ed25519'' \<and> plain_word ''CAKEY'' \<and> ''ssh-ed25519 CAKEY'' = key_line ''ssh-ed25519'' ''CAKEY''"
    by code_simp
  then show ?thesis unfolding ssh_lib_laws_def one_cert_lib_def by (auto simp: one_request_def)
qed

definition signing_env :: "unit task_env" where
  "signing_env = quiet_env\<lparr>ca_backend := Inr (local_ssh_ca one_cert_lib () \<lparr>se_time = 1000, se_serial = 7, se_ephemeral = ()\<rparr>)\<rparr>"

theorem certified_host_stays_reachable_witness:
  "\<exists>h' cols pol. install_host_cert_task signing_env (\<lambda>cmd h. (h, Inr (sample_answer cmd))) ''hub.example'' () = (h', Inr cols) \<and>
     KnownHostsCAPolicy ''ssh-ed25519 CAKEY'' (Some (''renamed.example'' # accepted_names (hc_principals cols))) = Inr pol \<and>
     missing_host_key (sl_identity one_cert_lib) 1030 pol ''renamed.example''
       \<lparr>ok_public_blob = Some (ED25519_HOST_CERT_ALG, ''cert'')\<rparr> = Inr () \<and>
     missing_host_key (sl_identity one_cert_lib) 1060 pol ''renamed.example''
       \<lparr>ok_public_blob = Some (ED25519_HOST_CERT_ALG, ''cert'')\<rparr> \<noteq> Inr ()"
proof -
  let ?se = "\<lparr>se_time = 1000, se_serial = 7, se_ephemeral = ()\<rparr>" and ?key = "\<lparr>ok_public_blob = Some (ED25519_HOST_CERT_ALG, ''cert'')\<rparr>"
  let ?run = "install_host_cert_task signing_env (\<lambda>cmd h. (h, Inr (sample_answer cmd))) ''hub.example'' ()"
  have "case snd ?run of Inr cols \<Rightarrow> hc_pem cols = Some (ED25519_HOST_CERT_ALG @ '' '' @ b64encode ''cert'') | Inl _ \<Rightarrow> False"
    by code_simp
  then obtain h' cols where run: "?run = (h', Inr cols)" and pem: "hc_pem cols = Some (ED25519_HOST_CERT_ALG @ '' '' @ b64encode ''cert'')"
    by (cases ?run) (auto split: sum.splits)
  have be: "ca_backend signing_env = Inr (local_ssh_ca one_cert_lib () ?se)" by (simp add: signing_env_def)
  have host: "CHR '','' \<notin> set ''hub.example''" "strip ''hub.example'' \<noteq> []" by code_simp+
  have ttl: "host_cert_ttl signing_env = 60" and pub: "sl_public_openssh one_cert_lib () = ''ssh-ed25519 CAKEY''"
    by (simp_all add: signing_env_def quiet_env_def one_cert_lib_def)
  note reach = certified_host_stays_reachable [OF one_cert_lib_laws be run host _ pem, of ?key "''renamed.example''" _ "''renamed.example''"]
  from reach [of 1030] reach [of 1060] run show ?thesis unfolding ttl pub by auto
qed

text \<open>
  The cache: within one process every later call with the same pinned PEM gives the authority of the
  first one, whatever key a fresh generation would give.
\<close>

theorem make_ssh_ca_backend_memoised:
  assumes "make_ssh_ca_backend lib v fresh settings w = (w', Inr (Local_CA ca))"
    and "ss_local_dev_pem settings' = ss_local_dev_pem settings" and "lower (ss_backend settings') = ''local''"
  shows "make_ssh_ca_backend lib v fresh' settings' w' = (w', Inr (Local_CA ca))"
  using assms by (auto simp: make_ssh_ca_backend_def Let_def split: if_splits option.splits sum.splits prod.splits)

text \<open>
  Only a missing path becomes an \<^verbatim>\<open>SSHCAError\<close>: any other failure of Vault escapes the factory as it is.
\<close>

theorem unreadable_vault_escapes:
  assumes "sv_get v (''/v1/'' @ ss_mount settings @ ''/public_key'') (sw_vault w) = (s', Inl (VaultOther m))"
    and "lower (ss_backend settings) = ''vault''" and "ss_vault_token settings \<noteq> []"
  shows "snd (make_ssh_ca_backend lib v fresh settings w) = Inl (VaultOther m) \<and> \<not> ssh_expected (VaultOther m)"
  using assms by (simp add: make_ssh_ca_backend_def Let_def read_ca_public_key_def andThen_def handling_def raising_def)

end
