(* ===== verification/Datetime.thy ===== *)
theory Datetime
  imports Prelude
begin

text \<open>
  The calendar of Python's \<^verbatim>\<open>datetime\<close> module for aware UTC values: the proleptic Gregorian calendar in
  both directions as the module computes it, \<^verbatim>\<open>isoformat\<close>, and \<^verbatim>\<open>fromisoformat\<close> on the extended form
  with a date, an optional time and an optional offset (the basic and week forms are refused).
  An instant is the number of microseconds since 1970-01-01T00:00:00+00:00.
\<close>

section \<open>The calendar\<close>

definition is_leap :: "int \<Rightarrow> bool" where
  "is_leap y \<longleftrightarrow> y mod 4 = 0 \<and> (y mod 100 \<noteq> 0 \<or> y mod 400 = 0)"

definition days_before_year :: "int \<Rightarrow> int" where
  "days_before_year year = (let y = year - 1 in y * 365 + y div 4 - y div 100 + y div 400)"

definition DAYS_BEFORE_MONTH :: "int list" where
  "DAYS_BEFORE_MONTH = [-1, 0, 31, 59, 90, 120, 151, 181, 212, 243, 273, 304, 334]"

definition DAYS_IN_MONTH :: "int list" where
  "DAYS_IN_MONTH = [-1, 31, 28, 31, 30, 31, 30, 31, 31, 30, 31, 30, 31]"

definition days_before_month :: "bool \<Rightarrow> int \<Rightarrow> int" where
  "days_before_month leap m = DAYS_BEFORE_MONTH ! nat m + (if m > 2 \<and> leap then 1 else 0)"

definition days_in_month :: "bool \<Rightarrow> int \<Rightarrow> int" where
  "days_in_month leap m = (if m = 2 \<and> leap then 29 else DAYS_IN_MONTH ! nat m)"

definition ymd2ord :: "int \<Rightarrow> int \<Rightarrow> int \<Rightarrow> int" where
  "ymd2ord y m d = days_before_year y + days_before_month (is_leap y) m + d"

text \<open>Month and day of the \<^verbatim>\<open>r\<close>-th day of a year, counted from zero.\<close>

definition month_day :: "bool \<Rightarrow> int \<Rightarrow> int \<times> int" where
  "month_day leap r =
     (let month = (r + 50) div 32; preceding = days_before_month leap month in
      if preceding > r then (month - 1, r - (preceding - days_in_month leap (month - 1)) + 1)
      else (month, r - preceding + 1))"

definition ord2ymd :: "int \<Rightarrow> int \<times> int \<times> int" where
  "ord2ymd ord =
     (let n = ord - 1;
          n400 = n div 146097; n = n mod 146097;
          n100 = n div 36524; n = n mod 36524;
          n4 = n div 1461; n = n mod 1461;
          n1 = n div 365; n = n mod 365;
          year = n400 * 400 + 1 + n100 * 100 + n4 * 4 + n1 in
      if n1 = 4 \<or> n100 = 4 then (year - 1, 12, 31)
      else (year, month_day (n1 = 3 \<and> (n4 \<noteq> 24 \<or> n100 = 3)) n))"

lemma month_day_correct:
  assumes "0 \<le> r" "r \<le> (if leap then 365 else 364)" and "month_day leap r = (m, d)"
  shows "1 \<le> m \<and> m \<le> 12 \<and> 1 \<le> d \<and> d \<le> days_in_month leap m \<and> days_before_month leap m + d = r + 1"
proof -
  define k where "k = (r + 50) div 32"
  have k: "32 * k \<le> r + 50" "r + 50 < 32 * k + 32" unfolding k_def by linarith+
  have md: "(m, d) = (if days_before_month leap k > r
      then (k - 1, r - (days_before_month leap k - days_in_month leap (k - 1)) + 1) else (k, r - days_before_month leap k + 1))"
    using assms(3) unfolding month_day_def Let_def k_def [symmetric] by simp
  have "1 \<le> k" "k \<le> 12" using k assms(1,2) by (cases leap; simp)+
  then have "k = 1 \<or> k = 2 \<or> k = 3 \<or> k = 4 \<or> k = 5 \<or> k = 6 \<or> k = 7 \<or> k = 8 \<or> k = 9 \<or> k = 10 \<or> k = 11 \<or> k = 12"
    by presburger
  then show ?thesis
    using md k assms(1,2)
    by (elim disjE) (cases leap; simp add: days_before_month_def days_in_month_def DAYS_BEFORE_MONTH_def DAYS_IN_MONTH_def split: if_splits)+
qed

text \<open>A year written in base 400, 100, 4, 1.\<close>

lemma year_digits:
  fixes a b c d :: int
  assumes "0 \<le> b" "b \<le> 3" "0 \<le> c" "c \<le> 24" "0 \<le> d" "d \<le> 3"
  shows "days_before_year (a * 400 + 1 + b * 100 + c * 4 + d) = 146097 * a + 36524 * b + 1461 * c + 365 * d"
    and "is_leap (a * 400 + 1 + b * 100 + c * 4 + d) \<longleftrightarrow> d = 3 \<and> (c \<noteq> 24 \<or> b = 3)"
proof -
  let ?y = "a * 400 + b * 100 + c * 4 + d"
  have "?y div 4 = 100 * a + 25 * b + c" by (rule int_div_pos_eq [of _ _ _ d]) (use assms in simp_all)
  moreover have "?y div 100 = 4 * a + b" by (rule int_div_pos_eq [of _ _ _ "c * 4 + d"]) (use assms in simp_all)
  moreover have "?y div 400 = a" by (rule int_div_pos_eq [of _ _ _ "b * 100 + c * 4 + d"]) (use assms in simp_all)
  ultimately show "days_before_year (a * 400 + 1 + b * 100 + c * 4 + d) = 146097 * a + 36524 * b + 1461 * c + 365 * d"
    unfolding days_before_year_def Let_def by (simp add: algebra_simps)
  let ?Y = "a * 400 + 1 + b * 100 + c * 4 + d"
  show "is_leap ?Y \<longleftrightarrow> d = 3 \<and> (c \<noteq> 24 \<or> b = 3)"
  proof (cases "d = 3")
    case False
    have "?Y mod 4 = d + 1" by (rule int_mod_pos_eq [of _ _ "100 * a + 25 * b + c"]) (use assms False in simp_all)
    then show ?thesis using False assms by (simp add: is_leap_def)
  next
    case d: True
    have m4: "?Y mod 4 = 0" by (rule int_mod_pos_eq [of _ _ "100 * a + 25 * b + c + 1"]) (use d in simp_all)
    show ?thesis
    proof (cases "c = 24")
      case False
      have "?Y mod 100 = c * 4 + 4" by (rule int_mod_pos_eq [of _ _ "4 * a + b"]) (use assms d False in simp_all)
      then show ?thesis using m4 d False assms by (simp add: is_leap_def)
    next
      case c: True
      have m100: "?Y mod 100 = 0" by (rule int_mod_pos_eq [of _ _ "4 * a + b + 1"]) (use c d in simp_all)
      show ?thesis
      proof (cases "b = 3")
        case True
        have "?Y mod 400 = 0" by (rule int_mod_pos_eq [of _ _ "a + 1"]) (use c d True in simp_all)
        then show ?thesis using m4 d c True by (simp add: is_leap_def)
      next
        case False
        have "?Y mod 400 = b * 100 + 100" by (rule int_mod_pos_eq [of _ _ a]) (use assms c d False in simp_all)
        then show ?thesis using m4 m100 d c False assms by (simp add: is_leap_def)
      qed
    qed
  qed
qed

lemma ord2ymd_digits:
  obtains a b c e r where "ord - 1 = 146097 * a + 36524 * b + 1461 * c + 365 * e + r"
    "0 \<le> b" "b \<le> 4" "0 \<le> c" "c \<le> 24" "0 \<le> e" "e \<le> 4" "0 \<le> r" "r < 365"
    "36524 * b + 1461 * c + 365 * e + r < 146097" "1461 * c + 365 * e + r < 36524" "365 * e + r < 1461"
    "ord2ymd ord = (if e = 4 \<or> b = 4 then (a * 400 + 1 + b * 100 + c * 4 + e - 1, 12, 31)
       else (a * 400 + 1 + b * 100 + c * 4 + e, month_day (e = 3 \<and> (c \<noteq> 24 \<or> b = 3)) r))"
proof -
  define n a where "n = ord - 1" and "a = n div 146097"
  define u b where "u = n mod 146097" and "b = u div 36524"
  define v c where "v = u mod 36524" and "c = v div 1461"
  define w e where "w = v mod 1461" and "e = w div 365"
  define r where "r = w mod 365"
  have u: "0 \<le> u" "u < 146097" and v: "0 \<le> v" "v < 36524" and w: "0 \<le> w" "w < 1461" and r: "0 \<le> r" "r < 365"
    by (simp_all add: u_def v_def w_def r_def)
  have n: "n = 146097 * a + u" and u': "u = 36524 * b + v" and v': "v = 1461 * c + w" and w': "w = 365 * e + r"
    by (simp_all add: a_def u_def b_def v_def c_def w_def e_def r_def)
  have o: "ord2ymd ord = (if e = 4 \<or> b = 4 then (a * 400 + 1 + b * 100 + c * 4 + e - 1, 12, 31)
       else (a * 400 + 1 + b * 100 + c * 4 + e, month_day (e = 3 \<and> (c \<noteq> 24 \<or> b = 3)) r))"
    by (simp add: ord2ymd_def Let_def n_def [symmetric] a_def [symmetric] u_def [symmetric] b_def [symmetric] v_def [symmetric]
        c_def [symmetric] w_def [symmetric] e_def [symmetric] r_def [symmetric])
  show thesis
    by (rule that [OF _ _ _ _ _ _ _ r _ _ _ o]) (use u v w r n n_def u' v' w' in linarith)+
qed

theorem ord2ymd_inverse:
  assumes "ord2ymd ord = (y, m, d)"
  shows "ymd2ord y m d = ord \<and> 1 \<le> m \<and> m \<le> 12 \<and> 1 \<le> d \<and> d \<le> days_in_month (is_leap y) m"
proof -
  obtain a b c e r where n: "ord - 1 = 146097 * a + 36524 * b + 1461 * c + 365 * e + r"
    and b: "0 \<le> b" "b \<le> 4" and c: "0 \<le> c" "c \<le> 24" and e: "0 \<le> e" "e \<le> 4" and r: "0 \<le> r" "r < 365"
    and u: "36524 * b + 1461 * c + 365 * e + r < 146097" and v: "1461 * c + 365 * e + r < 36524" and w: "365 * e + r < 1461"
    and o: "ord2ymd ord = (if e = 4 \<or> b = 4 then (a * 400 + 1 + b * 100 + c * 4 + e - 1, 12, 31)
       else (a * 400 + 1 + b * 100 + c * 4 + e, month_day (e = 3 \<and> (c \<noteq> 24 \<or> b = 3)) r))"
    by (rule ord2ymd_digits)
  let ?year = "a * 400 + 1 + b * 100 + c * 4 + e"
  have dec: "days_before_month l 12 + 31 = (if l then 366 else 365)" "days_in_month l 12 = 31" for l
    by (simp_all add: days_before_month_def days_in_month_def DAYS_BEFORE_MONTH_def DAYS_IN_MONTH_def)
  consider "b = 4" | "b \<noteq> 4" "e = 4" | "b \<noteq> 4" "e \<noteq> 4" by blast
  then show ?thesis
  proof cases
    case 1
    then have z: "c = 0" "e = 0" "r = 0" using u c e r by linarith+
    have y: "?year - 1 = a * 400 + 1 + 3 * 100 + 24 * 4 + 3" using 1 z by simp
    have "y = ?year - 1" "m = 12" "d = 31" using assms o 1 by simp_all
    then show ?thesis unfolding y
      using year_digits [of 3 24 3 a] dec [of True] n 1 z by (simp add: ymd2ord_def)
  next
    case 2
    then have z: "r = 0" using w r by linarith
    have y: "?year - 1 = a * 400 + 1 + b * 100 + c * 4 + 3" using 2 by simp
    have leap: "c \<noteq> 24 \<or> b = 3" using z v u b 2 by linarith
    have "y = ?year - 1" "m = 12" "d = 31" using assms o 2 by simp_all
    then show ?thesis unfolding y
      using year_digits [of b c 3 a] dec [of True] n 2 z b c leap by (simp add: ymd2ord_def)
  next
    case 3
    then have b3: "b \<le> 3" and e3: "e \<le> 3" using b e by linarith+
    have y: "y = ?year" and md: "month_day (e = 3 \<and> (c \<noteq> 24 \<or> b = 3)) r = (m, d)" using assms o 3 by simp_all
    note yd = year_digits [OF b(1) b3 c e(1) e3, of a]
    have "r \<le> (if e = 3 \<and> (c \<noteq> 24 \<or> b = 3) then 365 else 364)" using r(2) by simp
    note mc = month_day_correct [OF r(1) this md]
    have "days_before_month (e = 3 \<and> (c \<noteq> 24 \<or> b = 3)) m + d = r + 1" using mc by blast
    then show ?thesis
      using mc yd(1) n unfolding y ymd2ord_def yd(2) by linarith
  qed
qed

section \<open>\<^verbatim>\<open>isoformat\<close> and \<^verbatim>\<open>fromisoformat\<close>\<close>

definition pad :: "nat \<Rightarrow> int \<Rightarrow> string" where
  "pad w n = (let s = str_of_nat (nat n) in replicate (w - length s) CHR ''0'' @ s)"

definition day_micros :: int where "day_micros = 86400000000"

definition EPOCH_ORD :: int where "EPOCH_ORD = 719163"

definition isoformat :: "int \<Rightarrow> string" where
  "isoformat t =
     (let (y, m, d) = ord2ymd (t div day_micros + EPOCH_ORD); us = t mod day_micros in
      pad 4 y @ ''-'' @ pad 2 m @ ''-'' @ pad 2 d @ ''T'' @
      pad 2 (us div 3600000000) @ '':'' @ pad 2 (us div 60000000 mod 60) @ '':'' @ pad 2 (us div 1000000 mod 60) @
      (if us mod 1000000 = 0 then [] else ''.'' @ pad 6 (us mod 1000000)) @ ''+00:00'')"

definition take_digits :: "nat \<Rightarrow> string \<Rightarrow> (int \<times> string) option" where
  "take_digits k s =
     (if length (take k s) = k \<and> list_all is_digit (take k s) then Some (int (digits_to_nat (take k s)), drop k s) else None)"

definition take_char :: "char \<Rightarrow> string \<Rightarrow> string option" where
  "take_char c s = (case s of x # r \<Rightarrow> if x = c then Some r else None | [] \<Rightarrow> None)"

definition iso_date :: "string \<Rightarrow> (int \<times> string) option" where
  "iso_date s =
     Option.bind (take_digits 4 s) (\<lambda>(y, s). Option.bind (take_char CHR ''-'' s) (\<lambda>s.
     Option.bind (take_digits 2 s) (\<lambda>(m, s). Option.bind (take_char CHR ''-'' s) (\<lambda>s.
     Option.bind (take_digits 2 s) (\<lambda>(d, s).
       if 1 \<le> y \<and> 1 \<le> m \<and> m \<le> 12 \<and> 1 \<le> d \<and> d \<le> days_in_month (is_leap y) m then Some (ymd2ord y m d, s) else None)))))"

text \<open>\<^verbatim>\<open>HH[:MM[:SS[.f+]]]\<close> in microseconds; digits after the sixth are dropped.\<close>

definition iso_fraction :: "string \<Rightarrow> (int \<times> string) option" where
  "iso_fraction s =
     (case s of
        c # r \<Rightarrow>
          if c = CHR ''.'' \<or> c = CHR '','' then
            (let ds = takeWhile is_digit r in
             if ds = [] then None
             else Some (int (digits_to_nat (take 6 (ds @ replicate 5 CHR ''0''))), dropWhile is_digit r))
          else Some (0, s)
      | [] \<Rightarrow> Some (0, s))"

definition optional_field :: "string \<Rightarrow> (int \<times> string \<times> bool) option" where
  "optional_field s =
     (case take_char CHR '':'' s of
        None \<Rightarrow> Some (0, s, False)
      | Some r \<Rightarrow> Option.bind (take_digits 2 r) (\<lambda>(n, r). if n < 60 then Some (n, r, True) else None))"

definition iso_time :: "string \<Rightarrow> (int \<times> string) option" where
  "iso_time s =
     Option.bind (take_digits 2 s) (\<lambda>(hh, s).
     Option.bind (optional_field s) (\<lambda>(mm, s, has_minutes).
     Option.bind (if has_minutes then optional_field s else Some (0, s, False)) (\<lambda>(ss, s, has_seconds).
     Option.bind (if has_seconds then iso_fraction s else Some (0, s)) (\<lambda>(us, s).
       if hh < 24 then Some (((hh * 60 + mm) * 60 + ss) * 1000000 + us, s) else None))))"

definition iso_offset :: "string \<Rightarrow> int option option" where
  "iso_offset s =
     (case s of
        [] \<Rightarrow> Some None
      | c # r \<Rightarrow>
          if c = CHR ''Z'' then (if r = [] then Some (Some 0) else None)
          else if c = CHR ''+'' \<or> c = CHR ''-'' then
            Option.bind (iso_time r) (\<lambda>(us, s). if s = [] then Some (Some (if c = CHR ''-'' then - us else us)) else None)
          else None)"

text \<open>The instant, and whether the text carried an offset; without one it is read as UTC.\<close>

definition fromisoformat :: "string \<Rightarrow> (int \<times> bool) result" where
  "fromisoformat s =
     or_raise
       (Option.bind (iso_date s) (\<lambda>(ord, s).
          let day = (ord - EPOCH_ORD) * day_micros in
          if s = [] then Some (day, False)
          else Option.bind (iso_time (drop 1 s)) (\<lambda>(us, s).
               Option.bind (iso_offset s) (\<lambda>off.
                 Some (case off of None \<Rightarrow> (day + us, False) | Some z \<Rightarrow> (day + us - z, True))))))
       (ValueError (''Invalid isoformat string: '' @ py_repr s))"

section \<open>Reading back what was printed\<close>

lemma digits_to_nat_zeros: "digits_to_nat (replicate k CHR ''0'' @ s) = digits_to_nat s"
proof -
  have "foldl (\<lambda>n c. 10 * n + digit_val c) 0 (replicate k CHR ''0'') = 0"
    by (induction k) (simp_all add: digit_val_def)
  then show ?thesis by (simp add: digits_to_nat_def)
qed

lemma take_digits_pad:
  assumes "0 \<le> n" "n < 10 ^ k" "0 < k"
  shows "take_digits k (pad k n @ rest) = Some (n, rest)"
    and "length (pad k n) = k" and "list_all is_digit (pad k n)" and "int (digits_to_nat (pad k n)) = n"
proof -
  have "nat n < 10 ^ k" using assms(1,2) by (simp add: nat_less_iff)
  then have l: "length (str_of_nat (nat n)) \<le> k" using assms(3) by (rule length_str_of_nat_mono)
  then show len: "length (pad k n) = k" by (simp add: pad_def Let_def)
  show dig: "list_all is_digit (pad k n)"
    using str_of_nat_digits [of "nat n"] by (auto simp: pad_def Let_def list_all_iff is_digit_def)
  show val: "int (digits_to_nat (pad k n)) = n"
    using assms(1) by (simp add: pad_def Let_def digits_to_nat_zeros)
  show "take_digits k (pad k n @ rest) = Some (n, rest)"
    using len dig val by (simp add: take_digits_def)
qed

lemma take_char_same [simp]: "take_char c (c # s) = Some s"
  by (simp add: take_char_def)

definition representable :: "int \<Rightarrow> bool" where
  "representable t \<longleftrightarrow> (1 - EPOCH_ORD) * day_micros \<le> t \<and> t < (3652060 - EPOCH_ORD) * day_micros"

lemma year_range:
  assumes "ord2ymd ord = (y, m, d)" and "1 \<le> ord" and "ord < 3652060"
  shows "1 \<le> y \<and> y \<le> 9999"
proof -
  obtain a b c e r where n: "ord - 1 = 146097 * a + 36524 * b + 1461 * c + 365 * e + r"
    and b: "0 \<le> b" "b \<le> 4" and c: "0 \<le> c" "c \<le> 24" and e: "0 \<le> e" "e \<le> 4" and r: "0 \<le> r" "r < 365"
    and u: "36524 * b + 1461 * c + 365 * e + r < 146097" and v: "1461 * c + 365 * e + r < 36524" and w: "365 * e + r < 1461"
    and o: "ord2ymd ord = (if e = 4 \<or> b = 4 then (a * 400 + 1 + b * 100 + c * 4 + e - 1, 12, 31)
       else (a * 400 + 1 + b * 100 + c * 4 + e, month_day (e = 3 \<and> (c \<noteq> 24 \<or> b = 3)) r))"
    by (rule ord2ymd_digits)
  have a: "0 \<le> a" "a \<le> 24" using n u b c e r assms(2,3) by linarith+
  have y: "y = a * 400 + 1 + b * 100 + c * 4 + e - (if e = 4 \<or> b = 4 then 1 else 0)" using assms(1) o by (simp split: if_splits)
  have top: "b * 100 + c * 4 + e \<le> 398" if "a = 24"
  proof -
    have d: "36524 * b + 1461 * c + 365 * e + r < 145731" using that n assms(3) by linarith
    then have "b \<le> 3" using c e r by linarith
    moreover have "c \<le> 23 \<or> e \<le> 2" if "b = 3" using that d c e r by linarith
    ultimately show ?thesis using c e by linarith
  qed
  show ?thesis
  proof (cases "a = 24")
    case True
    then show ?thesis using y top b c e by (simp split: if_splits)
  next
    case False
    then show ?thesis using y a b c e u v w r by (auto split: if_splits)
  qed
qed

theorem fromisoformat_isoformat:
  assumes "representable t"
  shows "fromisoformat (isoformat t) = Inr (t, True)"
proof -
  obtain y m d where ymd: "ord2ymd (t div day_micros + EPOCH_ORD) = (y, m, d)" by (metis prod_cases3)
  define us where "us = t mod day_micros"
  define hh mm ss f where "hh = us div 3600000000" and "mm = us div 60000000 mod 60" and "ss = us div 1000000 mod 60"
    and "f = us mod 1000000"
  have us: "0 \<le> us" "us < day_micros" by (simp_all add: us_def day_micros_def)
  have hh: "0 \<le> hh" "hh < 24" and mm: "0 \<le> mm" "mm < 60" and ss: "0 \<le> ss" "ss < 60" and f: "0 \<le> f" "f < 1000000"
    using us by (simp_all add: hh_def mm_def ss_def f_def day_micros_def div_less_iff_less_mult)
  have sum: "((hh * 60 + mm) * 60 + ss) * 1000000 + f = us"
  proof -
    define q p where "q = us div 1000000" and "p = q div 60"
    have "us div 60000000 = p" using zdiv_zmult2_eq [of 60 us 1000000] by (simp add: p_def q_def)
    moreover have "us div 3600000000 = p div 60" using zdiv_zmult2_eq [of 60 us 60000000] calculation by simp
    ultimately have "hh = p div 60" "mm = p mod 60" "ss = q mod 60" by (simp_all add: hh_def mm_def ss_def q_def)
    then have "hh * 60 + mm = p" "p * 60 + ss = q" by (simp_all add: p_def)
    then show ?thesis by (simp add: q_def f_def)
  qed
  have o: "1 \<le> t div day_micros + EPOCH_ORD" "t div day_micros + EPOCH_ORD < 3652060"
  proof -
    have "t = 86400000000 * (t div 86400000000) + t mod 86400000000" "0 \<le> t mod 86400000000" "t mod 86400000000 < 86400000000"
      by simp_all
    moreover have "- 62135596800000000 \<le> t" "t < 253402300800000000"
      using assms by (simp_all add: representable_def day_micros_def EPOCH_ORD_def)
    ultimately show "1 \<le> t div day_micros + EPOCH_ORD" "t div day_micros + EPOCH_ORD < 3652060"
      unfolding day_micros_def EPOCH_ORD_def by linarith+
  qed
  have day: "(t div day_micros) * day_micros + us = t" by (simp add: us_def)
  have inv: "ymd2ord y m d = t div day_micros + EPOCH_ORD" and m: "1 \<le> m" "m \<le> 12" and d: "1 \<le> d" "d \<le> days_in_month (is_leap y) m"
    using ord2ymd_inverse [OF ymd] by simp_all
  have y: "1 \<le> y" "y \<le> 9999" using year_range [OF ymd o] by simp_all
  have "m = 1 \<or> m = 2 \<or> m = 3 \<or> m = 4 \<or> m = 5 \<or> m = 6 \<or> m = 7 \<or> m = 8 \<or> m = 9 \<or> m = 10 \<or> m = 11 \<or> m = 12"
    using m by presburger
  then have "days_in_month l m \<le> 31" for l
    by (elim disjE) (simp_all add: days_in_month_def DAYS_IN_MONTH_def)
  then have d31: "d \<le> 31" using d(2) by (meson order.trans)
  have date: "iso_date (pad 4 y @ ''-'' @ pad 2 m @ ''-'' @ pad 2 d @ rest) = Some (t div day_micros + EPOCH_ORD, rest)" for rest
    using y m d d31 inv by (simp add: iso_date_def take_digits_pad)
  have fr: "iso_fraction ((if f = 0 then [] else ''.'' @ pad 6 f) @ ''+00:00'') = Some (f, ''+00:00'')"
  proof (cases "f = 0")
    case False
    have p: "length (pad 6 f) = 6" "list_all is_digit (pad 6 f)" "int (digits_to_nat (pad 6 f)) = f"
      using take_digits_pad(2-4) [of f 6] f by simp_all
    have plus: "\<not> is_digit CHR ''+''" by (simp add: is_digit_def)
    have tw: "takeWhile is_digit (pad 6 f @ ''+00:00'') = pad 6 f" and dw: "dropWhile is_digit (pad 6 f @ ''+00:00'') = ''+00:00''"
      using p(2) plus by (simp_all add: takeWhile_append2 dropWhile_append2 list_all_iff)
    have ne: "pad 6 f \<noteq> []" using p(1) by auto
    show ?thesis using False p(1,3) tw dw ne by (simp add: iso_fraction_def Let_def)
  qed (simp add: iso_fraction_def)
  have field: "optional_field ('':'' @ pad 2 n @ rest) = Some (n, rest, True)" if "0 \<le> n" "n < 60" for n rest
    using that by (simp add: optional_field_def take_digits_pad)
  have time: "iso_time (pad 2 hh @ '':'' @ pad 2 mm @ '':'' @ pad 2 ss @ (if f = 0 then [] else ''.'' @ pad 6 f) @ ''+00:00'') = Some (us, ''+00:00'')"
    using hh mm ss fr sum by (simp add: iso_time_def take_digits_pad field [simplified])
  have off: "iso_offset ''+00:00'' = Some (Some 0)" by code_simp
  show ?thesis
    unfolding isoformat_def fromisoformat_def Let_def ymd prod.case us_def [symmetric] hh_def [symmetric] mm_def [symmetric] ss_def [symmetric] f_def [symmetric] date
    using time off day by simp
qed

text \<open>2024 was a leap year; 5000000 is five seconds past the epoch.\<close>

lemma isoformat_samples:
  "isoformat 5000000 = ''1970-01-01T00:00:05+00:00''"
  "isoformat 1709164800123456 = ''2024-02-29T00:00:00.123456+00:00''"
  by code_simp+

end
