(* ===== verification/Backup.thy ===== *)
theory Backup
  imports Json Datetime Crypto
begin

text \<open>
  \<^verbatim>\<open>db backup\<close> and \<^verbatim>\<open>db restore\<close> of \<^verbatim>\<open>cli.py\<close>: every table as JSON text, optionally in an envelope
  encrypted with a data key that the crypto backend wraps. The commands work on SQLAlchemy's table
  objects, so the database is modelled here as they see it: rows of column values by table name,
  with the declared types, NOT NULL, unique and foreign key constraints. Random bytes, AES-GCM and the
  crypto backend are parameters.
\<close>

section \<open>Tables\<close>

text \<open>
  A column value as SQLAlchemy returns it; an enum is its member name, as the column stores it.
  \<^verbatim>\<open>SJson\<close> is a JSON value no column can hold.
\<close>

datatype sql_value = SNull | SInt int | SStr string | SBool bool | STime int | SEnum string | SJson json

datatype col_type = Int_Col | UInt64_Col | Str_Col | Bool_Col | Time_Col | Enum_Col "(string \<times> string) list"

record column =
  col_key :: string
  col_type :: col_type
  col_nullable :: bool
  col_server_default :: sql_value

record table =
  tb_name :: string
  tb_columns :: "column list"
  tb_unique :: "string list list"
  tb_refs :: "(string \<times> string) list"

type_synonym sql_row = "sql_value list"

type_synonym database = "string \<Rightarrow> sql_row list"

abbreviation tb_keys :: "table \<Rightarrow> string list" where "tb_keys t \<equiv> map col_key (tb_columns t)"

definition field :: "table \<Rightarrow> sql_row \<Rightarrow> string \<Rightarrow> sql_value" where
  "field t row k = (case map_of (zip (tb_keys t) row) k of None \<Rightarrow> SNull | Some v \<Rightarrow> v)"

definition PK :: string where "PK = ''id''"

fun int_value :: "sql_value \<Rightarrow> int" where
  "int_value (SInt i) = i"
| "int_value _ = 0"

definition row_id :: "table \<Rightarrow> sql_row \<Rightarrow> int" where
  "row_id t row = int_value (field t row PK)"

section \<open>The tables of \<^verbatim>\<open>models.py\<close>\<close>

definition req :: "string \<Rightarrow> col_type \<Rightarrow> column" where
  "req k ty = \<lparr>col_key = k, col_type = ty, col_nullable = False, col_server_default = SNull\<rparr>"

definition opt :: "string \<Rightarrow> col_type \<Rightarrow> column" where
  "opt k ty = \<lparr>col_key = k, col_type = ty, col_nullable = True, col_server_default = SNull\<rparr>"

definition same_value :: "string list \<Rightarrow> col_type" where "same_value ns = Enum_Col (zip ns ns)"

definition node_status_col :: col_type where "node_status_col = same_value [''pending'', ''ready'', ''error'']"
definition operator_role_col :: col_type where "operator_role_col = same_value [''admin'', ''operator'', ''auditor'']"

definition host_cert_columns :: "column list" where
  "host_cert_columns =
     [opt ''host_cert_pem'' Str_Col, opt ''host_cert_serial'' UInt64_Col, opt ''host_cert_principals'' Str_Col,
      opt ''host_cert_valid_after'' Time_Col, opt ''host_cert_valid_before'' Time_Col, opt ''host_cert_ca_public_key'' Str_Col]"

definition tenant_table :: table where
  "tenant_table = \<lparr>tb_name = ''tenant'',
     tb_columns = [req PK Int_Col, req ''name'' Str_Col, req ''slug'' Str_Col, req ''subnet_pool'' Str_Col, req ''created_at'' Time_Col],
     tb_unique = [[''name''], [''slug'']], tb_refs = []\<rparr>"

definition sshkey_table :: table where
  "sshkey_table = \<lparr>tb_name = ''sshkey'',
     tb_columns = [req PK Int_Col, opt ''tenant_id'' Int_Col, req ''name'' Str_Col, req ''mode'' (same_value [''legacy'', ''ca'']),
       req ''created_at'' Time_Col],
     tb_unique = [[''name'']], tb_refs = [(''tenant_id'', ''tenant'')]\<rparr>"

definition server_table :: table where
  "server_table = \<lparr>tb_name = ''server'',
     tb_columns = [req PK Int_Col, opt ''tenant_id'' Int_Col, req ''hostname'' Str_Col, req ''ssh_port'' Int_Col, req ''ssh_username'' Str_Col,
       req ''ssh_key_id'' Int_Col, req ''endpoint_host'' Str_Col, req ''endpoint_port'' Int_Col, req ''interface'' Str_Col,
       req ''subnet'' Str_Col, req ''address'' Str_Col, req ''public_key'' Str_Col, req ''status'' node_status_col, req ''created_at'' Time_Col] @
       host_cert_columns @
       [(req ''reconfig_requested_gen'' Int_Col)\<lparr>col_server_default := SInt 0\<rparr>, (req ''reconfig_applied_gen'' Int_Col)\<lparr>col_server_default := SInt 0\<rparr>],
     tb_unique = [], tb_refs = [(''tenant_id'', ''tenant''), (''ssh_key_id'', ''sshkey'')]\<rparr>"

definition client_table :: table where
  "client_table = \<lparr>tb_name = ''client'',
     tb_columns = [req PK Int_Col, opt ''tenant_id'' Int_Col, req ''name'' Str_Col, opt ''hostname'' Str_Col, req ''ssh_port'' Int_Col,
       opt ''ssh_username'' Str_Col, opt ''ssh_key_id'' Int_Col, req ''server_id'' Int_Col, req ''address'' Str_Col,
       req ''public_key'' Str_Col, req ''is_manual'' Bool_Col, req ''status'' node_status_col, req ''created_at'' Time_Col] @ host_cert_columns,
     tb_unique = [[''name'']], tb_refs = [(''tenant_id'', ''tenant''), (''ssh_key_id'', ''sshkey''), (''server_id'', ''server'')]\<rparr>"

definition operator_table :: table where
  "operator_table = \<lparr>tb_name = ''operator'',
     tb_columns = [req PK Int_Col, opt ''tenant_id'' Int_Col, req ''cn'' Str_Col, opt ''display_name'' Str_Col, req ''role'' operator_role_col,
       req ''status'' (same_value [''active'', ''disabled'']), req ''created_at'' Time_Col],
     tb_unique = [[''cn'']], tb_refs = [(''tenant_id'', ''tenant'')]\<rparr>"

definition operatortenant_table :: table where
  "operatortenant_table = \<lparr>tb_name = ''operatortenant'',
     tb_columns = [req PK Int_Col, req ''operator_id'' Int_Col, req ''tenant_id'' Int_Col, req ''role'' operator_role_col,
       req ''created_at'' Time_Col],
     tb_unique = [[''operator_id'', ''tenant_id'']], tb_refs = [(''operator_id'', ''operator''), (''tenant_id'', ''tenant'')]\<rparr>"

definition discoveredpeer_table :: table where
  "discoveredpeer_table = \<lparr>tb_name = ''discoveredpeer'',
     tb_columns = [req PK Int_Col, req ''server_id'' Int_Col, req ''public_key'' Str_Col, req ''allowed_ips'' Str_Col, opt ''endpoint'' Str_Col,
       opt ''last_handshake_at'' Time_Col, req ''rx_bytes'' Int_Col, req ''tx_bytes'' Int_Col, opt ''persistent_keepalive'' Int_Col,
       req ''is_managed'' Bool_Col, req ''first_seen_at'' Time_Col, req ''last_seen_at'' Time_Col],
     tb_unique = [[''server_id'', ''public_key'']], tb_refs = [(''server_id'', ''server'')]\<rparr>"

definition certificate_table :: table where
  "certificate_table = \<lparr>tb_name = ''certificate'',
     tb_columns = [req PK Int_Col, opt ''tenant_id'' Int_Col, req ''serial'' Str_Col,
       req ''cert_type'' (Enum_Col [(''api'', ''api''), (''cli'', ''cli''), (''dashboard'', ''dashboard''), (''mysql'', ''mysql''),
         (''mysql_client'', ''mysql-client'')]),
       opt ''operator_id'' Int_Col, req ''common_name'' Str_Col, req ''sans'' Str_Col, req ''not_before'' Time_Col, req ''not_after'' Time_Col,
       req ''revoked'' Bool_Col, opt ''revoked_at'' Time_Col, req ''created_at'' Time_Col, opt ''out_cert_path'' Str_Col,
       opt ''out_key_path'' Str_Col, opt ''out_chain_path'' Str_Col],
     tb_unique = [[''serial'']], tb_refs = [(''tenant_id'', ''tenant''), (''operator_id'', ''operator'')]\<rparr>"

definition auditevent_table :: table where
  "auditevent_table = \<lparr>tb_name = ''auditevent'',
     tb_columns = [req PK Int_Col, opt ''tenant_id'' Int_Col, req ''ts'' Time_Col, req ''event'' Str_Col, opt ''actor_cn'' Str_Col,
       opt ''actor_serial'' Str_Col, opt ''actor_role'' Str_Col, req ''resource_type'' Str_Col, opt ''resource_id'' Int_Col,
       req ''action'' Str_Col, opt ''before_hash'' Str_Col, opt ''after_hash'' Str_Col, opt ''payload'' Str_Col, opt ''request_id'' Str_Col],
     tb_unique = [], tb_refs = [(''tenant_id'', ''tenant'')]\<rparr>"

definition enrollmenttoken_table :: table where
  "enrollmenttoken_table = \<lparr>tb_name = ''enrollmenttoken'',
     tb_columns = [req PK Int_Col, opt ''tenant_id'' Int_Col, req ''server_id'' Int_Col, req ''ssh_key_id'' Int_Col, req ''ssh_username'' Str_Col,
       req ''name_prefix'' Str_Col, req ''token_hash'' Str_Col, req ''max_uses'' Int_Col, req ''use_count'' Int_Col, req ''expires_at'' Time_Col,
       opt ''created_by_cn'' Str_Col, req ''created_at'' Time_Col, opt ''revoked_at'' Time_Col, opt ''revoked_by_cn'' Str_Col,
       opt ''allowed_cidrs'' Str_Col],
     tb_unique = [[''token_hash'']],
     tb_refs = [(''tenant_id'', ''tenant''), (''server_id'', ''server''), (''ssh_key_id'', ''sshkey'')]\<rparr>"

text \<open>One of the orders \<^verbatim>\<open>sorted_tables\<close> may give.\<close>

definition backup_tables :: "table list" where
  "backup_tables = [tenant_table, operator_table, sshkey_table, auditevent_table, certificate_table, operatortenant_table,
     server_table, client_table, discoveredpeer_table, enrollmenttoken_table]"

section \<open>Rows as JSON\<close>

fun enum_value :: "col_type \<Rightarrow> string \<Rightarrow> string" where
  "enum_value (Enum_Col ms) n = (case map_of ms n of None \<Rightarrow> n | Some v \<Rightarrow> v)"
| "enum_value _ n = n"

fun serialize_value :: "col_type \<Rightarrow> sql_value \<Rightarrow> json" where
  "serialize_value ty SNull = JNull"
| "serialize_value ty (SInt i) = JInt i"
| "serialize_value ty (SStr s) = JStr s"
| "serialize_value ty (SBool b) = JBool b"
| "serialize_value ty (STime t) = JStr (isoformat t)"
| "serialize_value ty (SEnum n) = JStr (enum_value ty n)"
| "serialize_value ty (SJson j) = j"

definition serialize_row :: "table \<Rightarrow> sql_row \<Rightarrow> json" where
  "serialize_row t row = JObj (map (\<lambda>(c, v). (col_key c, serialize_value (col_type c) v)) (zip (tb_columns t) row))"

fun deserialize_value :: "col_type \<Rightarrow> json \<Rightarrow> sql_value result" where
  "deserialize_value Time_Col (JStr s) = rbind (fromisoformat s) (\<lambda>(t, aware). Inr (STime t))"
| "deserialize_value (Enum_Col ms) (JStr s) =
     (case find (\<lambda>(n, v). v = s) ms of
        None \<Rightarrow> Inl (ValueError (py_repr s @ '' is not a valid member''))
      | Some (n, v) \<Rightarrow> Inr (SEnum n))"
| "deserialize_value ty (JStr s) = Inr (SStr s)"
| "deserialize_value ty JNull = Inr SNull"
| "deserialize_value ty (JInt i) = Inr (SInt i)"
| "deserialize_value ty (JBool b) = Inr (SBool b)"
| "deserialize_value ty j = Inr (SJson j)"

text \<open>
  The row read from the file is a dict; \<^verbatim>\<open>in\<close> and \<^verbatim>\<open>[]\<close> on a list or a string behave as Python's do, and any
  other value raises.
\<close>

fun deserialize_cols :: "column list \<Rightarrow> (string \<times> json) list \<Rightarrow> (string \<times> sql_value) list result" where
  "deserialize_cols [] kvs = Inr []"
| "deserialize_cols (c # cs) kvs =
     (case map_of kvs (col_key c) of
        None \<Rightarrow> deserialize_cols cs kvs
      | Some j \<Rightarrow> rbind (deserialize_value (col_type c) j) (\<lambda>v.
          rbind (deserialize_cols cs kvs) (\<lambda>rest. Inr ((col_key c, v) # rest))))"

fun deserialize_row :: "table \<Rightarrow> json \<Rightarrow> (string \<times> sql_value) list result" where
  "deserialize_row t (JObj kvs) = deserialize_cols (tb_columns t) kvs"
| "deserialize_row t (JArr xs) =
     (if list_ex (\<lambda>k. JStr k \<in> set xs) (tb_keys t) then Inl (TypeError ''list indices must be integers or slices, not str'') else Inr [])"
| "deserialize_row t (JStr s) =
     (if list_ex (\<lambda>k. contains k s) (tb_keys t) then Inl (TypeError ''string indices must be integers'') else Inr [])"
| "deserialize_row t j = Inl (TypeError ''argument is not iterable'')"

section \<open>The statements\<close>

definition statement_error :: exn where "statement_error = OtherError ''StatementError''"

text \<open>A time is converted to UTC, where it has to be in the range of \<^verbatim>\<open>datetime\<close>.\<close>

fun bind_value :: "col_type \<Rightarrow> sql_value \<Rightarrow> sql_value result" where
  "bind_value ty SNull = Inr SNull"
| "bind_value Int_Col (SInt i) = Inr (SInt i)"
| "bind_value Int_Col (SBool b) = Inr (SInt (if b then 1 else 0))"
| "bind_value UInt64_Col (SInt i) =
     (if 0 \<le> i \<and> i < uint64_limit then Inr (SInt i) else Inl (ValueError (str_of_int i @ '' is outside the uint64 range'')))"
| "bind_value Str_Col (SStr s) = Inr (SStr s)"
| "bind_value Bool_Col (SBool b) = Inr (SBool b)"
| "bind_value Bool_Col (SInt i) = (if i = 0 \<or> i = 1 then Inr (SBool (i = 1)) else Inl statement_error)"
| "bind_value Time_Col (STime t) = (if representable t then Inr (STime t) else Inl (OtherError ''OverflowError''))"
| "bind_value (Enum_Col ms) (SEnum n) = (if n \<in> fst ` set ms then Inr (SEnum n) else Inl statement_error)"
| "bind_value _ _ = Inl statement_error"

text \<open>
  One execution of the INSERT compiled for the columns \<^verbatim>\<open>keys\<close>: a column that is not among them takes its
  server default, a missing value is an error, and a NULL primary key is generated.
\<close>

definition bind_row :: "table \<Rightarrow> string list \<Rightarrow> (string \<times> sql_value) list \<Rightarrow> sql_row result" where
  "bind_row t keys vals =
     rmap (\<lambda>c. if col_key c \<in> set keys
               then rbind (or_raise (map_of vals (col_key c)) statement_error) (bind_value (col_type c))
               else Inr (col_server_default c)) (tb_columns t)"

definition with_id :: "table \<Rightarrow> sql_row list \<Rightarrow> sql_row \<Rightarrow> sql_row" where
  "with_id t rows row =
     map (\<lambda>(c, v). if col_key c = PK \<and> v = SNull then SInt (Max (insert 0 (row_id t ` set rows)) + 1) else v) (zip (tb_columns t) row)"

definition clash :: "table \<Rightarrow> sql_row \<Rightarrow> sql_row \<Rightarrow> bool" where
  "clash t r1 r2 \<longleftrightarrow>
     list_ex (\<lambda>ks. SNull \<notin> set (map (field t r1) ks) \<and> map (field t r1) ks = map (field t r2) ks) ([PK] # tb_unique t)"

definition refs_ok :: "(string \<Rightarrow> int list) \<Rightarrow> table \<Rightarrow> sql_row \<Rightarrow> bool" where
  "refs_ok ids t row \<longleftrightarrow>
     list_all (\<lambda>(k, p). field t row k = SNull \<or> (\<exists>i \<in> set (ids p). field t row k = SInt i)) (tb_refs t)"

definition not_null_ok :: "table \<Rightarrow> sql_row \<Rightarrow> bool" where
  "not_null_ok t row \<longleftrightarrow> list_all (\<lambda>(c, v). v = SNull \<longrightarrow> col_nullable c) (zip (tb_columns t) row)"

definition table_ids :: "table list \<Rightarrow> database \<Rightarrow> string \<Rightarrow> int list" where
  "table_ids schema base n = (case find (\<lambda>t. tb_name t = n) schema of None \<Rightarrow> [] | Some t \<Rightarrow> map (row_id t) (base n))"

definition insert_one :: "table list \<Rightarrow> table \<Rightarrow> sql_row \<Rightarrow> database \<Rightarrow> database result" where
  "insert_one schema t row0 base =
     (let row = with_id t (base (tb_name t)) row0 in
      if not_null_ok t row \<and> \<not> list_ex (clash t row) (base (tb_name t)) \<and> refs_ok (table_ids schema base) t row
      then Inr (base(tb_name t := base (tb_name t) @ [row]))
      else Inl IntegrityError)"

fun insert_all :: "table list \<Rightarrow> table \<Rightarrow> sql_row list \<Rightarrow> database \<Rightarrow> database result" where
  "insert_all schema t [] base = Inr base"
| "insert_all schema t (r # rs) base = rbind (insert_one schema t r base) (insert_all schema t rs)"

definition insert_rows :: "table list \<Rightarrow> table \<Rightarrow> (string \<times> sql_value) list list \<Rightarrow> database \<Rightarrow> database result" where
  "insert_rows schema t rows base =
     (case rows of
        [] \<Rightarrow> Inr base
      | first # _ \<Rightarrow> rbind (rmap (bind_row t (map fst first)) rows) (\<lambda>rs. insert_all schema t rs base))"

text \<open>\<^verbatim>\<open>DELETE FROM t\<close> fails while a row of another table refers to one of its rows.\<close>

definition delete_rows :: "table list \<Rightarrow> table \<Rightarrow> database \<Rightarrow> database result" where
  "delete_rows schema t base =
     (if list_ex (\<lambda>u. tb_name u \<noteq> tb_name t \<and>
           list_ex (\<lambda>(k, p). p = tb_name t \<and>
             list_ex (\<lambda>row. \<exists>i \<in> set (table_ids schema base p). field u row k = SInt i) (base (tb_name u))) (tb_refs u)) schema
      then Inl IntegrityError
      else Inr (base(tb_name t := [])))"

section \<open>The envelope\<close>

record aead =
  a_encrypt :: "bytes \<Rightarrow> bytes \<Rightarrow> bytes \<Rightarrow> bytes"
  a_decrypt :: "bytes \<Rightarrow> bytes \<Rightarrow> bytes \<Rightarrow> bytes result"

text \<open>The crypto backend, AES-GCM, and what one backup draws: a data key, a nonce and the instant.\<close>

record envelope_env =
  en_encrypt :: "bytes \<Rightarrow> string \<Rightarrow> string result"
  en_decrypt :: "string \<Rightarrow> string \<Rightarrow> bytes result"
  en_aead :: aead
  en_dek :: bytes
  en_nonce :: bytes
  en_now :: int

definition BACKUP_VERSION :: int where "BACKUP_VERSION = 2"

definition envelope_context :: "envelope_env \<Rightarrow> string" where
  "envelope_context en =
     (let s = isoformat (en_now en) in
      ''backup:'' @ (if en_now en mod 1000000 = 0 then take 19 s @ ''.000000'' @ drop 19 s else s))"

definition envelope_encrypt :: "envelope_env \<Rightarrow> bytes \<Rightarrow> json result" where
  "envelope_encrypt en plaintext =
     (let ciphertext = a_encrypt (en_aead en) (en_dek en) (en_nonce en) plaintext; ctx = envelope_context en in
      rbind (en_encrypt en (en_dek en) ctx) (\<lambda>dek_ct.
        Inr (JObj [(''version'', JInt BACKUP_VERSION), (''encrypted'', JBool True), (''created_at'', JStr (isoformat (en_now en))),
          (''context'', JStr ctx), (''dek_ct'', JStr dek_ct), (''nonce_b64'', JStr (b64encode (en_nonce en))),
          (''ciphertext_b64'', JStr (b64encode ciphertext))])))"

definition envelope_fields :: "string list" where
  "envelope_fields = [''ciphertext_b64'', ''context'', ''dek_ct'', ''nonce_b64'']"

fun json_text :: "json \<Rightarrow> string result" where
  "json_text (JStr s) = Inr s"
| "json_text _ = Inl (TypeError ''expected a string'')"

definition envelope_decrypt :: "envelope_env \<Rightarrow> (string \<times> json) list \<Rightarrow> bytes result" where
  "envelope_decrypt en kvs =
     (let missing = filter (\<lambda>k. map_of kvs k = None) envelope_fields; get = (\<lambda>k. json_text (the (map_of kvs k))) in
      if missing \<noteq> []
      then Inl (ValueError (''envelope missing required fields: ['' @ join_with '', '' (map py_repr missing) @ '']''))
      else rbind (get ''dek_ct'') (\<lambda>dek_ct. rbind (get ''context'') (\<lambda>ctx.
           rbind (en_decrypt en dek_ct ctx) (\<lambda>dek.
           rbind (rbind (get ''nonce_b64'') b64decode) (\<lambda>nonce.
           rbind (rbind (get ''ciphertext_b64'') b64decode) (\<lambda>ciphertext.
             a_decrypt (en_aead en) dek nonce ciphertext))))))"

section \<open>The commands\<close>

definition backup_dump :: "table list \<Rightarrow> database \<Rightarrow> json" where
  "backup_dump schema base =
     JObj [(''version'', JInt BACKUP_VERSION),
       (''tables'', JObj (map (\<lambda>t. (tb_name t, JArr (map (serialize_row t) (sort_key (row_id t) (base (tb_name t)))))) schema))]"

definition db_backup :: "table list \<Rightarrow> envelope_env \<Rightarrow> bool \<Rightarrow> database \<Rightarrow> string result" where
  "db_backup schema en encrypt base =
     (let plaintext = json_pretty 0 (backup_dump schema base) in
      if encrypt then rbind (envelope_encrypt en plaintext) (\<lambda>envelope. Inr (json_pretty 0 envelope)) else Inr plaintext)"

definition cli_error :: "string \<Rightarrow> exn" where "cli_error m = CliExit 1 m"

fun truthy :: "json \<Rightarrow> bool" where
  "truthy JNull = False"
| "truthy (JBool b) = b"
| "truthy (JInt i) = (i \<noteq> 0)"
| "truthy (JFloat lit) = list_ex (\<lambda>c. c \<in> set ''123456789NI'') (takeWhile (\<lambda>c. c \<noteq> CHR ''e'' \<and> c \<noteq> CHR ''E'') lit)"
| "truthy (JStr s) = (s \<noteq> [])"
| "truthy (JTime t) = True"
| "truthy (JArr xs) = (xs \<noteq> [])"
| "truthy (JObj kvs) = (kvs \<noteq> [])"

fun as_dict :: "json \<Rightarrow> (string \<times> json) list result" where
  "as_dict (JObj kvs) = Inr kvs"
| "as_dict _ = Inl (OtherError ''AttributeError'')"

fun as_list :: "json \<Rightarrow> json list result" where
  "as_list (JArr xs) = Inr xs"
| "as_list _ = Inl (TypeError ''rows are not a list'')"

text \<open>
  Whether a float literal equals a small positive integer: the double next to it, so a literal within
  half a unit in the last place does, and ties round to the even integer.
\<close>

definition float_equals :: "string \<Rightarrow> int \<Rightarrow> bool" where
  "float_equals lit n =
     (let whole = takeWhile is_digit lit; (frac, rest) = lex_frac (drop (length whole) lit);
          ex = drop 1 (fst (lex_exponent rest)); places = drop 1 frac;
          expo = int (digits_to_nat (filter is_digit ex));
          shift = (if startswith ex ''-'' then - expo else expo) - int (length places);
          scaled = 2 ^ 54 * int (digits_to_nat (whole @ places)) * 10 ^ nat shift; unit = n * 10 ^ nat (- shift) in
      (2 ^ 54 - 1) * unit \<le> scaled \<and> scaled \<le> (2 ^ 54 + 2) * unit)"

text \<open>\<^verbatim>\<open>version in (1, 2)\<close>: \<^verbatim>\<open>True\<close> equals 1 and a float may equal either.\<close>

definition supported_version :: "json option \<Rightarrow> bool" where
  "supported_version v \<longleftrightarrow>
     (case v of
        Some (JInt i) \<Rightarrow> i = 1 \<or> i = 2
      | Some (JBool b) \<Rightarrow> b
      | Some (JFloat lit) \<Rightarrow> float_equals lit 1 \<or> float_equals lit 2
      | _ \<Rightarrow> False)"

text \<open>
  Reading the file up to its tables: the flags have to match the file. The texts of library exceptions
  and of an unsupported version are left out of the messages.
\<close>

definition restore_payload :: "envelope_env \<Rightarrow> bool \<Rightarrow> string \<Rightarrow> (string \<times> json) list result" where
  "restore_payload en decrypt raw_text =
     (case json_loads raw_text of
        Inl _ \<Rightarrow> Inl (cli_error ''backup file is not valid JSON'')
      | Inr j \<Rightarrow> rbind (as_dict j) (\<lambda>raw.
          let file_is_encrypted = (case map_of raw ''encrypted'' of None \<Rightarrow> False | Some v \<Rightarrow> truthy v) in
          if file_is_encrypted \<and> \<not> decrypt then Inl (cli_error ''backup file is encrypted; pass --decrypt to restore'')
          else if decrypt \<and> \<not> file_is_encrypted then Inl (cli_error ''backup file is plain JSON, not encrypted - drop --decrypt'')
          else if decrypt
          then (case envelope_decrypt en raw of
                  Inl _ \<Rightarrow> Inl (cli_error ''decrypt failed'')
                | Inr plaintext \<Rightarrow> rbind (json_loads plaintext) as_dict)
          else Inr raw))"

definition restore_tables :: "bool \<Rightarrow> table list \<Rightarrow> table list \<Rightarrow> (string \<times> json) list \<Rightarrow> database \<Rightarrow> database result" where
  "restore_tables drop_existing schema tables data base =
     rbind (case find (\<lambda>t. base (tb_name t) \<noteq> [] \<and> \<not> drop_existing) tables of
              None \<Rightarrow> Inr ()
            | Some t \<Rightarrow> Inl (cli_error (''table '' @ py_repr (tb_name t) @ '' has '' @ str_of_nat (length (base (tb_name t))) @
                '' existing row(s); pass --drop-existing to truncate before restore''))) (\<lambda>_.
     rbind (if drop_existing then foldl (\<lambda>d t. rbind d (delete_rows schema t)) (Inr base) (rev tables) else Inr base) (\<lambda>db1.
       foldl (\<lambda>d t. rbind d (\<lambda>base'.
         rbind (as_list (the (map_of data (tb_name t)))) (\<lambda>js.
         rbind (rmap (deserialize_row t) js) (\<lambda>rows. insert_rows schema t rows base')))) (Inr db1) tables))"

definition db_restore :: "table list \<Rightarrow> envelope_env \<Rightarrow> bool \<Rightarrow> bool \<Rightarrow> string \<Rightarrow> (database, unit) handler" where
  "db_restore schema en drop_existing decrypt raw_text =
     atomically (\<lambda>base.
       rbind (restore_payload en decrypt raw_text) (\<lambda>raw.
       if \<not> supported_version (map_of raw ''version'') then Inl (cli_error ''unsupported backup version'')
       else rbind (or_raise (map_of raw ''tables'') (OtherError ''KeyError'')) (\<lambda>td.
            rbind (as_dict td) (\<lambda>data.
            rbind (restore_tables drop_existing schema (filter (\<lambda>t. map_of data (tb_name t) \<noteq> None) schema) data base) (\<lambda>base'.
              Inr (base', ()))))))"

end
