(* ===== verification/Backup_Props.thy ===== *)
theory Backup_Props
  imports Backup
begin

text \<open>
  A backup restores the database it was made of: the text parses back, every row converts back to the
  values it had, the deletes and inserts run in an order the foreign keys allow, and the envelope
  opens again. A restore that fails changes nothing.
\<close>

section \<open>Well-formed databases\<close>

fun fk_ordered :: "string list \<Rightarrow> table list \<Rightarrow> bool" where
  "fk_ordered seen [] \<longleftrightarrow> True"
| "fk_ordered seen (t # ts) \<longleftrightarrow> list_all (\<lambda>(k, p). p \<in> set seen) (tb_refs t) \<and> fk_ordered (tb_name t # seen) ts"

definition enum_ok :: "col_type \<Rightarrow> bool" where
  "enum_ok ty = (case ty of Enum_Col ms \<Rightarrow> distinct (map fst ms) \<and> distinct (map snd ms) | _ \<Rightarrow> True)"

text \<open>
  What is relied on of the table objects: names and column keys are distinct, every table has its
  primary key, and \<^verbatim>\<open>sorted_tables\<close> lists parents before children.
\<close>

definition schema_ok :: "table list \<Rightarrow> bool" where
  "schema_ok schema \<longleftrightarrow> distinct (map tb_name schema) \<and> fk_ordered [] schema \<and>
     list_all (\<lambda>t. distinct (tb_keys t) \<and> PK \<in> set (tb_keys t) \<and> list_all (\<lambda>c. enum_ok (col_type c)) (tb_columns t)) schema"

fun typed :: "col_type \<Rightarrow> sql_value \<Rightarrow> bool" where
  "typed ty SNull \<longleftrightarrow> True"
| "typed Int_Col (SInt i) \<longleftrightarrow> True"
| "typed UInt64_Col (SInt i) \<longleftrightarrow> 0 \<le> i \<and> i < uint64_limit"
| "typed Str_Col (SStr s) \<longleftrightarrow> True"
| "typed Bool_Col (SBool b) \<longleftrightarrow> True"
| "typed Time_Col (STime t) \<longleftrightarrow> representable t"
| "typed (Enum_Col ms) (SEnum n) \<longleftrightarrow> n \<in> fst ` set ms"
| "typed _ _ \<longleftrightarrow> False"

definition row_ok :: "table \<Rightarrow> sql_row \<Rightarrow> bool" where
  "row_ok t row \<longleftrightarrow> length row = length (tb_columns t) \<and> not_null_ok t row \<and> field t row PK \<noteq> SNull \<and>
     list_all (\<lambda>(c, v). typed (col_type c) v) (zip (tb_columns t) row)"

text \<open>Every table satisfies the constraints the schema declares.\<close>

definition database_ok :: "table list \<Rightarrow> database \<Rightarrow> bool" where
  "database_ok schema base \<longleftrightarrow>
     list_all (\<lambda>t. list_all (row_ok t) (base (tb_name t)) \<and> sorted_wrt (\<lambda>r1 r2. \<not> clash t r1 r2) (base (tb_name t)) \<and>
       list_all (refs_ok (table_ids schema base) t) (base (tb_name t))) schema"

section \<open>One row there and back\<close>

lemma typed_roundtrip:
  assumes "typed ty v" and "enum_ok ty"
  shows "deserialize_value ty (serialize_value ty v) = Inr v" and "bind_value ty v = Inr v"
    and "json_plain (serialize_value ty v)" and "json_norm (serialize_value ty v) = serialize_value ty v"
proof -
  have e: "find (\<lambda>(n, x). x = y) ms = Some (n, y)" if "distinct (map snd ms)" "(n, y) \<in> set ms" for n y and ms :: "(string \<times> string) list"
    using that by (induction ms) (auto simp: rev_image_eqI)
  show "deserialize_value ty (serialize_value ty v) = Inr v"
  proof (cases v)
    case (SEnum n)
    with assms obtain ms y where ms: "ty = Enum_Col ms" "(n, y) \<in> set ms" "distinct (map fst ms)" "distinct (map snd ms)"
      by (cases ty) (auto simp: enum_ok_def)
    then have "map_of ms n = Some y" by simp
    then show ?thesis using e [OF ms(4,2)] ms(1) SEnum by simp
  next
    case (STime t)
    then show ?thesis using assms(1) by (cases ty) (simp_all add: fromisoformat_isoformat)
  qed (use assms(1) in \<open>cases ty; simp\<close>)+
  show "bind_value ty v = Inr v" using assms(1) by (cases ty; cases v) auto
  show "json_plain (serialize_value ty v)" using assms(1) by (cases ty; cases v) auto
  show "json_norm (serialize_value ty v) = serialize_value ty v" using assms(1) by (cases ty; cases v) auto
qed

lemma map_of_sorted: "distinct (map fst kvs) \<Longrightarrow> map_of (sort_key fst kvs) = map_of kvs"
  by (rule map_of_inject_set [THEN iffD2]) (simp_all add: distinct_map)

lemma map_of_norm:
  assumes "distinct (map fst kvs)"
  shows "map_of (sort_key fst (map (\<lambda>(k, v). (k, json_norm v)) kvs)) k = map_option json_norm (map_of kvs k)"
proof -
  have "map_of (sort_key fst (map (\<lambda>(k, v). (k, json_norm v)) kvs)) = map_of (map (\<lambda>(k, v). (k, json_norm v)) kvs)"
    using assms by (intro map_of_sorted) (simp add: comp_def case_prod_unfold)
  then show ?thesis by (simp add: map_of_map)
qed

lemma deserialize_cols_read:
  assumes "length row = length cs" and "distinct (map col_key cs)"
    and "\<forall>(c, v) \<in> set (zip cs row). map_of kvs (col_key c) = Some (serialize_value (col_type c) v) \<and> typed (col_type c) v \<and> enum_ok (col_type c)"
  shows "deserialize_cols cs kvs = Inr (zip (map col_key cs) row)"
  using assms
proof (induction cs arbitrary: row)
  case (Cons c cs)
  then obtain v vs where "row = v # vs" by (cases row) auto
  with Cons show ?case by (auto simp: typed_roundtrip(1))
qed simp

lemma serialize_row_keys: "length row = length (tb_columns t) \<Longrightarrow>
   map fst (map (\<lambda>(c, v). (col_key c, serialize_value (col_type c) v)) (zip (tb_columns t) row)) = tb_keys t"
  by (rule nth_equalityI) simp_all

lemma row_read_back:
  assumes "row_ok t row" and "distinct (tb_keys t)" and "list_all (\<lambda>c. enum_ok (col_type c)) (tb_columns t)"
  shows "json_plain (serialize_row t row)" and "deserialize_row t (json_norm (serialize_row t row)) = Inr (zip (tb_keys t) row)"
proof -
  let ?kvs = "map (\<lambda>(c, v). (col_key c, serialize_value (col_type c) v)) (zip (tb_columns t) row)"
  have len: "length row = length (tb_columns t)" and ty: "\<forall>(c, v) \<in> set (zip (tb_columns t) row). typed (col_type c) v"
    using assms(1) by (simp_all add: row_ok_def list_all_iff)
  have en: "\<forall>(c, v) \<in> set (zip (tb_columns t) row). enum_ok (col_type c)"
    using assms(3) by (auto simp: list_all_iff dest: set_zip_leftD)
  have dist: "distinct (map fst ?kvs)" unfolding serialize_row_keys [OF len] using assms(2) .
  show "json_plain (serialize_row t row)"
  proof -
    have "json_plain (serialize_value (col_type c) v)" if "(c, v) \<in> set (zip (tb_columns t) row)" for c v
      using that ty en by (intro typed_roundtrip(3)) auto
    then show ?thesis using dist by (auto simp: serialize_row_def list_all_iff)
  qed
  have look: "map_of ?kvs (col_key c) = Some (serialize_value (col_type c) v)" if "(c, v) \<in> set (zip (tb_columns t) row)" for c v
    using that dist by (intro map_of_is_SomeI) force+
  show "deserialize_row t (json_norm (serialize_row t row)) = Inr (zip (tb_keys t) row)"
    unfolding serialize_row_def json_norm.simps deserialize_row.simps
  proof (rule deserialize_cols_read [OF len assms(2)])
    show "\<forall>(c, v) \<in> set (zip (tb_columns t) row).
        map_of (sort_key fst (map (\<lambda>(k, v). (k, json_norm v)) ?kvs)) (col_key c) = Some (serialize_value (col_type c) v) \<and>
        typed (col_type c) v \<and> enum_ok (col_type c)"
    proof -
      have "json_norm (serialize_value (col_type c) v) = serialize_value (col_type c) v" if "(c, v) \<in> set (zip (tb_columns t) row)" for c v
        using that ty en by (intro typed_roundtrip(4)) auto
      then show ?thesis using look ty en unfolding map_of_norm [OF dist] by auto
    qed
  qed
qed

section \<open>A table there and back\<close>

lemma bind_row_same:
  assumes "row_ok t row" and "distinct (tb_keys t)" and "list_all (\<lambda>c. enum_ok (col_type c)) (tb_columns t)"
  shows "bind_row t (tb_keys t) (zip (tb_keys t) row) = Inr row"
proof -
  have len: "length row = length (tb_columns t)" using assms(1) by (simp add: row_ok_def)
  let ?f = "\<lambda>c. if col_key c \<in> set (tb_keys t)
      then rbind (or_raise (map_of (zip (tb_keys t) row) (col_key c)) statement_error) (bind_value (col_type c)) else Inr (col_server_default c)"
  have "rmap ?f (tb_columns t) = Inr (map (\<lambda>c. field t row (col_key c)) (tb_columns t))"
  proof (rule rmap_Inr_map)
    fix c assume "c \<in> set (tb_columns t)"
    then obtain i where i: "i < length (tb_columns t)" "tb_columns t ! i = c" by (auto simp: in_set_conv_nth)
    then have z: "(c, row ! i) \<in> set (zip (tb_columns t) row)" using len by (auto simp: in_set_zip)
    have m: "map_of (zip (tb_keys t) row) (col_key c) = Some (row ! i)"
      using i len map_of_zip_nth [of "tb_keys t" row i] assms(2) by simp
    have "typed (col_type c) (row ! i)" using z assms(1) by (auto simp: row_ok_def list_all_iff)
    moreover have "enum_ok (col_type c)" using assms(3) \<open>c \<in> set (tb_columns t)\<close> by (simp add: list_all_iff)
    ultimately show "?f c = Inr (field t row (col_key c))"
      using \<open>c \<in> set (tb_columns t)\<close> m by (simp add: field_def typed_roundtrip(2))
  qed
  moreover have "map (\<lambda>c. field t row (col_key c)) (tb_columns t) = row"
  proof (rule nth_equalityI)
    fix i assume "i < length (map (\<lambda>c. field t row (col_key c)) (tb_columns t))"
    then show "map (\<lambda>c. field t row (col_key c)) (tb_columns t) ! i = row ! i"
      using len map_of_zip_nth [of "tb_keys t" row i] assms(2) by (simp add: field_def)
  qed (simp add: len)
  ultimately show ?thesis by (simp add: bind_row_def)
qed

lemma clash_sym: "clash t r1 r2 \<longleftrightarrow> clash t r2 r1"
  unfolding clash_def list_ex_iff by metis

lemma sorted_wrt_insort:
  assumes "\<And>x y. R x y \<longleftrightarrow> R y x"
  shows "sorted_wrt R (insort_key f x xs) \<longleftrightarrow> (\<forall>y \<in> set xs. R x y) \<and> sorted_wrt R xs"
  using assms by (induction xs) (auto simp: set_insort_key)

lemma sorted_wrt_sort_key:
  assumes "\<And>x y. R x y \<longleftrightarrow> R y x"
  shows "sorted_wrt R (sort_key f xs) \<longleftrightarrow> sorted_wrt R xs"
  by (induction xs) (auto simp: sorted_wrt_insort [OF assms])

lemma with_id_same:
  assumes "row_ok t row" and "distinct (tb_keys t)"
  shows "with_id t rows row = row"
proof -
  have len: "length row = length (tb_columns t)" using assms(1) by (simp add: row_ok_def)
  have "\<not> (col_key c = PK \<and> v = SNull)" if "(c, v) \<in> set (zip (tb_columns t) row)" for c v
  proof -
    have "(col_key c, v) \<in> set (zip (tb_keys t) row)" using that by (force simp: zip_map1)
    then have "map_of (zip (tb_keys t) row) (col_key c) = Some v" using assms(2) len by simp
    then show ?thesis using assms(1) by (auto simp: row_ok_def field_def)
  qed
  then have "with_id t rows row = map snd (zip (tb_columns t) row)" unfolding with_id_def by (intro map_cong) auto
  then show ?thesis using len by simp
qed

lemma table_ids_other: "p \<noteq> tb_name t \<Longrightarrow> table_ids schema (base(tb_name t := rows)) p = table_ids schema base p"
  by (simp add: table_ids_def split: option.splits)

lemma refs_ok_cong: "(\<And>k p. (k, p) \<in> set (tb_refs t) \<Longrightarrow> set (ids p) = set (ids' p)) \<Longrightarrow> refs_ok ids t row = refs_ok ids' t row"
  unfolding refs_ok_def list_all_iff by fastforce

lemma insert_all_ok:
  assumes "distinct (tb_keys t)" and "\<forall>(k, p) \<in> set (tb_refs t). p \<noteq> tb_name t"
    and "\<forall>r \<in> set rs. row_ok t r \<and> refs_ok (table_ids schema base) t r"
    and "sorted_wrt (\<lambda>r1 r2. \<not> clash t r1 r2) (base (tb_name t) @ rs)"
  shows "insert_all schema t rs base = Inr (base(tb_name t := base (tb_name t) @ rs))"
  using assms(3,4)
proof (induction rs arbitrary: base)
  case (Cons r rs)
  let ?base = "base(tb_name t := base (tb_name t) @ [r])"
  have "\<not> list_ex (clash t r) (base (tb_name t))"
    using Cons.prems(2) clash_sym by (auto simp: sorted_wrt_append list_ex_iff)
  then have one: "insert_one schema t r base = Inr ?base"
    using Cons.prems(1) assms(1) by (simp add: insert_one_def with_id_same row_ok_def [of t r])
  have same: "refs_ok (table_ids schema ?base) t x = refs_ok (table_ids schema base) t x" for x
    by (rule refs_ok_cong) (use assms(2) table_ids_other in fastforce)
  have "\<forall>x \<in> set rs. row_ok t x \<and> refs_ok (table_ids schema ?base) t x" unfolding same using Cons.prems(1) by simp
  then have "insert_all schema t rs ?base = Inr (?base(tb_name t := ?base (tb_name t) @ rs))"
    by (rule Cons.IH) (use Cons.prems(2) in simp)
  moreover have "?base(tb_name t := ?base (tb_name t) @ rs) = base(tb_name t := base (tb_name t) @ r # rs)" by simp
  ultimately show ?case unfolding insert_all.simps one rbind_simps by (simp only:)
qed simp

lemma rmap_map: "rmap f (map g xs) = rmap (\<lambda>x. f (g x)) xs"
  by (induction xs) simp_all

lemma insert_rows_read_back:
  assumes "distinct (tb_keys t)" and "list_all (\<lambda>c. enum_ok (col_type c)) (tb_columns t)"
    and "\<forall>(k, p) \<in> set (tb_refs t). p \<noteq> tb_name t"
    and "\<forall>r \<in> set rs. row_ok t r \<and> refs_ok (table_ids schema base) t r"
    and "sorted_wrt (\<lambda>r1 r2. \<not> clash t r1 r2) rs" and "base (tb_name t) = []"
  shows "rbind (rmap (deserialize_row t) (map json_norm (map (serialize_row t) rs))) (\<lambda>rows. insert_rows schema t rows base) =
     Inr (base(tb_name t := rs))"
proof -
  have "rmap (\<lambda>x. deserialize_row t (json_norm (serialize_row t x))) rs = Inr (map (zip (tb_keys t)) rs)"
    using assms(1,2,4) by (intro rmap_Inr_map row_read_back(2)) auto
  then have d: "rmap (deserialize_row t) (map json_norm (map (serialize_row t) rs)) = Inr (map (zip (tb_keys t)) rs)"
    by (simp add: rmap_map)
  have b: "rmap (bind_row t (tb_keys t)) (map (zip (tb_keys t)) rs) = Inr rs"
    unfolding rmap_map using assms(1,2,4) by (simp add: bind_row_same rmap_Inr_map [of rs _ id, simplified])
  have k: "map fst (zip (tb_keys t) r) = tb_keys t" if "r \<in> set rs" for r
    using assms(4) that by (simp add: row_ok_def)
  show ?thesis
  proof (cases rs)
    case Nil
    then show ?thesis using d assms(6) by (simp add: insert_rows_def fun_upd_idem)
  next
    case (Cons r rest)
    have "insert_rows schema t (map (zip (tb_keys t)) rs) base = insert_all schema t rs base"
      using b k [of r] Cons by (simp add: insert_rows_def)
    also have "\<dots> = Inr (base(tb_name t := rs))"
      using insert_all_ok [OF assms(1,3,4)] assms(5,6) by simp
    finally show ?thesis using d by simp
  qed
qed

section \<open>The whole database there and back\<close>

lemma fk_ordered_refs: "fk_ordered seen (us @ t # vs) \<Longrightarrow> (k, p) \<in> set (tb_refs t) \<Longrightarrow> p \<in> set seen \<union> tb_name ` set us"
proof (induction us arbitrary: seen)
  case (Cons u us)
  then show ?case using Cons.IH [of "tb_name u # seen"] by auto
qed (auto simp: list_all_iff)

lemma delete_all_ok:
  assumes "schema_ok schema" and "schema = us @ vs" and "\<forall>v \<in> set vs. base (tb_name v) = []"
  shows "foldl (\<lambda>d t. rbind d (delete_rows schema t)) (Inr base) (rev us) = Inr (\<lambda>n. if n \<in> tb_name ` set us then [] else base n)"
  using assms(2,3)
proof (induction us arbitrary: vs base rule: rev_induct)
  case (snoc t us)
  let ?base = "base(tb_name t := [])"
  have dist: "distinct (map tb_name schema)" and fk: "fk_ordered [] schema" using assms(1) by (simp_all add: schema_ok_def)
  have "base (tb_name u) = []" if "u \<in> set schema" "tb_name u \<noteq> tb_name t" "(k, tb_name t) \<in> set (tb_refs u)" for u k
  proof -
    have "u \<notin> set us"
    proof
      assume "u \<in> set us"
      then obtain as bs where "us = as @ u # bs" by (meson split_list)
      then have "tb_name t \<in> tb_name ` set as" using fk_ordered_refs [of "[]" as u "bs @ [t] @ vs"] fk snoc.prems(1) that(3) by simp
      then show False using dist snoc.prems(1) \<open>us = as @ u # bs\<close> by auto
    qed
    then show ?thesis using that snoc.prems by auto
  qed
  then have del: "delete_rows schema t base = Inr ?base" by (auto simp: delete_rows_def list_ex_iff)
  have "\<forall>v \<in> set (t # vs). ?base (tb_name v) = []" using snoc.prems(2) by simp
  then have "foldl (\<lambda>d t. rbind d (delete_rows schema t)) (Inr ?base) (rev us) = Inr (\<lambda>n. if n \<in> tb_name ` set us then [] else ?base n)"
    by (rule snoc.IH [rotated]) (simp add: snoc.prems(1))
  moreover have "(\<lambda>n. if n \<in> tb_name ` set us then [] else ?base n) = (\<lambda>n. if n \<in> tb_name ` set (us @ [t]) then [] else base n)"
    by auto
  ultimately show ?case using del by simp
qed simp

lemma insert_tables_ok:
  assumes "database_ok schema base" and "schema_ok schema" and "set ts \<subseteq> set schema"
    and "fk_ordered seen ts" and "set seen \<inter> tb_name ` set ts = {}" and "distinct (map tb_name ts)"
    and "\<forall>n \<in> set seen. set (table_ids schema cur n) = set (table_ids schema base n)"
    and "\<forall>t \<in> set ts. cur (tb_name t) = []"
    and "\<forall>t \<in> set ts. map_of data (tb_name t) = Some (json_norm (JArr (map (serialize_row t) (sort_key (row_id t) (base (tb_name t))))))"
  shows "\<exists>fin. foldl (\<lambda>d t. rbind d (\<lambda>db'.
       rbind (as_list (the (map_of data (tb_name t)))) (\<lambda>js.
       rbind (rmap (deserialize_row t) js) (\<lambda>rows. insert_rows schema t rows db')))) (Inr cur) ts = Inr fin \<and>
     (\<forall>t \<in> set ts. fin (tb_name t) = sort_key (row_id t) (base (tb_name t))) \<and> (\<forall>n. n \<notin> tb_name ` set ts \<longrightarrow> fin n = cur n)"
  using assms(3-)
proof (induction ts arbitrary: seen cur)
  case (Cons t ts)
  let ?rs = "sort_key (row_id t) (base (tb_name t))"
  let ?cur = "cur(tb_name t := ?rs)"
  have t: "t \<in> set schema" using Cons.prems(1) by simp
  have ok: "distinct (tb_keys t)" "list_all (\<lambda>c. enum_ok (col_type c)) (tb_columns t)"
    using assms(2) t by (simp_all add: schema_ok_def list_all_iff)
  have refs: "p \<in> set seen" if "(k, p) \<in> set (tb_refs t)" for k p using Cons.prems(2) that by (auto simp: list_all_iff)
  have rows: "\<forall>r \<in> set ?rs. row_ok t r \<and> refs_ok (table_ids schema base) t r"
    and wrt: "sorted_wrt (\<lambda>r1 r2. \<not> clash t r1 r2) (base (tb_name t))"
    using assms(1) t by (simp_all add: database_ok_def list_all_iff)
  have rows': "\<forall>r \<in> set ?rs. row_ok t r \<and> refs_ok (table_ids schema cur) t r"
    using rows refs_ok_cong [of t "table_ids schema cur" "table_ids schema base"] refs Cons.prems(5) by blast
  have self: "\<forall>(k, p) \<in> set (tb_refs t). p \<noteq> tb_name t" using refs Cons.prems(3) by fastforce
  have wrt': "sorted_wrt (\<lambda>r1 r2. \<not> clash t r1 r2) ?rs"
    using wrt sorted_wrt_sort_key [of "\<lambda>r1 r2. \<not> clash t r1 r2"] clash_sym by blast
  have step: "rbind (rmap (deserialize_row t) (map json_norm (map (serialize_row t) ?rs))) (\<lambda>rows. insert_rows schema t rows cur) = Inr ?cur"
    using insert_rows_read_back [OF ok self rows' wrt'] Cons.prems(6) by simp
  have ids: "set (table_ids schema ?cur n) = set (table_ids schema base n)" if "n \<in> set (tb_name t # seen)" for n
  proof (cases "n = tb_name t")
    case True
    then show ?thesis by (simp add: table_ids_def split: option.splits)
  next
    case False
    then show ?thesis using that Cons.prems(5) table_ids_other [of n t schema cur] by simp
  qed
  have ne: "tb_name u \<noteq> tb_name t" if "u \<in> set ts" for u using Cons.prems(4) imageI [OF that, of tb_name] by auto
  have emp: "\<forall>u \<in> set ts. ?cur (tb_name u) = []" using Cons.prems(6) ne by simp
  have "\<exists>fin. foldl (\<lambda>d t. rbind d (\<lambda>db'.
       rbind (as_list (the (map_of data (tb_name t)))) (\<lambda>js.
       rbind (rmap (deserialize_row t) js) (\<lambda>rows. insert_rows schema t rows db')))) (Inr ?cur) ts = Inr fin \<and>
     (\<forall>t \<in> set ts. fin (tb_name t) = sort_key (row_id t) (base (tb_name t))) \<and> (\<forall>n. n \<notin> tb_name ` set ts \<longrightarrow> fin n = ?cur n)"
  proof (rule Cons.IH)
    show "\<forall>n \<in> set (tb_name t # seen). set (table_ids schema ?cur n) = set (table_ids schema base n)" using ids by blast
    show "\<forall>u \<in> set ts. ?cur (tb_name u) = []" by (rule emp)
  qed (use Cons.prems in auto)
  then obtain fin where fin: "foldl (\<lambda>d t. rbind d (\<lambda>db'.
       rbind (as_list (the (map_of data (tb_name t)))) (\<lambda>js.
       rbind (rmap (deserialize_row t) js) (\<lambda>rows. insert_rows schema t rows db')))) (Inr ?cur) ts = Inr fin"
    "\<forall>t \<in> set ts. fin (tb_name t) = sort_key (row_id t) (base (tb_name t))" "\<forall>n. n \<notin> tb_name ` set ts \<longrightarrow> fin n = ?cur n"
    by blast
  have first: "rbind (as_list (the (map_of data (tb_name t)))) (\<lambda>js. rbind (rmap (deserialize_row t) js) (\<lambda>rows. insert_rows schema t rows cur)) = Inr ?cur"
    using step Cons.prems(7) by simp
  have "fin (tb_name t) = ?rs" using fin(3) Cons.prems(4) by simp
  then have "\<forall>u \<in> set (t # ts). fin (tb_name u) = sort_key (row_id u) (base (tb_name u))" using fin(2) by simp
  moreover have "\<forall>n. n \<notin> tb_name ` set (t # ts) \<longrightarrow> fin n = cur n" using fin(3) by simp
  ultimately show ?case using fin(1) first unfolding foldl_Cons rbind_simps by (intro exI [of _ fin] conjI) (simp_all only:)
qed auto

lemma backup_dump_plain:
  assumes "schema_ok schema" and "database_ok schema base"
  shows "json_plain (backup_dump schema base)"
proof -
  have "json_plain (serialize_row t r)" if "t \<in> set schema" "r \<in> set (base (tb_name t))" for t r
    using that assms by (intro row_read_back(1)) (auto simp: schema_ok_def database_ok_def list_all_iff)
  then show ?thesis using assms(1) by (auto simp: backup_dump_def list_all_iff schema_ok_def comp_def)
qed

lemma backup_dump_lookup:
  assumes "schema_ok schema"
  obtains raw data where "json_norm (backup_dump schema base) = JObj raw" "map_of raw ''version'' = Some (JInt 2)"
    "map_of raw ''encrypted'' = None" "map_of raw ''tables'' = Some (JObj data)"
    "\<forall>t \<in> set schema. map_of data (tb_name t) = Some (json_norm (JArr (map (serialize_row t) (sort_key (row_id t) (base (tb_name t))))))"
proof -
  let ?tabs = "map (\<lambda>t. (tb_name t, JArr (map (serialize_row t) (sort_key (row_id t) (base (tb_name t)))))) schema"
  let ?top = "[(''version'', JInt BACKUP_VERSION), (''tables'', JObj ?tabs)]"
  let ?raw = "sort_key fst (map (\<lambda>(k, v). (k, json_norm v)) ?top)" and ?data = "sort_key fst (map (\<lambda>(k, v). (k, json_norm v)) ?tabs)"
  have top: "map_of ?raw k = map_option json_norm (map_of ?top k)" for k by (rule map_of_norm) simp
  have "distinct (map fst ?tabs)" using assms by (simp add: schema_ok_def comp_def)
  note tabs = map_of_norm [OF this]
  have look: "map_of ?tabs (tb_name t) = Some (JArr (map (serialize_row t) (sort_key (row_id t) (base (tb_name t)))))" if "t \<in> set schema" for t
    using that assms by (intro map_of_is_SomeI) (auto simp: schema_ok_def comp_def)
  have tabs: "\<forall>t \<in> set schema. map_of ?data (tb_name t) = Some (json_norm (JArr (map (serialize_row t) (sort_key (row_id t) (base (tb_name t))))))"
    unfolding tabs using look by simp
  show thesis
  proof (rule that [OF _ _ _ _ tabs])
    show "json_norm (backup_dump schema base) = JObj ?raw" by (simp only: backup_dump_def json_norm.simps)
    show "map_of ?raw ''version'' = Some (JInt 2)" "map_of ?raw ''encrypted'' = None" unfolding top by (simp_all add: BACKUP_VERSION_def)
    show "map_of ?raw ''tables'' = Some (JObj ?data)" unfolding top by (simp only: map_of.simps fun_upd_apply prod.sel option.map json_norm.simps if_True) simp
  qed
qed

text \<open>AES-GCM: decryption under the key and nonce of the encryption gives the plaintext back.\<close>

definition aead_laws :: "aead \<Rightarrow> bool" where
  "aead_laws a \<longleftrightarrow> (\<forall>k n p. a_decrypt a k n (a_encrypt a k n p) = Inr p)"

lemma envelope_read_back:
  assumes "aead_laws (en_aead en)" and "crypto_laws (en_encrypt en) (en_decrypt en)" and "envelope_encrypt en plaintext = Inr envelope"
  shows "\<exists>kvs. json_loads (json_pretty 0 envelope) = Inr (JObj kvs) \<and> map_of kvs ''encrypted'' = Some (JBool True) \<and>
     envelope_decrypt en kvs = Inr plaintext"
proof -
  from assms(3) obtain dek_ct where ct: "en_encrypt en (en_dek en) (envelope_context en) = Inr dek_ct"
    and env: "envelope = JObj [(''version'', JInt BACKUP_VERSION), (''encrypted'', JBool True), (''created_at'', JStr (isoformat (en_now en))),
          (''context'', JStr (envelope_context en)), (''dek_ct'', JStr dek_ct), (''nonce_b64'', JStr (b64encode (en_nonce en))),
          (''ciphertext_b64'', JStr (b64encode (a_encrypt (en_aead en) (en_dek en) (en_nonce en) plaintext)))]"
      (is "_ = JObj ?kvs")
    by (auto simp: envelope_encrypt_def Let_def result_simps)
  let ?sorted = "sort_key fst (map (\<lambda>(k, v). (k, json_norm v)) ?kvs)"
  have look: "map_of ?sorted k = map_option json_norm (map_of ?kvs k)" for k by (rule map_of_norm) simp
  have "json_loads (json_pretty 0 envelope) = Inr (JObj ?sorted)"
    using json_loads_pretty [of envelope] unfolding env by simp
  moreover have "map_of ?sorted ''encrypted'' = Some (JBool True)" unfolding look by simp
  moreover have "en_decrypt en dek_ct (envelope_context en) = Inr (en_dek en)"
    using assms(2) ct unfolding crypto_laws_def by blast
  then have "envelope_decrypt en ?sorted = Inr plaintext"
    using assms(1) unfolding envelope_decrypt_def look by (simp add: envelope_fields_def Let_def b64_roundtrip aead_laws_def)
  ultimately show ?thesis by blast
qed

text \<open>
  C26: restoring a backup, plain or encrypted, into any database (with \<^verbatim>\<open>--drop-existing\<close>, or into empty
  tables) succeeds and leaves every table with exactly the rows that were backed up, in the order of
  their primary keys; nothing outside the schema changes.
\<close>

theorem backup_restores_database:
  assumes "schema_ok schema" and "database_ok schema base"
    and "aead_laws (en_aead en)" and "crypto_laws (en_encrypt en) (en_decrypt en)"
    and "db_backup schema en encrypt base = Inr text"
    and "drop_existing \<or> (\<forall>t \<in> set schema. target (tb_name t) = [])"
  shows "\<exists>fin. db_restore schema en drop_existing encrypt text target = (fin, Inr ()) \<and>
     (\<forall>t \<in> set schema. fin (tb_name t) = sort_key (row_id t) (base (tb_name t))) \<and>
     (\<forall>n. n \<notin> tb_name ` set schema \<longrightarrow> fin n = target n)"
proof -
  let ?dump = "backup_dump schema base"
  obtain raw data where raw: "json_norm ?dump = JObj raw" "map_of raw ''version'' = Some (JInt 2)" "map_of raw ''encrypted'' = None"
      "map_of raw ''tables'' = Some (JObj data)"
    and data: "\<forall>t \<in> set schema. map_of data (tb_name t) = Some (json_norm (JArr (map (serialize_row t) (sort_key (row_id t) (base (tb_name t))))))"
    by (rule backup_dump_lookup [OF assms(1)])
  have loads: "json_loads (json_pretty 0 ?dump) = Inr (JObj raw)"
    using json_loads_pretty [OF backup_dump_plain [OF assms(1,2)]] raw(1) by simp
  have payload: "restore_payload en encrypt text = Inr raw"
  proof (cases encrypt)
    case False
    then have "text = json_pretty 0 ?dump" using assms(5) by (simp add: db_backup_def Let_def)
    then show ?thesis using loads raw(3) False by (simp add: restore_payload_def Let_def)
  next
    case True
    then obtain envelope where e: "envelope_encrypt en (json_pretty 0 ?dump) = Inr envelope" "text = json_pretty 0 envelope"
      using assms(5) by (auto simp: db_backup_def Let_def result_simps)
    from envelope_read_back [OF assms(3,4) e(1)] show ?thesis
      using loads True e(2) by (auto simp: restore_payload_def Let_def)
  qed
  have all: "filter (\<lambda>t. map_of data (tb_name t) \<noteq> None) schema = schema" using data by (simp add: filter_id_conv)
  define cleared where "cleared = (if drop_existing then (\<lambda>n. if n \<in> tb_name ` set schema then [] else target n) else target)"
  have guard: "find (\<lambda>t. target (tb_name t) \<noteq> [] \<and> \<not> drop_existing) schema = None"
    using assms(6) by (auto simp: find_None_iff)
  have clear: "(if drop_existing then foldl (\<lambda>d t. rbind d (delete_rows schema t)) (Inr target) (rev schema) else Inr target) = Inr cleared"
    using delete_all_ok [OF assms(1), of schema "[]" target] by (simp add: cleared_def)
  have empty: "\<forall>t \<in> set schema. cleared (tb_name t) = []" using assms(6) by (auto simp: cleared_def)
  obtain fin where fin: "foldl (\<lambda>d t. rbind d (\<lambda>db'.
       rbind (as_list (the (map_of data (tb_name t)))) (\<lambda>js.
       rbind (rmap (deserialize_row t) js) (\<lambda>rows. insert_rows schema t rows db')))) (Inr cleared) schema = Inr fin"
    "\<forall>t \<in> set schema. fin (tb_name t) = sort_key (row_id t) (base (tb_name t))" "\<forall>n. n \<notin> tb_name ` set schema \<longrightarrow> fin n = cleared n"
    using insert_tables_ok [OF assms(2,1) subset_refl, of "[]" cleared data] assms(1) empty data by (auto simp: schema_ok_def)
  have "restore_tables drop_existing schema schema data target = Inr fin"
    unfolding restore_tables_def guard clear rbind_simps option.case using fin(1) by simp
  then have "db_restore schema en drop_existing encrypt text target = (fin, Inr ())"
    unfolding db_restore_def atomically_def payload by (simp add: raw(2,4) supported_version_def all [simplified])
  then show ?thesis using fin(2,3) by (auto simp: cleared_def)
qed

text \<open>Whatever goes wrong in a restore, the database is as it was.\<close>

theorem restore_is_atomic:
  assumes "db_restore schema en drop_existing decrypt text base = (fin, Inl e)"
  shows "fin = base"
  using assms by (auto simp: db_restore_def atomically_def split: sum.splits)

lemma delete_blocked:
  assumes "u \<in> set schema" and "tb_name u \<noteq> tb_name t" and "(k, tb_name t) \<in> set (tb_refs u)"
    and "t \<in> set ts" and "tb_name u \<notin> tb_name ` set ts"
    and "row \<in> set (base (tb_name u))" and "field u row k = SInt i" and "i \<in> set (table_ids schema base (tb_name t))"
  shows "foldl (\<lambda>d t. rbind d (delete_rows schema t)) (Inr base) ts = Inl IntegrityError"
  using assms(4-)
proof (induction ts arbitrary: base)
  case (Cons x ts)
  have stuck: "foldl (\<lambda>d t. rbind d (delete_rows schema t)) (Inl e) ts = Inl e" for e ts by (induction ts) simp_all
  show ?case
  proof (cases "tb_name x = tb_name t")
    case True
    have "delete_rows schema x base = Inl IntegrityError"
      unfolding delete_rows_def True list_ex_iff using assms(1-3) Cons.prems by fastforce
    then show ?thesis by (simp add: stuck)
  next
    case False
    let ?base = "base(tb_name x := [])"
    have "delete_rows schema x base \<in> {Inl IntegrityError, Inr ?base}" by (simp add: delete_rows_def)
    moreover have "foldl (\<lambda>d t. rbind d (delete_rows schema t)) (Inr ?base) ts = Inl IntegrityError"
    proof (rule Cons.IH)
      show "i \<in> set (table_ids schema ?base (tb_name t))"
        using Cons.prems(5) table_ids_other [of "tb_name t" x schema base "[]"] False by metis
    qed (use Cons.prems False in auto)
    ultimately show ?thesis by (auto simp: stuck)
  qed
qed simp

text \<open>
  A file without some table (version 1 has three) cannot be restored with \<^verbatim>\<open>--drop-existing\<close> while rows of
  that table refer to rows of a table the file has: the delete violates the foreign key.
\<close>

theorem partial_restore_blocked:
  assumes "u \<in> set schema" and "tb_name u \<noteq> tb_name t" and "(k, tb_name t) \<in> set (tb_refs u)"
    and "t \<in> set schema" and "map_of data (tb_name t) \<noteq> None" and "map_of data (tb_name u) = None"
    and "row \<in> set (base (tb_name u))" and "field u row k = SInt i" and "i \<in> set (table_ids schema base (tb_name t))"
  shows "restore_tables True schema (filter (\<lambda>t. map_of data (tb_name t) \<noteq> None) schema) data base = Inl IntegrityError"
proof -
  let ?ts = "filter (\<lambda>t. map_of data (tb_name t) \<noteq> None) schema"
  have "foldl (\<lambda>d t. rbind d (delete_rows schema t)) (Inr base) (rev ?ts) = Inl IntegrityError"
    by (rule delete_blocked [OF assms(1-3) _ _ assms(7-9)]) (use assms(4-6) in auto)
  then show ?thesis by (simp add: restore_tables_def find_None_iff' [THEN iffD2])
qed

section \<open>Restoring is type-safe\<close>

text \<open>The declared defaults fit their columns, and the primary key is an integer.\<close>

definition schema_typed :: "table list \<Rightarrow> bool" where
  "schema_typed schema \<longleftrightarrow> list_all (\<lambda>t. list_all (\<lambda>c. typed (col_type c) (col_server_default c) \<and>
     (col_key c = PK \<longrightarrow> col_type c = Int_Col)) (tb_columns t)) schema"

lemma bind_value_typed: "bind_value ty v = Inr v' \<Longrightarrow> typed ty v'"
  by (cases ty; cases v) (auto split: if_splits simp: image_iff Bex_def)

lemma rmap_nth: "rmap f xs = Inr ys \<Longrightarrow> i < length xs \<Longrightarrow> f (xs ! i) = Inr (ys ! i)"
proof (induction xs arbitrary: ys i)
  case (Cons x xs)
  then obtain y zs where "f x = Inr y" "rmap f xs = Inr zs" "ys = y # zs" by (auto simp: result_simps)
  then show ?case using Cons by (cases i) auto
qed simp

lemma bind_row_typed:
  assumes "list_all (\<lambda>c. typed (col_type c) (col_server_default c)) (tb_columns t)" and "bind_row t keys vals = Inr row"
  shows "length row = length (tb_columns t) \<and> list_all (\<lambda>(c, v). typed (col_type c) v) (zip (tb_columns t) row)"
proof
  show len: "length row = length (tb_columns t)" using rmap_Inr_length assms(2) unfolding bind_row_def by blast
  show "list_all (\<lambda>(c, v). typed (col_type c) v) (zip (tb_columns t) row)"
    unfolding list_all_length
  proof (intro allI impI)
    fix i assume i: "i < length (zip (tb_columns t) row)"
    then have "i < length (tb_columns t)" by simp
    from rmap_nth [OF assms(2) [unfolded bind_row_def] this]
    have "typed (col_type (tb_columns t ! i)) (row ! i)"
      using assms(1) \<open>i < length (tb_columns t)\<close> by (auto simp: result_simps list_all_length split: if_splits dest: bind_value_typed)
    then show "case zip (tb_columns t) row ! i of (c, v) \<Rightarrow> typed (col_type c) v" using i by simp
  qed
qed

lemma with_id_typed:
  assumes "list_all (\<lambda>c. col_key c = PK \<longrightarrow> col_type c = Int_Col) (tb_columns t)" and "length row = length (tb_columns t)"
    and "list_all (\<lambda>(c, v). typed (col_type c) v) (zip (tb_columns t) row)"
  shows "length (with_id t rows row) = length (tb_columns t) \<and>
     list_all (\<lambda>(c, v). typed (col_type c) v) (zip (tb_columns t) (with_id t rows row))"
  using assms by (auto simp: with_id_def list_all_length)

lemma field_nth:
  assumes "distinct (tb_keys t)" and "i < length (tb_columns t)" and "length row = length (tb_columns t)"
  shows "field t row (col_key (tb_columns t ! i)) = row ! i"
  using map_of_zip_nth [of "tb_keys t" row i] assms by (simp add: field_def)

lemma with_id_key:
  assumes "distinct (tb_keys t)" and "PK \<in> set (tb_keys t)" and "length row = length (tb_columns t)"
  shows "field t (with_id t rows row) PK \<noteq> SNull"
proof -
  obtain i where i: "i < length (tb_columns t)" "col_key (tb_columns t ! i) = PK" using assms(2) by (auto simp: in_set_conv_nth)
  have "field t (with_id t rows row) PK = with_id t rows row ! i"
    using field_nth [OF assms(1) i(1), of "with_id t rows row"] assms(3) i(2) by (simp add: with_id_def)
  then show ?thesis using i assms(3) by (simp add: with_id_def)
qed

lemma refs_ok_mono: "(\<And>p. set (ids p) \<subseteq> set (ids' p)) \<Longrightarrow> refs_ok ids t r \<Longrightarrow> refs_ok ids' t r"
  unfolding refs_ok_def list_all_iff by blast

lemma table_ids_grow: "set (table_ids schema base p) \<subseteq> set (table_ids schema (base(n := base n @ rows)) p)"
  by (auto simp: table_ids_def split: option.splits)

lemma database_okD:
  assumes "database_ok schema base" and "u \<in> set schema" and "r \<in> set (base (tb_name u))"
  shows "row_ok u r" and "refs_ok (table_ids schema base) u r"
  using assms by (auto simp: database_ok_def list_all_iff)

lemma schema_same: "schema_ok schema \<Longrightarrow> t \<in> set schema \<Longrightarrow> u \<in> set schema \<Longrightarrow> tb_name u = tb_name t \<Longrightarrow> u = t"
  by (auto simp: schema_ok_def distinct_map inj_on_def)

lemma insert_one_typed:
  assumes "schema_ok schema" and "schema_typed schema" and "database_ok schema base" and "t \<in> set schema"
    and "length row = length (tb_columns t)" and "list_all (\<lambda>(c, v). typed (col_type c) v) (zip (tb_columns t) row)"
    and "insert_one schema t row base = Inr base'"
  shows "database_ok schema base'"
proof -
  let ?n = "tb_name t"
  define new where "new = with_id t (base ?n) row"
  have ins: "not_null_ok t new" "\<not> list_ex (clash t new) (base ?n)" "refs_ok (table_ids schema base) t new"
    and base': "base' = base(?n := base ?n @ [new])"
    using assms(7) by (auto simp: insert_one_def Let_def new_def split: if_splits)
  have t: "distinct (tb_keys t)" "PK \<in> set (tb_keys t)" "list_all (\<lambda>c. col_key c = PK \<longrightarrow> col_type c = Int_Col) (tb_columns t)"
    using assms(1,2,4) by (auto simp: schema_ok_def schema_typed_def list_all_iff)
  have row: "row_ok t new"
    using with_id_typed [OF t(3) assms(5,6)] with_id_key [OF t(1,2) assms(5)] ins(1) by (simp add: row_ok_def new_def)
  have refs: "refs_ok (table_ids schema base') u r" if "refs_ok (table_ids schema base) u r" for u r
    unfolding base' by (rule refs_ok_mono [OF table_ids_grow that])
  have uniq: "sorted_wrt (\<lambda>r1 r2. \<not> clash t r1 r2) (base ?n @ [new])"
    using assms(3,4) ins(2) by (auto simp: database_ok_def list_all_iff sorted_wrt_append list_ex_iff clash_sym)
  have "list_all (row_ok u) (base' (tb_name u)) \<and> sorted_wrt (\<lambda>r1 r2. \<not> clash u r1 r2) (base' (tb_name u)) \<and>
      list_all (refs_ok (table_ids schema base') u) (base' (tb_name u))" if u: "u \<in> set schema" for u
  proof (cases "tb_name u = ?n")
    case True
    then have "u = t" using schema_same [OF assms(1,4) u] by blast
    then show ?thesis using database_okD [OF assms(3,4)] ins(3) refs row uniq by (auto simp: base' list_all_iff)
  next
    case False
    then show ?thesis using assms(3) u refs by (auto simp: base' database_ok_def list_all_iff)
  qed
  then show ?thesis by (simp add: database_ok_def list_all_iff)
qed

lemma insert_all_typed:
  assumes "schema_ok schema" and "schema_typed schema" and "t \<in> set schema"
    and "\<forall>r \<in> set rs. length r = length (tb_columns t) \<and> list_all (\<lambda>(c, v). typed (col_type c) v) (zip (tb_columns t) r)"
    and "database_ok schema base" and "insert_all schema t rs base = Inr base'"
  shows "database_ok schema base'"
  using assms(4-)
proof (induction rs arbitrary: base)
  case (Cons r rs)
  then obtain b where "insert_one schema t r base = Inr b" "insert_all schema t rs b = Inr base'" by (auto simp: result_simps)
  moreover from this have "database_ok schema b" using insert_one_typed [OF assms(1,2) Cons.prems(2) assms(3)] Cons.prems(1) by auto
  ultimately show ?case using Cons by auto
qed simp

lemma rmap_all: "rmap f xs = Inr ys \<Longrightarrow> (\<And>x y. f x = Inr y \<Longrightarrow> P y) \<Longrightarrow> \<forall>y \<in> set ys. P y"
  by (induction xs arbitrary: ys) (auto simp: result_simps)

lemma insert_rows_typed:
  assumes "schema_ok schema" and "schema_typed schema" and "t \<in> set schema" and "database_ok schema base"
    and "insert_rows schema t rows base = Inr base'"
  shows "database_ok schema base'"
proof (cases rows)
  case Nil
  then show ?thesis using assms(4,5) by (simp add: insert_rows_def)
next
  case (Cons first rest)
  then obtain rs where rs: "rmap (bind_row t (map fst first)) rows = Inr rs" "insert_all schema t rs base = Inr base'"
    using assms(5) by (auto simp: insert_rows_def result_simps)
  have "list_all (\<lambda>c. typed (col_type c) (col_server_default c)) (tb_columns t)"
    using assms(2,3) by (auto simp: schema_typed_def list_all_iff)
  from rmap_all [OF rs(1) bind_row_typed [OF this]] show ?thesis by (rule insert_all_typed [OF assms(1-3) _ assms(4) rs(2)])
qed

lemma delete_rows_typed:
  assumes "schema_ok schema" and "t \<in> set schema" and "database_ok schema base" and "delete_rows schema t base = Inr base'"
  shows "database_ok schema base'"
proof -
  have base': "base' = base(tb_name t := [])"
    and free: "\<And>u k row i. u \<in> set schema \<Longrightarrow> tb_name u \<noteq> tb_name t \<Longrightarrow> (k, tb_name t) \<in> set (tb_refs u) \<Longrightarrow>
       row \<in> set (base (tb_name u)) \<Longrightarrow> i \<in> set (table_ids schema base (tb_name t)) \<Longrightarrow> field u row k \<noteq> SInt i"
    using assms(4) by (auto simp: delete_rows_def list_ex_iff split: if_splits)
  have "refs_ok (table_ids schema base') u r" if u: "u \<in> set schema" "tb_name u \<noteq> tb_name t" and r: "r \<in> set (base (tb_name u))" for u r
    unfolding refs_ok_def list_all_iff
  proof (intro ballI, clarify)
    fix k p assume kp: "(k, p) \<in> set (tb_refs u)" and neq: "\<not> (\<exists>i \<in> set (table_ids schema base' p). field u r k = SInt i)"
    have "field u r k = SNull \<or> (\<exists>i \<in> set (table_ids schema base p). field u r k = SInt i)"
      using database_okD(2) [OF assms(3) u(1) r] kp by (auto simp: refs_ok_def list_all_iff)
    then show "field u r k = SNull"
      using free [OF u _ r] kp neq table_ids_other [of p t schema base "[]"] by (cases "p = tb_name t") (auto simp: base')
  qed
  then show ?thesis using assms(3) by (auto simp: base' database_ok_def list_all_iff)
qed

lemma foldl_rbind_inv:
  assumes "foldl (\<lambda>d t. rbind d (f t)) (Inr b) ts = Inr b'" and "P b"
    and "\<And>t x y. t \<in> set ts \<Longrightarrow> P x \<Longrightarrow> f t x = Inr y \<Longrightarrow> P y"
  shows "P b'"
proof -
  have stop: "foldl (\<lambda>d t. rbind d (f t)) (Inl e) us = Inl e" for e us by (induction us) simp_all
  show ?thesis
    using assms
  proof (induction ts arbitrary: b)
    case (Cons t ts)
    then show ?case by (cases "f t b") (auto simp: stop)
  qed simp
qed

text \<open>
  Restoring is type-safe: the database checks what it is given. Whatever a backup file holds, a restore that succeeds leaves a database in which every
  value fits its column, no column that must not be is NULL, keys and unique columns are unique and references
  exist, if the database was like that before.
\<close>

theorem restore_is_type_safe:
  assumes "schema_ok schema" and "schema_typed schema" and "database_ok schema base"
    and "db_restore schema en drop_existing decrypt text base = (fin, Inr ())"
  shows "database_ok schema fin"
proof -
  obtain data where "restore_tables drop_existing schema (filter (\<lambda>t. map_of data (tb_name t) \<noteq> None) schema) data base = Inr fin"
    using assms(4) by (auto simp: db_restore_def result_simps split: if_splits)
  then obtain base1 where
    del: "(if drop_existing then foldl (\<lambda>d t. rbind d (delete_rows schema t)) (Inr base)
        (rev (filter (\<lambda>t. map_of data (tb_name t) \<noteq> None) schema)) else Inr base) = Inr base1"
    and ins: "foldl (\<lambda>d t. rbind d (\<lambda>base'.
       rbind (as_list (the (map_of data (tb_name t)))) (\<lambda>js.
       rbind (rmap (deserialize_row t) js) (\<lambda>rows. insert_rows schema t rows base')))) (Inr base1)
        (filter (\<lambda>t. map_of data (tb_name t) \<noteq> None) schema) = Inr fin"
    unfolding restore_tables_def rbind_Inr_iff by blast
  have "database_ok schema base1"
  proof (cases drop_existing)
    case True
    have "foldl (\<lambda>d t. rbind d (delete_rows schema t)) (Inr base) (rev (filter (\<lambda>t. map_of data (tb_name t) \<noteq> None) schema)) = Inr base1"
      using del True by simp
    then show ?thesis
      by (rule foldl_rbind_inv [where P = "database_ok schema"]) (use assms(3) delete_rows_typed [OF assms(1)] in auto)
  next
    case False
    then show ?thesis using del assms(3) by simp
  qed
  with ins show ?thesis
    by (rule foldl_rbind_inv [where P = "database_ok schema"]) (auto simp: rbind_Inr_iff intro: insert_rows_typed [OF assms(1,2)])
qed

lemma backup_tables_ok: "schema_ok backup_tables"
  by code_simp

text \<open>A plain wrap of the data key by the development backend, and a small database.\<close>

definition sample_envelope_env :: envelope_env where
  "sample_envelope_env =
     \<lparr>en_encrypt = local_encrypt plain_fernet, en_decrypt = local_decrypt plain_fernet,
      en_aead = \<lparr>a_encrypt = \<lambda>k n p. n @ p, a_decrypt = \<lambda>k n c. Inr (drop (length n) c)\<rparr>,
      en_dek = ''key'', en_nonce = ''nonce'', en_now = 1709164800123456\<rparr>"

definition sample_database :: database where
  "sample_database n =
     (if n = ''tenant'' then [[SInt 2, SStr ''beta'', SStr ''b'', SStr ''10.2.0.0/16'', STime 5], [SInt 1, SStr ''Alpha'', SStr ''a'', SStr ''10.1.0.0/16'', STime 1709164800123456]]
      else if n = ''sshkey'' then [[SInt 4, SInt 1, SStr ''key'', SEnum ''ca'', STime 0]]
      else [])"

theorem backup_restores_database_witness:
  "\<exists>dump fin. db_backup backup_tables sample_envelope_env True sample_database = Inr dump \<and>
     db_restore backup_tables sample_envelope_env True True dump (\<lambda>_. []) = (fin, Inr ()) \<and>
     map (row_id tenant_table) (fin ''tenant'') = [1, 2]"
proof -
  have ok: "database_ok backup_tables sample_database" by code_simp
  have aead: "aead_laws (en_aead sample_envelope_env)" by (simp add: aead_laws_def sample_envelope_env_def)
  have "fernet_laws plain_fernet" by (simp add: fernet_laws_def plain_fernet_def)
  then have crypto: "crypto_laws (en_encrypt sample_envelope_env) (en_decrypt sample_envelope_env)"
    by (simp add: sample_envelope_env_def local_crypto_laws)
  have short: "length (envelope_context sample_envelope_env) \<le> 65535" by code_simp
  obtain dump where dump: "db_backup backup_tables sample_envelope_env True sample_database = Inr dump"
    using short by (auto simp: db_backup_def envelope_encrypt_def Let_def local_encrypt_def sample_envelope_env_def)
  have sorted: "map (row_id tenant_table) (sort_key (row_id tenant_table) (sample_database ''tenant'')) = [1, 2]"
    and name: "tb_name tenant_table = ''tenant''" "tenant_table \<in> set backup_tables"
    by (code_simp, simp_all add: tenant_table_def backup_tables_def)
  from backup_restores_database [OF backup_tables_ok ok aead crypto dump, of True "\<lambda>_. []"] obtain fin where
    "db_restore backup_tables sample_envelope_env True True dump (\<lambda>_. []) = (fin, Inr ())"
    "fin ''tenant'' = sort_key (row_id tenant_table) (sample_database ''tenant'')"
    using name by auto
  then show ?thesis using dump sorted by auto
qed

definition one_tenant_file :: string where
  "one_tenant_file = json_pretty 0 (JObj [(''version'', JInt 1), (''tables'', JObj [(''tenant'', JArr [JObj
     [(''id'', JInt 3), (''name'', JStr ''acme''), (''slug'', JStr ''acme''), (''subnet_pool'', JStr ''10.0.0.0/8''),
      (''created_at'', JStr ''2024-02-29T12:00:00+00:00''), (''private_key'', JStr ''retired'')]])])])"

theorem restore_is_type_safe_witness:
  "\<exists>fin. db_restore backup_tables sample_envelope_env False False one_tenant_file (\<lambda>_. []) = (fin, Inr ()) \<and>
     database_ok backup_tables fin"
proof -
  let ?h = "db_restore backup_tables sample_envelope_env False False one_tenant_file (\<lambda>_. [])"
  have "snd ?h = Inr ()" by code_simp
  then obtain fin where run: "?h = (fin, Inr ())" by (metis prod.collapse)
  have "schema_typed backup_tables" "database_ok backup_tables (\<lambda>_. [])" by code_simp+
  from restore_is_type_safe [OF backup_tables_ok this run] run show ?thesis by blast
qed

end
