(* ===== verification/Cert_Cli.thy ===== *)
theory Cert_Cli
  imports Complex_Main Cert_Props Backup
begin

text \<open>
  \<^verbatim>\<open>wg-manager certs\<close> (\<^verbatim>\<open>cli.py\<close>): issuing, revoking, renewing and listing certificates without the API. A
  command works on the database, on the PKI backend and on files; only a database transaction is
  rolled back. A file is its content and its mode, under the text of its path; writing fails where
  the environment says so. The rounding of floating point numbers is a parameter.
\<close>

section \<open>The world of a command\<close>

record 'p cli_world =
  cw_db :: state
  cw_pki :: 'p
  cw_files :: "string \<rightharpoonup> (string \<times> nat)"

record cli_env =
  ce_env :: env
  ce_writable :: "string \<Rightarrow> bool"
  ce_float :: "rat \<Rightarrow> rat"

definition on_pki :: "('p, 'a) handler \<Rightarrow> ('p cli_world, 'a) handler" where
  "on_pki h w = (case h (cw_pki w) of (p, r) \<Rightarrow> (w\<lparr>cw_pki := p\<rparr>, r))"

definition commit_certificate :: "certificate \<Rightarrow> ('p cli_world, certificate) handler" where
  "commit_certificate row w =
     (case insert_certificate row (cw_db w) of Inl x \<Rightarrow> (w, Inl x) | Inr s \<Rightarrow> (w\<lparr>cw_db := s\<rparr>, Inr row))"

text \<open>\<^verbatim>\<open>str(Path(s))\<close>: empty and dot components are dropped, two leading slashes (but not three) are kept.\<close>

definition path_root :: "string \<Rightarrow> string" where
  "path_root s =
     (if take 2 s = ''//'' \<and> take 3 s \<noteq> ''///'' then ''//'' else if take 1 s = ''/'' then ''/'' else [])"

definition path_parts :: "string \<Rightarrow> string list" where
  "path_parts s = filter (\<lambda>x. x \<noteq> [] \<and> x \<noteq> ''.'') (split_on CHR ''/'' s)"

definition posix_path :: "string \<Rightarrow> string" where
  "posix_path s = (let t = path_root s @ join_with ''/'' (path_parts s) in if t = [] then ''.'' else t)"

definition write_pem :: "cli_env \<Rightarrow> string \<Rightarrow> string \<Rightarrow> nat \<Rightarrow> ('p cli_world, unit) handler" where
  "write_pem ce path body mode w =
     (if ce_writable ce path then (w\<lparr>cw_files := (cw_files w)(path \<mapsto> (body, mode))\<rparr>, Inr ())
      else (w, Inl (OSError path)))"

text \<open>Modes 0o644 and 0o600.\<close>

definition write_leaf :: "cli_env \<Rightarrow> string \<times> string \<times> string \<Rightarrow> cert \<Rightarrow> ('p cli_world, unit) handler" where
  "write_leaf ce paths c =
     (case paths of (cert_path, key_path, chain_path) \<Rightarrow>
      andThen (write_pem ce cert_path (cert_pem c) 420) (\<lambda>_.
      andThen (write_pem ce key_path (cert_private_pem c) 384) (\<lambda>_.
        write_pem ce chain_path (cert_chain_pem c) 420)))"

section \<open>certs issue\<close>

fun CLI_CERT_PROFILES :: "certificate_type \<Rightarrow> cert_profile" where
  "CLI_CERT_PROFILES Api = \<lparr>pf_ttl_days = 30, pf_default_sans = Some [''127.0.0.1'', ''localhost''],
     pf_requires_operator = False, pf_server_eku = True\<rparr>"
| "CLI_CERT_PROFILES Cli = \<lparr>pf_ttl_days = 365, pf_default_sans = None, pf_requires_operator = True, pf_server_eku = False\<rparr>"
| "CLI_CERT_PROFILES Dashboard = \<lparr>pf_ttl_days = 365, pf_default_sans = None, pf_requires_operator = True, pf_server_eku = False\<rparr>"
| "CLI_CERT_PROFILES Mysql = \<lparr>pf_ttl_days = 30, pf_default_sans = Some [''mysql'', ''127.0.0.1'', ''localhost''],
     pf_requires_operator = False, pf_server_eku = True\<rparr>"
| "CLI_CERT_PROFILES Mysql_Client = \<lparr>pf_ttl_days = 30, pf_default_sans = None, pf_requires_operator = False, pf_server_eku = False\<rparr>"

record issue_opts =
  io_type :: certificate_type
  io_cn :: string
  io_sans :: "string list"
  io_ttl_days :: "int option"
  io_operator_cn :: "string option"
  io_tenant :: "string option"
  io_out_cert :: "string option"
  io_out_key :: "string option"
  io_out_chain :: "string option"
  io_out_pkcs12 :: "string option"
  io_password :: string

definition cli_sans :: "issue_opts \<Rightarrow> string list" where
  "cli_sans b =
     (if io_sans b \<noteq> [] then io_sans b
      else case pf_default_sans (CLI_CERT_PROFILES (io_type b)) of Some ds \<Rightarrow> ds | None \<Rightarrow> [io_cn b]) @
     (case io_tenant b of None \<Rightarrow> [] | Some slug \<Rightarrow> [''tenant:'' @ slug])"

definition check_outputs :: "issue_opts \<Rightarrow> unit result" where
  "check_outputs b =
     (if io_type b = Dashboard then check (io_out_pkcs12 b \<noteq> None) (cli_error ''--out-pkcs12 is required for --type dashboard'')
      else let missing = map fst (filter (\<lambda>(name, v). v = None)
                 [(''--out-cert'', io_out_cert b), (''--out-key'', io_out_key b), (''--out-chain'', io_out_chain b)]) in
        check (missing = []) (cli_error (''missing required output flag(s): '' @ join_with '', '' missing)))"

definition cli_operator :: "issue_opts \<Rightarrow> state \<Rightarrow> int option result" where
  "cli_operator b s =
     (if \<not> pf_requires_operator (CLI_CERT_PROFILES (io_type b)) then Inr None
      else let target_cn = (case io_operator_cn b of None \<Rightarrow> io_cn b | Some x \<Rightarrow> if x = [] then io_cn b else x) in
        rbind (or_raise (find (\<lambda>o'. op_cn o' = target_cn) (operators s))
          (cli_error (''no operator registered with CN '' @ py_repr target_cn @ '' '' @ em_dash @
             '' run `wg-manager` (or the CP3.4 dashboard) to register the operator first'')))
          (\<lambda>row. Inr (Some (op_id row))))"

definition cli_tenant :: "issue_opts \<Rightarrow> state \<Rightarrow> int option result" where
  "cli_tenant b s =
     (case io_tenant b of
        None \<Rightarrow> Inr None
      | Some slug \<Rightarrow>
          rbind (or_raise (find (\<lambda>t. ten_slug t = slug) (tenants s)) (cli_error (''no tenant with slug '' @ py_repr slug)))
            (\<lambda>t. Inr (Some (ten_id t))))"

text \<open>Everything before the backend is built.\<close>

definition cli_issue_plan :: "issue_opts \<Rightarrow> state \<Rightarrow> (int option \<times> int option) result" where
  "cli_issue_plan b s =
     rbind (check (io_tenant b = None \<or> \<not> pf_server_eku (CLI_CERT_PROFILES (io_type b)))
       (cli_error (''--tenant is not allowed for --type '' @ py_repr (certificate_type_value (io_type b)) @
          '' (server-EKU certs don'' @ [CHR 0x27] @ ''t carry an operator/service-client tenant binding)''))) (\<lambda>_.
     rbind (check_outputs b) (\<lambda>_.
     rbind (cli_operator b s) (\<lambda>operator_id.
     rbind (cli_tenant b s) (\<lambda>tenant_id. Inr (operator_id, tenant_id)))))"

definition cli_ttl_seconds :: "issue_opts \<Rightarrow> int" where
  "cli_ttl_seconds b =
     (case io_ttl_days b of None \<Rightarrow> pf_ttl_days (CLI_CERT_PROFILES (io_type b)) | Some d \<Rightarrow> d) * 24 * 60 * 60"

definition write_issued :: "cli_env \<Rightarrow> pkcs12_builder \<Rightarrow> issue_opts \<Rightarrow> cert \<Rightarrow> ('p cli_world, unit) handler" where
  "write_issued ce pk12 b c =
     (if io_type b = Dashboard
      then (case pk12 c (io_password b) of
              Inl x \<Rightarrow> raising x
            | Inr blob \<Rightarrow> write_pem ce (posix_path (the (io_out_pkcs12 b))) blob 384)
      else write_leaf ce (posix_path (the (io_out_cert b)), posix_path (the (io_out_key b)), posix_path (the (io_out_chain b))) c)"

definition issued_row :: "env \<Rightarrow> issue_opts \<Rightarrow> cert \<Rightarrow> int option \<Rightarrow> int option \<Rightarrow> certificate" where
  "issued_row e b c operator_id tenant_id =
     (new_certificate e c (io_type b) operator_id tenant_id)
       \<lparr>crt_out_cert_path := map_option posix_path (io_out_cert b), crt_out_key_path := map_option posix_path (io_out_key b),
        crt_out_chain_path := map_option posix_path (io_out_chain b)\<rparr>"

definition certs_issue ::
  "cli_env \<Rightarrow> ('p, 'p pki_ops) handler \<Rightarrow> pkcs12_builder \<Rightarrow> issue_opts \<Rightarrow> ('p cli_world, certificate) handler" where
  "certs_issue ce make_backend pk12 b w =
     (case cli_issue_plan b (cw_db w) of
        Inl x \<Rightarrow> (w, Inl x)
      | Inr (operator_id, tenant_id) \<Rightarrow>
          andThen (on_pki make_backend) (\<lambda>ops.
          andThen (on_pki (mint_leaf ops (io_type b) (io_cn b) (cli_sans b) (cli_ttl_seconds b))) (\<lambda>c.
          andThen (write_issued ce pk12 b c) (\<lambda>_.
            commit_certificate (issued_row (ce_env ce) b c operator_id tenant_id)))) w)"

section \<open>certs revoke\<close>

definition certs_revoke :: "cli_env \<Rightarrow> ('p, 'p pki_ops) handler \<Rightarrow> int \<Rightarrow> ('p cli_world, unit) handler" where
  "certs_revoke ce make_backend serial w =
     (case find (\<lambda>c. crt_serial c = str_of_int serial) (certificates (cw_db w)) of
        None \<Rightarrow> (w, Inl (cli_error (''no certificate registered with serial '' @ str_of_int serial)))
      | Some row \<Rightarrow>
          andThen (on_pki make_backend) (\<lambda>ops.
          andThen (on_pki (revoke_serial ops serial)) (\<lambda>_ w1.
            (w1\<lparr>cw_db := (cw_db w1)\<lparr>certificates :=
                put_row crt_id (row\<lparr>crt_revoked := True, crt_revoked_at := Some (now (ce_env ce))\<rparr>) (certificates (cw_db w1))\<rparr>\<rparr>,
             Inr ()))) w)"

section \<open>certs renew\<close>

definition out_path :: "string option \<Rightarrow> string option \<Rightarrow> string option" where
  "out_path explicit stored =
     (case explicit of
        Some p \<Rightarrow> Some (posix_path p)
      | None \<Rightarrow> (case stored of None \<Rightarrow> None | Some s \<Rightarrow> if s = [] then None else Some (posix_path s)))"

type_synonym out_flags = "string option \<times> string option \<times> string option"

definition renew_paths :: "certificate \<Rightarrow> out_flags \<Rightarrow> (string \<times> string \<times> string) option" where
  "renew_paths row outs =
     (case outs of (oc, ok, och) \<Rightarrow>
      case (out_path oc (crt_out_cert_path row), out_path ok (crt_out_key_path row), out_path och (crt_out_chain_path row)) of
        (Some c, Some k, Some ch) \<Rightarrow> Some (c, k, ch)
      | _ \<Rightarrow> None)"

definition renewed_row :: "env \<Rightarrow> certificate \<Rightarrow> string \<times> string \<times> string \<Rightarrow> cert \<Rightarrow> certificate" where
  "renewed_row e row paths c =
     (case paths of (cert_path, key_path, chain_path) \<Rightarrow>
      (new_certificate e c (crt_type row) (crt_operator_id row) None)
       \<lparr>crt_out_cert_path := Some cert_path, crt_out_key_path := Some key_path, crt_out_chain_path := Some chain_path\<rparr>)"

definition renew_row ::
  "cli_env \<Rightarrow> 'p pki_ops \<Rightarrow> certificate \<Rightarrow> out_flags \<Rightarrow> ('p cli_world, certificate) handler" where
  "renew_row ce ops row outs =
     (case renew_paths row outs of
        None \<Rightarrow> raising (RuntimeError (''cannot renew certificate id='' @ str_of_int (crt_id row) @
          '': the row has no stored out-paths and the command was not invoked with --out-cert / --out-key / --out-chain. '' @
          ''Re-issue the cert via `wg-manager certs issue` with --out-cert/... to populate the path columns, '' @
          ''or call `renew --id` with explicit --out-* flags.''))
      | Some paths \<Rightarrow>
          andThen (on_pki (mint_leaf ops (crt_type row) (crt_common_name row)
            (filter (\<lambda>x. x \<noteq> []) (split_on CHR '','' (crt_sans row))) (renewal_ttl row))) (\<lambda>c.
          andThen (write_leaf ce paths c) (\<lambda>_.
            commit_certificate (renewed_row (ce_env ce) row paths c))))"

text \<open>The rows with a stored leaf path, and the newest of them per path.\<close>

definition leaf_path :: "certificate \<Rightarrow> string option" where
  "leaf_path r = (case crt_out_cert_path r of Some p \<Rightarrow> if p = [] then None else Some p | None \<Rightarrow> None)"

definition newest_by_path :: "certificate list \<Rightarrow> string \<rightharpoonup> int" where
  "newest_by_path rows =
     foldl (\<lambda>m r. case leaf_path r of
         None \<Rightarrow> m
       | Some p \<Rightarrow> m(p \<mapsto> max (case m p of None \<Rightarrow> 0 | Some i \<Rightarrow> i) (crt_id r))) Map.empty rows"

definition drop_superseded :: "certificate list \<Rightarrow> certificate list" where
  "drop_superseded rows =
     filter (\<lambda>r. case leaf_path r of None \<Rightarrow> True | Some p \<Rightarrow> newest_by_path rows p = Some (crt_id r)) rows"

text \<open>\<^verbatim>\<open>timedelta.total_seconds\<close> and the quotient are floating point operations, each rounded once.\<close>

definition total_seconds :: "(rat \<Rightarrow> rat) \<Rightarrow> int \<Rightarrow> rat" where
  "total_seconds fl d = fl (of_int d / 1000000)"

definition row_is_due :: "(rat \<Rightarrow> rat) \<Rightarrow> certificate \<Rightarrow> rat \<Rightarrow> int \<Rightarrow> bool" where
  "row_is_due fl row threshold_pct t =
     (let window = crt_not_after row - crt_not_before row in
      if total_seconds fl window \<le> 0 then True
      else let elapsed = total_seconds fl (t - crt_not_before row) in
        threshold_pct \<le> fl (fl (elapsed / total_seconds fl window) * 100))"

text \<open>\<^verbatim>\<open>except RuntimeError as exc\<close>, with \<^verbatim>\<open>str(exc)\<close>.\<close>

fun runtime_error :: "exn \<Rightarrow> string option" where
  "runtime_error (RuntimeError m) = Some m"
| "runtime_error (IPPoolExhausted m) = Some m"
| "runtime_error (RateLimitBackendError m) = Some m"
| "runtime_error (SSHCommandError m) = Some m"
| "runtime_error (SSHConnectionError m) = Some m"
| "runtime_error (SSHCAError m) = Some m"
| "runtime_error (HostCertInstallError m) = Some m"
| "runtime_error (PKIError m) = Some m"
| "runtime_error _ = None"

text \<open>Every renewed row takes the next key.\<close>

definition nth_env :: "cli_env \<Rightarrow> nat \<Rightarrow> cli_env" where
  "nth_env ce n = ce\<lparr>ce_env := (ce_env ce)\<lparr>new_id := new_id (ce_env ce) + int n\<rparr>\<rparr>"

fun renew_each ::
  "cli_env \<Rightarrow> 'p pki_ops \<Rightarrow> certificate list \<Rightarrow> nat \<Rightarrow> nat \<Rightarrow> ('p cli_world, nat \<times> nat) handler" where
  "renew_each ce ops [] renewed skipped w = (w, Inr (renewed, skipped))"
| "renew_each ce ops (r # rs) renewed skipped w =
     (case renew_row (nth_env ce renewed) ops r (None, None, None) w of
        (w', Inr _) \<Rightarrow> renew_each ce ops rs (renewed + 1) skipped w'
      | (w', Inl x) \<Rightarrow> if runtime_error x \<noteq> None then renew_each ce ops rs renewed (skipped + 1) w' else (w', Inl x))"

record renew_opts =
  ro_id :: "int option"
  ro_due :: bool
  ro_threshold_pct :: rat
  ro_dry_run :: bool
  ro_outs :: out_flags

datatype renew_report =
    Renewed certificate
  | Would_Renew "certificate list"
  | Nothing_Due nat
  | Summary nat nat nat

definition live_rows :: "state \<Rightarrow> certificate list" where
  "live_rows s = filter (\<lambda>r. \<not> crt_revoked r) (certificates s)"

definition due_rows :: "cli_env \<Rightarrow> rat \<Rightarrow> state \<Rightarrow> certificate list" where
  "due_rows ce threshold_pct s =
     filter (\<lambda>r. row_is_due (ce_float ce) r threshold_pct (now (ce_env ce))) (drop_superseded (live_rows s))"

definition renew_one :: "cli_env \<Rightarrow> 'p pki_ops option \<Rightarrow> int \<Rightarrow> out_flags \<Rightarrow> ('p cli_world, renew_report) handler" where
  "renew_one ce backend i outs w =
     (case get_row crt_id (certificates (cw_db w)) i of
        None \<Rightarrow> (w, Inl (cli_error (''no certificate registered with id='' @ str_of_int i)))
      | Some row \<Rightarrow>
          if crt_revoked row
          then (w, Inl (cli_error (''certificate id='' @ str_of_int i @ '' is revoked; renewal is not supported for revoked certs'')))
          else (case backend of
              None \<Rightarrow> (w, Inr (Would_Renew [row]))
            | Some ops \<Rightarrow>
                (case renew_row ce ops row outs w of
                   (w', Inr new_row) \<Rightarrow> (w', Inr (Renewed new_row))
                 | (w', Inl x) \<Rightarrow> (w', Inl (case runtime_error x of Some m \<Rightarrow> cli_error m | None \<Rightarrow> x)))))"

definition renew_due :: "cli_env \<Rightarrow> 'p pki_ops option \<Rightarrow> rat \<Rightarrow> ('p cli_world, renew_report) handler" where
  "renew_due ce backend threshold_pct w =
     (let rows = live_rows (cw_db w); due = due_rows ce threshold_pct (cw_db w) in
      if due = [] then (w, Inr (Nothing_Due (length rows)))
      else case backend of
          None \<Rightarrow> (w, Inr (Would_Renew due))
        | Some ops \<Rightarrow>
            andThen (renew_each ce ops due 0 0) (\<lambda>(renewed, skipped). returning (Summary renewed skipped (length rows))) w)"

definition certs_renew :: "cli_env \<Rightarrow> ('p, 'p pki_ops) handler \<Rightarrow> renew_opts \<Rightarrow> ('p cli_world, renew_report) handler" where
  "certs_renew ce make_backend o' =
     (if (ro_id o' = None \<and> \<not> ro_due o') \<or> (ro_id o' \<noteq> None \<and> ro_due o')
      then raising (CliExit 2 ''exactly one of --id or --due must be supplied'')
      else andThen (if ro_dry_run o' then returning None else andThen (on_pki make_backend) (\<lambda>ops. returning (Some ops))) (\<lambda>backend.
        case ro_id o' of
          Some i \<Rightarrow> renew_one ce backend i (ro_outs o')
        | None \<Rightarrow> renew_due ce backend (ro_threshold_pct o')))"

section \<open>certs list\<close>

definition list_payload :: "certificate \<Rightarrow> json" where
  "list_payload row = JObj
     [(''id'', JInt (crt_id row)), (''serial'', JStr (crt_serial row)),
      (''cert_type'', JStr (certificate_type_value (crt_type row))), (''operator_id'', json_int_opt (crt_operator_id row)),
      (''common_name'', JStr (crt_common_name row)), (''sans'', JStr (crt_sans row)),
      (''not_before'', JStr (isoformat (crt_not_before row))), (''not_after'', JStr (isoformat (crt_not_after row))),
      (''revoked'', JBool (crt_revoked row)),
      (''revoked_at'', case crt_revoked_at row of None \<Rightarrow> JNull | Some t \<Rightarrow> JStr (isoformat t)),
      (''created_at'', JStr (isoformat (crt_created_at row)))]"

definition certs_list :: "state \<Rightarrow> string" where
  "certs_list s = json_pretty 0 (JArr (map list_payload (certificates s)))"

end
