(* ===== verification/Cert_Cli_Props.thy ===== *)
theory Cert_Cli_Props
  imports Cert_Cli
begin

text \<open>
  What the certificate commands guarantee: which rows \<^verbatim>\<open>renew --due\<close> renews and that running it again changes
  nothing, that a row is only recorded for files that were written, and, together with the certificate
  endpoints, that revoked rows are on the revocation list of a shared Vault and revoked certificates are
  refused.
\<close>

section \<open>Runs of the commands\<close>

lemma profiles_agree [simp]: "CLI_CERT_PROFILES = CERT_PROFILES"
proof
  show "CLI_CERT_PROFILES t = CERT_PROFILES t" for t by (cases t) simp_all
qed

lemma on_pki_eq: "on_pki h w = (w', r) \<longleftrightarrow> (\<exists>p. h (cw_pki w) = (p, r) \<and> w' = w\<lparr>cw_pki := p\<rparr>)"
  by (auto simp: on_pki_def split: prod.splits)

lemma andThen_eq:
  "andThen m f w = (w', r) \<longleftrightarrow>
     (\<exists>x. m w = (w', Inl x) \<and> r = Inl x) \<or> (\<exists>w1 y. m w = (w1, Inr y) \<and> f y w1 = (w', r))"
  by (auto simp: andThen_def split: prod.splits sum.splits)

lemma commit_certificate_eq:
  "commit_certificate row w = (w', r) \<longleftrightarrow>
     (\<exists>x. insert_certificate row (cw_db w) = Inl x \<and> w' = w \<and> r = Inl x) \<or>
     (\<exists>s. insert_certificate row (cw_db w) = Inr s \<and> w' = w\<lparr>cw_db := s\<rparr> \<and> r = Inr row)"
  by (auto simp: commit_certificate_def split: sum.splits)

lemma write_pem_eq:
  "write_pem ce path body mode w = (w', r) \<longleftrightarrow>
     (ce_writable ce path \<and> w' = w\<lparr>cw_files := (cw_files w)(path \<mapsto> (body, mode))\<rparr> \<and> r = Inr ()) \<or>
     (\<not> ce_writable ce path \<and> w' = w \<and> r = Inl (OSError path))"
  by (auto simp: write_pem_def)

lemma write_leaf_frame:
  "write_leaf ce paths c w = (w', r) \<Longrightarrow> cw_db w' = cw_db w \<and> cw_pki w' = cw_pki w"
  by (cases paths) (auto simp: write_leaf_def andThen_eq write_pem_eq)

lemma write_leaf_Inr:
  "write_leaf ce (p, k, q) c w = (w', Inr ()) \<Longrightarrow>
     cw_files w' = (cw_files w)(p \<mapsto> (cert_pem c, 420), k \<mapsto> (cert_private_pem c, 384), q \<mapsto> (cert_chain_pem c, 420))"
  by (auto simp: write_leaf_def andThen_eq write_pem_eq)

abbreviation no_flags :: out_flags where "no_flags \<equiv> (None, None, None)"

definition minted_for :: "'p pki_ops \<Rightarrow> certificate \<Rightarrow> cert \<Rightarrow> bool" where
  "minted_for ops row c \<longleftrightarrow> (\<exists>p p'. mint_leaf ops (crt_type row) (crt_common_name row)
     (filter (\<lambda>x. x \<noteq> []) (split_on CHR '','' (crt_sans row))) (renewal_ttl row) p = (p', Inr c))"

lemma renew_row_none:
  "renew_paths row outs = None \<Longrightarrow> \<exists>m. renew_row ce ops row outs w = (w, Inl (RuntimeError m))"
  by (simp add: renew_row_def raising_def)

lemma renew_row_Inl: "renew_row ce ops row outs w = (w', Inl x) \<Longrightarrow> cw_db w' = cw_db w"
  by (auto simp: renew_row_def raising_def andThen_eq on_pki_eq commit_certificate_eq split: option.splits dest!: write_leaf_frame)

lemma renew_row_Inr:
  assumes "renew_row ce ops row outs w = (w', Inr r)"
  shows "\<exists>paths c. renew_paths row outs = Some paths \<and> minted_for ops row c \<and>
     r = renewed_row (ce_env ce) row paths c \<and> insert_certificate r (cw_db w) = Inr (cw_db w')"
proof -
  obtain paths where paths: "renew_paths row outs = Some paths"
    using assms renew_row_none [of row outs ce ops w] by (cases "renew_paths row outs") auto
  obtain w1 c w2 where run: "on_pki (mint_leaf ops (crt_type row) (crt_common_name row)
        (filter (\<lambda>x. x \<noteq> []) (split_on CHR '','' (crt_sans row))) (renewal_ttl row)) w = (w1, Inr c)"
      "write_leaf ce paths c w1 = (w2, Inr ())"
      "commit_certificate (renewed_row (ce_env ce) row paths c) w2 = (w', Inr r)"
    using assms unfolding renew_row_def paths by (auto simp: andThen_eq)
  have "cw_db w2 = cw_db w" using write_leaf_frame [OF run(2)] run(1) by (auto simp: on_pki_eq)
  moreover have "minted_for ops row c" using run(1) by (auto simp: on_pki_eq minted_for_def)
  ultimately show ?thesis using paths run(3) by (auto simp: commit_certificate_eq)
qed

text \<open>How a new row relates to the one it renews.\<close>

definition renewal_of :: "cli_env \<Rightarrow> 'p pki_ops \<Rightarrow> certificate \<Rightarrow> certificate \<Rightarrow> bool" where
  "renewal_of ce ops old new \<longleftrightarrow>
     (\<exists>paths c i. renew_paths old no_flags = Some paths \<and> minted_for ops old c \<and> new_id (ce_env ce) \<le> i \<and>
        new = renewed_row ((ce_env ce)\<lparr>new_id := i\<rparr>) old paths c)"

abbreviation pathless :: "certificate list \<Rightarrow> nat" where
  "pathless rs \<equiv> length (filter (\<lambda>r. renew_paths r no_flags = None) rs)"

lemma renew_each_skips:
  "renew_each ce ops rs n k w = (w', Inr (n', k')) \<Longrightarrow> k + pathless rs \<le> k'"
proof (induction rs arbitrary: n k w)
  case (Cons r rs)
  obtain w1 q where q: "renew_row (nth_env ce n) ops r no_flags w = (w1, q)" by fastforce
  show ?case
  proof (cases q)
    case (Inl x)
    then show ?thesis using Cons.prems q Cons.IH by (fastforce split: if_splits)
  next
    case (Inr y)
    have "renew_paths r no_flags \<noteq> None" using renew_row_none [of r no_flags "nth_env ce n" ops w] q Inr by fastforce
    then show ?thesis using Cons.prems q Inr Cons.IH by fastforce
  qed
qed simp

lemma renew_each_renews:
  assumes "renew_each ce ops rs n k w = (w', Inr (n', k'))" and "k' = k + pathless rs"
  shows "\<exists>news. cw_db w' = (cw_db w)\<lparr>certificates := certificates (cw_db w) @ news\<rparr> \<and> n' = n + length news \<and>
     list_all2 (renewal_of ce ops) (filter (\<lambda>r. renew_paths r no_flags \<noteq> None) rs) news"
  using assms
proof (induction rs arbitrary: n k w)
  case (Cons r rs)
  obtain w1 q where q: "renew_row (nth_env ce n) ops r no_flags w = (w1, q)" by fastforce
  show ?case
  proof (cases "renew_paths r no_flags")
    case None
    then obtain m where "renew_row (nth_env ce n) ops r no_flags w = (w, Inl (RuntimeError m))"
      using renew_row_none by blast
    then show ?thesis using Cons.IH [of n "k + 1" w] Cons.prems None by simp
  next
    case (Some paths)
    show ?thesis
    proof (cases q)
      case (Inl x)
      then show ?thesis using Cons.prems q Some renew_each_skips [of ce ops rs n "k + 1" w1 w' n' k'] by (simp split: if_splits)
    next
      case (Inr new)
      obtain c where c: "minted_for ops r c" "new = renewed_row (ce_env (nth_env ce n)) r paths c"
        "insert_certificate new (cw_db w) = Inr (cw_db w1)"
        using renew_row_Inr [OF q [unfolded Inr]] Some by auto
      have db1: "cw_db w1 = (cw_db w)\<lparr>certificates := certificates (cw_db w) @ [new]\<rparr>" using c(3) by (simp add: result_simps)
      have "renewal_of ce ops r new" using Some c(1,2) unfolding renewal_of_def
        by (intro exI [of _ paths] exI [of _ c] exI [of _ "new_id (ce_env ce) + int n"]) (simp add: nth_env_def)
      moreover obtain news where "cw_db w' = (cw_db w1)\<lparr>certificates := certificates (cw_db w1) @ news\<rparr>" "n' = n + 1 + length news"
          "list_all2 (renewal_of ce ops) (filter (\<lambda>r. renew_paths r no_flags \<noteq> None) rs) news"
        using Cons.IH [of "n + 1" k w1] Cons.prems q Inr Some by auto
      ultimately show ?thesis using db1 Some by (intro exI [of _ "new # news"], cases paths) simp
    qed
  qed
qed (auto intro: exI [of _ "[]"])

lemma renew_each_pathless:
  "\<forall>r \<in> set rs. renew_paths r no_flags = None \<Longrightarrow> renew_each ce ops rs n k w = (w, Inr (n, k + length rs))"
proof (induction rs arbitrary: k)
  case (Cons r rs)
  then obtain m where "renew_row (nth_env ce n) ops r no_flags w = (w, Inl (RuntimeError m))"
    using renew_row_none by (metis list.set_intros(1))
  then show ?case using Cons by simp
qed simp

section \<open>Superseded rows\<close>

lemma newest_step:
  "newest_by_path (rows @ [r]) = (case leaf_path r of
      None \<Rightarrow> newest_by_path rows
    | Some p \<Rightarrow> (newest_by_path rows)(p \<mapsto> max (case newest_by_path rows p of None \<Rightarrow> 0 | Some i \<Rightarrow> i) (crt_id r)))"
  by (cases "leaf_path r") (simp_all add: newest_by_path_def)

lemma newest_ge:
  "r \<in> set rows \<Longrightarrow> leaf_path r = Some p \<Longrightarrow> \<exists>i. newest_by_path rows p = Some i \<and> crt_id r \<le> i"
  by (induction rows rule: rev_induct) (force simp: newest_step split: option.splits)+

lemma newest_in:
  "newest_by_path rows p = Some i \<Longrightarrow> i = 0 \<or> (\<exists>r \<in> set rows. leaf_path r = Some p \<and> crt_id r = i)"
proof (induction rows arbitrary: i rule: rev_induct)
  case Nil
  then show ?case by (simp add: newest_by_path_def)
next
  case (snoc r rows)
  then show ?case by (auto simp: newest_step max_def split: option.splits if_splits)
qed

lemma in_drop_superseded:
  assumes "\<forall>r \<in> set rows. 0 \<le> crt_id r"
  shows "r \<in> set (drop_superseded rows) \<longleftrightarrow>
     r \<in> set rows \<and> (\<forall>p. leaf_path r = Some p \<longrightarrow> (\<forall>r' \<in> set rows. leaf_path r' = Some p \<longrightarrow> crt_id r' \<le> crt_id r))"
proof (cases "leaf_path r")
  case None
  then show ?thesis by (simp add: drop_superseded_def)
next
  case (Some p)
  have "newest_by_path rows p = Some (crt_id r) \<longleftrightarrow> (\<forall>r' \<in> set rows. leaf_path r' = Some p \<longrightarrow> crt_id r' \<le> crt_id r)"
    if r: "r \<in> set rows"
  proof -
    obtain i where i: "newest_by_path rows p = Some i" "crt_id r \<le> i" using newest_ge [OF r Some] by blast
    have "0 \<le> crt_id r" using assms r by simp
    then have "i \<le> crt_id r \<or> (\<exists>r' \<in> set rows. leaf_path r' = Some p \<and> crt_id r' = i)" using newest_in [OF i(1)] by auto
    moreover have "crt_id r' \<le> i" if "r' \<in> set rows" "leaf_path r' = Some p" for r' using newest_ge [OF that] i(1) by simp
    ultimately show ?thesis using i by fastforce
  qed
  then show ?thesis using Some by (auto simp: drop_superseded_def)
qed

lemma posix_path_nonempty [simp]: "posix_path s \<noteq> []"
  by (simp add: posix_path_def Let_def)

lemma renewal_leaf_path:
  assumes "renewal_of ce ops old new" and "leaf_path old = Some p" and "posix_path p = p"
  shows "leaf_path new = Some p"
  using assms
  by (auto simp: renewal_of_def renew_paths_def out_path_def leaf_path_def renewed_row_def split: option.splits if_splits)

lemma renewal_live: "renewal_of ce ops old new \<Longrightarrow> \<not> crt_revoked new"
  by (auto simp: renewal_of_def renewed_row_def new_certificate_def split: prod.splits)


lemma list_all2_in2: "list_all2 P xs ys \<Longrightarrow> y \<in> set ys \<Longrightarrow> \<exists>x \<in> set xs. P x y"
  by (induction rule: list_all2_induct) auto

lemma list_all2_in1: "list_all2 P xs ys \<Longrightarrow> x \<in> set xs \<Longrightarrow> \<exists>y \<in> set ys. P x y"
  by (induction rule: list_all2_induct) auto

lemma renew_due_run:
  assumes "certs_renew ce mk o' w = (w', Inr (Summary n k m))" and "ro_id o' = None"
  shows "\<exists>p ops. mk (cw_pki w) = (p, Inr ops) \<and>
     renew_each ce ops (due_rows ce (ro_threshold_pct o') (cw_db w)) 0 0 (w\<lparr>cw_pki := p\<rparr>) = (w', Inr (n, k))"
  using assms
  by (auto simp: certs_renew_def renew_due_def andThen_eq on_pki_eq raising_def returning_def Let_def split: if_splits option.splits)

lemma renew_due_rows:
  assumes "certs_renew ce mk o' w = (w', Inr (Summary n k m))" and "ro_id o' = None"
    and "k = pathless (due_rows ce (ro_threshold_pct o') (cw_db w))"
  shows "\<exists>p ops news. mk (cw_pki w) = (p, Inr ops) \<and> cw_db w' = (cw_db w)\<lparr>certificates := certificates (cw_db w) @ news\<rparr> \<and>
     list_all2 (renewal_of ce ops) (filter (\<lambda>r. renew_paths r no_flags \<noteq> None) (due_rows ce (ro_threshold_pct o') (cw_db w))) news"
  using renew_due_run [OF assms(1,2)] renew_each_renews assms(3) by fastforce

text \<open>
  \<^verbatim>\<open>certs renew --due\<close> is idempotent. After a run that skipped only rows without stored paths, a second
  run, at a time when no fresh leaf and no other row has become due, mints nothing, writes no file and
  leaves the database alone. The keys of the database grow, and stored paths are normal, as the
  commands write them.
\<close>

theorem renew_due_idempotent:
  fixes w :: "'p cli_world"
  defines "rows \<equiv> \<lambda>v :: 'p cli_world. set (certificates (cw_db v))"
  assumes "certs_renew ce mk o' w = (w1, Inr (Summary n k m))" and "ro_id o' = None"
    and "k = pathless (due_rows ce (ro_threshold_pct o') (cw_db w))"
    and "\<forall>r \<in> rows w. 0 \<le> crt_id r \<and> crt_id r < new_id (ce_env ce)"
    and "\<forall>r \<in> rows w. \<forall>p. leaf_path r = Some p \<longrightarrow> posix_path p = p"
    and "ce_float ce' = ce_float ce"
    and "\<forall>r \<in> rows w1 - rows w. \<not> row_is_due (ce_float ce) r (ro_threshold_pct o') (now (ce_env ce'))"
    and "\<forall>r \<in> rows w. row_is_due (ce_float ce) r (ro_threshold_pct o') (now (ce_env ce')) \<longrightarrow>
           row_is_due (ce_float ce) r (ro_threshold_pct o') (now (ce_env ce))"
    and "mk' (cw_pki w1) = (p2, Inr ops2)"
  shows "\<exists>report. certs_renew ce' mk' o' w1 = (w1\<lparr>cw_pki := p2\<rparr>, Inr report) \<and>
     (\<exists>skipped live. report = Nothing_Due live \<or> report = Summary 0 skipped live)"
proof -
  let ?due = "due_rows ce (ro_threshold_pct o') (cw_db w)" and ?due' = "due_rows ce' (ro_threshold_pct o') (cw_db w1)"
  obtain ops :: "'p pki_ops" and news where db1: "cw_db w1 = (cw_db w)\<lparr>certificates := certificates (cw_db w) @ news\<rparr>"
    and news: "list_all2 (renewal_of ce ops) (filter (\<lambda>r. renew_paths r no_flags \<noteq> None) ?due) news"
    using renew_due_rows [OF assms(2-4)] by blast
  have new_src: "\<exists>old \<in> set ?due. renewal_of ce ops old r" if "r \<in> set news" for r
    using list_all2_in2 [OF news that] by auto
  have id: "new_id (ce_env ce) \<le> crt_id r" if "r \<in> set news" for r
    using new_src [OF that] by (auto simp: renewal_of_def renewed_row_def new_certificate_def split: prod.splits)
  have live1: "live_rows (cw_db w1) = live_rows (cw_db w) @ news"
    using db1 new_src renewal_live by (fastforce simp: live_rows_def filter_id_conv)
  have pos: "\<forall>r \<in> set (live_rows (cw_db w)). 0 \<le> crt_id r"
    using assms(5) by (simp add: rows_def live_rows_def)
  then have pos1: "\<forall>r \<in> set (live_rows (cw_db w1)). 0 \<le> crt_id r"
    using live1 id assms(5) new_src by (fastforce simp: rows_def live_rows_def due_rows_def drop_superseded_def)
  have nopath: "renew_paths r no_flags = None" if r: "r \<in> set ?due'" for r
  proof (rule ccontr)
    assume paths: "renew_paths r no_flags \<noteq> None"
    have kept: "r \<in> set (drop_superseded (live_rows (cw_db w1)))" "row_is_due (ce_float ce) r (ro_threshold_pct o') (now (ce_env ce'))"
      using r assms(7) by (auto simp: due_rows_def)
    have top: "r \<in> set (live_rows (cw_db w1))"
      "\<forall>p. leaf_path r = Some p \<longrightarrow> (\<forall>r' \<in> set (live_rows (cw_db w1)). leaf_path r' = Some p \<longrightarrow> crt_id r' \<le> crt_id r)"
      using kept(1) unfolding in_drop_superseded [OF pos1] by auto
    have old: "r \<in> rows w" using top(1) kept(2) assms(8) db1 by (auto simp: rows_def live_rows_def)
    then have "r \<in> set (live_rows (cw_db w))" using top(1) live1 by (auto simp: rows_def live_rows_def)
    then have "r \<in> set (drop_superseded (live_rows (cw_db w)))" using top(2) live1 by (simp add: in_drop_superseded [OF pos])
    then have "r \<in> set (filter (\<lambda>r. renew_paths r no_flags \<noteq> None) ?due)"
      using assms(9) old kept(2) paths by (simp add: due_rows_def)
    then obtain new where new: "new \<in> set news" "renewal_of ce ops r new"
      using list_all2_in1 [OF news] by blast
    obtain p where p: "leaf_path r = Some p"
      using paths by (auto simp: renew_paths_def out_path_def leaf_path_def split: option.splits if_splits)
    then have "leaf_path new = Some p" using renewal_leaf_path [OF new(2)] assms(6) old by simp
    then have "crt_id new \<le> crt_id r" using top(2) p new(1) live1 by simp
    then show False using id [OF new(1)] assms(5) old by fastforce
  qed
  have mode: "ro_due o'" "\<not> ro_dry_run o'"
    using assms(2,3) by (auto simp: certs_renew_def raising_def andThen_eq renew_due_def returning_def Let_def split: if_splits)
  have "renew_each ce' ops2 ?due' 0 0 (w1\<lparr>cw_pki := p2\<rparr>) = (w1\<lparr>cw_pki := p2\<rparr>, Inr (0, 0 + length ?due'))"
    using nopath by (intro renew_each_pathless) simp
  then show ?thesis
    using assms(3,10) mode
    by (auto simp: certs_renew_def renew_due_def andThen_def on_pki_def returning_def Let_def)
qed


section \<open>Stored paths are normal\<close>

lemma path_parts_clean: "q \<in> set (path_parts s) \<Longrightarrow> q \<noteq> [] \<and> q \<noteq> ''.'' \<and> CHR ''/'' \<notin> set q"
  by (auto simp: path_parts_def dest: split_on_no_sep_in)

lemma posix_path_idem: "posix_path (posix_path s) = posix_path s"
proof (cases "path_root s @ join_with ''/'' (path_parts s) = []")
  case True
  then show ?thesis by (simp add: posix_path_def path_root_def path_parts_def)
next
  case False
  let ?ps = "path_parts s" and ?j = "join_with ''/'' (path_parts s)"
  have t: "posix_path s = path_root s @ ?j" using False by (simp add: posix_path_def)
  have roots: "path_root s = [] \<or> path_root s = ''/'' \<or> path_root s = ''//''" by (simp add: path_root_def)
  have clean: "\<forall>q \<in> set ?ps. q \<noteq> [] \<and> q \<noteq> ''.'' \<and> CHR ''/'' \<notin> set q" using path_parts_clean by blast
  have split: "filter (\<lambda>x. x \<noteq> [] \<and> x \<noteq> ''.'') (split_on CHR ''/'' ?j) = ?ps"
  proof (cases "?ps = []")
    case False
    then have "split_on CHR ''/'' ?j = ?ps" using clean by (intro split_join) auto
    then show ?thesis using clean by (simp add: filter_id_conv)
  qed simp
  have first: "take 1 ?j \<noteq> ''/''"
  proof (cases ?ps)
    case (Cons q qs)
    then have "q \<noteq> []" "CHR ''/'' \<notin> set q" using clean by auto
    then obtain c q' where "q = c # q'" "c \<noteq> CHR ''/''" by (cases q) auto
    then show ?thesis using Cons by (cases qs) auto
  qed simp
  have "path_parts (path_root s @ ?j) = ?ps" using roots split by (auto simp: path_parts_def)
  moreover have "path_root (path_root s @ ?j) = path_root s"
    using roots first by (cases ?j) (auto simp: path_root_def)
  ultimately show ?thesis unfolding t using False by (simp add: posix_path_def)
qed

lemma write_issued_frame:
  "write_issued ce pk12 b c w = (w', r) \<Longrightarrow> cw_db w' = cw_db w \<and> cw_pki w' = cw_pki w"
  by (auto simp: write_issued_def write_pem_eq raising_def split: if_splits sum.splits dest: write_leaf_frame)

lemma certs_issue_Inl: "certs_issue ce mk pk12 b w = (w', Inl x) \<Longrightarrow> cw_db w' = cw_db w"
  by (auto simp: certs_issue_def andThen_eq on_pki_eq commit_certificate_eq split: sum.splits prod.splits dest!: write_issued_frame)

lemma certs_issue_Inr:
  assumes "certs_issue ce mk pk12 b w = (w', Inr r)"
  shows "\<exists>operator_id tenant_id p1 ops c w1. cli_issue_plan b (cw_db w) = Inr (operator_id, tenant_id) \<and> mk (cw_pki w) = (p1, Inr ops) \<and>
     mint_leaf ops (io_type b) (io_cn b) (cli_sans b) (cli_ttl_seconds b) p1 = (cw_pki w', Inr c) \<and>
     write_issued ce pk12 b c (w\<lparr>cw_pki := cw_pki w'\<rparr>) = (w1, Inr ()) \<and> cw_files w' = cw_files w1 \<and>
     r = issued_row (ce_env ce) b c operator_id tenant_id \<and> insert_certificate r (cw_db w) = Inr (cw_db w')"
proof -
  obtain operator_id tenant_id where plan: "cli_issue_plan b (cw_db w) = Inr (operator_id, tenant_id)"
    using assms by (auto simp: certs_issue_def split: sum.splits prod.splits)
  obtain p1 ops p2 c w1 where run: "mk (cw_pki w) = (p1, Inr ops)"
      "mint_leaf ops (io_type b) (io_cn b) (cli_sans b) (cli_ttl_seconds b) p1 = (p2, Inr c)"
      "write_issued ce pk12 b c (w\<lparr>cw_pki := p2\<rparr>) = (w1, Inr ())"
      "commit_certificate (issued_row (ce_env ce) b c operator_id tenant_id) w1 = (w', Inr r)"
    using assms unfolding certs_issue_def plan by (auto simp: andThen_eq on_pki_eq)
  have "cw_db w1 = cw_db w" "cw_pki w1 = p2" using write_issued_frame [OF run(3)] by auto
  then show ?thesis using plan run by (fastforce simp: commit_certificate_eq)
qed

section \<open>The revocation list\<close>

abbreviation cli_covers :: "('p \<Rightarrow> int set) \<Rightarrow> 'p cli_world \<Rightarrow> bool" where
  "cli_covers listed w \<equiv> crl_covers listed (cw_db w, cw_pki w)"

context pki_backend
begin

lemma renew_row_listed: "renew_row ce ops row outs w = (w', x) \<Longrightarrow> listed (cw_pki w) \<subseteq> listed (cw_pki w')"
  using mint_keepsD
  by (auto simp: renew_row_def raising_def andThen_eq on_pki_eq commit_certificate_eq split: option.splits dest!: write_leaf_frame
      dest: mint_keepsD [THEN subsetD])

lemma renew_row_covers:
  assumes "cli_covers listed w" and "renew_row ce ops row outs w = (w', x)"
  shows "cli_covers listed w'"
proof (rule crl_covers_mono [OF assms(1) renew_row_listed [OF assms(2)]])
  fix c assume c: "c \<in> set (certificates (cw_db w'))" "crt_revoked c"
  show "c \<in> set (certificates (cw_db w))"
  proof (cases x)
    case (Inl e)
    then show ?thesis using renew_row_Inl assms(2) c by metis
  next
    case (Inr r)
    then obtain paths l where "r = renewed_row (ce_env ce) row paths l" "insert_certificate r (cw_db w) = Inr (cw_db w')"
      using renew_row_Inr assms(2) by blast
    then have "certificates (cw_db w') = certificates (cw_db w) @ [r]" "\<not> crt_revoked r"
      by (cases paths; simp add: result_simps renewed_row_def new_certificate_def)+
    then show ?thesis using c by auto
  qed
qed

lemma renew_each_covers:
  "cli_covers listed w \<Longrightarrow> renew_each ce ops rs n k w = (w', x) \<Longrightarrow> cli_covers listed w'"
proof (induction rs arbitrary: n k w)
  case (Cons r rs)
  obtain w1 y where y: "renew_row (nth_env ce n) ops r no_flags w = (w1, y)" by fastforce
  then have "cli_covers listed w1" using renew_row_covers Cons.prems(1) by blast
  then show ?case using Cons.IH Cons.prems y by (cases y) (auto split: if_splits)
qed simp

lemma certs_issue_covers:
  assumes "cli_covers listed w" and "certs_issue ce (\<lambda>p. (p, Inr ops)) pk12 b w = (w', x)"
  shows "cli_covers listed w'"
proof (rule crl_covers_mono [OF assms(1)])
  show "listed (cw_pki w) \<subseteq> listed (cw_pki w')"
    using assms(2) by (auto simp: certs_issue_def andThen_eq on_pki_eq commit_certificate_eq split: sum.splits prod.splits
      dest!: write_issued_frame dest: mint_keepsD [THEN subsetD])
  fix c assume c: "c \<in> set (certificates (cw_db w'))" "crt_revoked c"
  show "c \<in> set (certificates (cw_db w))"
  proof (cases x)
    case (Inl e)
    then show ?thesis using certs_issue_Inl assms(2) c by metis
  next
    case (Inr r)
    then have "certificates (cw_db w') = certificates (cw_db w) @ [r]" "\<not> crt_revoked r"
      using certs_issue_Inr [OF assms(2) [unfolded Inr]] by (auto simp: result_simps issued_row_def new_certificate_def)
    then show ?thesis using c by auto
  qed
qed

lemma certs_revoke_covers:
  assumes "cli_covers listed w" and "certs_revoke ce (\<lambda>p. (p, Inr ops)) serial w = (w', x)"
  shows "cli_covers listed w'"
proof -
  consider (same) "cw_db w' = cw_db w" "listed (cw_pki w) \<subseteq> listed (cw_pki w')"
    | (revoked) row where "crt_serial row = str_of_int serial" "revoke_serial ops serial (cw_pki w) = (cw_pki w', Inr ())"
      "certificates (cw_db w') = put_row crt_id (row\<lparr>crt_revoked := True, crt_revoked_at := Some (now (ce_env ce))\<rparr>) (certificates (cw_db w))"
    using assms(2) revoke_keeps
    by (auto simp: certs_revoke_def andThen_eq on_pki_eq split: option.splits dest!: find_SomeD) (metis fst_conv subsetD)
  then show ?thesis
  proof cases
    case same
    then show ?thesis using assms(1) by (auto intro: crl_covers_mono)
  next
    case revoked
    have "serial \<in> listed (cw_pki w')" "listed (cw_pki w) \<subseteq> listed (cw_pki w')"
      using revoke_lists [OF revoked(2)] revoke_keeps [of "cw_pki w" serial] revoked(2) by auto
    then show ?thesis
      using assms(1) revoked(1) by (fastforce simp: crl_covers_def revoked(3) in_put_row py_int_str_of_int)
  qed
qed

lemma certs_renew_covers:
  assumes "cli_covers listed w" and "certs_renew ce (\<lambda>p. (p, Inr ops)) o' w = (w', x)"
  shows "cli_covers listed w'"
proof -
  have one: "cli_covers listed w'" if "renew_one ce bk i outs w = (w', x)" "bk = None \<or> bk = Some ops" for bk i outs
  proof -
    from that have "w' = w \<or> (\<exists>row y. renew_row ce ops row outs w = (w', y))"
      by (auto simp: renew_one_def split: option.splits if_splits prod.splits sum.splits)
    then show ?thesis using assms(1) renew_row_covers by blast
  qed
  have due: "cli_covers listed w'" if "renew_due ce bk pct w = (w', x)" "bk = None \<or> bk = Some ops" for bk pct
  proof -
    from that have "w' = w \<or> (\<exists>rs y. renew_each ce ops rs 0 0 w = (w', y))"
      by (auto simp: renew_due_def Let_def andThen_eq returning_def split: option.splits if_splits prod.splits)
    then show ?thesis using assms(1) renew_each_covers by blast
  qed
  from assms(2) show ?thesis
    unfolding certs_renew_def andThen_def on_pki_def returning_def raising_def
    using assms(1) by (auto split: if_splits option.splits intro: one due)
qed

end


text \<open>
  A command builds its backend first. Building it may change the state of the backend as long as it keeps
  the revocation list.
\<close>

context pki_backend
begin

lemma rebuilt_covers:
  assumes "cli_covers listed w" and "listed (cw_pki w) \<subseteq> listed p"
  shows "cli_covers listed (w\<lparr>cw_pki := p\<rparr>)"
  using crl_covers_mono [OF assms(1,2), of "cw_db w"] by simp

lemma issue_on_built:
  assumes "cli_covers listed w" and "certs_issue ce mk pk12 b w = (w', x)" and "mk (cw_pki w) = (p, r)"
    and "listed (cw_pki w) \<subseteq> listed p" and "r = Inr ops \<or> isl r"
  shows "cli_covers listed w'"
proof (cases "cli_issue_plan b (cw_db w)")
  case (Inl y)
  then show ?thesis using assms(1,2) by (simp add: certs_issue_def)
next
  case (Inr y)
  have w': "w' = w\<lparr>cw_pki := p\<rparr>" if "isl r"
    using that assms(2,3) Inr by (cases r; cases y) (auto simp: certs_issue_def andThen_def on_pki_def)
  have "certs_issue ce (\<lambda>p. (p, Inr ops)) pk12 b (w\<lparr>cw_pki := p\<rparr>) = (w', x)" if "r = Inr ops"
    using that assms(2,3) Inr by (cases y) (simp add: certs_issue_def andThen_def on_pki_def)
  then show ?thesis
    using w' certs_issue_covers [OF rebuilt_covers [OF assms(1,4)]] rebuilt_covers [OF assms(1,4)] assms(5) by metis
qed

lemma revoke_on_built:
  assumes "cli_covers listed w" and "certs_revoke ce mk serial w = (w', x)" and "mk (cw_pki w) = (p, r)"
    and "listed (cw_pki w) \<subseteq> listed p" and "r = Inr ops \<or> isl r"
  shows "cli_covers listed w'"
proof (cases "find (\<lambda>c. crt_serial c = str_of_int serial) (certificates (cw_db w))")
  case None
  then show ?thesis using assms(1,2) by (simp add: certs_revoke_def)
next
  case (Some row)
  have w': "w' = w\<lparr>cw_pki := p\<rparr>" if "isl r"
    using that assms(2,3) Some by (cases r) (auto simp: certs_revoke_def andThen_def on_pki_def)
  have "certs_revoke ce (\<lambda>p. (p, Inr ops)) serial (w\<lparr>cw_pki := p\<rparr>) = (w', x)" if "r = Inr ops"
    using that assms(2,3) Some by (simp add: certs_revoke_def andThen_def on_pki_def)
  then show ?thesis
    using w' certs_revoke_covers [OF rebuilt_covers [OF assms(1,4)]] rebuilt_covers [OF assms(1,4)] assms(5) by metis
qed

lemma renew_on_built:
  assumes "cli_covers listed w" and "certs_renew ce mk o' w = (w', x)" and "mk (cw_pki w) = (p, r)"
    and "listed (cw_pki w) \<subseteq> listed p" and "r = Inr ops \<or> isl r"
  shows "cli_covers listed w'"
proof (cases "((ro_id o' = None \<and> \<not> ro_due o') \<or> (ro_id o' \<noteq> None \<and> ro_due o')) \<or> ro_dry_run o'")
  case True
  then have "certs_renew ce (\<lambda>p. (p, Inr ops)) o' w = (w', x)" using assms(2) by (auto simp: certs_renew_def)
  then show ?thesis by (rule certs_renew_covers [OF assms(1)])
next
  case False
  have w': "w' = w\<lparr>cw_pki := p\<rparr>" if "isl r"
    using that assms(2,3) False by (cases r) (auto simp: certs_renew_def andThen_def on_pki_def split: if_splits)
  have "certs_renew ce (\<lambda>p. (p, Inr ops)) o' (w\<lparr>cw_pki := p\<rparr>) = (w', x)" if "r = Inr ops"
    using that assms(2,3) False by (auto simp: certs_renew_def andThen_def on_pki_def returning_def split: if_splits)
  then show ?thesis
    using w' certs_renew_covers [OF rebuilt_covers [OF assms(1,4)]] rebuilt_covers [OF assms(1,4)] assms(5) by metis
qed

end

text \<open>
  What the registry relies on of Vault: \<^verbatim>\<open>crl s m\<close> are the serials, as Vault writes them, on the
  revocation list of the mount \<^verbatim>\<open>m\<close>. A revocation that answers puts its serial there, and reading, issuing
  and revoking take none off.
\<close>

locale vault_revocations =
  fixes v :: "'v vault" and crl :: "'v \<Rightarrow> string \<Rightarrow> string set"
  assumes get_keeps: "crl s m \<subseteq> crl (fst (v_get v path s)) m"
    and issue_keeps: "crl s m \<subseteq> crl (fst (v_issue v role cn ex mount s)) m"
    and vault_revoke_keeps: "crl s m \<subseteq> crl (fst (v_revoke v n mount s)) m"
    and vault_revoke_lists: "v_revoke v n mount s = (s', Inr ()) \<Longrightarrow> n \<in> crl s' mount"
begin

definition vault_listed :: "string \<Rightarrow> 'v \<Rightarrow> int set" where
  "vault_listed m s = {n. n < 0 \<or> (\<exists>h \<in> crl s m. hex_colon_to_int h = Inr n)}"

lemma vault_listed_mono: "crl s m \<subseteq> crl s' m \<Longrightarrow> vault_listed m s \<subseteq> vault_listed m s'"
  by (auto simp: vault_listed_def)

lemma handling_raised: "fst (handling h (as_pki_error msg) s) = fst (h s)"
  by (auto simp: handling_def as_pki_error_def raising_def split: prod.splits sum.splits)

lemma vault_issue_keeps: "crl s m \<subseteq> crl (fst (vault_issue v p role cn sans ttl s)) m"
proof -
  let ?call = "handling (v_issue v role cn (issue_params sans ttl) (vp_int_mount p))
     (as_pki_error (''vault refused to issue ('' @ role @ '', cn='' @ py_repr cn @ '')''))"
  have "fst (vault_issue v p role cn sans ttl s) = fst (?call s)"
    by (simp add: vault_issue_def andThen_def split: prod.splits sum.splits)
  then show ?thesis using issue_keeps by (simp add: handling_raised)
qed

lemma vault_is_backend: "pki_backend (vault_ops v p) (vault_listed (vp_int_mount p))"
proof
  fix cn sans ttl s n s'
  show "vault_listed (vp_int_mount p) s \<subseteq> vault_listed (vp_int_mount p) (fst (issue_server_cert (vault_ops v p) cn sans ttl s))"
    "vault_listed (vp_int_mount p) s \<subseteq> vault_listed (vp_int_mount p) (fst (issue_client_cert (vault_ops v p) cn sans ttl s))"
    using vault_listed_mono [OF vault_issue_keeps] by (simp_all add: vault_ops_def)
  show "vault_listed (vp_int_mount p) s \<subseteq> vault_listed (vp_int_mount p) (fst (revoke_serial (vault_ops v p) n s))"
    using vault_listed_mono [OF vault_revoke_keeps] by (simp add: vault_ops_def vault_revoke_cert_def handling_raised)
  assume "revoke_serial (vault_ops v p) n s = (s', Inr ())"
  then have "v_revoke v (int_to_hex_colon n) (vp_int_mount p) s = (s', Inr ())"
    by (auto simp: vault_ops_def vault_revoke_cert_def handling_def as_pki_error_def raising_def split: prod.splits sum.splits)
  from vault_revoke_lists [OF this] show "n \<in> vault_listed (vp_int_mount p) s'"
    using serial_to_vault [of n] by (cases "n < 0") (auto simp: vault_listed_def not_less)
qed

sublocale backend: pki_backend "vault_ops v p" "vault_listed (vp_int_mount p)" for p
  by (rule vault_is_backend)

lemma read_chain_keeps: "crl s m \<subseteq> crl (fst (read_int_ca_chain v mount s)) m"
proof -
  have "fst (read_int_ca_chain v mount s) = fst (v_get v (''/v1/'' @ mount @ ''/ca_chain'') s)"
    by (auto simp: read_int_ca_chain_def andThen_def handling_def tolerate_def raising_def returning_def split: prod.splits sum.splits)
  then show ?thesis using get_keeps by simp
qed

end

text \<open>
  \<^verbatim>\<open>make_pki_backend\<close> in a new process, whose cache of local backends is empty: the operations of the Vault
  backend it returns. With the local backend selected the process gets a hierarchy of its own instead, which
  no other process sees; then nothing here is shared, and the step relation below does not admit those settings.
\<close>

definition process_backend :: "x509 \<Rightarrow> 'v vault \<Rightarrow> pki_settings \<Rightarrow> ('v, 'v pki_ops) handler" where
  "process_backend x v st s =
     (case make_pki_backend x v st \<lparr>pw_cache = Map.empty, pw_vault = s\<rparr> of
        (w, Inr (Vault_Backend p)) \<Rightarrow> (pw_vault w, Inr (vault_ops v p))
      | (w, Inr (Local_Backend _)) \<Rightarrow> (pw_vault w, Inl (RuntimeError ''backend is not shared''))
      | (w, Inl e) \<Rightarrow> (pw_vault w, Inl e))"

text \<open>
  Requests to the certificate endpoints and certificate commands, in any order, each with its own clock, keys
  and files, over one database and one Vault. The processes agree on the backend and the intermediate mount,
  not on the rest of their settings.
\<close>

inductive registry_step :: "'v vault \<Rightarrow> string \<Rightarrow> 'v cli_world \<Rightarrow> 'v cli_world \<Rightarrow> bool" for v :: "'v vault" and m where
  request: "cert_step (\<lambda>p. vault_ops v (p\<lparr>vp_int_mount := m\<rparr>)) (cw_db w, cw_pki w) (s, p) \<Longrightarrow>
     registry_step v m w (w\<lparr>cw_db := s, cw_pki := p\<rparr>)"
| issue: "lower (ps_backend st) = ''vault'' \<Longrightarrow> ps_int_mount st = m \<Longrightarrow>
     certs_issue ce (process_backend x v st) pk12 b w = (w', r1) \<Longrightarrow> registry_step v m w w'"
| revoke: "lower (ps_backend st) = ''vault'' \<Longrightarrow> ps_int_mount st = m \<Longrightarrow>
     certs_revoke ce (process_backend x v st) serial w = (w', r2) \<Longrightarrow> registry_step v m w w'"
| renew: "lower (ps_backend st) = ''vault'' \<Longrightarrow> ps_int_mount st = m \<Longrightarrow>
     certs_renew ce (process_backend x v st) o' w = (w', r3) \<Longrightarrow> registry_step v m w w'"

context vault_revocations
begin

lemma process_backend_run:
  assumes "process_backend x v st s = (s', r)" and "lower (ps_backend st) = ''vault''" and "ps_int_mount st = m"
  shows "\<exists>p. vp_int_mount p = m \<and> (r = Inr (vault_ops v p) \<or> isl r)" and "vault_listed m s \<subseteq> vault_listed m s'"
proof -
  have "s' = s \<or> s' = fst (read_int_ca_chain v (ps_int_mount st) s)"
    using assms(1,2) by (auto simp: process_backend_def make_pki_backend_def split: if_splits prod.splits sum.splits)
  then show "vault_listed m s \<subseteq> vault_listed m s'" using vault_listed_mono [OF read_chain_keeps] by auto
  show "\<exists>p. vp_int_mount p = m \<and> (r = Inr (vault_ops v p) \<or> isl r)"
  proof (cases r)
    case (Inl e)
    then show ?thesis by (intro exI [of _ "undefined\<lparr>vp_int_mount := m\<rparr>"]) simp
  next
    case (Inr ops)
    then obtain chain where "ops = vault_ops v \<lparr>vp_root_mount = ps_root_mount st, vp_int_mount = m,
        vp_server_role = ps_server_role st, vp_client_role = ps_client_role st, vp_ca_bundle_pem = chain\<rparr>" (is "_ = vault_ops v ?p")
      using assms by (auto simp: process_backend_def make_pki_backend_def split: if_splits prod.splits sum.splits)
    then show ?thesis using Inr by (intro exI [of _ ?p]) simp
  qed
qed

lemma registry_step_covers:
  assumes "registry_step v m w w'" and "cli_covers (vault_listed m) w"
  shows "cli_covers (vault_listed m) w'"
proof -
  have built: "\<exists>p s r. vp_int_mount p = m \<and> process_backend x v st (cw_pki w) = (s, r) \<and>
      vault_listed m (cw_pki w) \<subseteq> vault_listed m s \<and> (r = Inr (vault_ops v p) \<or> isl r)"
    if st: "lower (ps_backend st) = ''vault''" "ps_int_mount st = m" for x st
  proof -
    obtain s r where run: "process_backend x v st (cw_pki w) = (s, r)" by fastforce
    show ?thesis using process_backend_run [OF run st] run by blast
  qed
  have backend: "pki_backend (vault_ops v p) (vault_listed m)" if "vp_int_mount p = m" for p
    using vault_is_backend [of p] that by simp
  from assms(1) show ?thesis
  proof cases
    case (request s p)
    have b: "pki_backend (vault_ops v (q\<lparr>vp_int_mount := m\<rparr>)) (vault_listed m)" for q by (rule backend) simp
    have "crl_covers (vault_listed m) (s, p)" using request(2)
    proof cases
      case (issued k pk12 e rs b)
      show ?thesis unfolding issued by (rule pki_backend.issue_covers [OF b assms(2)])
    next
      case (renewed k pk12 e rs i)
      show ?thesis unfolding renewed by (rule pki_backend.renew_covers [OF b assms(2)])
    next
      case (revoked k e rs i)
      show ?thesis unfolding revoked by (rule pki_backend.revoke_covers [OF b assms(2)])
    qed
    then show ?thesis using request(1) by simp
  next
    case (issue st ce x pk12 b r1)
    then show ?thesis using built [of st x] backend pki_backend.issue_on_built [OF _ assms(2) issue(3)] by blast
  next
    case (revoke st ce x serial r2)
    then show ?thesis using built [of st x] backend pki_backend.revoke_on_built [OF _ assms(2) revoke(3)] by blast
  next
    case (renew st ce x o' r3)
    then show ?thesis using built [of st x] backend pki_backend.renew_on_built [OF _ assms(2) renew(3)] by blast
  qed
qed

lemma registry_steps_cover:
  "(registry_step v m)\<^sup>*\<^sup>* w w' \<Longrightarrow> cli_covers (vault_listed m) w \<Longrightarrow> cli_covers (vault_listed m) w'"
  by (induction rule: rtranclp_induct) (auto intro: registry_step_covers)

lemma covers_iff:
  "cli_covers (vault_listed m) w \<longleftrightarrow> (\<forall>c \<in> set (certificates (cw_db w)). crt_revoked c \<longrightarrow>
     (\<exists>n. py_int (crt_serial c) = Inr n \<and> (0 \<le> n \<longrightarrow> (\<exists>h \<in> crl (cw_pki w) m. hex_colon_to_int h = Inr n))))"
  by (force simp: crl_covers_def vault_listed_def not_less)

end

text \<open>
  C22: with the Vault backend, whose state all processes share (\<^verbatim>\<open>vault_revocations\<close>: an answered revocation puts
  the serial on the list of its mount, and no call takes one off), over any sequence of API requests and
  commands of separate processes that issue, renew and revoke certificates on one intermediate mount, every row
  marked revoked has its (non-negative) serial on the revocation list of that mount: the registry never claims a
  revocation that Vault has not recorded. It does not hold with the local backend
  (\<^verbatim>\<open>local_revocation_stays_in_process\<close>).
\<close>

theorem revoked_rows_are_on_crl:
  assumes "vault_revocations v crl" and "(registry_step v m)\<^sup>*\<^sup>* w w'"
    and "\<forall>c \<in> set (certificates (cw_db w)). \<not> crt_revoked c"
  shows "\<forall>c \<in> set (certificates (cw_db w')). crt_revoked c \<longrightarrow>
     (\<exists>n. py_int (crt_serial c) = Inr n \<and> (0 \<le> n \<longrightarrow> (\<exists>h \<in> crl (cw_pki w') m. hex_colon_to_int h = Inr n)))"
proof -
  have "cli_covers (vault_revocations.vault_listed crl m) w"
    using assms(3) by (simp add: vault_revocations.covers_iff [OF assms(1)])
  from vault_revocations.registry_steps_cover [OF assms(1,2) this]
  show ?thesis by (simp only: vault_revocations.covers_iff [OF assms(1)])
qed

text \<open>
  after \<^verbatim>\<open>certs revoke\<close> has succeeded, no request that presents the certificate reaches the
  application and \<^verbatim>\<open>certs renew\<close> refuses the row; the command writes no audit event.
\<close>

theorem cli_revocation_is_refused:
  assumes "certs_revoke ce mk serial w = (w', Inr ())"
    and "distinct (map crt_id (certificates (cw_db w)))" and "distinct (map crt_serial (certificates (cw_db w)))"
  shows "\<exists>row. row \<in> set (certificates (cw_db w')) \<and> crt_serial row = str_of_int serial \<and> crt_revoked row \<and>
     (presents settings ae scope (str_of_int serial) \<longrightarrow>
        certificates (au_interleave ae (cw_db w')) = certificates (cw_db w') \<longrightarrow>
        dispatch settings ae scope (cw_db w') \<noteq> Inr (t, lines, Forward frs)) \<and>
     (\<exists>m. renew_one ce' bk (crt_id row) outs w' = (w', Inl (CliExit 1 m))) \<and>
     audit_events (cw_db w') = audit_events (cw_db w)"
proof -
  obtain row where row: "find (\<lambda>c. crt_serial c = str_of_int serial) (certificates (cw_db w)) = Some row"
    using assms(1) by (auto simp: certs_revoke_def split: option.splits)
  have r: "row \<in> set (certificates (cw_db w))" "crt_serial row = str_of_int serial" using find_SomeD [OF row] by auto
  let ?row = "row\<lparr>crt_revoked := True, crt_revoked_at := Some (now (ce_env ce))\<rparr>"
  have db: "cw_db w' = (cw_db w)\<lparr>certificates := put_row crt_id ?row (certificates (cw_db w))\<rparr>"
    using assms(1) row by (auto simp: certs_revoke_def andThen_eq on_pki_eq)
  have "distinct (map crt_serial (certificates (cw_db w')))"
    using map_put_row [OF assms(2) r(1), of ?row crt_serial] assms(3) db by simp
  moreover have "?row \<in> set (certificates (cw_db w'))" using db r(1) by (simp add: in_put_row)
  ultimately have "presents settings ae scope (str_of_int serial) \<longrightarrow> certificates (au_interleave ae (cw_db w')) = certificates (cw_db w') \<longrightarrow>
      dispatch settings ae scope (cw_db w') \<noteq> Inr (t, lines, Forward frs)"
    using revoked_not_forwarded [of settings ae scope ?row "cw_db w'"] r(2) by simp
  moreover have "get_row crt_id (certificates (cw_db w')) (crt_id row) = Some ?row" using db r(1) by (simp add: get_put_row)
  then have "\<exists>m. renew_one ce' bk (crt_id row) outs w' = (w', Inl (CliExit 1 m))" by (simp add: renew_one_def cli_error_def)
  ultimately show ?thesis using db r by (intro exI [of _ ?row]) (simp add: in_put_row)
qed


section \<open>Which rows are renewed\<close>

text \<open>
  The rows \<^verbatim>\<open>renew --due\<close> is about, said of the table: not revoked, not replaced by a later live row with
  the same certificate file, and past the given share of the validity window (or with no window at all),
  as floating point numbers.
\<close>

definition window_used :: "(rat \<Rightarrow> rat) \<Rightarrow> int \<Rightarrow> certificate \<Rightarrow> rat" where
  "window_used fl t r =
     fl (fl (fl (of_int (t - crt_not_before r) / 1000000) / fl (of_int (crt_not_after r - crt_not_before r) / 1000000)) * 100)"

definition due_for_renewal :: "cli_env \<Rightarrow> rat \<Rightarrow> certificate list \<Rightarrow> certificate \<Rightarrow> bool" where
  "due_for_renewal ce pct rows r \<longleftrightarrow> \<not> crt_revoked r \<and>
     \<not> (\<exists>r' \<in> set rows. \<not> crt_revoked r' \<and> crt_id r < crt_id r' \<and>
          crt_out_cert_path r' = crt_out_cert_path r \<and> crt_out_cert_path r \<noteq> None \<and> crt_out_cert_path r \<noteq> Some []) \<and>
     (ce_float ce (of_int (crt_not_after r - crt_not_before r) / 1000000) \<le> 0 \<or>
      pct \<le> window_used (ce_float ce) (now (ce_env ce)) r)"

definition stored_paths :: "certificate \<Rightarrow> bool" where
  "stored_paths r \<longleftrightarrow> (\<forall>p \<in> {crt_out_cert_path r, crt_out_key_path r, crt_out_chain_path r}. p \<noteq> None \<and> p \<noteq> Some [])"

lemma renew_paths_stored: "renew_paths r no_flags \<noteq> None \<longleftrightarrow> stored_paths r"
  by (auto simp: renew_paths_def out_path_def stored_paths_def split: option.splits)

lemma row_is_due_iff:
  "row_is_due fl r pct t \<longleftrightarrow>
     fl (of_int (crt_not_after r - crt_not_before r) / 1000000) \<le> 0 \<or> pct \<le> window_used fl t r"
  by (auto simp: row_is_due_def total_seconds_def window_used_def Let_def)

lemma due_rows_eq:
  assumes "\<forall>r \<in> set (certificates s). 0 \<le> crt_id r"
  shows "due_rows ce pct s = filter (due_for_renewal ce pct (certificates s)) (certificates s)"
proof -
  let ?live = "live_rows s"
  have pos: "\<forall>r \<in> set ?live. 0 \<le> crt_id r" using assms by (simp add: live_rows_def)
  have "(case leaf_path r of None \<Rightarrow> True | Some p \<Rightarrow> newest_by_path ?live p = Some (crt_id r)) \<longleftrightarrow>
      (\<forall>p. leaf_path r = Some p \<longrightarrow> (\<forall>r' \<in> set ?live. leaf_path r' = Some p \<longrightarrow> crt_id r' \<le> crt_id r))"
    if "r \<in> set ?live" for r
    using in_drop_superseded [OF pos, of r] that by (auto simp: drop_superseded_def)
  moreover have "(\<forall>p. leaf_path r = Some p \<longrightarrow> (\<forall>r' \<in> set ?live. leaf_path r' = Some p \<longrightarrow> crt_id r' \<le> crt_id r)) \<longleftrightarrow>
      \<not> (\<exists>r' \<in> set (certificates s). \<not> crt_revoked r' \<and> crt_id r < crt_id r' \<and>
          crt_out_cert_path r' = crt_out_cert_path r \<and> crt_out_cert_path r \<noteq> None \<and> crt_out_cert_path r \<noteq> Some [])" for r
    by (auto simp: live_rows_def leaf_path_def split: option.splits if_splits)
  ultimately have "drop_superseded ?live = filter (\<lambda>r. \<not> (\<exists>r' \<in> set (certificates s). \<not> crt_revoked r' \<and> crt_id r < crt_id r' \<and>
      crt_out_cert_path r' = crt_out_cert_path r \<and> crt_out_cert_path r \<noteq> None \<and> crt_out_cert_path r \<noteq> Some [])) ?live"
    unfolding drop_superseded_def by (intro filter_cong) simp_all
  then show ?thesis
    unfolding due_rows_def row_is_due_iff by (simp add: live_rows_def) (rule filter_cong, auto simp: due_for_renewal_def)
qed

text \<open>
  C27: a run of \<^verbatim>\<open>certs renew --due\<close> (keys are not negative) that skips as many rows as are due without three
  stored paths keeps every row and adds, in order, one row for each row that is not revoked, is not superseded by a
  live row with a larger key and the same certificate file, has used up the given percentage of its validity window
  (in floating point, or has an empty window), and has three stored paths. The new row has the type,
  name, operator and paths of the old one, and its alternative names when none of them is empty; it is not revoked and
  has no tenant. The backend issues leaves with the names it is asked for.
\<close>

theorem renew_due_renews_due_rows:
  fixes w :: "'p cli_world"
  defines "rows \<equiv> certificates (cw_db w)"
  assumes "certs_renew ce mk o' w = (w', Inr (Summary n k m))" and "ro_id o' = None"
    and "\<forall>r \<in> set rows. 0 \<le> crt_id r"
    and "k = length (filter (\<lambda>r. due_for_renewal ce (ro_threshold_pct o') rows r \<and> \<not> stored_paths r) rows)"
    and "mk (cw_pki w) = (p, Inr ops)" and "pki_issuer ops"
  shows "\<exists>news. cw_db w' = (cw_db w)\<lparr>certificates := rows @ news\<rparr> \<and> n = length news \<and>
     list_all2 (\<lambda>old new. crt_type new = crt_type old \<and> crt_common_name new = crt_common_name old \<and>
         crt_operator_id new = crt_operator_id old \<and> \<not> crt_revoked new \<and> crt_tenant new = None \<and>
         ([] \<notin> set (split_on CHR '','' (crt_sans old)) \<longrightarrow> crt_sans new = crt_sans old) \<and>
         crt_out_cert_path new = map_option posix_path (crt_out_cert_path old) \<and>
         crt_out_key_path new = map_option posix_path (crt_out_key_path old) \<and>
         crt_out_chain_path new = map_option posix_path (crt_out_chain_path old))
       (filter (\<lambda>r. due_for_renewal ce (ro_threshold_pct o') rows r \<and> stored_paths r) rows) news"
proof -
  let ?due = "due_rows ce (ro_threshold_pct o') (cw_db w)"
  have due: "?due = filter (due_for_renewal ce (ro_threshold_pct o') rows) rows"
    using due_rows_eq assms(4) by (simp add: rows_def)
  have skipped: "pathless ?due = k"
    using renew_paths_stored unfolding due assms(5) filter_filter by (metis (no_types, lifting))
  have sel: "filter (\<lambda>r. renew_paths r no_flags \<noteq> None) ?due = filter (\<lambda>r. due_for_renewal ce (ro_threshold_pct o') rows r \<and> stored_paths r) rows"
    unfolding due filter_filter renew_paths_stored ..
  have "renew_each ce ops ?due 0 0 (w\<lparr>cw_pki := p\<rparr>) = (w', Inr (n, k))" using renew_due_run [OF assms(2,3)] assms(6) by auto
  from renew_each_renews [OF this] obtain news where news: "cw_db w' = (cw_db w)\<lparr>certificates := rows @ news\<rparr>" "n = length news"
    "list_all2 (renewal_of ce ops) (filter (\<lambda>r. renew_paths r no_flags \<noteq> None) ?due) news"
    using skipped by (auto simp: rows_def)
  show ?thesis
  proof (intro exI conjI, rule news(1), rule news(2), rule list_all2_mono [OF news(3) [unfolded sel]])
    fix old new assume "renewal_of ce ops old new"
    then obtain a b d c i where r: "renew_paths old no_flags = Some (a, b, d)" "minted_for ops old c"
      "new = renewed_row ((ce_env ce)\<lparr>new_id := i\<rparr>) old (a, b, d) c" by (auto simp: renewal_of_def)
    have id: "cert_common_name c = crt_common_name old" "cert_sans c = filter (\<lambda>x. x \<noteq> []) (split_on CHR '','' (crt_sans old))"
      using pki_issuer.mint_identity [OF assms(7)] r(2) by (auto simp: minted_for_def)
    have paths: "crt_out_cert_path old = Some x \<Longrightarrow> a = posix_path x" "crt_out_key_path old = Some x \<Longrightarrow> b = posix_path x"
      "crt_out_chain_path old = Some x \<Longrightarrow> d = posix_path x" "crt_out_cert_path old \<noteq> None" "crt_out_key_path old \<noteq> None"
      "crt_out_chain_path old \<noteq> None" for x
      using r(1) by (auto simp: renew_paths_def out_path_def split: option.splits if_splits)
    show "crt_type new = crt_type old \<and> crt_common_name new = crt_common_name old \<and>
         crt_operator_id new = crt_operator_id old \<and> \<not> crt_revoked new \<and> crt_tenant new = None \<and>
         ([] \<notin> set (split_on CHR '','' (crt_sans old)) \<longrightarrow> crt_sans new = crt_sans old) \<and>
         crt_out_cert_path new = map_option posix_path (crt_out_cert_path old) \<and>
         crt_out_key_path new = map_option posix_path (crt_out_key_path old) \<and>
         crt_out_chain_path new = map_option posix_path (crt_out_chain_path old)"
      using id paths sans_text_roundtrip [of "crt_sans old"]
      by (auto simp: r(3) renewed_row_def new_certificate_def)
  qed
qed

text \<open>
  \<^verbatim>\<open>certs issue\<close> (for the types written as PEM files) records a row only for files that are there. On
  success the three paths hold the leaf, its key (mode 0600) and the chain, the row names those paths and
  the serial of the leaf, and it belongs to the registered operator the profile asks for; on failure
  the database is as it was.
\<close>

theorem certs_issue_records_written_leaf:
  assumes "certs_issue ce mk pk12 b w = (w', r)" and "io_type b \<noteq> Dashboard"
    and "io_out_cert b = Some a" and "io_out_key b = Some k" and "io_out_chain b = Some h"
    and "distinct [posix_path a, posix_path k, posix_path h]"
  shows "case r of
      Inl x \<Rightarrow> cw_db w' = cw_db w
    | Inr row \<Rightarrow> cw_db w' = (cw_db w)\<lparr>certificates := certificates (cw_db w) @ [row]\<rparr> \<and>
        (\<exists>c :: cert. crt_serial row = str_of_int (cert_serial c) \<and> crt_sans row = join_with '','' (cert_sans c) \<and>
          cw_files w' (posix_path a) = Some (cert_pem c, 420) \<and> cw_files w' (posix_path k) = Some (cert_private_pem c, 384) \<and>
          cw_files w' (posix_path h) = Some (cert_chain_pem c, 420)) \<and>
        crt_out_cert_path row = Some (posix_path a) \<and> crt_out_key_path row = Some (posix_path k) \<and>
        crt_out_chain_path row = Some (posix_path h) \<and>
        (pf_requires_operator (CERT_PROFILES (io_type b)) \<longleftrightarrow> crt_operator_id row \<noteq> None) \<and>
        (\<forall>i. crt_operator_id row = Some i \<longrightarrow> i \<in> op_id ` set (operators (cw_db w))) \<and>
        (crt_tenant row \<noteq> None \<longrightarrow> \<not> pf_server_eku (CERT_PROFILES (io_type b)))"
proof (cases r)
  case (Inl x)
  then show ?thesis using certs_issue_Inl assms(1) by auto
next
  case (Inr row)
  obtain operator_id tenant_id c w1 where plan: "cli_issue_plan b (cw_db w) = Inr (operator_id, tenant_id)"
    and files: "write_issued ce pk12 b c (w\<lparr>cw_pki := cw_pki w'\<rparr>) = (w1, Inr ())" "cw_files w' = cw_files w1"
    and row: "row = issued_row (ce_env ce) b c operator_id tenant_id" and ins: "insert_certificate row (cw_db w) = Inr (cw_db w')"
    using certs_issue_Inr [OF assms(1) [unfolded Inr]] by metis
  have "write_leaf ce (posix_path a, posix_path k, posix_path h) c (w\<lparr>cw_pki := cw_pki w'\<rparr>) = (w1, Inr ())"
    using files(1) assms(2-5) by (simp add: write_issued_def)
  from write_leaf_Inr [OF this] have f: "cw_files w' = (cw_files w)(posix_path a \<mapsto> (cert_pem c, 420),
      posix_path k \<mapsto> (cert_private_pem c, 384), posix_path h \<mapsto> (cert_chain_pem c, 420))" using files(2) by simp
  have p: "cli_operator b (cw_db w) = Inr operator_id" "cli_tenant b (cw_db w) = Inr tenant_id"
    "io_tenant b = None \<or> \<not> pf_server_eku (CERT_PROFILES (io_type b))"
    using plan by (auto simp: cli_issue_plan_def result_simps)
  have o: "pf_requires_operator (CERT_PROFILES (io_type b)) \<longleftrightarrow> operator_id \<noteq> None"
    "operator_id = Some i \<Longrightarrow> i \<in> op_id ` set (operators (cw_db w))" for i
    using p(1) by (auto simp: cli_operator_def Let_def result_simps split: if_splits option.splits dest!: find_SomeD)
  have t: "tenant_id \<noteq> None \<Longrightarrow> \<not> pf_server_eku (CERT_PROFILES (io_type b))"
    using p(2,3) by (auto simp: cli_tenant_def split: option.splits)
  have fields: "crt_serial row = str_of_int (cert_serial c)" "crt_sans row = join_with '','' (cert_sans c)"
    "crt_out_cert_path row = Some (posix_path a)" "crt_out_key_path row = Some (posix_path k)"
    "crt_out_chain_path row = Some (posix_path h)" "crt_operator_id row = operator_id" "crt_tenant row = tenant_id"
    using row assms(3-5) by (simp_all add: issued_row_def new_certificate_def)
  have "cw_db w' = (cw_db w)\<lparr>certificates := certificates (cw_db w) @ [row]\<rparr>" using ins by (simp add: result_simps)
  moreover have "\<exists>c :: cert. crt_serial row = str_of_int (cert_serial c) \<and> crt_sans row = join_with '','' (cert_sans c) \<and>
      cw_files w' (posix_path a) = Some (cert_pem c, 420) \<and> cw_files w' (posix_path k) = Some (cert_private_pem c, 384) \<and>
      cw_files w' (posix_path h) = Some (cert_chain_pem c, 420)"
    using f fields(1,2) assms(6) by (intro exI [of _ c]) simp
  ultimately show ?thesis unfolding Inr sum.case using fields(3-7) o t by simp
qed

text \<open>
  A dashboard certificate is written as one archive, but its row takes the \<^verbatim>\<open>--out-cert\<close> paths too: it can name
  files that were never written, which \<^verbatim>\<open>renew --due\<close> then creates.
\<close>

definition stray_opts :: issue_opts where
  "stray_opts = \<lparr>io_type = Dashboard, io_cn = ''alice@wg.local'', io_sans = [], io_ttl_days = None, io_operator_cn = None,
     io_tenant = None, io_out_cert = Some ''/etc/wg/leaf.pem'', io_out_key = None, io_out_chain = None,
     io_out_pkcs12 = Some ''/tmp/alice.p12'', io_password = []\<rparr>"

definition cli_sample_env :: cli_env where
  "cli_sample_env = \<lparr>ce_env = sample_env, ce_writable = \<lambda>p. True, ce_float = id\<rparr>"

definition cli_sample_world :: "local_pki cli_world" where
  "cli_sample_world = \<lparr>cw_db = cert_db, cw_pki = dev_pki, cw_files = Map.empty\<rparr>"

theorem dashboard_row_names_unwritten_file:
  "case certs_issue cli_sample_env (\<lambda>p. (p, Inr dev_ops)) no_pkcs12 stray_opts cli_sample_world of
     (w', Inr row) \<Rightarrow> crt_out_cert_path row = Some ''/etc/wg/leaf.pem'' \<and> cw_files w' ''/etc/wg/leaf.pem'' = None
   | (w', Inl x) \<Rightarrow> False"
  by code_simp

section \<open>Witnesses\<close>

definition api_row :: certificate where
  "api_row = sample_cert_row\<lparr>crt_id := 4, crt_serial := ''43'', crt_type := Api, crt_operator_id := None,
     crt_out_cert_path := Some ''/etc/wg/api.pem'', crt_out_key_path := Some ''/etc/wg/api.key'',
     crt_out_chain_path := Some ''/etc/wg/chain.pem''\<rparr>"

definition half_env :: cli_env where
  "half_env = cli_sample_env\<lparr>ce_env := sample_env\<lparr>now := seconds 1800, new_id := 9\<rparr>\<rparr>"

definition half_pki :: "(local_pki, local_pki pki_ops) handler" where
  "half_pki p = (p, Inr (local_ops (sample_x509_lib\<lparr>x_now := seconds 1800\<rparr>)))"

definition half_world :: "local_pki cli_world" where
  "half_world = cli_sample_world\<lparr>cw_db := cert_db\<lparr>certificates := [sample_cert_row, api_row]\<rparr>\<rparr>"

definition due_opts :: renew_opts where
  "due_opts = \<lparr>ro_id = None, ro_due = True, ro_threshold_pct = 50, ro_dry_run = False, ro_outs = (None, None, None)\<rparr>"

lemma half_run: "snd (certs_renew half_env half_pki due_opts half_world) = Inr (Summary 1 1 2)"
  by code_simp

lemma half_pathless: "pathless (due_rows half_env (ro_threshold_pct due_opts) (cw_db half_world)) = 1"
  by code_simp

lemma half_rows:
  "certificates (cw_db (fst (certs_renew half_env half_pki due_opts half_world))) =
     [sample_cert_row, api_row, api_row\<lparr>crt_id := 9, crt_tenant := None, crt_serial := ''77'', crt_not_before := seconds 1740,
        crt_not_after := seconds 5400, crt_created_at := seconds 1800\<rparr>]"
  by code_simp

theorem renew_due_idempotent_witness:
  "\<exists>w1 w2 report. certs_renew half_env half_pki due_opts half_world = (w1, Inr (Summary 1 1 2)) \<and>
     certs_renew half_env half_pki due_opts w1 = (w2, Inr report) \<and> cw_db w2 = cw_db w1 \<and> cw_files w2 = cw_files w1"
proof -
  obtain w1 where run: "certs_renew half_env half_pki due_opts half_world = (w1, Inr (Summary 1 1 2))"
    using half_run by (metis prod.collapse)
  have rows: "set (certificates (cw_db w1)) - set (certificates (cw_db half_world)) \<subseteq>
      {api_row\<lparr>crt_id := 9, crt_tenant := None, crt_serial := ''77'', crt_not_before := seconds 1740,
        crt_not_after := seconds 5400, crt_created_at := seconds 1800\<rparr>}"
    using half_rows unfolding run by (auto simp: half_world_def)
  have "\<exists>report. certs_renew half_env half_pki due_opts w1 = (w1\<lparr>cw_pki := cw_pki w1\<rparr>, Inr report) \<and>
     (\<exists>skipped live. report = Nothing_Due live \<or> report = Summary 0 skipped live)"
  proof (rule renew_due_idempotent [OF run])
    show "\<forall>r \<in> set (certificates (cw_db half_world)). 0 \<le> crt_id r \<and> crt_id r < new_id (ce_env half_env)" by code_simp
    show "\<forall>r \<in> set (certificates (cw_db half_world)). \<forall>p. leaf_path r = Some p \<longrightarrow> posix_path p = p"
      by (auto simp: half_world_def sample_cert_row_def api_row_def leaf_path_def posix_path_def path_root_def path_parts_def)
    show "\<forall>r \<in> set (certificates (cw_db w1)) - set (certificates (cw_db half_world)).
        \<not> row_is_due (ce_float half_env) r (ro_threshold_pct due_opts) (now (ce_env half_env))"
      using rows by (auto simp: row_is_due_def half_env_def cli_sample_env_def due_opts_def total_seconds_def seconds_def)
    show "half_pki (cw_pki w1) = (cw_pki w1, Inr (local_ops (sample_x509_lib\<lparr>x_now := seconds 1800\<rparr>)))" by (simp add: half_pki_def)
  qed (use half_pathless in \<open>simp_all add: due_opts_def\<close>)
  then show ?thesis using run by auto
qed

theorem renew_due_renews_due_rows_witness:
  "\<exists>w' new. certs_renew half_env half_pki due_opts half_world = (w', Inr (Summary 1 1 2)) \<and>
     certificates (cw_db w') = [sample_cert_row, api_row, new] \<and> crt_common_name new = ''alice@wg.local'' \<and> crt_tenant new = None"
proof -
  obtain w' where run: "certs_renew half_env half_pki due_opts half_world = (w', Inr (Summary 1 1 2))"
    using half_run by (metis prod.collapse)
  have pos: "\<forall>r \<in> set (certificates (cw_db half_world)). 0 \<le> crt_id r" by code_simp
  have skip: "1 = length (filter (\<lambda>r. due_for_renewal half_env (ro_threshold_pct due_opts) (certificates (cw_db half_world)) r \<and>
      \<not> stored_paths r) (certificates (cw_db half_world)))" by code_simp
  have due: "filter (\<lambda>r. due_for_renewal half_env (ro_threshold_pct due_opts) (certificates (cw_db half_world)) r \<and>
      stored_paths r) (certificates (cw_db half_world)) = [api_row]" by code_simp
  have ops: "half_pki (cw_pki half_world) = (cw_pki half_world, Inr (local_ops (sample_x509_lib\<lparr>x_now := seconds 1800\<rparr>)))"
    by (simp add: half_pki_def)
  have "ro_id due_opts = None" by (simp add: due_opts_def)
  from renew_due_renews_due_rows [OF run this pos skip ops local_backend.pki_issuer_axioms]
  obtain new where new: "cw_db w' = (cw_db half_world)\<lparr>certificates := certificates (cw_db half_world) @ [new]\<rparr>"
    "crt_common_name new = crt_common_name api_row" "crt_tenant new = None"
    unfolding due list_all2_Cons1 list_all2_Nil by blast
  then have "certificates (cw_db w') = [sample_cert_row, api_row, new]" by (simp add: half_world_def)
  moreover have "crt_common_name new = ''alice@wg.local''" using new(2) by (simp add: api_row_def sample_cert_row_def)
  ultimately show ?thesis using run new(3) by blast
qed

text \<open>A Vault that keeps a revocation list per mount, and a process that uses it.\<close>

definition crl_vault :: "(string \<times> string) list vault" where
  "crl_vault = \<lparr>v_enable_pki = \<lambda>m l. returning (), v_tune_mount = \<lambda>m l. returning (), v_generate_root = \<lambda>m. returning (),
      v_generate_intermediate = \<lambda>m. returning ''csr'', v_sign_intermediate = \<lambda>m csr. returning ''pem'',
      v_set_signed = \<lambda>m c. returning (), v_role = \<lambda>m r q. returning (),
      v_issue = \<lambda>r cn ex m. returning \<lparr>vi_certificate = ''pem'', vi_private_key = ''key'', vi_serial_number = ''0a:1b'',
        vi_ca_chain = No_Chain, vi_issuing_ca = Some ''ca''\<rparr>,
      v_revoke = \<lambda>n m s. ((m, n) # s, Inr ()), v_get = \<lambda>path. returning (Some ''BEGIN CERTIFICATE''), v_validity = \<lambda>pem. Inr (0, 10)\<rparr>"

interpretation crl_vault: vault_revocations crl_vault "\<lambda>s m. {n. (m, n) \<in> set s}"
  by unfold_locales (auto simp: crl_vault_def returning_def)

definition vault_process :: pki_settings where
  "vault_process = \<lparr>ps_backend = ''vault'', ps_pinned = (None, None, None, None), ps_vault_token = Some ''t'', ps_root_mount = ''pki'',
     ps_int_mount = ''pki_int'', ps_server_role = ''server'', ps_client_role = ''client''\<rparr>"

definition vault_world :: "(string \<times> string) list cli_world" where
  "vault_world = \<lparr>cw_db = cw_db half_world, cw_pki = [], cw_files = Map.empty\<rparr>"

theorem revoked_rows_are_on_crl_witness:
  "\<exists>c \<in> set (certificates (cw_db (fst (certs_revoke half_env (process_backend sample_x509_lib crl_vault vault_process) 43 vault_world)))).
     crt_revoked c \<and> (\<exists>n. py_int (crt_serial c) = Inr n \<and> (0 \<le> n \<longrightarrow> (\<exists>h \<in> {h. (''pki_int'', h) \<in>
       set (cw_pki (fst (certs_revoke half_env (process_backend sample_x509_lib crl_vault vault_process) 43 vault_world)))}. hex_colon_to_int h = Inr n)))"
proof -
  let ?h = "certs_revoke half_env (process_backend sample_x509_lib crl_vault vault_process) 43 vault_world"
  have "(registry_step crl_vault ''pki_int'')\<^sup>*\<^sup>* vault_world (fst ?h)"
  proof (rule r_into_rtranclp, rule registry_step.revoke [of vault_process])
    show "lower (ps_backend vault_process) = ''vault''" by code_simp
    show "ps_int_mount vault_process = ''pki_int''" by (simp add: vault_process_def)
    show "?h = (fst ?h, snd ?h)" by simp
  qed
  moreover have "\<forall>c \<in> set (certificates (cw_db vault_world)). \<not> crt_revoked c" by code_simp
  ultimately have "\<forall>c \<in> set (certificates (cw_db (fst ?h))). crt_revoked c \<longrightarrow>
     (\<exists>n. py_int (crt_serial c) = Inr n \<and> (0 \<le> n \<longrightarrow> (\<exists>h \<in> {h. (''pki_int'', h) \<in> set (cw_pki (fst ?h))}. hex_colon_to_int h = Inr n)))"
    by (rule revoked_rows_are_on_crl [OF crl_vault.vault_revocations_axioms])
  moreover have "\<exists>c \<in> set (certificates (cw_db (fst ?h))). crt_revoked c" by code_simp
  ultimately show ?thesis by blast
qed

text \<open>
  With the local backend the list lives in the process that revokes: after a successful \<^verbatim>\<open>certs revoke\<close> on the
  command line the row is revoked, the command's own list has the serial, and the API process, whose hierarchy
  was loaded from the same pinned keys, still has an empty list.
\<close>

theorem local_revocation_stays_in_process:
  "let w' = fst (certs_revoke half_env (\<lambda>p. (p, Inr dev_ops)) 43 half_world) in
     list_ex (\<lambda>c. crt_revoked c \<and> crt_serial c = ''43'') (certificates (cw_db w')) \<and> 43 \<in> lp_revoked (cw_pki w') \<and>
     cw_pki half_world = dev_pki \<and> \<not> crl_covers lp_revoked (cw_db w', dev_pki)"
proof -
  let ?w = "fst (certs_revoke half_env (\<lambda>p. (p, Inr dev_ops)) 43 half_world)"
  have "list_ex (\<lambda>c. crt_revoked c \<and> crt_serial c = ''43'') (certificates (cw_db ?w))" "43 \<in> lp_revoked (cw_pki ?w)" by code_simp+
  moreover from this(1) have "\<not> crl_covers lp_revoked (cw_db ?w, dev_pki)"
    by (auto simp: crl_covers_def dev_pki_def list_ex_iff)
  ultimately show ?thesis by (simp add: half_world_def cli_sample_world_def)
qed

theorem cli_revocation_is_refused_witness:
  "\<exists>w'. certs_revoke half_env (\<lambda>p. (p, Inr dev_ops)) 42 half_world = (w', Inr ()) \<and>
     (\<forall>t lines frs. dispatch sample_settings sample_auth_env sample_scope (cw_db w') \<noteq> Inr (t, lines, Forward frs))"
proof -
  let ?h = "certs_revoke half_env (\<lambda>p. (p, Inr dev_ops)) 42 half_world"
  have "snd ?h = Inr ()" by code_simp
  then obtain w' where run: "?h = (w', Inr ())" by (metis prod.collapse)
  have "presents sample_settings sample_auth_env sample_scope (str_of_int 42)" by code_simp
  moreover have "certificates (au_interleave sample_auth_env (cw_db w')) = certificates (cw_db w')" by (simp add: sample_auth_env_def)
  moreover have "distinct (map crt_id (certificates (cw_db half_world)))" "distinct (map crt_serial (certificates (cw_db half_world)))"
    by code_simp+
  ultimately show ?thesis using cli_revocation_is_refused [OF run, where settings = sample_settings and ae = sample_auth_env and scope = sample_scope]
      run by blast
qed

definition api_opts :: issue_opts where
  "api_opts = \<lparr>io_type = Api, io_cn = ''api.wg.local'', io_sans = [], io_ttl_days = Some 7, io_operator_cn = None,
     io_tenant = None, io_out_cert = Some ''/etc/wg//api.pem'', io_out_key = Some ''/etc/wg/api.key'',
     io_out_chain = Some ''/etc/wg/./chain.pem'', io_out_pkcs12 = None, io_password = []\<rparr>"

theorem certs_issue_records_written_leaf_witness:
  "\<exists>w' row (c :: cert). certs_issue half_env half_pki no_pkcs12 api_opts half_world = (w', Inr row) \<and>
     cw_files w' ''/etc/wg/api.key'' = Some (cert_private_pem c, 384) \<and> crt_out_cert_path row = Some ''/etc/wg/api.pem''"
proof -
  let ?h = "certs_issue half_env half_pki no_pkcs12 api_opts half_world"
  have "\<not> isl (snd ?h)" by code_simp
  then obtain w' row where run: "?h = (w', Inr row)" by (metis prod.collapse sum.collapse(2))
  have paths: "posix_path ''/etc/wg//api.pem'' = ''/etc/wg/api.pem''" "posix_path ''/etc/wg/api.key'' = ''/etc/wg/api.key''"
    "posix_path ''/etc/wg/./chain.pem'' = ''/etc/wg/chain.pem''" by code_simp+
  show ?thesis
    using certs_issue_records_written_leaf [OF run, of "''/etc/wg//api.pem''" "''/etc/wg/api.key''" "''/etc/wg/./chain.pem''"] run
    by (auto simp: api_opts_def paths)
qed

end
