(* ===== verification/Cli.thy ===== *)
theory Cli
  imports Ssh_Ca Backup Datetime
begin

text \<open>
  The commands of \<^verbatim>\<open>wg-manager\<close> that talk to the API (\<^verbatim>\<open>cli.py\<close>): one request each, its answer decoded and
  printed, and the loop that waits for a task; \<^verbatim>\<open>bootstrap-host\<close>, which certifies a fresh host over SSH. The HTTP
  client and the API behind it are a parameter. A session keeps the state of the API, the monotonic clock in
  microseconds and the lines printed; messages of a failed command are in the exception.
\<close>

section \<open>Requests and answers\<close>

datatype http_method = GET | POST | DELETE

record api_request =
  rq_method :: http_method
  rq_path :: string
  rq_params :: "(string \<times> string) list"
  rq_json :: "json option"

record api_reply =
  rp_status :: int
  rp_text :: string

record 'a api_session =
  cl_api :: 'a
  cl_clock :: int
  cl_out :: "string list"

text \<open>The API, how long a request and the scheduler take, and \<^verbatim>\<open>str\<close> of values that are not strings.\<close>

record 'a http_env =
  he_send :: "api_request \<Rightarrow> ('a, api_reply) handler"
  he_delay :: "'a \<Rightarrow> nat"
  he_str :: "json \<Rightarrow> string"

definition http_get :: "string \<Rightarrow> api_request" where
  "http_get path = \<lparr>rq_method = GET, rq_path = path, rq_params = [], rq_json = None\<rparr>"

definition http_post :: "string \<Rightarrow> json option \<Rightarrow> api_request" where
  "http_post path body = \<lparr>rq_method = POST, rq_path = path, rq_params = [], rq_json = body\<rparr>"

definition http_delete :: "string \<Rightarrow> api_request" where
  "http_delete path = \<lparr>rq_method = DELETE, rq_path = path, rq_params = [], rq_json = None\<rparr>"

definition client_base :: "string \<Rightarrow> string" where
  "client_base api_url =
     (let base = rstrip_if (\<lambda>c. c = CHR ''/'') api_url in if drop (length base - 3) base = ''/v1'' then base else base @ ''/v1'')"

definition py_str :: "'a http_env \<Rightarrow> json \<Rightarrow> string" where
  "py_str he j = (case j of JStr s \<Rightarrow> s | _ \<Rightarrow> he_str he j)"

definition send :: "'a http_env \<Rightarrow> api_request \<Rightarrow> ('a api_session, api_reply) handler" where
  "send he rq c =
     (case he_send he rq (cl_api c) of
        (a, r) \<Rightarrow> (c\<lparr>cl_api := a, cl_clock := cl_clock c + int (he_delay he a)\<rparr>, r))"

definition echo :: "string \<Rightarrow> 'a api_session \<Rightarrow> 'a api_session" where
  "echo line c = c\<lparr>cl_out := cl_out c @ [line]\<rparr>"

definition print_json :: "json \<Rightarrow> ('a api_session, unit) handler" where
  "print_json data c = (echo (json_pretty 0 data) c, Inr ())"

text \<open>\<^verbatim>\<open>None\<close> is \<^verbatim>\<open>null\<close>. \<^verbatim>\<open>resp.json()\<close> of an error answer that is valid JSON but no object has no \<^verbatim>\<open>get\<close>.\<close>

definition handle :: "'a http_env \<Rightarrow> api_reply \<Rightarrow> json result" where
  "handle he resp =
     (if 400 \<le> rp_status resp
      then rbind (case json_loads (rp_text resp) of
             Inl _ \<Rightarrow> Inr (rp_text resp)
           | Inr (JObj kvs) \<Rightarrow> Inr (case map_of kvs ''detail'' of None \<Rightarrow> rp_text resp | Some d \<Rightarrow> py_str he d)
           | Inr _ \<Rightarrow> Inl (OtherError ''AttributeError''))
         (\<lambda>detail. Inl (CliExit 1 (''[error '' @ str_of_int (rp_status resp) @ ''] '' @ detail)))
      else if rp_status resp = 204 \<or> rp_text resp = [] then Inr JNull
      else json_loads (rp_text resp))"

definition call :: "'a http_env \<Rightarrow> api_request \<Rightarrow> ('a api_session, json) handler" where
  "call he rq = andThen (send he rq) (\<lambda>resp c. (c, handle he resp))"

section \<open>Waiting for a task\<close>

definition TERMINAL_STATES :: "string list" where "TERMINAL_STATES = [''SUCCESS'', ''FAILURE'', ''REVOKED'']"

definition task_state :: "'a http_env \<Rightarrow> (string \<times> json) list \<Rightarrow> string" where
  "task_state he kvs = (case map_of kvs ''state'' of None \<Rightarrow> ''UNKNOWN'' | Some j \<Rightarrow> py_str he j)"

text \<open>
  One turn of the loop ends the command or comes back to its head after a sleep. The assertion that the answer
  is an object and the length of the sleep can fail too.
\<close>

definition poll_task ::
  "'a http_env \<Rightarrow> string \<Rightarrow> int \<Rightarrow> int \<Rightarrow> 'a api_session \<Rightarrow> 'a api_session + ('a api_session \<times> json result)" where
  "poll_task he task_id deadline interval c =
     (case call he (http_get (''/tasks/'' @ task_id)) c of
        (c1, Inl x) \<Rightarrow> Inr (c1, Inl x)
      | (c1, Inr (JObj kvs)) \<Rightarrow>
          (let state = task_state he kvs; c2 = echo (''task '' @ task_id @ '': '' @ state) c1 in
           if state \<in> set TERMINAL_STATES
           then Inr (echo (json_pretty 0 (JObj kvs)) c2, if state \<noteq> ''SUCCESS'' then Inl (CliExit 1 []) else Inr (JObj kvs))
           else if deadline \<le> cl_clock c2
           then Inr (echo (json_pretty 0 (JObj kvs)) c2,
                     Inl (CliExit 1 (''timeout waiting for task '' @ task_id @ '' (last state='' @ state @ '')'')))
           else if interval < 0 then Inr (c2, Inl (ValueError ''sleep length must be non-negative''))
           else Inl (c2\<lparr>cl_clock := cl_clock c2 + interval\<rparr>))
      | (c1, Inr _) \<Rightarrow> Inr (c1, Inl (OtherError ''AssertionError'')))"

partial_function (option) wait_loop ::
  "'a http_env \<Rightarrow> string \<Rightarrow> int \<Rightarrow> int \<Rightarrow> 'a api_session \<Rightarrow> ('a api_session \<times> json result) option" where
  "wait_loop he task_id deadline interval c =
     (case poll_task he task_id deadline interval c of
        Inr res \<Rightarrow> Some res
      | Inl c' \<Rightarrow> wait_loop he task_id deadline interval c')"

definition wait_task ::
  "'a http_env \<Rightarrow> string \<Rightarrow> int \<Rightarrow> int \<Rightarrow> 'a api_session \<Rightarrow> ('a api_session \<times> json result) option" where
  "wait_task he task_id timeout interval c = wait_loop he task_id (cl_clock c + timeout) interval c"

section \<open>Commands\<close>

definition show_reply :: "'a http_env \<Rightarrow> api_request \<Rightarrow> ('a api_session, unit) handler" where
  "show_reply he rq = andThen (call he rq) print_json"

text \<open>\<^verbatim>\<open>--wait\<close>: the task of the answer is polled every second.\<close>

definition show_and_wait ::
  "'a http_env \<Rightarrow> api_request \<Rightarrow> bool \<Rightarrow> int \<Rightarrow> 'a api_session \<Rightarrow> ('a api_session \<times> unit result) option" where
  "show_and_wait he rq wait timeout c =
     (case andThen (call he rq) (\<lambda>data. andThen (print_json data) (\<lambda>_. returning data)) c of
        (c1, Inl x) \<Rightarrow> Some (c1, Inl x)
      | (c1, Inr data) \<Rightarrow>
          if \<not> wait then Some (c1, Inr ())
          else (case data of
              JObj kvs \<Rightarrow>
                (case map_of kvs ''task_id'' of
                   None \<Rightarrow> Some (c1, Inl (OtherError ''KeyError''))
                 | Some j \<Rightarrow> map_option (\<lambda>(c2, r). (c2, rbind r (\<lambda>_. Inr ()))) (wait_task he (py_str he j) timeout 1000000 c1))
            | _ \<Rightarrow> Some (c1, Inl (TypeError ''object is not subscriptable''))))"

definition keys_add :: "'a http_env \<Rightarrow> string \<Rightarrow> ('a api_session, unit) handler" where
  "keys_add he name = show_reply he (http_post ''/ssh-keys'' (Some (JObj [(''name'', JStr name)])))"

definition keys_list :: "'a http_env \<Rightarrow> ('a api_session, unit) handler" where
  "keys_list he = show_reply he (http_get ''/ssh-keys'')"

definition keys_get :: "'a http_env \<Rightarrow> int \<Rightarrow> ('a api_session, unit) handler" where
  "keys_get he i = show_reply he (http_get (''/ssh-keys/'' @ str_of_int i))"

definition keys_delete :: "'a http_env \<Rightarrow> int \<Rightarrow> ('a api_session, unit) handler" where
  "keys_delete he i =
     andThen (call he (http_delete (''/ssh-keys/'' @ str_of_int i))) (\<lambda>_ c. (echo (''deleted ssh key '' @ str_of_int i) c, Inr ()))"

record server_opts =
  so_hostname :: string
  so_ssh_username :: string
  so_ssh_key_id :: int
  so_endpoint_host :: string
  so_ssh_port :: int
  so_endpoint_port :: int
  so_interface :: string

definition servers_register ::
  "'a http_env \<Rightarrow> server_opts \<Rightarrow> bool \<Rightarrow> int \<Rightarrow> 'a api_session \<Rightarrow> ('a api_session \<times> unit result) option" where
  "servers_register he b = show_and_wait he (http_post ''/servers'' (Some (JObj
     [(''hostname'', JStr (so_hostname b)), (''ssh_username'', JStr (so_ssh_username b)), (''ssh_key_id'', JInt (so_ssh_key_id b)),
      (''endpoint_host'', JStr (so_endpoint_host b)), (''ssh_port'', JInt (so_ssh_port b)), (''endpoint_port'', JInt (so_endpoint_port b)),
      (''interface'', JStr (so_interface b))])))"

definition servers_list :: "'a http_env \<Rightarrow> ('a api_session, unit) handler" where
  "servers_list he = show_reply he (http_get ''/servers'')"

definition servers_get :: "'a http_env \<Rightarrow> int \<Rightarrow> ('a api_session, unit) handler" where
  "servers_get he i = show_reply he (http_get (''/servers/'' @ str_of_int i))"

definition servers_reprovision ::
  "'a http_env \<Rightarrow> int \<Rightarrow> bool \<Rightarrow> int \<Rightarrow> 'a api_session \<Rightarrow> ('a api_session \<times> unit result) option" where
  "servers_reprovision he i = show_and_wait he (http_post (''/servers/'' @ str_of_int i @ ''/reprovision'') None)"

definition servers_discover ::
  "'a http_env \<Rightarrow> int \<Rightarrow> bool \<Rightarrow> int \<Rightarrow> 'a api_session \<Rightarrow> ('a api_session \<times> unit result) option" where
  "servers_discover he i = show_and_wait he (http_post (''/servers/'' @ str_of_int i @ ''/discover'') None)"

definition servers_discovered_peers :: "'a http_env \<Rightarrow> int \<Rightarrow> ('a api_session, unit) handler" where
  "servers_discovered_peers he i = show_reply he (http_get (''/servers/'' @ str_of_int i @ ''/discovered-peers''))"

definition servers_discover_all ::
  "'a http_env \<Rightarrow> bool \<Rightarrow> int \<Rightarrow> 'a api_session \<Rightarrow> ('a api_session \<times> unit result) option" where
  "servers_discover_all he = show_and_wait he (http_post ''/servers/discover-all'' None)"

record client_opts =
  co_name :: string
  co_hostname :: string
  co_ssh_username :: string
  co_ssh_key_id :: int
  co_server_id :: int
  co_ssh_port :: int

definition clients_register ::
  "'a http_env \<Rightarrow> client_opts \<Rightarrow> bool \<Rightarrow> int \<Rightarrow> 'a api_session \<Rightarrow> ('a api_session \<times> unit result) option" where
  "clients_register he b = show_and_wait he (http_post ''/clients'' (Some (JObj
     [(''name'', JStr (co_name b)), (''hostname'', JStr (co_hostname b)), (''ssh_username'', JStr (co_ssh_username b)),
      (''ssh_key_id'', JInt (co_ssh_key_id b)), (''server_id'', JInt (co_server_id b)), (''ssh_port'', JInt (co_ssh_port b))])))"

definition clients_list :: "'a http_env \<Rightarrow> ('a api_session, unit) handler" where
  "clients_list he = show_reply he (http_get ''/clients'')"

definition clients_get :: "'a http_env \<Rightarrow> int \<Rightarrow> ('a api_session, unit) handler" where
  "clients_get he i = show_reply he (http_get (''/clients/'' @ str_of_int i))"

definition clients_reprovision ::
  "'a http_env \<Rightarrow> int \<Rightarrow> bool \<Rightarrow> int \<Rightarrow> 'a api_session \<Rightarrow> ('a api_session \<times> unit result) option" where
  "clients_reprovision he i = show_and_wait he (http_post (''/clients/'' @ str_of_int i @ ''/reprovision'') None)"

text \<open>The configuration goes to a file or to the output; a file is the pair of its path and its content.\<close>

definition clients_add_manual ::
  "'a http_env \<Rightarrow> string \<Rightarrow> int \<Rightarrow> string option \<Rightarrow> ('a api_session, (string \<times> string) option) handler" where
  "clients_add_manual he name server_id config_output =
     andThen (call he (http_post ''/clients/manual'' (Some (JObj [(''name'', JStr name), (''server_id'', JInt server_id)])))) (\<lambda>data c.
       case data of
         JObj kvs \<Rightarrow>
           (case map_of kvs ''wg_config'' of
              None \<Rightarrow> (c, Inl (OtherError ''KeyError''))
            | Some j \<Rightarrow>
                let c1 = echo (json_pretty 0 (JObj (filter (\<lambda>(k, v). k \<noteq> ''wg_config'') kvs))) c; body = py_str he j in
                (case config_output of
                   Some path \<Rightarrow> (echo (''wrote wg config to '' @ path) c1, Inr (Some (path, body)))
                 | None \<Rightarrow> (echo ''--- end wg0.conf ---'' (echo body (echo ''--- begin wg0.conf ---'' c1)), Inr None)))
       | _ \<Rightarrow> (c, Inl (TypeError ''object is not subscriptable'')))"

definition clients_ssh_config :: "'a http_env \<Rightarrow> string option \<Rightarrow> ('a api_session, (string \<times> string) option) handler" where
  "clients_ssh_config he output =
     andThen (send he (http_get ''/clients/export/ssh-config'')) (\<lambda>resp c.
       if 400 \<le> rp_status resp then (c, rbind (handle he resp) (\<lambda>_. Inr None))
       else case output of
           Some path \<Rightarrow> (echo (''wrote ssh config to '' @ path) c, Inr (Some (path, rp_text resp)))
         | None \<Rightarrow> (echo (rp_text resp) c, Inr None))"

definition tasks_status :: "'a http_env \<Rightarrow> string \<Rightarrow> ('a api_session, unit) handler" where
  "tasks_status he task_id = show_reply he (http_get (''/tasks/'' @ task_id))"

section \<open>Enrollment tokens\<close>

definition DURATION_UNITS :: "string \<Rightarrow> int option" where
  "DURATION_UNITS = map_of [([], 1), (''s'', 1), (''m'', 60), (''h'', 3600), (''d'', 86400)]"

text \<open>\<^verbatim>\<open>^([1-9][0-9]*)([smhd]?)$\<close>; a usage error exits with code 2.\<close>

definition parse_duration :: "string \<Rightarrow> int result" where
  "parse_duration v =
     (let t = strip v; ds = takeWhile is_digit t; u = dropWhile is_digit t in
      case (ds, DURATION_UNITS u) of
        (d # _, Some k) \<Rightarrow> if d = CHR ''0'' then Inl (CliExit 2 (py_repr v @ '' is not a duration; use seconds or a number with s/m/h/d''))
           else Inr (int (digits_to_nat ds) * k)
      | _ \<Rightarrow> Inl (CliExit 2 (py_repr v @ '' is not a duration; use seconds or a number with s/m/h/d'')))"

record token_opts =
  tk_server_id :: int
  tk_ssh_key_id :: int
  tk_ssh_username :: string
  tk_name_prefix :: string
  tk_ttl :: string
  tk_max_uses :: int
  tk_allow_cidr :: "string list"
  tk_token_only :: bool

definition token_payload :: "token_opts \<Rightarrow> json result" where
  "token_payload b = rbind (parse_duration (tk_ttl b)) (\<lambda>ttl. Inr (JObj
     ([(''server_id'', JInt (tk_server_id b)), (''ssh_key_id'', JInt (tk_ssh_key_id b)), (''ssh_username'', JStr (tk_ssh_username b)),
       (''name_prefix'', JStr (tk_name_prefix b)), (''ttl_seconds'', JInt ttl), (''max_uses'', JInt (tk_max_uses b))] @
      (if tk_allow_cidr b \<noteq> [] then [(''allowed_cidrs'', JArr (map JStr (tk_allow_cidr b)))] else []))))"

definition enroll_tokens_create :: "'a http_env \<Rightarrow> token_opts \<Rightarrow> ('a api_session, unit) handler" where
  "enroll_tokens_create he b c =
     (case token_payload b of
        Inl x \<Rightarrow> (c, Inl x)
      | Inr payload \<Rightarrow>
          andThen (call he (http_post ''/enrollment-tokens'' (Some payload))) (\<lambda>body.
            if \<not> tk_token_only b then print_json body
            else (case body of
                JObj kvs \<Rightarrow> (case map_of kvs ''token'' of
                    None \<Rightarrow> raising (OtherError ''KeyError'')
                  | Some j \<Rightarrow> (\<lambda>c'. (echo (py_str he j) c', Inr ())))
              | _ \<Rightarrow> raising (TypeError ''object is not subscriptable''))) c)"

definition enroll_tokens_list :: "'a http_env \<Rightarrow> int option \<Rightarrow> bool \<Rightarrow> ('a api_session, unit) handler" where
  "enroll_tokens_list he server_id active = show_reply he ((http_get ''/enrollment-tokens'')\<lparr>rq_params :=
     (case server_id of None \<Rightarrow> [] | Some i \<Rightarrow> [(''server_id'', str_of_int i)]) @ (if active then [(''active'', ''true'')] else [])\<rparr>)"

definition enroll_tokens_revoke :: "'a http_env \<Rightarrow> int \<Rightarrow> ('a api_session, unit) handler" where
  "enroll_tokens_revoke he i = show_reply he (http_post (''/enrollment-tokens/'' @ str_of_int i @ ''/revoke'') None)"

section \<open>bootstrap-host\<close>

record bootstrap_opts =
  bo_hostname :: string
  bo_ssh_key :: string
  bo_passphrase :: "string option"
  bo_ssh_user :: string
  bo_ssh_port :: int
  bo_principal :: "string option"
  bo_ttl_seconds :: "int option"
  bo_connect_timeout :: string

fun bootstrap_error :: "bootstrap_opts \<Rightarrow> exn \<Rightarrow> exn" where
  "bootstrap_error b (SSHConnectionError m) =
     CliExit 1 (''SSH connection to '' @ bo_hostname b @ '':'' @ str_of_int (bo_ssh_port b) @ '' failed: '' @ m)"
| "bootstrap_error b (SSHCAError m) = CliExit 1 (''SSH CA refused to sign: '' @ m)"
| "bootstrap_error b x = x"

definition effective_principal :: "bootstrap_opts \<Rightarrow> string" where
  "effective_principal b = (case bo_principal b of None \<Rightarrow> bo_hostname b | Some p \<Rightarrow> if p = [] then bo_hostname b else p)"

definition effective_ttl :: "int \<Rightarrow> bootstrap_opts \<Rightarrow> int" where
  "effective_ttl ttl0 b = (case bo_ttl_seconds b of None \<Rightarrow> ttl0 | Some n \<Rightarrow> n)"

text \<open>The factory's answer is \<^verbatim>\<open>ca\<close>; the answer of the command is the certificate its summary line reports.\<close>

definition bootstrap_host_cmd ::
  "'h paramiko \<Rightarrow> (string \<Rightarrow> string result) \<Rightarrow> ssh_ca_settings \<Rightarrow> int \<Rightarrow> ssh_ca result \<Rightarrow> bootstrap_opts \<Rightarrow> ('h, host_cert) handler" where
  "bootstrap_host_cmd pm read_text settings default_ttl ca b h =
     (if lower (ss_backend settings) = ''local'' \<and> \<not> is_set (ss_local_dev_pem settings)
      then (h, Inl (CliExit 1 (''refusing to bootstrap with an ephemeral SSH CA: SSH_CA_BACKEND=local and SSH_CA_LOCAL_DEV_PEM is unset, '' @
        ''so the host would trust a throwaway CA the worker never uses. Run bootstrap-host inside the stack '' @
        ''(docker compose run ... api bootstrap-host, see docs/deploy/single-host-prod.md) or set SSH_CA_BACKEND=vault.'')))
      else case ca of
        Inl (SSHCAError m) \<Rightarrow> (h, Inl (CliExit 1 (''failed to reach the SSH CA backend: '' @ m)))
      | Inl x \<Rightarrow> (h, Inl x)
      | Inr authority \<Rightarrow>
          (case BootstrapSSHRunner (bo_hostname b) (bo_ssh_port b) (bo_ssh_user b) (Some (bo_ssh_key b)) (bo_passphrase b)
                  (bo_connect_timeout b) None of
             Inl x \<Rightarrow> (h, Inl x)
           | Inr r \<Rightarrow>
               handling
                 (andThen (enter_bootstrap pm read_text r) (\<lambda>ex.
                    bootstrap_host (runner_of ''BootstrapSSHRunner'' (Some ex)) (bo_hostname b)
                      (effective_principal b) authority (effective_ttl default_ttl b)))
                 (\<lambda>x. raising (bootstrap_error b x)) h))"

section \<open>The wait loop\<close>

lemma call_out: "call he rq c = (c', r) \<Longrightarrow> cl_out c' = cl_out c \<and> cl_clock c \<le> cl_clock c'"
  by (auto simp: call_def send_def andThen_def split: prod.splits sum.splits)

lemma poll_again:
  assumes "poll_task he i deadline interval c = Inl c'"
  shows "0 \<le> interval \<and> cl_clock c + interval \<le> cl_clock c' \<and> cl_clock c' < deadline + interval \<and>
     length (cl_out c') = length (cl_out c) + 1"
  using assms
  by (auto simp: poll_task_def Let_def echo_def split: prod.splits sum.splits json.splits if_splits dest!: call_out)

lemma poll_ends:
  assumes "poll_task he i deadline interval c = Inr (c', r)"
  shows "length (cl_out c') \<le> length (cl_out c) + 2 \<and>
     (\<forall>j. r = Inr j \<longrightarrow> (\<exists>kvs. j = JObj kvs \<and> task_state he kvs = ''SUCCESS''))"
  using assms
  by (auto simp: poll_task_def Let_def echo_def split: prod.splits sum.splits json.splits if_splits dest!: call_out)

text \<open>The number of polls left: the remaining time over the interval, rounded up.\<close>

definition polls_left :: "int \<Rightarrow> int \<Rightarrow> int \<Rightarrow> nat" where
  "polls_left deadline interval t = nat ((deadline - t + interval - 1) div interval)"

lemma polls_left_decreases:
  assumes "0 < interval" and "t + interval \<le> t'" and "t' < deadline + interval"
  shows "polls_left deadline interval t' + 1 \<le> polls_left deadline interval t"
proof -
  let ?d = "\<lambda>u. (deadline - u + interval - 1) div interval"
  have "deadline - t' + interval - 1 \<le> (deadline - t + interval - 1) - interval" using assms(2) by simp
  then have "?d t' \<le> ((deadline - t + interval - 1) - interval) div interval" using assms(1) by (rule zdiv_mono1)
  also have "\<dots> = ?d t - 1" using assms(1) div_mult_self1 [of interval "deadline - t + interval - 1" "-1"] by simp
  finally have "?d t' \<le> ?d t - 1" .
  moreover have "0 \<le> ?d t'" using assms(1,3) by (simp add: pos_imp_zdiv_nonneg_iff)
  ultimately show ?thesis by (simp add: polls_left_def)
qed

lemma wait_loop_returns:
  assumes "0 < interval"
  shows "\<exists>c' r. wait_loop he i deadline interval c = Some (c', r) \<and>
     length (cl_out c') \<le> length (cl_out c) + polls_left deadline interval (cl_clock c) + 2 \<and>
     (\<forall>j. r = Inr j \<longrightarrow> (\<exists>kvs. j = JObj kvs \<and> task_state he kvs = ''SUCCESS''))"
proof (induction "polls_left deadline interval (cl_clock c)" arbitrary: c rule: less_induct)
  case less
  show ?case
  proof (cases "poll_task he i deadline interval c")
    case (Inl c1)
    note again = poll_again [OF Inl]
    then have "polls_left deadline interval (cl_clock c1) + 1 \<le> polls_left deadline interval (cl_clock c)"
      using polls_left_decreases [OF assms] by blast
    moreover obtain c' r where "wait_loop he i deadline interval c1 = Some (c', r)"
      "length (cl_out c') \<le> length (cl_out c1) + polls_left deadline interval (cl_clock c1) + 2"
      "\<forall>j. r = Inr j \<longrightarrow> (\<exists>kvs. j = JObj kvs \<and> task_state he kvs = ''SUCCESS'')"
      using less [of c1] calculation by auto
    ultimately show ?thesis using Inl again by (subst wait_loop.simps) auto
  next
    case (Inr res)
    obtain c' r where res: "res = (c', r)" by (cases res)
    show ?thesis using poll_ends [OF Inr [unfolded res]] Inr res by (subst wait_loop.simps) auto
  qed
qed

text \<open>
  C28: waiting for a task ends, whatever the API answers: with a positive interval the loop returns after at most
  the timeout over the interval, rounded up, and one more polls (each prints one line, and the last answer one more),
  and it reports success only for an answer whose state is SUCCESS.
\<close>

theorem wait_task_returns:
  assumes "0 < interval"
  shows "\<exists>c' r. wait_task he task_id timeout interval c = Some (c', r) \<and>
     length (cl_out c') \<le> length (cl_out c) + nat ((timeout + interval - 1) div interval) + 2 \<and>
     (\<forall>j. r = Inr j \<longrightarrow> (\<exists>kvs. j = JObj kvs \<and> task_state he kvs = ''SUCCESS''))"
  using wait_loop_returns [OF assms, of he task_id "cl_clock c + timeout" c] by (simp add: wait_task_def polls_left_def)

text \<open>Hence every command with \<^verbatim>\<open>--wait\<close> ends.\<close>

theorem show_and_wait_returns: "\<exists>c' r. show_and_wait he rq wait timeout c = Some (c', r)"
proof -
  have "\<exists>c' r. wait_task he i timeout 1000000 c1 = Some (c', r)" for i c1
    using wait_loop_returns [of 1000000 he i "cl_clock c1 + timeout" c1] by (auto simp: wait_task_def)
  then have "\<exists>c' r. map_option (\<lambda>(c2, r). (c2, rbind r (\<lambda>_. Inr ()))) (wait_task he i timeout 1000000 c1) =
      Some (c', r :: unit result)" for i c1 by (metis (mono_tags, lifting) option.simps(9) prod.case)
  then show ?thesis by (auto simp: show_and_wait_def split: prod.splits sum.splits json.splits option.splits)
qed

section \<open>Durations\<close>

lemma unit_chars: "DURATION_UNITS u = Some k \<Longrightarrow> u \<in> {[], ''s'', ''m'', ''h'', ''d''} \<and> 0 < k"
  by (auto simp: DURATION_UNITS_def split: if_splits)

lemma foldl_digits_pos: "0 < (m :: nat) \<Longrightarrow> 0 < foldl (\<lambda>n c. 10 * n + digit_val c) m ds"
  by (induction ds arbitrary: m) auto

lemma digits_pos:
  assumes "is_digit d" and "d \<noteq> CHR ''0''"
  shows "0 < digits_to_nat (d # ds)"
proof -
  have "d = CHR ''0''" if e: "of_char d = (48 :: nat)"
  proof -
    have "d = char_of (48 :: nat)" unfolding e [symmetric] by simp
    moreover have "char_of (48 :: nat) = CHR ''0''" by code_simp
    ultimately show ?thesis by simp
  qed
  then have "of_char d \<noteq> (48 :: nat)" using assms(2) by blast
  then have "0 < digit_val d" using assms(1) by (simp add: is_digit_def digit_val_def)
  then show ?thesis unfolding digits_to_nat_def by (simp add: foldl_digits_pos)
qed

text \<open>
  a positive number with a unit, blanks around it aside, is read as that many units, and every duration that is
  accepted is positive.
\<close>

theorem parse_duration_reads_units:
  "(DURATION_UNITS u = Some k \<longrightarrow> 0 < n \<longrightarrow> strip v = str_of_nat n @ u \<longrightarrow> parse_duration v = Inr (int n * k)) \<and>
   (parse_duration v = Inr d \<longrightarrow> 0 < d)"
proof (intro conjI impI)
  assume u: "DURATION_UNITS u = Some k" and n: "0 < n" and v: "strip v = str_of_nat n @ u"
  have "\<forall>c \<in> set u. \<not> is_digit c" using unit_chars [OF u] by (auto simp: is_digit_def)
  then have split: "takeWhile is_digit (strip v) = str_of_nat n" "dropWhile is_digit (strip v) = u"
    using str_of_nat_digits [of n] unfolding v by (cases u; auto simp: list_all_iff takeWhile_tail dropWhile_append)+
  obtain x xs where x: "str_of_nat n = x # xs" by (cases "str_of_nat n") simp_all
  have "x \<noteq> CHR ''0''" using hd_str_of_nat [of n] n x by auto
  then show "parse_duration v = Inr (int n * k)"
    unfolding parse_duration_def split Let_def using u x str_of_nat_roundtrip [of n] by simp
next
  assume p: "parse_duration v = Inr d"
  obtain x xs k where x: "takeWhile is_digit (strip v) = x # xs" "x \<noteq> CHR ''0''" "DURATION_UNITS (dropWhile is_digit (strip v)) = Some k"
      "d = int (digits_to_nat (x # xs)) * k"
    using p by (auto simp: parse_duration_def Let_def split: list.splits option.splits if_splits)
  have "is_digit x" using x(1) by (metis list.set_intros(1) set_takeWhileD)
  then show "0 < d" using digits_pos [of x xs] x(2,4) unit_chars [OF x(3)] by simp
qed

section \<open>A bootstrapped host\<close>

lemma handling_raising_Inr: "handling m (\<lambda>x. raising (f x)) h = (h', Inr r) \<longleftrightarrow> m h = (h', Inr r)"
  by (auto simp: handling_def raising_def split: prod.splits sum.splits)

lemma install_files_mint:
  assumes "install_host_cert_files r ca ps ttl h = (h', Inr c)"
  shows "\<exists>pub. mint_host_cert ca pub ps ttl = Inr c"
  using assms by (auto simp: install_host_cert_files_def split: prod.splits sum.splits)

lemma bootstrap_host_cmd_Inr:
  assumes "bootstrap_host_cmd pm read_text settings ttl0 (Inr ca) b h = (h', Inr c)"
  shows "\<exists>pub. mint_host_cert ca pub (bootstrap_principals (bo_hostname b) (effective_principal b)) (effective_ttl ttl0 b) = Inr c"
proof -
  obtain ex h1 where "bootstrap_host (runner_of ''BootstrapSSHRunner'' (Some ex)) (bo_hostname b) (effective_principal b) ca
      (effective_ttl ttl0 b) h1 = (h', Inr c)"
    using assms
    by (auto simp: bootstrap_host_cmd_def BootstrapSSHRunner_def Let_def handling_raising_Inr result_simps split: if_splits)
  then show ?thesis unfolding bootstrap_host_def by (rule install_files_mint)
qed

text \<open>
  C29: once \<^verbatim>\<open>bootstrap-host\<close> has succeeded with a pinned local authority, the policy of a production session
  that dials the host by its name, or by the alias given with \<^verbatim>\<open>--principal\<close>, accepts the certificate it
  installed exactly while it is valid. An unpinned local authority is refused before the host is touched.
\<close>

theorem bootstrapped_host_is_accepted:
  assumes "ssh_lib_laws lib"
    and "bootstrap_host_cmd pm read_text settings ttl0 (Inr (local_ssh_ca lib k se)) b h = (h', Inr c)"
    and "ok_public_blob key = Some (ED25519_HOST_CERT_ALG, blob)" and "hcert_pem c = ED25519_HOST_CERT_ALG @ '' '' @ b64encode blob"
    and "dialled \<in> {bo_hostname b, effective_principal b}" and "strip dialled \<noteq> []"
  shows "(is_set (ss_local_dev_pem settings) \<or> lower (ss_backend settings) \<noteq> ''local'') \<and>
     (\<exists>pol. KnownHostsCAPolicy (sl_public_openssh lib k) (Some [dialled]) = Inr pol \<and>
       (missing_host_key (sl_identity lib) t pol peer key = Inr () \<longleftrightarrow> se_time se \<le> t \<and> t < se_time se + effective_ttl ttl0 b))"
proof
  show "is_set (ss_local_dev_pem settings) \<or> lower (ss_backend settings) \<noteq> ''local''"
    using assms(2) by (auto simp: bootstrap_host_cmd_def)
  let ?ps = "bootstrap_principals (bo_hostname b) (effective_principal b)"
  obtain algo body where kl: "plain_word algo" "plain_word body" "sl_public_openssh lib k = key_line algo body"
    using assms(1) unfolding ssh_lib_laws_def by blast
  define pol where "pol = \<lparr>cp_ca_public_key = sl_public_openssh lib k, cp_ca_body = body,
    cp_principals = Some [normalise_principal dialled]\<rparr>"
  have pol: "KnownHostsCAPolicy (sl_public_openssh lib k) (Some [dialled]) = Inr pol"
    unfolding pol_def KnownHostsCAPolicy_def kl(3) ca_pubkey_body_line [OF kl(1,2)] using assms(6) by simp
  obtain pub where m: "local_mint_host_cert lib k se pub ?ps (effective_ttl ttl0 b) = Inr c"
    using bootstrap_host_cmd_Inr [OF assms(2)] by (auto simp: local_ssh_ca_def)
  have offer: "offers (sl_identity lib) key cert \<longleftrightarrow> cert = \<lparr>sc_is_host_cert = True, sc_serial = se_serial se,
      sc_signer_line = key_line algo body, sc_valid_after = se_time se, sc_valid_before = se_time se + effective_ttl ttl0 b,
      sc_principals = ?ps\<rparr>" for cert
    using local_host_cert_read_back [OF assms(1) m] assms(3) unfolding offers_def assms(4) kl(3) by auto
  have named: "\<exists>p \<in> set ?ps. normalise_principal p = normalise_principal dialled"
    using assms(5) by (auto simp: bootstrap_principals_def dns_norm_def normalise_principal_def)
  have "missing_host_key (sl_identity lib) t pol peer key = Inr () \<longleftrightarrow> se_time se \<le> t \<and> t < se_time se + effective_ttl ttl0 b"
    unfolding missing_host_key_iff offer vouches_for_def names_signer_def
    using named by (simp add: split_key_line [OF kl(1,2)] pol_def accepted_by_def)
  with pol show "\<exists>pol. KnownHostsCAPolicy (sl_public_openssh lib k) (Some [dialled]) = Inr pol \<and>
       (missing_host_key (sl_identity lib) t pol peer key = Inr () \<longleftrightarrow> se_time se \<le> t \<and> t < se_time se + effective_ttl ttl0 b)" by blast
qed

section \<open>Witnesses\<close>

text \<open>An API that answers every request with the next of a list of answers, one second apart.\<close>

definition canned_env :: "string list http_env" where
  "canned_env = \<lparr>he_send = (\<lambda>rq as. case as of [] \<Rightarrow> ([], Inl (OtherError ''ConnectError''))
       | a # rest \<Rightarrow> (rest, Inr \<lparr>rp_status = 200, rp_text = a\<rparr>)), he_delay = (\<lambda>_. 1000000), he_str = (\<lambda>_. [])\<rparr>"

definition canned_session :: "string list api_session" where
  "canned_session = \<lparr>cl_api = [json_pretty 0 (JObj [(''state'', JStr ''PENDING'')]), json_pretty 0 (JObj [(''state'', JStr ''SUCCESS'')])],
     cl_clock = 0, cl_out = []\<rparr>"

theorem wait_task_returns_witness:
  "\<exists>c' r. wait_task canned_env ''t1'' 5000000 1000000 canned_session = Some (c', r) \<and> length (cl_out c') \<le> 7"
proof -
  have "(0 :: int) < 1000000" by simp
  from wait_task_returns [OF this, of canned_env "''t1''" 5000000 canned_session]
  show ?thesis by (auto simp: canned_session_def)
qed

theorem parse_duration_reads_units_witness:
  "parse_duration '' 15m'' = Inr 900"
proof -
  have "DURATION_UNITS ''m'' = Some 60" "(0 :: nat) < 15" "strip '' 15m'' = str_of_nat 15 @ ''m''" by code_simp+
  then show ?thesis using parse_duration_reads_units [of "''m''" 60 15 "'' 15m''"] by simp
qed

definition pinned_settings :: ssh_ca_settings where
  "pinned_settings = \<lparr>ss_backend = ''local'', ss_local_dev_pem = Some ''pem'', ss_vault_token = [], ss_mount = [], ss_user_role = [],
     ss_host_role = []\<rparr>"

definition fresh_host :: bootstrap_opts where
  "fresh_host = \<lparr>bo_hostname = ''hub.example'', bo_ssh_key = ''id_ed25519'', bo_passphrase = None, bo_ssh_user = ''ubuntu'', bo_ssh_port = 22,
     bo_principal = None, bo_ttl_seconds = Some 60, bo_connect_timeout = ''15.0''\<rparr>"

definition bare_host :: "unit paramiko" where
  "bare_host = sample_paramiko\<lparr>pk_connect := \<lambda>_ _ _ _ _ _ h. (h, Inr (\<lambda>cmd input h. (h, Inr (0, ''ssh-ed25519 AAAA'', []))))\<rparr>"

theorem bootstrapped_host_is_accepted_witness:
  "\<exists>h' c pol. bootstrap_host_cmd bare_host (\<lambda>_. Inr ''PEM'') pinned_settings 3600
       (Inr (local_ssh_ca one_cert_lib () \<lparr>se_time = 1000, se_serial = 7, se_ephemeral = ()\<rparr>)) fresh_host () = (h', Inr c) \<and>
     KnownHostsCAPolicy ''ssh-ed25519 CAKEY'' (Some [''hub.example'']) = Inr pol \<and>
     missing_host_key (sl_identity one_cert_lib) 1030 pol ''hub.example'' \<lparr>ok_public_blob = Some (ED25519_HOST_CERT_ALG, ''cert'')\<rparr> = Inr ()"
proof -
  let ?se = "\<lparr>se_time = 1000, se_serial = 7, se_ephemeral = ()\<rparr>" and ?key = "\<lparr>ok_public_blob = Some (ED25519_HOST_CERT_ALG, ''cert'')\<rparr>"
  let ?run = "bootstrap_host_cmd bare_host (\<lambda>_. Inr ''PEM'') pinned_settings 3600 (Inr (local_ssh_ca one_cert_lib () ?se)) fresh_host ()"
  have "case snd ?run of Inr c \<Rightarrow> hcert_pem c = ED25519_HOST_CERT_ALG @ '' '' @ b64encode ''cert'' | Inl _ \<Rightarrow> False" by code_simp
  then obtain h' c where run: "?run = (h', Inr c)" and pem: "hcert_pem c = ED25519_HOST_CERT_ALG @ '' '' @ b64encode ''cert''"
    by (cases ?run) (auto split: sum.splits)
  have ttl: "effective_ttl 3600 fresh_host = 60" and pub: "sl_public_openssh one_cert_lib () = ''ssh-ed25519 CAKEY''"
    by (simp_all add: effective_ttl_def fresh_host_def one_cert_lib_def)
  have "''hub.example'' \<in> {bo_hostname fresh_host, effective_principal fresh_host}" "strip ''hub.example'' \<noteq> []" by code_simp+
  from bootstrapped_host_is_accepted [OF one_cert_lib_laws run _ pem this, of ?key 1030 "''hub.example''"] run
  show ?thesis unfolding ttl pub by auto
qed

end
