(* ===== verification/Cli_Admin.thy ===== *)
theory Cli_Admin
  imports Tenants Auth Backup
begin

text \<open>
  \<^verbatim>\<open>wg-manager operators\<close> and \<^verbatim>\<open>wg-manager tenants\<close> (\<^verbatim>\<open>cli.py\<close>): registering operators, creating tenants and
  attaching the one to the other without the API. Each command is one database session; a refusal exits with
  code 1. The lemmas compare the commands with the endpoints of theory \<^verbatim>\<open>Tenants\<close> and follow a seeded operator
  to the first request it makes.
\<close>

section \<open>Operators\<close>

definition new_operator :: "env \<Rightarrow> string \<Rightarrow> operator_role \<Rightarrow> string option \<Rightarrow> operator" where
  "new_operator e cn role display_name =
     \<lparr>op_id = new_id e, op_tenant = None, op_cn = cn, op_display_name = display_name, op_role = role, op_status = Active,
      op_created_at = now e\<rparr>"

definition operators_add :: "env \<Rightarrow> string \<Rightarrow> operator_role \<Rightarrow> string option \<Rightarrow> (state, operator) handler" where
  "operators_add e cn role display_name = atomically (\<lambda>s.
     case find (\<lambda>o'. op_cn o' = cn) (operators s) of
       Some existing \<Rightarrow> Inl (cli_error (''operator with CN '' @ py_repr cn @ '' already exists (id='' @ str_of_int (op_id existing) @
           '', role='' @ operator_role_value (op_role existing) @ '')''))
     | None \<Rightarrow> Inr (s\<lparr>operators := operators s @ [new_operator e cn role display_name]\<rparr>, new_operator e cn role display_name))"

definition operator_payload :: "operator \<Rightarrow> json" where
  "operator_payload row = JObj
     [(''id'', JInt (op_id row)), (''cn'', JStr (op_cn row)), (''display_name'', json_opt (op_display_name row)),
      (''role'', JStr (operator_role_value (op_role row))), (''status'', JStr (operator_status_value (op_status row))),
      (''created_at'', JStr (isoformat (op_created_at row)))]"

definition operators_list :: "state \<Rightarrow> string" where
  "operators_list s = json_pretty 0 (JArr (map operator_payload (operators s)))"

section \<open>Tenants\<close>

definition cli_slugify :: "string \<Rightarrow> string" where
  "cli_slugify name =
     (let dash = (\<lambda>c. c = CHR ''-''); slug = rstrip_if dash (dropWhile dash (dash_runs False (lower name)))
      in if slug = [] then ''tenant'' else slug)"

fun overlapping_tenant :: "string \<Rightarrow> tenant list \<Rightarrow> unit result" where
  "overlapping_tenant pool [] = Inr ()"
| "overlapping_tenant pool (other # rest) =
     (if ten_subnet_pool other = [] then overlapping_tenant pool rest
      else rbind (pools_overlap pool (ten_subnet_pool other)) (\<lambda>b.
        if b then Inl (cli_error (''--subnet-pool '' @ py_repr pool @ '' overlaps tenant '' @ py_repr (ten_slug other) @ [CHR 0x27] @
               ''s pool '' @ py_repr (ten_subnet_pool other)))
        else overlapping_tenant pool rest))"

definition cli_slug :: "string \<Rightarrow> string option \<Rightarrow> string" where
  "cli_slug name slug = (case slug of None \<Rightarrow> cli_slugify name | Some x \<Rightarrow> if x = [] then cli_slugify name else x)"

text \<open>The text of the parse error is left out of the message.\<close>

definition tenants_create :: "env \<Rightarrow> string \<Rightarrow> string option \<Rightarrow> string option \<Rightarrow> (state, tenant) handler" where
  "tenants_create e name slug subnet_pool = atomically (\<lambda>s.
     rbind (case subnet_pool of
         None \<Rightarrow> Inr ()
       | Some p \<Rightarrow> (case ip4_network True p of
            Inl x \<Rightarrow> Inl (cli_error (''invalid --subnet-pool '' @ py_repr p))
          | Inr _ \<Rightarrow> Inr ())) (\<lambda>_.
     rbind (case find (\<lambda>t. ten_slug t = cli_slug name slug) (tenants s) of
         None \<Rightarrow> Inr ()
       | Some t \<Rightarrow> Inl (cli_error (''tenant with slug '' @ py_repr (cli_slug name slug) @ '' already exists (id='' @
           str_of_int (ten_id t) @ '', name='' @ py_repr (ten_name t) @ '')''))) (\<lambda>_.
     rbind (case find (\<lambda>t. ten_name t = name) (tenants s) of
         None \<Rightarrow> Inr ()
       | Some t \<Rightarrow> Inl (cli_error (''tenant with name '' @ py_repr name @ '' already exists (id='' @
           str_of_int (ten_id t) @ '', slug='' @ py_repr (ten_slug t) @ '')''))) (\<lambda>_.
     rbind (case subnet_pool of None \<Rightarrow> Inr () | Some p \<Rightarrow> overlapping_tenant p (tenants s)) (\<lambda>_.
     let row = \<lparr>ten_id = new_id e, ten_name = name, ten_slug = cli_slug name slug,
           ten_subnet_pool = (case subnet_pool of None \<Rightarrow> default_pool | Some p \<Rightarrow> p), ten_created_at = now e\<rparr> in
     rbind (insert_tenant row s) (\<lambda>s'. Inr (s', row)))))))"

definition tenant_payload :: "tenant \<Rightarrow> json" where
  "tenant_payload row = JObj
     [(''id'', JInt (ten_id row)), (''name'', JStr (ten_name row)), (''slug'', JStr (ten_slug row)),
      (''subnet_pool'', JStr (ten_subnet_pool row)), (''created_at'', JStr (isoformat (ten_created_at row)))]"

definition tenants_list :: "state \<Rightarrow> string" where
  "tenants_list s = json_pretty 0 (JArr (map tenant_payload (tenants s)))"

definition lookup_operator :: "state \<Rightarrow> string \<Rightarrow> operator result" where
  "lookup_operator s cn = or_raise (find (\<lambda>o'. op_cn o' = cn) (operators s)) (cli_error (''no operator with CN '' @ py_repr cn))"

definition lookup_tenant :: "state \<Rightarrow> string \<Rightarrow> tenant result" where
  "lookup_tenant s slug = or_raise (find (\<lambda>t. ten_slug t = slug) (tenants s)) (cli_error (''no tenant with slug '' @ py_repr slug))"

definition tenants_get :: "string \<Rightarrow> state \<Rightarrow> string result" where
  "tenants_get slug s = rbind (lookup_tenant s slug) (\<lambda>row. Inr (json_pretty 0 (tenant_payload row)))"

section \<open>Operators of tenants\<close>

definition operators_attach_tenant :: "env \<Rightarrow> string \<Rightarrow> string \<Rightarrow> operator_role \<Rightarrow> (state, operator_tenant) handler" where
  "operators_attach_tenant e cn slug role = atomically (\<lambda>s.
     rbind (lookup_operator s cn) (\<lambda>op_row.
     rbind (lookup_tenant s slug) (\<lambda>tenant_row.
     rbind (case find_join s op_row tenant_row of
         None \<Rightarrow> Inr ()
       | Some j \<Rightarrow> Inl (cli_error (''operator '' @ py_repr cn @ '' already attached to tenant '' @ py_repr slug @
           '' (role='' @ operator_role_value (ot_role j) @ '')''))) (\<lambda>_.
     let j = \<lparr>ot_id = new_id e, ot_operator_id = op_id op_row, ot_tenant_id = ten_id tenant_row, ot_role = role,
              ot_created_at = now e\<rparr> in
     rbind (insert_join j s) (\<lambda>s'. Inr (s', j))))))"

definition operators_detach_tenant :: "string \<Rightarrow> string \<Rightarrow> (state, unit) handler" where
  "operators_detach_tenant cn slug = atomically (\<lambda>s.
     rbind (lookup_operator s cn) (\<lambda>op_row.
     rbind (lookup_tenant s slug) (\<lambda>tenant_row.
     rbind (or_raise (find_join s op_row tenant_row)
       (cli_error (''operator '' @ py_repr cn @ '' is not attached to tenant '' @ py_repr slug))) (\<lambda>j.
       Inr (s\<lparr>operator_tenants := filter (\<lambda>x. ot_id x \<noteq> ot_id j) (operator_tenants s)\<rparr>, ())))))"

definition join_payload :: "operator_tenant \<Rightarrow> tenant \<Rightarrow> json" where
  "join_payload j t = JObj
     [(''id'', JInt (ot_id j)), (''tenant_id'', JInt (ten_id t)), (''tenant_slug'', JStr (ten_slug t)),
      (''tenant_name'', JStr (ten_name t)), (''role'', JStr (operator_role_value (ot_role j))),
      (''created_at'', JStr (isoformat (ot_created_at j)))]"

definition operators_list_tenants :: "string \<Rightarrow> state \<Rightarrow> string result" where
  "operators_list_tenants cn s =
     rbind (lookup_operator s cn) (\<lambda>op_row.
       Inr (json_pretty 0 (JArr (concat (map (\<lambda>j.
         map (join_payload j) (filter (\<lambda>t. ten_id t = ot_tenant_id j) (tenants s)))
         (filter (\<lambda>j. ot_operator_id j = op_id op_row) (operator_tenants s)))))))"

section \<open>The commands and the endpoints agree\<close>

definition same_outcome :: "'s \<times> 'a result \<Rightarrow> 's \<times> 'b result \<Rightarrow> bool" where
  "same_outcome x y \<longleftrightarrow> fst x = fst y \<and> isl (snd x) = isl (snd y)"

lemma same_outcome_atomically:
  assumes "\<And>s' a. t1 s = Inr (s', a) \<Longrightarrow> \<exists>b. t2 s = Inr (s', b)" and "\<And>s' b. t2 s = Inr (s', b) \<Longrightarrow> \<exists>a. t1 s = Inr (s', a)"
  shows "same_outcome (atomically t1 s) (atomically t2 s)"
  using assms by (cases "t1 s"; cases "t2 s") (fastforce simp: same_outcome_def atomically_def)+

lemma overlapping_tenant_Inr: "overlapping_tenant pool ts = Inr () \<longleftrightarrow> reject_pool_overlap pool None ts = Inr ()"
  by (induction ts) (auto simp: result_simps split: if_splits)

lemma cli_slug_eq: "cli_slug name slug = target_slug \<lparr>tc_name = name, tc_slug = slug, tc_subnet_pool = pool\<rparr>"
  by (cases slug) (simp_all add: cli_slug_def target_slug_def cli_slugify_def slugify_def)

text \<open>
  C31: for an administrator the commands and the endpoints do the same: creating a tenant, attaching an operator
  to a tenant and detaching it succeed on the same inputs with the same database afterwards, and fail on the
  same inputs leaving it alone.
\<close>

theorem commands_agree_with_endpoints:
  assumes "RequireAdmin rs = Inr admin"
  shows "same_outcome (tenants_create e name slug pool s)
       (create_tenant e rs \<lparr>tc_name = name, tc_slug = slug, tc_subnet_pool = pool\<rparr> s) \<and>
     same_outcome (operators_attach_tenant e cn tslug role s) (attach_operator e rs tslug cn role s) \<and>
     same_outcome (operators_detach_tenant cn tslug s) (detach_operator rs tslug cn s)"
proof (intro conjI)
  show "same_outcome (tenants_create e name slug pool s)
       (create_tenant e rs \<lparr>tc_name = name, tc_slug = slug, tc_subnet_pool = pool\<rparr> s)"
    unfolding tenants_create_def create_tenant_def
    by (rule same_outcome_atomically)
      (auto simp: assms result_simps Let_def new_tenant_def check_pool_def overlapping_tenant_Inr cli_slug_eq [of _ _ pool]
        split: option.splits sum.splits)
  show "same_outcome (operators_attach_tenant e cn tslug role s) (attach_operator e rs tslug cn role s)"
    unfolding operators_attach_tenant_def attach_operator_def
    by (rule same_outcome_atomically)
      (auto simp: assms result_simps Let_def lookup_operator_def lookup_tenant_def require_tenant_def require_operator_def
        split: option.splits)
  show "same_outcome (operators_detach_tenant cn tslug s) (detach_operator rs tslug cn s)"
    unfolding operators_detach_tenant_def detach_operator_def
    by (rule same_outcome_atomically)
      (auto simp: assms result_simps Let_def lookup_operator_def lookup_tenant_def require_tenant_def
        split: option.splits)
qed


section \<open>From the command line to the first request\<close>

lemma operators_add_Inr:
  assumes "operators_add e cn role dn s = (s', Inr r)"
  shows "r = new_operator e cn role dn \<and> cn \<notin> op_cn ` set (operators s) \<and> s' = s\<lparr>operators := operators s @ [r]\<rparr>"
  using assms by (auto simp: operators_add_def result_simps find_None_iff split: option.splits)

lemma wf_operators_add:
  assumes "wf_state s" and "operators_add e cn role dn s = (s', Inr r)" and "new_id e \<notin> op_id ` set (operators s)"
  shows "wf_state s'"
  using assms(1,3) operators_add_Inr [OF assms(2)] by (auto simp: wf_simps new_operator_def intro: ref_ok_insert)

lemma attach_Inr:
  assumes "operators_attach_tenant e cn slug role s = (s', Inr j)"
  shows "\<exists>op t. lookup_operator s cn = Inr op \<and> lookup_tenant s slug = Inr t \<and> ot_operator_id j = op_id op \<and>
     ot_tenant_id j = ten_id t \<and> ot_role j = role \<and> ot_id j = new_id e \<and> insert_join j s = Inr s'"
  using assms by (auto simp: operators_attach_tenant_def result_simps Let_def split: option.splits)

text \<open>
  C30: an operator registered and attached to a tenant from the command line gets in: over TLS a request
  with a certificate of that common name and a serial that is not revoked is forwarded, with the role given
  on the command line in that tenant.
\<close>

theorem seeded_operator_gets_in:
  assumes "wf_state s" and "new_id e \<notin> op_id ` set (operators s)" and "new_id e' \<notin> ot_id ` set (operator_tenants s)"
    and "operators_add e cn role dn s = (s1, Inr op)" and "operators_attach_tenant e' cn slug trole s1 = (s2, Inr j)"
    and "extract_subject_from_scope (au_load_pem ae) scope = Inr (Some subject)" and "cs_common_name subject = cn"
    and "tls_required settings" and "\<not> is_health_path (sc_path scope)" and "sc_method scope \<noteq> ''OPTIONS''"
    and "\<not> joins_fail ae" and "\<forall>c \<in> set (certificates s). crt_revoked c \<longrightarrow> crt_serial c \<noteq> str_of_int (cs_serial subject)"
  shows "\<exists>lines rs t. dispatch settings ae scope s2 = Inr (s2, lines, Forward rs) \<and> t \<in> set (tenants s2) \<and> ten_slug t = slug \<and>
     role_in (get_tenant_scope s2 rs) (ten_id t) = Some trole \<and> map_option op_role (rs_operator rs) = Some role"
proof -
  note add = operators_add_Inr [OF assms(4)]
  obtain o' t where att: "lookup_operator s1 cn = Inr o'" "lookup_tenant s1 slug = Inr t" "ot_operator_id j = op_id o'"
     "ot_tenant_id j = ten_id t" "ot_role j = trole" "ot_id j = new_id e'" "insert_join j s1 = Inr s2"
    using attach_Inr [OF assms(5)] by blast
  have s2: "s2 = s1\<lparr>operator_tenants := operator_tenants s1 @ [j]\<rparr>" using att(7) by (simp add: result_simps)
  have find1: "find_operator s1 cn = Some op"
    using add by (auto simp: find_operator_def find_append_one new_operator_def find_None_iff split: option.splits dest: find_SomeD)
  then have o': "o' = op" using att(1) by (simp add: lookup_operator_def find_operator_def)
  have wf2: "wf_state s2"
    using wf_insert(5) [OF wf_operators_add [OF assms(1,4,2)] att(7)] att(6) assms(3) add by simp
  have find2: "find_operator s2 cn = Some op" using find1 s2 by (simp add: find_operator_def)
  have res: "resolve_operator settings ae subject s2 = (s2, Some op)"
    using find2 assms(7) add by (simp add: resolve_operator_def new_operator_def)
  have rev: "\<not> serial_is_revoked ae s2 (cs_serial subject)"
    using assms(12) s2 add by (auto simp: serial_is_revoked_def split: option.splits dest!: find_SomeD)
  have "op_status op = Active" using add by (simp add: new_operator_def)
  then have d: "dispatch settings ae scope s2 = Inr (s2, [Auth_Admit (cs_common_name subject) (str_of_int (cs_serial subject))
      (operator_role_value (op_role op)) (sc_method scope) (sc_path scope)], Forward (admit_state ae s2 subject op))"
    using assms(6,8-10) res rev by (simp add: dispatch_def)
  have "get_tenant_scope s2 (admit_state ae s2 subject op) = scope_from_db s2 op"
    using resolve_tenant_set_scope [OF assms(11)] by simp
  moreover have "role_in (scope_from_db s2 op) (ten_id t) = Some trole"
    using role_in_db [OF wf2] att(3-5) o' s2 by auto
  moreover have "t \<in> set (tenants s2)" "ten_slug t = slug" using att(2) s2 by (auto simp: lookup_tenant_def result_simps dest!: find_SomeD)
  moreover have "map_option op_role (rs_operator (admit_state ae s2 subject op)) = Some role"
    using add by (simp add: admit_state_def new_operator_def split: prod.splits)
  ultimately show ?thesis unfolding d by auto
qed

section \<open>Witnesses\<close>

definition root_state :: request_state where
  "root_state = no_state\<lparr>rs_operator := Some (new_operator sample_env ''root'' Admin None)\<rparr>"

theorem commands_agree_with_endpoints_witness:
  "same_outcome (tenants_create sample_env ''Ops Team'' None (Some ''172.16.0.0/16'') sample_db)
     (create_tenant sample_env root_state \<lparr>tc_name = ''Ops Team'', tc_slug = None, tc_subnet_pool = Some ''172.16.0.0/16''\<rparr> sample_db)"
proof -
  have "RequireAdmin root_state = Inr (new_operator sample_env ''root'' Admin None)"
    by (simp add: RequireAdmin_def root_state_def get_operator_def new_operator_def)
  from commands_agree_with_endpoints [OF this, of sample_env "''Ops Team''" None "Some ''172.16.0.0/16''" sample_db]
  show ?thesis by simp
qed

theorem seeded_operator_gets_in_witness:
  "\<exists>s1 op s2 j lines rs. operators_add sample_env ''alice@wg.local'' Operator_Role None sample_db = (s1, Inr op) \<and>
     operators_attach_tenant sample_env ''alice@wg.local'' ''acme'' Auditor s1 = (s2, Inr j) \<and>
     dispatch sample_settings sample_auth_env sample_scope s2 = Inr (s2, lines, Forward rs)"
proof -
  let ?add = "operators_add sample_env ''alice@wg.local'' Operator_Role None sample_db"
  let ?att = "operators_attach_tenant sample_env ''alice@wg.local'' ''acme'' Auditor (fst ?add)"
  have "\<not> isl (snd ?add)" "\<not> isl (snd ?att)" by code_simp+
  then obtain op j s2 where run: "?add = (fst ?add, Inr op)" "?att = (s2, Inr j)" by (metis prod.collapse sum.collapse(2))
  have "wf_state sample_db" "new_id sample_env \<notin> op_id ` set (operators sample_db)"
      "new_id sample_env \<notin> ot_id ` set (operator_tenants sample_db)"
      "extract_subject_from_scope (au_load_pem sample_auth_env) sample_scope = Inr (Some sample_subject)"
      "cs_common_name sample_subject = ''alice@wg.local''" "tls_required sample_settings" "\<not> is_health_path (sc_path sample_scope)"
      "sc_method sample_scope \<noteq> ''OPTIONS''" "\<not> joins_fail sample_auth_env"
      "\<forall>c \<in> set (certificates sample_db). crt_revoked c \<longrightarrow> crt_serial c \<noteq> str_of_int (cs_serial sample_subject)"
    by code_simp+
  from seeded_operator_gets_in [OF this(1-3) run this(4-)] run show ?thesis by blast
qed

end
