(* ===== verification/Evidence.thy ===== *)
theory Evidence
  imports Bytes Datetime Audit_Log Wireguard Certs
begin

text \<open>
  The evidence pack of \<^verbatim>\<open>evidence.py\<close> and the \<^verbatim>\<open>evidence pack\<close> command: the audit events of a window, the
  certificate and operator registries, the part of Vault's audit log that falls into the window with a
  report on its structure, the deployment context, a manifest and the digests of every file. SHA-256,
  the readings of the clock and what the host knows (package version, git, migrations, the log) are
  parameters. Files are byte strings; the manifest is written out in UTF-8.
\<close>

section \<open>Dumps of the tables\<close>

definition overflow_error :: exn where "overflow_error = OtherError ''OverflowError''"

text \<open>\<^verbatim>\<open>_utcnow() - timedelta(days=since_days)\<close>.\<close>

definition window_start :: "int \<Rightarrow> int \<Rightarrow> int result" where
  "window_start t since_days =
     (let start = t - since_days * day_micros in if representable start then Inr start else Inl overflow_error)"

definition json_time_opt :: "int option \<Rightarrow> json" where
  "json_time_opt x = json_opt (map_option isoformat x)"

definition audit_event_row :: "audit_event \<Rightarrow> json" where
  "audit_event_row r = JObj
     [(''id'', JInt (ae_id r)), (''ts'', JStr (isoformat (ae_ts r))), (''event'', JStr (ae_event r)),
      (''actor_cn'', json_opt (ae_actor_cn r)), (''actor_role'', json_opt (ae_actor_role r)),
      (''resource_type'', JStr (ae_resource_type r)), (''resource_id'', json_int_opt (ae_resource_id r)),
      (''action'', JStr (ae_action r)), (''before_hash'', json_opt (ae_before_hash r)),
      (''after_hash'', json_opt (ae_after_hash r)), (''request_id'', json_opt (ae_request_id r)),
      (''payload'', json_opt (ae_payload r))]"

definition dump_audit_events :: "int \<Rightarrow> int \<Rightarrow> audit_event list \<Rightarrow> int \<Rightarrow> json result" where
  "dump_audit_events t0 t1 events since_days =
     rbind (window_start t0 since_days) (\<lambda>threshold.
       let rows = sort_key ae_ts (filter (\<lambda>r. threshold \<le> ae_ts r) events) in
       Inr (JObj [(''since_days'', JInt since_days), (''generated_at'', JStr (isoformat t1)),
                  (''row_count'', JInt (int (length rows))), (''rows'', JArr (map audit_event_row rows))]))"

definition certificate_row :: "certificate \<Rightarrow> json" where
  "certificate_row r = JObj
     [(''id'', JInt (crt_id r)), (''serial'', JStr (crt_serial r)), (''cert_type'', JStr (certificate_type_value (crt_type r))),
      (''common_name'', JStr (crt_common_name r)), (''sans'', JStr (crt_sans r)), (''operator_id'', json_int_opt (crt_operator_id r)),
      (''not_before'', JStr (isoformat (crt_not_before r))), (''not_after'', JStr (isoformat (crt_not_after r))),
      (''revoked'', JBool (crt_revoked r)), (''revoked_at'', json_time_opt (crt_revoked_at r)),
      (''created_at'', JStr (isoformat (crt_created_at r))), (''out_cert_path'', json_opt (crt_out_cert_path r)),
      (''out_key_path'', json_opt (crt_out_key_path r)), (''out_chain_path'', json_opt (crt_out_chain_path r))]"

definition dump_certificates :: "int \<Rightarrow> certificate list \<Rightarrow> json" where
  "dump_certificates t certs =
     (let rows = sort_key crt_id certs in
      JObj [(''generated_at'', JStr (isoformat t)), (''row_count'', JInt (int (length rows))),
            (''rows'', JArr (map certificate_row rows))])"

definition operator_row :: "operator \<Rightarrow> json" where
  "operator_row r = JObj
     [(''id'', JInt (op_id r)), (''cn'', JStr (op_cn r)), (''role'', JStr (operator_role_value (op_role r))),
      (''status'', JStr (operator_status_value (op_status r))), (''created_at'', JStr (isoformat (op_created_at r)))]"

definition dump_operators :: "int \<Rightarrow> operator list \<Rightarrow> json" where
  "dump_operators t ops =
     (let rows = sort_key op_id ops in
      JObj [(''generated_at'', JStr (isoformat t)), (''row_count'', JInt (int (length rows))),
            (''rows'', JArr (map operator_row rows))])"

section \<open>The slice of Vault's audit log\<close>

text \<open>The variables of the loop; the \<^verbatim>\<open>Counter\<close> is a dict in insertion order.\<close>

record log_scan =
  ls_kept :: "string list"
  ls_request_ids :: "(string \<times> nat) list"
  ls_malformed :: nat
  ls_missing_time :: nat
  ls_total :: nat

definition counter_bump :: "string \<Rightarrow> (string \<times> nat) list \<Rightarrow> (string \<times> nat) list" where
  "counter_bump k c = dict_put k ((case map_of c k of None \<Rightarrow> 0 | Some n \<Rightarrow> n) + 1) c"

definition maybe_track_request_id :: "(string \<times> json) list \<Rightarrow> (string \<times> nat) list \<Rightarrow> (string \<times> nat) list" where
  "maybe_track_request_id entry counter =
     (case map_of entry ''request'' of
        Some (JObj req) \<Rightarrow>
          (case map_of req ''id'' of
             Some (JStr rid) \<Rightarrow> if rid \<noteq> [] then counter_bump rid counter else counter
           | _ \<Rightarrow> counter)
      | _ \<Rightarrow> counter)"

definition normalise_z :: "string \<Rightarrow> string" where
  "normalise_z s = concat (map (\<lambda>c. if c = CHR ''Z'' then ''+00:00'' else [c]) s)"

definition scan_line :: "int \<Rightarrow> string \<Rightarrow> log_scan \<Rightarrow> log_scan result" where
  "scan_line threshold raw st =
     (if strip raw = [] then Inr st
      else let st = st\<lparr>ls_total := ls_total st + 1\<rparr> in
        case json_loads raw of
          Inl _ \<Rightarrow> Inr (st\<lparr>ls_malformed := ls_malformed st + 1\<rparr>)
        | Inr (JObj entry) \<Rightarrow>
            (case map_of entry ''time'' of
               Some (JStr time_str) \<Rightarrow>
                 (case fromisoformat (normalise_z time_str) of
                    Inl _ \<Rightarrow> Inr (st\<lparr>ls_missing_time := ls_missing_time st + 1\<rparr>)
                  | Inr (line_time, aware) \<Rightarrow>
                      if \<not> aware then Inl (TypeError (''can'' @ CHR 0x27 # ''t compare offset-naive and offset-aware datetimes''))
                      else if line_time < threshold
                      then Inr (st\<lparr>ls_request_ids := maybe_track_request_id entry (ls_request_ids st)\<rparr>)
                      else Inr (st\<lparr>ls_kept := ls_kept st @ [raw],
                                   ls_request_ids := maybe_track_request_id entry (ls_request_ids st)\<rparr>))
             | _ \<Rightarrow> Inr (st\<lparr>ls_missing_time := ls_missing_time st + 1\<rparr>))
        | Inr _ \<Rightarrow> Inl (OtherError ''AttributeError''))"

fun scan_log :: "int \<Rightarrow> string list \<Rightarrow> log_scan \<Rightarrow> log_scan result" where
  "scan_log threshold [] st = Inr st"
| "scan_log threshold (raw # rest) st = rbind (scan_line threshold raw st) (scan_log threshold rest)"

definition METHOD :: string where
  "METHOD = ''structural: per-line JSON parseability + ``time`` field presence + request/response ``request.id`` pairing. '' @
     ''Vault does NOT ship cryptographic chain across records.''"

definition count_json :: "nat \<Rightarrow> json" where "count_json n = JInt (int n)"

definition slice_vault_audit_log :: "string option \<Rightarrow> string \<Rightarrow> int \<Rightarrow> int \<Rightarrow> int \<Rightarrow> (string \<times> json) result" where
  "slice_vault_audit_log log path since_days t0 t1 =
     (case log of
        None \<Rightarrow> Inr ([], JObj
          [(''ok'', JBool False), (''reason'', JStr (''missing: vault audit log file not found at the configured path ('' @ path @ '')'')),
           (''method'', JStr ''structural''), (''lines'', JInt 0), (''malformed'', JInt 0), (''unpaired'', JInt 0),
           (''checked_at'', JStr (isoformat t0))])
      | Some body \<Rightarrow>
          rbind (window_start t0 since_days) (\<lambda>threshold.
          rbind (scan_log threshold (splitlines body)
                   \<lparr>ls_kept = [], ls_request_ids = [], ls_malformed = 0, ls_missing_time = 0, ls_total = 0\<rparr>) (\<lambda>st.
            let unpaired = length (filter (\<lambda>(rid, n). n mod 2 \<noteq> 0) (ls_request_ids st));
                ok = (ls_malformed st = 0 \<and> ls_missing_time st = 0 \<and> unpaired = 0) in
            Inr (join_with [nl] (ls_kept st), JObj
              [(''ok'', JBool ok), (''method'', JStr METHOD), (''lines'', count_json (ls_total st)),
               (''kept_lines'', count_json (length (ls_kept st))), (''malformed'', count_json (ls_malformed st)),
               (''missing_time'', count_json (ls_missing_time st)), (''unpaired'', count_json unpaired),
               (''checked_at'', JStr (isoformat t1))]))))"

definition EM_DASH :: bytes where "EM_DASH = [CHR 0xE2, CHR 0x80, CHR 0x94]"

definition SECTION_SIGN :: bytes where "SECTION_SIGN = [CHR 0xC2, CHR 0xA7]"

definition SUMS :: string where "SUMS = ''SHA256SUMS''"

section \<open>System information\<close>

text \<open>
  What the host reports: the installed version, the exit code and output of git (\<^verbatim>\<open>None\<close> when it is missing or
  too slow) and the names of the migration files (\<^verbatim>\<open>None\<close> when the directory is missing or unreadable).
\<close>

record host_info =
  hi_version :: "string option"
  hi_git :: "(int \<times> string) option"
  hi_migrations :: "string list option"

definition UNKNOWN :: string where "UNKNOWN = ''unknown''"

definition wg_manager_version :: "host_info \<Rightarrow> string" where
  "wg_manager_version h = (case hi_version h of None \<Rightarrow> UNKNOWN | Some v \<Rightarrow> v)"

definition git_commit :: "host_info \<Rightarrow> string" where
  "git_commit h = (case hi_git h of Some (rc, out) \<Rightarrow> if rc = 0 then strip out else UNKNOWN | None \<Rightarrow> UNKNOWN)"

definition PY_SUFFIX :: string where "PY_SUFFIX = ''.py''"

definition is_py_file :: "string \<Rightarrow> bool" where
  "is_py_file n \<longleftrightarrow> 3 \<le> length n \<and> drop (length n - 3) n = PY_SUFFIX"

definition py_stem :: "string \<Rightarrow> string" where
  "py_stem n = (if n = PY_SUFFIX then n else take (length n - 3) n)"

definition alembic_head :: "host_info \<Rightarrow> string" where
  "alembic_head h =
     (case hi_migrations h of
        None \<Rightarrow> UNKNOWN
      | Some names \<Rightarrow>
          (let files = sort (filter is_py_file names) in if files = [] then UNKNOWN else py_stem (List.last files)))"

definition PACK_VERSION :: int where "PACK_VERSION = 1"

definition collect_system_info :: "host_info \<Rightarrow> int \<Rightarrow> int \<Rightarrow> json" where
  "collect_system_info h t since_days = JObj
     [(''generated_at'', JStr (isoformat t)), (''since_days'', JInt since_days), (''wg_manager_version'', JStr (wg_manager_version h)),
      (''git_commit'', JStr (git_commit h)), (''alembic_head'', JStr (alembic_head h)), (''pack_version'', JInt PACK_VERSION)]"

section \<open>The pack\<close>

definition ARTIFACT_DESCRIPTIONS :: "(string \<times> string) list" where
  "ARTIFACT_DESCRIPTIONS =
     [(''audit_events.json'',
       ''Application mutation audit log from the MySQL ``auditevent`` table, filtered to the last N days. One row per '' @
       ''create/update/delete/revoke/rotate event on a managed resource (server / client / sshkey / certificate / crypto).''),
      (''certificates.json'',
       ''Full ``certificate`` table dump (live + revoked). Each row carries serial / CN / SANs / type / validity window / '' @
       ''revocation flag '' @ EM_DASH @ '' no PEM material.''),
      (''operators.json'',
       ''Full ``operator`` registry dump (active + disabled). One row per registered admin / operator / auditor.''),
      (''vault_audit.log'',
       ''Vault audit log file (default ``/vault/logs/audit.log``) sliced to the last N days by parsing each line'' @ [CHR 0x27] @
       ''s ``time`` field. One JSON object per line, same shape Vault writes.''),
      (''vault_audit_integrity.json'',
       ''Structural integrity report over the included Vault audit log slice. Vault does NOT ship cryptographic chain across '' @
       ''records '' @ EM_DASH @ '' this report counts lines, malformed JSON, missing ``time`` fields, and unpaired request/response records.''),
      (''system.json'',
       ''Deployment context: wg-manager version, git commit, alembic head revision, the since-days window applied to the time-filtered files.''),
      (''MANIFEST.md'', ''This file '' @ EM_DASH @ '' operator-facing index of the pack.''),
      (''SHA256SUMS'',
       ''GNU coreutils-shape SHA-256 line per other file. Verify with ``sha256sum -c SHA256SUMS`` after extraction.'')]"

definition build_manifest :: "(string \<times> bytes) list \<Rightarrow> int \<Rightarrow> string \<Rightarrow> bytes" where
  "build_manifest files since_days dir_name =
     join_with [nl]
       ([''# Evidence pack '' @ EM_DASH @ '' '' @ dir_name, [],
         ''SOC 2-style evidence pack generated by `wg-manager evidence pack`.'',
         ''Last '' @ str_of_int since_days @ '' days of audit events; full cert + operator inventory.'', [], ''## Files'', []] @
        map (\<lambda>(name, desc). ''- **`'' @ name @ ''`** '' @ EM_DASH @ '' '' @ desc)
          (filter (\<lambda>(name, desc). name \<in> fst ` set files \<or> name \<in> {''MANIFEST.md'', SUMS}) ARTIFACT_DESCRIPTIONS) @
        [[], ''## Verification'', [], ''After extracting, verify the contents have not been tampered with:'', [], ''```bash'',
         ''cd '' @ dir_name, ''sha256sum -c SHA256SUMS'', ''```'', [],
         ''Every entry should report `OK`. A mismatch means the pack was modified after generation.'', [],
         ''## Vault audit-log integrity scope'', [],
         ''`vault_audit_integrity.json` reports **structural** integrity only (per-line JSON parseability, `time` field presence, '' @
         ''request/response `request.id` pairing). Vault does not ship a cryptographic chain across audit records '' @ EM_DASH @
         '' see [`docs/runbooks/backup-restore.md`](../docs/runbooks/backup-restore.md) and '' @
         ''[`docs/vault-cookbook.md`](../docs/vault-cookbook.md) '' @ SECTION_SIGN @
         ''6 for the operator-side guarantees you actually have.'']) @ [nl]"

definition build_sha256sums :: "(bytes \<Rightarrow> string) \<Rightarrow> (string \<times> bytes) list \<Rightarrow> bytes" where
  "build_sha256sums sha files =
     join_with [nl] (map (\<lambda>(name, payload). sha payload @ ''  '' @ name) (filter (\<lambda>(name, _). name \<noteq> SUMS) (sort_key fst files))) @ [nl]"

text \<open>\<^verbatim>\<open>strftime("%Y%m%dT%H%M%SZ")\<close>.\<close>

definition default_pack_dir_name :: "int \<Rightarrow> string" where
  "default_pack_dir_name t =
     (let (y, m, d) = ord2ymd (t div day_micros + EPOCH_ORD); us = t mod day_micros in
      ''evidence-pack-'' @ pad 4 y @ pad 2 m @ pad 2 d @ ''T'' @
      pad 2 (us div 3600000000) @ pad 2 (us div 60000000 mod 60) @ pad 2 (us div 1000000 mod 60) @ ''Z'')"

definition encode_json :: "json \<Rightarrow> bytes" where "encode_json v = json_pretty 0 v"

record pack_options =
  pk_dir_name :: "string option"
  pk_since_days :: int
  pk_log_path :: string

text \<open>
  The members of the archive with their contents and modification times, in order. \<^verbatim>\<open>clock i\<close> is the \<^verbatim>\<open>i\<close>-th reading of
  the clock, \<^verbatim>\<open>log\<close> the log file when it is one.
\<close>

definition pack_files :: "(bytes \<Rightarrow> string) \<Rightarrow> (nat \<Rightarrow> int) \<Rightarrow> host_info \<Rightarrow> string option \<Rightarrow> pack_options \<Rightarrow> string \<Rightarrow> state \<Rightarrow>
    (string \<times> bytes) list result" where
  "pack_files sha clock h log opts dir_name s =
     rbind (dump_audit_events (clock 1) (clock 2) (audit_events s) (pk_since_days opts)) (\<lambda>audit.
     let certs = dump_certificates (clock 3) (certificates s); ops = dump_operators (clock 4) (operators s) in
     rbind (slice_vault_audit_log log (pk_log_path opts) (pk_since_days opts) (clock 5) (clock 6)) (\<lambda>(sliced_log, integrity).
     let system = collect_system_info h (clock 7) (pk_since_days opts);
         core = [(''audit_events.json'', encode_json audit), (''certificates.json'', encode_json certs), (''operators.json'', encode_json ops),
                 (''vault_audit.log'', sliced_log), (''vault_audit_integrity.json'', encode_json integrity), (''system.json'', encode_json system)];
         files = core @ [(''MANIFEST.md'', build_manifest core (pk_since_days opts) dir_name)] in
     Inr (files @ [(SUMS, build_sha256sums sha files)])))"

definition build_pack :: "(bytes \<Rightarrow> string) \<Rightarrow> (nat \<Rightarrow> int) \<Rightarrow> host_info \<Rightarrow> string option \<Rightarrow> pack_options \<Rightarrow> state \<Rightarrow>
    (string \<times> bytes \<times> int) list result" where
  "build_pack sha clock h log opts s =
     (let dir_name = (case pk_dir_name opts of Some n \<Rightarrow> if n = [] then default_pack_dir_name (clock 0) else n
                                           | None \<Rightarrow> default_pack_dir_name (clock 0)) in
      rbind (pack_files sha clock h log opts dir_name s) (\<lambda>files.
        Inr (map (\<lambda>(i, name, payload). (dir_name @ ''/'' @ name, payload, clock (8 + i) div 1000000)) (enumerate 0 files))))"

definition evidence_pack :: "(bytes \<Rightarrow> string) \<Rightarrow> (nat \<Rightarrow> int) \<Rightarrow> host_info \<Rightarrow> string option \<Rightarrow> string \<Rightarrow> int \<Rightarrow> string \<Rightarrow> state \<Rightarrow>
    ((string \<times> bytes \<times> int) list \<times> string) result" where
  "evidence_pack sha clock h log output since_days log_path s =
     rbind (build_pack sha clock h log \<lparr>pk_dir_name = None, pk_since_days = since_days, pk_log_path = log_path\<rparr> s) (\<lambda>archive.
       Inr (archive, ''evidence pack written to '' @ output))"

end
