(* ===== verification/Evidence_Props.thy ===== *)
theory Evidence_Props
  imports Evidence Cert_Props
begin

text \<open>
  Properties of the evidence pack: what the slice of the audit log holds and what its report means, that a pack
  verifies itself, and that the registry read out of a pack names the revoked certificates.
\<close>

section \<open>What the slice holds\<close>

text \<open>
  The reading of one line on its own: the instant of its \<^verbatim>\<open>time\<close> field when there is one with an offset,
  the request id it names, and the two kinds of line the loop does not survive.
\<close>

definition line_entry :: "string \<Rightarrow> (string \<times> json) list option" where
  "line_entry raw = (case json_loads raw of Inr (JObj entry) \<Rightarrow> Some entry | _ \<Rightarrow> None)"

definition entry_time :: "(string \<times> json) list \<Rightarrow> (int \<times> bool) option" where
  "entry_time entry =
     (case map_of entry ''time'' of
        Some (JStr s) \<Rightarrow> (case fromisoformat (normalise_z s) of Inr r \<Rightarrow> Some r | Inl _ \<Rightarrow> None)
      | _ \<Rightarrow> None)"

definition log_time :: "string \<Rightarrow> int option" where
  "log_time raw =
     (case Option.bind (line_entry raw) entry_time of Some (t, aware) \<Rightarrow> if aware then Some t else None | None \<Rightarrow> None)"

definition entry_request :: "(string \<times> json) list \<Rightarrow> string option" where
  "entry_request entry =
     (case map_of entry ''request'' of
        Some (JObj req) \<Rightarrow> (case map_of req ''id'' of Some (JStr rid) \<Rightarrow> if rid \<noteq> [] then Some rid else None | _ \<Rightarrow> None)
      | _ \<Rightarrow> None)"

definition log_request :: "string \<Rightarrow> string option" where
  "log_request raw = (if log_time raw = None then None else Option.bind (line_entry raw) entry_request)"

definition blank :: "string \<Rightarrow> bool" where "blank raw \<longleftrightarrow> strip raw = []"

definition in_window :: "int \<Rightarrow> string \<Rightarrow> bool" where
  "in_window threshold raw \<longleftrightarrow> \<not> blank raw \<and> (case log_time raw of None \<Rightarrow> False | Some t \<Rightarrow> threshold \<le> t)"

definition unreadable :: "string \<Rightarrow> bool" where
  "unreadable raw \<longleftrightarrow> \<not> blank raw \<and>
     ((\<exists>v. json_loads raw = Inr v \<and> line_entry raw = None) \<or> (\<exists>t. Option.bind (line_entry raw) entry_time = Some (t, False)))"

definition count_of :: "(string \<times> nat) list \<Rightarrow> string \<Rightarrow> nat" where
  "count_of c k = (case map_of c k of None \<Rightarrow> 0 | Some n \<Rightarrow> n)"

lemma count_bump: "count_of (counter_bump k c) x = count_of c x + (if x = k then 1 else 0)"
  by (simp add: count_of_def counter_bump_def map_of_dict_put)

lemma track_eq:
  "maybe_track_request_id entry c = (case entry_request entry of None \<Rightarrow> c | Some rid \<Rightarrow> counter_bump rid c)"
  by (simp add: maybe_track_request_id_def entry_request_def split: option.splits json.splits)

lemma unpaired_card:
  assumes "distinct (map fst c)"
  shows "length (filter (\<lambda>(rid, n). n mod 2 \<noteq> 0) c) = card {rid. odd (count_of c rid)}"
proof -
  let ?odd = "filter (\<lambda>(rid, n). n mod 2 \<noteq> 0) c"
  have "{rid. odd (count_of c rid)} = fst ` set ?odd"
  proof (intro equalityI subsetI)
    fix rid assume "rid \<in> {rid. odd (count_of c rid)}"
    then obtain n where "map_of c rid = Some n" "odd n" by (auto simp: count_of_def split: option.splits)
    then show "rid \<in> fst ` set ?odd" by (force dest: map_of_SomeD simp: odd_iff_mod_2_eq_one)
  next
    fix rid assume "rid \<in> fst ` set ?odd"
    then obtain n where "(rid, n) \<in> set c" "odd n" by (auto simp: odd_iff_mod_2_eq_one)
    then show "rid \<in> {rid. odd (count_of c rid)}" using map_of_is_SomeI [OF assms] by (simp add: count_of_def)
  qed
  moreover have "distinct (map fst ?odd)" using assms by (rule distinct_map_filter)
  then have "card (fst ` set ?odd) = length ?odd" using distinct_card [of "map fst ?odd"] by simp
  ultimately show ?thesis by simp
qed

lemma window_lines:
  "filter (in_window thr) ls = filter (\<lambda>l. \<exists>t. log_time l = Some t \<and> thr \<le> t) (filter (\<lambda>l. strip l \<noteq> []) ls)"
  by (induction ls) (auto simp: in_window_def blank_def split: option.splits)

text \<open>Lines that are no JSON, and JSON lines without a usable instant.\<close>

definition no_json :: "string \<Rightarrow> bool" where "no_json raw \<longleftrightarrow> \<not> blank raw \<and> (\<exists>e. json_loads raw = Inl e)"

definition no_instant :: "string \<Rightarrow> bool" where
  "no_instant raw \<longleftrightarrow> \<not> blank raw \<and> \<not> (\<exists>e. json_loads raw = Inl e) \<and> log_time raw = None"

definition scan_inv :: "int \<Rightarrow> string list \<Rightarrow> log_scan \<Rightarrow> bool" where
  "scan_inv threshold seen st \<longleftrightarrow>
     ls_kept st = filter (in_window threshold) seen \<and>
     distinct (map fst (ls_request_ids st)) \<and>
     (\<forall>rid. count_of (ls_request_ids st) rid = length (filter (\<lambda>l. \<not> blank l \<and> log_request l = Some rid) seen)) \<and>
     ls_malformed st = length (filter no_json seen) \<and> ls_missing_time st = length (filter no_instant seen) \<and>
     ls_total st = length (filter (\<lambda>l. \<not> blank l) seen) \<and>
     \<not> list_ex unreadable seen"

lemma scan_inv_skip:
  assumes "scan_inv thr seen st" and "\<not> blank raw" and "log_time raw = None" and "\<not> unreadable raw"
    and "ls_malformed st' = ls_malformed st + (if no_json raw then 1 else 0)"
    and "ls_missing_time st' = ls_missing_time st + (if no_instant raw then 1 else 0)"
    and "ls_total st' = Suc (ls_total st)" and "ls_kept st' = ls_kept st" and "ls_request_ids st' = ls_request_ids st"
  shows "scan_inv thr (seen @ [raw]) st'"
  using assms unfolding scan_inv_def by (simp add: in_window_def log_request_def)

lemma scan_inv_line:
  assumes "scan_inv thr seen st" and "\<not> blank raw" and "log_time raw = Some t" and "line_entry raw = Some entry" and "\<not> unreadable raw"
    and "ls_malformed st' = ls_malformed st" and "ls_missing_time st' = ls_missing_time st"
    and "ls_total st' = Suc (ls_total st)" and "ls_kept st' = ls_kept st @ (if t < thr then [] else [raw])"
    and "ls_request_ids st' = maybe_track_request_id entry (ls_request_ids st)"
  shows "scan_inv thr (seen @ [raw]) st'"
proof -
  have rq: "log_request raw = entry_request entry" using assms(3,4) by (simp add: log_request_def)
  have "distinct (map fst (ls_request_ids st'))"
    using assms(1,10) by (simp add: scan_inv_def track_eq counter_bump_def keys_dict_put split: option.splits)
  moreover have "count_of (ls_request_ids st') rid = count_of (ls_request_ids st) rid + (if log_request raw = Some rid then 1 else 0)" for rid
    using assms(10) rq by (simp add: track_eq count_bump split: option.splits)
  moreover have "\<not> no_json raw" "\<not> no_instant raw"
    using assms(3,4) by (auto simp: no_json_def no_instant_def line_entry_def)
  ultimately show ?thesis using assms unfolding scan_inv_def by (simp add: in_window_def)
qed

lemma scan_line_cases:
  assumes "scan_line thr raw st = Inr st'" and "\<not> blank raw"
  obtains e where "json_loads raw = Inl e" and "st' = st\<lparr>ls_total := ls_total st + 1, ls_malformed := ls_malformed st + 1\<rparr>"
  | entry where "json_loads raw = Inr (JObj entry)" and "entry_time entry = None"
      and "st' = st\<lparr>ls_total := ls_total st + 1, ls_missing_time := ls_missing_time st + 1\<rparr>"
  | entry t where "json_loads raw = Inr (JObj entry)" and "entry_time entry = Some (t, True)"
      and "st' = st\<lparr>ls_total := ls_total st + 1, ls_kept := ls_kept st @ (if t < thr then [] else [raw]),
               ls_request_ids := maybe_track_request_id entry (ls_request_ids st)\<rparr>"
  using assms unfolding scan_line_def blank_def entry_time_def Let_def
  by (simp split: option.splits json.splits sum.splits prod.splits if_splits)

lemma scan_line_inv:
  assumes inv: "scan_inv thr seen st" and step: "scan_line thr raw st = Inr st'"
  shows "scan_inv thr (seen @ [raw]) st'"
proof (cases "blank raw")
  case True
  then have "st' = st" using step by (simp add: scan_line_def blank_def)
  with True inv show ?thesis unfolding scan_inv_def by (simp add: in_window_def unreadable_def no_json_def no_instant_def)
next
  case nb: False
  from step nb show ?thesis
  proof (cases rule: scan_line_cases)
    case (1 e)
    then have "line_entry raw = None" by (simp add: line_entry_def)
    then have "log_time raw = None" "\<not> unreadable raw" using 1 by (simp_all add: log_time_def unreadable_def)
    moreover have "no_json raw" "\<not> no_instant raw" using 1 nb by (auto simp: no_json_def no_instant_def)
    ultimately show ?thesis using scan_inv_skip [OF inv nb] 1 by simp
  next
    case (2 entry)
    then have "line_entry raw = Some entry" by (simp add: line_entry_def)
    then have "log_time raw = None" "\<not> unreadable raw" using 2 by (simp_all add: log_time_def unreadable_def)
    moreover from this have "\<not> no_json raw" "no_instant raw" using 2 nb by (auto simp: no_json_def no_instant_def)
    ultimately show ?thesis using scan_inv_skip [OF inv nb] 2 by simp
  next
    case (3 entry t)
    then have le: "line_entry raw = Some entry" by (simp add: line_entry_def)
    then have "log_time raw = Some t" "\<not> unreadable raw" using 3 by (simp_all add: log_time_def unreadable_def)
    from scan_inv_line [OF inv nb this(1) le this(2)] 3 show ?thesis by simp
  qed
qed

lemma scan_log_inv:
  "scan_inv thr seen st \<Longrightarrow> scan_log thr ls st = Inr st' \<Longrightarrow> scan_inv thr (seen @ ls) st'"
proof (induction ls arbitrary: seen st)
  case (Cons l ls)
  then obtain st1 where "scan_line thr l st = Inr st1" "scan_log thr ls st1 = Inr st'" by (auto simp: result_simps)
  with Cons.IH [of "seen @ [l]" st1] scan_line_inv [OF Cons.prems(1)] show ?case by simp
qed simp

lemma scan_line_raises: "(\<exists>e. scan_line thr raw st = Inl e) \<longleftrightarrow> unreadable raw"
  unfolding scan_line_def unreadable_def blank_def line_entry_def entry_time_def Let_def
  by (simp split: option.splits json.splits sum.splits prod.splits)

lemma scan_log_raises: "(\<exists>e. scan_log thr ls st = Inl e) \<longleftrightarrow> list_ex unreadable ls"
proof (induction ls arbitrary: st)
  case (Cons l ls)
  then show ?case using scan_line_raises [of thr l st] by (cases "scan_line thr l st") (auto simp: result_simps)
qed simp


text \<open>
  C37: when a log is read without an exception (\<^verbatim>\<open>slice_raises_iff\<close> says when), the slice is exactly its non-blank lines
  that carry an instant inside the window, in order, and the report counts over the whole log, lines outside of
  the window included: \<^verbatim>\<open>lines\<close> the non-blank lines, \<^verbatim>\<open>kept_lines\<close> those of the slice, \<^verbatim>\<open>malformed\<close> the lines that are no
  JSON, \<^verbatim>\<open>missing_time\<close> the JSON lines without a usable instant, \<^verbatim>\<open>unpaired\<close> the request ids that an odd number of lines
  with an instant name; \<^verbatim>\<open>ok\<close> says that the last three are zero.
\<close>

theorem slice_reports_log:
  assumes "slice_vault_audit_log (Some body) path since_days t0 t1 = Inr (sliced, report)"
  shows "let lines = filter (\<lambda>l. strip l \<noteq> []) (splitlines body);
      kept = filter (\<lambda>l. \<exists>t. log_time l = Some t \<and> t0 - since_days * day_micros \<le> t) lines;
      malformed = length (filter (\<lambda>l. isl (json_loads l)) lines);
      missing = length (filter (\<lambda>l. \<not> isl (json_loads l) \<and> log_time l = None) lines);
      unpaired = card {rid. odd (length (filter (\<lambda>l. log_request l = Some rid) lines))} in
    sliced = join_with [nl] kept \<and>
    report = JObj [(''ok'', JBool (malformed = 0 \<and> missing = 0 \<and> unpaired = 0)), (''method'', JStr METHOD),
      (''lines'', JInt (int (length lines))), (''kept_lines'', JInt (int (length kept))), (''malformed'', JInt (int malformed)),
      (''missing_time'', JInt (int missing)), (''unpaired'', JInt (int unpaired)), (''checked_at'', JStr (isoformat t1))]"
proof -
  let ?thr = "t0 - since_days * day_micros"
  let ?lines = "filter (\<lambda>l. strip l \<noteq> []) (splitlines body)"
  let ?st0 = "\<lparr>ls_kept = [], ls_request_ids = [], ls_malformed = 0, ls_missing_time = 0, ls_total = 0\<rparr>"
  from assms obtain st where st: "scan_log ?thr (splitlines body) ?st0 = Inr st" and sl: "sliced = join_with [nl] (ls_kept st)"
    and report: "report = (let unpaired = length (filter (\<lambda>(rid, n). n mod 2 \<noteq> 0) (ls_request_ids st)) in JObj
      [(''ok'', JBool (ls_malformed st = 0 \<and> ls_missing_time st = 0 \<and> unpaired = 0)), (''method'', JStr METHOD),
       (''lines'', JInt (int (ls_total st))), (''kept_lines'', JInt (int (length (ls_kept st)))),
       (''malformed'', JInt (int (ls_malformed st))), (''missing_time'', JInt (int (ls_missing_time st))),
       (''unpaired'', JInt (int unpaired)), (''checked_at'', JStr (isoformat t1))])"
    by (auto simp: slice_vault_audit_log_def window_start_def Let_def result_simps count_json_def split: if_splits)
  have "scan_inv ?thr [] ?st0" by (simp add: scan_inv_def count_of_def)
  from scan_log_inv [OF this st] have inv: "scan_inv ?thr (splitlines body) st" by simp
  have kept: "ls_kept st = filter (\<lambda>l. \<exists>t. log_time l = Some t \<and> ?thr \<le> t) ?lines"
    using inv by (simp add: scan_inv_def window_lines)
  have counts: "ls_total st = length ?lines" "ls_malformed st = length (filter (\<lambda>l. isl (json_loads l)) ?lines)"
    "ls_missing_time st = length (filter (\<lambda>l. \<not> isl (json_loads l) \<and> log_time l = None) ?lines)"
    using inv by (simp_all add: scan_inv_def no_json_def [abs_def] no_instant_def [abs_def] blank_def isl_def)
  have "count_of (ls_request_ids st) rid = length (filter (\<lambda>l. log_request l = Some rid) ?lines)" for rid
    using inv by (simp add: scan_inv_def blank_def)
  then have unpaired: "length (filter (\<lambda>(rid, n). n mod 2 \<noteq> 0) (ls_request_ids st)) =
      card {rid. odd (length (filter (\<lambda>l. log_request l = Some rid) ?lines))}"
    using inv unpaired_card [of "ls_request_ids st"] by (simp add: scan_inv_def)
  show ?thesis unfolding Let_def sl report kept counts unpaired by simp
qed

text \<open>
  A log whose lines are all unreadable or fine decides whether there is a pack at all: the slice raises exactly
  when a line is JSON but no object or carries an instant without an offset (or the window leaves the range of
  \<^verbatim>\<open>datetime\<close>).
\<close>

theorem slice_raises_iff:
  "(\<exists>e. slice_vault_audit_log (Some body) path since_days t0 t1 = Inl e) \<longleftrightarrow>
     \<not> representable (t0 - since_days * day_micros) \<or> list_ex unreadable (splitlines body)"
  using scan_log_raises [of "t0 - since_days * day_micros" "splitlines body"
      "\<lparr>ls_kept = [], ls_request_ids = [], ls_malformed = 0, ls_missing_time = 0, ls_total = 0\<rparr>"]
  by (auto simp: slice_vault_audit_log_def window_start_def Let_def result_simps)

section \<open>Verifying a pack\<close>

text \<open>
  \<^verbatim>\<open>sha256sum -c SHA256SUMS\<close> in a directory: each line is a digest of 64 characters, two spaces and a file name,
  and the named file is read and hashed.
\<close>

definition sum_entries :: "bytes \<Rightarrow> (string \<times> string) list" where
  "sum_entries sums = map (\<lambda>l. (drop 66 l, take 64 l)) (filter (\<lambda>l. l \<noteq> []) (split_on nl sums))"

definition sha256sum_check :: "(bytes \<Rightarrow> string) \<Rightarrow> (string \<Rightarrow> bytes option) \<Rightarrow> (string \<times> bool) list" where
  "sha256sum_check sha dir =
     (case dir SUMS of None \<Rightarrow> []
      | Some sums \<Rightarrow> map (\<lambda>(name, digest). (name, map_option sha (dir name) = Some digest)) (sum_entries sums))"

definition hex_digest :: "(bytes \<Rightarrow> string) \<Rightarrow> bool" where
  "hex_digest sha \<longleftrightarrow> (\<forall>b. length (sha b) = 64 \<and> nl \<notin> set (sha b))"

definition pack_names :: "string list" where
  "pack_names = [''audit_events.json'', ''certificates.json'', ''operators.json'', ''vault_audit.log'', ''vault_audit_integrity.json'',
     ''system.json'', ''MANIFEST.md'']"

text \<open>What a reader of \<^verbatim>\<open>certificates.json\<close> takes for the revoked serials.\<close>

definition row_revoked_serial :: "json \<Rightarrow> string option" where
  "row_revoked_serial row =
     (case row of
        JObj kvs \<Rightarrow>
          if map_of kvs ''revoked'' = Some (JBool True)
          then (case map_of kvs ''serial'' of Some (JStr serial) \<Rightarrow> Some serial | _ \<Rightarrow> None) else None
      | _ \<Rightarrow> None)"

definition revoked_serials :: "bytes \<Rightarrow> string list" where
  "revoked_serials file =
     (case json_loads file of
        Inr (JObj v) \<Rightarrow> (case map_of v ''rows'' of Some (JArr rows) \<Rightarrow> List.map_filter row_revoked_serial rows | _ \<Rightarrow> [])
      | _ \<Rightarrow> [])"

lemma pack_files_shape:
  assumes "pack_files sha clock h log opts dir_name s = Inr files"
  obtains core where "files = core @ [(SUMS, build_sha256sums sha core)]" and "map fst core = pack_names"
  using assms by (auto simp: pack_files_def pack_names_def Let_def result_simps)

lemma sums_line: "hex_digest sha \<Longrightarrow> nl \<notin> set name \<Longrightarrow>
    nl \<notin> set (sha b @ ''  '' @ name) \<and> take 64 (sha b @ ''  '' @ name) = sha b \<and> drop 66 (sha b @ ''  '' @ name) = name"
  by (simp add: hex_digest_def nl_def)

lemma join_with_snoc: "ls \<noteq> [] \<Longrightarrow> join_with sep (ls @ [l]) = join_with sep ls @ sep @ l"
  by (induction sep ls rule: join_with.induct) simp_all

lemma split_lines:
  assumes "ls \<noteq> []" and "\<And>l. l \<in> set ls \<Longrightarrow> c \<notin> set l"
  shows "split_on c (join_with [c] ls @ [c]) = ls @ [[]]"
proof -
  have "split_on c (join_with [c] (ls @ [[]])) = ls @ [[]]" using assms(2) by (intro split_join) auto
  then show ?thesis using assms(1) by (simp add: join_with_snoc)
qed

lemma sum_entries_build:
  assumes sha: "hex_digest sha" and ne: "core \<noteq> []" and names: "\<forall>(name, b) \<in> set core. nl \<notin> set name \<and> name \<noteq> SUMS"
  shows "sum_entries (build_sha256sums sha core) = map (\<lambda>(name, b). (name, sha b)) (sort_key fst core)"
proof -
  let ?ls = "map (\<lambda>(name, b). sha b @ ''  '' @ name) (sort_key fst core)"
  have keep: "filter (\<lambda>(name, _). name \<noteq> SUMS) (sort_key fst core) = sort_key fst core"
    using names by (auto simp: filter_id_conv)
  have "?ls \<noteq> []" using ne by (metis Nil_is_map_conv length_0_conv length_sort)
  moreover have "nl \<notin> set l" if "l \<in> set ?ls" for l using that names sums_line [OF sha] by auto
  ultimately have "split_on nl (join_with [nl] ?ls @ [nl]) = ?ls @ [[]]" by (rule split_lines)
  moreover have "filter (\<lambda>l. l \<noteq> []) ?ls = ?ls" by (auto simp: filter_id_conv)
  ultimately have "sum_entries (build_sha256sums sha core) = map (\<lambda>l. (drop 66 l, take 64 l)) ?ls"
    by (simp add: sum_entries_def build_sha256sums_def keep)
  also have "\<dots> = map (\<lambda>(name, b). (name, sha b)) (sort_key fst core)"
    using names sums_line [OF sha] by auto
  finally show ?thesis .
qed

text \<open>
  a pack verifies itself. In any directory that holds the pack's digest file, \<^verbatim>\<open>sha256sum -c\<close> reports every other
  file of the pack, and reports only successes exactly when each of them has contents with the digest of what the
  pack put there: an untouched pack passes, a changed or missing file is reported.
\<close>

theorem pack_verifies_itself:
  assumes "hex_digest sha" and "pack_files sha clock h log opts dir_name s = Inr files" and "dir SUMS = map_of files SUMS"
  shows "mset (map fst (sha256sum_check sha dir)) = mset pack_names \<and>
    (list_all snd (sha256sum_check sha dir) \<longleftrightarrow>
      (\<forall>(name, b) \<in> set files. name \<noteq> SUMS \<longrightarrow> map_option sha (dir name) = Some (sha b)))"
proof -
  obtain core where files: "files = core @ [(SUMS, build_sha256sums sha core)]" and names: "map fst core = pack_names"
    using pack_files_shape [OF assms(2)] by blast
  have "SUMS \<notin> set (map fst core)" and "\<forall>n \<in> set (map fst core). nl \<notin> set n" and "core \<noteq> []"
    using names by (auto simp: pack_names_def SUMS_def nl_def)
  then have plain: "\<forall>(name, b) \<in> set core. nl \<notin> set name \<and> name \<noteq> SUMS" by force
  have "map_of core SUMS = None" using \<open>SUMS \<notin> set (map fst core)\<close> by (simp add: map_of_eq_None_iff)
  then have "dir SUMS = Some (build_sha256sums sha core)" using assms(3) files by (simp add: map_add_def)
  then have check: "sha256sum_check sha dir = map (\<lambda>(name, b). (name, map_option sha (dir name) = Some (sha b))) (sort_key fst core)"
    using sum_entries_build [OF assms(1) \<open>core \<noteq> []\<close> plain] by (simp add: sha256sum_check_def case_prod_unfold)
  then have "map fst (sha256sum_check sha dir) = map fst (sort_key fst core)" by (simp add: case_prod_unfold)
  then have "mset (map fst (sha256sum_check sha dir)) = mset pack_names" by (simp flip: names)
  moreover have "list_all snd (sha256sum_check sha dir) \<longleftrightarrow> (\<forall>(name, b) \<in> set core. map_option sha (dir name) = Some (sha b))"
    by (simp add: check list_all_iff case_prod_unfold)
  ultimately show ?thesis using plain files by fastforce
qed

text \<open>
  Whoever reads \<^verbatim>\<open>certificates.json\<close> out of a pack finds exactly the serials of the revoked rows of the registry, in
  the order of their ids.
\<close>

theorem pack_lists_revocations:
  assumes "pack_files sha clock h log opts dir_name s = Inr files"
  shows "map_option revoked_serials (map_of files ''certificates.json'') =
    Some (map crt_serial (filter crt_revoked (sort_key crt_id (certificates s))))"
proof -
  have body: "map_of files ''certificates.json'' = Some (encode_json (dump_certificates (clock 3) (certificates s)))"
    using assms by (auto simp: pack_files_def Let_def result_simps)
  have plain: "json_plain (certificate_row c)" for c
    by (simp add: certificate_row_def json_opt_def json_int_opt_def json_time_opt_def split: option.splits)
  then have read: "json_loads (encode_json (dump_certificates t cs)) = Inr (json_norm (dump_certificates t cs))" for t cs
    unfolding encode_json_def by (intro json_loads_pretty) (simp add: dump_certificates_def Let_def list_all_iff)
  have row: "row_revoked_serial (json_norm (certificate_row c)) = (if crt_revoked c then Some (crt_serial c) else None)" for c
    by (simp add: certificate_row_def row_revoked_serial_def json_opt_def json_int_opt_def json_time_opt_def split: option.splits)
  have "List.map_filter row_revoked_serial (map (json_norm \<circ> certificate_row) rows) = map crt_serial (filter crt_revoked rows)" for rows
    by (induction rows) (simp_all add: row List.map_filter_simps)
  moreover have "\<exists>v. json_norm (dump_certificates t cs) = JObj v \<and>
      map_of v ''rows'' = Some (JArr (map (json_norm \<circ> certificate_row) (sort_key crt_id cs)))" for t cs
    by (simp add: dump_certificates_def Let_def)
  then obtain v where "json_norm (dump_certificates (clock 3) (certificates s)) = JObj v"
    and "map_of v ''rows'' = Some (JArr (map (json_norm \<circ> certificate_row) (sort_key crt_id (certificates s))))" by blast
  ultimately show ?thesis by (simp add: body revoked_serials_def read)
qed

section \<open>Witnesses\<close>

definition sample_host :: host_info where
  "sample_host = \<lparr>hi_version = Some ''0.1.0'', hi_git = Some (0, ''abc1234'' @ [nl]), hi_migrations = Some [''0002_b.py'', ''0001_a.py'']\<rparr>"

definition sample_sha :: "bytes \<Rightarrow> string" where
  "sample_sha b = replicate 63 CHR ''0'' @ [digit_char (length b mod 10)]"

definition quoted :: "string \<Rightarrow> string" where "quoted s = CHR 0x22 # s @ [CHR 0x22]"

definition sample_line :: "string \<Rightarrow> string \<Rightarrow> string" where
  "sample_line time rid =
     ''{'' @ quoted ''time'' @ '':'' @ quoted time @ '','' @ quoted ''request'' @ '':{'' @ quoted ''id'' @ '':'' @ quoted rid @ ''}}''"

definition sample_log :: string where
  "sample_log = join_with [nl] [sample_line ''1970-01-01T00:00:00Z'' ''r'', [], sample_line ''1970-01-03T00:00:01.5Z'' ''r'']"

lemma system_samples: "git_commit sample_host = ''abc1234''" "alembic_head sample_host = ''0002_b''"
  by code_simp+

lemma slice_sample:
  "case slice_vault_audit_log (Some sample_log) ''/vault/logs/audit.log'' 1 (2 * day_micros) (2 * day_micros) of
     Inr (sliced, JObj rep) \<Rightarrow> map_of rep ''ok'' = Some (JBool True) | _ \<Rightarrow> False"
  by code_simp

theorem slice_reports_log_witness:
  "\<exists>rep. slice_vault_audit_log (Some sample_log) ''/vault/logs/audit.log'' 1 (2 * day_micros) (2 * day_micros) =
       Inr (sample_line ''1970-01-03T00:00:01.5Z'' ''r'', JObj rep) \<and>
     map_of rep ''ok'' = Some (JBool True) \<and> map_of rep ''kept_lines'' = Some (JInt 1)"
proof -
  let ?slice = "slice_vault_audit_log (Some sample_log) ''/vault/logs/audit.log'' 1 (2 * day_micros) (2 * day_micros)"
  obtain sliced rep where r: "?slice = Inr (sliced, JObj rep)" and ok: "map_of rep ''ok'' = Some (JBool True)"
    using slice_sample by (auto split: sum.splits json.splits prod.splits) (metis json.exhaust)
  have "filter (in_window (2 * day_micros - 1 * day_micros)) (splitlines sample_log) = [sample_line ''1970-01-03T00:00:01.5Z'' ''r'']"
    by code_simp
  then have "filter (\<lambda>l. \<exists>t. log_time l = Some t \<and> 2 * day_micros - 1 * day_micros \<le> t) (filter (\<lambda>l. strip l \<noteq> []) (splitlines sample_log)) =
      [sample_line ''1970-01-03T00:00:01.5Z'' ''r'']"
    by (simp only: window_lines)
  with slice_reports_log [OF r] r ok show ?thesis by (auto simp: Let_def)
qed

lemma unreadable_samples:
  "unreadable ''[]''" "unreadable (''{'' @ quoted ''time'' @ '':'' @ quoted ''2026-01-01T00:00:00'' @ ''}'')"
proof -
  have "blank ''[]'' = False" "json_loads ''[]'' = Inr (JArr [])" "line_entry ''[]'' = None" by code_simp+
  then show "unreadable ''[]''" unfolding unreadable_def by simp
  let ?l = "''{'' @ quoted ''time'' @ '':'' @ quoted ''2026-01-01T00:00:00'' @ ''}''"
  have "blank ?l = False" "Option.bind (line_entry ?l) entry_time = Some (1767225600000000, False)" by code_simp+
  then show "unreadable ?l" unfolding unreadable_def by blast
qed

definition sample_pack :: "(string \<times> bytes) list result" where
  "sample_pack = pack_files sample_sha (\<lambda>i. int i) sample_host None
     \<lparr>pk_dir_name = None, pk_since_days = 30, pk_log_path = ''/vault/logs/audit.log''\<rparr> ''pack'' cert_db"

lemma sample_pack_ok: "\<exists>files. sample_pack = Inr files"
proof -
  have "representable (1 - 30 * day_micros)" by code_simp
  then show ?thesis
    by (simp add: sample_pack_def pack_files_def dump_audit_events_def window_start_def slice_vault_audit_log_def Let_def)
qed

lemma sample_sha_digest: "hex_digest sample_sha"
proof -
  have "\<not> is_digit nl" by (simp add: is_digit_def nl_def)
  then have "nl \<noteq> digit_char d" if "d < 10" for d using is_digit_digit_char [OF that] by metis
  moreover have "nl \<noteq> CHR ''0''" by (simp add: nl_def)
  ultimately show ?thesis by (simp add: hex_digest_def sample_sha_def)
qed

theorem pack_verifies_itself_witness:
  "\<exists>files. sample_pack = Inr files \<and> list_all snd (sha256sum_check sample_sha (map_of files)) \<and>
     \<not> list_all snd (sha256sum_check sample_sha ((map_of files)(''operators.json'' := None)))"
proof -
  obtain files where f: "sample_pack = Inr files" using sample_pack_ok by blast
  note th = pack_verifies_itself [OF sample_sha_digest f [unfolded sample_pack_def]]
  obtain core where shape: "files = core @ [(SUMS, build_sha256sums sample_sha core)]" "map fst core = pack_names"
    using pack_files_shape [OF f [unfolded sample_pack_def]] by blast
  have d: "distinct (map fst files)" by (simp add: shape SUMS_def pack_names_def)
  have "map_of files n = Some b" if "(n, b) \<in> set files" for n b using map_of_is_SomeI [OF d that] .
  then have "list_all snd (sha256sum_check sample_sha (map_of files))" using th [of "map_of files"] by auto
  moreover have "''operators.json'' \<in> set (map fst core)" by (simp add: shape pack_names_def)
  then obtain b where "(''operators.json'', b) \<in> set files" unfolding shape(1) by fastforce
  then have "\<not> list_all snd (sha256sum_check sample_sha ((map_of files)(''operators.json'' := None)))"
    using th [of "(map_of files)(''operators.json'' := None)"] by (force simp: SUMS_def)
  ultimately show ?thesis using f by blast
qed

theorem pack_lists_revocations_witness:
  "\<exists>files. sample_pack = Inr files \<and> map_option revoked_serials (map_of files ''certificates.json'') =
     Some (map crt_serial (filter crt_revoked (sort_key crt_id (certificates cert_db))))"
  using pack_lists_revocations sample_pack_ok unfolding sample_pack_def by blast

end
