(* ===== verification/Enroll_Metrics.thy ===== *)
theory Enroll_Metrics
  imports Enroll_Limits Enroll_App Certs
begin

text \<open>
  \<^verbatim>\<open>enroll_metrics.py\<close> and the counting middleware of \<^verbatim>\<open>enroll_app.py\<close>: outcomes of enrollment requests as
  counters in one store, in the process or in one Valkey hash. The contract of both stores is the
  locale \<^verbatim>\<open>enroll_metrics\<close>; together with the limiter's it gives the listener (\<^verbatim>\<open>counting_listener\<close>), whose
  counters add up. The hash commands of the Redis client and the monotonic clock are parameters; a
  \<^verbatim>\<open>RedisError\<close> is the message it carries.
\<close>

section \<open>Counters\<close>

definition HASH_KEY :: string where "HASH_KEY = ''wgm:enroll:metrics''"

definition KINDS :: "string list" where "KINDS = [''response'', ''reject'', ''rate_limited'']"

definition LOG_EVERY_SECONDS :: int where "LOG_EVERY_SECONDS = 60"

record enroll_snapshot =
  sn_responses :: "(string \<times> int) list"
  sn_rejects :: "(string \<times> int) list"
  sn_rate_limited :: "(string \<times> int) list"

definition place_field :: "(string \<Rightarrow> (string \<times> int) list) \<Rightarrow> string \<times> int \<Rightarrow> string \<Rightarrow> (string \<times> int) list" where
  "place_field by_kind fv =
     (let (name, v) = fv; (kind, sep, label) = partition_on CHR '':'' name in
      if sep \<and> label \<noteq> [] \<and> kind \<in> set KINDS then by_kind(kind := dict_put label v (by_kind kind)) else by_kind)"

definition snapshot_from_fields :: "(string \<times> int) list \<Rightarrow> enroll_snapshot" where
  "snapshot_from_fields fs =
     (let by_kind = foldl place_field (\<lambda>_. []) fs in
      \<lparr>sn_responses = by_kind ''response'', sn_rejects = by_kind ''reject'', sn_rate_limited = by_kind ''rate_limited''\<rparr>)"

definition response_field :: "int \<Rightarrow> string" where "response_field status = ''response:'' @ str_of_int status"

definition reject_field :: "string \<Rightarrow> string" where "reject_field reason = ''reject:'' @ reason"

definition limited_field :: "string \<Rightarrow> string" where "limited_field bucket = ''rate_limited:'' @ bucket"

text \<open>The \<^verbatim>\<open>record_*\<close> methods, over the \<^verbatim>\<open>_incr\<close> of a store.\<close>

definition record_response :: "(string \<Rightarrow> 'm \<Rightarrow> 'm) \<Rightarrow> int \<Rightarrow> 'm \<Rightarrow> 'm" where
  "record_response incr status = incr (response_field status)"

definition record_reject :: "(string \<Rightarrow> 'm \<Rightarrow> 'm) \<Rightarrow> string \<Rightarrow> 'm \<Rightarrow> 'm" where
  "record_reject incr reason = incr (reject_field reason)"

definition record_rate_limited :: "(string \<Rightarrow> 'm \<Rightarrow> 'm) \<Rightarrow> string \<Rightarrow> 'm \<Rightarrow> 'm" where
  "record_rate_limited incr bucket = incr (limited_field bucket)"

section \<open>The in-process store\<close>

type_synonym memory_counts = "(string \<times> int) list"

definition field_value :: "(string \<times> int) list \<Rightarrow> string \<Rightarrow> int" where
  "field_value fs name = (case map_of fs name of None \<Rightarrow> 0 | Some n \<Rightarrow> n)"

definition incr_memory :: "string \<Rightarrow> memory_counts \<Rightarrow> memory_counts" where
  "incr_memory name counts = dict_put name (field_value counts name + 1) counts"

definition snapshot_memory :: "memory_counts \<Rightarrow> enroll_snapshot result" where
  "snapshot_memory counts = Inr (snapshot_from_fields counts)"

section \<open>The shared store\<close>

record 'w hash_client =
  hincrby :: "string \<Rightarrow> string \<Rightarrow> int \<Rightarrow> 'w \<Rightarrow> 'w \<times> (string + int)"
  hgetall :: "string \<Rightarrow> 'w \<Rightarrow> string + (string \<times> string) list"

text \<open>The recorder with its throttle: the instant of the last warning and the warnings written.\<close>

record 'w redis_metrics =
  rm_store :: 'w
  rm_last_warning :: "int option"
  rm_warnings :: "(int \<times> string) list"

definition incr_redis :: "'w hash_client \<Rightarrow> int \<Rightarrow> string \<Rightarrow> 'w redis_metrics \<Rightarrow> 'w redis_metrics" where
  "incr_redis client clock name st =
     (case hincrby client HASH_KEY name 1 (rm_store st) of
        (w, Inr _) \<Rightarrow> st\<lparr>rm_store := w\<rparr>
      | (w, Inl exc) \<Rightarrow>
          if (case rm_last_warning st of None \<Rightarrow> True | Some t \<Rightarrow> LOG_EVERY_SECONDS * 1000000 \<le> clock - t)
          then st\<lparr>rm_store := w, rm_last_warning := Some clock,
                  rm_warnings := rm_warnings st @ [(clock, ''could not record enroll metrics ('' @ name @ ''): '' @ exc)]\<rparr>
          else st\<lparr>rm_store := w\<rparr>)"

fun read_fields :: "(string \<times> string) list \<Rightarrow> (string \<times> int) list \<Rightarrow> (string \<times> int) list" where
  "read_fields [] fs = fs"
| "read_fields ((name, raw) # rest) fs =
     read_fields rest (case py_int raw of Inl _ \<Rightarrow> fs | Inr n \<Rightarrow> dict_put name n fs)"

definition EnrollMetricsBackendError :: "string \<Rightarrow> exn" where
  "EnrollMetricsBackendError m = RuntimeError m"

definition snapshot_redis :: "'w hash_client \<Rightarrow> 'w redis_metrics \<Rightarrow> enroll_snapshot result" where
  "snapshot_redis client st =
     (case hgetall client HASH_KEY (rm_store st) of
        Inl exc \<Rightarrow> Inl (EnrollMetricsBackendError exc)
      | Inr raw \<Rightarrow> Inr (snapshot_from_fields (read_fields raw [])))"

definition make_enroll_metrics :: "limiter_settings \<Rightarrow> limiter_choice result" where
  "make_enroll_metrics st =
     (let backend = enroll_rate_limit_backend st in
      if backend = ''memory'' then Inr Memory_Backend
      else if backend = ''redis''
      then Inr (Redis_Backend (case enroll_rate_limit_redis_url st of
             Some u \<Rightarrow> (if u = [] then celery_broker_url st else u) | None \<Rightarrow> celery_broker_url st))
      else Inl (ValueError (''ENROLL_RATE_LIMIT_BACKEND must be 'redis' or 'memory', got '' @ py_repr backend)))"

section \<open>The listener\<close>

text \<open>
  The route: an exception the framework knows is an answer, a rejection is counted by its reason, any other
  exception leaves the application.
\<close>

fun route_reply :: "'r result \<Rightarrow> reply result" where
  "route_reply (Inr _) = Inr \<lparr>status_code = 201, reply_detail = [], reply_retry_after = None\<rparr>"
| "route_reply (Inl e) =
     (case e of
        HTTPException code detail \<Rightarrow> Inr \<lparr>status_code = code, reply_detail = detail, reply_retry_after = None\<rparr>
      | EnrollReject reason tid \<Rightarrow> Inr \<lparr>status_code = 401, reply_detail = ''invalid enrollment token'', reply_retry_after = None\<rparr>
      | _ \<Rightarrow> Inl e)"

definition enroll_route ::
  "(string \<Rightarrow> 'm \<Rightarrow> 'm) \<Rightarrow> ('s \<Rightarrow> 's \<times> 'r result) \<Rightarrow> 's \<times> 'm \<Rightarrow> ('s \<times> 'm) \<times> reply result" where
  "enroll_route incr endpoint sm =
     (let (s, m) = sm; (s', r) = endpoint s in
      ((s', case r of Inl (EnrollReject reason tid) \<Rightarrow> record_reject incr reason m | _ \<Rightarrow> m), route_reply r))"

fun count_event :: "(string \<Rightarrow> 'm \<Rightarrow> 'm) \<Rightarrow> limit_event \<Rightarrow> 'm \<Rightarrow> 'm" where
  "count_event incr (Record_Rate_Limited bucket) m = record_rate_limited incr bucket m"
| "count_event incr (Emit_Rate_Limited ip bucket retry) m = m"

text \<open>\<^verbatim>\<open>EnrollMetricsMiddleware.dispatch\<close>.\<close>

definition metrics_dispatch ::
  "(string \<Rightarrow> 'm \<Rightarrow> 'm) \<Rightarrow> string \<Rightarrow> string \<Rightarrow> ('w \<times> 'm \<Rightarrow> ('w \<times> 'm) \<times> reply result) \<Rightarrow> 'w \<times> 'm \<Rightarrow> ('w \<times> 'm) \<times> reply result" where
  "metrics_dispatch incr meth path call_next wm =
     (case call_next wm of
        (wm', Inl e) \<Rightarrow> (wm', Inl e)
      | ((w', m'), Inr rep) \<Rightarrow>
          ((w', if meth = ''POST'' \<and> path = ENROLL_PATH then record_response incr (status_code rep) m' else m'), Inr rep))"

text \<open>The listener as \<^verbatim>\<open>create_enroll_app\<close> stacks it: the counting middleware around the limits around the route.\<close>

definition listener ::
  "(string \<Rightarrow> int \<Rightarrow> int \<Rightarrow> 'l \<Rightarrow> 'l \<times> decision_rl result) \<Rightarrow> (string \<Rightarrow> int \<Rightarrow> int \<Rightarrow> 'l \<Rightarrow> 'l \<times> decision_rl result) \<Rightarrow>
   (string \<Rightarrow> 'm \<Rightarrow> 'm) \<Rightarrow> enroll_limits \<Rightarrow> string \<Rightarrow> string \<Rightarrow> string option \<Rightarrow> ('s \<Rightarrow> 's \<times> 'r result) \<Rightarrow>
   ('l \<times> 's) \<times> 'm \<Rightarrow> (('l \<times> 's) \<times> 'm) \<times> reply result" where
  "listener hit peek incr st meth path peer endpoint =
     metrics_dispatch incr meth path (\<lambda>((l, s), m).
       let ((l', s', m'), ev, r) = limited_dispatch hit peek st meth path peer (enroll_route incr endpoint) (l, s, m)
       in (((l', s'), fold (count_event incr) ev m'), r))"

section \<open>The contract of a store\<close>

text \<open>
  \<^verbatim>\<open>mcount m name\<close> is the value of a field. Counting a field adds one to it and to no other, and a snapshot shows
  every field of the three kinds under its label.
\<close>

locale enroll_metrics =
  fixes incr :: "string \<Rightarrow> 'm \<Rightarrow> 'm"
    and snap :: "'m \<Rightarrow> enroll_snapshot result"
    and mcount :: "'m \<Rightarrow> string \<Rightarrow> int"
    and mok :: "'m \<Rightarrow> bool"
  assumes incr_ok: "mok m \<Longrightarrow> mok (incr name m)"
    and incr_counts: "mok m \<Longrightarrow> mcount (incr name m) = (mcount m)(name := mcount m name + 1)"
    and snap_ok: "mok m \<Longrightarrow> \<exists>sn. snap m = Inr sn \<and>
      (\<forall>label. label \<noteq> [] \<longrightarrow> field_value (sn_responses sn) label = mcount m (''response:'' @ label) \<and>
         field_value (sn_rejects sn) label = mcount m (reject_field label) \<and>
         field_value (sn_rate_limited sn) label = mcount m (limited_field label))"

section \<open>Both stores keep the contract\<close>

lemma kind_field:
  assumes "kind \<in> set KINDS" and "label \<noteq> []"
  shows "place_field by_kind (kind @ '':'' @ label, v) = by_kind(kind := dict_put label v (by_kind kind))"
proof -
  have "CHR '':'' \<notin> set kind" using assms(1) by (auto simp: KINDS_def)
  then show ?thesis using assms by (simp add: place_field_def partition_on_append)
qed

lemma partition_found:
  assumes "partition_on c s = (k, True, l)"
  shows "s = k @ c # l"
proof -
  let ?r = "dropWhile (\<lambda>x. x \<noteq> c) s"
  have k: "k = takeWhile (\<lambda>x. x \<noteq> c) s" and r: "?r \<noteq> []" and l: "l = drop 1 ?r"
    using assms by (auto simp: partition_on_def Let_def)
  have "?r = c # l" using hd_dropWhile [OF r] r l by (cases ?r) auto
  then show ?thesis using k by (metis takeWhile_dropWhile_id)
qed

lemma place_other:
  assumes "kind \<in> set KINDS" and "label \<noteq> []" and "name \<noteq> kind @ '':'' @ label"
  shows "map_of (place_field by_kind (name, v) kind) label = map_of (by_kind kind) label"
proof -
  obtain k sep l where p: "partition_on CHR '':'' name = (k, sep, l)" by (metis prod_cases3)
  then have "name = k @ '':'' @ l" if sep using that partition_found by fastforce
  then show ?thesis using assms p by (auto simp: place_field_def map_of_dict_put)
qed

lemma foldl_place:
  assumes "distinct (map fst fs)" and "kind \<in> set KINDS" and "label \<noteq> []"
  shows "map_of (foldl place_field (\<lambda>_. []) fs kind) label = map_of fs (kind @ '':'' @ label)"
  using assms(1)
proof (induction fs rule: rev_induct)
  case (snoc x fs)
  obtain name v where x: "x = (name, v)" by fastforce
  have n: "map_of fs name = None" using snoc.prems by (auto simp: x map_of_eq_None_iff)
  show ?case
  proof (cases "name = kind @ '':'' @ label")
    case True
    then show ?thesis using n kind_field [OF assms(2,3)] by (simp add: x map_of_dict_put map_add_def)
  next
    case False
    then show ?thesis using snoc place_other [OF assms(2,3)] by (simp add: x map_add_def split: option.splits)
  qed
qed simp

lemma snapshot_fields:
  assumes "distinct (map fst fs)" and "label \<noteq> []"
  shows "field_value (sn_responses (snapshot_from_fields fs)) label = field_value fs (''response:'' @ label)"
    and "field_value (sn_rejects (snapshot_from_fields fs)) label = field_value fs (reject_field label)"
    and "field_value (sn_rate_limited (snapshot_from_fields fs)) label = field_value fs (limited_field label)"
  using foldl_place [OF assms(1) _ assms(2)]
  by (simp_all add: snapshot_from_fields_def Let_def field_value_def KINDS_def reject_field_def limited_field_def)

definition ok_memory :: "memory_counts \<Rightarrow> bool" where "ok_memory counts \<longleftrightarrow> distinct (map fst counts)"

interpretation em: enroll_metrics incr_memory snapshot_memory field_value ok_memory
proof
  show "ok_memory m \<Longrightarrow> ok_memory (incr_memory name m)" for m name
    by (simp add: ok_memory_def incr_memory_def keys_dict_put)
  show "field_value (incr_memory name m) = (field_value m)(name := field_value m name + 1)" for m name
    by (rule ext) (simp add: field_value_def incr_memory_def map_of_dict_put)
qed (simp add: ok_memory_def snapshot_memory_def snapshot_fields)

text \<open>A reachable Valkey hash: \<^verbatim>\<open>HINCRBY\<close> creates missing fields at 0, \<^verbatim>\<open>HGETALL\<close> returns the values in decimal.\<close>

type_synonym hashes = "string \<Rightarrow> (string \<times> int) list"

definition hash_store :: "hashes hash_client" where
  "hash_store = \<lparr>
     hincrby = (\<lambda>k f n h. let v = field_value (h k) f + n in (h(k := dict_put f v (h k)), Inr v)),
     hgetall = (\<lambda>k h. Inr (map (\<lambda>(f, v). (f, str_of_int v)) (h k)))\<rparr>"

definition redis_value :: "hashes redis_metrics \<Rightarrow> string \<Rightarrow> int" where
  "redis_value st = field_value (rm_store st HASH_KEY)"

definition ok_redis_metrics :: "hashes redis_metrics \<Rightarrow> bool" where
  "ok_redis_metrics st \<longleftrightarrow> distinct (map fst (rm_store st HASH_KEY))"

lemma read_fields_all:
  "distinct (map fst (fs @ raw)) \<Longrightarrow> read_fields (map (\<lambda>(f, v). (f, str_of_int v)) raw) fs = fs @ raw"
proof (induction raw arbitrary: fs)
  case (Cons x raw)
  obtain f v where x: "x = (f, v)" by fastforce
  with Cons.prems have "dict_put f v fs = fs @ [(f, v)]" by (simp add: dict_put_new)
  then show ?case using Cons.IH [of "fs @ [x]"] Cons.prems by (simp add: x py_int_str_of_int)
qed simp

interpretation er: enroll_metrics "incr_redis hash_store clock" "snapshot_redis hash_store" redis_value ok_redis_metrics for clock
proof
  show "ok_redis_metrics m \<Longrightarrow> ok_redis_metrics (incr_redis hash_store clock name m)" for m name
    by (simp add: ok_redis_metrics_def incr_redis_def hash_store_def keys_dict_put Let_def)
  show "redis_value (incr_redis hash_store clock name m) = (redis_value m)(name := redis_value m name + 1)" for m name
    by (rule ext) (simp add: redis_value_def field_value_def incr_redis_def hash_store_def map_of_dict_put Let_def)
qed (simp add: ok_redis_metrics_def redis_value_def snapshot_redis_def hash_store_def snapshot_fields
      read_fields_all [where fs = "[]", simplified])

section \<open>The counters add up\<close>

definition REASONS :: "string list" where
  "REASONS = [''missing_token'', ''unknown_token'', ''revoked'', ''expired'', ''exhausted'', ''source_not_allowed'']"

text \<open>
  The breakdowns agree with the answers: blocked requests by bucket with the 429s, rejections by reason with the
  401s.
\<close>

definition adds_up :: "(string \<Rightarrow> int) \<Rightarrow> bool" where
  "adds_up c \<longleftrightarrow>
     c (response_field 429) = c (limited_field ''requests'') + c (limited_field ''failures'') \<and>
     c (response_field 401) = sum_list (map (\<lambda>r. c (reject_field r)) REASONS)"

definition plain_errors :: "('s \<Rightarrow> 's \<times> 'r result) \<Rightarrow> bool" where
  "plain_errors endpoint \<longleftrightarrow> (\<forall>s s' x. endpoint s = (s', Inl x) \<longrightarrow>
     (case x of EnrollReject reason tid \<Rightarrow> reason \<in> set REASONS | HTTPException code d \<Rightarrow> code \<noteq> 401 \<and> code \<noteq> 429 | _ \<Rightarrow> True))"

lemma gate_events:
  assumes "limit_gate hit peek st ip w = (w', ev, Inr r)"
  shows "r = None \<and> ev = [] \<or>
    (\<exists>n b. r = Some (too_many n) \<and> b \<in> {''requests'', ''failures''} \<and> fold (count_event incr) ev m = record_rate_limited incr b m)"
proof -
  let ?first = "if 0 < enroll_failure_limit st then peek (fail_key ip) (enroll_failure_limit st) (enroll_failure_window_seconds st) w
            else (w, Inr \<lparr>allowed = True, dcount = 0, retry_after = 0\<rparr>)"
  obtain w1 p where p: "?first = (w1, p)" by (metis surj_pair)
  obtain w2 h where h: "hit (req_key ip) (enroll_rate_limit_requests st) (enroll_rate_limit_window_seconds st) w1 = (w2, h)" by fastforce
  obtain d where d: "p = Inr d" using assms unfolding limit_gate_def p by (cases p) auto
  show ?thesis
  proof (cases "allowed d \<and> 0 < enroll_rate_limit_requests st")
    case True
    then obtain d2 where "h = Inr d2" using assms unfolding limit_gate_def p d by (cases h) (auto simp: h)
    with True have "limit_gate hit peek st ip w =
        (if allowed d2 then (w2, [], Inr None)
         else (w2, (if dcount d2 = enroll_rate_limit_requests st + 1 then [Emit_Rate_Limited ip ''requests'' (retry_after d2)] else []) @
               [Record_Rate_Limited ''requests''], Inr (Some (too_many (retry_after d2)))))"
      unfolding limit_gate_def p d by (simp add: h)
    with assms have "r = None \<and> ev = [] \<or> r = Some (too_many (retry_after d2)) \<and>
        (ev = [Emit_Rate_Limited ip ''requests'' (retry_after d2), Record_Rate_Limited ''requests''] \<or> ev = [Record_Rate_Limited ''requests''])"
      by (simp split: if_splits)
    then show ?thesis by (rule disj_forward) (assumption, rule exI, rule exI [of _ "''requests''"], elim conjE disjE, simp_all)
  next
    case False
    then have "r = None \<and> ev = [] \<or> r = Some (too_many (retry_after d)) \<and> ev = [Record_Rate_Limited ''failures'']"
      using assms unfolding limit_gate_def p d by (cases "allowed d") simp_all
    then show ?thesis by (rule disj_forward) (assumption, rule exI, rule exI [of _ "''failures''"], elim conjE, simp)
  qed
qed

lemma failure_events:
  assumes "count_failure hit st ip rep w = (w', ev, Inr rep')"
  shows "rep' = rep \<and> fold (count_event incr) ev m = m"
  using assms by (auto simp: count_failure_def split: prod.splits sum.splits exn.splits if_splits)

definition bump :: "string \<Rightarrow> (string \<Rightarrow> int) \<Rightarrow> string \<Rightarrow> int" where
  "bump name c = c(name := c name + 1)"

lemma str_of_int_inject [simp]: "str_of_int a = str_of_int b \<longleftrightarrow> a = b"
  by (metis py_int_str_of_int sum.inject(2))

lemma field_simps_metrics [simp]:
  "response_field a = response_field b \<longleftrightarrow> a = b" "reject_field x = reject_field y \<longleftrightarrow> x = y"
  "limited_field x = limited_field y \<longleftrightarrow> x = y"
  "response_field a \<noteq> reject_field x" "reject_field x \<noteq> response_field a" "response_field a \<noteq> limited_field x"
  "limited_field x \<noteq> response_field a" "reject_field x \<noteq> limited_field y" "limited_field y \<noteq> reject_field x"
  by (simp_all add: response_field_def reject_field_def limited_field_def)

lemma adds_up_limited:
  "adds_up c \<Longrightarrow> b \<in> {''requests'', ''failures''} \<Longrightarrow> adds_up (bump (response_field 429) (bump (limited_field b) c))"
  by (auto simp: adds_up_def bump_def)

lemma adds_up_rejected:
  "adds_up c \<Longrightarrow> r \<in> set REASONS \<Longrightarrow> adds_up (bump (response_field 401) (bump (reject_field r) c))"
  by (auto simp: adds_up_def bump_def REASONS_def)

lemma adds_up_other: "adds_up c \<Longrightarrow> k \<noteq> 401 \<Longrightarrow> k \<noteq> 429 \<Longrightarrow> adds_up (bump (response_field k) c)"
  by (simp add: adds_up_def bump_def)

text \<open>
  A response that passes the counting middleware with this status, and the status the caller gets: an
  exception that leaves the application is answered 500 by the server around it.
\<close>

definition caller_status :: "reply result \<Rightarrow> int" where
  "caller_status r = (case r of Inl _ \<Rightarrow> 500 | Inr rep \<Rightarrow> status_code rep)"

definition counted :: "int \<Rightarrow> reply result \<Rightarrow> bool" where
  "counted k r \<longleftrightarrow> (case r of Inl _ \<Rightarrow> False | Inr rep \<Rightarrow> status_code rep = k)"

locale counting_listener = rate_limiter hit peek live ok + enroll_metrics incr snap mcount mok
  for hit :: "string \<Rightarrow> int \<Rightarrow> int \<Rightarrow> 'l \<Rightarrow> 'l \<times> decision_rl result" and peek and live and ok
    and incr :: "string \<Rightarrow> 'm \<Rightarrow> 'm" and snap and mcount and mok
begin

lemma bumped: "mok m \<Longrightarrow> mok (incr name m) \<and> mcount (incr name m) = bump name (mcount m)"
  by (simp add: incr_ok incr_counts bump_def)

text \<open>How one request ends: blocked, failed inside the application, rejected, or answered otherwise.\<close>

lemma listener_cases:
  assumes "ok l" and "limits_ok st" and "plain_errors endpoint"
    and run: "listener hit peek incr st ''POST'' ENROLL_PATH peer endpoint ((l, s), m) = (((l', s'), m'), r)"
  shows "ok l' \<and>
    ((\<exists>n b. r = Inr (too_many n) \<and> b \<in> {''requests'', ''failures''} \<and> m' = incr (response_field 429) (incr (limited_field b) m)) \<or>
     (\<exists>x. r = Inl x \<and> m' = m) \<or>
     (\<exists>rep reason. r = Inr rep \<and> status_code rep = 401 \<and> reason \<in> set REASONS \<and> m' = incr (response_field 401) (incr (reject_field reason) m)) \<or>
     (\<exists>rep. r = Inr rep \<and> status_code rep \<noteq> 401 \<and> status_code rep \<noteq> 429 \<and> m' = incr (response_field (status_code rep)) m))"
proof -
  define ip where "ip = (case peer of None \<Rightarrow> ''unknown'' | Some h \<Rightarrow> h)"
  obtain w1 ev g where g: "limit_gate hit peek st ip l = (w1, ev, Inr g)" "ok w1"
    using gate_spec [OF assms(1,2), of ip] by blast
  consider "g = None" "ev = []"
    | n b where "g = Some (too_many n)" "b \<in> {''requests'', ''failures''}" "fold (count_event incr) ev m = record_rate_limited incr b m"
    using gate_events [OF g(1), of incr m] by blast
  then show ?thesis
  proof cases
    case 2
    then have "((l', s'), m') = ((w1, s), record_response incr 429 (record_rate_limited incr b m))" "r = Inr (too_many n)"
      using run g by (simp_all add: listener_def metrics_dispatch_def limited_dispatch_def ip_def too_many_def)
    then show ?thesis using g(2) 2(2) by (auto simp: record_response_def record_rate_limited_def)
  next
    case 1
    obtain s1 q where q: "endpoint s = (s1, q)" by fastforce
    obtain m1 where m1: "enroll_route incr endpoint (s, m) = ((s1, m1), route_reply q)"
      "m1 = (case q of Inl (EnrollReject reason tid) \<Rightarrow> record_reject incr reason m | _ \<Rightarrow> m)"
      using q by (simp add: enroll_route_def)
    show ?thesis
    proof (cases "route_reply q")
      case (Inl x)
      then have "m1 = m" using m1(2) by (cases q) (auto split: exn.splits)
      moreover have "((l', s'), m') = ((w1, s1), m1)" "r = Inl x"
        using run g 1 m1(1) Inl by (simp_all add: listener_def metrics_dispatch_def limited_dispatch_def ip_def)
      ultimately show ?thesis using g(2) by simp
    next
      case (Inr rep)
      obtain w2 ev2 where f: "count_failure hit st ip rep w1 = (w2, ev2, Inr rep)" "ok w2"
        using hit_ok [OF g(2), of "enroll_failure_window_seconds st" "fail_key ip" "enroll_failure_limit st"] g(2) assms(2)
        by (cases "status_code rep \<in> set failure_statuses") (auto simp: count_failure_def limits_ok_def)
      then have "((l', s'), m') = ((w2, s1), record_response incr (status_code rep) m1)" "r = Inr rep"
        using run g 1 m1(1) Inr failure_events [OF f(1), of incr m1]
        by (simp_all add: listener_def metrics_dispatch_def limited_dispatch_def ip_def)
      moreover have "status_code rep = 401 \<and> (\<exists>reason \<in> set REASONS. m1 = record_reject incr reason m) \<or>
          status_code rep \<noteq> 401 \<and> status_code rep \<noteq> 429 \<and> m1 = m"
      proof (cases q)
        case (Inl x)
        with assms(3) q have "case x of EnrollReject reason tid \<Rightarrow> reason \<in> set REASONS
            | HTTPException code d \<Rightarrow> code \<noteq> 401 \<and> code \<noteq> 429 | _ \<Rightarrow> True"
          unfolding plain_errors_def by blast
        then show ?thesis using Inr m1(2) unfolding Inl by (cases x) auto
      next
        case (Inr y)
        then show ?thesis using \<open>route_reply q = Inr rep\<close> m1(2) by auto
      qed
      ultimately show ?thesis using f(2) by (auto simp: record_response_def record_reject_def)
    qed
  qed
qed

lemma listener_counts:
  assumes "ok l" and "mok m" and "limits_ok st" and "plain_errors endpoint" and "adds_up (mcount m)"
    and run: "listener hit peek incr st ''POST'' ENROLL_PATH peer endpoint ((l, s), m) = (((l', s'), m'), r)"
  shows "ok l'" and "mok m'" and "adds_up (mcount m')"
    and "mcount m' (response_field k) = mcount m (response_field k) + (if counted k r then 1 else 0)"
proof -
  note up = bumped [OF assms(2)]
  note up2 = bumped [OF conjunct1 [OF up]]
  from listener_cases [OF assms(1,3,4) run]
  have all: "ok l' \<and> mok m' \<and> adds_up (mcount m') \<and>
      mcount m' (response_field k) = mcount m (response_field k) + (if counted k r then 1 else 0)"
  proof (elim conjE disjE exE)
    fix n b assume "ok l'" "r = Inr (too_many n)" "b \<in> {''requests'', ''failures''}"
      "m' = incr (response_field 429) (incr (limited_field b) m)"
    then show ?thesis using up up2 adds_up_limited [OF assms(5)] by (simp add: bump_def counted_def too_many_def)
  next
    fix x assume "ok l'" "r = Inl x" "m' = m"
    then show ?thesis using assms(2,5) by (simp add: counted_def)
  next
    fix rep reason assume "ok l'" "r = Inr rep" "status_code rep = 401" "reason \<in> set REASONS"
      "m' = incr (response_field 401) (incr (reject_field reason) m)"
    then show ?thesis using up up2 adds_up_rejected [OF assms(5)] by (simp add: bump_def counted_def)
  next
    fix rep assume "ok l'" "r = Inr rep" "status_code rep \<noteq> 401" "status_code rep \<noteq> 429"
      "m' = incr (response_field (status_code rep)) m"
    then show ?thesis using up adds_up_other [OF assms(5)] by (simp add: bump_def counted_def)
  qed
  show "ok l'" "mok m'" "adds_up (mcount m')"
    "mcount m' (response_field k) = mcount m (response_field k) + (if counted k r then 1 else 0)"
    using all by blast+
qed

end

interpretation cm: counting_listener "hit_mem (c, c, c)" "peek_mem (c, c, c)" "live_mem c" ok_mem
    incr_memory snapshot_memory field_value ok_memory for c
  by (intro counting_listener.intro mem.rate_limiter_axioms em.enroll_metrics_axioms)

interpretation cr: counting_listener "hit_redis (redis_at c)" "peek_redis (redis_at c)" "live_redis c" ok_redis
    "incr_redis hash_store c" "snapshot_redis hash_store" redis_value ok_redis_metrics for c
  by (intro counting_listener.intro red.rate_limiter_axioms er.enroll_metrics_axioms)

text \<open>Enroll requests at given instants, one after the other.\<close>

fun serve_listener ::
  "(int \<Rightarrow> string \<Rightarrow> int \<Rightarrow> int \<Rightarrow> 'l \<Rightarrow> 'l \<times> decision_rl result) \<Rightarrow> (int \<Rightarrow> string \<Rightarrow> int \<Rightarrow> int \<Rightarrow> 'l \<Rightarrow> 'l \<times> decision_rl result) \<Rightarrow>
   (int \<Rightarrow> string \<Rightarrow> 'm \<Rightarrow> 'm) \<Rightarrow> enroll_limits \<Rightarrow> (int \<times> string option \<times> ('s \<Rightarrow> 's \<times> 'r result)) list \<Rightarrow>
   ('l \<times> 's) \<times> 'm \<Rightarrow> (('l \<times> 's) \<times> 'm) \<times> reply result list" where
  "serve_listener hit peek incr st [] w = (w, [])"
| "serve_listener hit peek incr st ((c, peer, endpoint) # rs) w =
     (let (w', r) = listener (hit c) (peek c) (incr c) st ''POST'' ENROLL_PATH peer endpoint w;
          (w'', out) = serve_listener hit peek incr st rs w'
      in (w'', r # out))"

lemma serve_listener_counts:
  assumes "\<And>c. counting_listener (hit c) (peek c) (live c) ok (incr c) snap mcount mok" and "limits_ok st"
    and "ok l" and "mok m" and "adds_up (mcount m)" and "\<forall>(c, peer, endpoint) \<in> set rs. plain_errors endpoint"
    and "serve_listener hit peek incr st rs ((l, s), m) = (((l', s'), m'), out)"
  shows "mok m' \<and> adds_up (mcount m') \<and>
    (\<forall>k. mcount m' (response_field k) = mcount m (response_field k) + int (length (filter (counted k) out)))"
  using assms(3-7)
proof (induction rs arbitrary: l s m out)
  case (Cons x rs)
  obtain c peer endpoint where x: "x = (c, peer, endpoint)" by (cases x)
  obtain l1 s1 m1 r where d: "listener (hit c) (peek c) (incr c) st ''POST'' ENROLL_PATH peer endpoint ((l, s), m) = (((l1, s1), m1), r)"
    by (metis surj_pair)
  obtain out1 where o: "serve_listener hit peek incr st rs ((l1, s1), m1) = (((l', s'), m'), out1)" "out = r # out1"
    using Cons.prems(5) d by (auto simp: x split: prod.splits)
  have p: "plain_errors endpoint" using Cons.prems(4) by (simp add: x)
  note one = counting_listener.listener_counts [OF assms(1) Cons.prems(1,2) assms(2) p Cons.prems(3) d]
  have "\<forall>(c, peer, endpoint) \<in> set rs. plain_errors endpoint" using Cons.prems(4) by simp
  from Cons.IH [OF one(1-3) this o(1)] one(4) show ?case by (simp add: o(2))
qed simp

lemma serve_listener_length: "serve_listener hit peek incr st rs w = (w', out) \<Longrightarrow> length out = length rs"
  by (induction hit peek incr st rs w arbitrary: w' out rule: serve_listener.induct) (auto split: prod.splits)

lemma counted_callers:
  "int (length (filter (counted k) out)) + (if k = 500 then int (length (filter isl out)) else 0) =
     int (length (filter (\<lambda>r. caller_status r = k) out))"
proof (induction out)
  case (Cons r out)
  have "counted k r \<longleftrightarrow> caller_status r = k \<and> \<not> isl r" and "isl r \<Longrightarrow> caller_status r = 500"
    by (cases r; simp add: counted_def caller_status_def)+
  then show ?case using Cons by auto
qed simp

text \<open>
  C36: what the counters say about the enrollment listener. After any sequence of enroll requests, one after another,
  on a fresh hash of a Valkey that never fails, with a limiter of positive limits that never fails either, and with an application
  that raises no 401 or 429 besides its rejections, the snapshot shows for every status the number of answers callers
  got with it, except that the 500s of unhandled exceptions, which are sent outside of the counting middleware,
  are missing; the rate-limit counters add up to the 429s and the rejection counters to the 401s.
\<close>

theorem enroll_counters_add_up:
  assumes "limits_ok st" and "ok_redis l" and "rm_store m HASH_KEY = []" and "\<forall>(c, peer, endpoint) \<in> set rs. plain_errors endpoint"
    and "serve_listener (\<lambda>c. hit_redis (redis_at c)) (\<lambda>c. peek_redis (redis_at c)) (incr_redis hash_store) st rs ((l, s), m) =
      (((l', s'), m'), out)"
  shows "length out = length rs \<and> (\<exists>sn. snapshot_redis hash_store m' = Inr sn \<and>
    (\<forall>k. field_value (sn_responses sn) (str_of_int k) + (if k = 500 then int (length (filter isl out)) else 0) =
       int (length (filter (\<lambda>r. caller_status r = k) out))) \<and>
    field_value (sn_rate_limited sn) ''requests'' + field_value (sn_rate_limited sn) ''failures'' =
      int (length (filter (\<lambda>r. caller_status r = 429) out)) \<and>
    sum_list (map (field_value (sn_rejects sn)) REASONS) = int (length (filter (\<lambda>r. caller_status r = 401) out)))"
proof -
  have m: "ok_redis_metrics m" "redis_value m = (\<lambda>_. 0)"
    using assms(3) by (auto simp: ok_redis_metrics_def redis_value_def field_value_def fun_eq_iff)
  then have "adds_up (redis_value m)" by (simp add: adds_up_def REASONS_def)
  from serve_listener_counts [OF cr.counting_listener_axioms assms(1,2) m(1) this assms(4,5)] m(2)
  have r: "ok_redis_metrics m'" "adds_up (redis_value m')"
    "\<And>k. redis_value m' (response_field k) = int (length (filter (counted k) out))" by auto
  from er.snap_ok [OF r(1)] obtain sn where sn: "snapshot_redis hash_store m' = Inr sn"
    and f: "\<And>label. label \<noteq> [] \<Longrightarrow> field_value (sn_responses sn) label = redis_value m' (''response:'' @ label)"
      "\<And>label. label \<noteq> [] \<Longrightarrow> field_value (sn_rejects sn) label = redis_value m' (reject_field label)"
      "\<And>label. label \<noteq> [] \<Longrightarrow> field_value (sn_rate_limited sn) label = redis_value m' (limited_field label)" by blast
  have "str_of_int k \<noteq> []" for k by (simp add: str_of_int_def)
  then have k: "field_value (sn_responses sn) (str_of_int k) = int (length (filter (counted k) out))" for k
    using f(1) r(3) by (simp add: response_field_def)
  have "sum_list (map (field_value (sn_rejects sn)) REASONS) = int (length (filter (counted 401) out))"
    using f(2) r(2,3) by (simp add: adds_up_def REASONS_def)
  then show ?thesis
    using sn k r f(3) counted_callers [of _ out] counted_callers [of 401 out] counted_callers [of 429 out] serve_listener_length [OF assms(5)]
    by (auto simp: adds_up_def)
qed

section \<open>The route behind the listener\<close>

definition plain_result :: "'a result \<Rightarrow> bool" where
  "plain_result m \<longleftrightarrow> (\<forall>x. m = Inl x \<longrightarrow>
     (case x of EnrollReject reason tid \<Rightarrow> reason \<in> set REASONS | HTTPException code d \<Rightarrow> code \<noteq> 401 \<and> code \<noteq> 429 | _ \<Rightarrow> True))"

lemma plain_result_intros:
  "plain_result (Inr y)" "plain_result (Inl (ValueError t))" "plain_result (Inl IntegrityError)"
  "code \<noteq> 401 \<Longrightarrow> code \<noteq> 429 \<Longrightarrow> plain_result (Inl (HTTPException code t))" "reason \<in> set REASONS \<Longrightarrow> plain_result (Inl (EnrollReject reason i))"
  by (simp_all add: plain_result_def)

lemma plain_rbind: "plain_result m \<Longrightarrow> (\<And>x. m = Inr x \<Longrightarrow> plain_result (f x)) \<Longrightarrow> plain_result (rbind m f)"
  by (cases m) (simp_all add: plain_result_def)

lemma plain_check: "plain_result (Inl x :: unit result) \<Longrightarrow> plain_result (check b x)"
  by (simp add: check_def plain_result_def)

lemma plain_or_raise: "plain_result (Inl x :: 'a result) \<Longrightarrow> plain_result (or_raise y x :: 'a result)"
  by (cases y) (simp_all add: plain_result_def)

lemma plain_rmap: "(\<And>x. plain_result (f x)) \<Longrightarrow> plain_result (rmap f xs)"
  by (induction xs) (auto intro!: plain_rbind simp: plain_result_intros)

lemma plain_ip: "plain_result (ip_network strict t)" "plain_result (host_from_cidr t)" "plain_result (ip4_network strict t)"
  using ip4_network_ValueError [of strict t]
  by (auto simp: plain_result_def ip_network_def host_from_cidr_def ip_interface_ip_def split: sum.splits prod.splits)

lemmas plain_intros = plain_result_intros plain_rbind plain_check plain_or_raise plain_rmap plain_ip

text \<open>What the authority and the broker raise is not taken for an answer of the route.\<close>

definition plain_services :: "env \<Rightarrow> enroll_env \<Rightarrow> bool" where
  "plain_services e en \<longleftrightarrow> plain_result (en_ca en) \<and> (\<forall>m. plain_result (broker e m)) \<and>
     (\<forall>ca k ps ttl. en_ca en = Inr ca \<longrightarrow> plain_result (mint_host_cert ca k ps ttl))"

lemma plain_source_allowed: "plain_result (source_allowed row peer)"
  unfolding source_allowed_def allowed_networks_def
  by (auto intro!: plain_intros split: option.splits list.splits sum.splits)

lemma plain_check_token: "plain_result (check_token e rq snap)"
  unfolding check_token_def by (auto intro!: plain_intros plain_source_allowed simp: REASONS_def)

lemma plain_parse_body: "plain_result (parse_body en body)"
  unfolding parse_body_def by (auto intro!: plain_intros split: option.splits)

lemma plain_allocate: "plain_result (allocate_or_409 snap v)"
proof -
  have "plain_result (allocate_client_ip snap v)"
    unfolding allocate_client_ip_def taken_addresses_def
    by (auto intro!: plain_intros simp: plain_result_def [of "Inl (IPPoolExhausted _)"] split: prod.splits)
  then show ?thesis by (auto simp: allocate_or_409_def plain_result_def split: sum.splits exn.splits)
qed

lemma plain_sign: "plain_result (mint_host_cert ca (py_ssh_host_public_key p) [ip4_str a] ttl) \<Longrightarrow> plain_result (sign_or_502 ca p a ttl)"
  by (auto simp: sign_or_502_def plain_result_def split: sum.splits exn.splits)

lemma plain_admit: "plain_services e en \<Longrightarrow> plain_result (admit e en row p snap s)"
  unfolding admit_def Let_def
  by (auto intro!: plain_intros plain_allocate plain_sign simp: plain_services_def insert_client_def split: option.splits)

lemma plain_enroll_tx:
  assumes "plain_services e en" and "enroll_tx e en rq acquired snap s = (s', r)"
  shows "plain_result r"
proof -
  let ?tx = "rbind (check_token e rq snap) (\<lambda>row. rbind (parse_body en (rq_body rq)) (\<lambda>p.
     rbind (check acquired (HTTPException 503 ''enrollment busy; retry'')) (\<lambda>_.
     let (s1, taken) = consume_token row s in
     rbind (check taken (EnrollReject ''exhausted'' (Some (et_id row)))) (\<lambda>_.
     rbind (admit e en row p snap s1) (\<lambda>(s2, client, server, cert, ca_pub).
     rbind (persist e no_actor (enroll_audit e rq row p client) s2) (\<lambda>(s3, _). Inr (s3, row, client, server, cert, ca_pub)))))))"
  have "plain_result ?tx"
    by (auto intro!: plain_intros plain_check_token plain_parse_body plain_admit [OF assms(1)]
        simp: REASONS_def persist_def Let_def split: prod.splits)
  then show ?thesis using assms(2) unfolding enroll_tx_def atomically_def by (auto simp: plain_result_def split: sum.splits prod.splits)
qed

theorem enroll_plain_errors:
  assumes "plain_services e en"
  shows "plain_errors (enroll e en rq acquired snap)"
proof -
  have "plain_result r" if "enroll e en rq acquired snap s = (s', r)" for s s' r
  proof (cases "snd (enroll_tx e en rq acquired snap s)")
    case (Inl x)
    then have "enroll_tx e en rq acquired snap s = (s', Inl x)" "r = Inl x"
      using that by (auto simp: enroll_def andThen_def split: prod.splits)
    then show ?thesis using plain_enroll_tx [OF assms, of rq acquired snap s s' "Inl x"] by (simp add: plain_result_def)
  next
    case (Inr y)
    then show ?thesis using that assms
      by (auto simp: enroll_def andThen_def request_reconfigure_def delay_def plain_services_def plain_result_def
          split: prod.splits sum.splits option.splits)
  qed
  then show ?thesis unfolding plain_errors_def plain_result_def by blast
qed

section \<open>Warnings are throttled\<close>

definition spaced :: "'w redis_metrics \<Rightarrow> bool" where
  "spaced st \<longleftrightarrow> sorted_wrt (\<lambda>a b. fst a + LOG_EVERY_SECONDS * 1000000 \<le> fst b) (rm_warnings st) \<and>
     (case rm_last_warning st of None \<Rightarrow> rm_warnings st = []
      | Some t \<Rightarrow> rm_warnings st \<noteq> [] \<and> fst (List.last (rm_warnings st)) = t)"

text \<open>Whatever the client does, two warnings are at least a minute apart.\<close>

theorem warnings_throttled: "spaced st \<Longrightarrow> spaced (incr_redis client clock name st)"
proof -
  assume sp: "spaced st"
  obtain w r where h: "hincrby client HASH_KEY name 1 (rm_store st) = (w, r)" by fastforce
  have spaced_store: "spaced (st\<lparr>rm_store := w\<rparr>)" using sp by (simp add: spaced_def split: option.splits)
  show ?thesis
  proof (cases r)
    case (Inl exc)
    show ?thesis
    proof (cases "rm_last_warning st")
      case None
      then show ?thesis using sp h Inl by (simp add: spaced_def incr_redis_def)
    next
      case (Some t)
      let ?ws = "rm_warnings st"
      have ne: "?ws \<noteq> []" and last: "fst (List.last ?ws) = t" and srt: "sorted_wrt (\<lambda>a b. fst a + LOG_EVERY_SECONDS * 1000000 \<le> fst b) ?ws"
        using sp Some by (simp_all add: spaced_def)
      have "fst a \<le> t" if "a \<in> set ?ws" for a
      proof (cases "a = List.last ?ws")
        case False
        then have "a \<in> set (butlast ?ws)" using that ne by (metis append_butlast_last_id in_set_conv_decomp_last insert_iff list.simps(15) rotate1.simps(2) set_rotate1)
        moreover have "sorted_wrt (\<lambda>a b. fst a + LOG_EVERY_SECONDS * 1000000 \<le> fst b) (butlast ?ws @ [List.last ?ws])"
          using srt ne by simp
        ultimately show ?thesis using last by (fastforce simp: sorted_wrt_append LOG_EVERY_SECONDS_def)
      qed (simp add: last)
      then show ?thesis using spaced_store srt h Inl Some
        by (fastforce simp: spaced_def incr_redis_def sorted_wrt_append)
    qed
  next
    case (Inr n)
    then show ?thesis using spaced_store h by (simp add: incr_redis_def)
  qed
qed

section \<open>Witnesses\<close>

definition refuse :: "unit \<Rightarrow> unit \<times> enroll_response result" where
  "refuse s = (s, Inl (EnrollReject ''unknown_token'' None))"

definition idle_metrics :: "hashes redis_metrics" where
  "idle_metrics = \<lparr>rm_store = (\<lambda>_. []), rm_last_warning = None, rm_warnings = []\<rparr>"

definition refused_run :: "(((keyspace \<times> unit) \<times> hashes redis_metrics) \<times> reply result list)" where
  "refused_run = serve_listener (\<lambda>c. hit_redis (redis_at c)) (\<lambda>c. peek_redis (redis_at c)) (incr_redis hash_store) sample_limits
     [(0, Some ''a'', refuse)] ((\<lambda>_. None, ()), idle_metrics)"

theorem enroll_counters_add_up_witness:
  "\<exists>sn. snapshot_redis hash_store (snd (fst refused_run)) = Inr sn \<and>
     field_value (sn_responses sn) (str_of_int 401) = 1 \<and> field_value (sn_responses sn) (str_of_int 429) = 0 \<and>
     field_value (sn_rate_limited sn) ''requests'' + field_value (sn_rate_limited sn) ''failures'' = 0 \<and>
     sum_list (map (field_value (sn_rejects sn)) REASONS) = 1"
proof -
  obtain l' s' m' out where r: "refused_run = (((l', s'), m'), out)" by (metis surj_pair)
  have n: "int (length (filter (\<lambda>r. caller_status r = 401) (snd refused_run))) = 1"
    "int (length (filter (\<lambda>r. caller_status r = 429) (snd refused_run))) = 0" by code_simp+
  have p: "\<forall>(c, peer, endpoint) \<in> set [(0, Some ''a'', refuse)]. plain_errors endpoint"
    by (simp add: plain_errors_def refuse_def REASONS_def)
  have l: "limits_ok sample_limits" "ok_redis (\<lambda>_. None)" "rm_store idle_metrics HASH_KEY = []"
    by (simp_all add: limits_ok_def sample_limits_def ok_redis_def idle_metrics_def)
  obtain sn where "snapshot_redis hash_store m' = Inr sn"
    and c: "\<And>k. field_value (sn_responses sn) (str_of_int k) + (if k = 500 then int (length (filter isl out)) else 0) =
       int (length (filter (\<lambda>r. caller_status r = k) out))"
    and "field_value (sn_rate_limited sn) ''requests'' + field_value (sn_rate_limited sn) ''failures'' = int (length (filter (\<lambda>r. caller_status r = 429) out))"
    and "sum_list (map (field_value (sn_rejects sn)) REASONS) = int (length (filter (\<lambda>r. caller_status r = 401) out))"
    using enroll_counters_add_up [OF l p r [unfolded refused_run_def]] by blast
  then show ?thesis using n c [of 401] c [of 429] by (auto simp: r)
qed

text \<open>
  An exception the framework does not know leaves through the counting middleware: the caller gets the server's
  500, no counter records it.
\<close>

lemma unhandled_error_uncounted:
  "listener (hit_mem (0, 0, 0)) (peek_mem (0, 0, 0)) incr_memory sample_limits ''POST'' ENROLL_PATH None
     (\<lambda>s :: unit. (s, Inl (OtherError ''OperationalError'') :: unit result)) ((\<lambda>_. None, ()), []) =
   (((fst (hit_mem (0, 0, 0) (req_key ''unknown'') 100 60 (\<lambda>_. None)), ()), []), Inl (OtherError ''OperationalError''))"
  by (simp add: listener_def metrics_dispatch_def limited_dispatch_def limit_gate_def sample_limits_def hit_mem_def peek_mem_def
      current_mem_def enroll_route_def Let_def)

end
