(* ===== verification/Metrics.thy ===== *)
theory Metrics
  imports Cert_Props Task_Props Enroll_Metrics
begin

text \<open>
  \<^verbatim>\<open>metrics.py\<close>: the middleware that counts requests, the Celery signal handlers, the wrapper around Vault
  calls, and the collectors that read certificates, host certificates and the enrollment counters at scrape
  time. A counter is a function from its label values to a count, a histogram one to its observations, a
  gauge family a list of labelled samples; instants and durations are microseconds. Rendering the text format
  is the client library's.
\<close>

section \<open>The registry\<close>

record metrics =
  http_requests_total :: "string \<times> string \<times> string \<Rightarrow> nat"
  http_request_duration :: "string \<times> string \<Rightarrow> int list"
  celery_tasks_total :: "string \<times> string \<Rightarrow> nat"
  celery_task_duration :: "string \<Rightarrow> int list"
  vault_requests_total :: "string \<times> string \<times> string \<Rightarrow> nat"
  vault_request_duration :: "string \<times> string \<Rightarrow> int list"
  task_start :: "string \<Rightarrow> int option"

definition inc :: "'k \<Rightarrow> ('k \<Rightarrow> nat) \<Rightarrow> 'k \<Rightarrow> nat" where
  "inc k c = c(k := c k + 1)"

definition observe :: "'k \<Rightarrow> int \<Rightarrow> ('k \<Rightarrow> int list) \<Rightarrow> 'k \<Rightarrow> int list" where
  "observe k d h = h(k := h k @ [d])"

section \<open>HTTP requests\<close>

record metered_request =
  mr_type :: string
  mr_method :: "string option"
  mr_path :: "string option"

datatype asgi_message = Response_Start "int option" | Other_Message

text \<open>
  What the wrapped application did with a request: the messages it sent, the \<^verbatim>\<open>path\<close> of the route the router put into
  the scope (\<^verbatim>\<open>None\<close> without a route or with one that has no path), and whether it raised.
\<close>

record app_run =
  ar_sent :: "asgi_message list"
  ar_route :: "string option"
  ar_ended :: "unit result"

fun status_after :: "int \<Rightarrow> asgi_message list \<Rightarrow> int" where
  "status_after held [] = held"
| "status_after held (Response_Start st # ms) = status_after (case st of None \<Rightarrow> 500 | Some n \<Rightarrow> n) ms"
| "status_after held (Other_Message # ms) = status_after held ms"

definition scope_method :: "metered_request \<Rightarrow> string" where
  "scope_method sc = (case mr_method sc of None \<Rightarrow> ''UNKNOWN'' | Some m \<Rightarrow> m)"

definition scope_path :: "metered_request \<Rightarrow> string" where
  "scope_path sc = (case mr_path sc of None \<Rightarrow> [] | Some p \<Rightarrow> p)"

definition uncounted :: "metered_request \<Rightarrow> bool" where
  "uncounted sc \<longleftrightarrow> mr_type sc \<noteq> ''http'' \<or> scope_method sc = ''OPTIONS'' \<or> scope_path sc = ''/metrics''"

definition path_label :: "metered_request \<Rightarrow> app_run \<Rightarrow> string" where
  "path_label sc run = (case ar_route run of Some t \<Rightarrow> t | None \<Rightarrow> scope_path sc)"

definition metrics_middleware :: "int \<Rightarrow> int \<Rightarrow> metered_request \<Rightarrow> app_run \<Rightarrow> metrics \<Rightarrow> metrics \<times> unit result" where
  "metrics_middleware start stop sc run m =
     (if uncounted sc then (m, ar_ended run)
      else let path = path_label sc run;
               status = str_of_int (status_after 500 (ar_sent run)) in
        (m\<lparr>http_requests_total := inc (scope_method sc, path, status) (http_requests_total m),
           http_request_duration := observe (scope_method sc, path) (stop - start) (http_request_duration m)\<rparr>, ar_ended run))"

section \<open>Celery signals\<close>

definition on_task_prerun :: "int \<Rightarrow> string option \<Rightarrow> metrics \<Rightarrow> metrics" where
  "on_task_prerun clock task_id m =
     (case task_id of
        None \<Rightarrow> m
      | Some i \<Rightarrow> if i = [] then m else m\<lparr>task_start := (task_start m)(i := Some clock)\<rparr>)"

definition on_task_postrun :: "int \<Rightarrow> string option \<Rightarrow> string option \<Rightarrow> string option \<Rightarrow> metrics \<Rightarrow> metrics" where
  "on_task_postrun clock task_id task_name state m =
     (let name = (case task_name of None \<Rightarrow> ''unknown'' | Some n \<Rightarrow> n);
          (start, m) = (case task_id of
             None \<Rightarrow> (None, m)
           | Some i \<Rightarrow> if i = [] then (None, m) else (task_start m i, m\<lparr>task_start := (task_start m)(i := None)\<rparr>));
          m = (case start of None \<Rightarrow> m | Some t \<Rightarrow> m\<lparr>celery_task_duration := observe name (clock - t) (celery_task_duration m)\<rparr>);
          outcome = (case state of None \<Rightarrow> ''UNKNOWN'' | Some st \<Rightarrow> if st = [] then ''UNKNOWN'' else st) in
      m\<lparr>celery_tasks_total := inc (name, outcome) (celery_tasks_total m)\<rparr>)"

section \<open>Vault calls\<close>

text \<open>The wrapper around one Vault call with the span it opens; the body acts on the rest of the world.\<close>

record span =
  sp_name :: string
  sp_engine :: string
  sp_operation :: string
  sp_error :: bool

definition vault_call :: "string \<Rightarrow> string \<Rightarrow> int \<Rightarrow> int \<Rightarrow> ('w, 'a) handler \<Rightarrow> 'w \<times> metrics \<times> span list \<Rightarrow>
    ('w \<times> metrics \<times> span list) \<times> 'a result" where
  "vault_call engine operation start stop body wms =
     (let (w, m, spans) = wms; (w', r) = body w; failed = (case r of Inl _ \<Rightarrow> True | Inr _ \<Rightarrow> False);
          m' = m\<lparr>vault_requests_total := inc (engine, operation, if failed then ''error'' else ''ok'') (vault_requests_total m),
                 vault_request_duration := observe (engine, operation) (stop - start) (vault_request_duration m)\<rparr> in
      ((w', m', spans @ [\<lparr>sp_name = ''vault.'' @ engine @ ''.'' @ operation, sp_engine = engine, sp_operation = operation, sp_error = failed\<rparr>]), r))"

section \<open>Collectors\<close>

text \<open>A failing query yields no family at all.\<close>

definition collect_certificates :: "certificate list result \<Rightarrow> ((string \<times> string \<times> string) \<times> int) list option" where
  "collect_certificates table =
     (case table of
        Inl _ \<Rightarrow> None
      | Inr rows \<Rightarrow> Some (map (\<lambda>r. ((crt_serial r, crt_common_name r, certificate_type_value (crt_type r)), crt_not_after r))
                         (filter (\<lambda>r. \<not> crt_revoked r) rows)))"

record host_series =
  hl_kind :: string
  hl_id :: int
  hl_name :: "string option"
  hl_hostname :: "string option"

definition server_label :: "server \<Rightarrow> host_series" where
  "server_label v = \<lparr>hl_kind = ''server'', hl_id = srv_id v, hl_name = Some (srv_hostname v), hl_hostname = Some (srv_hostname v)\<rparr>"

definition client_label :: "client \<Rightarrow> host_series" where
  "client_label c = \<lparr>hl_kind = ''client'', hl_id = cli_id c,
     hl_name = (if cli_name c = [] then cli_hostname c else Some (cli_name c)), hl_hostname = cli_hostname c\<rparr>"

definition server_samples :: "server list \<Rightarrow> (host_series \<times> int) list" where
  "server_samples rows =
     List.map_filter (\<lambda>v. if srv_status v = Ready
        then map_option (\<lambda>t. (server_label v, t)) (hc_valid_before (srv_host_cert v)) else None) rows"

definition client_samples :: "client list \<Rightarrow> (host_series \<times> int) list" where
  "client_samples rows =
     List.map_filter (\<lambda>c. if cli_status c = Ready \<and> \<not> cli_is_manual c
        then map_option (\<lambda>t. (client_label c, t)) (hc_valid_before (cli_host_cert c)) else None) rows"

definition collect_host_certs :: "state result \<Rightarrow> (host_series \<times> int) list option" where
  "collect_host_certs base = (case base of Inl _ \<Rightarrow> None | Inr s \<Rightarrow> Some (server_samples (servers s) @ client_samples (clients s)))"

text \<open>
  The enrollment counters: the store is built on the first scrape and kept; when it cannot be read, the family that
  says so is the only one.
\<close>

record enroll_families =
  ef_up :: int
  ef_counters :: "(string \<times> (string \<times> int) list) list"

definition collect_enroll ::
  "'m result \<Rightarrow> ('m \<Rightarrow> enroll_snapshot result) \<Rightarrow> 'm option \<Rightarrow> 'm option \<times> enroll_families result" where
  "collect_enroll factory snap held =
     (let store = (case held of None \<Rightarrow> factory | Some st \<Rightarrow> Inr st);
          kept = (case store of Inl _ \<Rightarrow> None | Inr st \<Rightarrow> Some st) in
      (kept,
       case rbind store snap of
         Inl (RuntimeError _) \<Rightarrow> Inr \<lparr>ef_up = 0, ef_counters = []\<rparr>
       | Inl e \<Rightarrow> Inl e
       | Inr sn \<Rightarrow> Inr \<lparr>ef_up = 1, ef_counters =
           [(''wg_manager_enroll_responses'', sort_key fst (sn_responses sn)),
            (''wg_manager_enroll_rejects'', sort_key fst (sn_rejects sn)),
            (''wg_manager_enroll_rate_limited'', sort_key fst (sn_rate_limited sn))]\<rparr>))"

section \<open>What is counted\<close>

fun serve_metered :: "(int \<times> int \<times> metered_request \<times> app_run) list \<Rightarrow> metrics \<Rightarrow> metrics" where
  "serve_metered [] m = m"
| "serve_metered ((a, b, sc, run) # rs) m = serve_metered rs (fst (metrics_middleware a b sc run m))"

definition series_paths :: "metrics \<Rightarrow> string set" where
  "series_paths m = {path. \<exists>meth status. http_requests_total m (meth, path, status) \<noteq> 0}"

definition unmatched_paths :: "(int \<times> int \<times> metered_request \<times> app_run) list \<Rightarrow> string set" where
  "unmatched_paths rs = (\<Union>(a, b, sc, run) \<in> set rs. if ar_route run = None \<and> \<not> uncounted sc then {scope_path sc} else {})"

text \<open>
  The path label stays bounded. Whatever is requested, every path with a series is one that had a series
  before, a template of the route table, or the raw path of a request that matched no route.
\<close>

theorem path_labels_bounded:
  assumes "\<forall>(a, b, sc, run) \<in> set rs. \<forall>t. ar_route run = Some t \<longrightarrow> t \<in> templates"
  shows "series_paths (serve_metered rs m) \<subseteq> series_paths m \<union> templates \<union> unmatched_paths rs"
  using assms
proof (induction rs arbitrary: m)
  case (Cons x rs)
  obtain a b sc run where x: "x = (a, b, sc, run)" by (metis prod_cases4)
  let ?m1 = "fst (metrics_middleware a b sc run m)"
  have "series_paths ?m1 \<subseteq> series_paths m \<union> (if uncounted sc then {} else {path_label sc run})"
    by (auto simp: series_paths_def metrics_middleware_def inc_def Let_def split: if_splits)
  moreover have "path_label sc run \<in> templates \<union> unmatched_paths (x # rs)" if "\<not> uncounted sc"
    using Cons.prems that by (cases "ar_route run") (auto simp: path_label_def unmatched_paths_def x)
  moreover have "unmatched_paths rs \<subseteq> unmatched_paths (x # rs)" by (auto simp: unmatched_paths_def)
  moreover have "series_paths (serve_metered rs ?m1) \<subseteq> series_paths ?m1 \<union> templates \<union> unmatched_paths rs"
    using Cons.IH [of ?m1] Cons.prems by simp
  ultimately have "series_paths (serve_metered rs ?m1) \<subseteq> series_paths m \<union> templates \<union> unmatched_paths (x # rs)"
    by (auto split: if_splits)
  then show ?case by (simp add: x)
qed auto

text \<open>
  The signal handlers: a task that ran is counted once under its state, its duration is the time since its own
  start, and no start is left behind.
\<close>

theorem task_run_recorded:
  assumes "i \<noteq> []"
  shows "on_task_postrun t1 (Some i) (Some name) (Some st) (on_task_prerun t0 (Some i) m) =
    m\<lparr>task_start := (task_start m)(i := None),
      celery_task_duration := observe name (t1 - t0) (celery_task_duration m),
      celery_tasks_total := inc (name, if st = [] then ''UNKNOWN'' else st) (celery_tasks_total m)\<rparr>"
  using assms by (simp add: on_task_postrun_def on_task_prerun_def)

text \<open>The wrapper changes neither what a Vault call does nor what it raises, and records one outcome.\<close>

theorem vault_call_transparent:
  assumes "body w = (w', r)"
  shows "\<exists>m' spans'. vault_call engine operation t0 t1 body (w, m, spans) = ((w', m', spans'), r) \<and>
    (\<forall>k. vault_requests_total m' k = vault_requests_total m k +
       (if k = (engine, operation, case r of Inl _ \<Rightarrow> ''error'' | Inr _ \<Rightarrow> ''ok'') then 1 else 0)) \<and>
    length spans' = length spans + 1 \<and> (sp_error (List.last spans') \<longleftrightarrow> (\<exists>x. r = Inl x))"
  using assms by (cases r) (auto simp: vault_call_def inc_def Let_def)

section \<open>What is scraped\<close>

text \<open>
  the host certificate gauge and the sweep agree. At every cutoff the sweep rotates exactly the hosts with a
  sample below the cutoff and the ready managed hosts whose expiry is unknown; the latter have no sample.
\<close>

theorem host_samples_match_sweep:
  assumes "collect_host_certs (Inr s) = Some samples"
  shows "set (expiring_servers cutoff s) =
      {hl_id l | l t. (l, t) \<in> set samples \<and> hl_kind l = ''server'' \<and> t < cutoff} \<union>
      {srv_id v | v. v \<in> set (servers s) \<and> srv_status v = Ready \<and> hc_valid_before (srv_host_cert v) = None} \<and>
    set (expiring_clients cutoff s) =
      {hl_id l | l t. (l, t) \<in> set samples \<and> hl_kind l = ''client'' \<and> t < cutoff} \<union>
      {cli_id c | c. c \<in> set (clients s) \<and> cli_status c = Ready \<and> \<not> cli_is_manual c \<and> hc_valid_before (cli_host_cert c) = None}"
proof -
  have labels: "hl_id (server_label v) = srv_id v" "hl_kind (server_label v) = ''server''" "hl_id (client_label c) = cli_id c"
    "hl_kind (client_label c) = ''client''" for v c by (simp_all add: server_label_def client_label_def)
  have sv: "(l, t) \<in> set (server_samples rows) \<longleftrightarrow>
      (\<exists>v \<in> set rows. srv_status v = Ready \<and> hc_valid_before (srv_host_cert v) = Some t \<and> l = server_label v)" for l t rows
    by (induction rows) (auto simp: server_samples_def List.map_filter_simps split: option.splits)
  have cl: "(l, t) \<in> set (client_samples rows) \<longleftrightarrow>
      (\<exists>c \<in> set rows. cli_status c = Ready \<and> \<not> cli_is_manual c \<and> hc_valid_before (cli_host_cert c) = Some t \<and> l = client_label c)" for l t rows
    by (induction rows) (auto simp: client_samples_def List.map_filter_simps split: option.splits)
  have samples: "set samples = set (server_samples (servers s)) \<union> set (client_samples (clients s))"
    using assms by (auto simp: collect_host_certs_def)
  have ex: "expiring cutoff hc \<longleftrightarrow> (\<exists>t. hc_valid_before hc = Some t \<and> t < cutoff) \<or> hc_valid_before hc = None" for hc
    by (cases "hc_valid_before hc") (simp_all add: expiring_def)
  have "{hl_id l | l t. (l, t) \<in> set samples \<and> hl_kind l = ''server'' \<and> t < cutoff} =
      {srv_id v | v t. v \<in> set (servers s) \<and> srv_status v = Ready \<and> hc_valid_before (srv_host_cert v) = Some t \<and> t < cutoff}"
    unfolding samples Un_iff sv cl by (rule Collect_cong) (auto simp: labels, metis labels(1,2))
  moreover have "{hl_id l | l t. (l, t) \<in> set samples \<and> hl_kind l = ''client'' \<and> t < cutoff} =
      {cli_id c | c t. c \<in> set (clients s) \<and> cli_status c = Ready \<and> \<not> cli_is_manual c \<and> hc_valid_before (cli_host_cert c) = Some t \<and> t < cutoff}"
    unfolding samples Un_iff sv cl by (rule Collect_cong) (auto simp: labels, metis labels(3,4))
  moreover have "set (expiring_servers cutoff s) =
      {srv_id v | v t. v \<in> set (servers s) \<and> srv_status v = Ready \<and> hc_valid_before (srv_host_cert v) = Some t \<and> t < cutoff} \<union>
      {srv_id v | v. v \<in> set (servers s) \<and> srv_status v = Ready \<and> hc_valid_before (srv_host_cert v) = None}"
    by (auto simp: expiring_servers_def ex image_iff)
  moreover have "set (expiring_clients cutoff s) =
      {cli_id c | c t. c \<in> set (clients s) \<and> cli_status c = Ready \<and> \<not> cli_is_manual c \<and> hc_valid_before (cli_host_cert c) = Some t \<and> t < cutoff} \<union>
      {cli_id c | c. c \<in> set (clients s) \<and> cli_status c = Ready \<and> \<not> cli_is_manual c \<and> hc_valid_before (cli_host_cert c) = None}"
    by (auto simp: expiring_clients_def ex image_iff)
  ultimately show ?thesis by simp
qed

text \<open>
  A revoked certificate leaves the gauge with the next scrape and no other sample changes.
\<close>

theorem revoked_certificate_leaves_scrape:
  assumes "revoke_cert ops e rs i (s, p) = ((s', p'), Inr row)" and "distinct (map crt_id (certificates s))"
    and "distinct (map crt_serial (certificates s))" and "collect_certificates (Inr (certificates s')) = Some samples"
  shows "\<forall>label \<in> fst ` set samples. fst label \<noteq> crt_serial row"
proof -
  note st = revoke_cert_stored [OF assms(1,2)]
  have row: "row \<in> set (certificates s')" using get_row_SomeD [OF st(1)] by simp
  have "distinct (map crt_serial (certificates s'))" using st(3) assms(3) by simp
  then have "c = row" if "c \<in> set (certificates s')" "crt_serial c = crt_serial row" for c
    using that row by (simp add: distinct_map inj_on_def)
  then show ?thesis using assms(4) st(2) by (auto simp: collect_certificates_def)
qed

text \<open>When the enrollment store cannot be read, only the family that says so is scraped.\<close>

theorem unreadable_store_is_down:
  assumes "snap st = Inl (EnrollMetricsBackendError x)"
  shows "collect_enroll factory snap (Some st) = (Some st, Inr \<lparr>ef_up = 0, ef_counters = []\<rparr>)"
  using assms by (simp add: collect_enroll_def EnrollMetricsBackendError_def)

section \<open>Witnesses\<close>

definition no_metrics :: metrics where
  "no_metrics = \<lparr>http_requests_total = (\<lambda>_. 0), http_request_duration = (\<lambda>_. []), celery_tasks_total = (\<lambda>_. 0),
     celery_task_duration = (\<lambda>_. []), vault_requests_total = (\<lambda>_. 0), vault_request_duration = (\<lambda>_. []), task_start = (\<lambda>_. None)\<rparr>"

definition get_scope :: "string \<Rightarrow> metered_request" where
  "get_scope path = \<lparr>mr_type = ''http'', mr_method = Some ''GET'', mr_path = Some path\<rparr>"

definition sample_traffic :: "(int \<times> int \<times> metered_request \<times> app_run) list" where
  "sample_traffic =
     [(0, 5, get_scope ''/v1/clients/7'', \<lparr>ar_sent = [Response_Start (Some 200), Other_Message], ar_route = Some ''/v1/clients/{client_id}'', ar_ended = Inr ()\<rparr>),
      (6, 9, get_scope ''/nope'', \<lparr>ar_sent = [Response_Start (Some 404)], ar_route = None, ar_ended = Inr ()\<rparr>),
      (10, 11, get_scope ''/metrics'', \<lparr>ar_sent = [Response_Start (Some 200)], ar_route = None, ar_ended = Inr ()\<rparr>)]"

lemma sample_traffic_counts:
  "http_requests_total (serve_metered sample_traffic no_metrics) (''GET'', ''/v1/clients/{client_id}'', ''200'') = 1"
  "http_requests_total (serve_metered sample_traffic no_metrics) (''GET'', ''/v1/clients/7'', ''200'') = 0"
  by code_simp+

theorem path_labels_bounded_witness:
  "series_paths (serve_metered sample_traffic no_metrics) \<subseteq> {''/v1/clients/{client_id}'', ''/nope''}"
proof -
  have "\<forall>(a, b, sc, run) \<in> set sample_traffic. \<forall>t. ar_route run = Some t \<longrightarrow> t \<in> {''/v1/clients/{client_id}''}"
    by (simp add: sample_traffic_def)
  moreover have "series_paths no_metrics = {}" by (simp add: series_paths_def no_metrics_def)
  moreover have "unmatched_paths sample_traffic = {''/nope''}"
    by (simp add: unmatched_paths_def sample_traffic_def uncounted_def scope_method_def scope_path_def get_scope_def)
  ultimately show ?thesis using path_labels_bounded [of sample_traffic "{''/v1/clients/{client_id}''}" no_metrics] by auto
qed

theorem host_samples_match_sweep_witness:
  "\<exists>samples. collect_host_certs (Inr sample_db) = Some samples \<and>
     set (expiring_servers 5 sample_db) =
       {hl_id l | l t. (l, t) \<in> set samples \<and> hl_kind l = ''server'' \<and> t < 5} \<union>
       {srv_id v | v. v \<in> set (servers sample_db) \<and> srv_status v = Ready \<and> hc_valid_before (srv_host_cert v) = None}"
proof -
  obtain samples where "collect_host_certs (Inr sample_db) = Some samples" by (simp add: collect_host_certs_def)
  then show ?thesis using conjunct1 [OF host_samples_match_sweep [where cutoff = 5]] by (intro exI conjI) assumption+
qed

end
