(* ===== verification/Settings.thy ===== *)
theory Settings
  imports Pki_Bootstrap Cert_Props Ssh_Ca Proxy_Listener Servers Task_Props
begin

text \<open>
  What is decided before the first request: \<^verbatim>\<open>config.py\<close> (the settings and their validators), the startup guard
  of \<^verbatim>\<open>main.py\<close>, the TLS arguments of the database connection (\<^verbatim>\<open>db.py\<close>) and of both listeners
  (\<^verbatim>\<open>tls_listeners.py\<close>, \<^verbatim>\<open>__main__.py\<close>, \<^verbatim>\<open>enroll_listener.py\<close>). Reading the environment is pydantic's; the
  existence of a file and the server that runs a listener are parameters.
\<close>

section \<open>Settings\<close>

text \<open>Every setting, in the order of the class; the four pinned PEMs of the local PKI are one tuple.\<close>

record app_settings =
  cf_database_url :: string
  cf_bind_host :: string
  cf_bind_port :: int
  cf_enroll_bind_host :: string
  cf_enroll_bind_port :: int
  cf_enroll_rate_limit_backend :: string
  cf_enroll_rate_limit_redis_url :: "string option"
  cf_enroll_rate_limit_requests :: int
  cf_enroll_rate_limit_window_seconds :: int
  cf_enroll_failure_limit :: int
  cf_enroll_failure_window_seconds :: int
  cf_enroll_proxy_protocol :: bool
  cf_enroll_proxy_trusted_cidrs :: string
  cf_enroll_token_retention_seconds :: int
  cf_enroll_token_sweep_interval_seconds :: int
  cf_default_subnet :: string
  cf_default_wg_port :: int
  cf_celery_broker_url :: string
  cf_celery_result_backend :: string
  cf_crypto_backend :: string
  cf_crypto_local_dev_key :: "string option"
  cf_crypto_vault_addr :: string
  cf_crypto_vault_token :: "string option"
  cf_crypto_vault_transit_key :: string
  cf_crypto_vault_transit_mount :: string
  cf_ssh_ca_backend :: string
  cf_ssh_ca_local_dev_pem :: "string option"
  cf_ssh_ca_vault_mount :: string
  cf_ssh_ca_vault_user_role :: string
  cf_ssh_ca_vault_host_role :: string
  cf_ssh_ca_vault_allowed_users :: string
  cf_ssh_ca_vault_allowed_host_domains :: string
  cf_ssh_auth_mode :: string
  cf_ssh_user_cert_ttl_seconds :: int
  cf_ssh_host_cert_ttl_seconds :: int
  cf_ssh_host_cert_renew_before_seconds :: int
  cf_ssh_host_cert_rotation_interval_seconds :: int
  cf_pki_backend :: string
  cf_pki_pinned :: pinned
  cf_pki_vault_root_mount :: string
  cf_pki_vault_int_mount :: string
  cf_pki_vault_server_role :: string
  cf_pki_vault_client_role :: string
  cf_pki_vault_allowed_domains :: string
  cf_tls_required :: bool
  cf_tls_cert_pem :: "string option"
  cf_tls_key_pem :: "string option"
  cf_tls_ca_bundle_pem :: "string option"
  cf_database_tls_required :: bool
  cf_database_tls_ca_pem :: "string option"
  cf_database_tls_cert_pem :: "string option"
  cf_database_tls_key_pem :: "string option"
  cf_auth_bootstrap_operator_cn :: "string option"
  cf_auth_bootstrap_operator_role :: string
  cf_otel_exporter :: string
  cf_otel_exporter_otlp_endpoint :: string
  cf_otel_service_name :: string
  cf_cors_origins :: string
  cf_api_legacy_sunset_date :: string
  cf_api_deprecation_doc_url :: string

definition default_settings :: app_settings where
  "default_settings = \<lparr>
     cf_database_url = ''mysql+pymysql://wg:wg@localhost:3306/wg_manager'', cf_bind_host = ''127.0.0.1'', cf_bind_port = 8000,
     cf_enroll_bind_host = ''127.0.0.1'', cf_enroll_bind_port = 8001, cf_enroll_rate_limit_backend = ''redis'',
     cf_enroll_rate_limit_redis_url = None, cf_enroll_rate_limit_requests = 120, cf_enroll_rate_limit_window_seconds = 60,
     cf_enroll_failure_limit = 10, cf_enroll_failure_window_seconds = 600, cf_enroll_proxy_protocol = False,
     cf_enroll_proxy_trusted_cidrs = [], cf_enroll_token_retention_seconds = 7 * 86400, cf_enroll_token_sweep_interval_seconds = 3600,
     cf_default_subnet = ''10.9.0.0/24'', cf_default_wg_port = 51820, cf_celery_broker_url = ''redis://localhost:6379/0'',
     cf_celery_result_backend = ''redis://localhost:6379/0'', cf_crypto_backend = ''local'', cf_crypto_local_dev_key = None,
     cf_crypto_vault_addr = ''http://127.0.0.1:8200'', cf_crypto_vault_token = None, cf_crypto_vault_transit_key = ''wg-manager'',
     cf_crypto_vault_transit_mount = ''transit'', cf_ssh_ca_backend = ''local'', cf_ssh_ca_local_dev_pem = None,
     cf_ssh_ca_vault_mount = ''ssh'', cf_ssh_ca_vault_user_role = ''wg-manager-provision'',
     cf_ssh_ca_vault_host_role = ''wg-manager-hosts'', cf_ssh_ca_vault_allowed_users = ''root,ubuntu,ec2-user,azureuser,debian,admin'',
     cf_ssh_ca_vault_allowed_host_domains = [], cf_ssh_auth_mode = ''legacy'', cf_ssh_user_cert_ttl_seconds = 300,
     cf_ssh_host_cert_ttl_seconds = 86400, cf_ssh_host_cert_renew_before_seconds = 43200, cf_ssh_host_cert_rotation_interval_seconds = 3600,
     cf_pki_backend = ''local'', cf_pki_pinned = (None, None, None, None), cf_pki_vault_root_mount = ''pki'',
     cf_pki_vault_int_mount = ''pki_int'', cf_pki_vault_server_role = ''wg-manager-server'',
     cf_pki_vault_client_role = ''wg-manager-client'', cf_pki_vault_allowed_domains = [], cf_tls_required = False, cf_tls_cert_pem = None,
     cf_tls_key_pem = None, cf_tls_ca_bundle_pem = None, cf_database_tls_required = False, cf_database_tls_ca_pem = None,
     cf_database_tls_cert_pem = None, cf_database_tls_key_pem = None, cf_auth_bootstrap_operator_cn = None,
     cf_auth_bootstrap_operator_role = ''admin'', cf_otel_exporter = ''none'', cf_otel_exporter_otlp_endpoint = ''http://localhost:4318'',
     cf_otel_service_name = ''wg-manager'', cf_cors_origins = ''http://localhost:3000,http://127.0.0.1:3000,http://localhost:3001'',
     cf_api_legacy_sunset_date = ''2027-01-01'',
     cf_api_deprecation_doc_url = ''https://github.com/jfudally/wg_manager/blob/main/docs/api-versioning.md''\<rparr>"

definition parse_cidrs :: "string \<Rightarrow> ip_net list result" where
  "parse_cidrs v = rmap (\<lambda>part. ip_network True (strip part)) (filter (\<lambda>part. strip part \<noteq> []) (split_on CHR '','' v))"

definition enroll_proxy_trusted_networks :: "app_settings \<Rightarrow> ip_net list result" where
  "enroll_proxy_trusted_networks cf = parse_cidrs (cf_enroll_proxy_trusted_cidrs cf)"

definition validate_enroll_proxy_cidrs :: "string \<Rightarrow> string result" where
  "validate_enroll_proxy_cidrs v = rbind (parse_cidrs v) (\<lambda>_. Inr v)"

definition validate_default_subnet :: "string \<Rightarrow> string result" where
  "validate_default_subnet v = rbind (parse_strict_subnet v) (\<lambda>n. Inr (net_str n))"

definition validate_enroll_proxy_protocol :: "app_settings \<Rightarrow> app_settings result" where
  "validate_enroll_proxy_protocol cf =
     (if cf_enroll_proxy_protocol cf
      then rbind (enroll_proxy_trusted_networks cf) (\<lambda>nets.
        if nets = [] then Inl (ValueError (''ENROLL_PROXY_PROTOCOL=true requires ENROLL_PROXY_TRUSTED_CIDRS '' @
               ''(the networks your load balancers connect from)''))
        else Inr cf)
      else Inr cf)"

definition validate_host_cert_rotation_windows :: "app_settings \<Rightarrow> app_settings result" where
  "validate_host_cert_rotation_windows cf =
     (let before = cf_ssh_host_cert_renew_before_seconds cf; ttl = cf_ssh_host_cert_ttl_seconds cf;
          every = cf_ssh_host_cert_rotation_interval_seconds cf in
      if ttl \<le> before
      then Inl (ValueError (''SSH_HOST_CERT_RENEW_BEFORE_SECONDS ('' @ str_of_int before @ '') must be less than SSH_HOST_CERT_TTL_SECONDS ('' @
             str_of_int ttl @ '')''))
      else if before \<le> every
      then Inl (ValueError (''SSH_HOST_CERT_ROTATION_INTERVAL_SECONDS ('' @ str_of_int every @
             '') must be less than SSH_HOST_CERT_RENEW_BEFORE_SECONDS ('' @ str_of_int before @ '')''))
      else Inr cf)"

text \<open>\<^verbatim>\<open>Settings()\<close> on values of the declared types: the field checks, then the model validators in order.\<close>

definition load_settings :: "app_settings \<Rightarrow> app_settings result" where
  "load_settings raw =
     rbind (validate_enroll_proxy_cidrs (cf_enroll_proxy_trusted_cidrs raw)) (\<lambda>_.
     rbind (check (0 \<le> cf_enroll_token_retention_seconds raw) (ValueError ''enroll_token_retention_seconds'')) (\<lambda>_.
     rbind (check (0 < cf_enroll_token_sweep_interval_seconds raw) (ValueError ''enroll_token_sweep_interval_seconds'')) (\<lambda>_.
     rbind (validate_default_subnet (cf_default_subnet raw)) (\<lambda>subnet.
     rbind (validate_enroll_proxy_protocol (raw\<lparr>cf_default_subnet := subnet\<rparr>)) validate_host_cert_rotation_windows))))"

text \<open>The periodic tasks (\<^verbatim>\<open>celery_app.py\<close>): the name of an entry, its task and its interval in seconds.\<close>

definition beat_schedule :: "app_settings \<Rightarrow> (string \<times> string \<times> int) list" where
  "beat_schedule cf =
     [(''rotate-expiring-host-certs'', ''wg_manager.tasks.rotate_expiring_host_certs'', cf_ssh_host_cert_rotation_interval_seconds cf),
      (''sweep-enrollment-tokens'', ''wg_manager.tasks.sweep_enrollment_tokens'', cf_enroll_token_sweep_interval_seconds cf)]"

section \<open>The startup guard\<close>

definition enforce_ha_startup_guards :: "app_settings \<Rightarrow> unit result" where
  "enforce_ha_startup_guards cf =
     (if \<not> cf_tls_required cf then Inr ()
      else if cf_pki_backend cf = ''local'' \<and> \<not> is_set (fst (cf_pki_pinned cf))
      then Inl (RuntimeError (''PKI_BACKEND=local in production posture (TLS_REQUIRED=true) requires PKI_LOCAL_DEV_ROOT_PEM, '' @
             ''PKI_LOCAL_DEV_ROOT_KEY_PEM, PKI_LOCAL_DEV_INT_PEM, PKI_LOCAL_DEV_INT_KEY_PEM to be set '' @
             ''(otherwise each replica generates its own divergent root). '' @
             ''Use PKI_BACKEND=vault for production, or pin the four PEMs across every replica.''))
      else if cf_ssh_ca_backend cf = ''local'' \<and> \<not> is_set (cf_ssh_ca_local_dev_pem cf)
      then Inl (RuntimeError (''SSH_CA_BACKEND=local in production posture (TLS_REQUIRED=true) requires SSH_CA_LOCAL_DEV_PEM to be set '' @
             ''(otherwise each replica generates its own divergent CA). '' @
             ''Use SSH_CA_BACKEND=vault for production, or pin the PEM across every replica.''))
      else Inr ())"

section \<open>TLS to the database\<close>

fun before :: "string \<Rightarrow> string \<Rightarrow> string" where
  "before sep [] = []"
| "before sep (c # cs) = (if startswith (c # cs) sep then [] else c # before sep cs)"

definition is_mysql_url :: "string \<Rightarrow> bool" where
  "is_mysql_url url \<longleftrightarrow> before ''+'' (lower (before ''://'' url)) \<in> {''mysql'', ''mariadb''}"

record mysql_ssl =
  my_ca :: string
  my_cert :: string
  my_key :: string
  my_check_hostname :: bool

definition checked_pem :: "(string \<Rightarrow> bool) \<Rightarrow> string \<Rightarrow> string option \<Rightarrow> string result" where
  "checked_pem is_file env_var v =
     (case v of
        None \<Rightarrow> Inl (RuntimeError (env_var @ '' is required when DATABASE_TLS_REQUIRED=true''))
      | Some path \<Rightarrow>
          if path = [] then Inl (RuntimeError (env_var @ '' is required when DATABASE_TLS_REQUIRED=true''))
          else if \<not> is_file path then Inl (RuntimeError (env_var @ '' path '' @ py_repr path @ '' not found on disk''))
          else Inr path)"

definition resolve_mysql_ssl :: "(string \<Rightarrow> bool) \<Rightarrow> string \<Rightarrow> app_settings \<Rightarrow> mysql_ssl option result" where
  "resolve_mysql_ssl is_file url cf =
     (if \<not> is_mysql_url url then Inr None
      else if \<not> cf_database_tls_required cf then Inr None
      else rbind (checked_pem is_file ''DATABASE_TLS_CA_PEM'' (cf_database_tls_ca_pem cf)) (\<lambda>ca.
           rbind (checked_pem is_file ''DATABASE_TLS_CERT_PEM'' (cf_database_tls_cert_pem cf)) (\<lambda>cert.
           rbind (checked_pem is_file ''DATABASE_TLS_KEY_PEM'' (cf_database_tls_key_pem cf)) (\<lambda>key.
             Inr (Some \<lparr>my_ca = ca, my_cert = cert, my_key = key, my_check_hostname = True\<rparr>)))))"

record engine_args =
  eg_url :: string
  eg_check_same_thread :: "bool option"
  eg_ssl :: "mysql_ssl option"
  eg_pool_pre_ping :: bool

definition build_engine :: "(string \<Rightarrow> bool) \<Rightarrow> string \<Rightarrow> app_settings \<Rightarrow> engine_args result" where
  "build_engine is_file url cf =
     rbind (resolve_mysql_ssl is_file url cf) (\<lambda>tls.
       Inr \<lparr>eg_url = url, eg_check_same_thread = (if startswith url ''sqlite'' then Some False else None), eg_ssl = tls,
            eg_pool_pre_ping = True\<rparr>)"

section \<open>TLS of the listeners\<close>











section \<open>Certificates are renewed in time\<close>

lemma load_settings_windows:
  assumes "load_settings raw = Inr cf"
  shows "cf_ssh_host_cert_renew_before_seconds cf < cf_ssh_host_cert_ttl_seconds cf"
    and "cf_ssh_host_cert_rotation_interval_seconds cf < cf_ssh_host_cert_renew_before_seconds cf"
  using assms by (auto simp: load_settings_def validate_host_cert_rotation_windows_def Let_def result_simps split: if_splits)

text \<open>The first sweep that finds the certificate inside the renew window comes before it expires.\<close>

lemma sweep_in_time:
  fixes sweep :: "nat \<Rightarrow> int"
  assumes "\<And>k. sweep (Suc k) \<le> sweep k + step" and "step < ahead" and "sweep 0 < expiry" and "\<exists>k. expiry < sweep k + ahead"
  shows "\<exists>k. expiry < sweep k + ahead \<and> sweep k < expiry"
proof -
  define k where "k = (LEAST k. expiry < sweep k + ahead)"
  have k: "expiry < sweep k + ahead" using assms(4) unfolding k_def by (rule LeastI_ex)
  moreover have "sweep k < expiry"
  proof (cases k)
    case 0
    then show ?thesis using assms(3) by simp
  next
    case (Suc j)
    then have "\<not> expiry < sweep j + ahead" using not_less_Least [of j "\<lambda>k. expiry < sweep k + ahead"] by (simp add: k_def)
    then show ?thesis using assms(1) [of j] assms(2) Suc by simp
  qed
  ultimately show ?thesis by blast
qed

lemma unselected_key:
  "distinct (map f xs) \<Longrightarrow> x \<in> set xs \<Longrightarrow> \<not> P x \<Longrightarrow> f x \<notin> set (map f (filter P xs))"
  using distinct_map_eq [of f xs] by fastforce

lemma sweep_outcome:
  assumes "rotate_expiring_host_certs_task te s = (s', oks, okc, failed)" and "\<forall>m. \<exists>tid. broker (tenv te) m = Inr tid"
  shows "task_queue s' = task_queue s @ map RotateHostCert oks @ map RotateClientHostCert okc"
    and "oks = map srv_id (filter (\<lambda>v. srv_status v = Ready \<and> needs_rotation (now (tenv te) + seconds (renew_before te)) (srv_host_cert v)) (servers s))"
    and "okc = map cli_id (filter (\<lambda>c. cli_status c = Ready \<and> \<not> cli_is_manual c \<and>
           needs_rotation (now (tenv te) + seconds (renew_before te)) (cli_host_cert c)) (clients s))"
proof -
  let ?cut = "now (tenv te) + seconds (renew_before te)"
  obtain s1 bad1 bad2 where d1: "dispatch_each (tenv te) RotateHostCert (expiring_servers ?cut s) s = (s1, oks, bad1)"
    and d2: "dispatch_each (tenv te) RotateClientHostCert (expiring_clients ?cut s) s1 = (s', okc, bad2)"
    using assms(1) by (auto simp: rotate_expiring_host_certs_task_def Let_def split: prod.splits)
  note D = dispatch_each_spec [OF d1] dispatch_each_spec [OF d2]
  have need: "expiring ?cut = needs_rotation ?cut" by (rule ext) (auto simp: expiring_def needs_rotation_def split: option.splits)
  show "task_queue s' = task_queue s @ map RotateHostCert oks @ map RotateClientHostCert okc" using D by simp
  have "oks = expiring_servers ?cut s" "okc = expiring_clients ?cut s" using D assms(2) by (simp_all add: filter_id_conv)
  then show "oks = map srv_id (filter (\<lambda>v. srv_status v = Ready \<and> needs_rotation ?cut (srv_host_cert v)) (servers s))"
    "okc = map cli_id (filter (\<lambda>c. cli_status c = Ready \<and> \<not> cli_is_manual c \<and> needs_rotation ?cut (cli_host_cert c)) (clients s))"
    by (simp_all add: expiring_servers_def expiring_clients_def need)
qed

text \<open>
  C33: settings that pass validation leave no gap. Let beat start the sweep again and again, at least as often as its schedule
  says, each run reading the renew window from the settings, with a broker that takes the messages and distinct
  row keys. Then for a hub, and for a client reached over SSH, whose row stays ready with a certificate that is
  valid at the first sweep, some sweep task queues its rotation before the certificate expires; and no sweep queues a
  rotation for a host whose certificate was minted with the configured lifetime at that sweep.
\<close>

theorem certificates_renewed_in_time:
  assumes "load_settings raw = Inr cf"
    and "(''wg_manager.tasks.rotate_expiring_host_certs'', every) \<in> snd ` set (beat_schedule cf)"
    and "\<And>k. sweep (Suc k) \<le> sweep k + seconds every" and "\<And>t. \<exists>k. t < sweep k"
    and "\<And>k. now (tenv (te k)) = sweep k \<and> renew_before (te k) = cf_ssh_host_cert_renew_before_seconds cf"
    and "\<And>k m. \<exists>tid. broker (tenv (te k)) m = Inr tid"
    and "\<And>k. rotate_expiring_host_certs_task (te k) (db_at k) = (after k, oks k, okc k, failed k)"
    and "\<And>k. distinct (map srv_id (servers (db_at k))) \<and> distinct (map cli_id (clients (db_at k)))"
  shows "(\<forall>v expiry. (\<forall>k. sweep k < expiry \<longrightarrow> v \<in> set (servers (db_at k))) \<and> srv_status v = Ready \<and>
      hc_valid_before (srv_host_cert v) = Some expiry \<and> sweep 0 < expiry \<longrightarrow>
      (\<exists>k q. sweep k < expiry \<and> task_queue (after k) = task_queue (db_at k) @ q \<and> RotateHostCert (srv_id v) \<in> set q)) \<and>
    (\<forall>c expiry. (\<forall>k. sweep k < expiry \<longrightarrow> c \<in> set (clients (db_at k))) \<and> cli_status c = Ready \<and> \<not> cli_is_manual c \<and>
      hc_valid_before (cli_host_cert c) = Some expiry \<and> sweep 0 < expiry \<longrightarrow>
      (\<exists>k q. sweep k < expiry \<and> task_queue (after k) = task_queue (db_at k) @ q \<and> RotateClientHostCert (cli_id c) \<in> set q)) \<and>
    (\<forall>k v. v \<in> set (servers (db_at k)) \<and> hc_valid_before (srv_host_cert v) = Some (sweep k + seconds (cf_ssh_host_cert_ttl_seconds cf)) \<longrightarrow>
      srv_id v \<notin> set (oks k)) \<and>
    (\<forall>k c. c \<in> set (clients (db_at k)) \<and> hc_valid_before (cli_host_cert c) = Some (sweep k + seconds (cf_ssh_host_cert_ttl_seconds cf)) \<longrightarrow>
      cli_id c \<notin> set (okc k))"
proof -
  let ?ahead = "seconds (cf_ssh_host_cert_renew_before_seconds cf)"
  note w = load_settings_windows [OF assms(1)]
  have "every = cf_ssh_host_cert_rotation_interval_seconds cf" using assms(2) by (auto simp: beat_schedule_def)
  then have step: "seconds every < ?ahead" using w(2) by (simp add: seconds_def)
  have in_time: "\<exists>k. expiry < sweep k + ?ahead \<and> sweep k < expiry" if "sweep 0 < expiry" for expiry
  proof -
    have "\<exists>k. expiry < sweep k + ?ahead" using assms(4) [of "expiry - ?ahead"] by (auto simp: algebra_simps)
    then show ?thesis by (rule sweep_in_time [OF assms(3) step that])
  qed
  have task: "task_queue (after k) = task_queue (db_at k) @ map RotateHostCert (oks k) @ map RotateClientHostCert (okc k)"
    "oks k = map srv_id (filter (\<lambda>v. srv_status v = Ready \<and> needs_rotation (sweep k + ?ahead) (srv_host_cert v)) (servers (db_at k)))"
    "okc k = map cli_id (filter (\<lambda>c. cli_status c = Ready \<and> \<not> cli_is_manual c \<and> needs_rotation (sweep k + ?ahead) (cli_host_cert c)) (clients (db_at k)))"
    for k using sweep_outcome [OF assms(7), of k] assms(5) [of k] assms(6) by simp_all
  have rest: "\<not> needs_rotation (t + ?ahead) hc" if "hc_valid_before hc = Some (t + seconds (cf_ssh_host_cert_ttl_seconds cf))" for t hc
    using that w(1) by (simp add: needs_rotation_def seconds_def)
  show ?thesis
  proof (intro conjI allI impI)
    fix v expiry assume v: "(\<forall>k. sweep k < expiry \<longrightarrow> v \<in> set (servers (db_at k))) \<and> srv_status v = Ready \<and>
      hc_valid_before (srv_host_cert v) = Some expiry \<and> sweep 0 < expiry"
    then obtain k where k: "expiry < sweep k + ?ahead" "sweep k < expiry" using in_time by blast
    then have "srv_id v \<in> set (oks k)" using v task(2) [of k] by (auto simp: needs_rotation_def)
    then show "\<exists>k q. sweep k < expiry \<and> task_queue (after k) = task_queue (db_at k) @ q \<and> RotateHostCert (srv_id v) \<in> set q"
      using k(2) task(1) [of k] by (intro exI conjI) auto
  next
    fix c expiry assume c: "(\<forall>k. sweep k < expiry \<longrightarrow> c \<in> set (clients (db_at k))) \<and> cli_status c = Ready \<and> \<not> cli_is_manual c \<and>
      hc_valid_before (cli_host_cert c) = Some expiry \<and> sweep 0 < expiry"
    then obtain k where k: "expiry < sweep k + ?ahead" "sweep k < expiry" using in_time by blast
    then have "cli_id c \<in> set (okc k)" using c task(3) [of k] by (auto simp: needs_rotation_def)
    then show "\<exists>k q. sweep k < expiry \<and> task_queue (after k) = task_queue (db_at k) @ q \<and> RotateClientHostCert (cli_id c) \<in> set q"
      using k(2) task(1) [of k] by (intro exI conjI) auto
  next
    fix k v assume v: "v \<in> set (servers (db_at k)) \<and> hc_valid_before (srv_host_cert v) = Some (sweep k + seconds (cf_ssh_host_cert_ttl_seconds cf))"
    then have "\<not> needs_rotation (sweep k + ?ahead) (srv_host_cert v)" using rest by blast
    then show "srv_id v \<notin> set (oks k)" using v assms(8) [of k] unfolding task(2) by (intro unselected_key) auto
  next
    fix k c assume c: "c \<in> set (clients (db_at k)) \<and> hc_valid_before (cli_host_cert c) = Some (sweep k + seconds (cf_ssh_host_cert_ttl_seconds cf))"
    then have "\<not> needs_rotation (sweep k + ?ahead) (cli_host_cert c)" using rest by blast
    then show "cli_id c \<notin> set (okc k)" using c assms(8) [of k] unfolding task(3) by (intro unselected_key) auto
  qed
qed

section \<open>Replicas share their authorities\<close>

text \<open>What the two factories read from the settings.\<close>

definition pki_settings_of :: "app_settings \<Rightarrow> pki_settings" where
  "pki_settings_of cf = \<lparr>ps_backend = cf_pki_backend cf, ps_pinned = cf_pki_pinned cf, ps_vault_token = cf_crypto_vault_token cf,
     ps_root_mount = cf_pki_vault_root_mount cf, ps_int_mount = cf_pki_vault_int_mount cf,
     ps_server_role = cf_pki_vault_server_role cf, ps_client_role = cf_pki_vault_client_role cf\<rparr>"

definition ssh_ca_settings_of :: "app_settings \<Rightarrow> ssh_ca_settings" where
  "ssh_ca_settings_of cf = \<lparr>ss_backend = cf_ssh_ca_backend cf, ss_local_dev_pem = cf_ssh_ca_local_dev_pem cf,
     ss_vault_token = (case cf_crypto_vault_token cf of None \<Rightarrow> [] | Some t \<Rightarrow> t), ss_mount = cf_ssh_ca_vault_mount cf,
     ss_user_role = cf_ssh_ca_vault_user_role cf, ss_host_role = cf_ssh_ca_vault_host_role cf\<rparr>"

text \<open>
  C34: past the startup guard in the production posture (\<^verbatim>\<open>TLS_REQUIRED\<close>), when the backend names are written in
  lower case, two replicas with the same settings that load PEMs alike and both end up with local backends
  hold the same authorities, whatever keys each would generate: the local PKI and the local SSH authority are the
  pinned ones. In other spellings the guard lets an unpinned one pass (\<^verbatim>\<open>capitalised_backend_passes_guard\<close>).
\<close>

theorem replicas_share_authorities:
  assumes "enforce_ha_startup_guards cf = Inr ()" and "cf_tls_required cf"
    and "lower (cf_pki_backend cf) = cf_pki_backend cf" and "lower (cf_ssh_ca_backend cf) = cf_ssh_ca_backend cf"
    and "from_pem x1 = from_pem x2"
    and "make_pki_backend x1 v1 (pki_settings_of cf) \<lparr>pw_cache = (\<lambda>_. None), pw_vault = u1\<rparr> = (w1, Inr (Local_Backend pin1))"
    and "make_pki_backend x2 v2 (pki_settings_of cf) \<lparr>pw_cache = (\<lambda>_. None), pw_vault = u2\<rparr> = (w2, Inr (Local_Backend pin2))"
    and "make_ssh_ca_backend lib y1 fresh1 (ssh_ca_settings_of cf) \<lparr>sw_cache = (\<lambda>_. None), sw_vault = z1\<rparr> = (a1, Inr (Local_CA ca1))"
    and "make_ssh_ca_backend lib y2 fresh2 (ssh_ca_settings_of cf) \<lparr>sw_cache = (\<lambda>_. None), sw_vault = z2\<rparr> = (a2, Inr (Local_CA ca2))"
  shows "pin1 = pin2 \<and> pw_cache w1 pin1 = pw_cache w2 pin2 \<and> pw_cache w1 pin1 \<noteq> None \<and> ca1 = ca2"
proof -
  obtain a b c d where pin: "cf_pki_pinned cf = (a, b, c, d)" by (metis prod_cases4)
  have "cf_pki_backend cf = ''local''" "cf_ssh_ca_backend cf = ''local''"
    using assms(3,4,6,8) by (auto simp: make_pki_backend_def make_ssh_ca_backend_def pki_settings_of_def ssh_ca_settings_of_def Let_def
        split: if_splits sum.splits prod.splits)
  then have set_pins: "is_set a" "is_set (cf_ssh_ca_local_dev_pem cf)"
    using assms(1,2) pin by (auto simp: enforce_ha_startup_guards_def split: if_splits)
  then have all: "is_set b \<and> is_set c \<and> is_set d"
    using assms(6) \<open>cf_pki_backend cf = ''local''\<close> pin
    by (auto simp: make_pki_backend_def pki_settings_of_def lower_def split: if_splits)
  then obtain a' b' c' d' where some: "a = Some a'" "b = Some b'" "c = Some c'" "d = Some d'" "a' \<noteq> []" "b' \<noteq> []" "c' \<noteq> []" "d' \<noteq> []"
    using set_pins(1) by (auto simp: is_set_def split: option.splits)
  then have fp: "local_from_pinned x1 (a, b, c, d) = from_pem x1 a' b' c' d'" "local_from_pinned x2 (a, b, c, d) = from_pem x1 a' b' c' d'"
    using assms(5) by simp_all
  then have "pin1 = pin2 \<and> pw_cache w1 pin1 = pw_cache w2 pin2 \<and> pw_cache w1 pin1 \<noteq> None"
    using assms(3,6,7) \<open>cf_pki_backend cf = ''local''\<close> pin
    by (auto simp: make_pki_backend_def pki_settings_of_def split: if_splits sum.splits)
  moreover have "ca1 = ca2"
    using assms(4,8,9) \<open>cf_ssh_ca_backend cf = ''local''\<close> set_pins(2)
    by (auto simp: make_ssh_ca_backend_def ssh_ca_settings_of_def Let_def split: if_splits sum.splits)
  ultimately show ?thesis by blast
qed

text \<open>
  The factories fold the case of the backend's name, the guard does not: with \<^verbatim>\<open>PKI_BACKEND=Local\<close> and nothing pinned, a
  production start passes the guard and the replica generates its own hierarchy.
\<close>

theorem capitalised_backend_passes_guard:
  assumes "cf = default_settings\<lparr>cf_tls_required := True, cf_pki_backend := ''Local'', cf_ssh_ca_backend := ''Local''\<rparr>"
    and "generate x = Inr ca"
  shows "enforce_ha_startup_guards cf = Inr () \<and>
    make_pki_backend x v (pki_settings_of cf) \<lparr>pw_cache = (\<lambda>_. None), pw_vault = u\<rparr> =
      (\<lparr>pw_cache = (\<lambda>_. None)((None, None, None, None) \<mapsto> ca), pw_vault = u\<rparr>, Inr (Local_Backend (None, None, None, None)))"
proof -
  have "lower ''Local'' = ''local''" by code_simp
  then show ?thesis using assms(2)
    by (simp add: assms(1) enforce_ha_startup_guards_def make_pki_backend_def pki_settings_of_def default_settings_def is_set_def)
qed

section \<open>Transport security\<close>

text \<open>
  When TLS to the database is required, an engine for MySQL is only built with the authority, certificate and key
  named in the settings, all on disk, and with the server's name checked; it is never built without TLS.
\<close>

theorem database_never_cleartext:
  assumes "cf_database_tls_required cf" and "is_mysql_url url" and "build_engine is_file url cf = Inr eg"
  shows "\<exists>tls. eg_ssl eg = Some tls \<and> my_check_hostname tls \<and> is_file (my_ca tls) \<and> is_file (my_cert tls) \<and> is_file (my_key tls) \<and>
    cf_database_tls_ca_pem cf = Some (my_ca tls) \<and> cf_database_tls_cert_pem cf = Some (my_cert tls) \<and>
    cf_database_tls_key_pem cf = Some (my_key tls)"
proof -
  have pem: "checked_pem is_file n v = Inr p \<longleftrightarrow> v = Some p \<and> p \<noteq> [] \<and> is_file p" for n v p
    by (auto simp: checked_pem_def split: option.splits)
  show ?thesis using assms by (auto simp: build_engine_def resolve_mysql_ssl_def result_simps pem)
qed


section \<open>Witnesses\<close>

definition prod_settings :: app_settings where
  "prod_settings = default_settings\<lparr>cf_tls_required := True, cf_pki_pinned := (Some ''root'', Some ''rkey'', Some ''int'', Some ''ikey''),
     cf_ssh_ca_local_dev_pem := Some ''capem'', cf_tls_cert_pem := Some ''tls/server.crt'', cf_tls_key_pem := Some ''tls/server.key'',
     cf_tls_ca_bundle_pem := Some ''tls/ca-bundle.crt'', cf_enroll_proxy_protocol := True, cf_enroll_proxy_trusted_cidrs := ''10.0.0.0/8, '',
     cf_database_tls_required := True, cf_database_tls_ca_pem := Some ''ca.pem'', cf_database_tls_cert_pem := Some ''cert.pem'',
     cf_database_tls_key_pem := Some ''key.pem''\<rparr>"

lemma load_prod_settings: "load_settings prod_settings = Inr prod_settings"
  by code_simp

definition certified_hub :: server where
  "certified_hub = sample_hub\<lparr>srv_status := Ready, srv_host_cert := no_host_cert\<lparr>hc_valid_before := Some (seconds 86400)\<rparr>\<rparr>"

definition sweep_env :: "nat \<Rightarrow> unit task_env" where
  "sweep_env k = quiet_env\<lparr>tenv := sample_env\<lparr>now := seconds 3600 * int k\<rparr>, renew_before := cf_ssh_host_cert_renew_before_seconds prod_settings\<rparr>"

definition certified_db :: state where
  "certified_db = sample_db\<lparr>servers := [certified_hub], clients := []\<rparr>"

theorem certificates_renewed_in_time_witness:
  "\<exists>k q. seconds 3600 * int k < seconds 86400 \<and>
     task_queue (fst (rotate_expiring_host_certs_task (sweep_env k) certified_db)) = task_queue certified_db @ q \<and>
     RotateHostCert (srv_id certified_hub) \<in> set q"
proof -
  let ?run = "\<lambda>k. rotate_expiring_host_certs_task (sweep_env k) certified_db"
  have ex: "\<exists>k. t < seconds 3600 * int k" for t
  proof
    show "t < seconds 3600 * int (nat t + 1)" by (cases "0 \<le> t") (simp_all add: seconds_def)
  qed
  have b: "(''wg_manager.tasks.rotate_expiring_host_certs'', 3600) \<in> snd ` set (beat_schedule prod_settings)"
    by (simp add: beat_schedule_def prod_settings_def default_settings_def)
  have v: "(\<forall>k. seconds 3600 * int k < seconds 86400 \<longrightarrow> certified_hub \<in> set (servers certified_db)) \<and> srv_status certified_hub = Ready \<and>
      hc_valid_before (srv_host_cert certified_hub) = Some (seconds 86400) \<and> seconds 3600 * int 0 < seconds 86400"
    by (simp add: certified_db_def certified_hub_def seconds_def)
  have "\<exists>k q. seconds 3600 * int k < seconds 86400 \<and> task_queue (fst (?run k)) = task_queue certified_db @ q \<and>
      RotateHostCert (srv_id certified_hub) \<in> set q"
    by (rule certificates_renewed_in_time [OF load_prod_settings b, where sweep = "\<lambda>k. seconds 3600 * int k" and te = sweep_env
          and db_at = "\<lambda>_. certified_db" and after = "\<lambda>k. fst (?run k)" and oks = "\<lambda>k. fst (snd (?run k))"
          and okc = "\<lambda>k. fst (snd (snd (?run k)))" and failed = "\<lambda>k. snd (snd (snd (?run k)))", THEN conjunct1, rule_format, OF _ _ _ _ _ _ v])
      (rule ex | simp add: sweep_env_def quiet_env_def sample_env_def certified_db_def seconds_def algebra_simps)+
  then show ?thesis .
qed

definition number_lib :: "nat ssh_lib" where
  "number_lib = \<lparr>sl_public_openssh = (\<lambda>_. ''ssh-ed25519 KEY''), sl_private_pem = (\<lambda>_. ''pem''), sl_load_private = (\<lambda>p. Inr (Ed25519 (length p))),
     sl_identity = (\<lambda>_. Inr (Plain_Key ''Ed25519PublicKey'')), sl_build = (\<lambda>_. Inr ()), sl_sign = (\<lambda>_ _. Inr ''cert'')\<rparr>"

definition idle_ssh_vault :: "unit ssh_vault" where
  "idle_ssh_vault = \<lparr>sv_enable_ssh = (\<lambda>_. returning ()), sv_submit_ca = (\<lambda>_. returning ()), sv_create_role = (\<lambda>_ _ _. returning ()),
     sv_get = (\<lambda>_. returning []), sv_sign_key = (\<lambda>_. returning [])\<rparr>"

definition idle_pki_vault :: "unit vault" where
  "idle_pki_vault = \<lparr>v_enable_pki = (\<lambda>_ _. returning ()), v_tune_mount = (\<lambda>_ _. returning ()), v_generate_root = (\<lambda>_. returning ()),
     v_generate_intermediate = (\<lambda>_. returning []), v_sign_intermediate = (\<lambda>_ _. returning []), v_set_signed = (\<lambda>_ _. returning ()),
     v_role = (\<lambda>_ _ _. returning ()), v_issue = (\<lambda>_ _ _ _. raising (VaultOther ''sealed'')), v_revoke = (\<lambda>_ _. returning ()),
     v_get = (\<lambda>_. returning None), v_validity = (\<lambda>_. Inr (0, 0))\<rparr>"

definition replica_pki :: "x509 \<Rightarrow> unit pki_world \<times> pki_backend result" where
  "replica_pki x = make_pki_backend x idle_pki_vault (pki_settings_of prod_settings) \<lparr>pw_cache = (\<lambda>_. None), pw_vault = ()\<rparr>"

definition replica_ssh :: "nat \<Rightarrow> (nat, unit) ssh_ca_world \<times> nat ssh_ca_backend result" where
  "replica_ssh fresh = make_ssh_ca_backend number_lib idle_ssh_vault fresh (ssh_ca_settings_of prod_settings)
     \<lparr>sw_cache = (\<lambda>_. None), sw_vault = ()\<rparr>"

theorem replicas_share_authorities_witness:
  "\<exists>w1 w2 a1 a2 pin ca. replica_pki sample_x509_lib = (w1, Inr (Local_Backend pin)) \<and>
     replica_pki (sample_x509_lib\<lparr>x_keys := \<lambda>_. ''other''\<rparr>) = (w2, Inr (Local_Backend pin)) \<and> pw_cache w1 pin = pw_cache w2 pin \<and>
     replica_ssh 1 = (a1, Inr (Local_CA ca)) \<and> replica_ssh 2 = (a2, Inr (Local_CA ca))"
proof -
  let ?other = "sample_x509_lib\<lparr>x_keys := \<lambda>_. ''other''\<rparr>"
  have low: "lower ''local'' = ''local''" by code_simp
  have cf: "cf_pki_backend prod_settings = ''local''" "cf_ssh_ca_backend prod_settings = ''local''" "cf_tls_required prod_settings"
    "cf_pki_pinned prod_settings = (Some ''root'', Some ''rkey'', Some ''int'', Some ''ikey'')" "cf_ssh_ca_local_dev_pem prod_settings = Some ''capem''"
    by (simp_all add: prod_settings_def default_settings_def)
  have guard: "enforce_ha_startup_guards prod_settings = Inr ()" by (simp add: enforce_ha_startup_guards_def cf is_set_def)
  have same: "from_pem sample_x509_lib = from_pem ?other" by (intro ext) (simp add: from_pem_def)
  have pem: "from_pem sample_x509_lib a b c d = Inr (new_local_pki a b c d)" for a b c d
    by (simp add: from_pem_def sample_x509_lib_def pinned_load_def)
  have "\<exists>w. replica_pki sample_x509_lib = (w, Inr (Local_Backend (cf_pki_pinned prod_settings)))"
    "\<exists>w. replica_pki ?other = (w, Inr (Local_Backend (cf_pki_pinned prod_settings)))"
    using pem by (simp_all add: replica_pki_def make_pki_backend_def pki_settings_of_def cf low is_set_def flip: same)
  then obtain w1 w2 where w: "replica_pki sample_x509_lib = (w1, Inr (Local_Backend (cf_pki_pinned prod_settings)))"
    "replica_pki ?other = (w2, Inr (Local_Backend (cf_pki_pinned prod_settings)))" by blast
  have "\<exists>a. replica_ssh f = (a, Inr (Local_CA 5))" for f
    by (simp add: replica_ssh_def make_ssh_ca_backend_def ssh_ca_settings_of_def cf low is_set_def ssh_ca_from_pem_def number_lib_def ca_error_def Let_def)
  then obtain a1 a2 where a: "replica_ssh 1 = (a1, Inr (Local_CA 5))" "replica_ssh 2 = (a2, Inr (Local_CA 5))" by blast
  have "pw_cache w1 (cf_pki_pinned prod_settings) = pw_cache w2 (cf_pki_pinned prod_settings)"
    using replicas_share_authorities [OF guard cf(3) _ _ same w [unfolded replica_pki_def] a [unfolded replica_ssh_def]] by (simp add: cf low)
  then show ?thesis using w a by blast
qed

theorem database_never_cleartext_witness:
  "\<exists>eg tls. build_engine (\<lambda>_. True) (cf_database_url prod_settings) prod_settings = Inr eg \<and> eg_ssl eg = Some tls \<and> my_check_hostname tls \<and>
     my_ca tls = ''ca.pem''"
proof -
  have d: "cf_database_tls_required prod_settings" "is_mysql_url (cf_database_url prod_settings)"
    "cf_database_tls_ca_pem prod_settings = Some ''ca.pem''" by code_simp+
  have "\<exists>eg. build_engine (\<lambda>_. True) (cf_database_url prod_settings) prod_settings = Inr eg"
    using d by (simp add: build_engine_def resolve_mysql_ssl_def checked_pem_def) (simp add: prod_settings_def)
  then show ?thesis using database_never_cleartext [OF d(1,2)] d(3) by fastforce
qed


end
