(* ===== verification/Web_App.thy ===== *)
theory Web_App
  imports Metrics Settings Auth
begin

text \<open>
  The operator API as \<^verbatim>\<open>main.py\<close> puts it together: uvicorn's scope with the client certificate
  (\<^verbatim>\<open>_tls_uvicorn.py\<close>), the middlewares in the order \<^verbatim>\<open>create_app\<close> adds them, the deprecation envelope and the
  versioned schema (\<^verbatim>\<open>api_versioning.py\<close>), the probes (\<^verbatim>\<open>routers/health.py\<close>) and the task status
  (\<^verbatim>\<open>routers/tasks.py\<close>). The CORS middleware and the router are parameters; the framework wraps the
  middleware added last around all others.
\<close>

section \<open>The client certificate\<close>

text \<open>
  \<^verbatim>\<open>getpeercert(binary_form=True)\<close> and the reading of the DER body: the arguments are what they answer or raise; the
  outer option of the peer is the TLS layer of the connection.
\<close>

definition ssl_object_to_chain :: "(string \<Rightarrow> string result) \<Rightarrow> string option result option \<Rightarrow> string list result" where
  "ssl_object_to_chain pem_of_der peer =
     (case peer of
        None \<Rightarrow> Inr []
      | Some (Inl (OSError m)) \<Rightarrow> Inr []
      | Some (Inl e) \<Rightarrow> if e = OtherError ''AttributeError'' then Inr [] else Inl e
      | Some (Inr None) \<Rightarrow> Inr []
      | Some (Inr (Some der)) \<Rightarrow>
          if der = [] then Inr []
          else (case pem_of_der der of
                  Inl (ValueError m) \<Rightarrow> Inr []
                | Inl (TypeError m) \<Rightarrow> Inr []
                | Inl e \<Rightarrow> Inl e
                | Inr pem \<Rightarrow> Inr [pem]))"

definition inject_tls_extension :: "(string \<Rightarrow> string result) \<Rightarrow> string option result option \<Rightarrow> asgi_scope \<Rightarrow> asgi_scope result" where
  "inject_tls_extension pem_of_der peer scope =
     rbind (ssl_object_to_chain pem_of_der peer) (\<lambda>chain.
       if chain = [] then Inr scope
       else Inr (scope\<lparr>sc_extensions := Some (Some \<lparr>client_cert_chain = Some chain\<rparr>)\<rparr>))"

text \<open>The wrapper around the request cycle swallows whatever the injection raises and leaves the scope as it was.\<close>

definition cycle_scope :: "(string \<Rightarrow> string result) \<Rightarrow> string option result option \<Rightarrow> asgi_scope \<Rightarrow> asgi_scope" where
  "cycle_scope pem_of_der peer scope = (case inject_tls_extension pem_of_der peer scope of Inl _ \<Rightarrow> scope | Inr sc \<Rightarrow> sc)"

text \<open>
  The patch of the two request cycle classes: each carries the marker of the wrapper and its initialiser, which hands
  the scope of a connection on to the application. The second class is missing when \<^verbatim>\<open>httptools\<close> is not installed.
\<close>

record 'a cycle_class =
  tls_wrapped :: bool
  cycle_init :: "asgi_scope \<Rightarrow> string option result option \<Rightarrow> 'a"

record 'a uvicorn_shim =
  shim_patched :: bool
  shim_h11 :: "'a cycle_class"
  shim_httptools :: "'a cycle_class option"

definition wrap_cycle_init :: "(string \<Rightarrow> string result) \<Rightarrow> 'a cycle_class \<Rightarrow> 'a cycle_class" where
  "wrap_cycle_init pem_of_der cls =
     (if tls_wrapped cls then cls
      else \<lparr>tls_wrapped = True, cycle_init = (\<lambda>scope peer. cycle_init cls (cycle_scope pem_of_der peer scope) peer)\<rparr>)"

definition enable_tls_extension :: "(string \<Rightarrow> string result) \<Rightarrow> 'a uvicorn_shim \<Rightarrow> 'a uvicorn_shim" where
  "enable_tls_extension pem_of_der sh =
     (if shim_patched sh then sh
      else \<lparr>shim_patched = True, shim_h11 = wrap_cycle_init pem_of_der (shim_h11 sh),
            shim_httptools = map_option (wrap_cycle_init pem_of_der) (shim_httptools sh)\<rparr>)"

section \<open>Requests and answers\<close>

text \<open>
  The headers of a reply are a mapping by lower-case name and hold what the application's own code sets, not the
  content headers of the framework. The audit stream holds the lines of the authentication and the deprecation
  events, in order.
\<close>

datatype web_line = Auth_Event auth_line | Deprecation_Event string

record web_reply =
  wr_status :: int
  wr_headers :: "(string \<times> string) list"
  wr_body :: json

record web_state =
  ws_db :: state
  ws_metrics :: metrics
  ws_lines :: "web_line list"

text \<open>An application answers a request with the state slots the middlewares set, and tells which route it matched.\<close>

type_synonym web_app = "asgi_scope \<Rightarrow> request_state \<Rightarrow> web_state \<Rightarrow> web_state \<times> string option \<times> web_reply result"

definition mtls_middleware :: "auth_settings \<Rightarrow> auth_env \<Rightarrow> web_app \<Rightarrow> web_app" where
  "mtls_middleware settings ae app scope rs ws =
     (case dispatch settings ae scope (ws_db ws) of
        Inl e \<Rightarrow> (ws, None, Inl e)
      | Inr (s', lines, Reject reason) \<Rightarrow>
          (ws\<lparr>ws_db := s', ws_lines := ws_lines ws @ map Auth_Event lines\<rparr>, None,
           Inr \<lparr>wr_status = 401, wr_headers = [], wr_body = JObj [(''detail'', JStr (reject_detail reason))]\<rparr>)
      | Inr (s', lines, Forward rs') \<Rightarrow> app scope rs' (ws\<lparr>ws_db := s', ws_lines := ws_lines ws @ map Auth_Event lines\<rparr>))"

definition count_requests :: "int \<Rightarrow> int \<Rightarrow> web_app \<Rightarrow> web_app" where
  "count_requests start stop app scope rs ws =
     (let (ws', route, r) = app scope rs ws;
          run = \<lparr>ar_sent = (case r of Inl _ \<Rightarrow> [] | Inr rep \<Rightarrow> [Response_Start (Some (wr_status rep)), Other_Message]),
                 ar_route = route, ar_ended = (case r of Inl e \<Rightarrow> Inl e | Inr _ \<Rightarrow> Inr ())\<rparr>;
          m = fst (metrics_middleware start stop \<lparr>mr_type = ''http'', mr_method = Some (sc_method scope), mr_path = Some (sc_path scope)\<rparr> run (ws_metrics ws')) in
      (ws'\<lparr>ws_metrics := m\<rparr>, route, r))"

section \<open>Versioning\<close>

definition EXEMPT_PREFIXES :: "string list" where
  "EXEMPT_PREFIXES = [''/v1'', ''/openapi.json'', ''/v1/openapi.json'', ''/docs'', ''/redoc'', ''/metrics'', ''/healthz'', ''/readyz'']"

definition is_legacy_path :: "string \<Rightarrow> bool" where
  "is_legacy_path path \<longleftrightarrow> path \<noteq> [] \<and> path \<noteq> ''/'' \<and>
     \<not> list_ex (\<lambda>prefix. path = prefix \<or> startswith path (prefix @ ''/'')) EXEMPT_PREFIXES"

definition deprecation_headers :: "app_settings \<Rightarrow> (string \<times> string) list \<Rightarrow> (string \<times> string) list" where
  "deprecation_headers cf hs =
     dict_put ''link'' (''<'' @ cf_api_deprecation_doc_url cf @ ''>; rel='' @ [CHR 0x22] @ ''deprecation'' @ [CHR 0x22] @ ''; type='' @
        [CHR 0x22] @ ''text/html'' @ [CHR 0x22])
       (dict_put ''sunset'' (cf_api_legacy_sunset_date cf) (dict_put ''deprecation'' ''true'' hs))"

definition deprecation_middleware :: "env \<Rightarrow> app_settings \<Rightarrow> web_app \<Rightarrow> web_app" where
  "deprecation_middleware e cf app scope rs ws =
     (case app scope rs ws of
        (ws', route, Inl x) \<Rightarrow> (ws', route, Inl x)
      | (ws', route, Inr rep) \<Rightarrow>
          if \<not> is_legacy_path (sc_path scope) then (ws', route, Inr rep)
          else (ws'\<lparr>ws_lines := ws_lines ws' @ [Deprecation_Event (emit e ''api.deprecation'' [(''path'', JStr (sc_path scope)), (''method'', JStr (sc_method scope)),
                      (''sunset'', JStr (cf_api_legacy_sunset_date cf))])]\<rparr>, route,
                Inr (rep\<lparr>wr_headers := deprecation_headers cf (wr_headers rep)\<rparr>)))"

text \<open>The OpenAPI document: its paths, and version and title of its info object.\<close>

record 'op openapi =
  oa_paths :: "(string \<times> 'op) list"
  oa_version :: "string option"
  oa_title :: "string option"

definition build_v1_openapi :: "'op openapi \<Rightarrow> 'op openapi" where
  "build_v1_openapi full =
     full\<lparr>oa_paths := filter (\<lambda>(path, _). startswith path ''/v1'') (oa_paths full), oa_version := Some ''1.0'',
          oa_title := Some ((case oa_title full of None \<Rightarrow> ''wg-manager'' | Some t \<Rightarrow> t) @ '' (v1)'')\<rparr>"

section \<open>Probes and task status\<close>

definition healthz :: json where "healthz = JObj [(''status'', JStr ''ok'')]"

definition ELLIPSIS :: string where "ELLIPSIS = [CHR 0xE2, CHR 0x80, CHR 0xA6]"

text \<open>The probe query answers or raises an exception with a text; the ellipsis is its UTF-8 form.\<close>

definition readyz :: "string option \<Rightarrow> int \<times> json" where
  "readyz failure =
     (let db_check = (case failure of
            None \<Rightarrow> ''ok''
          | Some msg \<Rightarrow> ''error: '' @ (if 200 < length msg then take 200 msg @ ELLIPSIS else msg)) in
      (if failure = None then 200 else 503,
       JObj [(''status'', JStr (if failure = None then ''ok'' else ''degraded'')), (''checks'', JObj [(''db'', JStr db_check)])]))"

text \<open>What the result backend holds for a task: its state, its result, and the text of the result.\<close>

record task_status =
  tk_task_id :: string
  tk_state :: string
  tk_result :: "json option"
  tk_error :: "string option"

definition get_task_status :: "string \<Rightarrow> string \<Rightarrow> json \<Rightarrow> string \<Rightarrow> task_status" where
  "get_task_status task_id state raw str_raw =
     \<lparr>tk_task_id = task_id, tk_state = state,
      tk_result = (if state = ''SUCCESS'' then Some (case raw of JObj kvs \<Rightarrow> JObj kvs | v \<Rightarrow> JObj [(''value'', v)]) else None),
      tk_error = (if state \<noteq> ''SUCCESS'' \<and> state = ''FAILURE'' then Some str_raw else None)\<rparr>"

section \<open>The application\<close>

definition parse_cors_origins :: "string \<Rightarrow> string list" where
  "parse_cors_origins raw = map strip (filter (\<lambda>o'. strip o' \<noteq> []) (split_on CHR '','' raw))"

definition add_middleware :: "('a \<Rightarrow> 'a) \<Rightarrow> ('a \<Rightarrow> 'a) list \<Rightarrow> ('a \<Rightarrow> 'a) list" where
  "add_middleware m stack = m # stack"

definition middleware_stack :: "('a \<Rightarrow> 'a) list \<Rightarrow> 'a \<Rightarrow> 'a" where
  "middleware_stack stack app = foldr (\<lambda>m a. m a) stack app"

text \<open>What the authentication reads from the settings.\<close>

definition auth_settings_of :: "app_settings \<Rightarrow> auth_settings" where
  "auth_settings_of cf = \<lparr>tls_required = cf_tls_required cf, auth_bootstrap_operator_cn = cf_auth_bootstrap_operator_cn cf,
     auth_bootstrap_operator_role = cf_auth_bootstrap_operator_role cf\<rparr>"

definition create_app ::
  "env \<Rightarrow> auth_env \<Rightarrow> int \<times> int \<Rightarrow> (string list \<Rightarrow> web_app \<Rightarrow> web_app) \<Rightarrow> web_app \<Rightarrow> app_settings \<Rightarrow> web_app result" where
  "create_app e ae clock cors router cf =
     rbind (enforce_ha_startup_guards cf) (\<lambda>_.
       let s0 = [];
           s1 = add_middleware (cors (parse_cors_origins (cf_cors_origins cf))) s0;
           s2 = add_middleware (mtls_middleware (auth_settings_of cf) ae) s1;
           s3 = add_middleware (count_requests (fst clock) (snd clock)) s2;
           s4 = add_middleware (deprecation_middleware e cf) s3 in
       Inr (middleware_stack s4 router))"


section \<open>Lemmas\<close>

lemma deprecation_headers_hit: "map_of (deprecation_headers cf hs) ''deprecation'' = Some ''true''"
  "map_of (deprecation_headers cf hs) ''sunset'' = Some (cf_api_legacy_sunset_date cf)"
  by (simp_all add: deprecation_headers_def map_of_dict_put)

lemma dict_put_keys: "fst ` set (dict_put k v kvs) = insert k (fst ` set kvs)"
proof -
  have "dom (map_of (dict_put k v kvs)) = insert k (dom (map_of kvs))" by (auto simp: dom_def map_of_dict_put)
  then show ?thesis by (simp add: dom_map_of_conv_image_fst)
qed

lemma deprecation_header_keys:
  "fst ` set (deprecation_headers cf hs) = insert ''link'' (insert ''sunset'' (insert ''deprecation'' (fst ` set hs)))"
  by (simp add: deprecation_headers_def dict_put_keys)

lemma create_app_iff:
  "create_app e ae clock cors router cf = Inr app \<longleftrightarrow>
     enforce_ha_startup_guards cf = Inr () \<and>
     app = deprecation_middleware e cf (count_requests (fst clock) (snd clock)
       (mtls_middleware (auth_settings_of cf) ae (cors (parse_cors_origins (cf_cors_origins cf)) router)))"
  by (auto simp: create_app_def middleware_stack_def add_middleware_def rbind_Inr_iff)


lemma cycle_scope_request [simp]:
  "sc_method (cycle_scope pem_of_der peer scope) = sc_method scope" "sc_path (cycle_scope pem_of_der peer scope) = sc_path scope"
  by (auto simp: cycle_scope_def inject_tls_extension_def rbind_Inr_iff split: sum.splits if_splits)



section \<open>Correctness\<close>


text \<open>
  The answer to a rejected request is made outside the CORS middleware: a 401 whose only headers are the deprecation
  envelope, whatever the CORS policy. The request is counted under its raw path.
\<close>

theorem rejections_lack_cors:
  assumes "create_app e ae clock cors router cf = Inr app"
    and "dispatch (auth_settings_of cf) ae scope (ws_db ws) = Inr (s', lines, Reject reason)"
  shows "\<exists>ws' rep. app scope rs ws = (ws', None, Inr rep) \<and> wr_status rep = 401 \<and>
    wr_body rep = JObj [(''detail'', JStr (reject_detail reason))] \<and>
    fst ` set (wr_headers rep) = (if is_legacy_path (sc_path scope) then {''link'', ''sunset'', ''deprecation''} else {}) \<and>
    ws_db ws' = s' \<and>
    (sc_method scope \<noteq> ''OPTIONS'' \<and> sc_path scope \<noteq> ''/metrics'' \<longrightarrow>
      http_requests_total (ws_metrics ws') (sc_method scope, sc_path scope, ''401'') =
        Suc (http_requests_total (ws_metrics ws) (sc_method scope, sc_path scope, ''401'')))"
proof -
  have "str_of_int 401 = ''401''" by code_simp
  then show ?thesis
    using assms(2) unfolding assms(1) [unfolded create_app_iff, THEN conjunct2]
    by (simp add: deprecation_middleware_def count_requests_def mtls_middleware_def deprecation_header_keys
        metrics_middleware_def uncounted_def scope_method_def scope_path_def path_label_def inc_def Let_def)
qed

text \<open>
  The deprecation envelope lies on every answer from a legacy path and on no other: the headers of the answer the
  inner application gave are kept otherwise, and one audit line is written per legacy answer.
\<close>

theorem deprecation_envelope:
  assumes "app scope rs ws = (ws1, route, Inr rep)"
  shows "\<exists>ws' rep'. deprecation_middleware e cf app scope rs ws = (ws', route, Inr rep') \<and>
    wr_status rep' = wr_status rep \<and> wr_body rep' = wr_body rep \<and>
    (\<forall>name. map_of (wr_headers rep') name =
       (if is_legacy_path (sc_path scope) \<and> name \<in> {''deprecation'', ''sunset'', ''link''}
        then map_of (deprecation_headers cf []) name else map_of (wr_headers rep) name)) \<and>
    length (ws_lines ws') = length (ws_lines ws1) + (if is_legacy_path (sc_path scope) then 1 else 0)"
  using assms by (auto simp: deprecation_middleware_def deprecation_headers_def map_of_dict_put)

lemma startswith_append: "startswith (p @ s) p" by (simp add: startswith_def)

theorem versioned_mount_is_not_legacy: "startswith path ''/'' \<Longrightarrow> \<not> is_legacy_path (''/v1'' @ path)"
  by (cases path) (auto simp: is_legacy_path_def EXEMPT_PREFIXES_def startswith_def)

text \<open>Enabling the extension again, in any state of the flag and the markers it leaves, changes nothing.\<close>

theorem enable_tls_extension_idempotent:
  "enable_tls_extension pem_of_der (enable_tls_extension pem_of_der sh) = enable_tls_extension pem_of_der sh \<and>
   wrap_cycle_init pem_of_der (wrap_cycle_init pem_of_der cls) = wrap_cycle_init pem_of_der cls"
  by (simp add: enable_tls_extension_def wrap_cycle_init_def)

text \<open>A probe is ready exactly when the query answers, and its error text stays within 200 characters and the ellipsis.\<close>

theorem readyz_bounded:
  "fst (readyz failure) = (if failure = None then 200 else 503) \<and>
   (\<exists>status msg. snd (readyz failure) = JObj [(''status'', JStr status), (''checks'', JObj [(''db'', JStr msg)])] \<and>
      length msg \<le> 7 + 200 + length ELLIPSIS)"
  by (auto simp: readyz_def Let_def ELLIPSIS_def split: option.splits)








end
