(* ===== verification/Tracing.thy ===== *)
theory Tracing
  imports Settings
begin

text \<open>
  \<^verbatim>\<open>tracing.py\<close>: the set-up of the tracer provider, the in-memory exporter and the span around SSH operations. The
  OpenTelemetry packages are parameters: \<^verbatim>\<open>set_provider\<close> is \<^verbatim>\<open>trace.set_tracer_provider\<close> on the global provider
  (\<^verbatim>\<open>None\<close> is the default one, which records nothing), \<^verbatim>\<open>otlp_installed\<close> and \<^verbatim>\<open>celery_instrumented\<close> say whether the optional
  packages import.
\<close>

section \<open>Set-up\<close>

datatype span_processor = Console_Exporter | Otlp_Exporter string | Memory_Exporter nat

record provider =
  pv_service_name :: string
  pv_processors :: "span_processor list"

record tracing =
  tr_memory_exporter :: "nat option"
  tr_setup_done :: bool
  tr_provider :: "provider option"
  tr_instrumented :: bool

record otel =
  ot_environ :: "string \<Rightarrow> string option"
  ot_set_provider :: "provider \<Rightarrow> provider option \<Rightarrow> provider option"
  ot_otlp_installed :: bool
  ot_celery_instrumented :: bool

definition VALID_EXPORTERS :: "string list" where
  "VALID_EXPORTERS = [''console'', ''memory'', ''none'', ''otlp-http'']"

definition instrument_celery :: "otel \<Rightarrow> tracing \<Rightarrow> tracing" where
  "instrument_celery ot t = (if ot_celery_instrumented ot then t\<lparr>tr_instrumented := True\<rparr> else t)"

definition environ_default :: "otel \<Rightarrow> string \<Rightarrow> string \<Rightarrow> string option \<Rightarrow> string" where
  "environ_default ot name fallback given =
     (case given of Some x \<Rightarrow> x | None \<Rightarrow> (case ot_environ ot name of Some x \<Rightarrow> x | None \<Rightarrow> fallback))"

text \<open>\<^verbatim>\<open>fresh\<close> is the identity of the exporter object a call creates.\<close>

definition setup_tracing :: "otel \<Rightarrow> nat \<Rightarrow> string option \<Rightarrow> string option \<Rightarrow> string \<Rightarrow> tracing \<Rightarrow> tracing \<times> unit result" where
  "setup_tracing ot fresh exporter_kind otlp_endpoint service_name t =
     (let kind = environ_default ot ''OTEL_EXPORTER'' ''none'' exporter_kind;
          endpoint = environ_default ot ''OTEL_EXPORTER_OTLP_ENDPOINT'' ''http://localhost:4318'' otlp_endpoint in
      if kind \<notin> set VALID_EXPORTERS then (t, Inl (ValueError (''unknown exporter_kind '' @ py_repr kind @ ''; expected one of ['' @ join_with '', '' (map py_repr VALID_EXPORTERS) @ '']'')))
      else if tr_setup_done t then (t, Inr ())
      else if kind = ''none'' then (instrument_celery ot (t\<lparr>tr_setup_done := True\<rparr>), Inr ())
      else if kind = ''otlp-http'' \<and> \<not> ot_otlp_installed ot then (t, Inl (OtherError ''ModuleNotFoundError''))
      else
        let (t, processor) =
              (if kind = ''console'' then (t, Console_Exporter)
               else if kind = ''otlp-http'' then (t, Otlp_Exporter (endpoint @ ''/v1/traces''))
               else (t\<lparr>tr_memory_exporter := Some fresh\<rparr>, Memory_Exporter fresh));
            provider = \<lparr>pv_service_name = service_name, pv_processors = [processor]\<rparr> in
        (instrument_celery ot (t\<lparr>tr_provider := ot_set_provider ot provider (tr_provider t), tr_setup_done := True\<rparr>), Inr ()))"

definition install_in_memory_exporter :: "otel \<Rightarrow> nat \<Rightarrow> tracing \<Rightarrow> tracing \<times> nat result" where
  "install_in_memory_exporter ot fresh t =
     (case tr_memory_exporter t of
        Some x \<Rightarrow> (t, Inr x)
      | None \<Rightarrow>
          (case setup_tracing ot fresh (Some ''memory'') None ''wg-manager'' (t\<lparr>tr_setup_done := False\<rparr>) of
             (t', Inl e) \<Rightarrow> (t', Inl e)
           | (t', Inr _) \<Rightarrow>
               (case tr_memory_exporter t' of None \<Rightarrow> (t', Inl (OtherError ''AssertionError'')) | Some x \<Rightarrow> (t', Inr x))))"

text \<open>The call at import time, in the API and in the worker.\<close>

definition setup_from_settings :: "otel \<Rightarrow> nat \<Rightarrow> app_settings \<Rightarrow> tracing \<Rightarrow> tracing \<times> unit result" where
  "setup_from_settings ot fresh cf =
     setup_tracing ot fresh (Some (cf_otel_exporter cf)) (Some (cf_otel_exporter_otlp_endpoint cf)) (cf_otel_service_name cf)"

section \<open>Spans\<close>

record finished_span =
  sn_name :: string
  sn_attributes :: "(string \<times> json) list"
  sn_error :: "string option"

text \<open>A finished span and what the wrapped body gave; \<^verbatim>\<open>type_name\<close> is the class of an exception.\<close>

definition ssh_span :: "(exn \<Rightarrow> string) \<Rightarrow> string \<Rightarrow> (string \<times> json) list \<Rightarrow> 'a result \<Rightarrow> finished_span \<times> 'a result" where
  "ssh_span type_name operation attributes body =
     (\<lparr>sn_name = ''ssh.'' @ operation, sn_attributes = map (\<lambda>(k, v). (''ssh.'' @ k, v)) attributes,
       sn_error = (case body of Inl e \<Rightarrow> Some (type_name e) | Inr _ \<Rightarrow> None)\<rparr>, body)"

section \<open>Correctness\<close>

text \<open>
  The first set-up wins: once one went through, every later call leaves the tracing as it is, and fails only for a
  kind that is not known.
\<close>

theorem first_setup_wins:
  assumes "setup_tracing ot x kind endpoint name t = (t', Inr ())"
  shows "fst (setup_tracing ot' y kind' endpoint' name' t') = t' \<and>
    (snd (setup_tracing ot' y kind' endpoint' name' t') = Inr () \<longleftrightarrow>
       environ_default ot' ''OTEL_EXPORTER'' ''none'' kind' \<in> set VALID_EXPORTERS)"
proof -
  have "tr_setup_done t'"
    using assms by (auto simp: setup_tracing_def instrument_celery_def Let_def split: if_splits)
  then show ?thesis by (simp add: setup_tracing_def Let_def)
qed

text \<open>
  With a provider that can be set once, as OpenTelemetry documents it, the global provider of a process that set up
  an exporter stays for good: an in-memory exporter installed afterwards is handed out, but no provider feeds it.
\<close>

theorem late_memory_exporter_sees_nothing:
  assumes "\<And>p q. ot_set_provider ot p (Some q) = Some q" and "tr_provider t = Some pv" and "tr_memory_exporter t = None"
  shows "\<exists>t'. install_in_memory_exporter ot fresh t = (t', Inr fresh) \<and> tr_provider t' = Some pv \<and>
    install_in_memory_exporter ot fresh' t' = (t', Inr fresh)"
  using assms
  by (simp add: install_in_memory_exporter_def setup_tracing_def environ_default_def VALID_EXPORTERS_def instrument_celery_def Let_def)

lemma ssh_span_transparent: "snd (ssh_span type_name operation attributes body) = body"
  by (simp add: ssh_span_def)

text \<open>The default settings trace nothing and never need the exporter package.\<close>

lemma default_settings_trace_nothing:
  "tr_setup_done t \<or> setup_from_settings ot fresh default_settings t = (instrument_celery ot (t\<lparr>tr_setup_done := True\<rparr>), Inr ())"
  by (simp add: setup_from_settings_def setup_tracing_def environ_default_def VALID_EXPORTERS_def default_settings_def Let_def)

end
