(* ===== verification/Responses.thy ===== *)
theory Responses
  imports Servers Clients Certs Tenants Tokens_Api
begin

text \<open>
  What leaves the operator API: the response models of \<^verbatim>\<open>schemas.py\<close> that are built from a row
  (\<^verbatim>\<open>from_attributes\<close>), and the audit listing with its payloads parsed (\<^verbatim>\<open>_row_to_read\<close> of
  \<^verbatim>\<open>routers/audit.py\<close>). The compact JSON of the audit table reads back to what was written.
\<close>

section \<open>Reading the compact form\<close>

text \<open>What a value is once it was written: instants are strings.\<close>

fun json_sent :: "(int \<Rightarrow> string) \<Rightarrow> json \<Rightarrow> json" where
  "json_sent iso_of (JTime t) = JStr (iso_of t)"
| "json_sent iso_of (JArr xs) = JArr (map (json_sent iso_of) xs)"
| "json_sent iso_of (JObj kvs) = JObj (map (\<lambda>(k, v). (k, json_sent iso_of v)) kvs)"
| "json_sent iso_of v = v"

text \<open>No float, and no key twice in an object.\<close>

fun json_wire :: "json \<Rightarrow> bool" where
  "json_wire (JArr xs) \<longleftrightarrow> list_all json_wire xs"
| "json_wire (JObj kvs) \<longleftrightarrow> distinct (map fst kvs) \<and> list_all (\<lambda>(k, v). json_wire v) kvs"
| "json_wire (JFloat lit) \<longleftrightarrow> False"
| "json_wire v \<longleftrightarrow> True"

fun flat_tokens :: "(int \<Rightarrow> string) \<Rightarrow> json \<Rightarrow> json_token list" where
  "flat_tokens iso_of (JStr s) = [T_Str s]"
| "flat_tokens iso_of (JTime t) = [T_Str (iso_of t)]"
| "flat_tokens iso_of (JArr xs) = T_LBrack # commas (map (flat_tokens iso_of) xs) @ [T_RBrack]"
| "flat_tokens iso_of (JObj kvs) = T_LBrace # commas (map (\<lambda>(k, v). T_Str k # T_Colon # flat_tokens iso_of v) kvs) @ [T_RBrace]"
| "flat_tokens iso_of v = [T_Val v]"

lemma reads_comma_join:
  assumes "list_all2 json_reads ps tss" and "ps \<noteq> []"
  shows "json_reads (join_with '','' ps) (commas tss)"
  using assms
proof (induction ps tss rule: list_all2_induct)
  case (Cons p ps ts tss)
  show ?case
  proof (cases ps)
    case Nil
    then show ?thesis using Cons by simp
  next
    case (Cons q qs)
    then obtain us uss where "tss = us # uss" using \<open>list_all2 json_reads ps tss\<close> by (cases tss) auto
    then show ?thesis using Cons \<open>json_reads p ts\<close> Cons.IH
      unfolding json_reads_def by (simp add: lex_punctuation del: json_lex.simps)
  qed
qed simp

lemma reads_int: "json_reads (str_of_int i) [T_Val (JInt i)]"
proof -
  have "json_lex (str_of_int i @ rest) = map_option ((@) [T_Val (JInt i)]) (json_lex rest)" if "number_end rest" for rest
  proof -
    from next_token_int [OF that, of i] have n: "next_token (str_of_int i @ rest) = Some (T_Val (JInt i), rest)"
      and h: "\<not> json_space (hd (str_of_int i @ rest))" by (auto simp: str_of_int_def hd_append)
    show ?thesis using lex_token [OF n h] by simp
  qed
  then show ?thesis by (simp add: json_reads_def)
qed

lemma number_end_close: "number_end (CHR '']'' # s)" "number_end (CHR ''}'' # s)"
  by (simp_all add: number_end_def is_digit_def)

lemma lex_dumps: "json_wire v \<Longrightarrow> json_reads (json_dumps iso_of False v) (flat_tokens iso_of v)"
proof (induction v)
  case (JArr xs)
  have "list_all2 json_reads (map (json_dumps iso_of False) xs) (map (flat_tokens iso_of) xs)"
    using JArr by (simp add: list_all2_map1 list_all2_map2 list_all2_same list_all_iff)
  from reads_comma_join [OF this] show ?case
    by (cases "xs = []") (simp_all add: json_reads_def lex_punctuation number_end_close del: json_lex.simps)
next
  case (JObj kvs)
  have "list_all2 json_reads (map (\<lambda>(k, v). json_string k @ '':'' @ json_dumps iso_of False v) kvs)
      (map (\<lambda>(k, v). T_Str k # T_Colon # flat_tokens iso_of v) kvs)"
    using JObj by (auto simp: list_all2_map1 list_all2_map2 list_all2_same list_all_iff json_reads_def lex_string lex_punctuation
        simp del: json_lex.simps)
  moreover have "json_dumps iso_of False (JObj kvs) = ''{'' @ join_with '','' (map (\<lambda>(k, v). json_string k @ '':'' @ json_dumps iso_of False v) kvs) @ ''}''"
    by (simp add: comp_def case_prod_unfold)
  ultimately show ?case
    using reads_comma_join [of "map (\<lambda>(k, v). json_string k @ '':'' @ json_dumps iso_of False v) kvs"]
    by (cases "kvs = []") (simp_all add: json_reads_def lex_punctuation number_end_close del: json_lex.simps json_dumps.simps)
next
  case (JInt i)
  show ?case by (simp add: reads_int)
next
  case (JStr s)
  show ?case by (simp add: json_reads_def lex_string)
next
  case (JTime t)
  show ?case by (simp add: json_reads_def lex_string)
qed (auto simp: json_reads_def json_keyword_def startswith_def json_space_def)

lemma consumes_flat: "json_wire v \<Longrightarrow> json_consumes (flat_tokens iso_of v) (json_sent iso_of v)"
proof (induction v)
  case (JArr xs)
  have all: "list_all2 json_consumes (map (flat_tokens iso_of) xs) (map (json_sent iso_of) xs)"
    using JArr by (simp add: list_all2_map1 list_all2_map2 list_all2_same list_all_iff)
  show ?case
    using array_run(2) [OF all] by (cases "xs = []") (simp_all add: json_consumes_def)
next
  case (JObj kvs)
  have items: "\<forall>(k, v) \<in> set kvs. json_consumes (flat_tokens iso_of v) (json_sent iso_of v)"
    using JObj by (auto simp: list_all_iff)
  have dist: "distinct (map fst ([] :: (string \<times> json) list) @ map fst kvs)" using JObj.prems by simp
  show ?case
  proof (cases "kvs = []")
    case False
    then obtain p q where pq: "commas (map (\<lambda>(k, v). T_Str k # T_Colon # flat_tokens iso_of v) kvs) = T_Str p # q"
      by (cases kvs rule: remdups_adj.cases) auto
    have "json_run (commas (map (\<lambda>(k, v). T_Str k # T_Colon # flat_tokens iso_of v) kvs) @ T_RBrace # ts) (Want_Key_Or_End (Open_Obj [] # st)) =
        run_from (json_complete (json_sent iso_of (JObj kvs)) st) ts" for ts st
      using object_run [OF items False dist, of ts st] unfolding pq by simp
    then show ?thesis by (simp add: json_consumes_def)
  qed (simp add: json_consumes_def)
qed (simp_all add: json_consumes_def)

lemma json_loads_dumps:
  assumes "json_wire v"
  shows "json_loads (json_dumps iso_of False v) = Inr (json_sent iso_of v)"
proof -
  have "json_lex (json_dumps iso_of False v) = Some (flat_tokens iso_of v)"
    using lex_dumps [OF assms, of iso_of] unfolding json_reads_def by (metis append_Nil2 json_lex.simps(1) number_end_simps(4) option.simps(9))
  moreover have "json_run (flat_tokens iso_of v) (Want_Value []) = Some (Json_Done (json_sent iso_of v))"
    using consumes_flat [OF assms, of iso_of] unfolding json_consumes_def by (metis append_Nil2 json_complete.simps(1) json_run.simps(1) run_from_simps(2))
  ultimately show ?thesis by (simp add: json_loads_def)
qed

section \<open>Response models\<close>

text \<open>A model declares its fields; each is read off the attribute of that name.\<close>

definition from_attributes :: "string list \<Rightarrow> (string \<times> json) list \<Rightarrow> json" where
  "from_attributes names row = JObj (map (\<lambda>k. (k, case map_of row k of None \<Rightarrow> JNull | Some v \<Rightarrow> v)) names)"

definition host_cert_fields :: "string list" where
  "host_cert_fields = [''host_cert_serial'', ''host_cert_principals'', ''host_cert_valid_after'', ''host_cert_valid_before'',
     ''host_cert_pem'', ''host_cert_ca_public_key'']"

definition SSHKeyRead :: "env \<Rightarrow> ssh_key \<Rightarrow> json" where
  "SSHKeyRead e k = from_attributes [''id'', ''name'', ''created_at'', ''mode'', ''tenant_id''] (ssh_key_json e k)"

definition ServerRead :: "env \<Rightarrow> server \<Rightarrow> json" where
  "ServerRead e v = from_attributes ([''id'', ''hostname'', ''ssh_port'', ''ssh_username'', ''ssh_key_id'', ''endpoint_host'',
     ''endpoint_port'', ''interface'', ''subnet'', ''address'', ''public_key'', ''status'', ''created_at'', ''tenant_id''] @ host_cert_fields)
     (server_json e v)"

definition ClientRead :: "env \<Rightarrow> client \<Rightarrow> json" where
  "ClientRead e c = from_attributes ([''id'', ''name'', ''hostname'', ''ssh_port'', ''ssh_username'', ''ssh_key_id'', ''server_id'',
     ''address'', ''public_key'', ''is_manual'', ''status'', ''created_at'', ''tenant_id''] @ host_cert_fields) (client_json e c)"

definition DiscoveredPeerRead :: "env \<Rightarrow> discovered_peer \<Rightarrow> json" where
  "DiscoveredPeerRead e p = JObj
     [(''id'', JInt (dp_id p)), (''server_id'', JInt (dp_server_id p)), (''public_key'', JStr (dp_public_key p)),
      (''allowed_ips'', JStr (dp_allowed_ips p)), (''endpoint'', json_opt (dp_endpoint p)),
      (''last_handshake_at'', json_time e (dp_last_handshake_at p)), (''rx_bytes'', JInt (dp_rx_bytes p)),
      (''tx_bytes'', JInt (dp_tx_bytes p)), (''persistent_keepalive'', json_int_opt (dp_persistent_keepalive p)),
      (''is_managed'', JBool (dp_is_managed p)), (''first_seen_at'', JStr (iso_z e (dp_first_seen_at p))),
      (''last_seen_at'', JStr (iso_z e (dp_last_seen_at p)))]"

definition CertificateRead :: "env \<Rightarrow> certificate \<Rightarrow> json" where
  "CertificateRead e c = from_attributes [''id'', ''serial'', ''cert_type'', ''operator_id'', ''common_name'', ''sans'', ''not_before'',
     ''not_after'', ''revoked'', ''revoked_at'', ''created_at'', ''tenant_id'', ''out_cert_path'', ''out_key_path'', ''out_chain_path'']
     (certificate_json e c)"

definition TenantRead :: "env \<Rightarrow> tenant \<Rightarrow> json" where
  "TenantRead e t = JObj [(''id'', JInt (ten_id t)), (''name'', JStr (ten_name t)), (''slug'', JStr (ten_slug t)),
     (''subnet_pool'', JStr (ten_subnet_pool t)), (''created_at'', JStr (iso_z e (ten_created_at t)))]"

text \<open>
  The envelopes. \<^verbatim>\<open>ServerRegisterResponse\<close>, \<^verbatim>\<open>DiscoverResponse\<close> and \<^verbatim>\<open>HostCertRotateResponse\<close> have one shape, and so have
  \<^verbatim>\<open>ClientRegisterResponse\<close> and \<^verbatim>\<open>ClientHostCertRotateResponse\<close>.
\<close>

definition ServerRegisterResponse :: "env \<Rightarrow> string \<Rightarrow> server \<Rightarrow> json" where
  "ServerRegisterResponse e task_id v = JObj [(''task_id'', JStr task_id), (''server'', ServerRead e v)]"

definition DiscoverAllResponse :: "string \<Rightarrow> int \<Rightarrow> json" where
  "DiscoverAllResponse task_id server_count = JObj [(''task_id'', JStr task_id), (''server_count'', JInt server_count)]"

definition ClientRegisterResponse :: "env \<Rightarrow> string \<Rightarrow> client \<Rightarrow> json" where
  "ClientRegisterResponse e task_id c = JObj [(''task_id'', JStr task_id), (''client'', ClientRead e c)]"

definition ClientManualRegisterResponse :: "env \<Rightarrow> string \<Rightarrow> client \<Rightarrow> string \<Rightarrow> json" where
  "ClientManualRegisterResponse e task_id c wg_config =
     JObj [(''task_id'', JStr task_id), (''client'', ClientRead e c), (''wg_config'', JStr wg_config)]"

definition ClientDeleteResponse :: "string \<Rightarrow> int \<Rightarrow> int \<Rightarrow> json" where
  "ClientDeleteResponse task_id cid sid = JObj [(''task_id'', JStr task_id), (''client_id'', JInt cid), (''server_id'', JInt sid)]"

definition CertificateIssueResponse :: "env \<Rightarrow> issue_response \<Rightarrow> json" where
  "CertificateIssueResponse e r = JObj
     [(''certificate'', CertificateRead e (is_certificate r)), (''cert_pem'', JStr (is_cert_pem r)), (''private_pem'', JStr (is_private_pem r)),
      (''chain_pem'', JStr (is_chain_pem r)), (''pkcs12_b64'', json_opt (is_pkcs12_b64 r))]"

definition CertificateRevokeResponse :: "env \<Rightarrow> certificate \<Rightarrow> json" where
  "CertificateRevokeResponse e c = JObj [(''certificate'', CertificateRead e c)]"

definition WhoAmIResponse :: "env \<Rightarrow> whoami_response \<Rightarrow> json" where
  "WhoAmIResponse e w = JObj
     [(''cn'', JStr (wa_cn w)), (''serial'', JStr (wa_serial w)), (''sans'', JArr (map JStr (wa_sans w))),
      (''not_before'', JStr (iso_z e (wa_not_before w))), (''not_after'', JStr (iso_z e (wa_not_after w))),
      (''operator_cn'', JStr (wa_operator_cn w)), (''operator_role'', JStr (operator_role_value (wa_operator_role w))),
      (''operator_status'', JStr (operator_status_value (wa_operator_status w)))]"

section \<open>The audit listing\<close>

record audit_event_read =
  ad_id :: int
  ad_ts :: int
  ad_event :: string
  ad_actor_cn :: "string option"
  ad_actor_serial :: "string option"
  ad_actor_role :: "string option"
  ad_resource_type :: string
  ad_resource_id :: "int option"
  ad_action :: string
  ad_before_hash :: "string option"
  ad_after_hash :: "string option"
  ad_payload :: "(string \<times> json) list option"
  ad_request_id :: "string option"

text \<open>The field is a dict or none: any other JSON value fails the validation of the model.\<close>

definition parsed_payload :: "string option \<Rightarrow> (string \<times> json) list option result" where
  "parsed_payload stored =
     (case stored of
        None \<Rightarrow> Inr None
      | Some t \<Rightarrow> rbind (json_loads t) (\<lambda>v.
          case v of JNull \<Rightarrow> Inr None | JObj kvs \<Rightarrow> Inr (Some kvs) | _ \<Rightarrow> Inl (OtherError ''ValidationError'')))"

definition row_to_read :: "audit_event \<Rightarrow> audit_event_read result" where
  "row_to_read row = rbind (parsed_payload (ae_payload row)) (\<lambda>payload. Inr
     \<lparr>ad_id = ae_id row, ad_ts = ae_ts row, ad_event = ae_event row, ad_actor_cn = ae_actor_cn row, ad_actor_serial = ae_actor_serial row,
      ad_actor_role = ae_actor_role row, ad_resource_type = ae_resource_type row, ad_resource_id = ae_resource_id row,
      ad_action = ae_action row, ad_before_hash = ae_before_hash row, ad_after_hash = ae_after_hash row, ad_payload = payload,
      ad_request_id = ae_request_id row\<rparr>)"

definition audit_listing :: "request_state \<Rightarrow> audit_query \<Rightarrow> state \<Rightarrow> (audit_event_read list \<times> int \<times> int \<times> int) result" where
  "audit_listing rs q s = rbind (list_audit_events rs q s) (\<lambda>page.
     rbind (rmap row_to_read (ap_items page)) (\<lambda>items. Inr (items, ap_total page, ap_limit page, ap_offset page)))"

section \<open>Correctness\<close>

lemma json_field_inj:
  "json_opt a = json_opt b \<longleftrightarrow> a = b" "json_int_opt i = json_int_opt j \<longleftrightarrow> i = j"
  "inj (iso_z e) \<Longrightarrow> json_time e t = json_time e u \<longleftrightarrow> t = u"
  by (auto simp: json_opt_def json_int_opt_def json_time_def inj_eq split: option.splits)

lemma enum_values_inj:
  "node_status_value a = node_status_value b \<longleftrightarrow> a = b" "ssh_key_mode_value c = ssh_key_mode_value d \<longleftrightarrow> c = d"
  "certificate_type_value g = certificate_type_value h \<longleftrightarrow> g = h"
    apply (cases a; cases b; simp)
   apply (cases c; cases d; simp)
  apply (cases g; cases h; simp)
  done

lemmas read_model_defs = from_attributes_def host_cert_fields_def host_cert_json_def json_field_inj enum_values_inj inj_eq

text \<open>
  The response of a hub shows every column but the two generation counters, and those of clients, keys, certificates,
  peers and tenants show every column: where instants are rendered one to one, rows with the same body agree.
\<close>

theorem responses_show_rows:
  assumes "inj (iso_z e)"
  shows "ServerRead e v = ServerRead e v' \<longleftrightarrow> (\<exists>a b. v' = v\<lparr>srv_requested_gen := a, srv_applied_gen := b\<rparr>)"
    and "ClientRead e c = ClientRead e c' \<longleftrightarrow> c' = c" and "SSHKeyRead e k = SSHKeyRead e k' \<longleftrightarrow> k' = k"
    and "CertificateRead e r = CertificateRead e r' \<longleftrightarrow> r' = r" and "DiscoveredPeerRead e p = DiscoveredPeerRead e p' \<longleftrightarrow> p' = p"
    and "TenantRead e t = TenantRead e t' \<longleftrightarrow> t' = t"
  subgoal
  proof
    assume "ServerRead e v = ServerRead e v'"
    with assms have "v' = v\<lparr>srv_requested_gen := srv_requested_gen v', srv_applied_gen := srv_applied_gen v'\<rparr>"
      by (auto simp: ServerRead_def server_json_def read_model_defs intro!: server.equality host_cert_cols.equality)
    then show "\<exists>a b. v' = v\<lparr>srv_requested_gen := a, srv_applied_gen := b\<rparr>" by blast
  qed (auto simp: ServerRead_def server_json_def read_model_defs)
  subgoal using assms by (auto simp: ClientRead_def client_json_def read_model_defs intro!: client.equality host_cert_cols.equality)
  subgoal using assms by (auto simp: SSHKeyRead_def ssh_key_json_def read_model_defs intro!: ssh_key.equality)
  subgoal using assms by (auto simp: CertificateRead_def certificate_json_def read_model_defs intro!: certificate.equality)
  subgoal using assms by (auto simp: DiscoveredPeerRead_def read_model_defs intro!: discovered_peer.equality)
  subgoal using assms by (auto simp: TenantRead_def read_model_defs intro!: tenant.equality)
  done

text \<open>Calls of \<^verbatim>\<open>persist\<close>, one after the other, whatever else happens to the database between them.\<close>

inductive audited :: "(env \<times> actor \<times> audit_args) list \<Rightarrow> audit_event list \<Rightarrow> bool" where
  audited_Nil: "audited [] []"
| audited_persist: "audited xs (audit_events s) \<Longrightarrow> persist e a x s = Inr (s', row, line) \<Longrightarrow> audited (xs @ [(e, a, x)]) (audit_events s')"

definition readable_payload :: "audit_args \<Rightarrow> bool" where
  "readable_payload x \<longleftrightarrow> (case aa_payload x of None \<Rightarrow> True | Some p \<Rightarrow> json_wire (JObj p))"

definition payload_read :: "env \<Rightarrow> audit_args \<Rightarrow> (string \<times> json) list option" where
  "payload_read e x = map_option (map (\<lambda>(k, v). (k, json_sent (iso e) v))) (aa_payload x)"

lemma audited_rows: "audited xs rows \<Longrightarrow> rows = map (\<lambda>(e, a, x). audit_row e a x) xs"
  by (induction rule: audited.induct) (auto simp: persist_def Let_def split: if_splits)

text \<open>The entry a call must appear as, and the calls a query asks for.\<close>

definition entry_of :: "env \<times> actor \<times> audit_args \<Rightarrow> audit_event_read" where
  "entry_of c = (case c of (e, a, x) \<Rightarrow>
     \<lparr>ad_id = new_audit_id e, ad_ts = now e, ad_event = aa_event x, ad_actor_cn = actor_cn a, ad_actor_serial = actor_serial a,
      ad_actor_role = actor_role a, ad_resource_type = aa_resource_type x, ad_resource_id = aa_resource_id x,
      ad_action = aa_action x, ad_before_hash = canonical_json_hash e (aa_before x),
      ad_after_hash = canonical_json_hash e (aa_after x), ad_payload = payload_read e x, ad_request_id = aa_request_id x\<rparr>)"

definition asked_for :: "audit_query \<Rightarrow> env \<times> actor \<times> audit_args \<Rightarrow> bool" where
  "asked_for q c \<longleftrightarrow> (case c of (e, a, x) \<Rightarrow>
     (aq_event q = None \<or> aq_event q = Some (aa_event x)) \<and> (aq_actor_cn q = None \<or> aq_actor_cn q = actor_cn a) \<and>
     (aq_resource_type q = None \<or> aq_resource_type q = Some (aa_resource_type x)) \<and>
     (aq_resource_id q = None \<or> aq_resource_id q = aa_resource_id x) \<and>
     (\<forall>t. aq_since q = Some t \<longrightarrow> t \<le> now e) \<and> (\<forall>t. aq_until q = Some t \<longrightarrow> now e < t))"

definition at_least_as_new :: "audit_event_read \<Rightarrow> audit_event_read \<Rightarrow> bool" where
  "at_least_as_new d d' \<longleftrightarrow> ad_ts d' < ad_ts d \<or> ad_ts d' = ad_ts d \<and> ad_id d' \<le> ad_id d"

lemma audit_row_reads:
  assumes "readable_payload x"
  shows "row_to_read (audit_row e a x) = Inr (entry_of (e, a, x))"
proof (cases "aa_payload x")
  case None
  then show ?thesis by (simp add: row_to_read_def parsed_payload_def audit_row_def payload_read_def entry_of_def)
next
  case (Some p)
  then have "json_loads (json_dumps (iso e) False (JObj p)) = Inr (JObj (map (\<lambda>(k, v). (k, json_sent (iso e) v)) p))"
    using assms json_loads_dumps [of "JObj p" "iso e"] by (simp add: readable_payload_def)
  with Some show ?thesis
    by (simp add: row_to_read_def parsed_payload_def audit_row_def payload_read_def entry_of_def del: json_dumps.simps)
qed

lemma audit_matches_row: "audit_matches q (audit_row e a x) \<longleftrightarrow> asked_for q (e, a, x)"
  by (auto simp: audit_matches_def asked_for_def audit_row_def split: option.splits)

lemma sorted_wrt_filter_iff: "sorted_wrt R (filter P xs) \<longleftrightarrow> sorted_wrt (\<lambda>x y. P x \<longrightarrow> P y \<longrightarrow> R x y) xs"
  by (induction xs) auto

text \<open>Sorting by one key after another orders by the second key where the first agrees.\<close>

lemma sorted_wrt_sort_keys:
  fixes f g :: "'a \<Rightarrow> int"
  shows "sorted_wrt (\<lambda>x y. f x < f y \<or> f x = f y \<and> g x \<le> g y) (sort_key f (sort_key g xs))"
    (is "sorted_wrt _ ?zs")
proof -
  have g: "sorted_wrt (\<lambda>x y. f x = k \<longrightarrow> f y = k \<longrightarrow> g x \<le> g y) ?zs" for k
  proof -
    have "sorted_wrt (\<lambda>x y. g x \<le> g y) (filter (\<lambda>x. f x = k) (sort_key g xs))"
      using sorted_sort_key [of g xs] by (simp add: sorted_wrt_filter sorted_map)
    moreover have "filter (\<lambda>x. f x = k) ?zs = filter (\<lambda>x. f x = k) (sort_key g xs)"
      using stable_sort_key_sort_key [where 'b = int and 'a = 'a] by (simp add: stable_sort_key_def)
    ultimately have "sorted_wrt (\<lambda>x y. g x \<le> g y) (filter (\<lambda>x. f x = k) ?zs)" by simp
    then show ?thesis by (simp only: sorted_wrt_filter_iff)
  qed
  have f: "sorted_wrt (\<lambda>x y. f x \<le> f y) ?zs" using sorted_sort_key [of f "sort_key g xs"] by (simp add: sorted_map)
  show ?thesis unfolding sorted_wrt_iff_nth_less
  proof (intro allI impI)
    fix i j assume ij: "i < j" "j < length ?zs"
    have "f (?zs ! i) \<le> f (?zs ! j)" using f ij by (simp add: sorted_wrt_iff_nth_less)
    moreover have "f (?zs ! i) = f (?zs ! j) \<Longrightarrow> g (?zs ! i) \<le> g (?zs ! j)"
      using g [of "f (?zs ! j)"] ij by (simp add: sorted_wrt_iff_nth_less)
    ultimately show "f (?zs ! i) < f (?zs ! j) \<or> f (?zs ! i) = f (?zs ! j) \<and> g (?zs ! i) \<le> g (?zs ! j)" by linarith
  qed
qed

lemma newest_first_newest: "sorted_wrt (\<lambda>r r'. ae_ts r' < ae_ts r \<or> ae_ts r' = ae_ts r \<and> ae_id r' \<le> ae_id r) (newest_first rows)"
  using sorted_wrt_sort_keys [of "\<lambda>r. - ae_ts r" "\<lambda>r. - ae_id r" rows] by (simp add: newest_first_def eq_commute)

text \<open>
  C38: the audit log reads back. After any calls of \<^verbatim>\<open>persist\<close> whose payloads hold no float
  and no key twice, there is one list in which every recorded call the query asks for
  appears exactly once, with its time, event, actor, resource, hashes and the payload that
  was passed, ordered newest first; for an administrator or an auditor and any page size
  from 1 to 500, every page of the listing is exactly its cut of that list, with the number of all
  matching calls as the total.
\<close>

theorem audit_log_reads_back:
  assumes "audited xs (audit_events s)" and "\<forall>(e, a, x) \<in> set xs. readable_payload x"
    and "rs_operator rs = Some op" and "op_role op = Admin \<or> op_role op = Auditor"
  shows "\<exists>entries. mset entries = mset (map entry_of (filter (asked_for q) xs)) \<and> sorted_wrt at_least_as_new entries \<and>
    (\<forall>l i. 0 < l \<longrightarrow> l \<le> 500 \<longrightarrow> 0 \<le> i \<longrightarrow>
       audit_listing rs (q\<lparr>aq_limit := l, aq_offset := i\<rparr>) s =
         Inr (take (nat l) (drop (nat i) entries), int (length (filter (asked_for q) xs)), l, i))"
proof -
  let ?row = "\<lambda>(e, a, x). audit_row e a x"
  let ?new = "newest_first (filter (audit_matches q) (audit_events s))"
  define read where "read r = (case row_to_read r of Inr d \<Rightarrow> d | Inl _ \<Rightarrow> undefined)" for r
  have rows: "filter (audit_matches q) (audit_events s) = map ?row (filter (asked_for q) xs)"
    unfolding audited_rows [OF assms(1)] filter_map by (simp add: comp_def case_prod_unfold audit_matches_row)
  have call: "row_to_read (?row c) = Inr (entry_of c)" if "c \<in> set xs" for c
    using assms(2) that audit_row_reads by (cases c) fastforce
  then have entry: "read (?row c) = entry_of c" if "c \<in> set xs" for c using that by (simp add: read_def)
  have stamp: "ad_ts (entry_of c) = ae_ts (?row c) \<and> ad_id (entry_of c) = ae_id (?row c)" for c
    by (cases c) (simp add: entry_of_def audit_row_def)
  have new: "set ?new \<subseteq> ?row ` set xs" by (force simp: newest_first_def rows)
  have readable: "row_to_read r = Inr (read r) \<and> ad_ts (read r) = ae_ts r \<and> ad_id (read r) = ae_id r" if r: "r \<in> set ?new" for r
  proof -
    obtain c where "c \<in> set xs" "r = ?row c" using new r by blast
    then show ?thesis using call entry stamp by simp
  qed
  have "mset (map read ?new) = image_mset read (mset (map ?row (filter (asked_for q) xs)))"
    by (simp only: mset_map newest_first_perm rows)
  also have "\<dots> = mset (map entry_of (filter (asked_for q) xs))"
    using entry by (auto simp flip: mset_map simp: comp_def intro!: arg_cong [where f = mset])
  finally have all: "mset (map read ?new) = mset (map entry_of (filter (asked_for q) xs))" .
  have "sorted_wrt at_least_as_new (map read ?new)"
    unfolding sorted_wrt_map
    by (rule sorted_wrt_mono_rel [OF _ newest_first_newest]) (simp add: at_least_as_new_def readable)
  moreover have "audit_listing rs (q\<lparr>aq_limit := l, aq_offset := i\<rparr>) s =
      Inr (take (nat l) (drop (nat i) (map read ?new)), int (length (filter (asked_for q) xs)), l, i)"
    if "0 < l" "l \<le> 500" "0 \<le> i" for l i
  proof -
    have "audit_matches (q\<lparr>aq_limit := l, aq_offset := i\<rparr>) = audit_matches q"
      by (rule ext) (simp add: audit_matches_def)
    moreover have "rmap row_to_read (take (nat l) (drop (nat i) ?new)) = Inr (map read (take (nat l) (drop (nat i) ?new)))"
      by (rule rmap_Inr_map) (use readable in \<open>auto dest!: in_set_takeD in_set_dropD\<close>)
    ultimately show ?thesis
      using that assms(3,4)
      by (auto simp: audit_listing_def list_audit_events_def RequireAdminOrAuditor_def get_operator_def or_raise_def
          check_def max_limit_def Let_def rows take_map drop_map)
  qed
  ultimately show ?thesis using all by blast
qed

definition sample_call :: audit_args where
  "sample_call = \<lparr>aa_event = ''server.create'', aa_resource_type = ''server'', aa_resource_id = Some 3, aa_action = ''create'', aa_before = None,
     aa_after = None, aa_payload = Some [(''hostname'', JStr ''hub''), (''at'', JTime 5)], aa_request_id = None, aa_tenant_id = None\<rparr>"

theorem audit_log_reads_back_witness:
  "\<exists>s' row line. persist sample_env \<lparr>actor_cn = Some ''alice'', actor_serial = None, actor_role = None\<rparr> sample_call empty_db = Inr (s', row, line) \<and>
     audit_listing admin_request (any_event\<lparr>aq_limit := 10, aq_offset := 0\<rparr>) s' =
       Inr ([entry_of (sample_env, \<lparr>actor_cn = Some ''alice'', actor_serial = None, actor_role = None\<rparr>, sample_call)], 1, 10, 0)"
proof -
  let ?a = "\<lparr>actor_cn = Some ''alice'', actor_serial = None, actor_role = None\<rparr>"
  let ?row = "audit_row sample_env ?a sample_call"
  let ?s = "empty_db\<lparr>audit_events := [?row]\<rparr>"
  have p: "persist sample_env ?a sample_call empty_db = Inr (?s, ?row, persist_line sample_env ?row)"
    by (simp add: persist_def Let_def sample_call_def ref_ok_def empty_db_def)
  have "audited [] (audit_events empty_db)" by (simp add: empty_db_def audited_Nil)
  from audited_persist [OF this p] have aud: "audited [(sample_env, ?a, sample_call)] (audit_events ?s)" by simp
  have r: "\<forall>(e, a, x) \<in> set [(sample_env, ?a, sample_call)]. readable_payload x" by (simp add: readable_payload_def sample_call_def)
  have o: "rs_operator admin_request = Some (sample_operator\<lparr>op_role := Admin\<rparr>)" by (simp add: admin_request_def)
  have "asked_for any_event (sample_env, ?a, sample_call)" by (simp add: asked_for_def any_event_def)
  with audit_log_reads_back [OF aud r o, of any_event] obtain entries where
    "mset entries = {#entry_of (sample_env, ?a, sample_call)#}" and
    "audit_listing admin_request (any_event\<lparr>aq_limit := 10, aq_offset := 0\<rparr>) ?s = Inr (take 10 entries, 1, 10, 0)"
    by auto
  moreover from this(1) have "entries = [entry_of (sample_env, ?a, sample_call)]" by simp
  ultimately show ?thesis using p by auto
qed

end
