(* ===== verification/Vault_Audit.thy ===== *)
theory Vault_Audit
  imports Json
begin

text \<open>
  \<^verbatim>\<open>vault_audit.py\<close>: the file audit device of Vault is enabled once. The Vault client is a parameter: \<^verbatim>\<open>list_devices\<close>
  is the payload of \<^verbatim>\<open>list_enabled_audit_devices\<close> or the exception, \<^verbatim>\<open>enable\<close> the enable call with device type, path
  and log file.
\<close>

definition DEFAULT_AUDIT_DEVICE_PATH :: string where "DEFAULT_AUDIT_DEVICE_PATH = ''file''"

definition DEFAULT_LOG_FILE_PATH :: string where "DEFAULT_LOG_FILE_PATH = ''/vault/logs/audit.log''"

text \<open>Both shapes of the payload: the devices at the top level, or inside a \<^verbatim>\<open>data\<close> object.\<close>

definition list_enabled_audit_devices :: "(string \<times> json) list option \<Rightarrow> (string \<times> json) list" where
  "list_enabled_audit_devices payload =
     (let raw = (case payload of None \<Rightarrow> [] | Some kvs \<Rightarrow> kvs) in
      case map_of raw ''data'' of Some (JObj kvs) \<Rightarrow> kvs | _ \<Rightarrow> raw)"

definition bootstrap_file_audit_device ::
  "('v \<Rightarrow> (string \<times> json) list option result) \<Rightarrow> (string \<Rightarrow> string \<Rightarrow> string \<Rightarrow> 'v \<Rightarrow> 'v \<times> unit result) \<Rightarrow>
   string \<Rightarrow> string \<Rightarrow> 'v \<Rightarrow> 'v \<times> bool result" where
  "bootstrap_file_audit_device list_devices enable device_path log_file_path v =
     (case list_devices v of
        Inl e \<Rightarrow> (v, Inl e)
      | Inr payload \<Rightarrow>
          if device_path @ ''/'' \<in> fst ` set (list_enabled_audit_devices payload) then (v, Inr False)
          else (case enable ''file'' device_path log_file_path v of
                  (v', Inl e) \<Rightarrow> (v', Inl e)
                | (v', Inr _) \<Rightarrow> (v', Inr True)))"

section \<open>Correctness\<close>

lemma wrapped_payload_same_devices:
  assumes "map_of kvs ''data'' = None"
  shows "list_enabled_audit_devices (Some [(''data'', JObj kvs)]) = list_enabled_audit_devices (Some kvs)"
  using assms by (simp add: list_enabled_audit_devices_def)

text \<open>
  A run that enabled the device leaves a Vault on which the next run changes nothing and answers false, whatever log
  file it asks for, provided an enabled device is listed under its path; a device that is already listed, of whatever
  type, is left alone.
\<close>

theorem audit_device_enabled_once:
  assumes "bootstrap_file_audit_device list_devices enable path log v = (v', Inr fresh)"
    and "\<And>v v'. enable ''file'' path log v = (v', Inr ()) \<Longrightarrow>
           \<exists>payload. list_devices v' = Inr payload \<and> path @ ''/'' \<in> fst ` set (list_enabled_audit_devices payload)"
  shows "bootstrap_file_audit_device list_devices enable path log' v' = (v', Inr False) \<and> (\<not> fresh \<longrightarrow> v' = v)"
proof -
  obtain payload where p: "list_devices v = Inr payload"
    using assms(1) by (cases "list_devices v") (simp_all add: bootstrap_file_audit_device_def)
  show ?thesis
  proof (cases "path @ ''/'' \<in> fst ` set (list_enabled_audit_devices payload)")
    case False
    with assms(1) p have "enable ''file'' path log v = (v', Inr ())" "fresh"
      by (auto simp: bootstrap_file_audit_device_def split: prod.splits sum.splits)
    moreover from assms(2) [OF this(1)] obtain payload' where "list_devices v' = Inr payload'"
      "path @ ''/'' \<in> fst ` set (list_enabled_audit_devices payload')" by blast
    ultimately show ?thesis by (simp add: bootstrap_file_audit_device_def)
  qed (use assms(1) p in \<open>auto simp: bootstrap_file_audit_device_def\<close>)
qed

text \<open>A Vault that keeps its devices in a list satisfies the assumption.\<close>

definition enable_listed :: "string \<Rightarrow> string \<Rightarrow> string \<Rightarrow> (string \<times> json) list \<Rightarrow> (string \<times> json) list \<times> unit result" where
  "enable_listed kind path log v =
     (v @ [(path @ ''/'', JObj [(''type'', JStr kind), (''options'', JObj [(''file_path'', JStr log)])])], Inr ())"

theorem audit_device_enabled_once_witness:
  "\<exists>v'. bootstrap_file_audit_device (\<lambda>v. Inr (Some [(''data'', JObj v)])) enable_listed DEFAULT_AUDIT_DEVICE_PATH DEFAULT_LOG_FILE_PATH [] =
       (v', Inr True) \<and> length v' = 1 \<and>
     bootstrap_file_audit_device (\<lambda>v. Inr (Some [(''data'', JObj v)])) enable_listed DEFAULT_AUDIT_DEVICE_PATH ''/tmp/x'' v' = (v', Inr False)"
proof -
  let ?run = "bootstrap_file_audit_device (\<lambda>v. Inr (Some [(''data'', JObj v)])) enable_listed DEFAULT_AUDIT_DEVICE_PATH"
  let ?v = "[(''file/'', JObj [(''type'', JStr ''file''), (''options'', JObj [(''file_path'', JStr DEFAULT_LOG_FILE_PATH)])])]"
  have first: "?run DEFAULT_LOG_FILE_PATH [] = (?v, Inr True)"
    by (simp add: bootstrap_file_audit_device_def list_enabled_audit_devices_def enable_listed_def DEFAULT_AUDIT_DEVICE_PATH_def)
  have "?run ''/tmp/x'' ?v = (?v, Inr False) \<and> (\<not> True \<longrightarrow> ?v = [])"
    by (rule audit_device_enabled_once [OF first]) (auto simp: enable_listed_def list_enabled_audit_devices_def)
  with first show ?thesis by simp
qed

end
