(* ===== verification/Vault_Restore.thy ===== *)
theory Vault_Restore
  imports Backup Vault_Audit
begin

text \<open>
  The Python scripts that set up and restore Vault: \<^verbatim>\<open>scripts/vault_restore.py\<close> (a raft snapshot posted to the standby, then
  unsealed and verified), \<^verbatim>\<open>scripts/transit_bootstrap.py\<close> and \<^verbatim>\<open>scripts/vault_audit_bootstrap.py\<close>. Vault, the clock and the file
  system are parameters; instants and durations are milliseconds. The two waiting loops are partial functions,
  because they may go on for ever.
\<close>

section \<open>One request\<close>

text \<open>
  \<^verbatim>\<open>vh_request\<close> is a request with method, path, token (empty for none) and body: status and body of the answer, or the
  exception of a connection that does not come up.
\<close>

record 'w vault_host =
  vh_request :: "string \<Rightarrow> string \<Rightarrow> string \<Rightarrow> string \<Rightarrow> ('w, int \<times> string) handler"
  vh_monotonic :: "'w \<Rightarrow> int"
  vh_sleep :: "int \<Rightarrow> 'w \<Rightarrow> 'w"
  vh_read_file :: "string \<Rightarrow> 'w \<Rightarrow> string result"

definition RestoreError :: "string \<Rightarrow> exn" where "RestoreError msg = RuntimeError msg"

definition vault_api :: "'w vault_host \<Rightarrow> string \<Rightarrow> string \<Rightarrow> string \<Rightarrow> string \<Rightarrow> string \<Rightarrow> ('w, int \<times> string) handler" where
  "vault_api vh addr meth path token body w =
     (case vh_request vh meth path token body w of
        (w', Inl (OSError m)) \<Rightarrow> (w', Inl (RestoreError (''cannot reach Vault at '' @ addr @ '': '' @ m)))
      | r \<Rightarrow> r)"

definition http_failure :: "string \<Rightarrow> int \<Rightarrow> string \<Rightarrow> exn" where
  "http_failure what status raw = RestoreError (what @ '' HTTP '' @ str_of_int status @ '' b'' @ py_repr (take 200 raw))"

definition vault_json :: "'w vault_host \<Rightarrow> string \<Rightarrow> string \<Rightarrow> string \<Rightarrow> string \<Rightarrow> string \<Rightarrow> ('w, json) handler" where
  "vault_json vh addr meth path token body =
     andThen (vault_api vh addr meth path token body) (\<lambda>(status, raw) w.
       if 300 \<le> status then (w, Inl (http_failure (meth @ '' '' @ path @ '' ->'') status raw))
       else (w, json_loads (if raw = [] then ''{}'' else raw)))"

text \<open>\<^verbatim>\<open>d.get(k)\<close>, and what iterating over a value gives.\<close>

definition dict_field :: "json \<Rightarrow> string \<Rightarrow> json option result" where
  "dict_field v k = (case v of JObj kvs \<Rightarrow> Inr (map_of kvs k) | _ \<Rightarrow> Inl (OtherError ''AttributeError''))"

definition iterate :: "json \<Rightarrow> json list result" where
  "iterate v = (case v of
       JArr xs \<Rightarrow> Inr xs
     | JStr s \<Rightarrow> Inr (map (\<lambda>c. JStr [c]) s)
     | JObj kvs \<Rightarrow> Inr (map (\<lambda>(k, _). JStr k) kvs)
     | _ \<Rightarrow> Inl (TypeError ''object is not iterable''))"

definition field_or :: "json \<Rightarrow> string \<Rightarrow> json \<Rightarrow> json result" where
  "field_or v k fallback = rbind (dict_field v k) (\<lambda>x. Inr (case x of None \<Rightarrow> fallback | Some y \<Rightarrow> if truthy y then y else fallback))"

definition flag_of :: "json \<Rightarrow> string \<Rightarrow> bool \<Rightarrow> bool result" where
  "flag_of v k fallback = rbind (dict_field v k) (\<lambda>x. Inr (case x of None \<Rightarrow> fallback | Some y \<Rightarrow> truthy y))"

section \<open>Unsealing\<close>

definition key_body :: "json \<Rightarrow> string" where
  "key_body key = ''{'' @ json_string ''key'' @ '': '' @ json_dumps str_of_int False key @ ''}''"

fun unseal_each :: "'w vault_host \<Rightarrow> string \<Rightarrow> json list \<Rightarrow> ('w, unit) handler" where
  "unseal_each vh addr [] = raising (RestoreError ''Vault is still sealed after submitting every unseal key'')"
| "unseal_each vh addr (key # keys) =
     andThen (vault_json vh addr ''PUT'' ''/v1/sys/unseal'' [] (key_body key)) (\<lambda>resp w.
       case flag_of resp ''sealed'' True of
         Inl e \<Rightarrow> (w, Inl e)
       | Inr sealed \<Rightarrow> if \<not> sealed then (w, Inr ()) else unseal_each vh addr keys w)"

definition unseal :: "'w vault_host \<Rightarrow> string \<Rightarrow> json \<Rightarrow> ('w, unit) handler" where
  "unseal vh addr keys w = (case iterate keys of Inl e \<Rightarrow> (w, Inl e) | Inr ks \<Rightarrow> unseal_each vh addr ks w)"

definition shipped_keys :: "'w vault_host \<Rightarrow> string \<Rightarrow> 'w \<Rightarrow> json result" where
  "shipped_keys vh init_file w =
     rbind (vh_read_file vh init_file w) (\<lambda>raw.
     rbind (json_loads raw) (\<lambda>init.
     rbind (field_or init ''keys_base64'' (JArr [])) (\<lambda>old.
     rbind (field_or init ''unseal_keys_b64'' old) (\<lambda>keys.
       if \<not> truthy keys then Inl (RestoreError (''no unseal keys in '' @ init_file)) else Inr keys))))"

section \<open>Waiting for the active node\<close>

definition health_status :: "'w vault_host \<Rightarrow> string \<Rightarrow> ('w, int) handler" where
  "health_status vh addr w =
     (case vault_api vh addr ''GET'' ''/v1/sys/health'' [] [] w of
        (w', Inl (RuntimeError _)) \<Rightarrow> (w', Inr 0)
      | (w', Inl e) \<Rightarrow> (w', Inl e)
      | (w', Inr (status, _)) \<Rightarrow> (w', Inr status))"

text \<open>One turn of the loop: it ends, or goes on in a new state.\<close>

definition active_turn :: "'w vault_host \<Rightarrow> string \<Rightarrow> int \<Rightarrow> int \<Rightarrow> json \<Rightarrow> 'w \<Rightarrow> 'w + 'w \<times> unit result" where
  "active_turn vh addr timeout deadline keys w =
     (case health_status vh addr w of
        (w1, Inl e) \<Rightarrow> Inr (w1, Inl e)
      | (w1, Inr status) \<Rightarrow>
          if status = 200 then Inr (w1, Inr ())
          else if status = 503 \<and> truthy keys then
            (case unseal vh addr keys w1 of (w2, Inl e) \<Rightarrow> Inr (w2, Inl e) | (w2, Inr _) \<Rightarrow> Inl w2)
          else if deadline \<le> vh_monotonic vh w1
          then Inr (w1, Inl (RestoreError (''Vault did not become active within '' @ str_of_int (timeout div 1000) @ ''s (last health: HTTP '' @
                 str_of_int status @ '')'')))
          else Inl (vh_sleep vh 500 w1))"

partial_function (option) active_loop :: "'w vault_host \<Rightarrow> string \<Rightarrow> int \<Rightarrow> int \<Rightarrow> json \<Rightarrow> 'w \<Rightarrow> ('w \<times> unit result) option" where
  "active_loop vh addr timeout deadline keys w =
     (case active_turn vh addr timeout deadline keys w of
        Inr res \<Rightarrow> Some res
      | Inl w' \<Rightarrow> active_loop vh addr timeout deadline keys w')"

definition wait_active :: "'w vault_host \<Rightarrow> string \<Rightarrow> int \<Rightarrow> json \<Rightarrow> 'w \<Rightarrow> ('w \<times> unit result) option" where
  "wait_active vh addr timeout keys w = active_loop vh addr timeout (vh_monotonic vh w + timeout) keys w"

section \<open>Restore\<close>

text \<open>The preparation of the node: the token the snapshot is posted with.\<close>

definition INIT_BODY :: string where
  "INIT_BODY = ''{'' @ json_string ''secret_shares'' @ '': 1, '' @ json_string ''secret_threshold'' @ '': 1}''"

definition throwaway_vault :: "'w vault_host \<Rightarrow> string \<Rightarrow> ('w, json) handler" where
  "throwaway_vault vh addr =
     andThen (vault_json vh addr ''PUT'' ''/v1/sys/init'' [] INIT_BODY) (\<lambda>init w.
       case rbind (field_or init ''keys'' (JArr [])) (\<lambda>old. field_or init ''keys_base64'' old) of
         Inl e \<Rightarrow> (w, Inl e)
       | Inr keys \<Rightarrow> andThen (unseal vh addr keys) (\<lambda>_ w.
           (w, rbind (dict_field init ''root_token'') (\<lambda>t. or_raise t (OtherError ''KeyError'')))) w)"

definition open_vault :: "'w vault_host \<Rightarrow> string \<Rightarrow> string \<Rightarrow> json \<Rightarrow> ('w, json) handler" where
  "open_vault vh addr token keys =
     andThen (vault_json vh addr ''GET'' ''/v1/sys/init'' [] []) (\<lambda>v w.
       case flag_of v ''initialized'' False of
         Inl e \<Rightarrow> (w, Inl e)
       | Inr False \<Rightarrow> throwaway_vault vh addr w
       | Inr True \<Rightarrow>
           andThen (vault_json vh addr ''GET'' ''/v1/sys/seal-status'' [] []) (\<lambda>v w.
             case flag_of v ''sealed'' True of
               Inl e \<Rightarrow> (w, Inl e)
             | Inr True \<Rightarrow> andThen (unseal vh addr keys) (\<lambda>_. returning (JStr token)) w
             | Inr False \<Rightarrow> (w, Inr (JStr token))) w)"

text \<open>
  The header of a token that came out of JSON: a falsy one is left out (the empty token of
  \<^verbatim>\<open>vault_api\<close>), \<^verbatim>\<open>http.client\<close> writes an integer (and \<^verbatim>\<open>True\<close>, which is one) as text and raises for the rest.
\<close>

definition header_token :: "json \<Rightarrow> string result" where
  "header_token v =
     (if \<not> truthy v then Inr []
      else case v of
        JStr token \<Rightarrow> Inr token
      | JInt i \<Rightarrow> Inr (str_of_int i)
      | JBool _ \<Rightarrow> Inr ''True''
      | _ \<Rightarrow> Inl (TypeError ''expected string or bytes-like object''))"

definition post_snapshot :: "'w vault_host \<Rightarrow> string \<Rightarrow> json \<Rightarrow> string \<Rightarrow> ('w, unit) handler" where
  "post_snapshot vh addr restore_token snapshot w =
     (case header_token restore_token of
        Inr token \<Rightarrow>
          andThen (vault_api vh addr ''POST'' ''/v1/sys/storage/raft/snapshot-force'' token snapshot) (\<lambda>(status, raw) w.
            if 300 \<le> status then (w, Inl (http_failure ''the snapshot restore failed:'' status raw)) else (w, Inr ())) w
      | Inl e \<Rightarrow> (w, Inl e))"

definition restore :: "'w vault_host \<Rightarrow> string \<Rightarrow> string \<Rightarrow> string \<Rightarrow> string \<Rightarrow> 'w \<Rightarrow> ('w \<times> unit result) option" where
  "restore vh addr token init_file snapshot w =
     (if snapshot = [] then Some (w, Inl (RestoreError (''the snapshot is empty '' @ em_dash @ '' nothing to restore (run make standby-pull)'')))
      else case shipped_keys vh init_file w of
        Inl e \<Rightarrow> Some (w, Inl e)
      | Inr keys \<Rightarrow>
          (case open_vault vh addr token keys w of
             (w1, Inl e) \<Rightarrow> Some (w1, Inl e)
           | (w1, Inr restore_token) \<Rightarrow>
               (case wait_active vh addr 90000 JNull w1 of
                  None \<Rightarrow> None
                | Some (w2, Inl e) \<Rightarrow> Some (w2, Inl e)
                | Some (w2, Inr _) \<Rightarrow> Some (post_snapshot vh addr restore_token snapshot w2))))"

section \<open>Verify\<close>

definition REQUIRED_MOUNTS :: "string list" where "REQUIRED_MOUNTS = [''ssh/'', ''pki/'', ''transit/'']"

partial_function (option) mounts_loop :: "'w vault_host \<Rightarrow> string \<Rightarrow> string \<Rightarrow> int \<Rightarrow> json \<Rightarrow> 'w \<Rightarrow> ('w \<times> json result) option" where
  "mounts_loop vh addr token deadline keys w =
     (case wait_active vh addr 90000 keys w of
        None \<Rightarrow> None
      | Some (w1, Inl e) \<Rightarrow> Some (w1, Inl e)
      | Some (w1, Inr _) \<Rightarrow>
          (case vault_api vh addr ''GET'' ''/v1/sys/mounts'' token [] w1 of
             (w2, Inl e) \<Rightarrow> Some (w2, Inl e)
           | (w2, Inr (status, raw)) \<Rightarrow>
               if status = 200 then Some (w2, json_loads raw)
               else if status \<notin> {429, 500, 503} \<or> deadline \<le> vh_monotonic vh w2
               then Some (w2, Inl (RestoreError (''GET /v1/sys/mounts -> HTTP '' @ str_of_int status @ '' after the restore'')))
               else mounts_loop vh addr token deadline keys (vh_sleep vh 500 w2)))"

definition mount_paths :: "json \<Rightarrow> string list result" where
  "mount_paths mounts =
     rbind (field_or mounts ''data'' mounts) (\<lambda>d.
       case d of JObj kvs \<Rightarrow> Inr (sort (map fst kvs)) | _ \<Rightarrow> Inl (OtherError ''AttributeError''))"

definition required_paths :: "json \<Rightarrow> string list result" where
  "required_paths mounts = rbind (mount_paths mounts) (\<lambda>paths.
     let missing = filter (\<lambda>m. m \<notin> set paths) REQUIRED_MOUNTS in
     if missing \<noteq> [] then Inl (RestoreError (''the restored Vault lacks '' @ join_with '', '' missing @
        '' '' @ em_dash @ '' wrong or damaged snapshot (try standby/vault.snap.prev)''))
     else Inr paths)"

definition verify_restored :: "'w vault_host \<Rightarrow> string \<Rightarrow> string \<Rightarrow> string \<Rightarrow> 'w \<Rightarrow> ('w \<times> string list result) option" where
  "verify_restored vh addr token init_file w =
     (case shipped_keys vh init_file w of
        Inl e \<Rightarrow> Some (w, Inl e)
      | Inr keys \<Rightarrow>
          map_option (\<lambda>(w', r). (w', rbind r required_paths)) (mounts_loop vh addr token (vh_monotonic vh w + 90000) keys w))"

section \<open>The command\<close>

definition exit_code :: "'w \<times> 'a result \<Rightarrow> 'w \<times> int result" where
  "exit_code r = (case r of
       (w, Inr _) \<Rightarrow> (w, Inr 0)
     | (w, Inl e) \<Rightarrow> (case e of RuntimeError _ \<Rightarrow> (w, Inr 1) | OSError _ \<Rightarrow> (w, Inr 1) | ValueError _ \<Rightarrow> (w, Inr 1) | _ \<Rightarrow> (w, Inl e)))"

definition restore_main :: "'w vault_host \<Rightarrow> (string \<Rightarrow> string option) \<Rightarrow> string list \<Rightarrow> string \<Rightarrow> 'w \<Rightarrow> ('w \<times> int result) option" where
  "restore_main vh environ argv stdin w =
     (let get = (\<lambda>k d. case environ k of None \<Rightarrow> d | Some v \<Rightarrow> v);
          addr = rstrip_if (\<lambda>c. c = CHR ''/'') (get ''VAULT_ADDR'' []); token = get ''VAULT_TOKEN'' [];
          init_file = get ''VAULT_INIT_FILE'' ''/app/vault-init.json'' in
      if addr = [] \<or> token = [] then Some (w, Inr 1)
      else if argv = [''--verify''] then map_option exit_code (verify_restored vh addr token init_file w)
      else if argv = [] then map_option exit_code (restore vh addr token init_file stdin w)
      else Some (w, Inr 1))"

section \<open>Transit and audit bootstrap\<close>

record 'v transit_admin =
  ta_authenticated :: "'v \<Rightarrow> bool"
  ta_enable_engine :: "string \<Rightarrow> ('v, unit) handler"
  ta_read_key :: "string \<Rightarrow> string \<Rightarrow> 'v \<Rightarrow> unit result"
  ta_create_key :: "string \<Rightarrow> string \<Rightarrow> bool \<Rightarrow> ('v, unit) handler"

definition enable_transit_idempotent :: "'v transit_admin \<Rightarrow> string \<Rightarrow> ('v, bool) handler" where
  "enable_transit_idempotent ta mount v =
     (case ta_enable_engine ta mount v of
        (v', Inr _) \<Rightarrow> (v', Inr True)
      | (v', Inl (VaultInvalidRequest m)) \<Rightarrow>
          if contains ''path is already in use'' m then (v', Inr False) else (v', Inl (VaultInvalidRequest m))
      | (v', Inl e) \<Rightarrow> (v', Inl e))"

definition create_key_idempotent :: "'v transit_admin \<Rightarrow> string \<Rightarrow> string \<Rightarrow> ('v, bool) handler" where
  "create_key_idempotent ta kn mount v =
     (case ta_read_key ta kn mount v of
        Inr _ \<Rightarrow> (v, Inr False)
      | Inl (VaultInvalidPath _) \<Rightarrow> andThen (ta_create_key ta kn mount True) (\<lambda>_. returning True) v
      | Inl e \<Rightarrow> (v, Inl e))"

definition transit_main :: "'v transit_admin \<Rightarrow> string \<Rightarrow> string \<Rightarrow> ('v, int \<times> string) handler" where
  "transit_main ta kn mount v =
     (if \<not> ta_authenticated ta v then (v, Inr (1, ''ERROR: vault authentication failed''))
      else andThen (enable_transit_idempotent ta mount) (\<lambda>engine.
        andThen (create_key_idempotent ta kn mount) (\<lambda>key. returning (0,
          ''transit engine mount='' @ mount @ '': '' @ (if engine then ''enabled'' else ''already present'') @ ''; key name='' @ kn @
          '' derived=True: '' @ (if key then ''created'' else ''already present'')))) v)"

definition audit_main :: "('v \<Rightarrow> bool) \<Rightarrow> ('v \<Rightarrow> (string \<times> json) list option result) \<Rightarrow>
   (string \<Rightarrow> string \<Rightarrow> string \<Rightarrow> ('v, unit) handler) \<Rightarrow> string \<Rightarrow> string \<Rightarrow> ('v, int) handler" where
  "audit_main authenticated list_devices enable device_path log_file v =
     (if \<not> authenticated v then (v, Inr 1)
      else andThen (bootstrap_file_audit_device list_devices enable device_path log_file) (\<lambda>_. returning 0) v)"

section \<open>Correctness\<close>

text \<open>The clock: a request never sets it back, and sleeping takes the time it is asked for.\<close>

definition clock_laws :: "'w vault_host \<Rightarrow> bool" where
  "clock_laws vh \<longleftrightarrow> (\<forall>m p t b w. vh_monotonic vh w \<le> vh_monotonic vh (fst (vh_request vh m p t b w))) \<and>
     (\<forall>d w. vh_monotonic vh w + d \<le> vh_monotonic vh (vh_sleep vh d w))"

lemma health_clock:
  assumes "clock_laws vh" and "health_status vh addr w = (w1, r)"
  shows "vh_monotonic vh w \<le> vh_monotonic vh w1"
proof -
  obtain w' x where rq: "vh_request vh ''GET'' ''/v1/sys/health'' [] [] w = (w', x)" by fastforce
  then have "w1 = w'"
    using assms(2) by (auto simp: health_status_def vault_api_def RestoreError_def split: sum.splits exn.splits prod.splits)
  then show ?thesis using assms(1) rq unfolding clock_laws_def by (metis fst_conv)
qed

lemma active_turn_again:
  assumes "clock_laws vh" and "\<not> truthy keys" and "active_turn vh addr timeout deadline keys w = Inl w'"
  shows "vh_monotonic vh w < deadline \<and> vh_monotonic vh w + 500 \<le> vh_monotonic vh w'"
proof -
  obtain w1 r where h: "health_status vh addr w = (w1, r)" by fastforce
  then obtain status where r: "r = Inr status" using assms(3) by (cases r) (simp_all add: active_turn_def)
  have "w' = vh_sleep vh 500 w1" "vh_monotonic vh w1 < deadline"
    using assms(2,3) h r by (auto simp: active_turn_def split: if_splits)
  then show ?thesis using health_clock [OF assms(1) h] assms(1) unfolding clock_laws_def by (metis add_mono order_refl order_trans order_le_less_trans)
qed

lemma active_loop_returns:
  assumes "clock_laws vh" and "\<not> truthy keys"
  shows "\<exists>w' r. active_loop vh addr timeout deadline keys w = Some (w', r) \<and> (r = Inr () \<longrightarrow> (\<exists>w0. health_status vh addr w0 = (w', Inr 200)))"
proof (induction "nat (deadline - vh_monotonic vh w)" arbitrary: w rule: less_induct)
  case less
  show ?case
  proof (cases "active_turn vh addr timeout deadline keys w")
    case (Inl w1)
    from active_turn_again [OF assms Inl] have "nat (deadline - vh_monotonic vh w1) < nat (deadline - vh_monotonic vh w)" by linarith
    from less [OF this] show ?thesis using Inl by (subst active_loop.simps) auto
  next
    case (Inr res)
    obtain w' r where res: "res = (w', r)" by (cases res)
    have "r = Inr () \<longrightarrow> (\<exists>w0. health_status vh addr w0 = (w', Inr 200))"
      using Inr assms(2) unfolding res by (auto simp: active_turn_def split: prod.splits sum.splits if_splits)
    then show ?thesis using Inr res by (subst active_loop.simps) auto
  qed
qed

text \<open>
  C39: a restore ends and does what it reports. With a clock that advances it returns, whatever Vault answers; when it
  reports success the snapshot is not empty, and its last request posted exactly the snapshot to a node that had just
  answered as the active one, and was accepted; without a snapshot or without unseal keys it touches nothing.
\<close>

theorem restore_posts_snapshot:
  assumes "clock_laws vh"
  shows "\<exists>w' r. restore vh addr token init_file snapshot w = Some (w', r) \<and>
    (r = Inr () \<longrightarrow> snapshot \<noteq> [] \<and> (\<exists>w0 w1 tok status raw. health_status vh addr w0 = (w1, Inr 200) \<and>
       vh_request vh ''POST'' ''/v1/sys/storage/raft/snapshot-force'' tok snapshot w1 = (w', Inr (status, raw)) \<and> status < 300)) \<and>
    (snapshot = [] \<or> (\<exists>e. shipped_keys vh init_file w = Inl e) \<longrightarrow> w' = w \<and> r \<noteq> Inr ())"
proof (cases "snapshot = [] \<or> (\<exists>e. shipped_keys vh init_file w = Inl e)")
  case True
  then show ?thesis by (auto simp: restore_def)
next
  case False
  then obtain keys where keys: "shipped_keys vh init_file w = Inr keys" by (cases "shipped_keys vh init_file w") auto
  obtain w1 t where o: "open_vault vh addr token keys w = (w1, t)" by fastforce
  show ?thesis
  proof (cases t)
    case (Inl e)
    then show ?thesis using False keys o by (simp add: restore_def)
  next
    case (Inr rt)
    obtain w2 r where act: "wait_active vh addr 90000 JNull w1 = Some (w2, r)"
      and up: "r = Inr () \<longrightarrow> (\<exists>w0. health_status vh addr w0 = (w2, Inr 200))"
      using active_loop_returns [OF assms, of JNull addr 90000 "vh_monotonic vh w1 + 90000" w1] unfolding wait_active_def by auto
    show ?thesis
    proof (cases r)
      case (Inl e)
      then show ?thesis using False keys o Inr act by (simp add: restore_def)
    next
      case ok: (Inr u)
      obtain w' x where post: "post_snapshot vh addr rt snapshot w2 = (w', x)" by fastforce
      have res: "restore vh addr token init_file snapshot w = Some (w', x)"
        using False keys o Inr act ok post by (simp add: restore_def)
      have "\<exists>tok status raw. vh_request vh ''POST'' ''/v1/sys/storage/raft/snapshot-force'' tok snapshot w2 = (w', Inr (status, raw)) \<and> status < 300"
        if "x = Inr ()"
      proof -
        from post that obtain tok where "header_token rt = Inr tok" by (cases "header_token rt") (simp_all add: post_snapshot_def)
        with post that obtain status raw where "vault_api vh addr ''POST'' ''/v1/sys/storage/raft/snapshot-force'' tok snapshot w2 = (w', Inr (status, raw))"
          "status < 300" by (auto simp: post_snapshot_def andThen_Inr_iff split: if_splits)
        then show ?thesis by (auto simp: vault_api_def RestoreError_def split: prod.splits sum.splits exn.splits)
      qed
      moreover obtain w0 where "health_status vh addr w0 = (w2, Inr 200)" using up ok by auto
      ultimately have "x = Inr () \<longrightarrow> snapshot \<noteq> [] \<and> (\<exists>w0 w1 tok status raw. health_status vh addr w0 = (w1, Inr 200) \<and>
         vh_request vh ''POST'' ''/v1/sys/storage/raft/snapshot-force'' tok snapshot w1 = (w', Inr (status, raw)) \<and> status < 300)"
        using False by blast
      then show ?thesis using res False by blast
    qed
  qed
qed

text \<open>A verified Vault has every engine the program needs.\<close>

theorem verified_vault_has_engines:
  assumes "verify_restored vh addr token init_file w = Some (w', Inr paths)"
  shows "sorted paths \<and> set REQUIRED_MOUNTS \<subseteq> set paths"
proof -
  obtain mounts where m: "required_paths mounts = Inr paths"
    using assms by (auto simp: verify_restored_def rbind_Inr_iff split: sum.splits)
  then obtain d where "(case d of JObj kvs \<Rightarrow> Inr (sort (map fst kvs)) | _ \<Rightarrow> Inl (OtherError ''AttributeError'')) = Inr paths"
    by (auto simp: required_paths_def mount_paths_def rbind_Inr_iff Let_def split: if_splits)
  then have "sorted paths" by (cases d) auto
  moreover have "set REQUIRED_MOUNTS \<subseteq> set paths"
    using m by (auto simp: required_paths_def rbind_Inr_iff Let_def filter_empty_conv split: if_splits)
  ultimately show ?thesis by blast
qed

text \<open>
  The wait with unseal keys has no bound: against a Vault that takes the keys and seals itself again at once, it goes
  round without looking at the clock, and the verification never returns.
\<close>

lemma active_loop_spins:
  assumes "\<And>w. \<exists>w1. health_status vh addr w = (w1, Inr 503)" and "\<And>w. \<exists>w1. unseal vh addr keys w = (w1, Inr ())" and "truthy keys"
  shows "active_loop vh addr timeout deadline keys w = None"
proof -
  have turn: "\<exists>w1. active_turn vh addr timeout deadline keys w = Inl w1" for w
  proof -
    obtain w1 where "health_status vh addr w = (w1, Inr 503)" using assms(1) by blast
    moreover obtain w2 where "unseal vh addr keys w1 = (w2, Inr ())" using assms(2) by blast
    ultimately show ?thesis using assms(3) by (simp add: active_turn_def)
  qed
  have "v = vh \<and> a = addr \<and> t = timeout \<and> d = deadline \<and> k = keys \<longrightarrow> False" if "active_loop v a t d k w = Some y" for v a t d k w y
  proof (rule active_loop.raw_induct [OF _ that])
    fix f v a t d k w y
    assume IH: "\<And>v a t d k w y. f v a t d k w = Some y \<Longrightarrow> v = vh \<and> a = addr \<and> t = timeout \<and> d = deadline \<and> k = keys \<longrightarrow> False"
      and step: "(case active_turn v a t d k w of Inl w' \<Rightarrow> f v a t d k w' | Inr res \<Rightarrow> Some res) = Some y"
    show "v = vh \<and> a = addr \<and> t = timeout \<and> d = deadline \<and> k = keys \<longrightarrow> False"
    proof
      assume eq: "v = vh \<and> a = addr \<and> t = timeout \<and> d = deadline \<and> k = keys"
      obtain w1 where "active_turn v a t d k w = Inl w1" using turn [of w] eq by auto
      with step IH [of v a t d k w1 y] eq show False by simp
    qed
  qed
  then have "active_loop vh addr timeout deadline keys w \<noteq> Some y" for y by blast
  then show ?thesis by (rule not_Some_eq [THEN iffD1, OF allI])
qed

text \<open>A Vault with a clock: it answers by path, and every request takes a millisecond.\<close>

definition answering_vault :: "(string \<Rightarrow> int \<times> string) \<Rightarrow> int vault_host" where
  "answering_vault answer = \<lparr>vh_request = (\<lambda>m p t b w. (w + 1, Inr (answer p))), vh_monotonic = (\<lambda>w. w), vh_sleep = (\<lambda>d w. w + d),
     vh_read_file = (\<lambda>_ _. Inr (''{'' @ json_string ''keys_base64'' @ '':['' @ json_string ''k1'' @ '']}''))\<rparr>"

lemma answering_vault_clock: "clock_laws (answering_vault answer)"
  by (simp add: clock_laws_def answering_vault_def)

definition standby_answers :: "string \<Rightarrow> int \<times> string" where
  "standby_answers path =
     (if path = ''/v1/sys/init'' then (200, ''{'' @ json_string ''initialized'' @ '':true}'')
      else if path = ''/v1/sys/seal-status'' then (200, ''{'' @ json_string ''sealed'' @ '':true}'')
      else if path = ''/v1/sys/unseal'' then (200, ''{'' @ json_string ''sealed'' @ '':false}'')
      else (200, []))"

theorem restore_posts_snapshot_witness:
  "\<exists>w' w0 w1 tok status raw. restore (answering_vault standby_answers) ''http://vault'' ''tok'' ''init.json'' ''SNAP'' 0 = Some (w', Inr ()) \<and>
     health_status (answering_vault standby_answers) ''http://vault'' w0 = (w1, Inr 200) \<and>
     vh_request (answering_vault standby_answers) ''POST'' ''/v1/sys/storage/raft/snapshot-force'' tok ''SNAP'' w1 = (w', Inr (status, raw)) \<and> status < 300"
proof -
  let ?vh = "answering_vault standby_answers"
  have keys: "shipped_keys ?vh ''init.json'' 0 = Inr (JArr [JStr ''k1''])" by code_simp
  have opened: "open_vault ?vh ''http://vault'' ''tok'' (JArr [JStr ''k1'']) 0 = (3, Inr (JStr ''tok''))" by code_simp
  have clock: "vh_monotonic ?vh w = w" for w by (simp add: answering_vault_def)
  have turn: "active_turn ?vh ''http://vault'' 90000 90003 JNull 3 = Inr (4, Inr ())" by code_simp
  have post: "post_snapshot ?vh ''http://vault'' (JStr ''tok'') ''SNAP'' 4 = (5, Inr ())" by code_simp
  have "wait_active ?vh ''http://vault'' 90000 JNull 3 = Some (4, Inr ())"
    unfolding wait_active_def by (subst active_loop.simps) (simp add: turn clock)
  with keys opened post have "restore ?vh ''http://vault'' ''tok'' ''init.json'' ''SNAP'' 0 = Some (5, Inr ())" by (simp add: restore_def)
  with restore_posts_snapshot [OF answering_vault_clock, of standby_answers "''http://vault''" "''tok''" "''init.json''" "''SNAP''" 0]
  show ?thesis by auto
qed

text \<open>The Vault that seals itself again: it answers 503 whenever it is asked, and takes every key.\<close>

definition resealing_answers :: "string \<Rightarrow> int \<times> string" where
  "resealing_answers path = (if path = ''/v1/sys/unseal'' then (200, ''{'' @ json_string ''sealed'' @ '':false}'') else (503, []))"

theorem verify_never_returns:
  "verify_restored (answering_vault resealing_answers) addr token init_file w = None"
proof -
  let ?vh = "answering_vault resealing_answers" and ?keys = "JArr [JStr ''k1'']"
  have "json_loads (''{'' @ json_string ''keys_base64'' @ '':['' @ json_string ''k1'' @ '']}'') = Inr (JObj [(''keys_base64'', ?keys)])" by code_simp
  then have keys: "shipped_keys ?vh init_file w = Inr ?keys"
    by (simp add: shipped_keys_def answering_vault_def field_or_def dict_field_def)
  have "json_loads (''{'' @ json_string ''sealed'' @ '':false}'') = Inr (JObj [(''sealed'', JBool False)])" by code_simp
  then have u: "\<exists>w1. unseal ?vh addr ?keys w = (w1, Inr ())" for w
    by (simp add: unseal_def iterate_def vault_json_def vault_api_def answering_vault_def resealing_answers_def andThen_def flag_of_def dict_field_def)
  have h: "\<exists>w1. health_status ?vh addr w = (w1, Inr 503)" for w
    by (simp add: health_status_def vault_api_def answering_vault_def resealing_answers_def)
  have "wait_active ?vh addr 90000 ?keys w = None" for w
    unfolding wait_active_def by (rule active_loop_spins [OF h u]) simp
  then have "mounts_loop ?vh addr token d ?keys w = None" for d by (subst mounts_loop.simps) simp
  with keys show ?thesis by (simp add: verify_restored_def)
qed

text \<open>
  Bootstrapping Transit again changes nothing, provided Vault refuses a second engine on a path and keeps a key it
  created; a key that is there already, derived or not, is taken as it is.
\<close>

theorem transit_bootstrap_idempotent:
  assumes "transit_main ta kn mount v = (v', Inr (0, out))"
    and "\<And>v'. ta_read_key ta kn mount v' = Inr () \<Longrightarrow> ta_enable_engine ta mount v' = (v', Inl (VaultInvalidRequest ''path is already in use at transit/''))"
    and "\<And>v v'. ta_create_key ta kn mount True v = (v', Inr ()) \<Longrightarrow> ta_read_key ta kn mount v' = Inr ()"
    and "ta_authenticated ta v'"
  shows "\<exists>out'. transit_main ta kn mount v' = (v', Inr (0, out'))"
proof -
  have used: "contains ''path is already in use'' ''path is already in use at transit/''" by code_simp
  obtain w engine where "enable_transit_idempotent ta mount v = (w, Inr engine)"
    and key: "\<exists>k. create_key_idempotent ta kn mount w = (v', Inr k)"
    using assms(1) by (auto simp: transit_main_def andThen_Inr_iff returning_def split: if_splits)
  then obtain k where k: "create_key_idempotent ta kn mount w = (v', Inr k)" by blast
  have read: "ta_read_key ta kn mount v' = Inr ()"
  proof (cases "ta_read_key ta kn mount w")
    case (Inl e)
    then have "ta_create_key ta kn mount True w = (v', Inr ())"
      using k by (cases e) (auto simp: create_key_idempotent_def andThen_Inr_iff returning_def)
    then show ?thesis by (rule assms(3))
  qed (use k in \<open>simp add: create_key_idempotent_def\<close>)
  then show ?thesis
    using assms(2) [OF read] assms(4) used
    by (simp add: transit_main_def enable_transit_idempotent_def create_key_idempotent_def andThen_def returning_def)
qed

end
