(* ===== verification/Certs_Due.thy ===== *)
theory Certs_Due
  imports Cert_Cli
begin

text \<open>
  \<^verbatim>\<open>scripts/certs_due.py\<close>: the check that decides whether the leaves on disk are due for rotation. Reading a file and
  parsing its PEM blocks is a parameter, and so is floating point rounding, as in the certificate commands, with
  which the check agrees.
\<close>

text \<open>\<^verbatim>\<open>None\<close> is a certificate without basic constraints.\<close>

record leaf_cert =
  lc_not_before :: int
  lc_not_after :: int
  lc_ca :: "bool option"

definition EXIT_OK :: int where "EXIT_OK = 0"

definition EXIT_ERROR :: int where "EXIT_ERROR = 2"

definition EXIT_DUE :: int where "EXIT_DUE = 10"

definition DEFAULT_LEAVES :: "string list" where
  "DEFAULT_LEAVES = [''mysql/server.crt'', ''mysql/client.crt'', ''server.crt'', ''client.crt'']"

definition is_ca :: "leaf_cert \<Rightarrow> bool" where
  "is_ca cert = (case lc_ca cert of None \<Rightarrow> False | Some b \<Rightarrow> b)"

definition elapsed_pct :: "(rat \<Rightarrow> rat) \<Rightarrow> leaf_cert \<Rightarrow> int \<Rightarrow> rat" where
  "elapsed_pct fl cert t =
     (let start = lc_not_before cert; window = total_seconds fl (lc_not_after cert - start) in
      if window \<le> 0 then 100 else fl (fl (total_seconds fl (t - start) / window) * 100))"

definition check_file :: "(rat \<Rightarrow> rat) \<Rightarrow> (string \<Rightarrow> leaf_cert list result) \<Rightarrow> rat \<Rightarrow> int \<Rightarrow> string \<Rightarrow> bool result" where
  "check_file fl load threshold_pct t path =
     rbind (load path) (\<lambda>certs.
       let leaves = filter (\<lambda>c. \<not> is_ca c) certs in
       if leaves = [] then Inl (ValueError ''no leaf certificate in file (only CA certs)'')
       else Inr (list_ex (\<lambda>c. threshold_pct \<le> elapsed_pct fl c t) leaves))"

fun check_files :: "(rat \<Rightarrow> rat) \<Rightarrow> (string \<Rightarrow> leaf_cert list result) \<Rightarrow> rat \<Rightarrow> int \<Rightarrow> bool \<Rightarrow> string list \<Rightarrow> int result" where
  "check_files fl load threshold_pct t any_due [] = Inr (if any_due then EXIT_DUE else EXIT_OK)"
| "check_files fl load threshold_pct t any_due (path # paths) =
     (case check_file fl load threshold_pct t path of
        Inl (OSError _) \<Rightarrow> Inr EXIT_ERROR
      | Inl (ValueError _) \<Rightarrow> Inr EXIT_ERROR
      | Inl e \<Rightarrow> Inl e
      | Inr d \<Rightarrow> check_files fl load threshold_pct t (d \<or> any_due) paths)"

definition certs_due_main :: "(rat \<Rightarrow> rat) \<Rightarrow> (string \<Rightarrow> leaf_cert list result) \<Rightarrow> int \<Rightarrow> string list \<Rightarrow> string \<Rightarrow> rat \<Rightarrow> int result" where
  "certs_due_main fl load t files tls_dir threshold_pct =
     check_files fl load threshold_pct t False
       (if files \<noteq> [] then files else map (\<lambda>rel. tls_dir @ ''/'' @ rel) DEFAULT_LEAVES)"

section \<open>Correctness\<close>

lemma check_files_code:
  assumes "\<And>p e. p \<in> set paths \<Longrightarrow> load p = Inl e \<Longrightarrow> \<exists>m. e = OSError m \<or> e = ValueError m"
  shows "check_files fl load th t any_due paths = Inr (
     if \<exists>p \<in> set paths. \<exists>e. check_file fl load th t p = Inl e then EXIT_ERROR
     else if any_due \<or> (\<exists>p \<in> set paths. check_file fl load th t p = Inr True) then EXIT_DUE else EXIT_OK)"
  using assms
proof (induction paths arbitrary: any_due)
  case (Cons p paths)
  show ?case
  proof (cases "check_file fl load th t p")
    case (Inl e)
    then obtain m where "e = OSError m \<or> e = ValueError m"
      using Cons.prems [of p] by (auto simp: check_file_def rbind_Inl_iff Let_def split: if_splits)
    with Inl show ?thesis by auto
  next
    case (Inr d)
    have ih: "check_files fl load th t x paths = Inr (
       if \<exists>p \<in> set paths. \<exists>e. check_file fl load th t p = Inl e then EXIT_ERROR
       else if x \<or> (\<exists>p \<in> set paths. check_file fl load th t p = Inr True) then EXIT_DUE else EXIT_OK)" for x
      by (rule Cons.IH) (rule Cons.prems, simp_all)
    show ?thesis using Inr by (auto simp: ih)
  qed
qed simp

text \<open>
  The exit code: an error as soon as some file cannot be checked, else due exactly when some leaf of some file is past
  the threshold.
\<close>

theorem certs_due_exit_code:
  assumes "\<And>p e. load p = Inl e \<Longrightarrow> \<exists>m. e = OSError m \<or> e = ValueError m" and "files \<noteq> []"
  shows "certs_due_main fl load t files tls_dir th = Inr (
     if \<exists>p \<in> set files. \<exists>e. check_file fl load th t p = Inl e then EXIT_ERROR
     else if \<exists>p \<in> set files. \<exists>certs. load p = Inr certs \<and> (\<exists>c \<in> set certs. \<not> is_ca c \<and> th \<le> elapsed_pct fl c t) then EXIT_DUE
     else EXIT_OK)"
proof -
  have "check_file fl load th t p = Inr True \<longleftrightarrow> (\<exists>certs. load p = Inr certs \<and> (\<exists>c \<in> set certs. \<not> is_ca c \<and> th \<le> elapsed_pct fl c t))" for p
    by (auto simp: check_file_def rbind_Inr_iff Let_def list_ex_iff filter_empty_conv)
  then show ?thesis
    using check_files_code [of files load fl th t False] assms by (simp add: certs_due_main_def)
qed

text \<open>
  The check on disk and \<^verbatim>\<open>certs renew --due\<close> agree: up to a threshold of 100 per cent, a leaf is past it exactly when
  the row with its validity is due.
\<close>

theorem file_check_agrees_with_renewal:
  assumes "lc_not_before c = crt_not_before row" and "lc_not_after c = crt_not_after row" and "th \<le> 100"
  shows "th \<le> elapsed_pct fl c t \<longleftrightarrow> row_is_due fl row th t"
  using assms by (simp add: elapsed_pct_def row_is_due_def Let_def)

end
