(* ===== verification/Spec2Isabelle.thy ===== *)
theory Spec2Isabelle
  imports Ipam Auth Audit_Log Enrollment Locks Rate_Limit Wireguard Host_Ssh Tasks Task_Props Reconfigure
    Enroll_App Enroll_Limits Api_Outcomes System Proxy_Listener Pki_Bootstrap
    Crypto Ssh_Ca Backup_Props Cert_Cli_Props Cli Cli_Admin Evidence_Props Metrics Web_App
    Tracing Responses Vault_Restore Certs_Due
begin

text \<open>
  Verification of the \<^verbatim>\<open>wg_manager\<close> control plane (\<^verbatim>\<open>src/src/wg_manager\<close>), a FastAPI and
  Celery service that registers WireGuard hubs and clients, configures them over SSH,
  and lets hosts enroll themselves with tokens.

  \<^bold>\<open>Parts and theories.\<close> A request reaches the operator API through the mTLS middleware
  (\<^verbatim>\<open>auth.py\<close>: \<^verbatim>\<open>Auth\<close>), which resolves the client certificate to an operator and to
  the tenants it may act in (\<^verbatim>\<open>tenant_scope.py\<close>: \<^verbatim>\<open>Tenant_Scope\<close>). Handlers work on the
  tables of \<^verbatim>\<open>models.py\<close> (\<^verbatim>\<open>Models\<close>: one record per table, the state is the lists of committed
  rows plus the task queue; \<^verbatim>\<open>Row_Store\<close>: keys, unique columns and references) and record
  what they do (\<^verbatim>\<open>audit.py\<close>, \<^verbatim>\<open>routers/audit.py\<close>: \<^verbatim>\<open>Audit_Log\<close>). One theory per router models its
  handlers: \<^verbatim>\<open>Ssh_Keys\<close>, \<^verbatim>\<open>Servers\<close>, \<^verbatim>\<open>Clients\<close>, \<^verbatim>\<open>Tenants\<close>, \<^verbatim>\<open>Tokens_Api\<close>
  (\<^verbatim>\<open>routers/enrollment_tokens.py\<close>) and \<^verbatim>\<open>Certs\<close> (\<^verbatim>\<open>routers/certs.py\<close>), on the guards they share
  (\<^verbatim>\<open>Router_Gate\<close>). Client addresses come from \<^verbatim>\<open>ipam.py\<close> (\<^verbatim>\<open>Ipam\<close>), on top of the parts of Python's
  \<^verbatim>\<open>ipaddress\<close> the program uses (\<^verbatim>\<open>Ip_Address\<close>, \<^verbatim>\<open>Ip_Address6\<close>, \<^verbatim>\<open>Ip_Text\<close>).

  Work on remote hosts runs in Celery tasks (\<^verbatim>\<open>tasks.py\<close>: \<^verbatim>\<open>Tasks\<close>) under advisory row locks
  (\<^verbatim>\<open>locks.py\<close>: \<^verbatim>\<open>Locks\<close>); the tasks drive the command sequences of \<^verbatim>\<open>wireguard.py\<close> (\<^verbatim>\<open>Wireguard\<close>) and
  the host-certificate installation of \<^verbatim>\<open>host_ssh.py\<close> (\<^verbatim>\<open>Host_Ssh\<close>) through the runners and the host
  key policy of \<^verbatim>\<open>ssh.py\<close> and \<^verbatim>\<open>bootstrap_ssh.py\<close> (\<^verbatim>\<open>Ssh_Policy\<close>), with certificates of the SSH
  authority (\<^verbatim>\<open>ssh_ca.py\<close>: \<^verbatim>\<open>Ssh_Ca\<close>) and bootstrap keys encrypted by \<^verbatim>\<open>crypto.py\<close> (\<^verbatim>\<open>Crypto\<close>). TLS
  certificates come from \<^verbatim>\<open>pki.py\<close> (\<^verbatim>\<open>Pki\<close>, \<^verbatim>\<open>Pki_Bootstrap\<close>).

  On the public listener a host redeems an enrollment token (\<^verbatim>\<open>enrollment.py\<close>: \<^verbatim>\<open>Enrollment\<close>;
  \<^verbatim>\<open>enroll_app.py\<close>: \<^verbatim>\<open>Enroll_App\<close>) behind per-source rate limits (\<^verbatim>\<open>ratelimit.py\<close>: \<^verbatim>\<open>Rate_Limit\<close>; the
  middleware: \<^verbatim>\<open>Enroll_Limits\<close>), where \<^verbatim>\<open>proxy_protocol.py\<close> recovers the address of a client behind a
  load balancer (\<^verbatim>\<open>Proxy_Protocol\<close>, \<^verbatim>\<open>Proxy_Headers\<close>, \<^verbatim>\<open>Proxy_Listener\<close>; byte strings: \<^verbatim>\<open>Bytes\<close>).

  The command line client (\<^verbatim>\<open>cli.py\<close>) has three theories: \<^verbatim>\<open>Cli\<close> (the commands that call the API and
  wait for its tasks, the enrollment-token commands and \<^verbatim>\<open>bootstrap-host\<close>), \<^verbatim>\<open>Cli_Admin\<close> (operators
  and tenants, which write the database directly) and \<^verbatim>\<open>Cert_Cli\<close> (issuing, renewing and revoking
  certificates, with the files they leave). The dump and restore of the database (\<^verbatim>\<open>cli.py\<close>) is
  \<^verbatim>\<open>Backup\<close>, on the reader and writer of JSON (\<^verbatim>\<open>Json\<close>) and of ISO instants (\<^verbatim>\<open>Datetime\<close>); the evidence
  pack for auditors (\<^verbatim>\<open>evidence.py\<close>) is \<^verbatim>\<open>Evidence\<close>.

  What runs around the handlers: the settings, their validators and defaults, the start-up guard, the
  engine and the start of both listeners (\<^verbatim>\<open>config.py\<close>, \<^verbatim>\<open>main.py\<close>, \<^verbatim>\<open>db.py\<close>, \<^verbatim>\<open>tls_listeners.py\<close>, \<^verbatim>\<open>__main__.py\<close>,
  \<^verbatim>\<open>enroll_listener.py\<close>: \<^verbatim>\<open>Settings\<close>); the application as \<^verbatim>\<open>create_app\<close> stacks it, with the client certificate
  put on the scope (\<^verbatim>\<open>_tls_uvicorn.py\<close>), the deprecation envelope (\<^verbatim>\<open>api_versioning.py\<close>), the probes and the task
  status (\<^verbatim>\<open>Web_App\<close>); the response models (\<^verbatim>\<open>schemas.py\<close>) and the audit listing (\<^verbatim>\<open>Responses\<close>); the metrics
  of requests, tasks, Vault calls and certificates (\<^verbatim>\<open>metrics.py\<close>: \<^verbatim>\<open>Metrics\<close>) and of the enrollment
  listener (\<^verbatim>\<open>enroll_metrics.py\<close>: \<^verbatim>\<open>Enroll_Metrics\<close>); the Vault audit device (\<^verbatim>\<open>vault_audit.py\<close>: \<^verbatim>\<open>Vault_Audit\<close>) and the
  set-up of tracing (\<^verbatim>\<open>tracing.py\<close>: \<^verbatim>\<open>Tracing\<close>). Of the operator scripts, \<^verbatim>\<open>scripts/vault_restore.py\<close> and the bootstrap of Transit
  and of the audit device are \<^verbatim>\<open>Vault_Restore\<close>, and \<^verbatim>\<open>scripts/certs_due.py\<close> is \<^verbatim>\<open>Certs_Due\<close>.

  \<^bold>\<open>How code becomes definitions.\<close> A handler is a function from the state to the state it
  leaves and an exception or a result; one database session is \<^term>\<open>atomically\<close>, which
  discards everything when an exception is raised before the commit. State outside the
  database (Vault, remote hosts, a connection) is threaded with \<^term>\<open>andThen\<close> and is not rolled
  back. Exceptions are the datatype \<^typ>\<open>exn\<close>. Column updates are \<^term>\<open>upd_where\<close>, primary-key
  lookups \<^term>\<open>get_row\<close>; violations of unique and foreign keys are checked where a row is
  flushed. Instants are integers of microseconds. SHA-256, the rendering of instants, the
  broker, Redis, the lock functions of MySQL, Paramiko, Vault, Fernet and the parsers and
  signers of certificates are arguments of the definitions that use them, and what the code
  relies on of them is a named hypothesis (\<^verbatim>\<open>..._laws\<close>, \<^verbatim>\<open>named_locks\<close>, \<^verbatim>\<open>vault_revocations\<close>, \<^term>\<open>connect_asks_policy\<close>).
  The constraints of \<^verbatim>\<open>Row_Store\<close> and of the tables in \<^verbatim>\<open>Backup\<close> are the database's part and model
  no code.

  \<^bold>\<open>Interfaces.\<close> Contracts are locales, interpreted on the model's own definitions:
  \<^verbatim>\<open>keyed_table\<close> (tables), \<^verbatim>\<open>scoped_resource\<close> and \<^verbatim>\<open>gated_mutation\<close> (what every router promises of
  its rows), \<^verbatim>\<open>named_locks\<close> (interpreted for every way a network loses its answers), \<^verbatim>\<open>rate_limiter\<close>, \<^verbatim>\<open>pki_issuer\<close> and its
  extension \<^verbatim>\<open>pki_backend\<close>, \<^verbatim>\<open>vault_revocations\<close> (the revocation lists of a shared Vault, from which \<^verbatim>\<open>pki_backend\<close> follows),
  \<^verbatim>\<open>ssh_signer\<close> (both SSH authorities), and \<^verbatim>\<open>enroll_metrics\<close> with its client \<^verbatim>\<open>counting_listener\<close> (both counter
  stores of the enrollment listener).

  \<^bold>\<open>What is shown.\<close>
  \<^item> Addresses: an allocated address is the lowest free one and exhaustion is reported
    exactly when none is (\<^verbatim>\<open>Ipam\<close>); no two clients of a hub share an address in any state that
    serial transactions reach (\<^verbatim>\<open>Address_Plan\<close>, \<^verbatim>\<open>System\<close>), while a stale snapshot can repeat one (\<^verbatim>\<open>Enroll_App\<close>); tenant pools stay disjoint (\<^verbatim>\<open>Tenants\<close>).
  \<^item> Access: who reaches the application and with which scope while the lookups of the middleware
    answer (\<^verbatim>\<open>Auth\<close>); creates land in authorised tenants (\<^verbatim>\<open>Tenant_Scope\<close>, \<^verbatim>\<open>Servers\<close>); through the update and delete
    endpoints of hubs, clients and keys a caller changes no row of a tenant it has no write role in, the
    list and get endpoints depend on visible rows only, and get, update and delete answer for hidden rows
    like for missing ones (\<^verbatim>\<open>Api\<close>; other endpoints are not scoped); a revoked certificate no longer gets in,
    unless the registry cannot be read, which is shown too (\<^verbatim>\<open>Cert_Props\<close>).
  \<^item> The database: which handlers check everything their writes can violate, so that a conflict is a
    409 or 404 and never an error at commit, and which can still fail there (\<^verbatim>\<open>Api_Outcomes\<close>); the steps of
    the whole system as an inductive relation, on rows that keep the declared constraints (\<^verbatim>\<open>System\<close>).
  \<^item> Enrollment: what a redemption admits, that a token is never used more often than it was
    minted for, uniform rejections (\<^verbatim>\<open>Enroll_App\<close>, \<^verbatim>\<open>Enrollment\<close>), the bounds on attempts, one request
    after the other and interleaved (\<^verbatim>\<open>Rate_Limit\<close>, \<^verbatim>\<open>Enroll_Limits\<close>); the PROXY listener behaves as the byte stream says however it
    is cut, serves only behind a header, and no connection waits for ever (\<^verbatim>\<open>Proxy_Listener\<close>).
  \<^item> Tasks: the generation protocol of reconfigurations as a step relation with its
    invariant and the task body as a refinement of it (\<^verbatim>\<open>Reconfigure\<close>); discovery is
    authoritative, the sweep covers every lapsing certificate, provisioning settles the status
    (\<^verbatim>\<open>Task_Props\<close>); locks are never stranded, however a release fails (\<^verbatim>\<open>Locks\<close>); reading a rendered hub configuration
    section by section gives back its clients (\<^verbatim>\<open>Wireguard\<close>).
  \<^item> Trust in hosts: a session only comes up with a host that offers a certificate naming the
    authority, the dialled name and the present (the policy does not verify the signature), and a certified host stays reachable while its certificate is valid
    (\<^verbatim>\<open>Ssh_Policy\<close>, \<^verbatim>\<open>Ssh_Ca\<close>); the bootstrap key encrypted at registration is the one the task
    dials with (\<^verbatim>\<open>Crypto\<close>); Vault's PKI roles have one use each (\<^verbatim>\<open>Pki_Bootstrap\<close>).
  \<^item> Command line: waiting for a task ends (\<^verbatim>\<open>Cli\<close>); a host certified by \<^verbatim>\<open>bootstrap-host\<close> is
    accepted by production sessions; the tenant commands agree with the endpoints and a seeded
    operator gets in (\<^verbatim>\<open>Cli_Admin\<close>); \<^verbatim>\<open>certs renew --due\<close> renews exactly the due rows and is
    idempotent, and with Vault revoked rows are on the revocation list over any mix of requests and
    commands, which fails for the local backend (\<^verbatim>\<open>Cert_Cli_Props\<close>).
  \<^item> Backups: a backup restores the rows it was taken of, and a failed restore changes nothing (\<^verbatim>\<open>Backup_Props\<close>).
  \<^item> Evidence and audit: the slice of the Vault log is exactly the lines of the window and its report
    counts over the whole log, a pack verifies against its own digests (\<^verbatim>\<open>Evidence_Props\<close>); what was recorded
    is what the pages of the audit listing show, once and newest first (\<^verbatim>\<open>Responses\<close>).
  \<^item> The running service: in the production posture nothing behind the authentication can be told apart
    without the certificate of an active operator (\<^verbatim>\<open>Web_App\<close>); with validated settings the sweeps renew every
    ready hub and SSH client in time, replicas past the start-up guard share their authorities, no listener and no
    database connection is in clear text (\<^verbatim>\<open>Settings\<close>).
  \<^item> Observability: the counters of the enrollment listener add up to the answers it gave, unhandled errors apart
    (\<^verbatim>\<open>Enroll_Metrics\<close>); path labels are bounded, the gauge of host certificates and the sweep agree, a Vault
    call behaves the same with and without its wrapper (\<^verbatim>\<open>Metrics\<close>); the Vault audit device is
    enabled once (\<^verbatim>\<open>Vault_Audit\<close>), and the first set-up of tracing wins (\<^verbatim>\<open>Tracing\<close>).
  \<^item> Recovery: a restore of Vault ends and posts exactly the snapshot to the active node, a verified Vault
    has every engine, and the wait with unseal keys has no bound (\<^verbatim>\<open>Vault_Restore\<close>); the check of the
    leaves on disk agrees with \<^verbatim>\<open>certs renew --due\<close> (\<^verbatim>\<open>Certs_Due\<close>).

  \<^bold>\<open>Bounds and fuel.\<close> No definition uses fuel: recursion is structural or has a
  termination proof (\<^term>\<open>first_free\<close> by the number of addresses left, the JSON reader by the
  length of the text); the polling loop of the client, which ends only because its clock advances,
  is a \<^verbatim>\<open>partial_function\<close> whose termination is a theorem (\<^verbatim>\<open>Cli.wait_task_returns\<close>), and so are the waiting loops
  of \<^verbatim>\<open>Vault_Restore\<close>, one of which is shown to end and the other not to. \<^verbatim>\<open>uint64\<close> columns are
  kept at their width in \<^verbatim>\<open>Models\<close>.

  \<^bold>\<open>Not modelled.\<close> The text format of Prometheus, the OpenTelemetry packages, uvicorn and the routing
  and CORS middleware of FastAPI, which are libraries; reading the environment into the settings
  (pydantic); \<^verbatim>\<open>deps.py\<close> and the sessions of \<^verbatim>\<open>db.py\<close>, which only hand modelled values to the framework; X25519 key
  generation; and the remaining scripts under \<^verbatim>\<open>scripts/\<close> (smoke tests, entry points of modelled functions, release
  tooling). Text is ASCII.
\<close>

end
